(* ===== verification/Prelude.thy ===== *)
theory Prelude
  imports Main "HOL-Library.Word" "HOL-Library.Signed_Division" "HOL-Library.Multiset"
    "HOL-Library.List_Lexorder" "HOL-Library.Char_ord"
begin

text \<open>
  Shared vocabulary of the development: the Go integer types and their wrap-around
  arithmetic, the result type of fallible functions, and the list and map facts that
  several components use.

  A Go \<open>int64\<close> is modelled by an \<open>int\<close> and every arithmetic operator of the source by an
  operation that wraps the mathematical result into \<open>[-2^63, 2^63)\<close>, as the hardware does;
  the Go specification makes signed overflow wrap silently. Division and remainder truncate
  towards zero. A Go \<open>string\<close> is a byte string, \<^typ>\<open>string\<close>, ordered bytewise.
\<close>

named_theorems i64_arith \<open>wrap-around arithmetic that did not wrap\<close>
named_theorems i64_range \<open>membership in the int64 range\<close>

section \<open>Go integers\<close>

type_synonym int64 = int

definition MinInt64 :: int where "MinInt64 = - (2 ^ 63)"

definition MaxInt64 :: int where "MaxInt64 = 2 ^ 63 - 1"

definition is_i64 :: "int \<Rightarrow> bool" where
  "is_i64 x \<longleftrightarrow> MinInt64 \<le> x \<and> x \<le> MaxInt64"

definition wrap64 :: "int \<Rightarrow> int64" where
  "wrap64 x = (x + 2 ^ 63) mod 2 ^ 64 - 2 ^ 63"

definition add64 :: "int64 \<Rightarrow> int64 \<Rightarrow> int64" where "add64 a b = wrap64 (a + b)"

definition sub64 :: "int64 \<Rightarrow> int64 \<Rightarrow> int64" where "sub64 a b = wrap64 (a - b)"

definition mul64 :: "int64 \<Rightarrow> int64 \<Rightarrow> int64" where "mul64 a b = wrap64 (a * b)"

text \<open>The quotient and the remainder of Go truncate towards zero; the divisor is not zero at
  any use in this development, and \<open>MinInt64 / -1\<close> wraps.\<close>

definition quot64 :: "int64 \<Rightarrow> int64 \<Rightarrow> int64" where "quot64 a b = wrap64 (a sdiv b)"

definition rem64 :: "int64 \<Rightarrow> int64 \<Rightarrow> int64" where "rem64 a b = wrap64 (a smod b)"

lemma wrap64_in_range [i64_range]: "is_i64 (wrap64 x)"
proof -
  have "0 \<le> (x + 2 ^ 63) mod 2 ^ 64" "(x + 2 ^ 63) mod 2 ^ 64 < (2 ^ 64 :: int)"
    by simp_all
  then show ?thesis
    unfolding is_i64_def wrap64_def MinInt64_def MaxInt64_def by simp
qed

lemma wrap64_id [i64_arith]:
  assumes "is_i64 x"
  shows "wrap64 x = x"
proof -
  from assms have "0 \<le> x + 2 ^ 63" "x + 2 ^ 63 < 2 ^ 64"
    unfolding is_i64_def MinInt64_def MaxInt64_def by simp_all
  then show ?thesis
    unfolding wrap64_def by simp
qed

lemma wrap64_idem [simp]: "wrap64 (wrap64 x) = wrap64 x"
  by (rule wrap64_id) (rule wrap64_in_range)

lemma is_i64_ops [i64_range]:
  "is_i64 (add64 a b)" "is_i64 (sub64 a b)" "is_i64 (mul64 a b)"
  "is_i64 (quot64 a b)" "is_i64 (rem64 a b)"
  by (simp_all add: add64_def sub64_def mul64_def quot64_def rem64_def wrap64_in_range)

lemma add64_id [i64_arith]: "is_i64 (a + b) \<Longrightarrow> add64 a b = a + b"
  by (simp add: add64_def wrap64_id)

lemma sub64_id [i64_arith]: "is_i64 (a - b) \<Longrightarrow> sub64 a b = a - b"
  by (simp add: sub64_def wrap64_id)

lemma mul64_id [i64_arith]: "is_i64 (a * b) \<Longrightarrow> mul64 a b = a * b"
  by (simp add: mul64_def wrap64_id)

lemma is_i64_between:
  assumes "0 \<le> x" and "x \<le> b" and "b \<le> MaxInt64"
  shows "is_i64 x"
  using assms by (simp add: is_i64_def MinInt64_def)

lemma sdiv_nonneg:
  fixes a b :: int
  assumes "0 \<le> a" and "0 \<le> b"
  shows "a sdiv b = a div b"
proof (cases "a = 0 \<or> b = 0")
  case True
  then show ?thesis by (auto simp: signed_divide_int_def)
next
  case False
  with assms show ?thesis by (simp add: signed_divide_int_def)
qed

lemma smod_nonneg:
  fixes a b :: int
  assumes "0 \<le> a" and "0 \<le> b"
  shows "a smod b = a mod b"
  using assms by (cases "a = 0") (simp_all add: signed_modulo_int_def)

lemma div_nonneg_le:
  fixes a b :: int
  assumes "0 \<le> a" and "0 < b"
  shows "0 \<le> a div b \<and> a div b \<le> a"
proof -
  have "a div b \<le> a div 1" using assms by (intro zdiv_mono2) simp_all
  with assms show ?thesis by (simp add: pos_imp_zdiv_nonneg_iff)
qed

lemma quot64_id:
  assumes "0 \<le> a" and "a \<le> MaxInt64" and "0 < b"
  shows "quot64 a b = a div b"
proof -
  from assms(1,3) have "0 \<le> a div b" "a div b \<le> a"
    using div_nonneg_le by blast+
  then have "is_i64 (a div b)"
    using assms(2) by (intro is_i64_between [where b = a]) simp_all
  then show ?thesis
    using assms by (simp add: quot64_def sdiv_nonneg wrap64_id)
qed

lemma rem64_id:
  assumes "0 \<le> a" and "a \<le> MaxInt64" and "0 < b"
  shows "rem64 a b = a mod b"
proof -
  have "a mod b \<le> a" "0 \<le> a mod b"
    using assms by (simp_all add: zmod_le_nonneg_dividend)
  then have "is_i64 (a mod b)"
    using assms(2) by (intro is_i64_between [where b = a]) simp_all
  then show ?thesis
    using assms by (simp add: rem64_def smod_nonneg wrap64_id)
qed

section \<open>Fallible results\<close>

text \<open>A Go function returning \<open>(T, error)\<close> is a function into a sum: \<open>Inl\<close> carries the error,
  \<open>Inr\<close> the value. A function returning only \<open>error\<close> returns an option: \<open>None\<close> is \<open>nil\<close>.\<close>

fun check_all :: "('a \<Rightarrow> 'e option) \<Rightarrow> 'a list \<Rightarrow> 'e option" where
  "check_all f [] = None"
| "check_all f (x # xs) = (case f x of Some e \<Rightarrow> Some e | None \<Rightarrow> check_all f xs)"

lemma check_all_None_iff [simp]: "check_all f xs = None \<longleftrightarrow> (\<forall>x \<in> set xs. f x = None)"
  by (induction xs) (auto split: option.splits)

lemma check_all_Some_in: "check_all f xs = Some e \<Longrightarrow> \<exists>x \<in> set xs. f x = Some e"
  by (induction xs) (auto split: option.splits)

lemmas result_splits = sum.splits option.splits if_splits prod.splits

section \<open>Lists\<close>

lemma sum_list_list_update_int:
  fixes xs :: "int list"
  assumes "i < length xs"
  shows "sum_list (xs[i := v]) = sum_list xs - xs ! i + v"
  using assms by (induction xs arbitrary: i) (auto split: nat.splits)

lemma sum_list_map_nth_upt:
  "sum_list (map (\<lambda>i. f (xs ! i)) [0..<length xs]) = sum_list (map f xs)"
proof -
  have "map f xs = map f (map ((!) xs) [0..<length xs])" by (simp add: map_nth)
  then show ?thesis by (simp add: comp_def)
qed

lemma sum_list_mset:
  fixes f :: "'a \<Rightarrow> 'b::comm_monoid_add"
  assumes "mset xs = mset ys"
  shows "sum_list (map f xs) = sum_list (map f ys)"
  using assms by (metis mset_map sum_mset_sum_list)

section \<open>Sorting with a comparison function\<close>

text \<open>\<open>cmp.Compare\<close> and \<open>slices.SortFunc\<close>. The library sorts in place and leaves the order of
  elements that compare equal open; the model keeps them in their order of arrival. Where the
  comparison separates all elements the result is the only sorted arrangement, whatever the
  algorithm and the order of arrival (\<open>SortFunc_unique\<close>).\<close>

definition cmp_Compare :: "'a::linorder \<Rightarrow> 'a \<Rightarrow> int" where
  "cmp_Compare a b = (if a < b then - 1 else if a > b then 1 else 0)"

fun insert_func :: "('a \<Rightarrow> 'a \<Rightarrow> int) \<Rightarrow> 'a \<Rightarrow> 'a list \<Rightarrow> 'a list" where
  "insert_func c x [] = [x]"
| "insert_func c x (y # ys) = (if c x y \<le> 0 then x # y # ys else y # insert_func c x ys)"

definition SortFunc :: "('a \<Rightarrow> 'a \<Rightarrow> int) \<Rightarrow> 'a list \<Rightarrow> 'a list" where
  "SortFunc c xs = foldr (insert_func c) xs []"

lemma mset_insert_func [simp]: "mset (insert_func c x ys) = add_mset x (mset ys)"
  by (induction ys) auto

lemma mset_SortFunc [simp]: "mset (SortFunc c xs) = mset xs"
  unfolding SortFunc_def by (induction xs) auto

lemma set_SortFunc [simp]: "set (SortFunc c xs) = set xs"
  using mset_SortFunc [of c xs] by (metis set_mset_mset)

lemma length_SortFunc [simp]: "length (SortFunc c xs) = length xs"
  using mset_SortFunc [of c xs] by (metis size_mset)

lemma distinct_SortFunc [simp]: "distinct (SortFunc c xs) = distinct xs"
  using mset_SortFunc [of c xs] by (rule mset_eq_imp_distinct_iff)

text \<open>A comparison that is total and transitive on the elements it is given.\<close>

definition ordering_on :: "'a set \<Rightarrow> ('a \<Rightarrow> 'a \<Rightarrow> int) \<Rightarrow> bool" where
  "ordering_on A c \<longleftrightarrow>
    (\<forall>x \<in> A. \<forall>y \<in> A. c x y \<le> 0 \<or> c y x \<le> 0) \<and>
    (\<forall>x \<in> A. \<forall>y \<in> A. \<forall>z \<in> A. c x y \<le> 0 \<longrightarrow> c y z \<le> 0 \<longrightarrow> c x z \<le> 0)"

lemma ordering_on_subset: "ordering_on A c \<Longrightarrow> B \<subseteq> A \<Longrightarrow> ordering_on B c"
  unfolding ordering_on_def by blast

lemma ordering_on_trans:
  "ordering_on A c \<Longrightarrow> x \<in> A \<Longrightarrow> y \<in> A \<Longrightarrow> z \<in> A \<Longrightarrow> c x y \<le> 0 \<Longrightarrow> c y z \<le> 0 \<Longrightarrow> c x z \<le> 0"
  unfolding ordering_on_def by blast

lemma set_insert_func [simp]: "set (insert_func c x ys) = insert x (set ys)"
  by (induction ys) auto

lemma insert_func_sorted:
  assumes "ordering_on (insert x (set ys)) c" and "sorted_wrt (\<lambda>a b. c a b \<le> 0) ys"
  shows "sorted_wrt (\<lambda>a b. c a b \<le> 0) (insert_func c x ys)"
  using assms
proof (induction ys)
  case (Cons y ys)
  have sub: "ordering_on (insert x (set ys)) c"
    using Cons.prems(1) by (rule ordering_on_subset) auto
  have tot: "c x y \<le> 0 \<or> c y x \<le> 0"
    using Cons.prems(1) unfolding ordering_on_def by simp
  have tr: "c x z \<le> 0" if "z \<in> set ys" "c x y \<le> 0" "c y z \<le> 0" for z
    by (rule ordering_on_trans [OF Cons.prems(1) _ _ _ that(2,3)]) (simp_all add: that(1))
  show ?case using Cons.IH [OF sub] Cons.prems(2) tot tr by auto
qed simp

lemma SortFunc_sorted:
  assumes "ordering_on (set xs) c"
  shows "sorted_wrt (\<lambda>a b. c a b \<le> 0) (SortFunc c xs)"
  using assms
proof (induction xs)
  case (Cons x xs)
  have "ordering_on (set xs) c" using Cons.prems by (rule ordering_on_subset) auto
  then have "sorted_wrt (\<lambda>a b. c a b \<le> 0) (SortFunc c xs)" by (rule Cons.IH)
  with Cons.prems have "sorted_wrt (\<lambda>a b. c a b \<le> 0) (insert_func c x (SortFunc c xs))"
    by (intro insert_func_sorted) simp_all
  then show ?case by (simp add: SortFunc_def)
qed (simp add: SortFunc_def)

lemma sorted_wrt_unique:
  assumes "sorted_wrt R xs" and "sorted_wrt R ys" and "mset xs = mset ys"
    and anti: "\<And>a b. a \<in> set xs \<Longrightarrow> b \<in> set xs \<Longrightarrow> R a b \<Longrightarrow> R b a \<Longrightarrow> a = b"
  shows "xs = ys"
  using assms
proof (induction xs arbitrary: ys)
  case (Cons x xs)
  then obtain y ys' where ys: "ys = y # ys'" by (cases ys) auto
  have "set (x # xs) = set ys" using Cons.prems(3) by (metis set_mset_mset)
  then have x: "x \<in> set ys" and y: "y \<in> set (x # xs)" using ys by auto
  have "x = y"
  proof (rule ccontr)
    assume "x \<noteq> y"
    then have "R y x" "R x y" using x y ys Cons.prems(1,2) by auto
    with \<open>x \<noteq> y\<close> y Cons.prems(4) show False by auto
  qed
  moreover have "xs = ys'"
    using Cons.prems \<open>x = y\<close> ys by (intro Cons.IH) auto
  ultimately show ?case using ys by simp
qed simp

lemma SortFunc_unique:
  assumes "ordering_on (set xs) c" and "mset xs = mset ys"
    and "\<And>a b. a \<in> set xs \<Longrightarrow> b \<in> set xs \<Longrightarrow> c a b \<le> 0 \<Longrightarrow> c b a \<le> 0 \<Longrightarrow> a = b"
  shows "SortFunc c xs = SortFunc c ys"
proof (rule sorted_wrt_unique [where R = "\<lambda>a b. c a b \<le> 0"])
  have "set xs = set ys" using assms(2) by (metis set_mset_mset)
  then show "sorted_wrt (\<lambda>a b. c a b \<le> 0) (SortFunc c ys)"
    using assms(1) by (intro SortFunc_sorted) simp
qed (use assms in \<open>auto intro: SortFunc_sorted\<close>)

lemma map_insert_func:
  assumes "\<And>a b. c' (f a) (f b) = c a b"
  shows "map f (insert_func c x ys) = insert_func c' (f x) (map f ys)"
  by (induction ys) (auto simp: assms)

lemma map_SortFunc:
  assumes "\<And>a b. c' (f a) (f b) = c a b"
  shows "map f (SortFunc c xs) = SortFunc c' (map f xs)"
  unfolding SortFunc_def by (induction xs) (auto simp: map_insert_func [of c' f c] assms)

end
