(* ===== verification/Errors.thy ===== *)
theory Errors
  imports Prelude
begin

text \<open>
  The typed error model of \<^verbatim>\<open>core/errors/errors.go\<close>.

  A Go \<open>error\<close> interface value is an \<open>error option\<close>: \<open>None\<close> is \<open>nil\<close>. The constructors are the
  three shapes the code distinguishes: a sentinel made by \<open>errors.New\<close> (compared by identity,
  here by its name), the repository's typed \<open>*Error\<close> with its class, its code and the wrapped
  error, and a value that wraps a list of errors (\<open>errors.Join\<close>, and any foreign wrapper).
  The human-readable \<open>Message\<close> and the \<open>Details\<close> map carry no decision of the modelled code
  and are left out; so is the rendering \<open>Error()\<close>.
\<close>

datatype kind =
    KindInternal
  | KindNotFound
  | KindInvalid
  | KindConflict
  | KindUnauthorized
  | KindForbidden
  | KindUnavailable
  | KindTooManyRequests
  | KindPreconditionFailed

fun kind_String :: "kind \<Rightarrow> string" where
  "kind_String KindNotFound = ''not_found''"
| "kind_String KindInvalid = ''invalid''"
| "kind_String KindConflict = ''conflict''"
| "kind_String KindUnauthorized = ''unauthorized''"
| "kind_String KindForbidden = ''forbidden''"
| "kind_String KindUnavailable = ''unavailable''"
| "kind_String KindTooManyRequests = ''too_many_requests''"
| "kind_String KindPreconditionFailed = ''precondition_failed''"
| "kind_String KindInternal = ''internal''"

datatype error =
    Sentinel string
  | Typed kind string "error option"
  | Joined "error list"

definition newError :: "kind \<Rightarrow> string \<Rightarrow> error" where
  "newError k code = Typed k code None"

definition NotFound :: "string \<Rightarrow> error" where "NotFound code = newError KindNotFound code"

definition Invalid :: "string \<Rightarrow> error" where "Invalid code = newError KindInvalid code"

definition Conflict :: "string \<Rightarrow> error" where "Conflict code = newError KindConflict code"

definition Unavailable :: "string \<Rightarrow> error" where
  "Unavailable code = newError KindUnavailable code"

definition Internal :: "string \<Rightarrow> error" where "Internal code = newError KindInternal code"

text \<open>\<open>Wrap\<close> of \<open>nil\<close> is \<open>nil\<close>, so the caller needs no separate check.\<close>

definition Wrap :: "error option \<Rightarrow> kind \<Rightarrow> string \<Rightarrow> error option" where
  "Wrap err k code = (case err of None \<Rightarrow> None | Some e \<Rightarrow> Some (Typed k code (Some e)))"

text \<open>The form used where the wrapped error is known not to be \<open>nil\<close>.\<close>

definition wrap_err :: "error \<Rightarrow> kind \<Rightarrow> string \<Rightarrow> error" where
  "wrap_err e k code = Typed k code (Some e)"

text \<open>\<open>errors.Join\<close> drops the \<open>nil\<close> values and is \<open>nil\<close> when nothing is left.\<close>

definition Join :: "error option list \<Rightarrow> error option" where
  "Join errs = (case [e. Some e \<leftarrow> errs] of [] \<Rightarrow> None | es \<Rightarrow> Some (Joined es))"

text \<open>\<open>errors.As\<close> for the target \<open>*Error\<close>: the first typed error of the tree in pre-order.\<close>

fun as_Error :: "error \<Rightarrow> (kind \<times> string) option"
  and as_Error_list :: "error list \<Rightarrow> (kind \<times> string) option"
where
  "as_Error (Sentinel n) = None"
| "as_Error (Typed k code w) = Some (k, code)"
| "as_Error (Joined es) = as_Error_list es"
| "as_Error_list [] = None"
| "as_Error_list (e # es) = (case as_Error e of Some r \<Rightarrow> Some r | None \<Rightarrow> as_Error_list es)"

text \<open>\<open>errors.Is\<close> for a sentinel: does it occur anywhere in the tree?\<close>

fun err_Is :: "error \<Rightarrow> string \<Rightarrow> bool" where
  "err_Is (Sentinel n) target = (n = target)"
| "err_Is (Typed k code w) target = (case w of None \<Rightarrow> False | Some e \<Rightarrow> err_Is e target)"
| "err_Is (Joined es) target = list_ex (\<lambda>e. err_Is e target) es"

definition KindOf :: "error \<Rightarrow> kind" where
  "KindOf err = (case as_Error err of Some (k, code) \<Rightarrow> k | None \<Rightarrow> KindInternal)"

definition CodeOf :: "error \<Rightarrow> string" where
  "CodeOf err = (case as_Error err of Some (k, code) \<Rightarrow> code | None \<Rightarrow> [])"

definition HasKind :: "error option \<Rightarrow> kind \<Rightarrow> bool" where
  "HasKind err k = (case err of None \<Rightarrow> False | Some e \<Rightarrow> KindOf e = k)"

definition IsNotFound :: "error option \<Rightarrow> bool" where "IsNotFound err = HasKind err KindNotFound"

definition IsInvalid :: "error option \<Rightarrow> bool" where "IsInvalid err = HasKind err KindInvalid"

definition IsConflict :: "error option \<Rightarrow> bool" where "IsConflict err = HasKind err KindConflict"

lemmas error_ctor_defs = newError_def NotFound_def Invalid_def Conflict_def Unavailable_def
  Internal_def wrap_err_def

lemma KindOf_Typed [simp]: "KindOf (Typed k code w) = k"
  by (simp add: KindOf_def)

lemma CodeOf_Typed [simp]: "CodeOf (Typed k code w) = code"
  by (simp add: CodeOf_def)

lemma KindOf_Sentinel [simp]: "KindOf (Sentinel n) = KindInternal"
  by (simp add: KindOf_def)

lemma KindOf_wrap_err [simp]: "KindOf (wrap_err e k code) = k"
  by (simp add: wrap_err_def)

lemma CodeOf_wrap_err [simp]: "CodeOf (wrap_err e k code) = code"
  by (simp add: wrap_err_def)

lemma err_Is_wrap_err [simp]: "err_Is (wrap_err e k code) t = err_Is e t"
  by (simp add: wrap_err_def)

lemma KindOf_ctor [simp]:
  "KindOf (NotFound c) = KindNotFound" "KindOf (Invalid c) = KindInvalid"
  "KindOf (Conflict c) = KindConflict" "KindOf (Unavailable c) = KindUnavailable"
  "KindOf (Internal c) = KindInternal"
  by (simp_all add: error_ctor_defs)

lemma CodeOf_ctor [simp]:
  "CodeOf (NotFound c) = c" "CodeOf (Invalid c) = c" "CodeOf (Conflict c) = c"
  "CodeOf (Unavailable c) = c" "CodeOf (Internal c) = c"
  by (simp_all add: error_ctor_defs)

lemma err_Is_ctor [simp]:
  "\<not> err_Is (NotFound c) t" "\<not> err_Is (Invalid c) t" "\<not> err_Is (Conflict c) t"
  "\<not> err_Is (Unavailable c) t" "\<not> err_Is (Internal c) t"
  by (simp_all add: error_ctor_defs)

lemma Join_None_iff: "Join errs = None \<longleftrightarrow> set errs \<subseteq> {None}"
proof -
  have "[e. Some e \<leftarrow> errs] = [] \<longleftrightarrow> set errs \<subseteq> {None}"
    by (induction errs) (auto split: option.splits)
  then show ?thesis
    by (cases "[e. Some e \<leftarrow> errs]") (simp_all add: Join_def del: concat_eq_Nil_conv)
qed

lemma err_Is_Join:
  "Join errs = Some e \<Longrightarrow> err_Is e t \<longleftrightarrow> (\<exists>x. Some x \<in> set errs \<and> err_Is x t)"
proof -
  have in_set: "x \<in> set [y. Some y \<leftarrow> errs] \<longleftrightarrow> Some x \<in> set errs" for x
    by (induction errs) (auto split: option.splits)
  assume "Join errs = Some e"
  then have "e = Joined [y. Some y \<leftarrow> errs]"
    by (auto simp: Join_def split: list.splits)
  then show ?thesis
    using in_set by (auto simp: list_ex_iff)
qed

text \<open>A wrapped error keeps every sentinel of its cause, and hides the cause's class.\<close>

lemma err_Is_Wrap: "Wrap (Some e) k code = Some e' \<Longrightarrow> err_Is e' t = err_Is e t"
  by (auto simp: Wrap_def)

end
