(* ===== verification/WfStore.thy ===== *)
theory WfStore
  imports Errors
begin

text \<open>
  The durable state of the saga engine: \<^verbatim>\<open>internal/core/workflow/store.go\<close> (the records and the
  \<open>Store\<close> interface) and \<^verbatim>\<open>internal/core/workflow/memory.go\<close> (the in-process store).

  The interface is the locale \<open>execution_store\<close>: its operations over a state type, an invariant
  and the two views a client reads (the executions by id, and which execution holds a key),
  with the laws the engine relies on. It is interpreted on the model of \<open>memoryStore\<close> below.
  A record's \<open>Failure\<close> text is kept as the list of its parts (the parts the code joins with
  \<open>"; "\<close>), each the error whose text is written or a fixed sentence.
\<close>

section \<open>Codes and states\<close>

definition CodeInvalidWorkflow :: string where "CodeInvalidWorkflow = ''workflow_invalid''"

definition CodeStoreFailed :: string where "CodeStoreFailed = ''workflow_store_failed''"

definition CodeExecutionNotFound :: string where
  "CodeExecutionNotFound = ''workflow_execution_not_found''"

definition CodeExecutionExists :: string where
  "CodeExecutionExists = ''workflow_execution_exists''"

datatype status =
    StatusRunning
  | StatusCompleted
  | StatusFailed
  | StatusCompensationFailed
  | StatusOther string

datatype step_status =
    StepInvoked
  | StepFailed
  | StepCompensated
  | StepCompensationFailed
  | StepOther string

definition Held :: "step_status \<Rightarrow> bool" where
  "Held s \<longleftrightarrow> s = StepInvoked \<or> s = StepCompensationFailed"

definition HeldStepStatuses :: "step_status list" where
  "HeldStepStatuses = [StepInvoked, StepCompensationFailed]"

lemma Held_iff_listed: "Held s \<longleftrightarrow> s \<in> set HeldStepStatuses"
  by (simp add: Held_def HeldStepStatuses_def)

definition MaxNameLen :: nat where "MaxNameLen = 128"

definition MaxIdempotencyKeyLen :: nat where "MaxIdempotencyKeyLen = 256"

section \<open>Records\<close>

datatype failure_part = PartErr error | PartText string

type_synonym failure = "failure_part list"

type_synonym json = string

record step_record =
  sr_Name :: string
  sr_Index :: int
  sr_Status :: step_status
  sr_Output :: json
  sr_Failure :: failure
  sr_Attempts :: int
  sr_StartedAt :: int
  sr_EndedAt :: int

record execution =
  ex_ID :: string
  ex_Workflow :: string
  ex_IdempotencyKey :: string
  ex_Status :: status
  ex_Input :: json
  ex_Output :: json
  ex_Failure :: failure
  ex_Steps :: "step_record list"
  ex_CreatedAt :: int
  ex_UpdatedAt :: int

section \<open>The in-process store\<close>

record memory_store =
  byID :: "string \<Rightarrow> execution option"
  byKey :: "string \<times> string \<Rightarrow> string option"

definition NewMemoryStore :: memory_store where
  "NewMemoryStore = \<lparr> byID = Map.empty, byKey = Map.empty \<rparr>"

text \<open>\<open>cloneExecution\<close> and \<open>cloneStep\<close> copy, so that no pointer is shared with the caller; on
  values they are the identity and a stored record is the value that was given.\<close>

definition mem_Create :: "execution option \<Rightarrow> memory_store \<Rightarrow> error option \<times> memory_store" where
  "mem_Create ex s =
    (case ex of
      None \<Rightarrow> (Some (Invalid CodeInvalidWorkflow), s)
    | Some e \<Rightarrow>
        if ex_ID e = [] then (Some (Invalid CodeInvalidWorkflow), s)
        else if ex_Workflow e = [] then (Some (Invalid CodeInvalidWorkflow), s)
        else if byID s (ex_ID e) \<noteq> None then (Some (Conflict CodeExecutionExists), s)
        else if ex_IdempotencyKey e \<noteq> [] then
          (case byKey s (ex_Workflow e, ex_IdempotencyKey e) of
            Some existing \<Rightarrow> (Some (Conflict CodeExecutionExists), s)
          | None \<Rightarrow> (None, s\<lparr> byKey := (byKey s)((ex_Workflow e, ex_IdempotencyKey e) \<mapsto> ex_ID e),
                             byID := (byID s)(ex_ID e \<mapsto> e) \<rparr>))
        else (None, s\<lparr> byID := (byID s)(ex_ID e \<mapsto> e) \<rparr>))"

definition mem_ClaimAbandoned ::
    "string \<Rightarrow> int \<Rightarrow> int \<Rightarrow> memory_store \<Rightarrow> (error + bool) \<times> memory_store" where
  "mem_ClaimAbandoned eid seen now s =
    (case byID s eid of
      None \<Rightarrow> (Inl (NotFound CodeExecutionNotFound), s)
    | Some e \<Rightarrow>
        if ex_Status e \<noteq> StatusRunning \<or> ex_UpdatedAt e \<noteq> seen then (Inr False, s)
        else (Inr True, s\<lparr> byID := (byID s)(eid \<mapsto> e\<lparr> ex_UpdatedAt := now \<rparr>) \<rparr>))"

definition mem_FindByIdempotencyKey ::
    "string \<Rightarrow> string \<Rightarrow> memory_store \<Rightarrow> error + execution option" where
  "mem_FindByIdempotencyKey wn key s =
    (case byKey s (wn, key) of
      None \<Rightarrow> Inl (NotFound CodeExecutionNotFound)
    | Some eid \<Rightarrow>
        (case byID s eid of
          None \<Rightarrow> Inl (Internal CodeStoreFailed)
        | Some e \<Rightarrow> Inr (Some e)))"

text \<open>\<open>slices.IndexFunc\<close> finds the first record with the same Index; it is replaced in place,
  and a record with a new Index is appended.\<close>

fun upsert_step :: "step_record list \<Rightarrow> step_record \<Rightarrow> step_record list" where
  "upsert_step [] rc = [rc]"
| "upsert_step (r # rs) rc = (if sr_Index r = sr_Index rc then rc # rs else r # upsert_step rs rc)"

definition mem_AppendStep ::
    "string \<Rightarrow> step_record \<Rightarrow> int \<Rightarrow> memory_store \<Rightarrow> error option \<times> memory_store" where
  "mem_AppendStep eid rc now s =
    (case byID s eid of
      None \<Rightarrow> (Some (NotFound CodeExecutionNotFound), s)
    | Some e \<Rightarrow>
        (None, s\<lparr> byID := (byID s)(eid \<mapsto>
                   e\<lparr> ex_Steps := upsert_step (ex_Steps e) rc, ex_UpdatedAt := now \<rparr>) \<rparr>))"

definition mem_UpdateStatus ::
    "string \<Rightarrow> status \<Rightarrow> json \<Rightarrow> failure \<Rightarrow> int \<Rightarrow> memory_store \<Rightarrow> error option \<times> memory_store" where
  "mem_UpdateStatus eid st outp fl now s =
    (case byID s eid of
      None \<Rightarrow> (Some (NotFound CodeExecutionNotFound), s)
    | Some e \<Rightarrow>
        let e1 = e\<lparr> ex_Status := st, ex_Output := outp, ex_Failure := fl, ex_UpdatedAt := now \<rparr> in
        if st = StatusFailed \<and> ex_IdempotencyKey e1 \<noteq> [] then
          (None, s\<lparr> byKey := (byKey s)((ex_Workflow e1, ex_IdempotencyKey e1) := None),
                   byID := (byID s)(eid \<mapsto> e1\<lparr> ex_IdempotencyKey := [] \<rparr>) \<rparr>)
        else (None, s\<lparr> byID := (byID s)(eid \<mapsto> e1) \<rparr>))"

definition mem_Get :: "string \<Rightarrow> memory_store \<Rightarrow> error + execution option" where
  "mem_Get eid s =
    (case byID s eid of
      None \<Rightarrow> Inl (NotFound CodeExecutionNotFound)
    | Some e \<Rightarrow> Inr (Some e))"

section \<open>Invariant\<close>

text \<open>The two maps agree: a key points at the one execution that carries it, an execution with a
  key is found by it, an execution is stored under its own id, and the step records of an
  execution have distinct indexes.\<close>

definition mem_inv :: "memory_store \<Rightarrow> bool" where
  "mem_inv s \<longleftrightarrow>
    (\<forall>wn key eid. byKey s (wn, key) = Some eid \<longrightarrow>
       key \<noteq> [] \<and> (\<exists>e. byID s eid = Some e \<and> ex_Workflow e = wn \<and> ex_IdempotencyKey e = key)) \<and>
    (\<forall>eid e. byID s eid = Some e \<longrightarrow>
       ex_ID e = eid \<and> distinct (map sr_Index (ex_Steps e)) \<and>
       (ex_IdempotencyKey e \<noteq> [] \<longrightarrow> byKey s (ex_Workflow e, ex_IdempotencyKey e) = Some eid))"

lemma mem_inv_NewMemoryStore [simp]: "mem_inv NewMemoryStore"
  by (simp add: mem_inv_def NewMemoryStore_def)

lemma mem_inv_keyD:
  assumes "mem_inv s" and "byKey s (wn, key) = Some eid"
  obtains e where "key \<noteq> []" "byID s eid = Some e" "ex_Workflow e = wn" "ex_IdempotencyKey e = key"
  using assms unfolding mem_inv_def by blast

lemma mem_inv_idD:
  assumes "mem_inv s" and "byID s eid = Some e"
  shows "ex_ID e = eid" "distinct (map sr_Index (ex_Steps e))"
    "ex_IdempotencyKey e \<noteq> [] \<Longrightarrow> byKey s (ex_Workflow e, ex_IdempotencyKey e) = Some eid"
  using assms unfolding mem_inv_def by blast+

lemma mem_invI:
  assumes "\<And>wn key eid. byKey s (wn, key) = Some eid \<Longrightarrow> key \<noteq> [] \<and>
      (\<exists>e. byID s eid = Some e \<and> ex_Workflow e = wn \<and> ex_IdempotencyKey e = key)"
    and "\<And>eid e. byID s eid = Some e \<Longrightarrow> ex_ID e = eid \<and> distinct (map sr_Index (ex_Steps e))"
    and "\<And>eid e. byID s eid = Some e \<Longrightarrow> ex_IdempotencyKey e \<noteq> [] \<Longrightarrow>
      byKey s (ex_Workflow e, ex_IdempotencyKey e) = Some eid"
  shows "mem_inv s"
  using assms unfolding mem_inv_def by blast

lemma mem_inv_stepD:
  assumes inv: "mem_inv s" and e: "byID s eid = Some e"
    and same: "ex_ID e' = ex_ID e" "ex_Workflow e' = ex_Workflow e"
      "ex_IdempotencyKey e' = ex_IdempotencyKey e" "distinct (map sr_Index (ex_Steps e'))"
  shows "mem_inv (s\<lparr> byID := (byID s)(eid \<mapsto> e') \<rparr>)"
proof (rule mem_invI, goal_cases)
  case (1 wn key k)
  then have k: "byKey s (wn, key) = Some k" by simp
  with inv obtain e1 where "key \<noteq> []" "byID s k = Some e1" "ex_Workflow e1 = wn"
    "ex_IdempotencyKey e1 = key" by (rule mem_inv_keyD)
  with e same show ?case by auto
next
  case (2 k e1)
  with mem_inv_idD [OF inv e] mem_inv_idD [OF inv, of k] same show ?case
    by (auto split: if_splits)
next
  case (3 k e1)
  with mem_inv_idD [OF inv e] mem_inv_idD [OF inv, of k] same show ?case
    by (auto split: if_splits)
qed

lemma set_upsert_step_index: "sr_Index ` set (upsert_step rs rc) = insert (sr_Index rc) (sr_Index ` set rs)"
  by (induction rs) auto

lemma distinct_upsert_step:
  "distinct (map sr_Index rs) \<Longrightarrow> distinct (map sr_Index (upsert_step rs rc))"
proof (induction rs)
  case Nil
  then show ?case by simp
next
  case (Cons r rs)
  then show ?case
    using set_upsert_step_index [of rs rc] by (auto simp: image_iff)
qed

lemma mem_inv_Create:
  assumes inv: "mem_inv s" and new: "ex_Steps e = []"
  shows "mem_inv (snd (mem_Create (Some e) s))"
proof (cases "fst (mem_Create (Some e) s)")
  case (Some err)
  then have "snd (mem_Create (Some e) s) = s"
    by (auto simp: mem_Create_def split: if_splits option.splits)
  with inv show ?thesis by simp
next
  case None
  define k where "k = (ex_Workflow e, ex_IdempotencyKey e)"
  from None have free: "byID s (ex_ID e) = None"
    and key: "ex_IdempotencyKey e \<noteq> [] \<Longrightarrow> byKey s k = None"
    and eq: "snd (mem_Create (Some e) s) =
        s\<lparr> byKey := (if ex_IdempotencyKey e = [] then byKey s else (byKey s)(k \<mapsto> ex_ID e)),
           byID := (byID s)(ex_ID e \<mapsto> e) \<rparr>"
    by (auto simp: mem_Create_def k_def split: if_splits option.splits)
  show ?thesis
    unfolding eq
  proof (rule mem_invI, goal_cases)
    case (1 wn key' i)
    show ?case
    proof (cases "ex_IdempotencyKey e \<noteq> [] \<and> (wn, key') = k")
      case True
      with 1 show ?thesis by (auto simp: k_def)
    next
      case False
      with 1 have "byKey s (wn, key') = Some i" by (auto split: if_splits)
      with inv obtain e1 where e1: "key' \<noteq> []" "byID s i = Some e1" "ex_Workflow e1 = wn"
        "ex_IdempotencyKey e1 = key'" by (rule mem_inv_keyD)
      with free have "i \<noteq> ex_ID e" by auto
      with e1 show ?thesis by simp
    qed
  next
    case (2 i e1)
    show ?case
    proof (cases "i = ex_ID e")
      case True
      with 2 new show ?thesis by simp
    next
      case False
      with 2 have "byID s i = Some e1" by simp
      from mem_inv_idD(1,2) [OF inv this] show ?thesis by simp
    qed
  next
    case (3 i e1)
    then show ?case
      using mem_inv_idD(3) [OF inv, of i e1] key by (auto simp: k_def split: if_splits)
  qed
qed

lemma mem_inv_ClaimAbandoned:
  assumes inv: "mem_inv s"
  shows "mem_inv (snd (mem_ClaimAbandoned eid seen now s))"
proof (cases "byID s eid")
  case None
  with inv show ?thesis by (simp add: mem_ClaimAbandoned_def)
next
  case (Some e)
  then show ?thesis
    using inv mem_inv_stepD [OF inv Some] mem_inv_idD [OF inv Some]
    by (simp add: mem_ClaimAbandoned_def)
qed

lemma mem_inv_AppendStep:
  assumes inv: "mem_inv s"
  shows "mem_inv (snd (mem_AppendStep eid rc now s))"
proof (cases "byID s eid")
  case None
  with inv show ?thesis by (simp add: mem_AppendStep_def)
next
  case (Some e)
  then show ?thesis
    using mem_inv_stepD [OF inv Some] mem_inv_idD [OF inv Some]
    by (simp add: mem_AppendStep_def distinct_upsert_step)
qed

text \<open>What \<open>UpdateStatus\<close> leaves under the id it wrote.\<close>

definition closed_as :: "status \<Rightarrow> json \<Rightarrow> failure \<Rightarrow> int \<Rightarrow> execution \<Rightarrow> execution" where
  "closed_as st outp fl now e =
    e\<lparr> ex_Status := st, ex_Output := outp, ex_Failure := fl, ex_UpdatedAt := now,
       ex_IdempotencyKey := (if st = StatusFailed then [] else ex_IdempotencyKey e) \<rparr>"

lemma mem_UpdateStatus_closed:
  assumes "byID s eid = Some e"
  shows "mem_UpdateStatus eid st outp fl now s =
    (None, s\<lparr> byKey := (if st = StatusFailed \<and> ex_IdempotencyKey e \<noteq> []
                        then (byKey s)((ex_Workflow e, ex_IdempotencyKey e) := None) else byKey s),
              byID := (byID s)(eid \<mapsto> closed_as st outp fl now e) \<rparr>)"
  using assms by (cases e) (auto simp: mem_UpdateStatus_def closed_as_def Let_def)

lemma mem_inv_UpdateStatus:
  assumes inv: "mem_inv s"
  shows "mem_inv (snd (mem_UpdateStatus eid st outp fl now s))"
proof (cases "byID s eid")
  case None
  with inv show ?thesis by (simp add: mem_UpdateStatus_def)
next
  case (Some e)
  note e = mem_inv_idD [OF inv Some]
  show ?thesis
    unfolding mem_UpdateStatus_closed [OF Some] snd_conv
  proof (rule mem_invI, goal_cases)
    case (1 wn key k)
    then have k: "byKey s (wn, key) = Some k" by (auto split: if_splits)
    with inv obtain e1 where e1: "key \<noteq> []" "byID s k = Some e1" "ex_Workflow e1 = wn"
      "ex_IdempotencyKey e1 = key" by (rule mem_inv_keyD)
    with 1 Some show ?case by (auto simp: closed_as_def split: if_splits)
  next
    case (2 k e1)
    show ?case
    proof (cases "k = eid")
      case True
      with 2 e(1,2) show ?thesis by (auto simp: closed_as_def)
    next
      case False
      with 2 have "byID s k = Some e1" by simp
      from mem_inv_idD(1,2) [OF inv this] show ?thesis by simp
    qed
  next
    case (3 k e1)
    show ?case
    proof (cases "k = eid")
      case True
      with 3 e show ?thesis by (auto simp: closed_as_def split: if_splits)
    next
      case False
      with 3 have k: "byID s k = Some e1" by simp
      then have k1: "byKey s (ex_Workflow e1, ex_IdempotencyKey e1) = Some k"
        using mem_inv_idD(3) [OF inv] 3(2) by simp
      with False e(3)
      have "(ex_Workflow e1, ex_IdempotencyKey e1) \<noteq> (ex_Workflow e, ex_IdempotencyKey e) \<or>
          ex_IdempotencyKey e = []" by (metis option.inject)
      with k1 show ?thesis by auto
    qed
  qed
qed

section \<open>The interface the engine relies on\<close>

text \<open>\<open>view\<close> reads the executions by id. The laws are the documented contract of \<open>Store\<close> and
  \<open>ClaimingStore\<close>: uniqueness of a non-empty (workflow, key) pair is decided by \<open>create\<close>, a
  write of \<open>StatusFailed\<close> releases the key in the same write, and a claim succeeds only on a
  running record that has not been written since the claimer saw it.\<close>

locale execution_store =
  fixes create :: "execution \<Rightarrow> 's \<Rightarrow> error option \<times> 's"
    and find_key :: "string \<Rightarrow> string \<Rightarrow> 's \<Rightarrow> error + execution option"
    and get :: "string \<Rightarrow> 's \<Rightarrow> error + execution option"
    and append_step :: "string \<Rightarrow> step_record \<Rightarrow> int \<Rightarrow> 's \<Rightarrow> error option \<times> 's"
    and update_status :: "string \<Rightarrow> status \<Rightarrow> json \<Rightarrow> failure \<Rightarrow> int \<Rightarrow> 's \<Rightarrow> error option \<times> 's"
    and claim :: "string \<Rightarrow> int \<Rightarrow> int \<Rightarrow> 's \<Rightarrow> (error + bool) \<times> 's"
    and invar :: "'s \<Rightarrow> bool"
    and view :: "'s \<Rightarrow> string \<Rightarrow> execution option"
  assumes view_id: "invar s \<Longrightarrow> view s eid = Some e \<Longrightarrow> ex_ID e = eid"
    and get_view: "invar s \<Longrightarrow> view s eid = Some e \<Longrightarrow> get eid s = Inr (Some e)"
    and get_missing: "invar s \<Longrightarrow> view s eid = None \<Longrightarrow>
      get eid s = Inl (NotFound CodeExecutionNotFound)"
    and create_free: "invar s \<Longrightarrow> ex_Steps e = [] \<Longrightarrow> ex_ID e \<noteq> [] \<Longrightarrow> ex_Workflow e \<noteq> [] \<Longrightarrow>
      view s (ex_ID e) = None \<Longrightarrow>
      ex_IdempotencyKey e = [] \<or> find_key (ex_Workflow e) (ex_IdempotencyKey e) s =
        Inl (NotFound CodeExecutionNotFound) \<Longrightarrow>
      fst (create e s) = None \<and> invar (snd (create e s)) \<and>
        view (snd (create e s)) = (view s)(ex_ID e \<mapsto> e)"
    and create_taken: "invar s \<Longrightarrow> ex_ID e \<noteq> [] \<Longrightarrow> ex_Workflow e \<noteq> [] \<Longrightarrow>
      ex_IdempotencyKey e \<noteq> [] \<Longrightarrow>
      find_key (ex_Workflow e) (ex_IdempotencyKey e) s = Inr (Some e') \<Longrightarrow>
      IsConflict (fst (create e s)) \<and> snd (create e s) = s"
    and find_held: "invar s \<Longrightarrow> view s eid = Some e \<Longrightarrow> ex_IdempotencyKey e \<noteq> [] \<Longrightarrow>
      find_key (ex_Workflow e) (ex_IdempotencyKey e) s = Inr (Some e)"
    and find_free: "invar s \<Longrightarrow>
      (\<And>eid e. view s eid = Some e \<Longrightarrow> ex_Workflow e = wn \<Longrightarrow> ex_IdempotencyKey e \<noteq> key) \<Longrightarrow>
      find_key wn key s = Inl (NotFound CodeExecutionNotFound)"
    and update_closes: "invar s \<Longrightarrow> view s eid = Some e \<Longrightarrow>
      fst (update_status eid st outp fl now s) = None \<and>
      invar (snd (update_status eid st outp fl now s)) \<and>
      view (snd (update_status eid st outp fl now s)) =
        (view s)(eid \<mapsto> closed_as st outp fl now e)"
    and append_writes: "invar s \<Longrightarrow> view s eid = Some e \<Longrightarrow>
      fst (append_step eid rc now s) = None \<and> invar (snd (append_step eid rc now s)) \<and>
      view (snd (append_step eid rc now s)) =
        (view s)(eid \<mapsto> e\<lparr> ex_Steps := upsert_step (ex_Steps e) rc, ex_UpdatedAt := now \<rparr>)"
    and claim_lost: "invar s \<Longrightarrow> view s eid = Some e \<Longrightarrow>
      \<not> (ex_Status e = StatusRunning \<and> ex_UpdatedAt e = seen) \<Longrightarrow>
      claim eid seen now s = (Inr False, s)"
    and claim_won: "invar s \<Longrightarrow> view s eid = Some e \<Longrightarrow> ex_Status e = StatusRunning \<Longrightarrow>
      ex_UpdatedAt e = seen \<Longrightarrow>
      fst (claim eid seen now s) = Inr True \<and> invar (snd (claim eid seen now s)) \<and>
      view (snd (claim eid seen now s)) = (view s)(eid \<mapsto> e\<lparr> ex_UpdatedAt := now \<rparr>)"
begin

lemma key_unique:
  assumes "invar s" and "view s a = Some e" and "view s b = Some e'"
    and "ex_IdempotencyKey e \<noteq> []"
    and "ex_Workflow e = ex_Workflow e'" and "ex_IdempotencyKey e = ex_IdempotencyKey e'"
  shows "a = b"
proof -
  have "find_key (ex_Workflow e) (ex_IdempotencyKey e) s = Inr (Some e)"
    by (rule find_held [OF assms(1,2,4)])
  moreover have "find_key (ex_Workflow e') (ex_IdempotencyKey e') s = Inr (Some e')"
    by (rule find_held [OF assms(1,3)]) (use assms(4,6) in simp)
  ultimately have "e = e'" unfolding assms(5,6) by simp
  then show ?thesis using view_id [OF assms(1,2)] view_id [OF assms(1,3)] by metis
qed

lemma failed_releases_key:
  assumes s: "invar s" and e: "view s eid = Some e"
    and new: "ex_ID n \<noteq> []" "ex_Workflow n \<noteq> []" "ex_Steps n = []" "ex_ID n \<noteq> eid"
      "view s (ex_ID n) = None"
    and same: "ex_Workflow n = ex_Workflow e" "ex_IdempotencyKey n = ex_IdempotencyKey e"
  shows "fst (create n (snd (update_status eid StatusFailed outp fl now s))) = None"
proof -
  define t where "t = snd (update_status eid StatusFailed outp fl now s)"
  from update_closes [OF s e] have t: "invar t"
    and vt: "view t = (view s)(eid \<mapsto> closed_as StatusFailed outp fl now e)"
    by (simp_all add: t_def)
  have "find_key (ex_Workflow n) (ex_IdempotencyKey n) t = Inl (NotFound CodeExecutionNotFound)"
    if k: "ex_IdempotencyKey n \<noteq> []"
  proof (rule find_free [OF t])
    fix i e1
    assume i: "view t i = Some e1" "ex_Workflow e1 = ex_Workflow n"
    show "ex_IdempotencyKey e1 \<noteq> ex_IdempotencyKey n"
    proof (cases "i = eid")
      case True
      with i vt k show ?thesis by (auto simp: closed_as_def)
    next
      case False
      with i vt have "view s i = Some e1" by simp
      from key_unique [OF s e this] False k same i(2) show ?thesis by metis
    qed
  qed
  moreover have "view t (ex_ID n) = None" using new vt by simp
  ultimately have "fst (create n t) = None"
    using create_free [OF t new(3,1,2)] by blast
  then show ?thesis by (simp add: t_def)
qed

lemma completed_keeps_key:
  fixes outp fl now
  assumes s: "invar s" and e: "view s eid = Some e" and key: "ex_IdempotencyKey e \<noteq> []"
    and new: "ex_ID n \<noteq> []" "ex_Workflow n \<noteq> []"
    and same: "ex_Workflow n = ex_Workflow e" "ex_IdempotencyKey n = ex_IdempotencyKey e"
    and st: "st \<noteq> StatusFailed"
  defines "t \<equiv> snd (update_status eid st outp fl now s)"
  shows "IsConflict (fst (create n t))"
    and "find_key (ex_Workflow n) (ex_IdempotencyKey n) t =
      Inr (Some (closed_as st outp fl now e))"
proof -
  from update_closes [OF s e] have t: "invar t"
    and vt: "view t eid = Some (closed_as st outp fl now e)"
    by (simp_all add: t_def)
  from find_held [OF t vt] key st same
  show found: "find_key (ex_Workflow n) (ex_IdempotencyKey n) t =
      Inr (Some (closed_as st outp fl now e))"
    by (simp add: closed_as_def)
  from create_taken [OF t new _ found] key same show "IsConflict (fst (create n t))" by simp
qed

lemma claim_exclusive:
  assumes s: "invar s" and e: "view s eid = Some e"
    and won: "claim eid seen now s = (Inr True, s')" and later: "now \<noteq> seen"
  shows "claim eid seen now' s' = (Inr False, s')"
proof -
  have run: "ex_Status e = StatusRunning" "ex_UpdatedAt e = seen"
    using claim_lost [OF s e, of seen now] won by auto
  from claim_won [OF s e run, of now] won have "invar s'"
    "view s' eid = Some (e\<lparr> ex_UpdatedAt := now \<rparr>)" by simp_all
  from claim_lost [OF this, of seen now'] later show ?thesis by simp
qed

end

interpretation mem: execution_store "\<lambda>e. mem_Create (Some e)" mem_FindByIdempotencyKey mem_Get
  mem_AppendStep mem_UpdateStatus mem_ClaimAbandoned mem_inv byID
proof (unfold_locales, goal_cases)
  case (1 s eid e)
  then show ?case by (rule mem_inv_idD(1))
next
  case (2 s eid e)
  then show ?case by (simp add: mem_Get_def)
next
  case (3 s eid)
  then show ?case by (simp add: mem_Get_def)
next
  case (4 s e)
  then show ?case
    using mem_inv_Create [OF 4(1,2)]
    by (auto simp: mem_Create_def mem_FindByIdempotencyKey_def error_ctor_defs
        split: option.splits sum.splits)
next
  case (5 s e e')
  then show ?case
    by (auto simp: mem_Create_def mem_FindByIdempotencyKey_def IsConflict_def HasKind_def
        split: option.splits)
next
  case (6 s eid e)
  then show ?case
    using mem_inv_idD(3) [OF 6(1,2)] by (simp add: mem_FindByIdempotencyKey_def)
next
  case (7 s wn key)
  have "byKey s (wn, key) = None"
    using 7 by (metis mem_inv_keyD option.exhaust)
  then show ?case by (simp add: mem_FindByIdempotencyKey_def)
next
  case (8 s eid e st outp fl now)
  then show ?case
    using mem_inv_UpdateStatus [OF 8(1), of eid st outp fl now]
    by (simp add: mem_UpdateStatus_closed)
next
  case (9 s eid e rc now)
  then show ?case
    using mem_inv_AppendStep [OF 9(1), of eid rc now] by (simp add: mem_AppendStep_def)
next
  case (10 s eid e seen now)
  then show ?case by (simp add: mem_ClaimAbandoned_def)
next
  case (11 s eid e seen now)
  then show ?case
    using mem_inv_ClaimAbandoned [OF 11(1), of eid seen now] by (simp add: mem_ClaimAbandoned_def)
qed

end
