(* ===== verification/WfOptions.thy ===== *)
theory WfOptions
  imports WfStore
begin

text \<open>
  The settings of one run: \<^verbatim>\<open>internal/core/workflow/options.go\<close>.

  A \<open>RunOption\<close> is a Go closure over the value given to its constructor; the model keeps the
  constructor and the value, and \<open>apply_option\<close> is the closure's body. A duration is an \<open>int\<close>
  of nanoseconds. The backoff of a policy is computed by the code in floating point
  (\<open>backoffFor\<close>); the model carries the resulting function from the attempt number to the wait
  as a field, and whether the multiplier is one \<open>policy_normalize\<close> refuses as another.
\<close>

definition CodeInvalidOption :: string where "CodeInvalidOption = ''workflow_invalid_option''"

definition ErrPanic :: string where "ErrPanic = ''workflow.ErrPanic''"

definition ErrUncompensated :: string where "ErrUncompensated = ''workflow.ErrUncompensated''"

definition ctx_Canceled :: string where "ctx_Canceled = ''context.Canceled''"

definition ctx_DeadlineExceeded :: string where
  "ctx_DeadlineExceeded = ''context.DeadlineExceeded''"

definition DefaultCompensationTimeout :: int where
  "DefaultCompensationTimeout = 30 * 1000000000"

definition DefaultStoreTimeout :: int where "DefaultStoreTimeout = 5 * 1000000000"

record retry_policy =
  MaxAttempts :: int
  Backoff :: int
  MaxBackoff :: int
  bad_Multiplier :: bool
  backoffFor :: "int \<Rightarrow> int"
  Retryable :: "(error \<Rightarrow> bool) option"

definition NoRetry :: retry_policy where
  "NoRetry = \<lparr> MaxAttempts = 1, Backoff = 0, MaxBackoff = 0, bad_Multiplier = False,
     backoffFor = (\<lambda>_. 0), Retryable = None \<rparr>"

text \<open>The exclusions that no policy can lift: a panic, an uncompensated side effect and a dead
  context.\<close>

definition never_retried :: "error \<Rightarrow> bool" where
  "never_retried e \<longleftrightarrow> (err_Is e ErrPanic \<or> err_Is e ErrUncompensated) \<or>
     (err_Is e ctx_Canceled \<or> err_Is e ctx_DeadlineExceeded)"

definition DefaultRetryable :: "error \<Rightarrow> bool" where
  "DefaultRetryable e =
    (if err_Is e ErrPanic \<or> err_Is e ErrUncompensated then False
     else if err_Is e ctx_Canceled \<or> err_Is e ctx_DeadlineExceeded then False
     else (case KindOf e of KindUnavailable \<Rightarrow> True | KindInternal \<Rightarrow> True | _ \<Rightarrow> False))"

definition allow :: "retry_policy \<Rightarrow> error \<Rightarrow> bool" where
  "allow p e =
    (if err_Is e ErrPanic \<or> err_Is e ErrUncompensated then False
     else if err_Is e ctx_Canceled \<or> err_Is e ctx_DeadlineExceeded then False
     else (case Retryable p of Some f \<Rightarrow> f e | None \<Rightarrow> DefaultRetryable e))"

definition policy_normalize :: "retry_policy \<Rightarrow> error + retry_policy" where
  "policy_normalize p =
    (if MaxAttempts p < 1 then Inl (Invalid CodeInvalidOption)
     else if Backoff p < 0 then Inl (Invalid CodeInvalidOption)
     else if MaxBackoff p < 0 then Inl (Invalid CodeInvalidOption)
     else if bad_Multiplier p then Inl (Invalid CodeInvalidOption)
     else Inr p)"

record run_options =
  o_idempotencyKey :: string
  o_retry :: retry_policy
  o_compensationRetry :: retry_policy
  o_compensationTimeout :: int
  o_storeTimeout :: int
  o_lease :: int
  o_compensationRetrySet :: bool

datatype run_option =
    NilOption
  | WithIdempotencyKey string
  | WithRetry retry_policy
  | WithCompensationRetry retry_policy
  | WithLease int
  | WithCompensationTimeout int
  | WithStoreTimeout int

fun apply_option :: "run_option \<Rightarrow> run_options \<Rightarrow> error + run_options" where
  "apply_option NilOption ro = Inl (Invalid CodeInvalidOption)"
| "apply_option (WithIdempotencyKey key) ro =
    (if key = [] then Inl (Invalid CodeInvalidOption)
     else if length key > MaxIdempotencyKeyLen then Inl (Invalid CodeInvalidOption)
     else Inr (ro\<lparr> o_idempotencyKey := key \<rparr>))"
| "apply_option (WithRetry p) ro =
    (case policy_normalize p of Inl e \<Rightarrow> Inl e | Inr np \<Rightarrow> Inr (ro\<lparr> o_retry := np \<rparr>))"
| "apply_option (WithCompensationRetry p) ro =
    (case policy_normalize p of
      Inl e \<Rightarrow> Inl e
    | Inr np \<Rightarrow> Inr (ro\<lparr> o_compensationRetry := np, o_compensationRetrySet := True \<rparr>))"
| "apply_option (WithLease d) ro = Inr (ro\<lparr> o_lease := d \<rparr>)"
| "apply_option (WithCompensationTimeout d) ro =
    (if d \<le> 0 then Inl (Invalid CodeInvalidOption) else Inr (ro\<lparr> o_compensationTimeout := d \<rparr>))"
| "apply_option (WithStoreTimeout d) ro =
    (if d \<le> 0 then Inl (Invalid CodeInvalidOption) else Inr (ro\<lparr> o_storeTimeout := d \<rparr>))"

fun apply_options :: "run_option list \<Rightarrow> run_options \<Rightarrow> error + run_options" where
  "apply_options [] ro = Inr ro"
| "apply_options (opt # opts) ro =
    (case apply_option opt ro of Inl e \<Rightarrow> Inl e | Inr ro' \<Rightarrow> apply_options opts ro')"

definition initial_options :: run_options where
  "initial_options = \<lparr> o_idempotencyKey = [], o_retry = NoRetry, o_compensationRetry = NoRetry,
     o_compensationTimeout = DefaultCompensationTimeout, o_storeTimeout = DefaultStoreTimeout,
     o_lease = 0, o_compensationRetrySet = False \<rparr>"

definition newRunOptions :: "run_option list \<Rightarrow> error + run_options" where
  "newRunOptions opts =
    (case apply_options opts initial_options of
      Inl e \<Rightarrow> Inl e
    | Inr ro \<Rightarrow>
        if \<not> o_compensationRetrySet ro then Inr (ro\<lparr> o_compensationRetry := o_retry ro \<rparr>) else Inr ro)"

section \<open>What validated settings satisfy\<close>

definition options_ok :: "run_options \<Rightarrow> bool" where
  "options_ok ro \<longleftrightarrow> 1 \<le> MaxAttempts (o_retry ro) \<and> 1 \<le> MaxAttempts (o_compensationRetry ro) \<and>
     0 < o_compensationTimeout ro \<and> 0 < o_storeTimeout ro \<and>
     length (o_idempotencyKey ro) \<le> MaxIdempotencyKeyLen"

lemma policy_normalize_ok: "policy_normalize p = Inr np \<Longrightarrow> np = p \<and> 1 \<le> MaxAttempts p"
  by (auto simp: policy_normalize_def split: if_splits)

lemma apply_option_ok:
  "apply_option opt ro = Inr ro' \<Longrightarrow> options_ok ro \<Longrightarrow> options_ok ro'"
  by (cases opt) (auto simp: options_ok_def split: if_splits sum.splits dest!: policy_normalize_ok)

lemma apply_options_ok:
  "apply_options opts ro = Inr ro' \<Longrightarrow> options_ok ro \<Longrightarrow> options_ok ro'"
  by (induction opts arbitrary: ro) (auto split: sum.splits dest: apply_option_ok)

lemma newRunOptions_ok:
  assumes "newRunOptions opts = Inr ro"
  shows "options_ok ro"
proof -
  have init: "options_ok initial_options"
    by (simp add: options_ok_def initial_options_def NoRetry_def DefaultCompensationTimeout_def
        DefaultStoreTimeout_def)
  from assms obtain ro' where ro': "apply_options opts initial_options = Inr ro'"
    and "ro = ro' \<or> ro = ro'\<lparr> o_compensationRetry := o_retry ro' \<rparr>"
    by (auto simp: newRunOptions_def split: sum.splits if_splits)
  with apply_options_ok [OF ro' init] show ?thesis by (auto simp: options_ok_def)
qed

lemma allow_never_retried: "never_retried e \<Longrightarrow> \<not> allow p e"
  by (auto simp: never_retried_def allow_def)

lemma DefaultRetryable_iff:
  "DefaultRetryable e \<longleftrightarrow> \<not> never_retried e \<and> KindOf e \<in> {KindUnavailable, KindInternal}"
  by (auto simp: DefaultRetryable_def never_retried_def split: kind.splits)

lemma apply_option_Invalid: "apply_option opt ro = Inl e \<Longrightarrow> KindOf e = KindInvalid"
  by (cases opt) (auto simp: policy_normalize_def split: if_splits sum.splits)

lemma newRunOptions_Invalid: "newRunOptions opts = Inl e \<Longrightarrow> KindOf e = KindInvalid"
proof -
  have "apply_options os ro = Inl e \<Longrightarrow> KindOf e = KindInvalid" for os ro
    by (induction os arbitrary: ro) (auto split: sum.splits dest: apply_option_Invalid)
  then show "newRunOptions opts = Inl e \<Longrightarrow> KindOf e = KindInvalid"
    by (auto simp: newRunOptions_def split: sum.splits if_splits)
qed

end
