(* ===== verification/WfExecutor.thy ===== *)
theory WfExecutor
  imports WfOptions
begin

text \<open>
  The saga engine: \<^verbatim>\<open>internal/core/workflow/workflow.go\<close> (the definition of a workflow),
  \<^verbatim>\<open>executor.go\<close> (a fresh run and its unwinding) and \<^verbatim>\<open>recover.go\<close> (abandoned executions).

  Everything outside the engine lives in a state \<open>'w\<close>, \<^emph>\<open>the world\<close>: the databases the steps
  write, the clock, the caller's context and the Store. The engine threads it through every
  call it makes, in the order it makes them; between two calls it cannot change anything else.
  What the engine calls is a parameter: the steps (\<open>step\<close>), the \<open>Store\<close> implementation
  (\<open>store_ops\<close>, whose claim operation is absent when the implementation is no
  \<open>ClaimingStore\<close>) and the runtime (\<open>runtime\<close>: \<open>ctx.Err\<close>, \<open>time.Now\<close>, the timer, the random id
  and \<open>json.Marshal\<close>). Logging has no effect on any decision and is left out.
\<close>

section \<open>Steps and workflows\<close>

text \<open>\<open>Input\<close> is the caller's value on a fresh run and the record's JSON on the recovery path.\<close>

datatype 'v input = InputValue "'v option" | InputJSON json

record 'v step_context =
  sc_Input :: "'v input"
  sc_Shared :: "string \<Rightarrow> 'v option option"
  sc_ExecutionID :: string
  sc_Workflow :: string
  sc_StepName :: string
  sc_StepIndex :: int
  sc_Attempt :: int

text \<open>A call into a step returns, returns an error, or panics with a value that may itself be an
  error. \<open>any\<close> is \<open>'v option\<close>, with \<open>None\<close> for \<open>nil\<close>.\<close>

datatype 'a call = Returns 'a | Fails error | Panics "error option"

text \<open>The two contexts the engine hands out: the caller's, and one detached from it with its own
  deadline.\<close>

datatype ctx = CallerCtx | DetachedCtx int

record ('w, 'v) step =
  st_isNil :: bool
  st_Name :: string
  st_Invoke :: "'v step_context \<Rightarrow> 'w \<Rightarrow> 'v option call \<times> 'v step_context \<times> 'w"
  st_Compensate :: "ctx \<Rightarrow> 'v step_context \<Rightarrow> 'w \<Rightarrow> unit call \<times> 'v step_context \<times> 'w"
  st_Restore :: "('v step_context \<Rightarrow> json \<Rightarrow> error option \<times> 'v step_context) option"
  st_BlocksRecovery :: bool

record ('w, 'v) workflow =
  wf_Name :: string
  wf_Steps :: "('w, 'v) step list"

record 'w store_ops =
  op_Create :: "execution \<Rightarrow> 'w \<Rightarrow> error option \<times> 'w"
  op_FindByIdempotencyKey :: "string \<Rightarrow> string \<Rightarrow> 'w \<Rightarrow> (error + execution option) \<times> 'w"
  op_AppendStep :: "string \<Rightarrow> step_record \<Rightarrow> 'w \<Rightarrow> error option \<times> 'w"
  op_UpdateStatus :: "string \<Rightarrow> status \<Rightarrow> json \<Rightarrow> failure \<Rightarrow> 'w \<Rightarrow> error option \<times> 'w"
  op_Get :: "string \<Rightarrow> 'w \<Rightarrow> (error + execution option) \<times> 'w"
  op_ClaimAbandoned :: "(string \<Rightarrow> int \<Rightarrow> 'w \<Rightarrow> (error + bool) \<times> 'w) option"

record ('w, 'v) runtime =
  rt_callerErr :: "'w \<Rightarrow> error option"
  rt_now :: "'w \<Rightarrow> int"
  rt_sleep :: "ctx \<Rightarrow> int \<Rightarrow> 'w \<Rightarrow> error option \<times> 'w"
  rt_newExecutionID :: "'w \<Rightarrow> string \<times> 'w"
  rt_Marshal :: "'v option \<Rightarrow> error + json"

definition CodeStepFailed :: string where "CodeStepFailed = ''workflow_step_failed''"

definition CodeStepPanicked :: string where "CodeStepPanicked = ''workflow_step_panicked''"

definition CodeCompensationFailed :: string where
  "CodeCompensationFailed = ''workflow_compensation_failed''"

definition CodeCanceled :: string where "CodeCanceled = ''workflow_canceled''"

definition CodeExecutionRunning :: string where
  "CodeExecutionRunning = ''workflow_execution_running''"

definition CodeExecutionFailed :: string where
  "CodeExecutionFailed = ''workflow_execution_failed''"

definition CodeRecoveryFailed :: string where "CodeRecoveryFailed = ''workflow_recovery_failed''"

definition CodeExecutionContended :: string where
  "CodeExecutionContended = ''workflow_execution_contended''"

definition validate_step :: "('w, 'v) step \<Rightarrow> error option" where
  "validate_step s =
    (if st_isNil s then Some (Invalid CodeInvalidWorkflow)
     else if st_Name s = [] then Some (Invalid CodeInvalidWorkflow)
     else if length (st_Name s) > MaxNameLen then Some (Invalid CodeInvalidWorkflow)
     else None)"

definition Validate :: "('w, 'v) workflow \<Rightarrow> error option" where
  "Validate w =
    (if wf_Name w = [] then Some (Invalid CodeInvalidWorkflow)
     else if length (wf_Name w) > MaxNameLen then Some (Invalid CodeInvalidWorkflow)
     else if wf_Steps w = [] then Some (Invalid CodeInvalidWorkflow)
     else check_all validate_step (wf_Steps w))"

section \<open>Calling one step\<close>

definition ctx_Err :: "('w, 'v) runtime \<Rightarrow> ctx \<Rightarrow> 'w \<Rightarrow> error option" where
  "ctx_Err rt c w =
    (case c of
      CallerCtx \<Rightarrow> rt_callerErr rt w
    | DetachedCtx deadline \<Rightarrow>
        if deadline \<le> rt_now rt w then Some (Sentinel ctx_DeadlineExceeded) else None)"

definition wait :: "('w, 'v) runtime \<Rightarrow> ctx \<Rightarrow> int \<Rightarrow> 'w \<Rightarrow> error option \<times> 'w" where
  "wait rt c d w = (if d \<le> 0 then (ctx_Err rt c w, w) else rt_sleep rt c d w)"

definition panicError :: "error option \<Rightarrow> error" where
  "panicError r =
    (case r of
      Some err \<Rightarrow> wrap_err (Joined [Sentinel ErrPanic, err]) KindInternal CodeStepPanicked
    | None \<Rightarrow> wrap_err (Sentinel ErrPanic) KindInternal CodeStepPanicked)"

definition safeInvoke ::
    "('w, 'v) step \<Rightarrow> 'v step_context \<Rightarrow> 'w \<Rightarrow> (error + 'v option) \<times> 'v step_context \<times> 'w" where
  "safeInvoke s sc w =
    (case st_Invoke s sc w of
      (Returns v, sc', w') \<Rightarrow> (Inr v, sc', w')
    | (Fails e, sc', w') \<Rightarrow> (Inl e, sc', w')
    | (Panics r, sc', w') \<Rightarrow> (Inl (panicError r), sc', w'))"

definition safeCompensate ::
    "ctx \<Rightarrow> ('w, 'v) step \<Rightarrow> 'v step_context \<Rightarrow> 'w \<Rightarrow> error option \<times> 'v step_context \<times> 'w" where
  "safeCompensate c s sc w =
    (case st_Compensate s c sc w of
      (Returns _, sc', w') \<Rightarrow> (None, sc', w')
    | (Fails e, sc', w') \<Rightarrow> (Some e, sc', w')
    | (Panics r, sc', w') \<Rightarrow> (Some (panicError r), sc', w'))"

text \<open>The retry loop: the attempt number is the last component of the result.\<close>

function invokeStep ::
    "('w, 'v) runtime \<Rightarrow> retry_policy \<Rightarrow> ('w, 'v) step \<Rightarrow> int \<Rightarrow> 'v step_context \<Rightarrow> 'w \<Rightarrow>
      (error + 'v option) \<times> int \<times> 'v step_context \<times> 'w" where
  "invokeStep rt p s attempt sc w =
    (case safeInvoke s (sc\<lparr> sc_Attempt := attempt \<rparr>) w of
      (Inr out, sc', w') \<Rightarrow> (Inr out, attempt, sc', w')
    | (Inl serr, sc', w') \<Rightarrow>
        if attempt \<ge> MaxAttempts p \<or> \<not> allow p serr then (Inl serr, attempt, sc', w')
        else
          (case wait rt CallerCtx (backoffFor p attempt) w' of
            (Some _, w'') \<Rightarrow> (Inl serr, attempt, sc', w'')
          | (None, w'') \<Rightarrow> invokeStep rt p s (attempt + 1) sc' w''))"
  by pat_completeness auto
termination
  by (relation "measure (\<lambda>(rt, p, s, attempt, sc, w). nat (MaxAttempts p - attempt))") auto

declare invokeStep.simps [simp del]

function compensateStep ::
    "('w, 'v) runtime \<Rightarrow> retry_policy \<Rightarrow> ctx \<Rightarrow> ('w, 'v) step \<Rightarrow> int \<Rightarrow> 'v step_context \<Rightarrow> 'w \<Rightarrow>
      error option \<times> int \<times> 'v step_context \<times> 'w" where
  "compensateStep rt p c s attempt sc w =
    (case safeCompensate c s (sc\<lparr> sc_Attempt := attempt \<rparr>) w of
      (None, sc', w') \<Rightarrow> (None, attempt, sc', w')
    | (Some cerr, sc', w') \<Rightarrow>
        if attempt \<ge> MaxAttempts p \<or> \<not> allow p cerr then (Some cerr, attempt, sc', w')
        else
          (case wait rt c (backoffFor p attempt) w' of
            (Some _, w'') \<Rightarrow> (Some cerr, attempt, sc', w'')
          | (None, w'') \<Rightarrow> compensateStep rt p c s (attempt + 1) sc' w''))"
  by pat_completeness auto
termination
  by (relation "measure (\<lambda>(rt, p, c, s, attempt, sc, w). nat (MaxAttempts p - attempt))") auto

declare compensateStep.simps [simp del]

section \<open>Persistence\<close>

text \<open>\<open>AppendStep\<close> and \<open>UpdateStatus\<close> errors are logged and the execution goes on.\<close>

definition persistStep :: "'w store_ops \<Rightarrow> string \<Rightarrow> step_record \<Rightarrow> 'w \<Rightarrow> 'w" where
  "persistStep st eid rc w = snd (op_AppendStep st eid rc w)"

definition persistStatus ::
    "'w store_ops \<Rightarrow> string \<Rightarrow> status \<Rightarrow> json \<Rightarrow> failure \<Rightarrow> 'w \<Rightarrow> 'w" where
  "persistStatus st eid s outp fl w = snd (op_UpdateStatus st eid s outp fl w)"

definition encode :: "('w, 'v) runtime \<Rightarrow> 'v option \<Rightarrow> json \<times> failure" where
  "encode rt v =
    (case rt_Marshal rt v of Inr payload \<Rightarrow> (payload, []) | Inl e \<Rightarrow> ([], [PartErr e]))"

definition joinFailure :: "failure \<Rightarrow> failure_part \<Rightarrow> failure" where
  "joinFailure existing added = (if existing = [] then [added] else existing @ [added])"

section \<open>Unwinding\<close>

record ('w, 'v) doneStep =
  d_step :: "('w, 'v) step"
  d_rec :: step_record
  d_bestEffort :: bool

text \<open>One turn of the compensation loop. The result is the wrapped error of this step, if any.\<close>

definition compensate_one ::
    "('w, 'v) runtime \<Rightarrow> 'w store_ops \<Rightarrow> run_options \<Rightarrow> string \<Rightarrow> ('w, 'v) doneStep \<Rightarrow>
      'v step_context \<Rightarrow> 'w \<Rightarrow> error option \<times> 'v step_context \<times> 'w" where
  "compensate_one rt st ro eid d sc w =
    (let sc1 = sc\<lparr> sc_StepName := sr_Name (d_rec d), sc_StepIndex := sr_Index (d_rec d),
                   sc_Attempt := 1 \<rparr>;
         c = DetachedCtx (rt_now rt w + o_compensationTimeout ro) in
     case compensateStep rt (o_compensationRetry ro) c (d_step d) 1 sc1 w of
       (err, attempts, sc2, w2) \<Rightarrow>
         let rc = (d_rec d)\<lparr> sr_Status := StepCompensated, sr_EndedAt := rt_now rt w2 \<rparr> in
         (case err of
           None \<Rightarrow> (None, sc2, persistStep st eid rc w2)
         | Some e \<Rightarrow>
             let wrapped = wrap_err e (KindOf e) CodeCompensationFailed;
                 rc' = rc\<lparr> sr_Status := StepCompensationFailed,
                           sr_Failure := joinFailure (sr_Failure rc) (PartErr wrapped) \<rparr> in
             (Some wrapped, sc2, persistStep st eid rc' w2)))"

fun compensate_loop ::
    "('w, 'v) runtime \<Rightarrow> 'w store_ops \<Rightarrow> run_options \<Rightarrow> string \<Rightarrow> ('w, 'v) doneStep list \<Rightarrow>
      'v step_context \<Rightarrow> 'w \<Rightarrow> error list \<times> 'v step_context \<times> 'w" where
  "compensate_loop rt st ro eid [] sc w = ([], sc, w)"
| "compensate_loop rt st ro eid (d # ds) sc w =
    (case compensate_one rt st ro eid d sc w of
      (err, sc1, w1) \<Rightarrow>
        (case compensate_loop rt st ro eid ds sc1 w1 of
          (failures, sc2, w2) \<Rightarrow>
            ((case err of None \<Rightarrow> failures | Some e \<Rightarrow> e # failures), sc2, w2)))"

text \<open>The loop of the code runs from the last element of \<open>done\<close> to the first.\<close>

definition compensate ::
    "('w, 'v) runtime \<Rightarrow> 'w store_ops \<Rightarrow> run_options \<Rightarrow> string \<Rightarrow> ('w, 'v) doneStep list \<Rightarrow>
      'v step_context \<Rightarrow> 'w \<Rightarrow> error option \<times> 'v step_context \<times> 'w" where
  "compensate rt st ro eid dones sc w =
    (case compensate_loop rt st ro eid (rev dones) sc w of
      (failures, sc', w') \<Rightarrow> (Join (map Some failures), sc', w'))"

definition unwind ::
    "('w, 'v) runtime \<Rightarrow> 'w store_ops \<Rightarrow> run_options \<Rightarrow> string \<Rightarrow> ('w, 'v) doneStep list \<Rightarrow>
      'v step_context \<Rightarrow> error \<Rightarrow> 'w \<Rightarrow> (error + json) \<times> 'w" where
  "unwind rt st ro eid dones sc cause w =
    (case compensate rt st ro eid dones sc w of
      (compErr, sc', w') \<Rightarrow>
        if compErr = None \<and> \<not> err_Is cause ErrUncompensated then
          (Inl cause, persistStatus st eid StatusFailed [] [PartErr cause] w')
        else
          (let final = wrap_err (the (Join [Some cause, compErr])) KindInternal CodeCompensationFailed in
           (Inl final, persistStatus st eid StatusCompensationFailed [] [PartErr final] w')))"

section \<open>A fresh run\<close>

definition stepFailureCode :: "error \<Rightarrow> string" where
  "stepFailureCode err = (if CodeOf err \<noteq> [] then CodeOf err else CodeStepFailed)"

fun execute_loop ::
    "('w, 'v) runtime \<Rightarrow> 'w store_ops \<Rightarrow> run_options \<Rightarrow> string \<Rightarrow> int \<Rightarrow> ('w, 'v) step list \<Rightarrow>
      ('w, 'v) doneStep list \<Rightarrow> 'v option \<Rightarrow> 'v step_context \<Rightarrow> 'w \<Rightarrow> (error + json) \<times> 'w" where
  "execute_loop rt st ro eid i [] dones lst sc w =
    (case encode rt lst of
      (outp, nt) \<Rightarrow> (Inr outp, persistStatus st eid StatusCompleted outp nt w))"
| "execute_loop rt st ro eid i (s # ss) dones lst sc w =
    (case ctx_Err rt CallerCtx w of
      Some cerr \<Rightarrow>
        unwind rt st ro eid dones sc (wrap_err cerr KindUnavailable CodeCanceled) w
    | None \<Rightarrow>
        (let sc1 = sc\<lparr> sc_StepName := st_Name s, sc_StepIndex := i, sc_Attempt := 1 \<rparr>;
             started = rt_now rt w in
         case invokeStep rt (o_retry ro) s 1 sc1 w of
           (Inl serr, attempts, sc2, w2) \<Rightarrow>
             let rc = \<lparr> sr_Name = st_Name s, sr_Index = i, sr_Status = StepFailed, sr_Output = [],
                        sr_Failure = [PartErr serr], sr_Attempts = attempts,
                        sr_StartedAt = started, sr_EndedAt = rt_now rt w2 \<rparr>;
                 w3 = persistStep st eid rc w2;
                 dones' = (if attempts > 1
                           then dones @ [\<lparr> d_step = s, d_rec = rc, d_bestEffort = True \<rparr>]
                           else dones) in
             unwind rt st ro eid dones' sc2 (wrap_err serr (KindOf serr) (stepFailureCode serr)) w3
         | (Inr out, attempts, sc2, w2) \<Rightarrow>
             (case encode rt out of
               (outp, nt) \<Rightarrow>
                 let rc = \<lparr> sr_Name = st_Name s, sr_Index = i, sr_Status = StepInvoked,
                            sr_Output = outp, sr_Failure = nt, sr_Attempts = attempts,
                            sr_StartedAt = started, sr_EndedAt = rt_now rt w2 \<rparr>;
                     w3 = persistStep st eid rc w2 in
                 execute_loop rt st ro eid (i + 1) ss
                   (dones @ [\<lparr> d_step = s, d_rec = rc, d_bestEffort = False \<rparr>]) out sc2 w3)))"

definition execute ::
    "('w, 'v) runtime \<Rightarrow> 'w store_ops \<Rightarrow> run_options \<Rightarrow> ('w, 'v) workflow \<Rightarrow> 'v option \<Rightarrow>
      execution \<Rightarrow> 'w \<Rightarrow> (error + json) \<times> 'w" where
  "execute rt st ro wfl inp ex w =
    execute_loop rt st ro (ex_ID ex) 0 (wf_Steps wfl) [] None
      \<lparr> sc_Input = InputValue inp, sc_Shared = Map.empty, sc_ExecutionID = ex_ID ex,
         sc_Workflow = wf_Name wfl, sc_StepName = [], sc_StepIndex = 0, sc_Attempt = 0 \<rparr> w"

section \<open>The three ways one turn of the run goes\<close>

definition turn_context :: "('w, 'v) step \<Rightarrow> int \<Rightarrow> 'v step_context \<Rightarrow> 'v step_context" where
  "turn_context s i sc = sc\<lparr> sc_StepName := st_Name s, sc_StepIndex := i, sc_Attempt := 1 \<rparr>"

lemma execute_loop_canceled:
  "ctx_Err rt CallerCtx w = Some cerr \<Longrightarrow>
    execute_loop rt st ro eid i (s # ss) dones lst sc w =
      unwind rt st ro eid dones sc (wrap_err cerr KindUnavailable CodeCanceled) w"
  by simp

lemma execute_loop_failed:
  assumes "ctx_Err rt CallerCtx w = None"
    and "invokeStep rt (o_retry ro) s 1 (turn_context s i sc) w = (Inl serr, n, sc2, w2)"
  shows "\<exists>rc. sr_Index rc = i \<and> sr_Status rc = StepFailed \<and>
    execute_loop rt st ro eid i (s # ss) dones lst sc w =
      unwind rt st ro eid
        (dones @ (if n > 1 then [\<lparr> d_step = s, d_rec = rc, d_bestEffort = True \<rparr>] else []))
        sc2 (wrap_err serr (KindOf serr) (stepFailureCode serr)) (persistStep st eid rc w2)"
  using assms
  by (intro exI [of _ "\<lparr> sr_Name = st_Name s, sr_Index = i, sr_Status = StepFailed, sr_Output = [],
        sr_Failure = [PartErr serr], sr_Attempts = n, sr_StartedAt = rt_now rt w,
        sr_EndedAt = rt_now rt w2 \<rparr>"])
    (simp add: turn_context_def Let_def)

lemma execute_loop_invoked:
  assumes "ctx_Err rt CallerCtx w = None"
    and "invokeStep rt (o_retry ro) s 1 (turn_context s i sc) w = (Inr out, n, sc2, w2)"
  shows "\<exists>rc. sr_Index rc = i \<and> sr_Status rc = StepInvoked \<and>
    execute_loop rt st ro eid i (s # ss) dones lst sc w =
      execute_loop rt st ro eid (i + 1) ss
        (dones @ [\<lparr> d_step = s, d_rec = rc, d_bestEffort = False \<rparr>]) out sc2
        (persistStep st eid rc w2)"
  using assms
  by (intro exI [of _ "\<lparr> sr_Name = st_Name s, sr_Index = i, sr_Status = StepInvoked,
        sr_Output = fst (encode rt out), sr_Failure = snd (encode rt out), sr_Attempts = n,
        sr_StartedAt = rt_now rt w, sr_EndedAt = rt_now rt w2 \<rparr>"])
    (simp add: turn_context_def Let_def split: prod.splits)

lemma unwind_Inl: "\<exists>e. fst (unwind rt st ro eid dones sc cause w) = Inl e"
  by (auto simp: unwind_def Let_def split: prod.splits)

lemma Validate_Invalid: "Validate wfl = Some e \<Longrightarrow> KindOf e = KindInvalid"
proof -
  have "check_all validate_step ss = Some e \<Longrightarrow> KindOf e = KindInvalid" for ss :: "('a, 'b) step list"
    by (induction ss) (auto simp: validate_step_def split: if_splits option.splits)
  then show "Validate wfl = Some e \<Longrightarrow> KindOf e = KindInvalid"
    by (auto simp: Validate_def split: if_splits)
qed

end
