(* ===== verification/WfRecover.thy ===== *)
theory WfRecover
  imports WfExecutor
begin

text \<open>
  Opening a run, replaying a key and recovering an abandoned execution: the rest of
  \<^verbatim>\<open>internal/core/workflow/executor.go\<close> and \<^verbatim>\<open>internal/core/workflow/recover.go\<close>.

  Recovery sorts the step records by Index with \<open>slices.SortFunc\<close>; the indexes of one record are
  distinct (\<open>mem_inv\<close>, \<open>Store.AppendStep\<close>), so the order is determined and the stable
  \<open>sort_key\<close> gives it.
\<close>

section \<open>Opening the record\<close>

definition new_execution ::
    "string \<Rightarrow> string \<Rightarrow> run_options \<Rightarrow> json \<Rightarrow> int \<Rightarrow> execution" where
  "new_execution eid name ro payload now =
    \<lparr> ex_ID = eid, ex_Workflow = name, ex_IdempotencyKey = o_idempotencyKey ro,
      ex_Status = StatusRunning, ex_Input = payload, ex_Output = [], ex_Failure = [],
      ex_Steps = [], ex_CreatedAt = now, ex_UpdatedAt = now \<rparr>"

definition open_execution ::
    "('w, 'v) runtime \<Rightarrow> 'w store_ops \<Rightarrow> run_options \<Rightarrow> ('w, 'v) workflow \<Rightarrow> json \<Rightarrow> 'w \<Rightarrow>
      (error + execution option) \<times> 'w" where
  "open_execution rt st ro wfl payload w =
    (let now = rt_now rt w in
     case rt_newExecutionID rt w of
       (eid, w1) \<Rightarrow>
         let ex = new_execution eid (wf_Name wfl) ro payload now in
         (case op_Create st ex w1 of
           (None, w2) \<Rightarrow> (Inr (Some ex), w2)
         | (Some err, w2) \<Rightarrow>
             if o_idempotencyKey ro \<noteq> [] \<and> IsConflict (Some err) then (Inr None, w2)
             else (Inl (wrap_err err (KindOf err) CodeStoreFailed), w2)))"

section \<open>Abandoned executions\<close>

datatype claim_result = ClaimWon | ClaimLost | ClaimUndecided

definition claimAbandoned :: "'w store_ops \<Rightarrow> execution \<Rightarrow> 'w \<Rightarrow> claim_result \<times> 'w" where
  "claimAbandoned st prev w =
    (case op_ClaimAbandoned st of
      None \<Rightarrow> (ClaimWon, w)
    | Some claimer \<Rightarrow>
        (case claimer (ex_ID prev) (ex_UpdatedAt prev) w of
          (Inl err, w') \<Rightarrow> (ClaimUndecided, w')
        | (Inr won, w') \<Rightarrow> (if \<not> won then ClaimLost else ClaimWon, w')))"

definition hasHeldWork :: "step_record list \<Rightarrow> bool" where
  "hasHeldWork steps = list_ex (\<lambda>r. Held (sr_Status r)) steps"

fun rebuild_loop ::
    "('w, 'v) step list \<Rightarrow> step_record list \<Rightarrow> ('w, 'v) doneStep list \<Rightarrow> 'v step_context \<Rightarrow>
      error + (('w, 'v) doneStep list \<times> 'v step_context)" where
  "rebuild_loop steps [] dones sc = Inr (dones, sc)"
| "rebuild_loop steps (rc # rcs) dones sc =
    (if sr_Index rc < 0 \<or> sr_Index rc \<ge> int (length steps) then Inl (Internal CodeRecoveryFailed)
     else
       (let s = steps ! nat (sr_Index rc) in
        if st_Name s \<noteq> sr_Name rc then Inl (Internal CodeRecoveryFailed)
        else
          (case st_Restore s of
            None \<Rightarrow>
              if \<not> Held (sr_Status rc) then rebuild_loop steps rcs dones sc
              else Inl (Internal CodeRecoveryFailed)
          | Some restore \<Rightarrow>
              (case restore sc (sr_Output rc) of
                (Some err, sc') \<Rightarrow> Inl (wrap_err err KindInternal CodeRecoveryFailed)
              | (None, sc') \<Rightarrow>
                  rebuild_loop steps rcs
                    (if Held (sr_Status rc)
                     then dones @ [\<lparr> d_step = s, d_rec = rc, d_bestEffort = False \<rparr>]
                     else dones) sc'))))"

definition checkRecoveryBoundary :: "('w, 'v) workflow \<Rightarrow> step_record list \<Rightarrow> error option" where
  "checkRecoveryBoundary wfl records =
    (if records = [] then None
     else
       (let next = sr_Index (last records) + 1 in
        if next \<ge> int (length (wf_Steps wfl)) then None
        else if st_BlocksRecovery (wf_Steps wfl ! nat next) then Some (Internal CodeRecoveryFailed)
        else None))"

definition rebuildChain ::
    "('w, 'v) workflow \<Rightarrow> execution \<Rightarrow> 'v step_context \<Rightarrow>
      error + (('w, 'v) doneStep list \<times> 'v step_context)" where
  "rebuildChain wfl ex sc =
    (let records = sort_key sr_Index (ex_Steps ex) in
     case rebuild_loop (wf_Steps wfl) records [] sc of
       Inl e \<Rightarrow> Inl e
     | Inr (dones, sc') \<Rightarrow>
         if dones = [] then Inl (Internal CodeRecoveryFailed)
         else
           (case checkRecoveryBoundary wfl records of
             Some e \<Rightarrow> Inl e
           | None \<Rightarrow> Inr (dones, sc')))"

definition recovery_context :: "('w, 'v) workflow \<Rightarrow> execution \<Rightarrow> 'v step_context" where
  "recovery_context wfl ex =
    \<lparr> sc_Input = InputJSON (ex_Input ex), sc_Shared = Map.empty, sc_ExecutionID = ex_ID ex,
      sc_Workflow = wf_Name wfl, sc_StepName = [], sc_StepIndex = 0, sc_Attempt = 0 \<rparr>"

text \<open>\<open>Store.Get\<close> returns a record or an error, never \<open>nil\<close> without one; \<open>judgeAbandoned\<close> reads the
  record it returned without a check, which is the \<open>the\<close> below.

  The result is the pair of the code: may the caller open a new execution, and the error to
  return.\<close>

definition recoverExecution ::
    "('w, 'v) runtime \<Rightarrow> 'w store_ops \<Rightarrow> run_options \<Rightarrow> ('w, 'v) workflow \<Rightarrow> execution \<Rightarrow> 'w \<Rightarrow>
      (bool \<times> error option) \<times> 'w" where
  "recoverExecution rt st ro wfl ex w =
    (case rebuildChain wfl ex (recovery_context wfl ex) of
      Inl err \<Rightarrow>
        let final = wrap_err err KindConflict CodeExecutionFailed in
        ((True, Some final),
         persistStatus st (ex_ID ex) StatusCompensationFailed [] [PartErr final] w)
    | Inr (dones, sc) \<Rightarrow>
        (case compensate rt st ro (ex_ID ex) dones sc w of
          (Some compErr, sc', w') \<Rightarrow>
            let final = wrap_err compErr KindInternal CodeCompensationFailed in
            ((True, Some final),
             persistStatus st (ex_ID ex) StatusCompensationFailed [] [PartErr final] w')
        | (None, sc', w') \<Rightarrow>
            ((True, None),
             persistStatus st (ex_ID ex) StatusFailed []
               [PartText ''the execution's lease expired; the compensation chain was run from the record and completed'']
               w')))"

definition judgeAbandoned ::
    "('w, 'v) runtime \<Rightarrow> 'w store_ops \<Rightarrow> run_options \<Rightarrow> ('w, 'v) workflow \<Rightarrow> execution \<Rightarrow> 'w \<Rightarrow>
      (bool \<times> error option) \<times> 'w" where
  "judgeAbandoned rt st ro wfl prev w =
    (if o_lease ro \<le> 0 \<or> rt_now rt w - ex_UpdatedAt prev \<le> o_lease ro then ((False, None), w)
     else
       (case op_Get st (ex_ID prev) w of
         (Inl err, w1) \<Rightarrow> ((False, None), w1)
       | (Inr full, w1) \<Rightarrow>
           (case claimAbandoned st prev w1 of
             (ClaimLost, w2) \<Rightarrow> ((True, None), w2)
           | (ClaimUndecided, w2) \<Rightarrow> ((False, None), w2)
           | (ClaimWon, w2) \<Rightarrow>
               if hasHeldWork (ex_Steps (the full)) then recoverExecution rt st ro wfl (the full) w2
               else
                 ((True, None),
                  persistStatus st (ex_ID prev) StatusFailed []
                    [PartText ''the execution's lease expired and no step had done any work; it was taken as abandoned'']
                    w2))))"

section \<open>Replaying a key\<close>

text \<open>\<open>Again\<close> is the code's second result: the key was released, try to open again.\<close>

datatype replay_result = Again | Answer "error + json"

definition replay ::
    "('w, 'v) runtime \<Rightarrow> 'w store_ops \<Rightarrow> run_options \<Rightarrow> ('w, 'v) workflow \<Rightarrow> 'w \<Rightarrow>
      replay_result \<times> 'w" where
  "replay rt st ro wfl w =
    (case op_FindByIdempotencyKey st (wf_Name wfl) (o_idempotencyKey ro) w of
      (Inl err, w1) \<Rightarrow>
        if IsNotFound (Some err) then (Again, w1)
        else (Answer (Inl (wrap_err err (KindOf err) CodeStoreFailed)), w1)
    | (Inr None, w1) \<Rightarrow> (Answer (Inl (Internal CodeStoreFailed)), w1)
    | (Inr (Some prev), w1) \<Rightarrow>
        (case ex_Status prev of
          StatusCompleted \<Rightarrow> (Answer (Inr (ex_Output prev)), w1)
        | StatusRunning \<Rightarrow>
            (case judgeAbandoned rt st ro wfl prev w1 of
              ((abandoned, aerr), w2) \<Rightarrow>
                (case aerr of
                  Some e \<Rightarrow> (Answer (Inl e), w2)
                | None \<Rightarrow>
                    if abandoned then (Again, w2)
                    else (Answer (Inl (Conflict CodeExecutionRunning)), w2)))
        | StatusFailed \<Rightarrow> (Answer (Inl (Conflict CodeExecutionFailed)), w1)
        | StatusCompensationFailed \<Rightarrow> (Answer (Inl (Conflict CodeExecutionFailed)), w1)
        | StatusOther s \<Rightarrow> (Answer (Inl (Internal CodeStoreFailed)), w1)))"

section \<open>Run and Recover\<close>

fun run_turns ::
    "nat \<Rightarrow> ('w, 'v) runtime \<Rightarrow> 'w store_ops \<Rightarrow> run_options \<Rightarrow> ('w, 'v) workflow \<Rightarrow> 'v option \<Rightarrow>
      json \<Rightarrow> 'w \<Rightarrow> (error + json) \<times> 'w" where
  "run_turns 0 rt st ro wfl inp payload w = (Inl (Unavailable CodeExecutionContended), w)"
| "run_turns (Suc n) rt st ro wfl inp payload w =
    (case open_execution rt st ro wfl payload w of
      (Inl err, w1) \<Rightarrow> (Inl err, w1)
    | (Inr (Some ex), w1) \<Rightarrow> execute rt st ro wfl inp ex w1
    | (Inr None, w1) \<Rightarrow>
        (case replay rt st ro wfl w1 of
          (Answer r, w2) \<Rightarrow> (r, w2)
        | (Again, w2) \<Rightarrow> run_turns n rt st ro wfl inp payload w2))"

definition Run ::
    "('w, 'v) runtime \<Rightarrow> 'w store_ops option \<Rightarrow> ('w, 'v) workflow \<Rightarrow> 'v option \<Rightarrow> run_option list \<Rightarrow>
      'w \<Rightarrow> (error + json) \<times> 'w" where
  "Run rt store wfl inp opts w =
    (case store of
      None \<Rightarrow> (Inl (Invalid CodeInvalidOption), w)
    | Some st \<Rightarrow>
        (case newRunOptions opts of
          Inl e \<Rightarrow> (Inl e, w)
        | Inr ro \<Rightarrow>
            (case Validate wfl of
              Some e \<Rightarrow> (Inl e, w)
            | None \<Rightarrow>
                (case ctx_Err rt CallerCtx w of
                  Some cerr \<Rightarrow> (Inl (wrap_err cerr KindUnavailable CodeCanceled), w)
                | None \<Rightarrow>
                    (case rt_Marshal rt inp of
                      Inl merr \<Rightarrow> (Inl (wrap_err merr KindInvalid CodeInvalidWorkflow), w)
                    | Inr payload \<Rightarrow> run_turns 2 rt st ro wfl inp payload w)))))"

definition Recover ::
    "('w, 'v) runtime \<Rightarrow> 'w store_ops option \<Rightarrow> ('w, 'v) workflow \<Rightarrow> string \<Rightarrow> run_option list \<Rightarrow>
      'w \<Rightarrow> error option \<times> 'w" where
  "Recover rt store wfl eid opts w =
    (case store of
      None \<Rightarrow> (Some (Invalid CodeInvalidOption), w)
    | Some st \<Rightarrow>
        (case newRunOptions opts of
          Inl e \<Rightarrow> (Some e, w)
        | Inr ro \<Rightarrow>
            (case Validate wfl of
              Some e \<Rightarrow> (Some e, w)
            | None \<Rightarrow>
                if o_lease ro \<le> 0 then (Some (Invalid CodeInvalidOption), w)
                else
                  (case op_Get st eid w of
                    (Inl gerr, w1) \<Rightarrow> (Some (wrap_err gerr (KindOf gerr) CodeStoreFailed), w1)
                  | (Inr None, w1) \<Rightarrow> (Some (Internal CodeStoreFailed), w1)
                  | (Inr (Some ex), w1) \<Rightarrow>
                      if ex_Workflow ex \<noteq> wf_Name wfl then (Some (Invalid CodeInvalidWorkflow), w1)
                      else if ex_Status ex \<noteq> StatusRunning
                      then (Some (Conflict CodeExecutionFailed), w1)
                      else if rt_now rt w1 - ex_UpdatedAt ex \<le> o_lease ro
                      then (Some (Conflict CodeExecutionRunning), w1)
                      else
                        (case claimAbandoned st ex w1 of
                          (ClaimLost, w2) \<Rightarrow> (Some (Conflict CodeExecutionRunning), w2)
                        | (ClaimUndecided, w2) \<Rightarrow> (Some (Unavailable CodeStoreFailed), w2)
                        | (ClaimWon, w2) \<Rightarrow>
                            if \<not> hasHeldWork (ex_Steps ex) then
                              (None, persistStatus st (ex_ID ex) StatusFailed []
                                [PartText ''the execution was closed on request: its lease had expired and no step was holding work'']
                                w2)
                            else
                              (case recoverExecution rt st ro wfl ex w2 of
                                ((again, rerr), w3) \<Rightarrow> (rerr, w3)))))))"

end
