(* ===== verification/WfSaga.thy ===== *)
theory WfSaga
  imports WfRecover
begin

text \<open>
  What a run does to the world, observed from outside.

  An observer is a function \<open>tr\<close> reading an event list off the world. The steps append one event
  per call, tagged with the index the engine wrote into the context and with the outcome; a
  write of the execution's status appends one; nothing else the engine calls appends any. Every
  engine with such steps and store is covered: the order of the events is then the engine's.
\<close>

datatype event =
    EInvoke int bool
  | ECompensate int bool
  | EStatus status

definition returned :: "'a call \<Rightarrow> bool" where
  "returned c = (case c of Returns _ \<Rightarrow> True | _ \<Rightarrow> False)"

definition observed_step :: "('w \<Rightarrow> event list) \<Rightarrow> ('w, 'v) step \<Rightarrow> bool" where
  "observed_step tr s \<longleftrightarrow>
    (\<forall>sc w. case st_Invoke s sc w of (r, sc', w') \<Rightarrow>
       sc_StepIndex sc' = sc_StepIndex sc \<and>
       tr w' = tr w @ [EInvoke (sc_StepIndex sc) (returned r)]) \<and>
    (\<forall>c sc w. case st_Compensate s c sc w of (r, sc', w') \<Rightarrow>
       sc_StepIndex sc' = sc_StepIndex sc \<and>
       tr w' = tr w @ [ECompensate (sc_StepIndex sc) (returned r)])"

definition observed_store :: "('w \<Rightarrow> event list) \<Rightarrow> 'w store_ops \<Rightarrow> bool" where
  "observed_store tr st \<longleftrightarrow>
    (\<forall>e w. tr (snd (op_Create st e w)) = tr w) \<and>
    (\<forall>n k w. tr (snd (op_FindByIdempotencyKey st n k w)) = tr w) \<and>
    (\<forall>i r w. tr (snd (op_AppendStep st i r w)) = tr w) \<and>
    (\<forall>i s p f w. tr (snd (op_UpdateStatus st i s p f w)) = tr w @ [EStatus s]) \<and>
    (\<forall>i w. tr (snd (op_Get st i w)) = tr w) \<and>
    (\<forall>cl i t w. op_ClaimAbandoned st = Some cl \<longrightarrow> tr (snd (cl i t w)) = tr w)"

definition observed_runtime :: "('w \<Rightarrow> event list) \<Rightarrow> ('w, 'v) runtime \<Rightarrow> bool" where
  "observed_runtime tr rt \<longleftrightarrow>
    (\<forall>c d w. tr (snd (rt_sleep rt c d w)) = tr w) \<and> (\<forall>w. tr (snd (rt_newExecutionID rt w)) = tr w)"

text \<open>A second observer reads off the world the error of the last invocation (\<open>None\<close> after one that
  returned); a recovered panic's error is the one \<open>safeInvoke\<close> makes of its value. Nothing but an
  invocation changes what it reads.\<close>

definition call_error :: "'a call \<Rightarrow> error option" where
  "call_error c = (case c of Returns _ \<Rightarrow> None | Fails e \<Rightarrow> Some e | Panics r \<Rightarrow> Some (panicError r))"

definition noted_step :: "('w \<Rightarrow> error option) \<Rightarrow> ('w, 'v) step \<Rightarrow> bool" where
  "noted_step er s \<longleftrightarrow>
    (\<forall>sc w. case st_Invoke s sc w of (r, sc', w') \<Rightarrow> er w' = call_error r) \<and>
    (\<forall>c sc w. case st_Compensate s c sc w of (r, sc', w') \<Rightarrow> er w' = er w)"

definition noted_store :: "('w \<Rightarrow> error option) \<Rightarrow> 'w store_ops \<Rightarrow> bool" where
  "noted_store er st \<longleftrightarrow>
    (\<forall>i r w. er (snd (op_AppendStep st i r w)) = er w) \<and>
    (\<forall>i s p f w. er (snd (op_UpdateStatus st i s p f w)) = er w)"

definition noted_runtime :: "('w \<Rightarrow> error option) \<Rightarrow> ('w, 'v) runtime \<Rightarrow> bool" where
  "noted_runtime er rt \<longleftrightarrow> (\<forall>c d w. er (snd (rt_sleep rt c d w)) = er w)"

text \<open>What \<open>context.Context\<close> documents of \<open>Err\<close>: no error, \<open>Canceled\<close> or \<open>DeadlineExceeded\<close>.\<close>

definition go_context :: "('w, 'v) runtime \<Rightarrow> bool" where
  "go_context rt \<longleftrightarrow>
    (\<forall>w. rt_callerErr rt w \<in> {None, Some (Sentinel ctx_Canceled), Some (Sentinel ctx_DeadlineExceeded)})"

text \<open>The calls made for one step: some failed attempts, then the last one.\<close>

definition attempts :: "(int \<Rightarrow> bool \<Rightarrow> event) \<Rightarrow> int \<Rightarrow> nat \<Rightarrow> bool \<Rightarrow> event list" where
  "attempts f i m ok = replicate m (f i False) @ [f i ok]"

definition invoked_all :: "int list \<Rightarrow> nat list \<Rightarrow> event list" where
  "invoked_all is ms = concat (map2 (\<lambda>i m. attempts EInvoke i m True) is ms)"

definition compensated_all :: "int list \<Rightarrow> (nat \<times> bool) list \<Rightarrow> event list" where
  "compensated_all is cs = concat (map2 (\<lambda>i (m, ok). attempts ECompensate i m ok) is cs)"

lemma wait_quiet:
  "observed_runtime tr rt \<Longrightarrow> tr (snd (wait rt c d w)) = tr w"
  by (simp add: wait_def observed_runtime_def)

lemma safeInvoke_observed:
  assumes "observed_step tr s" and "safeInvoke s sc w = (r, sc', w')"
  shows "tr w' = tr w @ [EInvoke (sc_StepIndex sc) (\<not> isl r)] \<and> sc_StepIndex sc' = sc_StepIndex sc"
proof -
  obtain c sc1 w1 where c: "st_Invoke s sc w = (c, sc1, w1)" by (cases "st_Invoke s sc w") auto
  with assms(1) have "sc_StepIndex sc1 = sc_StepIndex sc"
    "tr w1 = tr w @ [EInvoke (sc_StepIndex sc) (returned c)]"
    unfolding observed_step_def by (metis (mono_tags, lifting) case_prod_conv)+
  with assms(2) c show ?thesis
    by (cases c) (auto simp: safeInvoke_def returned_def)
qed

lemma safeCompensate_observed:
  assumes "observed_step tr s" and "safeCompensate cx s sc w = (r, sc', w')"
  shows "tr w' = tr w @ [ECompensate (sc_StepIndex sc) (r = None)] \<and>
    sc_StepIndex sc' = sc_StepIndex sc"
proof -
  obtain c sc1 w1 where c: "st_Compensate s cx sc w = (c, sc1, w1)"
    by (cases "st_Compensate s cx sc w") auto
  with assms(1) have "sc_StepIndex sc1 = sc_StepIndex sc"
    "tr w1 = tr w @ [ECompensate (sc_StepIndex sc) (returned c)]"
    unfolding observed_step_def by (metis (mono_tags, lifting) case_prod_conv)+
  with assms(2) c show ?thesis
    by (cases c) (auto simp: safeCompensate_def returned_def)
qed

lemma attempts_Suc: "f i False # attempts f i m ok = attempts f i (Suc m) ok"
  by (simp add: attempts_def)

lemma invokeStep_observed:
  assumes "observed_step tr s" and "observed_runtime tr rt"
    and "invokeStep rt p s a sc w = (r, n, sc', w')"
  shows "\<exists>m. tr w' = tr w @ attempts EInvoke (sc_StepIndex sc) m (\<not> isl r) \<and> n = a + int m"
  using assms
proof (induction rt p s a sc w rule: invokeStep.induct)
  case (1 rt p s a sc w)
  obtain r1 sc1 w1 where i: "safeInvoke s (sc\<lparr> sc_Attempt := a \<rparr>) w = (r1, sc1, w1)"
    by (cases "safeInvoke s (sc\<lparr> sc_Attempt := a \<rparr>) w") auto
  from safeInvoke_observed [OF "1.prems"(1) i]
  have w1: "tr w1 = tr w @ [EInvoke (sc_StepIndex sc) (\<not> isl r1)]"
    and idx: "sc_StepIndex sc1 = sc_StepIndex sc" by simp_all
  show ?case
  proof (cases "isl r1 \<and> \<not> (a \<ge> MaxAttempts p \<or> \<not> allow p (projl r1)) \<and>
      fst (wait rt CallerCtx (backoffFor p a) w1) = None")
    case False
    then have "r = r1 \<and> n = a \<and> (w' = w1 \<or> w' = snd (wait rt CallerCtx (backoffFor p a) w1))"
      using "1.prems"(3) i
      by (subst (asm) invokeStep.simps) (auto split: sum.splits if_splits option.splits prod.splits)
    with w1 wait_quiet [OF "1.prems"(2)] show ?thesis
      by (intro exI [of _ 0]) (auto simp: attempts_def)
  next
    case True
    then obtain e w2 where e: "r1 = Inl e" and w2: "wait rt CallerCtx (backoffFor p a) w1 = (None, w2)"
      by (cases r1; cases "wait rt CallerCtx (backoffFor p a) w1") auto
    with True i "1.prems"(3) have rec: "invokeStep rt p s (a + 1) sc1 w2 = (r, n, sc', w')"
      by (subst (asm) invokeStep.simps) auto
    have "\<exists>m. tr w' = tr w2 @ attempts EInvoke (sc_StepIndex sc1) m (\<not> isl r) \<and> n = a + 1 + int m"
      by (rule "1.IH" [OF i [symmetric] e refl _ w2 [symmetric] refl "1.prems"(1,2) rec])
        (use True e in auto)
    then obtain m where m: "tr w' = tr w2 @ attempts EInvoke (sc_StepIndex sc1) m (\<not> isl r)"
      "n = a + 1 + int m" by blast
    moreover have "tr w2 = tr w @ [EInvoke (sc_StepIndex sc) False]"
      using w1 e wait_quiet [OF "1.prems"(2), of CallerCtx "backoffFor p a" w1] w2 by simp
    ultimately show ?thesis
      using idx by (intro exI [of _ "Suc m"]) (simp flip: attempts_Suc)
  qed
qed

lemma compensateStep_observed:
  assumes "observed_step tr s" and "observed_runtime tr rt"
    and "compensateStep rt p c s a sc w = (r, n, sc', w')"
  shows "\<exists>m. tr w' = tr w @ attempts ECompensate (sc_StepIndex sc) m (r = None)"
  using assms
proof (induction rt p c s a sc w rule: compensateStep.induct)
  case (1 rt p c s a sc w)
  obtain r1 sc1 w1 where i: "safeCompensate c s (sc\<lparr> sc_Attempt := a \<rparr>) w = (r1, sc1, w1)"
    by (cases "safeCompensate c s (sc\<lparr> sc_Attempt := a \<rparr>) w") auto
  from safeCompensate_observed [OF "1.prems"(1) i]
  have w1: "tr w1 = tr w @ [ECompensate (sc_StepIndex sc) (r1 = None)]"
    and idx: "sc_StepIndex sc1 = sc_StepIndex sc" by simp_all
  show ?case
  proof (cases "r1 \<noteq> None \<and> \<not> (a \<ge> MaxAttempts p \<or> \<not> allow p (the r1)) \<and>
      fst (wait rt c (backoffFor p a) w1) = None")
    case False
    then have "r = r1 \<and> (w' = w1 \<or> w' = snd (wait rt c (backoffFor p a) w1))"
      using "1.prems"(3) i
      by (subst (asm) compensateStep.simps) (auto split: if_splits option.splits prod.splits)
    with w1 wait_quiet [OF "1.prems"(2)] show ?thesis
      by (intro exI [of _ 0]) (auto simp: attempts_def)
  next
    case True
    then obtain e w2 where e: "r1 = Some e" and w2: "wait rt c (backoffFor p a) w1 = (None, w2)"
      by (cases r1; cases "wait rt c (backoffFor p a) w1") auto
    with True i "1.prems"(3) have rec: "compensateStep rt p c s (a + 1) sc1 w2 = (r, n, sc', w')"
      by (subst (asm) compensateStep.simps) auto
    have "\<exists>m. tr w' = tr w2 @ attempts ECompensate (sc_StepIndex sc1) m (r = None)"
      by (rule "1.IH" [OF i [symmetric] e refl _ w2 [symmetric] refl "1.prems"(1,2) rec])
        (use True e in auto)
    then obtain m where m: "tr w' = tr w2 @ attempts ECompensate (sc_StepIndex sc1) m (r = None)"
      by blast
    moreover have "tr w2 = tr w @ [ECompensate (sc_StepIndex sc) False]"
      using w1 e wait_quiet [OF "1.prems"(2), of c "backoffFor p a" w1] w2 by simp
    ultimately show ?thesis
      using idx by (intro exI [of _ "Suc m"]) (simp flip: attempts_Suc)
  qed
qed

lemma persistStep_quiet: "observed_store tr st \<Longrightarrow> tr (persistStep st eid rc w) = tr w"
  by (simp add: persistStep_def observed_store_def)

lemma persistStatus_observed:
  "observed_store tr st \<Longrightarrow> tr (persistStatus st eid s p f w) = tr w @ [EStatus s]"
  by (simp add: persistStatus_def observed_store_def)

lemma compensate_one_observed:
  assumes "observed_step tr (d_step d)" and "observed_runtime tr rt" and "observed_store tr st"
    and "compensate_one rt st ro eid d sc w = (r, sc', w')"
  shows "\<exists>m. tr w' = tr w @ attempts ECompensate (sr_Index (d_rec d)) m (r = None)"
proof -
  define sc1 where "sc1 = sc\<lparr> sc_StepName := sr_Name (d_rec d),
    sc_StepIndex := sr_Index (d_rec d), sc_Attempt := 1 \<rparr>"
  define c where "c = DetachedCtx (rt_now rt w + o_compensationTimeout ro)"
  obtain r2 n sc2 w2 where
    c2: "compensateStep rt (o_compensationRetry ro) c (d_step d) 1 sc1 w = (r2, n, sc2, w2)"
    by (cases "compensateStep rt (o_compensationRetry ro) c (d_step d) 1 sc1 w") auto
  from compensateStep_observed [OF assms(1,2) c2] obtain m where
    m: "tr w2 = tr w @ attempts ECompensate (sr_Index (d_rec d)) m (r2 = None)"
    by (auto simp: sc1_def)
  from assms(4) c2 have "(r = None) = (r2 = None) \<and> (\<exists>rc. w' = persistStep st eid rc w2)"
    by (auto simp: compensate_one_def Let_def sc1_def c_def split: option.splits)
  with m persistStep_quiet [OF assms(3)] show ?thesis by auto
qed

lemma compensate_loop_observed:
  assumes "\<forall>d \<in> set ds. observed_step tr (d_step d)"
    and "observed_runtime tr rt" and "observed_store tr st"
    and "compensate_loop rt st ro eid ds sc w = (fs, sc', w')"
  shows "\<exists>cs. length cs = length ds \<and> (fs = [] \<longleftrightarrow> (\<forall>(m, ok) \<in> set cs. ok)) \<and>
    tr w' = tr w @ compensated_all (map (\<lambda>d. sr_Index (d_rec d)) ds) cs"
  using assms
proof (induction ds arbitrary: sc w fs sc' w')
  case Nil
  then show ?case by (auto simp: compensated_all_def)
next
  case (Cons d ds)
  obtain r sc1 w1 where one: "compensate_one rt st ro eid d sc w = (r, sc1, w1)"
    by (cases "compensate_one rt st ro eid d sc w") auto
  obtain fs2 sc2 w2 where loop: "compensate_loop rt st ro eid ds sc1 w1 = (fs2, sc2, w2)"
    by (cases "compensate_loop rt st ro eid ds sc1 w1") auto
  with one Cons.prems(4) have res: "fs = (case r of None \<Rightarrow> fs2 | Some e \<Rightarrow> e # fs2)" "w' = w2"
    by simp_all
  have "observed_step tr (d_step d)" using Cons.prems(1) by simp
  from compensate_one_observed [OF this Cons.prems(2,3) one] obtain m where
    m: "tr w1 = tr w @ attempts ECompensate (sr_Index (d_rec d)) m (r = None)" by blast
  have "\<forall>d \<in> set ds. observed_step tr (d_step d)" using Cons.prems(1) by simp
  from Cons.IH [OF this Cons.prems(2,3) loop] obtain cs where
    cs: "length cs = length ds" "fs2 = [] \<longleftrightarrow> (\<forall>(m, ok) \<in> set cs. ok)"
      "tr w2 = tr w1 @ compensated_all (map (\<lambda>d. sr_Index (d_rec d)) ds) cs" by blast
  show ?case
    using cs m res by (intro exI [of _ "(m, r = None) # cs"])
      (auto simp: compensated_all_def split: option.splits)
qed

lemma compensate_observed:
  assumes "\<forall>d \<in> set dones. observed_step tr (d_step d)"
    and "observed_runtime tr rt" and "observed_store tr st"
    and "compensate rt st ro eid dones sc w = (ce, sc', w')"
  shows "\<exists>cs. length cs = length dones \<and> (ce = None \<longleftrightarrow> (\<forall>(m, ok) \<in> set cs. ok)) \<and>
    tr w' = tr w @ compensated_all (map (\<lambda>d. sr_Index (d_rec d)) (rev dones)) cs"
proof -
  obtain fs sc1 w1 where loop: "compensate_loop rt st ro eid (rev dones) sc w = (fs, sc1, w1)"
    by (cases "compensate_loop rt st ro eid (rev dones) sc w") auto
  have "ce = None \<longleftrightarrow> fs = []"
    using assms(4) loop by (cases fs) (auto simp: compensate_def Join_def)
  moreover have "w' = w1" using assms(4) loop by (simp add: compensate_def)
  ultimately show ?thesis
    using compensate_loop_observed [OF _ assms(2,3) loop] assms(1) by auto
qed

lemma unwind_observed:
  assumes "\<forall>d \<in> set dones. observed_step tr (d_step d)"
    and "observed_runtime tr rt" and "observed_store tr st"
    and "unwind rt st ro eid dones sc cause w = (r, w')"
  shows "\<exists>cs e s. r = Inl e \<and> length cs = length dones \<and>
    tr w' = tr w @ compensated_all (map (\<lambda>d. sr_Index (d_rec d)) (rev dones)) cs @ [EStatus s] \<and>
    (if (\<forall>(m, ok) \<in> set cs. ok) \<and> \<not> err_Is cause ErrUncompensated
     then s = StatusFailed \<and> e = cause
     else s = StatusCompensationFailed \<and> KindOf e = KindInternal \<and>
       CodeOf e = CodeCompensationFailed \<and> (\<forall>t. err_Is cause t \<longrightarrow> err_Is e t))"
proof -
  obtain ce sc1 w1 where c: "compensate rt st ro eid dones sc w = (ce, sc1, w1)"
    by (cases "compensate rt st ro eid dones sc w") auto
  from compensate_observed [OF assms(1-3) c] obtain cs where
    cs: "length cs = length dones" "ce = None \<longleftrightarrow> (\<forall>(m, ok) \<in> set cs. ok)"
      "tr w1 = tr w @ compensated_all (map (\<lambda>d. sr_Index (d_rec d)) (rev dones)) cs" by blast
  show ?thesis
  proof (cases "ce = None \<and> \<not> err_Is cause ErrUncompensated")
    case True
    with assms(4) c have "r = Inl cause" "w' = persistStatus st eid StatusFailed [] [PartErr cause] w1"
      by (auto simp: unwind_def)
    with True cs show ?thesis
      by (intro exI [of _ cs] exI [of _ cause] exI [of _ StatusFailed])
        (simp add: persistStatus_observed [OF assms(3)])
  next
    case False
    define f where "f = wrap_err (the (Join [Some cause, ce])) KindInternal CodeCompensationFailed"
    from False assms(4) c have
      "r = Inl f" "w' = persistStatus st eid StatusCompensationFailed [] [PartErr f] w1"
      by (auto simp: unwind_def Let_def f_def)
    moreover have "KindOf f = KindInternal" "CodeOf f = CodeCompensationFailed"
      by (simp_all add: f_def)
    moreover have "\<forall>t. err_Is cause t \<longrightarrow> err_Is f t"
    proof -
      obtain j where "Join [Some cause, ce] = Some j" by (cases ce) (simp_all add: Join_def)
      from this err_Is_Join [OF this] show ?thesis by (auto simp: f_def)
    qed
    ultimately show ?thesis
      using False cs by (intro exI [of _ cs] exI [of _ f] exI [of _ StatusCompensationFailed])
        (simp add: persistStatus_observed [OF assms(3)])
  qed
qed

lemma wait_noted: "noted_runtime er rt \<Longrightarrow> er (snd (wait rt c d w)) = er w"
  by (simp add: wait_def noted_runtime_def)

lemma safeInvoke_noted:
  assumes "noted_step er s" and "safeInvoke s sc w = (r, sc', w')"
  shows "er w' = (case r of Inl e \<Rightarrow> Some e | Inr _ \<Rightarrow> None)"
proof -
  obtain c sc1 w1 where c: "st_Invoke s sc w = (c, sc1, w1)" by (cases "st_Invoke s sc w") auto
  with assms(1) have "er w1 = call_error c"
    unfolding noted_step_def by (metis (mono_tags, lifting) case_prod_conv)
  with assms(2) c show ?thesis
    by (cases c) (auto simp: safeInvoke_def call_error_def)
qed

lemma safeCompensate_noted:
  assumes "noted_step er s" and "safeCompensate cx s sc w = (r, sc', w')"
  shows "er w' = er w"
proof -
  obtain c sc1 w1 where c: "st_Compensate s cx sc w = (c, sc1, w1)"
    by (cases "st_Compensate s cx sc w") auto
  with assms(1) have "er w1 = er w"
    unfolding noted_step_def by (metis (mono_tags, lifting) case_prod_conv)
  with assms(2) c show ?thesis
    by (cases c) (auto simp: safeCompensate_def)
qed

lemma invokeStep_noted:
  assumes "noted_step er s" and "noted_runtime er rt"
    and "invokeStep rt p s a sc w = (Inl serr, n, sc', w')"
  shows "er w' = Some serr"
  using assms
proof (induction rt p s a sc w rule: invokeStep.induct)
  case (1 rt p s a sc w)
  obtain r1 sc1 w1 where i: "safeInvoke s (sc\<lparr> sc_Attempt := a \<rparr>) w = (r1, sc1, w1)"
    by (cases "safeInvoke s (sc\<lparr> sc_Attempt := a \<rparr>) w") auto
  have w1: "er w1 = (case r1 of Inl e \<Rightarrow> Some e | Inr _ \<Rightarrow> None)"
    by (rule safeInvoke_noted [OF "1.prems"(1) i])
  obtain e where e: "r1 = Inl e"
    using i "1.prems"(3) by (subst (asm) invokeStep.simps) (auto split: sum.splits)
  show ?case
  proof (cases "a \<ge> MaxAttempts p \<or> \<not> allow p e")
    case True
    with i e w1 "1.prems"(3) show ?thesis by (subst (asm) invokeStep.simps) auto
  next
    case False
    obtain q w2 where w2: "wait rt CallerCtx (backoffFor p a) w1 = (q, w2)"
      by (cases "wait rt CallerCtx (backoffFor p a) w1") auto
    have k: "er w2 = er w1"
      using wait_noted [OF "1.prems"(2), of CallerCtx "backoffFor p a" w1] w2 by simp
    show ?thesis
    proof (cases q)
      case None
      with i e w2 False "1.prems"(3) have rec: "invokeStep rt p s (a + 1) sc1 w2 = (Inl serr, n, sc', w')"
        by (subst (asm) invokeStep.simps) auto
      from None w2 have w2': "(None, w2) = wait rt CallerCtx (backoffFor p a) w1" by simp
      show ?thesis
        by (rule "1.IH" [OF i [symmetric] e refl False w2' refl "1.prems"(1,2) rec])
    next
      case (Some q')
      with i e w2 False w1 k "1.prems"(3) show ?thesis by (subst (asm) invokeStep.simps) auto
    qed
  qed
qed

lemma compensateStep_noted:
  assumes "noted_step er s" and "noted_runtime er rt"
    and "compensateStep rt p c s a sc w = (r, n, sc', w')"
  shows "er w' = er w"
  using assms
proof (induction rt p c s a sc w rule: compensateStep.induct)
  case (1 rt p c s a sc w)
  obtain r1 sc1 w1 where i: "safeCompensate c s (sc\<lparr> sc_Attempt := a \<rparr>) w = (r1, sc1, w1)"
    by (cases "safeCompensate c s (sc\<lparr> sc_Attempt := a \<rparr>) w") auto
  have w1: "er w1 = er w" by (rule safeCompensate_noted [OF "1.prems"(1) i])
  show ?case
  proof (cases "r1 = None \<or> a \<ge> MaxAttempts p \<or> \<not> allow p (the r1)")
    case True
    with i w1 "1.prems"(3) show ?thesis
      by (subst (asm) compensateStep.simps) (auto split: option.splits)
  next
    case False
    then obtain e where e: "r1 = Some e" by auto
    with False have cont: "\<not> (a \<ge> MaxAttempts p \<or> \<not> allow p e)" by simp
    obtain q w2 where w2: "wait rt c (backoffFor p a) w1 = (q, w2)"
      by (cases "wait rt c (backoffFor p a) w1") auto
    have k: "er w2 = er w1"
      using wait_noted [OF "1.prems"(2), of c "backoffFor p a" w1] w2 by simp
    show ?thesis
    proof (cases q)
      case None
      with i e w2 cont "1.prems"(3) have rec: "compensateStep rt p c s (a + 1) sc1 w2 = (r, n, sc', w')"
        by (subst (asm) compensateStep.simps) auto
      from None w2 have w2': "(None, w2) = wait rt c (backoffFor p a) w1" by simp
      from "1.IH" [OF i [symmetric] e refl cont w2' refl "1.prems"(1,2) rec] k w1
      show ?thesis by simp
    next
      case (Some q')
      with i e w2 cont w1 k "1.prems"(3) show ?thesis by (subst (asm) compensateStep.simps) auto
    qed
  qed
qed

lemma compensate_loop_noted:
  assumes "\<forall>d \<in> set ds. noted_step er (d_step d)" and "noted_runtime er rt" and "noted_store er st"
    and "compensate_loop rt st ro eid ds sc w = (fs, sc', w')"
  shows "er w' = er w"
  using assms
proof (induction ds arbitrary: sc w fs sc' w')
  case Nil
  then show ?case by simp
next
  case (Cons d ds)
  obtain r sc1 w1 where one: "compensate_one rt st ro eid d sc w = (r, sc1, w1)"
    by (cases "compensate_one rt st ro eid d sc w") auto
  obtain fs2 sc2 w2 where loop: "compensate_loop rt st ro eid ds sc1 w1 = (fs2, sc2, w2)"
    by (cases "compensate_loop rt st ro eid ds sc1 w1") auto
  have "er w1 = er w"
    using one Cons.prems(1-3) compensateStep_noted [of er "d_step d" rt]
    by (auto simp: compensate_one_def Let_def persistStep_def noted_store_def
        split: prod.splits option.splits)
  with Cons.IH [OF _ Cons.prems(2,3) loop] Cons.prems(1,4) one loop show ?case by simp
qed

lemma unwind_noted:
  assumes "\<forall>d \<in> set dones. noted_step er (d_step d)" and "noted_runtime er rt"
    and "noted_store er st" and "unwind rt st ro eid dones sc cause w = (r, w')"
  shows "er w' = er w"
proof -
  obtain fs sc1 w1 where loop: "compensate_loop rt st ro eid (rev dones) sc w = (fs, sc1, w1)"
    by (cases "compensate_loop rt st ro eid (rev dones) sc w") auto
  have "er w1 = er w" using compensate_loop_noted [OF _ assms(2,3) loop] assms(1) by simp
  with assms(3,4) loop show ?thesis
    by (auto simp: unwind_def compensate_def Let_def persistStatus_def noted_store_def
        split: if_splits)
qed

text \<open>A failed run, from the step \<open>k\<close> where it stopped: \<open>before\<close> was invoked, then nothing (the
  context was dead) or the failing step, then the compensations in reverse, then one status.\<close>

definition stopped_at ::
    "int list \<Rightarrow> int \<Rightarrow> nat option \<Rightarrow> (nat \<times> bool) list \<Rightarrow> status \<Rightarrow> event list" where
  "stopped_at done k failed cs s =
    (case failed of None \<Rightarrow> [] | Some m \<Rightarrow> attempts EInvoke k m False) @
    compensated_all (rev (done @ (case failed of Some (Suc m) \<Rightarrow> [k] | _ \<Rightarrow> []))) cs @ [EStatus s]"

definition verdict :: "(nat \<times> bool) list \<Rightarrow> error \<Rightarrow> status \<Rightarrow> error \<Rightarrow> bool" where
  "verdict cs cause s e \<longleftrightarrow>
    (if (\<forall>(m, ok) \<in> set cs. ok) \<and> \<not> err_Is cause ErrUncompensated
     then s = StatusFailed \<and> e = cause
     else s = StatusCompensationFailed \<and> KindOf e = KindInternal \<and>
       CodeOf e = CodeCompensationFailed \<and> (\<forall>t. err_Is cause t \<longrightarrow> err_Is e t))"

text \<open>Why a run stopped: at a failing step, the error its last invocation left; before a step that
  was never tried, the caller's context.\<close>

definition stop_cause :: "error option \<Rightarrow> nat option \<Rightarrow> error \<Rightarrow> bool" where
  "stop_cause told failed cause \<longleftrightarrow>
    (case failed of
      None \<Rightarrow> cause \<in> (\<lambda>c. wrap_err (Sentinel c) KindUnavailable CodeCanceled) `
        {ctx_Canceled, ctx_DeadlineExceeded}
    | Some m \<Rightarrow> (case told of None \<Rightarrow> False
        | Some serr \<Rightarrow> cause = wrap_err serr (KindOf serr) (stepFailureCode serr)))"

lemma stopped_verdict:
  assumes "stop_cause told failed cause" and "verdict cs cause s e"
  shows "(failed \<noteq> None \<longrightarrow> told \<noteq> None) \<and>
    s = (if (\<forall>(m, ok) \<in> set cs. ok) \<and> (failed = None \<or> \<not> err_Is (the told) ErrUncompensated)
         then StatusFailed else StatusCompensationFailed) \<and>
    (s = StatusFailed \<longrightarrow>
      (case failed of
        None \<Rightarrow> \<exists>c \<in> {ctx_Canceled, ctx_DeadlineExceeded}.
          e = wrap_err (Sentinel c) KindUnavailable CodeCanceled
      | Some _ \<Rightarrow> e = wrap_err (the told) (KindOf (the told))
          (if CodeOf (the told) = [] then CodeStepFailed else CodeOf (the told)))) \<and>
    (s = StatusCompensationFailed \<longrightarrow>
      KindOf e = KindInternal \<and> CodeOf e = CodeCompensationFailed \<and>
      (case failed of
        None \<Rightarrow> err_Is e ctx_Canceled \<or> err_Is e ctx_DeadlineExceeded
      | Some _ \<Rightarrow> \<forall>t. err_Is (the told) t \<longrightarrow> err_Is e t))"
proof (cases failed)
  case None
  with assms(1) have "\<not> err_Is cause ErrUncompensated"
    "err_Is cause ctx_Canceled \<or> err_Is cause ctx_DeadlineExceeded"
    by (auto simp: stop_cause_def ErrUncompensated_def ctx_Canceled_def ctx_DeadlineExceeded_def)
  with assms None show ?thesis
    by (auto simp: stop_cause_def verdict_def split: if_splits)
next
  case (Some m)
  with assms show ?thesis
    by (auto simp: stop_cause_def verdict_def stepFailureCode_def split: if_splits option.splits)
qed

lemma invoked_all_Cons:
  "invoked_all (i # is) (m # ms) = attempts EInvoke i m True @ invoked_all is ms"
  by (simp add: invoked_all_def)

lemma invoked_all_Nil [simp]: "invoked_all [] ms = []"
  by (simp add: invoked_all_def)

lemma upto_Suc: "[i..i + int (Suc k) - 1] = i # [i + 1..i + 1 + int k - 1]"
  by (subst upto_rec1) (auto simp: algebra_simps)

definition ran_to_end :: "('w \<Rightarrow> event list) \<Rightarrow> int \<Rightarrow> nat \<Rightarrow> 'w \<Rightarrow> 'w \<Rightarrow> bool" where
  "ran_to_end tr i n w w' \<longleftrightarrow>
    (\<exists>ms. length ms = n \<and>
      tr w' = tr w @ invoked_all [i..i + int n - 1] ms @ [EStatus StatusCompleted])"

definition ran_back ::
    "('w \<Rightarrow> event list) \<Rightarrow> ('w \<Rightarrow> error option) \<Rightarrow> int list \<Rightarrow> int \<Rightarrow> nat \<Rightarrow> error \<Rightarrow> 'w \<Rightarrow> 'w \<Rightarrow> bool" where
  "ran_back tr er done i n e w w' \<longleftrightarrow>
    (\<exists>k ms failed cs s cause. k < n \<and> length ms = k \<and>
      length cs = length done + k + (case failed of Some (Suc m) \<Rightarrow> 1 | _ \<Rightarrow> 0) \<and>
      tr w' = tr w @ invoked_all [i..i + int k - 1] ms @
        stopped_at (done @ [i..i + int k - 1]) (i + int k) failed cs s \<and>
      stop_cause (er w') failed cause \<and> verdict cs cause s e)"

lemma ran_to_end_Suc:
  assumes "tr w2 = tr w @ attempts EInvoke i m True" and "ran_to_end tr (i + 1) n w2 w'"
  shows "ran_to_end tr i (Suc n) w w'"
proof -
  from assms(2) obtain ms where "length ms = n"
    "tr w' = tr w2 @ invoked_all [i + 1..i + 1 + int n - 1] ms @ [EStatus StatusCompleted]"
    unfolding ran_to_end_def by blast
  with assms(1) show ?thesis
    unfolding ran_to_end_def by (intro exI [of _ "m # ms"]) (simp only: upto_Suc invoked_all_Cons, simp)
qed

lemma ran_back_Suc:
  assumes "tr w2 = tr w @ attempts EInvoke i m True"
    and "ran_back tr er (done @ [i]) (i + 1) n e w2 w'"
  shows "ran_back tr er done i (Suc n) e w w'"
proof -
  from assms(2) obtain k ms failed cs s cause where *: "k < n" "length ms = k"
    "length cs = length (done @ [i]) + k + (case failed of Some (Suc m) \<Rightarrow> 1 | _ \<Rightarrow> 0)"
    "tr w' = tr w2 @ invoked_all [i + 1..i + 1 + int k - 1] ms @
        stopped_at ((done @ [i]) @ [i + 1..i + 1 + int k - 1]) (i + 1 + int k) failed cs s"
    "stop_cause (er w') failed cause" "verdict cs cause s e"
    unfolding ran_back_def by blast
  have "tr w' = tr w @ invoked_all [i..i + int (Suc k) - 1] (m # ms) @
        stopped_at (done @ [i..i + int (Suc k) - 1]) (i + int (Suc k)) failed cs s"
    unfolding upto_Suc invoked_all_Cons using *(4) assms(1) by (simp add: add.assoc)
  with * show ?thesis
    unfolding ran_back_def
    by (intro exI [of _ "Suc k"] exI [of _ "m # ms"] exI [of _ failed] exI [of _ cs] exI [of _ s]
        exI [of _ cause]) simp
qed

lemma ran_back_canceled:
  assumes "\<forall>d \<in> set dones. observed_step tr (d_step d)"
    and "observed_runtime tr rt" and "observed_store tr st" and "stop_cause (er w') None cause"
    and "unwind rt st ro eid dones sc cause w = (r, w')"
  shows "\<exists>e. r = Inl e \<and> ran_back tr er (map (\<lambda>d. sr_Index (d_rec d)) dones) i (Suc n) e w w'"
proof -
  from unwind_observed [OF assms(1-3,5)] obtain cs e t where
    "r = Inl e" "length cs = length dones"
    "tr w' = tr w @ compensated_all (rev (map (\<lambda>d. sr_Index (d_rec d)) dones)) cs @ [EStatus t]"
    "verdict cs cause t e"
    unfolding verdict_def rev_map by blast
  with assms(4) show ?thesis
    unfolding ran_back_def
    by (auto simp: stopped_at_def intro!: exI [of _ 0] exI [of _ "None :: nat option"] exI [of _ cs]
        exI [of _ t] exI [of _ cause])
qed

lemma ran_back_failed:
  assumes "\<forall>d \<in> set dones. observed_step tr (d_step d)" and "observed_step tr s"
    and "observed_runtime tr rt" and "observed_store tr st"
    and w2: "tr w2 = tr w @ attempts EInvoke i m False" and rc: "sr_Index rc = i"
    and told: "stop_cause (er w') (Some m) cause"
    and u: "unwind rt st ro eid
        (dones @ (if m = 0 then [] else [\<lparr> d_step = s, d_rec = rc, d_bestEffort = True \<rparr>]))
        sc cause w2 = (r, w')"
  shows "\<exists>e. r = Inl e \<and> ran_back tr er (map (\<lambda>d. sr_Index (d_rec d)) dones) i (Suc n) e w w'"
proof -
  let ?is = "map (\<lambda>d. sr_Index (d_rec d)) dones"
  define ds where
    "ds = dones @ (if m = 0 then [] else [\<lparr> d_step = s, d_rec = rc, d_bestEffort = True \<rparr>])"
  have ds: "\<forall>d \<in> set ds. observed_step tr (d_step d)"
    "length ds = length dones + (if m = 0 then 0 else 1)"
    "map (\<lambda>d. sr_Index (d_rec d)) ds = ?is @ (if m = 0 then [] else [i])"
    using assms(1,2) rc by (auto simp: ds_def)
  from unwind_observed [OF ds(1) assms(3,4) u [folded ds_def]] obtain cs e t where
    "r = Inl e" "length cs = length ds"
    "tr w' = tr w2 @ compensated_all (rev (map (\<lambda>d. sr_Index (d_rec d)) ds)) cs @ [EStatus t]"
    "verdict cs cause t e"
    unfolding verdict_def rev_map by blast
  then show ?thesis
    using w2 told unfolding ran_back_def ds(2,3)
    by (cases m) (auto simp: stopped_at_def intro!: exI [of _ 0] exI [of _ "Some m"] exI [of _ cs]
        exI [of _ t] exI [of _ cause])
qed

lemma execute_loop_observed:
  assumes "\<forall>s \<in> set ss. observed_step tr s" and "\<forall>d \<in> set dones. observed_step tr (d_step d)"
    and "observed_runtime tr rt" and "observed_store tr st"
    and "\<forall>s \<in> set ss. noted_step er s" and "\<forall>d \<in> set dones. noted_step er (d_step d)"
    and "noted_runtime er rt" and "noted_store er st" and "go_context rt"
    and "execute_loop rt st ro eid i ss dones lst sc w = (r, w')"
  shows "case r of
      Inr _ \<Rightarrow> ran_to_end tr i (length ss) w w'
    | Inl e \<Rightarrow> ran_back tr er (map (\<lambda>d. sr_Index (d_rec d)) dones) i (length ss) e w w'"
  using assms
proof (induction ss arbitrary: i dones lst sc w)
  case Nil
  then show ?case
    by (auto simp: ran_to_end_def persistStatus_observed split: prod.splits)
next
  case (Cons s ss)
  have s: "observed_step tr s" using Cons.prems(1) by simp
  show ?case
  proof (cases "ctx_Err rt CallerCtx w")
    case (Some cerr)
    with Cons.prems(10) have u:
      "unwind rt st ro eid dones sc (wrap_err cerr KindUnavailable CodeCanceled) w = (r, w')" by simp
    have "cerr \<in> Sentinel ` {ctx_Canceled, ctx_DeadlineExceeded}"
      using Some Cons.prems(9) [unfolded go_context_def, rule_format, of w] by (auto simp: ctx_Err_def)
    then have told: "stop_cause (er w') None (wrap_err cerr KindUnavailable CodeCanceled)"
      by (auto simp: stop_cause_def)
    show ?thesis
      using ran_back_canceled [where er = er and w' = w', OF Cons.prems(2-4) told u, of i "length ss"] by auto
  next
    case None
    obtain ir n sc2 w2 where
      inv: "invokeStep rt (o_retry ro) s 1 (turn_context s i sc) w = (ir, n, sc2, w2)"
      by (cases "invokeStep rt (o_retry ro) s 1 (turn_context s i sc) w") auto
    from invokeStep_observed [OF s Cons.prems(3) inv] obtain m where
      m: "tr w2 = tr w @ attempts EInvoke i m (\<not> isl ir)" "n = 1 + int m"
      by (auto simp: turn_context_def)
    show ?thesis
    proof (cases ir)
      case (Inl serr)
      with execute_loop_failed [OF None] inv Cons.prems(10) obtain rc where rc: "sr_Index rc = i" and
        "unwind rt st ro eid
          (dones @ (if n > 1 then [\<lparr> d_step = s, d_rec = rc, d_bestEffort = True \<rparr>] else []))
          sc2 (wrap_err serr (KindOf serr) (stepFailureCode serr)) (persistStep st eid rc w2) = (r, w')"
        by metis
      with m(2) have u: "unwind rt st ro eid
          (dones @ (if m = 0 then [] else [\<lparr> d_step = s, d_rec = rc, d_bestEffort = True \<rparr>]))
          sc2 (wrap_err serr (KindOf serr) (stepFailureCode serr)) (persistStep st eid rc w2) = (r, w')"
        by (cases m) simp_all
      have "er w2 = Some serr"
        using invokeStep_noted [OF _ Cons.prems(7)] Cons.prems(5) inv Inl by auto
      moreover have "er w' = er w2"
        using unwind_noted [OF _ Cons.prems(7,8) u] Cons.prems(5,6,8)
        by (auto simp: persistStep_def noted_store_def split: if_splits)
      ultimately have told:
        "stop_cause (er w') (Some m) (wrap_err serr (KindOf serr) (stepFailureCode serr))"
        by (simp add: stop_cause_def)
      show ?thesis
        using ran_back_failed [where er = er and w' = w', OF Cons.prems(2) s Cons.prems(3,4) _ rc told u, of w "length ss"] m(1) Inl
        by (auto simp: persistStep_quiet [OF Cons.prems(4)])
    next
      case (Inr out)
      with execute_loop_invoked [OF None] inv Cons.prems(10) obtain rc where rc: "sr_Index rc = i" and
        loop: "execute_loop rt st ro eid (i + 1) ss
            (dones @ [\<lparr> d_step = s, d_rec = rc, d_bestEffort = False \<rparr>]) out sc2
            (persistStep st eid rc w2) = (r, w')"
        by metis
      have "tr (persistStep st eid rc w2) = tr w @ attempts EInvoke i m True"
        using m(1) Inr by (simp add: persistStep_quiet [OF Cons.prems(4)])
      with Cons.IH [OF _ _ Cons.prems(3,4) _ _ Cons.prems(7-9) loop] Cons.prems(1,2,5,6) s rc
      show ?thesis
        by (cases r) (auto intro: ran_to_end_Suc ran_back_Suc)
    qed
  qed
qed

end
