(* ===== verification/WfMemory.thy ===== *)
theory WfMemory
  imports WfSaga
begin

text \<open>
  The engine on the in-process store.

  A world holds a \<open>memory_store\<close> that \<open>get_m\<close> reads and \<open>put_m\<close> writes; \<open>memory_ops\<close> is the value
  \<open>NewMemoryStore()\<close> returns, as the \<open>Store\<close> of such a world, with \<open>now\<close> the clock the store
  reads. The steps and the runtime are required to leave the store alone, which is what the code
  guarantees by keeping it private to the engine.

  The second half is a concrete world on which the theorems about the engine are instantiated:
  a memory store, a clock, a counter for ids and a log of the calls.
\<close>

section \<open>The memory store as a Store\<close>

definition memory_ops ::
    "('w \<Rightarrow> memory_store) \<Rightarrow> (memory_store \<Rightarrow> 'w \<Rightarrow> 'w) \<Rightarrow> ('w \<Rightarrow> int) \<Rightarrow> 'w store_ops" where
  "memory_ops get_m put_m now =
    \<lparr> op_Create = (\<lambda>e w. case mem_Create (Some e) (get_m w) of (r, s) \<Rightarrow> (r, put_m s w)),
      op_FindByIdempotencyKey = (\<lambda>wn key w. (mem_FindByIdempotencyKey wn key (get_m w), w)),
      op_AppendStep = (\<lambda>eid rc w. case mem_AppendStep eid rc (now w) (get_m w) of (r, s) \<Rightarrow> (r, put_m s w)),
      op_UpdateStatus = (\<lambda>eid st outp fl w.
        case mem_UpdateStatus eid st outp fl (now w) (get_m w) of (r, s) \<Rightarrow> (r, put_m s w)),
      op_Get = (\<lambda>eid w. (mem_Get eid (get_m w), w)),
      op_ClaimAbandoned = Some (\<lambda>eid seen w.
        case mem_ClaimAbandoned eid seen (now w) (get_m w) of (r, s) \<Rightarrow> (r, put_m s w)) \<rparr>"

lemmas memory_ops_sel [simp] =
  memory_ops_def [THEN arg_cong [where f = op_Create], simplified]
  memory_ops_def [THEN arg_cong [where f = op_FindByIdempotencyKey], simplified]
  memory_ops_def [THEN arg_cong [where f = op_AppendStep], simplified]
  memory_ops_def [THEN arg_cong [where f = op_UpdateStatus], simplified]
  memory_ops_def [THEN arg_cong [where f = op_Get], simplified]
  memory_ops_def [THEN arg_cong [where f = op_ClaimAbandoned], simplified]

section \<open>Facts about the world that a run keeps\<close>

definition step_keeps :: "('w \<Rightarrow> bool) \<Rightarrow> ('w, 'v) step \<Rightarrow> bool" where
  "step_keeps P s \<longleftrightarrow>
    (\<forall>sc w. P w \<longrightarrow> P (snd (snd (st_Invoke s sc w)))) \<and>
    (\<forall>c sc w. P w \<longrightarrow> P (snd (snd (st_Compensate s c sc w))))"

definition sleep_keeps :: "('w \<Rightarrow> bool) \<Rightarrow> ('w, 'v) runtime \<Rightarrow> bool" where
  "sleep_keeps P rt \<longleftrightarrow> (\<forall>c d w. P w \<longrightarrow> P (snd (rt_sleep rt c d w)))"

lemma wait_keeps: "sleep_keeps P rt \<Longrightarrow> P w \<Longrightarrow> P (snd (wait rt c d w))"
  by (simp add: wait_def sleep_keeps_def)

lemma safeInvoke_keeps:
  "step_keeps P s \<Longrightarrow> P w \<Longrightarrow> P (snd (snd (safeInvoke s sc w)))"
  unfolding safeInvoke_def step_keeps_def
  by (cases "st_Invoke s sc w") (auto split: call.splits, (metis snd_conv)+)

lemma invokeStep_keeps:
  assumes "step_keeps P s" and "sleep_keeps P rt" and "P w"
  shows "P (snd (snd (snd (invokeStep rt p s a sc w))))"
  using assms
proof (induction rt p s a sc w rule: invokeStep.induct)
  case (1 rt p s a sc w)
  obtain r1 sc1 w1 where i: "safeInvoke s (sc\<lparr> sc_Attempt := a \<rparr>) w = (r1, sc1, w1)"
    by (cases "safeInvoke s (sc\<lparr> sc_Attempt := a \<rparr>) w") auto
  with safeInvoke_keeps [OF "1.prems"(1,3), of "sc\<lparr> sc_Attempt := a \<rparr>"] have w1: "P w1" by simp
  obtain r2 w2 where wt: "wait rt CallerCtx (backoffFor p a) w1 = (r2, w2)"
    by (cases "wait rt CallerCtx (backoffFor p a) w1") auto
  with wait_keeps [OF "1.prems"(2) w1, of CallerCtx "backoffFor p a"] have w2: "P w2" by simp
  show ?case
  proof (cases "isl r1 \<and> \<not> (a \<ge> MaxAttempts p \<or> \<not> allow p (projl r1)) \<and> r2 = None")
    case False
    with i wt w1 w2 show ?thesis
      by (subst invokeStep.simps) (auto split: sum.splits option.splits)
  next
    case True
    then obtain e where e: "r1 = Inl e" by (cases r1) auto
    have "P (snd (snd (snd (invokeStep rt p s (a + 1) sc1 w2))))"
      by (rule "1.IH" [OF i [symmetric] e refl _ wt [symmetric]]) (use True e w2 "1.prems" in auto)
    with True i e wt show ?thesis by (subst invokeStep.simps) auto
  qed
qed

lemma invokeStep_bound:
  "a \<le> MaxAttempts p \<Longrightarrow> a \<le> fst (snd (invokeStep rt p s a sc w)) \<and>
    fst (snd (invokeStep rt p s a sc w)) \<le> MaxAttempts p"
proof (induction rt p s a sc w rule: invokeStep.induct)
  case (1 rt p s a sc w)
  obtain r1 sc1 w1 where i: "safeInvoke s (sc\<lparr> sc_Attempt := a \<rparr>) w = (r1, sc1, w1)"
    by (cases "safeInvoke s (sc\<lparr> sc_Attempt := a \<rparr>) w") auto
  obtain r2 w2 where wt: "wait rt CallerCtx (backoffFor p a) w1 = (r2, w2)"
    by (cases "wait rt CallerCtx (backoffFor p a) w1") auto
  show ?case
  proof (cases "isl r1 \<and> \<not> (a \<ge> MaxAttempts p \<or> \<not> allow p (projl r1)) \<and> r2 = None")
    case False
    with i wt "1.prems" show ?thesis
      by (subst (1 2) invokeStep.simps) (auto split: sum.splits option.splits)
  next
    case True
    then obtain e where e: "r1 = Inl e" by (cases r1) auto
    have "a + 1 \<le> fst (snd (invokeStep rt p s (a + 1) sc1 w2)) \<and>
        fst (snd (invokeStep rt p s (a + 1) sc1 w2)) \<le> MaxAttempts p"
      by (rule "1.IH" [OF i [symmetric] e refl _ wt [symmetric]]) (use True e in auto)
    with True i e wt show ?thesis by (subst (1 2) invokeStep.simps) auto
  qed
qed

lemma invokeStep_never_retried:
  "fst (safeInvoke s (sc\<lparr> sc_Attempt := a \<rparr>) w) = Inl e \<Longrightarrow> never_retried e \<Longrightarrow>
    fst (invokeStep rt p s a sc w) = Inl e \<and> fst (snd (invokeStep rt p s a sc w)) = a"
  by (subst (1 2) invokeStep.simps)
    (auto simp: allow_never_retried split: prod.splits sum.splits)

text \<open>What a run that ends well keeps: \<open>P\<close> holds up to the last write, which closes the record.\<close>

lemma execute_loop_success_keeps:
  assumes "\<forall>s \<in> set ss. step_keeps P s" and "sleep_keeps P rt"
    and "\<And>w rc. P w \<Longrightarrow> P (persistStep st eid rc w)" and "P w"
    and "execute_loop rt st ro eid i ss dones lst sc w = (Inr outp, w')"
  shows "\<exists>w1 nt. P w1 \<and> w' = persistStatus st eid StatusCompleted outp nt w1"
  using assms(1,4,5)
proof (induction ss arbitrary: i dones lst sc w)
  case Nil
  then show ?case by (auto split: prod.splits)
next
  case (Cons s ss)
  have ctx: "ctx_Err rt CallerCtx w = None"
    using Cons.prems(3) by (auto simp: unwind_def Let_def split: option.splits prod.splits if_splits)
  obtain r n sc2 w2 where
    inv: "invokeStep rt (o_retry ro) s 1 (turn_context s i sc) w = (r, n, sc2, w2)"
    by (cases "invokeStep rt (o_retry ro) s 1 (turn_context s i sc) w") auto
  have w2: "P w2"
    using invokeStep_keeps [OF _ assms(2) Cons.prems(2), of s "o_retry ro" 1 "turn_context s i sc"]
      Cons.prems(1) inv by simp
  obtain out where r: "r = Inr out"
  proof (cases r)
    case (Inl serr)
    from execute_loop_failed [OF ctx inv [unfolded Inl]] Cons.prems(3) obtain ds sc' cause w3 where
      "unwind rt st ro eid ds sc' cause w3 = (Inr outp, w')" by metis
    with unwind_Inl [of rt st ro eid ds sc' cause w3] show ?thesis by simp
  qed
  with execute_loop_invoked [OF ctx] inv Cons.prems(3) obtain rc where
    "execute_loop rt st ro eid (i + 1) ss
        (dones @ [\<lparr> d_step = s, d_rec = rc, d_bestEffort = False \<rparr>]) out sc2
        (persistStep st eid rc w2) = (Inr outp, w')"
    by metis
  from Cons.IH [OF _ assms(3) [OF w2] this] Cons.prems(1) show ?case by simp
qed

lemma safeCompensate_keeps:
  "step_keeps P s \<Longrightarrow> P w \<Longrightarrow> P (snd (snd (safeCompensate c s sc w)))"
  unfolding safeCompensate_def step_keeps_def
  by (cases "st_Compensate s c sc w") (auto split: call.splits, (metis snd_conv)+)

lemma compensateStep_keeps:
  assumes "step_keeps P s" and "sleep_keeps P rt" and "P w"
  shows "P (snd (snd (snd (compensateStep rt p c s a sc w))))"
  using assms
proof (induction rt p c s a sc w rule: compensateStep.induct)
  case (1 rt p c s a sc w)
  obtain r1 sc1 w1 where i: "safeCompensate c s (sc\<lparr> sc_Attempt := a \<rparr>) w = (r1, sc1, w1)"
    by (cases "safeCompensate c s (sc\<lparr> sc_Attempt := a \<rparr>) w") auto
  with safeCompensate_keeps [OF "1.prems"(1,3), of c "sc\<lparr> sc_Attempt := a \<rparr>"] have w1: "P w1" by simp
  obtain r2 w2 where wt: "wait rt c (backoffFor p a) w1 = (r2, w2)"
    by (cases "wait rt c (backoffFor p a) w1") auto
  with wait_keeps [OF "1.prems"(2) w1, of c "backoffFor p a"] have w2: "P w2" by simp
  show ?case
  proof (cases "r1 \<noteq> None \<and> \<not> (a \<ge> MaxAttempts p \<or> \<not> allow p (the r1)) \<and> r2 = None")
    case False
    with i wt w1 w2 show ?thesis
      by (subst compensateStep.simps) (auto split: option.splits)
  next
    case True
    then obtain e where e: "r1 = Some e" by (cases r1) auto
    have "P (snd (snd (snd (compensateStep rt p c s (a + 1) sc1 w2))))"
      by (rule "1.IH" [OF i [symmetric] e refl _ wt [symmetric]]) (use True e w2 "1.prems" in auto)
    with True i e wt show ?thesis by (subst compensateStep.simps) auto
  qed
qed

definition ops_keep :: "('w \<Rightarrow> bool) \<Rightarrow> 'w store_ops \<Rightarrow> bool" where
  "ops_keep P st \<longleftrightarrow>
    (\<forall>eid rc w. P w \<longrightarrow> P (snd (op_AppendStep st eid rc w))) \<and>
    (\<forall>eid s p f w. P w \<longrightarrow> P (snd (op_UpdateStatus st eid s p f w))) \<and>
    (\<forall>eid w. P w \<longrightarrow> P (snd (op_Get st eid w))) \<and>
    (\<forall>cl eid t w. op_ClaimAbandoned st = Some cl \<longrightarrow> P w \<longrightarrow> P (snd (cl eid t w)))"

lemma ops_keep_persist:
  assumes "ops_keep P st" and "P w"
  shows "P (persistStep st eid rc w)" and "P (persistStatus st eid s p f w)"
  using assms by (simp_all add: ops_keep_def persistStep_def persistStatus_def)

lemma compensate_one_keeps:
  assumes "step_keeps P (d_step d)" and "sleep_keeps P rt" and "ops_keep P st" and "P w"
  shows "P (snd (snd (compensate_one rt st ro eid d sc w)))"
proof -
  define r where "r = compensateStep rt (o_compensationRetry ro)
    (DetachedCtx (rt_now rt w + o_compensationTimeout ro)) (d_step d) 1
    (sc\<lparr> sc_StepName := sr_Name (d_rec d), sc_StepIndex := sr_Index (d_rec d), sc_Attempt := 1 \<rparr>) w"
  have "P (snd (snd (snd r)))"
    unfolding r_def by (rule compensateStep_keeps [OF assms(1,2,4)])
  then show ?thesis
    unfolding compensate_one_def Let_def r_def [symmetric]
    by (auto split: prod.splits option.splits intro!: ops_keep_persist [OF assms(3)])
qed

lemma compensate_loop_keeps:
  assumes "\<forall>d \<in> set ds. step_keeps P (d_step d)" and "sleep_keeps P rt" and "ops_keep P st"
    and "P w"
  shows "P (snd (snd (compensate_loop rt st ro eid ds sc w)))"
  using assms(1,4)
proof (induction ds arbitrary: sc w)
  case (Cons d ds)
  obtain r sc1 w1 where one: "compensate_one rt st ro eid d sc w = (r, sc1, w1)"
    by (cases "compensate_one rt st ro eid d sc w") auto
  with compensate_one_keeps [OF _ assms(2,3), of d w ro eid sc] Cons.prems have "P w1" by simp
  from Cons.IH [OF _ this, of sc1] Cons.prems one show ?case by (auto split: prod.splits)
qed simp

lemma compensate_keeps:
  assumes "\<forall>d \<in> set ds. step_keeps P (d_step d)" and "sleep_keeps P rt" and "ops_keep P st"
    and "P w" and "compensate rt st ro eid ds sc w = (e, sc', w')"
  shows "P w'"
  using compensate_loop_keeps [OF _ assms(2-4), of "rev ds" ro eid sc] assms(1,5)
  by (auto simp: compensate_def split: prod.splits)

lemma rebuild_loop_Cons:
  assumes "rebuild_loop steps (rc # rcs) dones sc = Inr res"
  shows "nat (sr_Index rc) < length steps \<and> (\<exists>sc1. rebuild_loop steps rcs
    (if Held (sr_Status rc)
     then dones @ [\<lparr> d_step = steps ! nat (sr_Index rc), d_rec = rc, d_bestEffort = False \<rparr>]
     else dones) sc1 = Inr res)"
proof (cases "st_Restore (steps ! nat (sr_Index rc))")
  case None
  with assms show ?thesis by (auto simp: Let_def split: if_splits)
next
  case (Some restore)
  obtain r sc1 where "restore sc (sr_Output rc) = (r, sc1)"
    by (cases "restore sc (sr_Output rc)") auto
  with Some assms show ?thesis
    by (cases r) (auto simp: Let_def split: if_splits)
qed

lemma rebuild_loop_steps:
  assumes "rebuild_loop steps rcs dones sc = Inr (ds, sc')" and "d \<in> set ds"
  shows "d \<in> set dones \<or> d_step d \<in> set steps"
  using assms(1)
proof (induction rcs arbitrary: dones sc)
  case Nil
  with assms(2) show ?case by simp
next
  case (Cons rc rcs)
  from rebuild_loop_Cons [OF Cons.prems] Cons.IH show ?case
    by (fastforce split: if_splits)
qed

lemma rebuildChain_steps:
  assumes "rebuildChain wfl ex sc = Inr (ds, sc')" and "d \<in> set ds"
  shows "d_step d \<in> set (wf_Steps wfl)"
proof -
  from assms(1) have "rebuild_loop (wf_Steps wfl) (sort_key sr_Index (ex_Steps ex)) [] sc = Inr (ds, sc')"
    by (auto simp: rebuildChain_def Let_def split: sum.splits if_splits option.splits)
  from rebuild_loop_steps [OF this assms(2)] show ?thesis by simp
qed

lemma recoverExecution_keeps:
  assumes "\<forall>s \<in> set (wf_Steps wfl). step_keeps P s" and "sleep_keeps P rt" and "ops_keep P st"
    and "P w"
  shows "P (snd (recoverExecution rt st ro wfl ex w))"
proof (cases "rebuildChain wfl ex (recovery_context wfl ex)")
  case (Inl e)
  then show ?thesis
    using ops_keep_persist(2) [OF assms(3,4)] by (simp add: recoverExecution_def Let_def)
next
  case (Inr r)
  then obtain ds sc where r: "rebuildChain wfl ex (recovery_context wfl ex) = Inr (ds, sc)"
    by (cases r) auto
  obtain e sc' w' where c: "compensate rt st ro (ex_ID ex) ds sc w = (e, sc', w')"
    by (cases "compensate rt st ro (ex_ID ex) ds sc w") auto
  have "P w'"
    using rebuildChain_steps [OF r] assms(1) by (intro compensate_keeps [OF _ assms(2-4) c]) blast
  with r c show ?thesis
    using ops_keep_persist(2) [OF assms(3)]
    by (simp add: recoverExecution_def Let_def split: option.splits)
qed

lemma judgeAbandoned_keeps:
  assumes "\<forall>s \<in> set (wf_Steps wfl). step_keeps P s" and "sleep_keeps P rt" and "ops_keep P st"
    and "P w"
  shows "P (snd (judgeAbandoned rt st ro wfl prev w))"
proof -
  obtain g w1 where g: "op_Get st (ex_ID prev) w = (g, w1)" by (cases "op_Get st (ex_ID prev) w") auto
  with assms(3,4) have w1: "P w1" by (metis ops_keep_def snd_conv)
  obtain c w2 where c: "claimAbandoned st prev w1 = (c, w2)"
    by (cases "claimAbandoned st prev w1") auto
  have "P w2"
  proof (cases "op_ClaimAbandoned st")
    case None
    with c w1 show ?thesis by (simp add: claimAbandoned_def)
  next
    case (Some cl)
    with assms(3) w1 have "P (snd (cl (ex_ID prev) (ex_UpdatedAt prev) w1))"
      by (simp add: ops_keep_def)
    with Some c show ?thesis
      by (auto simp: claimAbandoned_def split: prod.splits sum.splits)
  qed
  with g c assms(4) w1 show ?thesis
    using recoverExecution_keeps [OF assms(1-3)] ops_keep_persist(2) [OF assms(3)]
    by (auto simp: judgeAbandoned_def split: sum.splits claim_result.splits)
qed

section \<open>A key's first success is its answer from then on\<close>

definition store_private ::
    "('w \<Rightarrow> memory_store) \<Rightarrow> (memory_store \<Rightarrow> 'w \<Rightarrow> 'w) \<Rightarrow> ('w, 'v) runtime \<Rightarrow>
      ('w, 'v) workflow \<Rightarrow> bool" where
  "store_private get_m put_m rt wfl \<longleftrightarrow>
    (\<forall>s w. get_m (put_m s w) = s) \<and> (\<forall>w. put_m (get_m w) w = w) \<and>
    (\<forall>s \<in> set (wf_Steps wfl).
      (\<forall>sc w. get_m (snd (snd (st_Invoke s sc w))) = get_m w) \<and>
      (\<forall>c sc w. get_m (snd (snd (st_Compensate s c sc w))) = get_m w)) \<and>
    (\<forall>c d w. get_m (snd (rt_sleep rt c d w)) = get_m w) \<and>
    (\<forall>w. get_m (snd (rt_newExecutionID rt w)) = get_m w)"

definition completed_under ::
    "('w \<Rightarrow> memory_store) \<Rightarrow> string \<Rightarrow> string \<Rightarrow> json \<Rightarrow> 'w \<Rightarrow> bool" where
  "completed_under get_m wn key outp w \<longleftrightarrow> mem_inv (get_m w) \<and>
    (\<exists>eid e. byID (get_m w) eid = Some e \<and> ex_Workflow e = wn \<and> ex_IdempotencyKey e = key \<and>
      ex_Status e = StatusCompleted \<and> ex_Output e = outp)"

lemma store_private_keeps:
  assumes "store_private get_m put_m rt wfl"
  shows "sleep_keeps (\<lambda>w. Q (get_m w)) rt"
    and "\<forall>s \<in> set (wf_Steps wfl). step_keeps (\<lambda>w. Q (get_m w)) s"
    and "get_m (put_m m w) = m" and "put_m (get_m w) w = w"
  using assms by (simp_all add: store_private_def sleep_keeps_def step_keeps_def)

lemma memory_ops_keep_inv:
  assumes "\<And>m w. get_m (put_m m w) = m"
  shows "ops_keep (\<lambda>w. mem_inv (get_m w)) (memory_ops get_m put_m now)"
  by (simp add: ops_keep_def assms case_prod_unfold mem_inv_AppendStep mem_inv_UpdateStatus
      mem_inv_ClaimAbandoned)

text \<open>The record a run works under: it exists, with its key, until it is closed.\<close>

definition open_under :: "string \<Rightarrow> string \<Rightarrow> string \<Rightarrow> memory_store \<Rightarrow> bool" where
  "open_under eid wn key m \<longleftrightarrow> mem_inv m \<and>
    (\<exists>e. byID m eid = Some e \<and> ex_Workflow e = wn \<and> ex_IdempotencyKey e = key)"

lemma open_under_append:
  assumes "open_under eid wn key (get_m w)" and "\<And>m w. get_m (put_m m w) = m"
  shows "open_under eid wn key (get_m (persistStep (memory_ops get_m put_m now) eid rc w))"
  using assms mem.append_writes [of "get_m w" eid _ rc "now w"]
  by (auto simp: open_under_def persistStep_def mem_AppendStep_def split: prod.splits)

lemma open_under_completed:
  assumes "open_under eid wn key (get_m w)" and "\<And>m w. get_m (put_m m w) = m"
  shows "completed_under get_m wn key outp
    (persistStatus (memory_ops get_m put_m now) eid StatusCompleted outp fl w)"
proof -
  from assms(1) obtain e where e: "mem_inv (get_m w)" "byID (get_m w) eid = Some e"
    "ex_Workflow e = wn" "ex_IdempotencyKey e = key" unfolding open_under_def by blast
  define m where "m = snd (mem_UpdateStatus eid StatusCompleted outp fl (now w) (get_m w))"
  have "get_m (persistStatus (memory_ops get_m put_m now) eid StatusCompleted outp fl w) = m"
    by (simp add: persistStatus_def m_def assms(2) split: prod.splits)
  moreover have "mem_inv m \<and> byID m eid = Some (closed_as StatusCompleted outp fl (now w) e)"
    using mem.update_closes [OF e(1,2), of StatusCompleted outp fl "now w"] by (simp add: m_def)
  ultimately show ?thesis
    using e(3,4) unfolding completed_under_def
    by (intro conjI exI [of _ eid] exI [of _ "closed_as StatusCompleted outp fl (now w) e"])
      (simp_all add: closed_as_def)
qed

lemma execute_completed:
  assumes priv: "store_private get_m put_m rt wfl"
    and opened: "open_under (ex_ID ex) (wf_Name wfl) key (get_m w)"
    and "execute rt (memory_ops get_m put_m now) ro wfl inp ex w = (Inr outp, w')"
  shows "completed_under get_m (wf_Name wfl) key outp w'"
proof -
  note put = store_private_keeps(3) [OF priv]
  have "\<exists>w1 nt. open_under (ex_ID ex) (wf_Name wfl) key (get_m w1) \<and>
      w' = persistStatus (memory_ops get_m put_m now) (ex_ID ex) StatusCompleted outp nt w1"
    by (rule execute_loop_success_keeps [OF store_private_keeps(2,1) [OF priv] _ _
          assms(3) [unfolded execute_def]])
      (auto intro: open_under_append opened put)
  then show ?thesis by (auto intro: open_under_completed put)
qed

lemma open_execution_opens:
  assumes priv: "store_private get_m put_m rt wfl" and inv: "mem_inv (get_m w)"
    and "open_execution rt (memory_ops get_m put_m now) ro wfl payload w = (Inr (Some ex), w')"
  shows "open_under (ex_ID ex) (wf_Name wfl) (o_idempotencyKey ro) (get_m w')"
proof -
  obtain eid w1 where idw: "rt_newExecutionID rt w = (eid, w1)" by (cases "rt_newExecutionID rt w") auto
  have g: "get_m w1 = get_m w" using priv idw by (metis store_private_def snd_conv)
  define n where "n = new_execution eid (wf_Name wfl) ro payload (rt_now rt w)"
  have n: "ex_Steps n = []" "ex_Workflow n = wf_Name wfl" "ex_IdempotencyKey n = o_idempotencyKey ro"
    by (simp_all add: n_def new_execution_def)
  obtain c m where c: "mem_Create (Some n) (get_m w1) = (c, m)"
    by (cases "mem_Create (Some n) (get_m w1)") auto
  have ex: "c = None" "ex = n" "w' = put_m m w1"
    using assms(3) idw c
    by (auto simp: open_execution_def Let_def n_def [symmetric] split: option.splits if_splits)
  have "byID m (ex_ID n) = Some n" "mem_inv m"
    using c ex(1) mem_inv_Create [of "get_m w1" n] inv g n(1)
    by (auto simp: mem_Create_def split: if_splits option.splits)
  with ex n show ?thesis
    by (simp add: open_under_def store_private_keeps(3) [OF priv])
qed

lemma open_execution_inv:
  assumes priv: "store_private get_m put_m rt wfl" and inv: "mem_inv (get_m w)"
  shows "mem_inv (get_m (snd (open_execution rt (memory_ops get_m put_m now) ro wfl payload w)))"
proof -
  obtain eid w1 where idw: "rt_newExecutionID rt w = (eid, w1)" by (cases "rt_newExecutionID rt w") auto
  have "get_m w1 = get_m w" using priv idw by (metis store_private_def snd_conv)
  then have m: "mem_inv (snd (mem_Create (Some (new_execution eid (wf_Name wfl) ro payload (rt_now rt w)))
      (get_m w1)))"
    using inv by (intro mem_inv_Create) (simp_all add: new_execution_def)
  obtain c m where c:
    "mem_Create (Some (new_execution eid (wf_Name wfl) ro payload (rt_now rt w))) (get_m w1) = (c, m)"
    by fastforce
  with idw m show ?thesis
    by (cases c) (simp_all add: open_execution_def Let_def store_private_keeps(3) [OF priv])
qed

lemma replay_completed:
  assumes "mem_inv (get_m w)" and "o_idempotencyKey ro \<noteq> []"
    and "replay rt (memory_ops get_m put_m now) ro wfl w = (Answer (Inr outp), w')"
  shows "completed_under get_m (wf_Name wfl) (o_idempotencyKey ro) outp w'"
proof -
  let ?f = "mem_FindByIdempotencyKey (wf_Name wfl) (o_idempotencyKey ro) (get_m w)"
  obtain e where e: "?f = Inr (Some e)"
    using assms(3)
    by (auto simp: replay_def split: sum.splits option.splits if_splits)
  then obtain eid where eid: "byKey (get_m w) (wf_Name wfl, o_idempotencyKey ro) = Some eid"
    "byID (get_m w) eid = Some e"
    by (auto simp: mem_FindByIdempotencyKey_def split: option.splits)
  have "ex_Status e = StatusCompleted \<and> ex_Output e = outp \<and> w' = w"
    using assms(3) e
    by (auto simp: replay_def split: status.splits prod.splits option.splits if_splits)
  moreover have "ex_Workflow e = wf_Name wfl \<and> ex_IdempotencyKey e = o_idempotencyKey ro"
    using mem_inv_keyD [OF assms(1) eid(1)] eid(2) by (metis option.inject)
  ultimately show ?thesis
    using eid(2) assms(1) unfolding completed_under_def by blast
qed

lemma replay_again_inv:
  assumes priv: "store_private get_m put_m rt wfl" and inv: "mem_inv (get_m w)"
    and "replay rt (memory_ops get_m put_m now) ro wfl w = (Again, w')"
  shows "mem_inv (get_m w')"
proof -
  have "mem_inv (get_m (snd (judgeAbandoned rt (memory_ops get_m put_m now) ro wfl e w)))" for e
    by (rule judgeAbandoned_keeps [where P = "\<lambda>w. mem_inv (get_m w)"])
      (intro store_private_keeps [OF priv] memory_ops_keep_inv inv)+
  then show ?thesis
    using assms(3) inv
    by (auto simp: replay_def split: sum.splits option.splits status.splits if_splits prod.splits)
      (metis snd_conv)
qed

lemma run_turns_completed:
  assumes priv: "store_private get_m put_m rt wfl" and "mem_inv (get_m w)"
    and "o_idempotencyKey ro \<noteq> []"
    and "run_turns n rt (memory_ops get_m put_m now) ro wfl inp payload w = (Inr outp, w')"
  shows "completed_under get_m (wf_Name wfl) (o_idempotencyKey ro) outp w'"
  using assms(2,4)
proof (induction n arbitrary: w)
  case 0
  then show ?case by simp
next
  case (Suc n)
  let ?st = "memory_ops get_m put_m now"
  obtain r w1 where o: "open_execution rt ?st ro wfl payload w = (r, w1)"
    by (cases "open_execution rt ?st ro wfl payload w") auto
  have w1: "mem_inv (get_m w1)"
    using open_execution_inv [OF priv Suc.prems(1), of now ro payload] o by simp
  consider (err) e where "r = Inl e" | (fresh) ex where "r = Inr (Some ex)" | (taken) "r = Inr None"
    by (metis option.exhaust sum.exhaust)
  then show ?case
  proof cases
    case err
    with Suc.prems(2) o show ?thesis by simp
  next
    case fresh
    with Suc.prems(2) o have "execute rt ?st ro wfl inp ex w1 = (Inr outp, w')" by simp
    with open_execution_opens [OF priv Suc.prems(1)] o fresh show ?thesis
      by (metis execute_completed [OF priv])
  next
    case taken
    obtain a w2 where rp: "replay rt ?st ro wfl w1 = (a, w2)" by (cases "replay rt ?st ro wfl w1") auto
    show ?thesis
    proof (cases a)
      case Again
      with rp replay_again_inv [OF priv w1] have "mem_inv (get_m w2)" by metis
      with Suc.IH [of w2] Suc.prems(2) o taken rp Again show ?thesis by simp
    next
      case (Answer x)
      with Suc.prems(2) o taken rp have "replay rt ?st ro wfl w1 = (Answer (Inr outp), w')" by simp
      then show ?thesis by (rule replay_completed [where get_m = get_m, OF w1 assms(3)])
    qed
  qed
qed

lemma run_turns_replays:
  assumes priv: "store_private get_m put_m rt wfl"
    and old: "completed_under get_m (wf_Name wfl) (o_idempotencyKey ro) outp w"
    and key: "o_idempotencyKey ro \<noteq> []" "wf_Name wfl \<noteq> []"
    and fresh: "fst (rt_newExecutionID rt w) \<noteq> []"
  shows "run_turns (Suc n) rt (memory_ops get_m put_m now) ro wfl inp payload w =
    (Inr outp, snd (rt_newExecutionID rt w))"
proof -
  obtain eid w1 where idw: "rt_newExecutionID rt w = (eid, w1)" by (cases "rt_newExecutionID rt w") auto
  have g: "get_m w1 = get_m w" using priv idw by (metis store_private_def snd_conv)
  define x where "x = new_execution eid (wf_Name wfl) ro payload (rt_now rt w)"
  have x: "ex_ID x \<noteq> []" "ex_Workflow x = wf_Name wfl" "ex_IdempotencyKey x = o_idempotencyKey ro"
    using fresh idw by (simp_all add: x_def new_execution_def)
  from old obtain i e where e: "mem_inv (get_m w)" "byID (get_m w) i = Some e"
    "ex_Workflow e = wf_Name wfl" "ex_IdempotencyKey e = o_idempotencyKey ro"
    "ex_Status e = StatusCompleted" "ex_Output e = outp"
    unfolding completed_under_def by blast
  have found: "mem_FindByIdempotencyKey (wf_Name wfl) (o_idempotencyKey ro) (get_m w) = Inr (Some e)"
    using mem.find_held [OF e(1,2)] e(3,4) key by simp
  have "IsConflict (fst (mem_Create (Some x) (get_m w))) \<and> snd (mem_Create (Some x) (get_m w)) = get_m w"
    using mem.create_taken [OF e(1), of x e] x key found by simp
  then obtain err where "mem_Create (Some x) (get_m w) = (Some err, get_m w)" "IsConflict (Some err)"
    by (cases "mem_Create (Some x) (get_m w)") (auto simp: IsConflict_def HasKind_def split: option.splits)
  then have "open_execution rt (memory_ops get_m put_m now) ro wfl payload w = (Inr None, w1)"
    using idw g key(1) store_private_keeps(4) [OF priv, of w1]
    by (simp add: open_execution_def Let_def x_def [symmetric])
  moreover have "replay rt (memory_ops get_m put_m now) ro wfl w1 = (Answer (Inr outp), w1)"
    using found g e(5,6) by (simp add: replay_def)
  ultimately show ?thesis using idw by simp
qed

section \<open>Recovery, observed\<close>

definition held_indexes :: "step_record list \<Rightarrow> int list" where
  "held_indexes rcs = map sr_Index (filter (\<lambda>r. Held (sr_Status r)) (sort_key sr_Index rcs))"

lemma rebuild_loop_held:
  assumes "rebuild_loop steps rcs dones sc = Inr (ds, sc')"
  shows "map (\<lambda>d. sr_Index (d_rec d)) ds =
    map (\<lambda>d. sr_Index (d_rec d)) dones @ map sr_Index (filter (\<lambda>r. Held (sr_Status r)) rcs)"
  using assms
proof (induction rcs arbitrary: dones sc)
  case Nil
  then show ?case by simp
next
  case (Cons rc rcs)
  from rebuild_loop_Cons [OF Cons.prems] Cons.IH show ?case by (fastforce split: if_splits)
qed

lemma rebuildChain_held:
  assumes "rebuildChain wfl ex sc = Inr (ds, sc')"
  shows "map (\<lambda>d. sr_Index (d_rec d)) ds = held_indexes (ex_Steps ex)"
proof -
  from assms have "rebuild_loop (wf_Steps wfl) (sort_key sr_Index (ex_Steps ex)) [] sc = Inr (ds, sc')"
    by (auto simp: rebuildChain_def Let_def split: sum.splits if_splits option.splits)
  from rebuild_loop_held [OF this] show ?thesis by (simp add: held_indexes_def)
qed

lemma recover_refused_observed:
  assumes "rebuildChain wfl ex (recovery_context wfl ex) = Inl e" and "observed_store tr st"
  shows "\<exists>f. fst (recoverExecution rt st ro wfl ex w) = (True, Some f) \<and>
    KindOf f = KindConflict \<and> CodeOf f = CodeExecutionFailed \<and>
    tr (snd (recoverExecution rt st ro wfl ex w)) = tr w @ [EStatus StatusCompensationFailed]"
  using assms by (simp add: recoverExecution_def Let_def persistStatus_observed)

lemma recover_ran_observed:
  assumes "\<forall>s \<in> set (wf_Steps wfl). observed_step tr s"
    and "observed_runtime tr rt" and "observed_store tr st"
    and r: "rebuildChain wfl ex (recovery_context wfl ex) = Inr (ds, sc)"
    and "recoverExecution rt st ro wfl ex w = ((again, err), w')"
  shows "\<exists>cs. length cs = length (held_indexes (ex_Steps ex)) \<and>
    (err = None \<longleftrightarrow> (\<forall>(m, ok) \<in> set cs. ok)) \<and>
    tr w' = tr w @ compensated_all (rev (held_indexes (ex_Steps ex))) cs @
      [EStatus (if err = None then StatusFailed else StatusCompensationFailed)]"
proof -
  obtain ce sc1 w1 where c: "compensate rt st ro (ex_ID ex) ds sc w = (ce, sc1, w1)"
    by (cases "compensate rt st ro (ex_ID ex) ds sc w") auto
  have "\<forall>d \<in> set ds. observed_step tr (d_step d)"
    using rebuildChain_steps [OF r] assms(1) by blast
  from compensate_observed [OF this assms(2,3) c] obtain cs where
    cs: "length cs = length ds" "ce = None \<longleftrightarrow> (\<forall>(m, ok) \<in> set cs. ok)"
      "tr w1 = tr w @ compensated_all (rev (held_indexes (ex_Steps ex))) cs"
    by (auto simp flip: rebuildChain_held [OF r] simp: rev_map)
  have "length ds = length (held_indexes (ex_Steps ex))"
    using rebuildChain_held [OF r] by (metis length_map)
  moreover have "(err = None \<longleftrightarrow> ce = None) \<and> (\<exists>fl. w' = persistStatus st (ex_ID ex)
      (if err = None then StatusFailed else StatusCompensationFailed) [] fl w1)"
    using assms(5) r c by (cases ce) (auto simp: recoverExecution_def Let_def)
  ultimately show ?thesis
    using cs persistStatus_observed [OF assms(3)] by (intro exI [of _ cs]) auto
qed

lemma last_sort_key_max:
  assumes "rc \<in> set rcs" and "\<forall>r \<in> set rcs. sr_Index r \<le> sr_Index rc"
  shows "sr_Index (last (sort_key sr_Index rcs)) = sr_Index rc"
proof -
  let ?s = "sort_key sr_Index rcs"
  have ne: "?s \<noteq> []" using assms(1) by (metis empty_iff empty_set set_sort)
  have "sorted (map sr_Index (butlast ?s) @ [sr_Index (last ?s)])"
    using sorted_sort_key [of sr_Index rcs] ne by (metis append_butlast_last_id list.simps(8,9) map_append)
  then have "\<forall>x \<in> set ?s. sr_Index x \<le> sr_Index (last ?s)"
    using ne by (metis (no_types, lifting) Un_iff append_butlast_last_id dual_order.refl empty_iff
        empty_set image_eqI insert_iff list.set(2) list.set_map set_append sorted_append)
  with assms ne show ?thesis by (metis antisym last_in_set set_sort)
qed

lemma rebuildChain_boundary:
  assumes "rc \<in> set (ex_Steps ex)" and "\<forall>r \<in> set (ex_Steps ex). sr_Index r \<le> sr_Index rc"
    and "sr_Index rc + 1 < int (length (wf_Steps wfl))"
    and "st_BlocksRecovery (wf_Steps wfl ! nat (sr_Index rc + 1))"
  shows "\<exists>e. rebuildChain wfl ex sc = Inl e"
proof -
  let ?s = "sort_key sr_Index (ex_Steps ex)"
  have "?s \<noteq> []" using assms(1) by (metis empty_iff empty_set set_sort)
  then have "checkRecoveryBoundary wfl ?s = Some (Internal CodeRecoveryFailed)"
    using last_sort_key_max [OF assms(1,2)] assms(3,4) by (simp add: checkRecoveryBoundary_def)
  then show ?thesis by (auto simp: rebuildChain_def Let_def split: sum.splits)
qed

lemma rebuild_loop_restore_fails:
  assumes "rc \<in> set rcs" and "st_Restore (steps ! nat (sr_Index rc)) = Some restore"
    and "\<forall>sc. fst (restore sc (sr_Output rc)) \<noteq> None"
  shows "\<exists>e. rebuild_loop steps rcs dones sc = Inl e"
  using assms(1)
proof (induction rcs arbitrary: dones sc)
  case Nil
  then show ?case by simp
next
  case (Cons r rcs)
  show ?case
  proof (cases "rc \<in> set rcs")
    case True
    show ?thesis
      using rebuild_loop_Cons [of steps r rcs dones sc] Cons.IH [OF True]
      by (metis old.sum.exhaust sum.distinct(1))
  next
    case False
    with Cons.prems have "r = rc" by simp
    moreover obtain e sc1 where "restore sc (sr_Output rc) = (Some e, sc1)"
      using assms(3) by (metis option.exhaust prod.collapse)
    ultimately show ?thesis using assms(2) by (simp add: Let_def)
  qed
qed

end
