(* ===== verification/WfProps.thy ===== *)
theory WfProps
  imports WfMemory
begin

text \<open>
  The properties of the workflow engine and of its in-process store, with the concrete world
  they are instantiated on.
\<close>

section \<open>A concrete world\<close>

record bed =
  b_store :: memory_store
  b_clock :: int
  b_ids :: nat
  b_events :: "event list"
  b_error :: "error option"
  b_canceled :: bool

definition bed0 :: bed where
  "bed0 = \<lparr> b_store = NewMemoryStore, b_clock = 0, b_ids = 0, b_events = [], b_error = None, b_canceled = False \<rparr>"

definition bed_log :: "event \<Rightarrow> bed \<Rightarrow> bed" where
  "bed_log e w = w\<lparr> b_events := b_events w @ [e], b_clock := b_clock w + 1 \<rparr>"

definition bed_step :: "string \<Rightarrow> (int \<Rightarrow> nat option call) \<Rightarrow> unit call \<Rightarrow> (bed, nat) step" where
  "bed_step name act undo =
    \<lparr> st_isNil = False, st_Name = name,
      st_Invoke = (\<lambda>sc w. (act (sc_Attempt sc), sc,
        (bed_log (EInvoke (sc_StepIndex sc) (returned (act (sc_Attempt sc)))) w)
          \<lparr> b_error := call_error (act (sc_Attempt sc)) \<rparr>)),
      st_Compensate = (\<lambda>c sc w. (undo, sc, bed_log (ECompensate (sc_StepIndex sc) (returned undo)) w)),
      st_Restore = Some (\<lambda>sc outp. (if outp = [] then Some (Invalid ''empty'') else None, sc)),
      st_BlocksRecovery = False \<rparr>"

definition bed_rt :: "(bed, nat) runtime" where
  "bed_rt = \<lparr> rt_callerErr = (\<lambda>w. if b_canceled w then Some (Sentinel ctx_Canceled) else None),
     rt_now = b_clock, rt_sleep = (\<lambda>c d w. (None, w)),
     rt_newExecutionID = (\<lambda>w. (replicate (Suc (b_ids w)) (CHR ''x''), w\<lparr> b_ids := Suc (b_ids w) \<rparr>)),
     rt_Marshal = (\<lambda>v. Inr (case v of None \<Rightarrow> ''null'' | Some n \<Rightarrow> replicate (Suc n) (CHR ''1''))) \<rparr>"

definition bed_mem :: "bed store_ops" where
  "bed_mem = memory_ops b_store (\<lambda>s w. w\<lparr> b_store := s \<rparr>) b_clock"

text \<open>The same store, with every status write logged.\<close>

definition bed_ops :: "bed store_ops" where
  "bed_ops = bed_mem\<lparr> op_UpdateStatus := (\<lambda>eid s p f w.
     case op_UpdateStatus bed_mem eid s p f w of (r, w') \<Rightarrow> (r, bed_log (EStatus s) w')) \<rparr>"

lemma bed_observed:
  "observed_step b_events (bed_step name act undo)" "observed_runtime b_events bed_rt"
  "observed_store b_events bed_ops"
  by (simp_all add: observed_step_def bed_step_def observed_runtime_def bed_rt_def
      observed_store_def bed_ops_def bed_mem_def bed_log_def case_prod_unfold)


lemma bed_private:
  assumes "wf_Steps wfl = map (\<lambda>(n, i, c). bed_step n i c) ss"
  shows "store_private b_store (\<lambda>s w. w\<lparr> b_store := s \<rparr>) bed_rt wfl"
  using assms by (auto simp: store_private_def bed_step_def bed_rt_def bed_log_def)

text \<open>Two steps that succeed, the second at its second attempt; then one that always fails.\<close>

definition bed_good :: "(bed, nat) step list" where
  "bed_good = [bed_step ''a'' (\<lambda>_. Returns (Some 1)) (Returns ()),
     bed_step ''b'' (\<lambda>n. if n = 1 then Fails (Unavailable ''later'') else Returns (Some 2)) (Returns ())]"

definition bed_wf :: "(bed, nat) workflow" where
  "bed_wf = \<lparr> wf_Name = ''w'',
     wf_Steps = bed_good @ [bed_step ''c'' (\<lambda>_. Fails (Conflict ''sold_out'')) (Returns ())] \<rparr>"

definition bed_options :: "run_option list" where
  "bed_options = [WithRetry (NoRetry\<lparr> MaxAttempts := 3 \<rparr>), WithIdempotencyKey ''k'', WithLease 5]"

definition bed_ro :: run_options where
  "bed_ro = initial_options\<lparr> o_retry := NoRetry\<lparr> MaxAttempts := 3 \<rparr>, o_idempotencyKey := ''k'',
     o_lease := 5, o_compensationRetry := NoRetry\<lparr> MaxAttempts := 3 \<rparr> \<rparr>"


section \<open>The order of a run\<close>



section \<open>Idempotency\<close>


definition bed_ok :: "(bed, nat) workflow" where
  "bed_ok = \<lparr> wf_Name = ''w'', wf_Steps = bed_good \<rparr>"


section \<open>Retries\<close>

text \<open>the retry budget. A step is invoked between one and \<open>MaxAttempts\<close> times, and it is
  invoked a second time only after an error the policy allows: an error that is, or wraps, a
  panic, an uncompensated side effect or a dead context ends the step at its first attempt,
  whatever the policy's own predicate says.\<close>

theorem invokeStep_budget:
  assumes "1 \<le> MaxAttempts p" and "invokeStep rt p s 1 sc w = (r, n, sc', w')"
  shows "1 \<le> n \<and> n \<le> MaxAttempts p \<and>
    (\<forall>e. fst (safeInvoke s (sc\<lparr> sc_Attempt := 1 \<rparr>) w) = Inl e \<and> never_retried e \<longrightarrow> n = 1 \<and> r = Inl e)"
  using invokeStep_bound [OF assms(1)] invokeStep_never_retried assms(2)
  by (metis fst_conv snd_conv)

theorem invokeStep_budget_witness:
  "1 \<le> MaxAttempts (NoRetry\<lparr> MaxAttempts := 3 \<rparr>) \<and>
   fst (snd (invokeStep bed_rt (NoRetry\<lparr> MaxAttempts := 3 \<rparr>)
     (bed_step ''p'' (\<lambda>_. Panics None) (Returns ())) 1 (recovery_context bed_ok
       (new_execution ''x'' ''w'' bed_ro [] 0)) bed0)) = 1"
proof -
  let ?s = "bed_step ''p'' (\<lambda>_. Panics None) (Returns ())"
  let ?sc = "recovery_context bed_ok (new_execution ''x'' ''w'' bed_ro [] 0)"
  let ?r = "invokeStep bed_rt (NoRetry\<lparr> MaxAttempts := 3 \<rparr>) ?s 1 ?sc bed0"
  have "fst (safeInvoke ?s (?sc\<lparr> sc_Attempt := 1 \<rparr>) bed0) = Inl (panicError None)"
    by (simp add: safeInvoke_def bed_step_def)
  moreover have "never_retried (panicError None)" by code_simp
  ultimately show ?thesis
    using invokeStep_budget [of "NoRetry\<lparr> MaxAttempts := 3 \<rparr>" bed_rt ?s ?sc bed0
        "fst ?r" "fst (snd ?r)" "fst (snd (snd ?r))" "snd (snd (snd ?r))"] by simp
qed

section \<open>Recovery\<close>


definition bed_record :: "int \<Rightarrow> string \<Rightarrow> step_status \<Rightarrow> json \<Rightarrow> step_record" where
  "bed_record i name s outp = \<lparr> sr_Name = name, sr_Index = i, sr_Status = s, sr_Output = outp,
     sr_Failure = [], sr_Attempts = 1, sr_StartedAt = 0, sr_EndedAt = 0 \<rparr>"

definition bed_crashed :: execution where
  "bed_crashed = (new_execution ''x'' ''w'' bed_ro [] 0)\<lparr> ex_Steps :=
     [bed_record 1 ''b'' StepInvoked ''1'', bed_record 0 ''a'' StepInvoked ''1''] \<rparr>"


text \<open>an unknown boundary is never unwound automatically. If the step after the highest
  recorded one is declared to block recovery - its own outcome cannot be known from the record,
  as for a payment capture - then recovery refuses: nothing is compensated, the error is a
  Conflict of code \<open>CodeExecutionFailed\<close>, and the execution is closed as
  \<open>compensation_failed\<close>, which keeps its key.\<close>

theorem recovery_boundary_refused:
  assumes "rc \<in> set (ex_Steps ex)" and "\<forall>r \<in> set (ex_Steps ex). sr_Index r \<le> sr_Index rc"
    and "sr_Index rc + 1 < int (length (wf_Steps wfl))"
    and "st_BlocksRecovery (wf_Steps wfl ! nat (sr_Index rc + 1))"
    and "observed_store tr st"
  shows "\<exists>f. fst (recoverExecution rt st ro wfl ex w) = (True, Some f) \<and>
    KindOf f = KindConflict \<and> CodeOf f = CodeExecutionFailed \<and>
    tr (snd (recoverExecution rt st ro wfl ex w)) = tr w @ [EStatus StatusCompensationFailed]"
proof -
  from rebuildChain_boundary [OF assms(1-4)] obtain e where
    "rebuildChain wfl ex (recovery_context wfl ex) = Inl e" by blast
  then show ?thesis by (rule recover_refused_observed [OF _ assms(5)])
qed

definition bed_blocking :: "(bed, nat) workflow" where
  "bed_blocking = \<lparr> wf_Name = ''w'', wf_Steps = bed_good @
     [(bed_step ''c'' (\<lambda>_. Returns None) (Returns ()))\<lparr> st_BlocksRecovery := True \<rparr>] \<rparr>"

theorem recovery_boundary_refused_witness:
  "b_events (snd (recoverExecution bed_rt bed_ops bed_ro bed_blocking bed_crashed bed0)) =
    b_events bed0 @ [EStatus StatusCompensationFailed]"
proof -
  let ?rc = "bed_record 1 ''b'' StepInvoked ''1''"
  have "?rc \<in> set (ex_Steps bed_crashed)" "\<forall>r \<in> set (ex_Steps bed_crashed). sr_Index r \<le> sr_Index ?rc"
    "sr_Index ?rc + 1 < int (length (wf_Steps bed_blocking))"
    "st_BlocksRecovery (wf_Steps bed_blocking ! nat (sr_Index ?rc + 1))"
    by (simp_all add: bed_crashed_def bed_record_def bed_blocking_def bed_good_def)
  from recovery_boundary_refused [OF this bed_observed(3), of bed_rt bed_ro bed0] show ?thesis by blast
qed

text \<open>C40: a failed step's empty output can block recovery. The chain is rebuilt by calling
  \<open>Restore\<close> on the record of every recoverable step, also of one whose record says it failed and
  which therefore holds no work and has no output; if that step's \<open>Restore\<close> refuses its recorded
  output, the recovery refuses and none of the work the other steps hold is undone.\<close>

theorem failed_step_restore_blocks_recovery:
  assumes "rc \<in> set (ex_Steps ex)"
    and "st_Restore (wf_Steps wfl ! nat (sr_Index rc)) = Some restore"
    and "\<forall>sc. fst (restore sc (sr_Output rc)) \<noteq> None"
    and "observed_store tr st"
  shows "\<exists>f. fst (recoverExecution rt st ro wfl ex w) = (True, Some f) \<and> KindOf f = KindConflict \<and>
    tr (snd (recoverExecution rt st ro wfl ex w)) = tr w @ [EStatus StatusCompensationFailed]"
proof -
  have "rc \<in> set (sort_key sr_Index (ex_Steps ex))" using assms(1) by simp
  from rebuild_loop_restore_fails [OF this assms(2,3)] obtain e where
    "rebuildChain wfl ex (recovery_context wfl ex) = Inl e"
    by (metis (no_types, lifting) rebuildChain_def sum.simps(5))
  from recover_refused_observed [OF this assms(4)] show ?thesis by blast
qed

theorem failed_step_restore_blocks_recovery_witness:
  "b_events (snd (recoverExecution bed_rt bed_ops bed_ro bed_wf
      (bed_crashed\<lparr> ex_Steps := [bed_record 0 ''a'' StepInvoked ''1'', bed_record 1 ''b'' StepInvoked ''1'',
        bed_record 2 ''c'' StepFailed []] \<rparr>) bed0)) =
    b_events bed0 @ [EStatus StatusCompensationFailed]"
proof -
  let ?rc = "bed_record 2 ''c'' StepFailed []"
  let ?ex = "bed_crashed\<lparr> ex_Steps := [bed_record 0 ''a'' StepInvoked ''1'',
    bed_record 1 ''b'' StepInvoked ''1'', ?rc] \<rparr>"
  let ?restore = "\<lambda>sc outp. (if outp = [] then Some (Invalid ''empty'') else None, sc)"
  have "?rc \<in> set (ex_Steps ?ex)"
    "st_Restore (wf_Steps bed_wf ! nat (sr_Index ?rc)) = Some ?restore"
    "\<forall>sc. fst (?restore sc (sr_Output ?rc)) \<noteq> None"
    by (simp_all add: bed_record_def bed_wf_def bed_good_def bed_step_def)
  from failed_step_restore_blocks_recovery [OF this bed_observed(3), of bed_rt bed_ro bed0]
  show ?thesis by blast
qed

section \<open>Refusals\<close>

text \<open>A run that cannot start touches nothing. With no store, a refused option, an invalid
  workflow, a context that is already dead or an input that cannot be marshalled, \<open>Run\<close> returns
  an error that is Invalid or, for the dead context, Unavailable, and the world is exactly as
  before.\<close>

theorem run_refused_untouched:
  assumes "store = None \<or> isl (newRunOptions opts) \<or> Validate wfl \<noteq> None \<or>
    rt_callerErr rt w \<noteq> None \<or> isl (rt_Marshal rt inp)"
  shows "\<exists>e. Run rt store wfl inp opts w = (Inl e, w) \<and> KindOf e \<in> {KindInvalid, KindUnavailable}"
  using assms newRunOptions_Invalid [of opts] Validate_Invalid [of wfl]
  by (auto simp: Run_def ctx_Err_def isl_def split: option.splits sum.splits)

theorem run_refused_untouched_witness:
  "\<exists>e. Run bed_rt (Some bed_mem) (bed_ok\<lparr> wf_Steps := [] \<rparr>) None bed_options bed0 = (Inl e, bed0) \<and>
     KindOf e \<in> {KindInvalid, KindUnavailable}"
  by (rule run_refused_untouched) (simp add: Validate_def)

section \<open>The in-process store\<close>

text \<open>The states the store's operations lead to, in any order and at any times. A record is
  created without steps, as \<open>open_execution\<close> creates it.\<close>

inductive mem_reachable :: "memory_store \<Rightarrow> bool" where
  mem_new: "mem_reachable NewMemoryStore"
| mem_create: "mem_reachable s \<Longrightarrow> ex_Steps e = [] \<Longrightarrow> mem_reachable (snd (mem_Create (Some e) s))"
| mem_claim: "mem_reachable s \<Longrightarrow> mem_reachable (snd (mem_ClaimAbandoned eid seen now s))"
| mem_append: "mem_reachable s \<Longrightarrow> mem_reachable (snd (mem_AppendStep eid rc now s))"
| mem_update: "mem_reachable s \<Longrightarrow> mem_reachable (snd (mem_UpdateStatus eid st outp fl now s))"

lemma mem_reachable_inv: "mem_reachable s \<Longrightarrow> mem_inv s"
  by (induction rule: mem_reachable.induct)
    (simp_all add: mem_inv_Create mem_inv_ClaimAbandoned mem_inv_AppendStep mem_inv_UpdateStatus)

text \<open>a key names one execution. In every state the store can reach, two executions of one
  workflow never hold the same non-empty idempotency key, an execution with a key is the one the
  key finds, and the step records of an execution have distinct indexes.\<close>

theorem mem_key_names_one:
  assumes "mem_reachable s" and "byID s a = Some e" and "ex_IdempotencyKey e \<noteq> []"
  shows "mem_FindByIdempotencyKey (ex_Workflow e) (ex_IdempotencyKey e) s = Inr (Some e) \<and>
    distinct (map sr_Index (ex_Steps e)) \<and>
    (\<forall>b e'. byID s b = Some e' \<and> ex_Workflow e' = ex_Workflow e \<and>
      ex_IdempotencyKey e' = ex_IdempotencyKey e \<longrightarrow> b = a)"
  using mem_reachable_inv [OF assms(1)] assms(2,3) mem.find_held mem_inv_idD(2) mem.key_unique
  by metis

definition bed_one :: memory_store where
  "bed_one = snd (mem_Create (Some (new_execution ''x'' ''w'' bed_ro [] 0)) NewMemoryStore)"

lemma bed_one_facts:
  "mem_reachable bed_one" "byID bed_one ''x'' = Some (new_execution ''x'' ''w'' bed_ro [] 0)"
  "mem_inv bed_one" "ex_IdempotencyKey (new_execution ''x'' ''w'' bed_ro [] 0) = ''k''"
proof -
  show "mem_reachable bed_one"
    unfolding bed_one_def by (rule mem_create [OF mem_new]) (simp add: new_execution_def)
  then show "mem_inv bed_one" by (rule mem_reachable_inv)
  show "byID bed_one ''x'' = Some (new_execution ''x'' ''w'' bed_ro [] 0)"
    "ex_IdempotencyKey (new_execution ''x'' ''w'' bed_ro [] 0) = ''k''"
    by (simp_all add: bed_one_def mem_Create_def NewMemoryStore_def new_execution_def bed_ro_def)
qed

theorem mem_key_names_one_witness:
  "mem_FindByIdempotencyKey ''w'' ''k'' bed_one = Inr (Some (new_execution ''x'' ''w'' bed_ro [] 0))"
  using mem_key_names_one [OF bed_one_facts(1,2)] bed_one_facts(4)
  by (simp add: new_execution_def)

text \<open>C39: only a failed execution gives its key back. After an execution that holds a key has been
  closed with some status, a new execution of the same workflow under the same key is created if
  that status is \<open>failed\<close>; under any other status it is refused as a Conflict and the key finds
  the closed record, with the status and the output that were written.\<close>

theorem mem_failed_releases_key:
  assumes "mem_reachable s" and "byID s eid = Some e" and "ex_IdempotencyKey e \<noteq> []"
    and "ex_ID n \<noteq> []" "ex_Workflow n \<noteq> []" "ex_Steps n = []" "ex_ID n \<noteq> eid" "byID s (ex_ID n) = None"
    and "ex_Workflow n = ex_Workflow e" "ex_IdempotencyKey n = ex_IdempotencyKey e"
    and "t = snd (mem_UpdateStatus eid st outp fl now s)"
  shows "if st = StatusFailed then fst (mem_Create (Some n) t) = None
    else IsConflict (fst (mem_Create (Some n) t)) \<and>
      mem_FindByIdempotencyKey (ex_Workflow n) (ex_IdempotencyKey n) t =
        Inr (Some (closed_as st outp fl now e))"
  using mem.failed_releases_key [OF mem_reachable_inv [OF assms(1)] assms(2,4-10)]
    mem.completed_keeps_key [OF mem_reachable_inv [OF assms(1)] assms(2,3,4,5,9,10)]
  unfolding assms(11) by simp

theorem mem_failed_releases_key_witness:
  "fst (mem_Create (Some (new_execution ''y'' ''w'' bed_ro [] 1))
      (snd (mem_UpdateStatus ''x'' StatusFailed [] [] 1 bed_one))) = None \<and>
   IsConflict (fst (mem_Create (Some (new_execution ''y'' ''w'' bed_ro [] 1))
      (snd (mem_UpdateStatus ''x'' StatusCompleted ''1'' [] 1 bed_one))))"
proof -
  let ?n = "new_execution ''y'' ''w'' bed_ro [] 1"
  have n: "ex_ID ?n \<noteq> []" "ex_Workflow ?n \<noteq> []" "ex_Steps ?n = []" "ex_ID ?n \<noteq> ''x''"
    "byID bed_one (ex_ID ?n) = None" "ex_Workflow ?n = ex_Workflow (new_execution ''x'' ''w'' bed_ro [] 0)"
    "ex_IdempotencyKey ?n = ex_IdempotencyKey (new_execution ''x'' ''w'' bed_ro [] 0)"
    by (simp_all add: new_execution_def bed_one_def mem_Create_def NewMemoryStore_def)
  have k: "ex_IdempotencyKey (new_execution ''x'' ''w'' bed_ro [] 0) \<noteq> []"
    by (simp add: bed_one_facts(4))
  show ?thesis
    using mem_failed_releases_key [OF bed_one_facts(1,2) k n refl, of StatusFailed "[]" "[]" 1]
      mem_failed_releases_key [OF bed_one_facts(1,2) k n refl, of StatusCompleted "''1''" "[]" 1]
    by simp
qed

text \<open>One recoverer wins. When two parties have read the same abandoned record and both claim
  it, the one that comes second loses and changes nothing, provided the winner's claim is stamped
  with a time other than the one both had read.\<close>

theorem mem_claim_exclusive:
  assumes "mem_reachable s" and "mem_ClaimAbandoned eid seen now s = (Inr True, s')" and "now \<noteq> seen"
  shows "mem_ClaimAbandoned eid seen now' s' = (Inr False, s')"
proof -
  obtain e where "byID s eid = Some e"
    using assms(2) by (auto simp: mem_ClaimAbandoned_def split: option.splits)
  from mem.claim_exclusive [OF mem_reachable_inv [OF assms(1)] this assms(2,3)] show ?thesis .
qed

theorem mem_claim_exclusive_witness:
  "mem_ClaimAbandoned ''x'' 0 9 (snd (mem_ClaimAbandoned ''x'' 0 8 bed_one)) =
    (Inr False, snd (mem_ClaimAbandoned ''x'' 0 8 bed_one))"
proof -
  have "fst (mem_ClaimAbandoned ''x'' 0 8 bed_one) = Inr True"
    using bed_one_facts(2) by (simp add: mem_ClaimAbandoned_def new_execution_def)
  then have "mem_ClaimAbandoned ''x'' 0 8 bed_one = (Inr True, snd (mem_ClaimAbandoned ''x'' 0 8 bed_one))"
    by (metis prod.collapse)
  from mem_claim_exclusive [OF bed_one_facts(1) this] show ?thesis by simp
qed

end
