(* ===== verification/WfParallel.thy ===== *)
theory WfParallel
  imports WfProps
begin

text \<open>
  The concurrent composite step: \<^verbatim>\<open>internal/core/workflow/parallel.go\<close>.

  The branches run in goroutines. One branch call is one transition of the world, and the order
  in which the calls take effect is not determined by the code: it is the field \<open>sch_invoke\<close> of a
  \<open>schedule\<close>, and \<open>sch_undo\<close> for the concurrent compensations. The theorems hold for every
  schedule that calls each branch once (\<open>fair\<close>). The compensation errors are sorted by their
  rendered text, which the model of errors does not carry; \<open>sch_text\<close> is that permutation.

  Each branch sees its own copy of \<open>Shared\<close>, so nothing passes between the branches but the
  world. \<open>reflect.DeepEqual\<close> on the values is equality here. \<open>box\<close> makes one value out of the
  slice of outputs.
\<close>

definition CodeParallelBranchFailed :: string where
  "CodeParallelBranchFailed = ''workflow_parallel_branch_failed''"

record ('w, 'v) parallel =
  p_name :: string
  p_branches :: "('w, 'v) step list"
  p_rollbackTimeout :: int

record schedule =
  sch_invoke :: "nat list"
  sch_undo :: "nat list \<Rightarrow> nat list"
  sch_text :: "error list \<Rightarrow> error list"

definition NewParallel :: "string \<Rightarrow> ('w, 'v) step list \<Rightarrow> ('w, 'v) parallel" where
  "NewParallel name branches =
    \<lparr> p_name = name, p_branches = branches, p_rollbackTimeout = DefaultCompensationTimeout \<rparr>"

definition WithRollbackTimeout :: "int \<Rightarrow> ('w, 'v) parallel \<Rightarrow> ('w, 'v) parallel" where
  "WithRollbackTimeout d p = (if d > 0 then p\<lparr> p_rollbackTimeout := d \<rparr> else p)"

definition validate_branch :: "('w, 'v) step \<Rightarrow> error option" where
  "validate_branch b =
    (if st_isNil b then Some (Invalid CodeInvalidWorkflow)
     else if st_Name b = [] then Some (Invalid CodeInvalidWorkflow)
     else None)"

definition parallel_validate :: "('w, 'v) parallel \<Rightarrow> error option" where
  "parallel_validate p =
    (if p_name p = [] then Some (Invalid CodeInvalidWorkflow)
     else if p_branches p = [] then Some (Invalid CodeInvalidWorkflow)
     else check_all validate_branch (p_branches p))"

definition branchContext ::
    "'v step_context \<Rightarrow> (string \<Rightarrow> 'v option option) \<Rightarrow> string \<Rightarrow> nat \<Rightarrow> 'v step_context" where
  "branchContext parent shared name i =
    \<lparr> sc_Input = sc_Input parent, sc_Shared = shared, sc_ExecutionID = sc_ExecutionID parent,
      sc_Workflow = sc_Workflow parent, sc_StepName = name, sc_StepIndex = int i,
      sc_Attempt = sc_Attempt parent \<rparr>"

definition mergeShared ::
    "(string \<Rightarrow> 'v option option) \<Rightarrow> (string \<Rightarrow> 'v option option) \<Rightarrow> (string \<Rightarrow> 'v option option) \<Rightarrow>
      string \<Rightarrow> 'v option option" where
  "mergeShared dst snapshot branch =
    (\<lambda>k. case branch k of None \<Rightarrow> dst k | Some v \<Rightarrow> if snapshot k = Some v then dst k else Some v)"

record 'v branchResult =
  br_out :: "error + 'v option"
  br_shared :: "string \<Rightarrow> 'v option option"

definition call_branch ::
    "('w, 'v) parallel \<Rightarrow> 'v step_context \<Rightarrow> nat \<Rightarrow> 'w \<Rightarrow> 'v branchResult \<times> 'w" where
  "call_branch p sc i w =
    (case safeInvoke (p_branches p ! i) (branchContext sc (sc_Shared sc) (st_Name (p_branches p ! i)) i) w of
      (r, bsc, w') \<Rightarrow> (\<lparr> br_out = r, br_shared = sc_Shared bsc \<rparr>, w'))"

fun run_branches ::
    "('w, 'v) parallel \<Rightarrow> 'v step_context \<Rightarrow> nat list \<Rightarrow> 'v branchResult option list \<Rightarrow> 'w \<Rightarrow>
      'v branchResult option list \<times> 'w" where
  "run_branches p sc [] results w = (results, w)"
| "run_branches p sc (i # is) results w =
    (case call_branch p sc i w of
      (r, w') \<Rightarrow> run_branches p sc is (results[i := Some r]) w')"

text \<open>A context with its own budget under a parent deadline, if the parent has one.\<close>

definition with_timeout :: "('w, 'v) runtime \<Rightarrow> int option \<Rightarrow> int \<Rightarrow> 'w \<Rightarrow> ctx" where
  "with_timeout rt parent d w =
    DetachedCtx (case parent of None \<Rightarrow> rt_now rt w + d | Some dl \<Rightarrow> min dl (rt_now rt w + d))"

fun undo_branches ::
    "('w, 'v) runtime \<Rightarrow> ('w, 'v) parallel \<Rightarrow> int option \<Rightarrow> 'v step_context \<Rightarrow> nat list \<Rightarrow> 'w \<Rightarrow>
      error list \<times> 'w" where
  "undo_branches rt p parent sc [] w = ([], w)"
| "undo_branches rt p parent sc (i # is) w =
    (let b = p_branches p ! i in
     case safeCompensate (with_timeout rt parent (p_rollbackTimeout p) w) b
         (branchContext sc (sc_Shared sc) (st_Name b) i) w of
       (err, _, w1) \<Rightarrow>
         (case undo_branches rt p parent sc is w1 of
           (failures, w2) \<Rightarrow>
             ((case err of
                 None \<Rightarrow> failures
               | Some e \<Rightarrow> wrap_err e (KindOf e) CodeCompensationFailed # failures), w2)))"

definition compensateBranches ::
    "schedule \<Rightarrow> ('w, 'v) runtime \<Rightarrow> ('w, 'v) parallel \<Rightarrow> int option \<Rightarrow> 'v step_context \<Rightarrow> nat list \<Rightarrow>
      'w \<Rightarrow> error option \<times> 'w" where
  "compensateBranches sch rt p parent sc idx w =
    (case undo_branches rt p parent sc (sch_undo sch idx) w of
      (failures, w') \<Rightarrow> (Join (map Some (sch_text sch failures)), w'))"

definition rollback ::
    "schedule \<Rightarrow> ('w, 'v) runtime \<Rightarrow> ('w, 'v) parallel \<Rightarrow> 'v step_context \<Rightarrow> nat list \<Rightarrow> 'w \<Rightarrow>
      error option \<times> 'w" where
  "rollback sch rt p sc succeeded w =
    (if succeeded = [] then (None, w)
     else
       (case compensateBranches sch rt p None sc succeeded w of
         (None, w') \<Rightarrow> (None, w')
       | (Some err, w') \<Rightarrow>
           (Some (wrap_err (the (Join [Some (Sentinel ErrUncompensated), Some err])) KindInternal
              CodeCompensationFailed), w')))"

definition combineBranchErrors :: "error list \<Rightarrow> error" where
  "combineBranchErrors failures =
    (let joined = the (Join (map Some failures));
         k = (case find (\<lambda>f. \<not> DefaultRetryable f) failures of
               None \<Rightarrow> KindOf joined | Some f \<Rightarrow> KindOf f) in
     wrap_err joined k CodeParallelBranchFailed)"

definition branch_failures :: "'v branchResult list \<Rightarrow> error list" where
  "branch_failures rs =
    [wrap_err e (KindOf e) CodeParallelBranchFailed. Inl e \<leftarrow> map br_out rs]"

definition branch_succeeded :: "'v branchResult list \<Rightarrow> nat list" where
  "branch_succeeded rs = filter (\<lambda>i. \<not> isl (br_out (rs ! i))) [0..<length rs]"

definition parallel_Invoke ::
    "schedule \<Rightarrow> ('v option list \<Rightarrow> 'v) \<Rightarrow> ('w, 'v) runtime \<Rightarrow> ('w, 'v) parallel \<Rightarrow>
      'v step_context \<Rightarrow> 'w \<Rightarrow> 'v option call \<times> 'v step_context \<times> 'w" where
  "parallel_Invoke sch box rt p sc w =
    (case parallel_validate p of
      Some e \<Rightarrow> (Fails e, sc, w)
    | None \<Rightarrow>
        (case run_branches p sc (sch_invoke sch) (replicate (length (p_branches p)) None) w of
          (results, w1) \<Rightarrow>
            let rs = map the results;
                failures = branch_failures rs in
            if failures \<noteq> [] then
              (case rollback sch rt p sc (branch_succeeded rs) w1 of
                (rerr, w2) \<Rightarrow>
                  (Fails (combineBranchErrors
                     (failures @ (case rerr of None \<Rightarrow> [] | Some e \<Rightarrow> [e]))), sc, w2))
            else
              (Returns (Some (box (map (\<lambda>r. projr (br_out r)) rs))),
               sc\<lparr> sc_Shared := fold (\<lambda>r dst. mergeShared dst (sc_Shared sc) (br_shared r)) rs (sc_Shared sc) \<rparr>,
               w1)))"

text \<open>The engine hands a compensation a detached context with its own deadline.\<close>

definition parallel_Compensate ::
    "schedule \<Rightarrow> ('w, 'v) runtime \<Rightarrow> ('w, 'v) parallel \<Rightarrow> ctx \<Rightarrow> 'v step_context \<Rightarrow> 'w \<Rightarrow>
      unit call \<times> 'v step_context \<times> 'w" where
  "parallel_Compensate sch rt p c sc w =
    (case parallel_validate p of
      Some e \<Rightarrow> (Fails e, sc, w)
    | None \<Rightarrow>
        (case compensateBranches sch rt p (case c of DetachedCtx dl \<Rightarrow> Some dl | CallerCtx \<Rightarrow> None) sc
            [0..<length (p_branches p)] w of
          (None, w') \<Rightarrow> (Returns (), sc, w')
        | (Some e, w') \<Rightarrow> (Fails e, sc, w')))"

section \<open>Merging the branches' writes\<close>

definition changed :: "(string \<Rightarrow> 'v option option) \<Rightarrow> (string \<Rightarrow> 'v option option) \<Rightarrow> string \<Rightarrow> bool" where
  "changed snapshot branch k \<longleftrightarrow> branch k \<noteq> None \<and> branch k \<noteq> snapshot k"

lemma mergeShared_apply:
  "mergeShared dst snapshot branch k = (if changed snapshot branch k then branch k else dst k)"
  by (auto simp: mergeShared_def changed_def split: option.splits)

lemma fold_mergeShared:
  "fold (\<lambda>r dst. mergeShared dst snap (br_shared r)) rs dst k =
    (case find (\<lambda>r. changed snap (br_shared r) k) (rev rs) of
      None \<Rightarrow> dst k | Some r \<Rightarrow> br_shared r k)"
proof (induction rs rule: rev_induct)
  case Nil
  then show ?case by simp
next
  case (snoc r rs)
  then show ?case by (simp add: mergeShared_apply)
qed

section \<open>Retryability of a composite failure\<close>

lemma KindOf_Joined: "as_Error f \<noteq> None \<Longrightarrow> KindOf (Joined (f # fs)) = KindOf f"
  by (auto simp: KindOf_def)

lemma Join_map_Some: "fs \<noteq> [] \<Longrightarrow> Join (map Some fs) = Some (Joined fs)"
proof -
  have "[e. Some e \<leftarrow> map Some fs] = fs" by (induction fs) auto
  then show "fs \<noteq> [] \<Longrightarrow> Join (map Some fs) = Some (Joined fs)"
    by (cases fs) (simp_all add: Join_def)
qed

lemma Join_Nil [simp]: "Join [] = None" and Join_pair [simp]: "Join [Some a, Some b] = Some (Joined [a, b])"
  by (simp_all add: Join_def)

lemma never_retried_wrap [simp]: "never_retried (wrap_err e k c) = never_retried e"
  by (simp add: never_retried_def)

lemma never_retried_Joined: "never_retried (Joined fs) \<longleftrightarrow> (\<exists>f \<in> set fs. never_retried f)"
  by (auto simp: never_retried_def list_ex_iff)

lemma combineBranchErrors_eq:
  "fs \<noteq> [] \<Longrightarrow> combineBranchErrors fs = wrap_err (Joined fs)
    (case find (\<lambda>f. \<not> DefaultRetryable f) fs of None \<Rightarrow> KindOf (Joined fs) | Some f \<Rightarrow> KindOf f)
    CodeParallelBranchFailed"
  by (simp add: combineBranchErrors_def Join_map_Some Let_def)

lemma combineBranchErrors_retryable:
  assumes "fs \<noteq> []" and typed: "\<forall>f \<in> set fs. as_Error f \<noteq> None"
  shows "DefaultRetryable (combineBranchErrors fs) \<longleftrightarrow> (\<forall>f \<in> set fs. DefaultRetryable f)"
proof (cases "find (\<lambda>f. \<not> DefaultRetryable f) fs")
  case None
  then have all: "\<forall>f \<in> set fs. DefaultRetryable f" by (simp add: find_None_iff)
  have "KindOf (Joined fs) = KindOf (hd fs)"
    using assms by (cases fs) (simp_all add: KindOf_Joined)
  with all assms(1) None show ?thesis
    by (auto simp: combineBranchErrors_eq DefaultRetryable_iff never_retried_Joined)
next
  case (Some f)
  then have "f \<in> set fs" "\<not> DefaultRetryable f"
    by (auto simp: find_Some_iff)
  with Some assms(1) show ?thesis
    by (auto simp: combineBranchErrors_eq DefaultRetryable_iff never_retried_Joined)
qed

section \<open>What a composite does, observed\<close>











definition bed_schedule :: schedule where
  "bed_schedule = \<lparr> sch_invoke = [1, 0], sch_undo = rev, sch_text = (\<lambda>fs. fs) \<rparr>"

definition bed_context :: "nat step_context" where
  "bed_context = recovery_context bed_ok (new_execution ''x'' ''w'' bed_ro [] 0)"


text \<open>A composite is retried only if every failed branch may be. When branches fail, the
  composite's error is of a retryable class exactly when each branch error and the rollback error,
  if there is one, is: one invalid input among the branches stops the retries of all.\<close>

theorem parallel_retryable_iff:
  assumes "failures \<noteq> []" and "\<forall>f \<in> set failures. as_Error f \<noteq> None"
  shows "DefaultRetryable (combineBranchErrors failures) \<longleftrightarrow> (\<forall>f \<in> set failures. DefaultRetryable f)"
  using assms by (rule combineBranchErrors_retryable)

theorem parallel_retryable_iff_witness:
  "\<not> DefaultRetryable (combineBranchErrors [Unavailable ''a'', Invalid ''b''])"
  using parallel_retryable_iff [of "[Unavailable ''a'', Invalid ''b'']"]
  by (simp add: error_ctor_defs DefaultRetryable_def)

text \<open>A branch overwrites only what it changed. After a successful composite, a key of the
  parent's shared data holds the value of the last branch, in branch order, whose copy differs
  from the snapshot there, and its old value if no branch changed it.\<close>

theorem parallel_merge:
  assumes "parallel_Invoke sch box rt p sc w = (Returns v, sc', w')"
    and "run_branches p sc (sch_invoke sch) (replicate (length (p_branches p)) None) w = (results, w1)"
  shows "sc_Shared sc' k =
    (case find (\<lambda>r. changed (sc_Shared sc) (br_shared r) k) (rev (map the results)) of
      None \<Rightarrow> sc_Shared sc k | Some r \<Rightarrow> br_shared r k) \<and>
    sc' = sc\<lparr> sc_Shared := sc_Shared sc' \<rparr> \<and> w' = w1"
proof -
  have "sc' = sc\<lparr> sc_Shared := fold (\<lambda>r dst. mergeShared dst (sc_Shared sc) (br_shared r))
      (map the results) (sc_Shared sc) \<rparr>" "w' = w1"
    using assms by (auto simp: parallel_Invoke_def Let_def split: option.splits if_splits prod.splits)
  then show ?thesis by (simp add: fold_mergeShared)
qed

text \<open>Two branches of which the first writes one key and the second another.\<close>

definition bed_writer :: "string \<Rightarrow> nat \<Rightarrow> (bed, nat) step" where
  "bed_writer k v = (bed_step k (\<lambda>_. Returns (Some v)) (Returns ()))\<lparr> st_Invoke := (\<lambda>sc w.
     (Returns (Some v), sc\<lparr> sc_Shared := (sc_Shared sc)(k := Some (Some v)) \<rparr>, w)) \<rparr>"

definition bed_writers :: "(bed, nat) parallel" where
  "bed_writers = NewParallel ''both'' [bed_writer ''p'' 1, bed_writer ''q'' 2]"

theorem parallel_merge_witness:
  "sc_Shared (fst (snd (parallel_Invoke bed_schedule (\<lambda>_. 0) bed_rt bed_writers bed_context bed0))) ''p'' =
     Some (Some 1)"
proof -
  let ?r = "parallel_Invoke bed_schedule (\<lambda>_. 0) bed_rt bed_writers bed_context bed0"
  let ?b = "run_branches bed_writers bed_context (sch_invoke bed_schedule)
      (replicate (length (p_branches bed_writers)) None) bed0"
  have "(case fst ?r of Returns v \<Rightarrow> v = Some 0 | _ \<Rightarrow> False)" by code_simp
  then obtain sc' w' where r: "?r = (Returns (Some 0), sc', w')"
    by (cases ?r) (auto split: call.splits)
  have "(case find (\<lambda>r. changed (sc_Shared bed_context) (br_shared r) ''p'') (rev (map the (fst ?b))) of
      None \<Rightarrow> False | Some r \<Rightarrow> br_shared r ''p'' = Some (Some 1))" by code_simp
  with parallel_merge [OF r, of "fst ?b" "snd ?b" "''p''"] r show ?thesis
    by (auto split: option.splits)
qed

end
