(* ===== verification/TaxMoney.thy ===== *)
theory TaxMoney
  imports Errors
begin

text \<open>
  The tax module's arithmetic: \<^verbatim>\<open>internal/modules/tax/service/money.go\<close> and \<^verbatim>\<open>component.go\<close>, with
  the bounds and the data of \<^verbatim>\<open>internal/modules/tax/models/models.go\<close> that the calculation reads.

  Amounts are \<open>int64\<close> minor units, rates \<open>int32\<close> basis points; every operator of the code is the
  wrapping one, and the lemmas show that within the checked bounds none of them wraps.
\<close>

section \<open>Codes and bounds\<close>

definition CodeTaxInvalidInput :: string where "CodeTaxInvalidInput = ''tax_invalid_input''"

definition CodeRateOutOfRange :: string where "CodeRateOutOfRange = ''tax_rate_out_of_range''"

definition CodeAmountOverflow :: string where "CodeAmountOverflow = ''tax_amount_overflow''"

definition CodeInconsistentConfig :: string where
  "CodeInconsistentConfig = ''tax_inconsistent_config''"

definition CodeStackExceedsBase :: string where
  "CodeStackExceedsBase = ''tax_stack_exceeds_base''"

definition CodeStackNotAllowed :: string where "CodeStackNotAllowed = ''tax_stack_not_allowed''"

definition CodeProviderMisconfigured :: string where
  "CodeProviderMisconfigured = ''tax_provider_misconfigured''"

definition CodeProviderInvalidResult :: string where
  "CodeProviderInvalidResult = ''tax_provider_invalid_result''"

definition MinRateBps :: int where "MinRateBps = 0"

definition MaxRateBps :: int where "MaxRateBps = 10000"

definition MaxTaxableAmount :: int64 where "MaxTaxableAmount = 1000000000000000000"

definition MaxItems :: nat where "MaxItems = 1000"

definition BpsScale :: int64 where "BpsScale = 10000"

definition maxStackDepth :: nat where "maxStackDepth = 4"

section \<open>Arithmetic\<close>

definition addAmount :: "int64 \<Rightarrow> int64 \<Rightarrow> error + int64" where
  "addAmount a b =
    (if a < 0 \<or> b < 0 then Inl (Internal CodeAmountOverflow)
     else if a > sub64 MaxTaxableAmount b then Inl (Invalid CodeAmountOverflow)
     else Inr (add64 a b))"

definition TaxIncludedIn :: "int64 \<Rightarrow> int \<Rightarrow> error + int64" where
  "TaxIncludedIn gross rateBps =
    (if gross < 0 then Inl (Internal CodeAmountOverflow)
     else if gross > MaxTaxableAmount then Inl (Invalid CodeAmountOverflow)
     else if rateBps < MinRateBps \<or> rateBps > MaxRateBps then Inl (Internal CodeRateOutOfRange)
     else if gross = 0 \<or> rateBps = 0 then Inr 0
     else
       (let rate = rateBps;
            divisor = add64 BpsScale rate;
            whole = mul64 (quot64 gross divisor) rate;
            remainder = quot64 (mul64 (rem64 gross divisor) rate) divisor in
        Inr (add64 whole remainder)))"

definition TaxOf :: "int64 \<Rightarrow> int \<Rightarrow> error + int64" where
  "TaxOf base rateBps =
    (if base < 0 then Inl (Internal CodeAmountOverflow)
     else if base > MaxTaxableAmount then Inl (Invalid CodeAmountOverflow)
     else if rateBps < MinRateBps \<or> rateBps > MaxRateBps then Inl (Internal CodeRateOutOfRange)
     else if base = 0 \<or> rateBps = 0 then Inr 0
     else
       (let rate = rateBps;
            whole = mul64 (quot64 base BpsScale) rate;
            remainder = quot64 (mul64 (rem64 base BpsScale) rate) BpsScale in
        Inr (add64 whole remainder)))"

definition checkTaxableAmount :: "int64 \<Rightarrow> error option" where
  "checkTaxableAmount value =
    (if value < 0 then Some (Invalid CodeTaxInvalidInput)
     else if value > MaxTaxableAmount then Some (Invalid CodeAmountOverflow)
     else None)"

section \<open>Components\<close>

record tax_component =
  tc_RateID :: string
  tc_RateBps :: int
  tc_Compound :: bool
  tc_TaxableAmount :: int64
  tc_TaxAmount :: int64

fun sum_components :: "tax_component list \<Rightarrow> int64 \<Rightarrow> error + int64" where
  "sum_components [] totl = Inr totl"
| "sum_components (c # cs) totl =
    (if tc_RateBps c < MinRateBps \<or> tc_RateBps c > MaxRateBps
     then Inl (Internal CodeProviderInvalidResult)
     else if tc_TaxAmount c < 0 \<or> tc_TaxAmount c > tc_TaxableAmount c
     then Inl (Internal CodeProviderInvalidResult)
     else (case addAmount totl (tc_TaxAmount c) of
         Inl e \<Rightarrow> Inl e
       | Inr s \<Rightarrow> sum_components cs s))"

definition validateComponents :: "tax_component list \<Rightarrow> int64 \<Rightarrow> error option" where
  "validateComponents components lineTax =
    (if components = [] then None
     else if length components < 2 then Some (Internal CodeProviderInvalidResult)
     else if length components > maxStackDepth then Some (Internal CodeProviderInvalidResult)
     else (case sum_components components 0 of
         Inl e \<Rightarrow> Some e
       | Inr totl \<Rightarrow>
           if totl \<noteq> lineTax then Some (Internal CodeProviderInvalidResult) else None))"

section \<open>Within the bounds nothing wraps\<close>

lemmas tax_bounds = MinRateBps_def MaxRateBps_def MaxTaxableAmount_def BpsScale_def

lemma split_product:
  fixes a d r :: int
  assumes "0 < d"
  shows "(a div d) * r + ((a mod d) * r) div d = (a * r) div d"
proof -
  have "a * r = ((a div d) * r) * d + (a mod d) * r"
    by (metis (no_types, lifting) distrib_right div_mult_mod_eq mult.commute mult.left_commute)
  then have "(a * r) div d = (((a div d) * r) * d + (a mod d) * r) div d" by simp
  also have "\<dots> = (a div d) * r + ((a mod d) * r) div d"
    using assms by simp
  finally show ?thesis by simp
qed

lemma split_product64:
  assumes "0 \<le> a" "a \<le> MaxTaxableAmount" "0 \<le> r" "r \<le> MaxRateBps" "r \<le> d" "0 < d" "d \<le> 20000"
    "a * r \<le> MaxTaxableAmount * d"
  shows "add64 (mul64 (quot64 a d) r) (quot64 (mul64 (rem64 a d) r) d) = (a * r) div d"
proof -
  have big: "MaxTaxableAmount \<le> MaxInt64" by (simp add: MaxTaxableAmount_def MaxInt64_def)
  have res: "0 \<le> (a * r) div d" "(a * r) div d \<le> MaxTaxableAmount"
    using assms by (simp_all add: pos_imp_zdiv_nonneg_iff div_le_dividend)
      (metis assms(6,8) mult.commute nonzero_mult_div_cancel_left order_less_irrefl zdiv_mono1)
  have q: "quot64 a d = a div d" "rem64 a d = a mod d"
    using assms big by (auto intro!: quot64_id rem64_id)
  have m0: "0 \<le> a mod d" "a mod d < d" using assms by simp_all
  have rem: "0 \<le> (a mod d) * r" using m0 assms by simp
  have "a mod d \<le> 20000" using m0 assms(7) by linarith
  then have rem_le: "(a mod d) * r \<le> 20000 * 10000"
    using assms(3,4) by (intro mult_mono) (auto simp: MaxRateBps_def)
  have "mul64 (a mod d) r = (a mod d) * r"
    by (rule mul64_id, rule is_i64_between [OF rem rem_le]) (simp add: MaxInt64_def)
  moreover have "quot64 ((a mod d) * r) d = ((a mod d) * r) div d"
    using rem rem_le assms(6) by (intro quot64_id) (auto simp: MaxInt64_def)
  moreover have whole: "0 \<le> (a div d) * r" "(a div d) * r \<le> (a * r) div d"
  proof -
    show "0 \<le> (a div d) * r" using assms by (simp add: pos_imp_zdiv_nonneg_iff)
    have "0 \<le> ((a mod d) * r) div d" using rem assms(6) by (simp only: pos_imp_zdiv_nonneg_iff)
    with split_product [OF assms(6), of a r] show "(a div d) * r \<le> (a * r) div d" by linarith
  qed
  moreover have "mul64 (a div d) r = (a div d) * r"
    by (rule mul64_id, rule is_i64_between [OF whole]) (use res big in linarith)
  moreover have "is_i64 ((a * r) div d)"
    by (rule is_i64_between [OF res big])
  ultimately show ?thesis
    unfolding q using split_product [OF assms(6), of a r] by (simp add: add64_id)
qed

lemma addAmount_Inr:
  assumes "b \<le> MaxInt64"
  shows "addAmount a b = Inr c \<longleftrightarrow> 0 \<le> a \<and> 0 \<le> b \<and> a + b \<le> MaxTaxableAmount \<and> c = a + b"
proof (cases "0 \<le> a \<and> 0 \<le> b")
  case True
  have "is_i64 (MaxTaxableAmount - b)"
    using True assms by (simp add: is_i64_def MaxTaxableAmount_def MinInt64_def MaxInt64_def)
  then have "sub64 MaxTaxableAmount b = MaxTaxableAmount - b" by (rule sub64_id)
  moreover have "add64 a b = a + b" if "a + b \<le> MaxTaxableAmount"
    by (rule add64_id, rule is_i64_between [where b = MaxTaxableAmount])
      (use True that in \<open>auto simp: MaxTaxableAmount_def MaxInt64_def\<close>)
  ultimately show ?thesis using True by (auto simp: addAmount_def)
qed (auto simp: addAmount_def)

lemma addAmount_Inl_code: "addAmount a b = Inl e \<Longrightarrow> CodeOf e = CodeAmountOverflow"
  by (auto simp: addAmount_def split: if_splits)

definition taxable :: "int64 \<Rightarrow> bool" where "taxable a \<longleftrightarrow> 0 \<le> a \<and> a \<le> MaxTaxableAmount"

definition rate_ok :: "int \<Rightarrow> bool" where "rate_ok r \<longleftrightarrow> MinRateBps \<le> r \<and> r \<le> MaxRateBps"

lemma TaxOf_eq:
  assumes "taxable base" and "rate_ok r"
  shows "TaxOf base r = Inr (base * r div BpsScale)"
proof -
  have "base * r \<le> MaxTaxableAmount * BpsScale"
    using assms by (intro mult_mono) (auto simp: taxable_def rate_ok_def tax_bounds)
  then have "add64 (mul64 (quot64 base BpsScale) r) (quot64 (mul64 (rem64 base BpsScale) r) BpsScale) =
      base * r div BpsScale"
    using assms by (intro split_product64) (auto simp: taxable_def rate_ok_def tax_bounds)
  with assms show ?thesis
    by (auto simp: TaxOf_def taxable_def rate_ok_def Let_def)
qed

lemma TaxIncludedIn_eq:
  assumes "taxable gross" and "rate_ok r"
  shows "TaxIncludedIn gross r = Inr (gross * r div (BpsScale + r))"
proof -
  have d: "add64 BpsScale r = BpsScale + r"
    by (rule add64_id, rule is_i64_between [where b = 20000])
      (use assms(2) in \<open>auto simp: rate_ok_def tax_bounds MaxInt64_def\<close>)
  have "gross * r \<le> MaxTaxableAmount * (BpsScale + r)"
    using assms by (intro mult_mono) (auto simp: taxable_def rate_ok_def tax_bounds)
  then have "add64 (mul64 (quot64 gross (BpsScale + r)) r)
      (quot64 (mul64 (rem64 gross (BpsScale + r)) r) (BpsScale + r)) = gross * r div (BpsScale + r)"
    using assms by (intro split_product64) (auto simp: taxable_def rate_ok_def tax_bounds)
  with assms d show ?thesis
    by (auto simp: TaxIncludedIn_def taxable_def rate_ok_def Let_def)
qed

lemma tax_le:
  assumes "taxable a" and "rate_ok r"
  shows "0 \<le> a * r div BpsScale" "a * r div BpsScale \<le> a"
    and "0 \<le> a * r div (BpsScale + r)" "a * r div (BpsScale + r) \<le> a"
proof -
  have a: "0 \<le> a" "0 \<le> r" "r \<le> BpsScale" "0 < BpsScale"
    using assms by (auto simp: taxable_def rate_ok_def tax_bounds)
  have "a * r div BpsScale \<le> a * BpsScale div BpsScale"
    using a by (intro zdiv_mono1 mult_left_mono) auto
  then show "a * r div BpsScale \<le> a" using a by simp
  have "a * r div (BpsScale + r) \<le> a * (BpsScale + r) div (BpsScale + r)"
    using a by (intro zdiv_mono1 mult_left_mono) auto
  then show "a * r div (BpsScale + r) \<le> a" using a by simp
  show "0 \<le> a * r div BpsScale" "0 \<le> a * r div (BpsScale + r)"
    using a by (simp_all add: pos_imp_zdiv_nonneg_iff)
qed

section \<open>Adding a tax and extracting it\<close>

lemma extract_split:
  fixes g r S :: int
  assumes "0 < S" "0 \<le> r"
  shows "(g - g * r div (S + r)) * r = (g * r div (S + r)) * S + (g * r) mod (S + r)"
proof -
  let ?D = "S + r"
  have "g * r = (g * r div ?D) * ?D + (g * r) mod ?D" by (rule div_mult_mod_eq [symmetric])
  moreover have "(g - g * r div ?D) * r = g * r - (g * r div ?D) * r" by (simp add: left_diff_distrib)
  ultimately show ?thesis by (simp only: distrib_left)
qed

lemma extract_then_add:
  fixes g r S :: int
  assumes "0 < S" "0 \<le> r" "r \<le> S"
  defines "t \<equiv> g * r div (S + r)"
  shows "(g - t) * r div S = (if (g * r) mod (S + r) < S then t else t + 1)"
proof -
  let ?m = "(g * r) mod (S + r)"
  have m: "0 \<le> ?m" "?m < S + r" using assms by (simp_all add: add_pos_nonneg)
  have "(g - t) * r div S = (t * S + ?m) div S"
    unfolding t_def using extract_split [OF assms(1,2), of g] by simp
  also have "\<dots> = t + ?m div S" using assms(1) by simp
  also have "?m div S = (if ?m < S then 0 else 1)"
  proof (cases "?m < S")
    case True
    with m(1) show ?thesis by (simp only: div_pos_pos_trivial if_True)
  next
    case False
    have "?m div S = 1" by (rule int_div_pos_eq [where r = "?m - S"]) (use False m assms(1,3) in linarith)+
    with False show ?thesis by (simp only: if_False)
  qed
  finally show ?thesis by simp
qed

lemma extract_reachable:
  fixes g r S :: int
  assumes "0 < S" "0 \<le> r" "r \<le> S"
  shows "(g * r) mod (S + r) < S \<longleftrightarrow> (\<exists>n. n + n * r div S = g)"
proof
  assume "(g * r) mod (S + r) < S"
  with extract_then_add [OF assms, of g] have
    "(g - g * r div (S + r)) + (g - g * r div (S + r)) * r div S = g" by simp
  then show "\<exists>n. n + n * r div S = g" by blast
next
  assume "\<exists>n. n + n * r div S = g"
  then obtain n where n: "n + n * r div S = g" by blast
  define x where "x = n * r div S"
  have "n * r = x * S + (n * r) mod S" by (simp add: x_def)
  then have "g * r = x * (S + r) + (n * r) mod S"
    using n by (simp add: x_def [symmetric] algebra_simps flip: n)
  moreover have "0 \<le> (n * r) mod S" "(n * r) mod S < S" using assms by simp_all
  ultimately have "(g * r) mod (S + r) = (n * r) mod S"
    using assms(2) by (intro int_mod_pos_eq [where q = x]) (simp_all only: mult.commute)
  then show "(g * r) mod (S + r) < S" using \<open>(n * r) mod S < S\<close> by (simp only:)
qed

text \<open>The gross of a net price, and the block of gross prices between two whole multiples.\<close>

lemma gross_mono:
  fixes m n r S :: int
  assumes "0 < S" "0 \<le> r" "m < n"
  shows "m + m * r div S < n + n * r div S"
  using assms by (simp add: add_less_le_mono zdiv_mono1 mult_right_mono)

lemma reachable_count:
  fixes k r S :: int
  assumes "0 < S" "0 \<le> r"
  shows "card {g \<in> {k * (S + r)..<(k + 1) * (S + r)}. \<exists>n. n + n * r div S = g} = nat S"
proof -
  let ?G = "\<lambda>n. n + n * r div S"
  have at: "?G (j * S) = j * (S + r)" for j
    using assms(1) by (simp add: algebra_simps)
  have lt: "?G m < ?G n \<longleftrightarrow> m < n" for m n
    using gross_mono [OF assms, of m n] gross_mono [OF assms, of n m] by (cases m n rule: linorder_cases) auto
  have le: "?G m \<le> ?G n \<longleftrightarrow> m \<le> n" for m n
    using lt [of n m] by linarith
  have "{g \<in> {k * (S + r)..<(k + 1) * (S + r)}. \<exists>n. ?G n = g} = ?G ` {k * S..<(k + 1) * S}"
  proof (intro set_eqI iffI)
    fix g
    assume "g \<in> {g \<in> {k * (S + r)..<(k + 1) * (S + r)}. \<exists>n. ?G n = g}"
    then have g: "k * (S + r) \<le> g" "g < (k + 1) * (S + r)" "\<exists>n. ?G n = g" by auto
    from g(3) obtain n where "?G n = g" by blast
    with g(1,2) have n: "?G n = g" "?G (k * S) \<le> ?G n" "?G n < ?G ((k + 1) * S)"
      unfolding at by simp_all
    then show "g \<in> ?G ` {k * S..<(k + 1) * S}"
      using le [of "k * S" n] lt [of n "(k + 1) * S"] by (intro image_eqI [of _ _ n]) auto
  next
    fix g
    assume "g \<in> ?G ` {k * S..<(k + 1) * S}"
    then obtain n where n: "g = ?G n" "k * S \<le> n" "n < (k + 1) * S" by auto
    with le [of "k * S" n] lt [of n "(k + 1) * S"]
    have "k * (S + r) \<le> g" "g < (k + 1) * (S + r)" unfolding at by blast+
    with n(1) show "g \<in> {g \<in> {k * (S + r)..<(k + 1) * (S + r)}. \<exists>n. ?G n = g}" by auto
  qed
  moreover have "inj_on ?G {k * S..<(k + 1) * S}"
    by (rule inj_onI) (metis lt linorder_neqE_linordered_idom order_less_irrefl)
  ultimately show ?thesis by (simp add: card_image algebra_simps)
qed

section \<open>Properties\<close>

text \<open>The tax on a base is the exact floor. For a base and a rate within the bounds the split
  computation never wraps and returns \<open>base * rate / 10000\<close> rounded down, between zero and the
  base and less than one minor unit below the exact value; any other input is refused with an
  error.\<close>

theorem tax_of_is_floor:
  "TaxOf base r =
    (if base < 0 then Inl (Internal CodeAmountOverflow)
     else if MaxTaxableAmount < base then Inl (Invalid CodeAmountOverflow)
     else if r < 0 \<or> 10000 < r then Inl (Internal CodeRateOutOfRange)
     else Inr (base * r div 10000))"
proof (cases "taxable base \<and> rate_ok r")
  case True
  then show ?thesis
    using TaxOf_eq [of base r] by (auto simp: taxable_def rate_ok_def tax_bounds)
next
  case False
  then show ?thesis by (auto simp: TaxOf_def taxable_def rate_ok_def tax_bounds)
qed

text \<open>extracting a tax from a gross price hits the price exactly, and is not undone by adding.
  The extracted tax is \<open>gross * rate / (10000 + rate)\<close> rounded down and lies between zero and the
  gross; so the base that remains and the tax add up to the gross. Taxing that base again gives
  either the same tax or one minor unit more, and it gives the same exactly when some net price
  plus its tax equals the gross.\<close>

theorem extracted_tax_hits_gross:
  assumes "taxable gross" and "rate_ok r"
  shows "\<exists>t x. TaxIncludedIn gross r = Inr t \<and> t = gross * r div (10000 + r) \<and> 0 \<le> t \<and> t \<le> gross \<and>
    TaxOf (gross - t) r = Inr x \<and> (x = t \<or> x = t + 1) \<and>
    (x = t \<longleftrightarrow> (\<exists>net. net + net * r div 10000 = gross))"
proof -
  let ?t = "gross * r div (10000 + r)"
  have r: "0 \<le> r" "r \<le> 10000" using assms(2) by (auto simp: rate_ok_def tax_bounds)
  have t: "TaxIncludedIn gross r = Inr ?t" "0 \<le> ?t" "?t \<le> gross"
    using TaxIncludedIn_eq [OF assms] tax_le [OF assms] by (simp_all add: BpsScale_def)
  have "taxable (gross - ?t)" using t(2,3) assms(1) by (simp add: taxable_def)
  define x where "x = (if (gross * r) mod (10000 + r) < 10000 then ?t else ?t + 1)"
  from \<open>taxable (gross - ?t)\<close> have "TaxOf (gross - ?t) r = Inr x"
    using TaxOf_eq [OF _ assms(2)] extract_then_add [of 10000 r gross] r
    by (simp add: BpsScale_def x_def)
  moreover have "(gross * r) mod (10000 + r) < 10000 \<longleftrightarrow> (\<exists>net. net + net * r div 10000 = gross)"
    using extract_reachable [of 10000 r gross] r by simp
  then have "x = ?t \<longleftrightarrow> (\<exists>net. net + net * r div 10000 = gross)" by (simp add: x_def)
  moreover have "x = ?t \<or> x = ?t + 1" by (simp add: x_def)
  ultimately show ?thesis using t by blast
qed

theorem extracted_tax_hits_gross_witness:
  "\<exists>t x. TaxIncludedIn 11 2000 = Inr t \<and> TaxOf (11 - t) 2000 = Inr x \<and> 0 \<le> t \<and> t \<le> 11 \<and> (x = t \<or> x = t + 1)"
proof -
  have "taxable 11" "rate_ok 2000" by (simp_all add: taxable_def rate_ok_def tax_bounds)
  from extracted_tax_hits_gross [OF this] show ?thesis by blast
qed

text \<open>How often taxing the extracted base again overcharges. In every block of \<open>10000 + rate\<close>
  consecutive gross prices, exactly \<open>rate\<close> of them are one minor unit too high when the extracted
  base is taxed again.\<close>

theorem retaxing_overcharges_share:
  assumes "rate_ok r" and "0 \<le> k" and "(k + 1) * (10000 + r) \<le> MaxTaxableAmount"
  shows "card {gross \<in> {k * (10000 + r)..<(k + 1) * (10000 + r)}.
    \<forall>t. TaxIncludedIn gross r = Inr t \<longrightarrow> TaxOf (gross - t) r = Inr (t + 1)} = nat r"
proof -
  have r: "0 \<le> r" "r \<le> 10000" using assms(1) by (auto simp: rate_ok_def tax_bounds)
  let ?B = "{k * (10000 + r)..<(k + 1) * (10000 + r)}"
  let ?R = "{g \<in> ?B. \<exists>n. n + n * r div 10000 = g}"
  have over: "(\<forall>t. TaxIncludedIn g r = Inr t \<longrightarrow> TaxOf (g - t) r = Inr (t + 1)) \<longleftrightarrow>
      \<not> (\<exists>n. n + n * r div 10000 = g)" if "g \<in> ?B" for g
  proof -
    have "0 \<le> k * (10000 + r)" using assms(2) r by simp
    then have "taxable g" using that assms(3) by (auto simp: taxable_def)
    from extracted_tax_hits_gross [OF this assms(1)] obtain t x where
      "TaxIncludedIn g r = Inr t" "TaxOf (g - t) r = Inr x" "x = t \<or> x = t + 1"
      "x = t \<longleftrightarrow> (\<exists>net. net + net * r div 10000 = g)" by blast
    then show ?thesis by auto
  qed
  have "{gross \<in> ?B. \<forall>t. TaxIncludedIn gross r = Inr t \<longrightarrow> TaxOf (gross - t) r = Inr (t + 1)} = ?B - ?R"
    using over by blast
  moreover have "finite ?R" by (rule finite_subset [of _ ?B]) auto
  then have "card (?B - ?R) = card ?B - card ?R" by (rule card_Diff_subset) auto
  moreover have "card ?R = 10000" using reachable_count [of 10000 r k] r by simp
  moreover have "card ?B = nat (10000 + r)" by (simp add: algebra_simps)
  ultimately show ?thesis using r by simp
qed

theorem retaxing_overcharges_share_witness:
  "card {gross \<in> {0..<12000}. \<forall>t. TaxIncludedIn gross 2000 = Inr t \<longrightarrow> TaxOf (gross - t) 2000 = Inr (t + 1)} = 2000"
  using retaxing_overcharges_share [of 2000 0] by (simp add: rate_ok_def tax_bounds)

end
