(* ===== verification/TaxLocal.thy ===== *)
theory TaxLocal
  imports TaxMoney
begin

text \<open>
  The local tax provider: \<^verbatim>\<open>internal/modules/tax/service/local.go\<close>, the stack checks of
  \<^verbatim>\<open>stack.go\<close>, and the data of \<^verbatim>\<open>models/models.go\<close> and \<^verbatim>\<open>taxprovider.go\<close> they use.

  Of a rate and a rule the model keeps the fields a calculation reads; names, codes, metadata and
  timestamps are carried by the code and decide nothing. A Go map from an id is a function into
  an option, and a map of slices a function into lists, a missing key being the empty list. The
  repository is a \<open>rate_source\<close>: its answers are arguments of the calculation.
\<close>

section \<open>Data\<close>

datatype rule_reference =
    ReferenceProduct
  | ReferenceTaxClass
  | ReferenceProductType
  | ReferenceShippingOption
  | ReferenceOther string

fun Specificity :: "rule_reference \<Rightarrow> nat" where
  "Specificity ReferenceProduct = 3"
| "Specificity ReferenceTaxClass = 2"
| "Specificity ReferenceProductType = 1"
| "Specificity ReferenceShippingOption = 1"
| "Specificity (ReferenceOther _) = 0"

record tax_rate =
  ra_ID :: string
  ra_TaxRegionID :: string
  ra_RateBps :: int
  ra_IsDefault :: bool
  ra_StacksOnID :: "string option"
  ra_Compound :: bool

record tax_rate_rule =
  ru_TaxRateID :: string
  ru_Reference :: rule_reference
  ru_ReferenceID :: string

type_synonym match_key = "rule_reference \<times> string"

record taxable_item =
  it_ID :: string
  it_ProductID :: string
  it_ProductTypeID :: string
  it_TaxClassID :: string
  it_Amount :: int64

record shipping_input =
  sh_OptionID :: string
  sh_Amount :: int64
  sh_Taxable :: bool

record provider_input =
  pi_RegionIDs :: "string list"
  pi_CountryCode :: string
  pi_ProvinceCode :: string
  pi_Items :: "taxable_item list"
  pi_Shipping :: shipping_input
  pi_PricesIncludeTax :: bool

record provider_item_tax =
  pt_ID :: string
  pt_RateID :: string
  pt_RateBps :: int
  pt_TaxAmount :: int64
  pt_TaxableAmount :: int64
  pt_Components :: "tax_component list"

record provider_result =
  pr_Items :: "provider_item_tax list"
  pr_Shipping :: provider_item_tax

record rate_source =
  src_ListTaxRatesByRegions :: "string list \<Rightarrow> error + tax_rate list"
  src_ListTaxRateRulesByRates :: "string list \<Rightarrow> error + tax_rate_rule list"

definition ShippingLineID :: string where "ShippingLineID = ''_shipping''"

definition LocalProviderID :: string where "LocalProviderID = ''local''"

definition untaxed_line :: "string \<Rightarrow> int64 \<Rightarrow> provider_item_tax" where
  "untaxed_line lineID amount = \<lparr> pt_ID = lineID, pt_RateID = [], pt_RateBps = 0, pt_TaxAmount = 0,
     pt_TaxableAmount = amount, pt_Components = [] \<rparr>"

section \<open>The table\<close>

record ruled_rate =
  rr_rate :: tax_rate
  rr_rules :: "tax_rate_rule list"

record rate_table =
  t_chain :: "string list"
  t_ruled :: "string \<Rightarrow> ruled_rate list"
  t_fallback :: "string \<Rightarrow> tax_rate option"
  t_standing :: "string \<Rightarrow> tax_rate option"

text \<open>Keep the rate with the smaller id.\<close>

definition keep_smaller :: "tax_rate \<Rightarrow> tax_rate option \<Rightarrow> tax_rate" where
  "keep_smaller rate existing =
    (case existing of None \<Rightarrow> rate | Some x \<Rightarrow> if ra_ID rate < ra_ID x then rate else x)"

definition add_rate :: "tax_rate_rule list \<Rightarrow> tax_rate \<Rightarrow> rate_table \<Rightarrow> rate_table" where
  "add_rate rules rate t =
    (case ra_StacksOnID rate of
      Some base \<Rightarrow>
        t\<lparr> t_standing := (t_standing t)(base := Some (keep_smaller rate (t_standing t base))) \<rparr>
    | None \<Rightarrow>
        (let region = ra_TaxRegionID rate in
         if ra_IsDefault rate then
           t\<lparr> t_fallback := (t_fallback t)(region := Some (keep_smaller rate (t_fallback t region))) \<rparr>
         else
           t\<lparr> t_ruled := (t_ruled t)(region := t_ruled t region @
             [\<lparr> rr_rate = rate, rr_rules = filter (\<lambda>r. ru_TaxRateID r = ra_ID rate) rules \<rparr>]) \<rparr>))"

definition newRateTable :: "string list \<Rightarrow> tax_rate list \<Rightarrow> tax_rate_rule list \<Rightarrow> rate_table" where
  "newRateTable chain rates rules =
    (let t = fold (add_rate rules) rates
           \<lparr> t_chain = chain, t_ruled = (\<lambda>_. []), t_fallback = (\<lambda>_. None), t_standing = (\<lambda>_. None) \<rparr> in
     t\<lparr> t_ruled := (\<lambda>region. sort_key (\<lambda>rr. ra_ID (rr_rate rr)) (t_ruled t region)) \<rparr>)"

definition matchSpecificity :: "tax_rate_rule list \<Rightarrow> match_key list \<Rightarrow> nat" where
  "matchSpecificity rules keys =
    fold (\<lambda>rule best.
      fold (\<lambda>key best.
        if ru_Reference rule \<noteq> fst key \<or> ru_ReferenceID rule \<noteq> snd key then best
        else if Specificity (ru_Reference rule) > best then Specificity (ru_Reference rule)
        else best) keys best) rules 0"

fun scan_ruled :: "match_key list \<Rightarrow> ruled_rate list \<Rightarrow> tax_rate option \<Rightarrow> nat \<Rightarrow> tax_rate option" where
  "scan_ruled keys [] best bestSpec = best"
| "scan_ruled keys (c # cs) best bestSpec =
    (let spec = matchSpecificity (rr_rules c) keys in
     if spec > bestSpec then scan_ruled keys cs (Some (rr_rate c)) spec
     else scan_ruled keys cs best bestSpec)"

definition region_rate :: "rate_table \<Rightarrow> match_key list \<Rightarrow> string \<Rightarrow> tax_rate option" where
  "region_rate t keys region =
    (case scan_ruled keys (t_ruled t region) None 0 of
      Some best \<Rightarrow> Some best
    | None \<Rightarrow> t_fallback t region)"

fun select_in :: "rate_table \<Rightarrow> match_key list \<Rightarrow> string list \<Rightarrow> tax_rate option" where
  "select_in t keys [] = None"
| "select_in t keys (region # regions) =
    (case region_rate t keys region of Some r \<Rightarrow> Some r | None \<Rightarrow> select_in t keys regions)"

definition selectRate :: "rate_table \<Rightarrow> match_key list \<Rightarrow> tax_rate option" where
  "selectRate t keys = select_in t keys (t_chain t)"

function stack_walk :: "rate_table \<Rightarrow> tax_rate \<Rightarrow> tax_rate list \<Rightarrow> error + tax_rate list" where
  "stack_walk t current stack =
    (let stack' = stack @ [current] in
     case t_standing t (ra_ID current) of
       None \<Rightarrow> Inr stack'
     | Some next \<Rightarrow>
         if length stack' \<ge> maxStackDepth then Inl (Internal CodeInconsistentConfig)
         else stack_walk t next stack')"
  by pat_completeness auto
termination
  by (relation "measure (\<lambda>(t, current, stack). maxStackDepth - length stack)") auto

declare stack_walk.simps [simp del]

definition stackFrom :: "rate_table \<Rightarrow> tax_rate \<Rightarrow> error + tax_rate list" where
  "stackFrom t base = stack_walk t base []"

section \<open>Applying a rate\<close>

fun apply_stack ::
    "int64 \<Rightarrow> tax_rate list \<Rightarrow> int64 \<Rightarrow> tax_component list \<Rightarrow> error + (int64 \<times> tax_component list)" where
  "apply_stack amount [] totl comps = Inr (totl, comps)"
| "apply_stack amount (r # rs) totl comps =
    (case (if ra_Compound r then addAmount amount totl else Inr amount) of
      Inl e \<Rightarrow> Inl e
    | Inr base \<Rightarrow>
        (case TaxOf base (ra_RateBps r) of
          Inl e \<Rightarrow> Inl e
        | Inr tax \<Rightarrow>
            (case addAmount totl tax of
              Inl e \<Rightarrow> Inl e
            | Inr totl' \<Rightarrow>
                apply_stack amount rs totl' (comps @ [\<lparr> tc_RateID = ra_ID r, tc_RateBps = ra_RateBps r,
                  tc_Compound = ra_Compound r, tc_TaxableAmount = base, tc_TaxAmount = tax \<rparr>]))))"

definition applyTo ::
    "rate_table \<Rightarrow> match_key list \<Rightarrow> string \<Rightarrow> int64 \<Rightarrow> bool \<Rightarrow> error + provider_item_tax" where
  "applyTo t keys lineID amount included =
    (case selectRate t keys of
      None \<Rightarrow> Inr (untaxed_line lineID amount)
    | Some rate \<Rightarrow>
        (case stackFrom t rate of
          Inl e \<Rightarrow> Inl e
        | Inr stack \<Rightarrow>
            if included then
              (if length stack > 1 then Inl (Internal CodeInconsistentConfig)
               else
                 (case TaxIncludedIn amount (ra_RateBps rate) of
                   Inl e \<Rightarrow> Inl e
                 | Inr tax \<Rightarrow>
                     Inr \<lparr> pt_ID = lineID, pt_RateID = ra_ID rate, pt_RateBps = ra_RateBps rate,
                           pt_TaxAmount = tax, pt_TaxableAmount = sub64 amount tax,
                           pt_Components = [] \<rparr>))
            else
              (case apply_stack amount stack 0 [] of
                Inl e \<Rightarrow> Inl e
              | Inr (totl, comps) \<Rightarrow>
                  Inr \<lparr> pt_ID = lineID, pt_RateID = ra_ID (stack ! 0), pt_RateBps = ra_RateBps (stack ! 0),
                        pt_TaxAmount = totl, pt_TaxableAmount = amount,
                        pt_Components = (if length stack > 1 then comps else []) \<rparr>)))"

definition itemKeys :: "taxable_item \<Rightarrow> match_key list" where
  "itemKeys item =
    (if it_ProductID item \<noteq> [] then [(ReferenceProduct, it_ProductID item)] else []) @
    (if it_TaxClassID item \<noteq> [] then [(ReferenceTaxClass, it_TaxClassID item)] else []) @
    (if it_ProductTypeID item \<noteq> [] then [(ReferenceProductType, it_ProductTypeID item)] else [])"

definition shippingKeys :: "shipping_input \<Rightarrow> match_key list" where
  "shippingKeys s = (if sh_OptionID s = [] then [] else [(ReferenceShippingOption, sh_OptionID s)])"

definition loadRateRows ::
    "rate_source \<Rightarrow> string list \<Rightarrow> error + (tax_rate list \<times> tax_rate_rule list)" where
  "loadRateRows source regionIDs =
    (case src_ListTaxRatesByRegions source regionIDs of
      Inl e \<Rightarrow> Inl e
    | Inr rates \<Rightarrow>
        (let ruledIDs = map ra_ID (filter (\<lambda>r. \<not> ra_IsDefault r) rates) in
         if ruledIDs \<noteq> [] then
           (case src_ListTaxRateRulesByRates source ruledIDs of
             Inl e \<Rightarrow> Inl e | Inr rules \<Rightarrow> Inr (rates, rules))
         else Inr (rates, [])))"

definition loadRates :: "rate_source \<Rightarrow> string list \<Rightarrow> error + rate_table" where
  "loadRates source regionIDs =
    (case loadRateRows source regionIDs of
      Inl e \<Rightarrow> Inl e
    | Inr (rates, rules) \<Rightarrow> Inr (newRateTable regionIDs rates rules))"

fun apply_items ::
    "rate_table \<Rightarrow> bool \<Rightarrow> taxable_item list \<Rightarrow> error + provider_item_tax list" where
  "apply_items t included [] = Inr []"
| "apply_items t included (i # is) =
    (case applyTo t (itemKeys i) (it_ID i) (it_Amount i) included of
      Inl e \<Rightarrow> Inl e
    | Inr line \<Rightarrow>
        (case apply_items t included is of Inl e \<Rightarrow> Inl e | Inr lines \<Rightarrow> Inr (line # lines)))"

definition local_Calculate :: "rate_source \<Rightarrow> provider_input \<Rightarrow> error + provider_result" where
  "local_Calculate source inp =
    (if pi_RegionIDs inp = [] \<or> (pi_Items inp = [] \<and> \<not> sh_Taxable (pi_Shipping inp)) then
       Inr \<lparr> pr_Items = map (\<lambda>i. untaxed_line (it_ID i) (it_Amount i)) (pi_Items inp),
             pr_Shipping = untaxed_line ShippingLineID 0 \<rparr>
     else
       (case loadRates source (pi_RegionIDs inp) of
         Inl e \<Rightarrow> Inl e
       | Inr t \<Rightarrow>
           (case apply_items t (pi_PricesIncludeTax inp) (pi_Items inp) of
             Inl e \<Rightarrow> Inl e
           | Inr lines \<Rightarrow>
               if sh_Taxable (pi_Shipping inp) then
                 (case applyTo t (shippingKeys (pi_Shipping inp)) ShippingLineID
                     (sh_Amount (pi_Shipping inp)) (pi_PricesIncludeTax inp) of
                   Inl e \<Rightarrow> Inl e
                 | Inr line \<Rightarrow> Inr \<lparr> pr_Items = lines, pr_Shipping = line \<rparr>)
               else Inr \<lparr> pr_Items = lines, pr_Shipping = untaxed_line ShippingLineID 0 \<rparr>)))"

section \<open>The checks on a stack\<close>

definition notionalBase :: int64 where "notionalBase = 100000000"

definition stack_component :: "int64 \<Rightarrow> tax_rate \<Rightarrow> int64" where
  "stack_component taken r =
    (let base = (if ra_Compound r then add64 notionalBase taken else notionalBase) in
     quot64 (sub64 (add64 (mul64 base (ra_RateBps r)) BpsScale) 1) BpsScale)"

definition stack_taken :: "tax_rate list \<Rightarrow> int64" where
  "stack_taken chain = fold (\<lambda>r taken. add64 taken (stack_component taken r)) chain 0"

definition assertStackWithinBase :: "tax_rate list \<Rightarrow> error option" where
  "assertStackWithinBase chain =
    (if stack_taken chain > notionalBase then Some (Conflict CodeStackExceedsBase) else None)"

record tax_region =
  rg_ID :: string
  rg_CountryCode :: string
  rg_ProvinceCode :: "string option"
  rg_ParentID :: "string option"
  rg_ProviderID :: string
  rg_PricesIncludeTax :: "bool option"

text \<open>The reads of the repository that the checks and the calculation make.\<close>

record tax_repo =
  repo_ListTaxRates :: "string \<Rightarrow> error + tax_rate list"
  repo_GetTaxRate :: "string \<Rightarrow> error + tax_rate"
  repo_GetTaxRegion :: "string \<Rightarrow> error + tax_region"
  repo_LockTaxRegionForWrite :: "string \<Rightarrow> error option"
  repo_ResolveTaxRegions :: "string \<Rightarrow> string \<Rightarrow> error + tax_region list"
  repo_ClassesOfProducts :: "string list \<Rightarrow> error + (string \<Rightarrow> string)"

fun pricesIncludeTax :: "tax_region list \<Rightarrow> bool" where
  "pricesIncludeTax [] = False"
| "pricesIncludeTax (r # rs) =
    (case rg_PricesIncludeTax r of Some b \<Rightarrow> b | None \<Rightarrow> pricesIncludeTax rs)"

definition regionChainOf :: "tax_repo \<Rightarrow> string \<Rightarrow> error + tax_region list" where
  "regionChainOf repo regionID =
    (case repo_GetTaxRegion repo regionID of
      Inl e \<Rightarrow> Inl e
    | Inr region \<Rightarrow>
        repo_ResolveTaxRegions repo (rg_CountryCode region)
          (case rg_ProvinceCode region of None \<Rightarrow> [] | Some p \<Rightarrow> p))"

definition assertExclusiveRegion :: "tax_repo \<Rightarrow> string \<Rightarrow> error option" where
  "assertExclusiveRegion repo regionID =
    (case regionChainOf repo regionID of
      Inl e \<Rightarrow> Some e
    | Inr chain \<Rightarrow> if pricesIncludeTax chain then Some (Conflict CodeStackNotAllowed) else None)"

text \<open>A map built by assigning in the order of the rows: the last row of an id wins.\<close>

definition lookup_rate :: "tax_rate list \<Rightarrow> string \<Rightarrow> tax_rate option" where
  "lookup_rate rates eid = find (\<lambda>r. ra_ID r = eid) (rev rates)"

definition stands_on :: "tax_rate list \<Rightarrow> string \<Rightarrow> bool" where
  "stands_on rates eid = list_ex (\<lambda>r. ra_StacksOnID r = Some eid) rates"

lemma lookup_rate_Some: "lookup_rate rates eid = Some r \<Longrightarrow> r \<in> set rates \<and> ra_ID r = eid"
  by (auto simp: lookup_rate_def find_Some_iff) (metis nth_mem set_rev length_rev)

function down_walk ::
    "tax_rate list \<Rightarrow> tax_rate \<Rightarrow> string list \<Rightarrow> tax_rate list \<Rightarrow> error + tax_rate list" where
  "down_walk rates current seen chain =
    (if ra_ID current \<in> set seen then Inl (Conflict CodeStackNotAllowed)
     else
       (let seen' = ra_ID current # seen; chain' = chain @ [current] in
        case ra_StacksOnID current of
          None \<Rightarrow> Inr chain'
        | Some below_id \<Rightarrow>
            (case lookup_rate rates below_id of
              None \<Rightarrow> Inl (Conflict CodeStackNotAllowed)
            | Some below \<Rightarrow> down_walk rates below seen' chain')))"
  by pat_completeness auto
termination
proof (relation "measure (\<lambda>(rates, current, seen, chain).
    card (insert (ra_ID current) (ra_ID ` set rates) - set seen))", simp, goal_cases)
  case (1 rates current seen chain seen' chain' below_id below)
  from lookup_rate_Some [OF 1(5)] have "ra_ID below \<in> ra_ID ` set rates" by auto
  then have "insert (ra_ID below) (ra_ID ` set rates) - set seen' \<subset>
      insert (ra_ID current) (ra_ID ` set rates) - set seen"
    using 1(1,2) by auto
  then show ?case by (auto intro!: psubset_card_mono)
qed

declare down_walk.simps [simp del]

definition assertStackable ::
    "tax_repo \<Rightarrow> string \<Rightarrow> string \<Rightarrow> bool \<Rightarrow> int \<Rightarrow> bool \<Rightarrow> string \<Rightarrow> error option" where
  "assertStackable repo regionID stacksOnID isDefault rateBps compound selfID =
    (if stacksOnID = [] then (if compound then Some (Invalid CodeStackNotAllowed) else None)
     else if isDefault then Some (Invalid CodeStackNotAllowed)
     else
       (case repo_ListTaxRates repo regionID of
         Inl e \<Rightarrow> Some e
       | Inr all \<Rightarrow>
           (let rates = filter (\<lambda>r. ra_ID r \<noteq> selfID) all in
            case lookup_rate rates stacksOnID of
              None \<Rightarrow> Some (Invalid CodeStackNotAllowed)
            | Some base \<Rightarrow>
                if stands_on rates stacksOnID then Some (Conflict CodeStackNotAllowed)
                else
                  (case assertExclusiveRegion repo regionID of
                    Some e \<Rightarrow> Some e
                  | None \<Rightarrow>
                      (case down_walk rates base [] [] of
                        Inl e \<Rightarrow> Some e
                      | Inr walked \<Rightarrow>
                          (let chain = rev walked @ [\<lparr> ra_ID = [], ra_TaxRegionID = [], ra_RateBps = rateBps,
                                 ra_IsDefault = False, ra_StacksOnID = None, ra_Compound = compound \<rparr>] in
                           if length chain > maxStackDepth then Some (Conflict CodeStackNotAllowed)
                           else assertStackWithinBase chain))))))"

function find_base :: "tax_rate list \<Rightarrow> tax_rate \<Rightarrow> string list \<Rightarrow> tax_rate" where
  "find_base rates base seen =
    (case ra_StacksOnID base of
      None \<Rightarrow> base
    | Some below_id \<Rightarrow>
        if ra_ID base \<in> set seen then base
        else
          (case lookup_rate rates below_id of
            None \<Rightarrow> base
          | Some below \<Rightarrow> find_base rates below (ra_ID base # seen)))"
  by pat_completeness auto
termination
proof (relation "measure (\<lambda>(rates, current, seen).
    card (insert (ra_ID current) (ra_ID ` set rates) - set seen))", simp, goal_cases)
  case (1 rates current seen below_id below)
  from lookup_rate_Some [OF 1(3)] have "ra_ID below \<in> ra_ID ` set rates" by auto
  then have "insert (ra_ID below) (ra_ID ` set rates) - set (ra_ID current # seen) \<subset>
      insert (ra_ID current) (ra_ID ` set rates) - set seen"
    using 1(2) by auto
  then show ?case by (auto intro!: psubset_card_mono)
qed

declare find_base.simps [simp del]

text \<open>\<open>Inr []\<close> is the code's \<open>nil\<close> stack for an absent rate.\<close>

definition stackHolding :: "tax_rate list \<Rightarrow> string \<Rightarrow> int \<Rightarrow> error + tax_rate list" where
  "stackHolding rates rateID rateBps =
    (let amended = map (\<lambda>r. if ra_ID r = rateID then r\<lparr> ra_RateBps := rateBps \<rparr> else r) rates in
     case lookup_rate amended rateID of
       None \<Rightarrow> Inr []
     | Some base \<Rightarrow> stackFrom (newRateTable [] amended []) (find_base amended base []))"

definition assertValueWithinStack :: "tax_repo \<Rightarrow> string \<Rightarrow> int \<Rightarrow> error option" where
  "assertValueWithinStack repo rateID rateBps =
    (case repo_GetTaxRate repo rateID of
      Inl e \<Rightarrow> Some e
    | Inr rate \<Rightarrow>
        (case repo_LockTaxRegionForWrite repo (ra_TaxRegionID rate) of
          Some e \<Rightarrow> Some e
        | None \<Rightarrow>
            (case repo_ListTaxRates repo (ra_TaxRegionID rate) of
              Inl e \<Rightarrow> Some e
            | Inr rates \<Rightarrow>
                (case stackHolding rates rateID rateBps of
                  Inl e \<Rightarrow> Some e
                | Inr stack \<Rightarrow> if length stack < 2 then None else assertStackWithinBase stack))))"

definition assertNotStacked :: "tax_repo \<Rightarrow> string \<Rightarrow> error option" where
  "assertNotStacked repo rateID =
    (case repo_GetTaxRate repo rateID of
      Inl e \<Rightarrow> Some e
    | Inr rate \<Rightarrow> if ra_StacksOnID rate \<noteq> None then Some (Conflict CodeStackNotAllowed) else None)"

definition assertNoStackedRate :: "tax_repo \<Rightarrow> string \<Rightarrow> bool option \<Rightarrow> error option" where
  "assertNoStackedRate repo parentID includes =
    (if includes \<noteq> Some True then None
     else
       (case repo_GetTaxRegion repo parentID of
         Inl e \<Rightarrow> Some e
       | Inr parent \<Rightarrow>
           (case repo_ListTaxRates repo (rg_ID parent) of
             Inl e \<Rightarrow> Some e
           | Inr rates \<Rightarrow>
               if list_ex (\<lambda>r. ra_StacksOnID r \<noteq> None) rates
               then Some (Conflict CodeStackNotAllowed) else None)))"

end
