(* ===== verification/TaxRates.thy ===== *)
theory TaxRates
  imports TaxLocal
begin

text \<open>
  What the local provider's rate selection and stacks guarantee: the table is a function of the
  set of rows, the selected rate is the most specific one of the first region that has any, and a
  stack accepted when it was written never takes more than the line.
\<close>

section \<open>The table as a function of the rows\<close>

definition ruled_in :: "tax_rate list \<Rightarrow> string \<Rightarrow> tax_rate list" where
  "ruled_in rates R =
    filter (\<lambda>r. ra_StacksOnID r = None \<and> \<not> ra_IsDefault r \<and> ra_TaxRegionID r = R) rates"

definition defaults_in :: "tax_rate list \<Rightarrow> string \<Rightarrow> tax_rate list" where
  "defaults_in rates R =
    filter (\<lambda>r. ra_StacksOnID r = None \<and> ra_IsDefault r \<and> ra_TaxRegionID r = R) rates"

definition with_rules :: "tax_rate_rule list \<Rightarrow> tax_rate \<Rightarrow> ruled_rate" where
  "with_rules rules r = \<lparr> rr_rate = r, rr_rules = filter (\<lambda>u. ru_TaxRateID u = ra_ID r) rules \<rparr>"

definition smallest :: "tax_rate list \<Rightarrow> tax_rate option \<Rightarrow> tax_rate option" where
  "smallest rs acc = fold (\<lambda>r acc. Some (keep_smaller r acc)) rs acc"

lemma fold_add_rate:
  "t_chain (fold (add_rate rules) rates t) = t_chain t"
  "t_ruled (fold (add_rate rules) rates t) R = t_ruled t R @ map (with_rules rules) (ruled_in rates R)"
  "t_fallback (fold (add_rate rules) rates t) R = smallest (defaults_in rates R) (t_fallback t R)"
  "t_standing (fold (add_rate rules) rates t) b =
    smallest (filter (\<lambda>r. ra_StacksOnID r = Some b) rates) (t_standing t b)"
  by (induction rates arbitrary: t)
    (auto simp: add_rate_def Let_def ruled_in_def defaults_in_def with_rules_def smallest_def
      split: option.splits)

lemma newRateTable_fields:
  "t_chain (newRateTable chain rates rules) = chain"
  "t_ruled (newRateTable chain rates rules) R =
    sort_key (\<lambda>rr. ra_ID (rr_rate rr)) (map (with_rules rules) (ruled_in rates R))"
  "t_fallback (newRateTable chain rates rules) R = smallest (defaults_in rates R) None"
  "t_standing (newRateTable chain rates rules) b =
    smallest (filter (\<lambda>r. ra_StacksOnID r = Some b) rates) None"
  by (simp_all add: newRateTable_def Let_def fold_add_rate)

lemma smallest_Some: "\<exists>m. smallest rs (Some a) = Some m \<and> (m = a \<or> m \<in> set rs) \<and>
    ra_ID m \<le> ra_ID a \<and> (\<forall>r \<in> set rs. ra_ID m \<le> ra_ID r)"
proof (induction rs arbitrary: a)
  case Nil
  then show ?case by (simp add: smallest_def)
next
  case (Cons r rs)
  from Cons.IH [of "if ra_ID r < ra_ID a then r else a"] obtain m where
    m: "smallest rs (Some (if ra_ID r < ra_ID a then r else a)) = Some m"
      "m = (if ra_ID r < ra_ID a then r else a) \<or> m \<in> set rs"
      "ra_ID m \<le> ra_ID (if ra_ID r < ra_ID a then r else a)" "\<forall>x \<in> set rs. ra_ID m \<le> ra_ID x" by blast
  have "smallest (r # rs) (Some a) = Some m" using m(1) by (simp add: smallest_def keep_smaller_def)
  with m(2-4) show ?case by (auto split: if_splits)
qed

lemma smallest_None_iff: "smallest rs None = None \<longleftrightarrow> rs = []"
proof (cases rs)
  case (Cons r xs)
  then have "smallest rs None = smallest xs (Some r)" by (simp add: smallest_def keep_smaller_def)
  with smallest_Some [of xs r] Cons show ?thesis by auto
qed (simp add: smallest_def)

lemma smallest_iff:
  assumes "inj_on ra_ID (set rs)"
  shows "smallest rs None = Some m \<longleftrightarrow> m \<in> set rs \<and> (\<forall>r \<in> set rs. ra_ID m \<le> ra_ID r)"
proof (cases rs)
  case Nil
  then show ?thesis by (simp add: smallest_def)
next
  case (Cons r xs)
  then have "smallest rs None = smallest xs (Some r)" by (simp add: smallest_def keep_smaller_def)
  with smallest_Some [of xs r] Cons obtain x where
    x: "smallest rs None = Some x" "x \<in> set rs" "\<forall>r \<in> set rs. ra_ID x \<le> ra_ID r" by auto
  then show ?thesis
    using assms by (metis dual_order.antisym inj_onD option.inject)
qed

section \<open>Specificity\<close>

definition degree :: "match_key list \<Rightarrow> tax_rate_rule list \<Rightarrow> nat" where
  "degree keys rules = Max (insert 0 (Specificity ` ru_Reference `
     {u \<in> set rules. (ru_Reference u, ru_ReferenceID u) \<in> set keys}))"

lemma degree_Cons:
  "degree keys (u # us) = max (if (ru_Reference u, ru_ReferenceID u) \<in> set keys
     then Specificity (ru_Reference u) else 0) (degree keys us)"
proof -
  let ?K = "\<lambda>us. Specificity ` ru_Reference ` {u \<in> set us. (ru_Reference u, ru_ReferenceID u) \<in> set keys}"
  have K: "?K (u # us) = (if (ru_Reference u, ru_ReferenceID u) \<in> set keys
      then insert (Specificity (ru_Reference u)) (?K us) else ?K us)" by auto
  have "Max (insert 0 (insert x (?K us))) = max x (Max (insert 0 (?K us)))" for x
    by (subst insert_commute, rule Max_insert) simp_all
  then have "Max (insert 0 (?K (u # us))) = max (if (ru_Reference u, ru_ReferenceID u) \<in> set keys
      then Specificity (ru_Reference u) else 0) (Max (insert 0 (?K us)))"
    unfolding K by (cases "(ru_Reference u, ru_ReferenceID u) \<in> set keys") (simp_all only: if_True if_False max_0L)
  then show ?thesis by (simp only: degree_def)
qed

lemma matchSpecificity_degree: "matchSpecificity rules keys = degree keys rules"
proof -
  have inner: "fold (\<lambda>key best. if ru_Reference u \<noteq> fst key \<or> ru_ReferenceID u \<noteq> snd key then best
      else if Specificity (ru_Reference u) > best then Specificity (ru_Reference u) else best) keys b =
    max b (if (ru_Reference u, ru_ReferenceID u) \<in> set keys then Specificity (ru_Reference u) else 0)"
    for u b
    by (induction keys arbitrary: b) auto
  have "fold (\<lambda>u b. max b (if (ru_Reference u, ru_ReferenceID u) \<in> set keys
      then Specificity (ru_Reference u) else 0)) rules b = max b (degree keys rules)" for b
  proof (induction rules arbitrary: b)
    case Nil
    then show ?case by (simp add: degree_def)
  next
    case (Cons u rules)
    then show ?case by (simp add: degree_Cons max.assoc)
  qed
  then show ?thesis unfolding matchSpecificity_def inner by simp
qed

lemma degree_cong: "set rules = set rules' \<Longrightarrow> degree keys rules = degree keys rules'"
  by (simp add: degree_def)

lemma scan_ruled_spec:
  "(scan_ruled keys cs best b = best \<and> (\<forall>c \<in> set cs. degree keys (rr_rules c) \<le> b)) \<or>
   (\<exists>xs c ys. cs = xs @ c # ys \<and> scan_ruled keys cs best b = Some (rr_rate c) \<and>
     b < degree keys (rr_rules c) \<and>
     (\<forall>x \<in> set xs. degree keys (rr_rules x) < degree keys (rr_rules c)) \<and>
     (\<forall>y \<in> set ys. degree keys (rr_rules y) \<le> degree keys (rr_rules c)))"
proof (induction cs arbitrary: best b)
  case Nil
  then show ?case by simp
next
  case (Cons c cs)
  let ?d = "\<lambda>c. degree keys (rr_rules c)"
  show ?case
  proof (cases "?d c > b")
    case True
    then have step: "scan_ruled keys (c # cs) best b = scan_ruled keys cs (Some (rr_rate c)) (?d c)"
      by (simp add: matchSpecificity_degree)
    from Cons.IH [of "Some (rr_rate c)" "?d c"] show ?thesis
    proof
      assume "scan_ruled keys cs (Some (rr_rate c)) (?d c) = Some (rr_rate c) \<and> (\<forall>x \<in> set cs. ?d x \<le> ?d c)"
      with step True show ?thesis by (intro disjI2 exI [of _ "[]"] exI [of _ c] exI [of _ cs]) simp
    next
      assume "\<exists>xs d ys. cs = xs @ d # ys \<and> scan_ruled keys cs (Some (rr_rate c)) (?d c) = Some (rr_rate d) \<and>
        ?d c < ?d d \<and> (\<forall>x \<in> set xs. ?d x < ?d d) \<and> (\<forall>y \<in> set ys. ?d y \<le> ?d d)"
      then obtain xs d ys where "cs = xs @ d # ys" "scan_ruled keys cs (Some (rr_rate c)) (?d c) = Some (rr_rate d)"
        "?d c < ?d d" "\<forall>x \<in> set xs. ?d x < ?d d" "\<forall>y \<in> set ys. ?d y \<le> ?d d" by blast
      with step True show ?thesis
        by (intro disjI2 exI [of _ "c # xs"] exI [of _ d] exI [of _ ys]) simp
    qed
  next
    case False
    then have step: "scan_ruled keys (c # cs) best b = scan_ruled keys cs best b"
      by (simp add: matchSpecificity_degree)
    from Cons.IH [of best b] show ?thesis
    proof
      assume "scan_ruled keys cs best b = best \<and> (\<forall>c \<in> set cs. ?d c \<le> b)"
      with step False show ?thesis by simp
    next
      assume "\<exists>xs d ys. cs = xs @ d # ys \<and> scan_ruled keys cs best b = Some (rr_rate d) \<and>
        b < ?d d \<and> (\<forall>x \<in> set xs. ?d x < ?d d) \<and> (\<forall>y \<in> set ys. ?d y \<le> ?d d)"
      then obtain xs d ys where "cs = xs @ d # ys" "scan_ruled keys cs best b = Some (rr_rate d)"
        "b < ?d d" "\<forall>x \<in> set xs. ?d x < ?d d" "\<forall>y \<in> set ys. ?d y \<le> ?d d" by blast
      with step False show ?thesis
        by (intro disjI2 exI [of _ "c # xs"] exI [of _ d] exI [of _ ys]) simp
    qed
  qed
qed

section \<open>The selected rate\<close>

text \<open>What the documentation promises of one region: the most specific matching rate, the smaller id
  on a tie, and the default rate when nothing matches.\<close>

definition region_choice ::
    "tax_rate list \<Rightarrow> tax_rate_rule list \<Rightarrow> match_key list \<Rightarrow> string \<Rightarrow> tax_rate \<Rightarrow> bool" where
  "region_choice rates rules keys R r \<longleftrightarrow>
    (let deg = \<lambda>x. degree keys (filter (\<lambda>u. ru_TaxRateID u = ra_ID x) rules) in
     (r \<in> set (ruled_in rates R) \<and> 0 < deg r \<and>
       (\<forall>x \<in> set (ruled_in rates R). deg x < deg r \<or> (deg x = deg r \<and> ra_ID r \<le> ra_ID x))) \<or>
     ((\<forall>x \<in> set (ruled_in rates R). deg x = 0) \<and> r \<in> set (defaults_in rates R) \<and>
       (\<forall>x \<in> set (defaults_in rates R). ra_ID r \<le> ra_ID x)))"

lemma region_choice_unique:
  assumes "distinct (map ra_ID rates)" and "region_choice rates rules keys R r"
    and "region_choice rates rules keys R r'"
  shows "r = r'"
proof -
  have inj: "x = y" if "x \<in> set rates" "y \<in> set rates" "ra_ID x = ra_ID y" for x y
    using assms(1) that by (metis distinct_map inj_onD)
  have "r \<in> set rates" "r' \<in> set rates"
    using assms(2,3) by (auto simp: region_choice_def Let_def ruled_in_def defaults_in_def)
  moreover have "ra_ID r = ra_ID r'"
    using assms(2,3) unfolding region_choice_def Let_def
    by (metis antisym less_asym less_irrefl order_less_le)
  ultimately show ?thesis by (rule inj)
qed

lemma region_rate_choice:
  assumes ids: "distinct (map ra_ID rates)"
    and r: "region_rate (newRateTable chain rates rules) keys R = Some r"
  shows "region_choice rates rules keys R r"
proof -
  let ?deg = "\<lambda>x. degree keys (filter (\<lambda>u. ru_TaxRateID u = ra_ID x) rules)"
  define cs where "cs = sort_key (\<lambda>rr. ra_ID (rr_rate rr)) (map (with_rules rules) (ruled_in rates R))"
  have set_cs: "set cs = with_rules rules ` set (ruled_in rates R)" by (simp add: cs_def)
  have deg: "degree keys (rr_rules c) = ?deg (rr_rate c)" if "c \<in> set cs" for c
    using that by (auto simp: set_cs with_rules_def)
  have sorted: "sorted (map (\<lambda>rr. ra_ID (rr_rate rr)) cs)" unfolding cs_def by (rule sorted_sort_key)
  have res: "region_rate (newRateTable chain rates rules) keys R =
      (case scan_ruled keys cs None 0 of Some b \<Rightarrow> Some b | None \<Rightarrow> smallest (defaults_in rates R) None)"
    unfolding region_rate_def newRateTable_fields cs_def ..
  from scan_ruled_spec [of keys cs None 0] show ?thesis
  proof
    assume none: "scan_ruled keys cs None 0 = None \<and> (\<forall>c \<in> set cs. degree keys (rr_rules c) \<le> 0)"
    then have "smallest (defaults_in rates R) None = Some r" using r res by simp
    moreover have "inj_on ra_ID (set (defaults_in rates R))"
      using ids by (auto simp: distinct_map defaults_in_def intro: inj_on_subset)
    ultimately have "r \<in> set (defaults_in rates R)" "\<forall>x \<in> set (defaults_in rates R). ra_ID r \<le> ra_ID x"
      by (simp_all add: smallest_iff)
    moreover have "\<forall>x \<in> set (ruled_in rates R). ?deg x = 0"
      using none by (auto simp: set_cs with_rules_def)
    ultimately show ?thesis by (simp add: region_choice_def)
  next
    assume "\<exists>xs c ys. cs = xs @ c # ys \<and> scan_ruled keys cs None 0 = Some (rr_rate c) \<and>
      0 < degree keys (rr_rules c) \<and>
      (\<forall>x \<in> set xs. degree keys (rr_rules x) < degree keys (rr_rules c)) \<and>
      (\<forall>y \<in> set ys. degree keys (rr_rules y) \<le> degree keys (rr_rules c))"
    then obtain xs c ys where c: "cs = xs @ c # ys" "scan_ruled keys cs None 0 = Some (rr_rate c)"
      "0 < degree keys (rr_rules c)"
      "\<forall>x \<in> set xs. degree keys (rr_rules x) < degree keys (rr_rules c)"
      "\<forall>y \<in> set ys. degree keys (rr_rules y) \<le> degree keys (rr_rules c)" by blast
    then have rc: "r = rr_rate c" using r res by simp
    have "?deg x < ?deg r \<or> (?deg x = ?deg r \<and> ra_ID r \<le> ra_ID x)" if "x \<in> set (ruled_in rates R)" for x
    proof -
      from that have x: "with_rules rules x \<in> set cs" by (simp add: set_cs)
      then consider "with_rules rules x \<in> set xs" | "with_rules rules x = c" | "with_rules rules x \<in> set ys"
        by (auto simp: c(1))
      then show ?thesis
      proof cases
        case 1
        with c(1,4) rc show ?thesis using deg by (auto simp: with_rules_def)
      next
        case 2
        with rc show ?thesis by (auto simp: with_rules_def)
      next
        case 3
        have "ra_ID (rr_rate c) \<le> ra_ID (rr_rate (with_rules rules x))"
          using sorted 3 unfolding c(1) by (auto simp: sorted_append)
        with c(1,5) rc 3 show ?thesis using deg by (force simp: with_rules_def)
      qed
    qed
    moreover have "c \<in> set cs" by (simp add: c(1))
    then have "r \<in> set (ruled_in rates R)" unfolding set_cs rc by (auto simp: with_rules_def)
    moreover have "0 < ?deg r" using c(3) deg [OF \<open>c \<in> set cs\<close>] rc by simp
    ultimately show ?thesis by (simp add: region_choice_def)
  qed
qed

lemma region_rate_None:
  assumes "region_rate (newRateTable chain rates rules) keys R = None"
  shows "\<not> region_choice rates rules keys R r"
proof -
  define cs where "cs = sort_key (\<lambda>rr. ra_ID (rr_rate rr)) (map (with_rules rules) (ruled_in rates R))"
  have set_cs: "set cs = with_rules rules ` set (ruled_in rates R)" by (simp add: cs_def)
  have none: "scan_ruled keys cs None 0 = None" "smallest (defaults_in rates R) None = None"
    using assms by (auto simp: region_rate_def newRateTable_fields cs_def split: option.splits)
  from scan_ruled_spec [of keys cs None 0] none(1) have "\<forall>c \<in> set cs. degree keys (rr_rules c) = 0" by auto
  with none(2) show ?thesis
    by (auto simp: region_choice_def Let_def set_cs with_rules_def smallest_None_iff)
qed

lemma region_rate_iff:
  assumes "distinct (map ra_ID rates)"
  shows "region_rate (newRateTable chain rates rules) keys R = Some r \<longleftrightarrow>
    region_choice rates rules keys R r"
  using assms region_rate_choice region_rate_None region_choice_unique by (metis option.exhaust)

lemma select_in_iff:
  "select_in t keys regions = Some r \<longleftrightarrow>
    (\<exists>pre R post. regions = pre @ R # post \<and> (\<forall>Q \<in> set pre. region_rate t keys Q = None) \<and>
      region_rate t keys R = Some r)"
proof (induction regions)
  case Nil
  then show ?case by simp
next
  case (Cons R regions)
  show ?case
  proof (cases "region_rate t keys R")
    case None
    have "(\<exists>pre Q post. R # regions = pre @ Q # post \<and> (\<forall>P \<in> set pre. region_rate t keys P = None) \<and>
        region_rate t keys Q = Some r) \<longleftrightarrow>
      (\<exists>pre Q post. regions = pre @ Q # post \<and> (\<forall>P \<in> set pre. region_rate t keys P = None) \<and>
        region_rate t keys Q = Some r)" (is "?l \<longleftrightarrow> ?r")
    proof
      assume ?l
      then show ?r using None by (auto simp: Cons_eq_append_conv) blast
    next
      assume ?r
      then obtain pre Q post where "regions = pre @ Q # post" "\<forall>P \<in> set pre. region_rate t keys P = None"
        "region_rate t keys Q = Some r" by blast
      with None show ?l by (intro exI [of _ "R # pre"] exI [of _ Q] exI [of _ post]) simp
    qed
    with None Cons.IH show ?thesis by simp
  next
    case (Some x)
    show ?thesis
    proof
      assume "select_in t keys (R # regions) = Some r"
      with Some show "\<exists>pre Q post. R # regions = pre @ Q # post \<and>
          (\<forall>P \<in> set pre. region_rate t keys P = None) \<and> region_rate t keys Q = Some r"
        by (intro exI [of _ "[]"] exI [of _ R] exI [of _ regions]) auto
    qed (use Some in \<open>auto simp: Cons_eq_append_conv\<close>)
  qed
qed

text \<open>C27: the rate of a line is decided by the data, not by row order. The selected rate is the
  choice of the first region of the chain, from the most specific to the general, that has one:
  there, the matching rate of highest specificity and, among equals, of smallest id, or the
  region's default when no rule matches. No rate is selected exactly when no region has a choice.\<close>

theorem selectRate_choice:
  assumes "distinct (map ra_ID rates)"
  shows "selectRate (newRateTable chain rates rules) keys = Some r \<longleftrightarrow>
    (\<exists>pre R post. chain = pre @ R # post \<and>
      (\<forall>Q \<in> set pre. \<forall>x. \<not> region_choice rates rules keys Q x) \<and> region_choice rates rules keys R r)"
proof -
  have "region_rate (newRateTable chain rates rules) keys Q = None \<longleftrightarrow>
      (\<forall>x. \<not> region_choice rates rules keys Q x)" for Q
    using region_rate_iff [OF assms] by (metis not_None_eq)
  then show ?thesis
    by (simp add: selectRate_def newRateTable_fields(1) select_in_iff region_rate_iff [OF assms])
qed

definition ex_rate :: "string \<Rightarrow> string \<Rightarrow> int \<Rightarrow> bool \<Rightarrow> string option \<Rightarrow> bool \<Rightarrow> tax_rate" where
  "ex_rate i R bps d on c = \<lparr> ra_ID = i, ra_TaxRegionID = R, ra_RateBps = bps, ra_IsDefault = d,
     ra_StacksOnID = on, ra_Compound = c \<rparr>"

definition ex_rates :: "tax_rate list" where
  "ex_rates = [ex_rate ''r2'' ''TR'' 1000 False None False, ex_rate ''r1'' ''TR'' 2000 True None False,
     ex_rate ''r3'' ''TR'' 100 False None False, ex_rate ''r4'' ''TR'' 800 False (Some ''r1'') True]"

definition ex_rules :: "tax_rate_rule list" where
  "ex_rules = [\<lparr> ru_TaxRateID = ''r3'', ru_Reference = ReferenceProduct, ru_ReferenceID = ''p'' \<rparr>,
     \<lparr> ru_TaxRateID = ''r2'', ru_Reference = ReferenceProductType, ru_ReferenceID = ''book'' \<rparr>]"

theorem selectRate_choice_witness:
  "selectRate (newRateTable [''TR-34'', ''TR''] ex_rates ex_rules)
     [(ReferenceProduct, ''p''), (ReferenceProductType, ''book'')] = Some (ex_rate ''r3'' ''TR'' 100 False None False) \<and>
   (\<exists>pre R post. [''TR-34'', ''TR''] = pre @ R # post \<and>
      (\<forall>Q \<in> set pre. \<forall>x. \<not> region_choice ex_rates ex_rules
        [(ReferenceProduct, ''p''), (ReferenceProductType, ''book'')] Q x) \<and>
      region_choice ex_rates ex_rules [(ReferenceProduct, ''p''), (ReferenceProductType, ''book'')] R
        (ex_rate ''r3'' ''TR'' 100 False None False))"
proof -
  have "distinct (map ra_ID ex_rates)" by code_simp
  moreover have "selectRate (newRateTable [''TR-34'', ''TR''] ex_rates ex_rules)
     [(ReferenceProduct, ''p''), (ReferenceProductType, ''book'')] = Some (ex_rate ''r3'' ''TR'' 100 False None False)"
    by code_simp
  ultimately show ?thesis using selectRate_choice by blast
qed

section \<open>Stacks\<close>

definition chain_ok :: "tax_rate list \<Rightarrow> bool" where
  "chain_ok chain \<longleftrightarrow> length chain \<le> maxStackDepth \<and> (\<forall>r \<in> set chain. rate_ok (ra_RateBps r))"

text \<open>The ceiling computation on the notional base, without wrap-around.\<close>

definition ceil_component :: "int \<Rightarrow> tax_rate \<Rightarrow> int" where
  "ceil_component taken r =
    ((if ra_Compound r then notionalBase + taken else notionalBase) * ra_RateBps r + BpsScale - 1) div BpsScale"

fun ceil_taken :: "int \<Rightarrow> tax_rate list \<Rightarrow> int" where
  "ceil_taken taken [] = taken"
| "ceil_taken taken (r # rs) = ceil_taken (taken + ceil_component taken r) rs"

lemma ceil_component_bounds:
  assumes "0 \<le> taken" and "rate_ok (ra_RateBps r)"
  shows "0 \<le> ceil_component taken r" "ceil_component taken r \<le> notionalBase + taken"
    and "(if ra_Compound r then notionalBase + taken else notionalBase) * ra_RateBps r \<le>
      ceil_component taken r * BpsScale"
proof -
  define b where "b = (if ra_Compound r then notionalBase + taken else notionalBase)"
  define x where "x = b * ra_RateBps r"
  have b: "0 \<le> b" "b \<le> notionalBase + taken" using assms(1) by (auto simp: b_def notionalBase_def)
  have r: "0 \<le> ra_RateBps r" "ra_RateBps r \<le> 10000" using assms(2) by (auto simp: rate_ok_def tax_bounds)
  have x: "0 \<le> x" "x \<le> b * 10000" using b r by (simp_all add: x_def mult_left_mono)
  have c: "ceil_component taken r = (x + 9999) div 10000"
    by (simp add: ceil_component_def b_def x_def BpsScale_def)
  show "0 \<le> ceil_component taken r" using x unfolding c by simp
  have "(x + 9999) div 10000 \<le> (b * 10000 + 9999) div 10000" using x by (intro zdiv_mono1) auto
  then show "ceil_component taken r \<le> notionalBase + taken" using b unfolding c by simp
  have "x \<le> (x + 9999) div 10000 * 10000" by linarith
  then show "(if ra_Compound r then notionalBase + taken else notionalBase) * ra_RateBps r \<le>
      ceil_component taken r * BpsScale"
    unfolding c by (simp add: x_def b_def BpsScale_def)
qed

lemma stack_component_eq:
  assumes "0 \<le> taken" "taken \<le> 15 * notionalBase" "rate_ok (ra_RateBps r)"
  shows "stack_component taken r = ceil_component taken r"
proof -
  define b where "b = (if ra_Compound r then notionalBase + taken else notionalBase)"
  have b: "0 \<le> b" "b \<le> 16 * notionalBase" using assms(1,2) by (auto simp: b_def notionalBase_def)
  have r: "0 \<le> ra_RateBps r" "ra_RateBps r \<le> 10000" using assms(3) by (auto simp: rate_ok_def tax_bounds)
  have x: "0 \<le> b * ra_RateBps r" "b * ra_RateBps r \<le> 16 * notionalBase * 10000"
    using b r by (simp, intro mult_mono) (auto simp: notionalBase_def)
  have "add64 notionalBase taken = notionalBase + taken"
    by (rule add64_id, rule is_i64_between [where b = "16 * notionalBase"])
      (use assms(1,2) in \<open>auto simp: notionalBase_def MaxInt64_def\<close>)
  moreover have "mul64 b (ra_RateBps r) = b * ra_RateBps r"
    by (rule mul64_id, rule is_i64_between [OF x]) (simp add: notionalBase_def MaxInt64_def)
  moreover have "add64 (b * ra_RateBps r) BpsScale = b * ra_RateBps r + BpsScale"
    by (rule add64_id, rule is_i64_between [where b = "16 * notionalBase * 10000 + 10000"])
      (use x in \<open>auto simp: notionalBase_def BpsScale_def MaxInt64_def\<close>)
  moreover have "sub64 (b * ra_RateBps r + BpsScale) 1 = b * ra_RateBps r + BpsScale - 1"
    by (rule sub64_id, rule is_i64_between [where b = "16 * notionalBase * 10000 + 10000"])
      (use x in \<open>auto simp: notionalBase_def BpsScale_def MaxInt64_def\<close>)
  moreover have "quot64 (b * ra_RateBps r + BpsScale - 1) BpsScale = (b * ra_RateBps r + BpsScale - 1) div BpsScale"
    by (rule quot64_id) (use x in \<open>auto simp: notionalBase_def BpsScale_def MaxInt64_def\<close>)
  ultimately show ?thesis
    by (auto simp: stack_component_def ceil_component_def b_def)
qed

lemma ceil_taken_mono:
  assumes "0 \<le> taken" and "\<forall>r \<in> set chain. rate_ok (ra_RateBps r)"
  shows "taken \<le> ceil_taken taken chain"
  using assms
proof (induction chain arbitrary: taken)
  case (Cons r chain)
  then have "0 \<le> ceil_component taken r" by (intro ceil_component_bounds) auto
  with Cons.IH [of "taken + ceil_component taken r"] Cons.prems show ?case by simp
qed simp

lemma stack_taken_fold:
  assumes "0 \<le> taken" "taken \<le> (2 ^ k - 1) * notionalBase" "k + length chain \<le> 4"
    and "\<forall>r \<in> set chain. rate_ok (ra_RateBps r)"
  shows "fold (\<lambda>r taken. add64 taken (stack_component taken r)) chain taken = ceil_taken taken chain"
  using assms
proof (induction chain arbitrary: taken k)
  case Nil
  then show ?case by simp
next
  case (Cons r chain)
  have k: "k \<le> 3" using Cons.prems(3) by simp
  then have "(2 ^ k :: int) \<le> 2 ^ 3" by (intro power_increasing) auto
  then have t: "taken \<le> 7 * notionalBase" using Cons.prems(2) by (simp add: notionalBase_def)
  have r: "rate_ok (ra_RateBps r)" using Cons.prems(4) by simp
  note cb = ceil_component_bounds [OF Cons.prems(1) r]
  have "stack_component taken r = ceil_component taken r"
    using t by (intro stack_component_eq [OF Cons.prems(1) _ r]) (simp add: notionalBase_def)
  moreover have "add64 taken (ceil_component taken r) = taken + ceil_component taken r"
    by (rule add64_id, rule is_i64_between [where b = "15 * notionalBase"])
      (use cb(1,2) t Cons.prems(1) in \<open>auto simp: notionalBase_def MaxInt64_def\<close>)
  moreover have "fold (\<lambda>r taken. add64 taken (stack_component taken r)) chain (taken + ceil_component taken r) =
      ceil_taken (taken + ceil_component taken r) chain"
  proof (rule Cons.IH [of _ "Suc k"])
    show "taken + ceil_component taken r \<le> (2 ^ Suc k - 1) * notionalBase"
      using cb(2) Cons.prems(2) by (simp add: algebra_simps)
  qed (use Cons.prems cb(1) in auto)
  ultimately show ?case by simp
qed

lemma stack_taken_eq: "chain_ok chain \<Longrightarrow> stack_taken chain = ceil_taken 0 chain"
  unfolding stack_taken_def chain_ok_def
  by (rule stack_taken_fold [of 0 0]) (auto simp: maxStackDepth_def)

text \<open>The floored taxes of a line never overtake the ceilings of the notional base, in proportion.\<close>

lemma TaxOf_Inr:
  "TaxOf base r = Inr tax \<Longrightarrow> taxable base \<and> rate_ok r \<and> tax = base * r div BpsScale"
proof -
  assume t: "TaxOf base r = Inr tax"
  then have "taxable base \<and> rate_ok r"
    by (auto simp: TaxOf_def taxable_def rate_ok_def split: if_splits)
  with TaxOf_eq [of base r] t show ?thesis by simp
qed

definition component_of :: "int64 \<Rightarrow> int64 \<Rightarrow> tax_rate \<Rightarrow> tax_component" where
  "component_of amount totl r =
    (let base = (if ra_Compound r then amount + totl else amount) in
     \<lparr> tc_RateID = ra_ID r, tc_RateBps = ra_RateBps r, tc_Compound = ra_Compound r,
       tc_TaxableAmount = base, tc_TaxAmount = base * ra_RateBps r div BpsScale \<rparr>)"

lemma apply_stack_Cons:
  assumes "apply_stack amount (r # chain) totl comps = Inr res" and "totl \<le> MaxTaxableAmount"
  defines "c \<equiv> component_of amount totl r"
  shows "taxable (tc_TaxableAmount c)" "rate_ok (ra_RateBps r)" "0 \<le> totl" "0 \<le> tc_TaxAmount c"
    "tc_TaxAmount c \<le> tc_TaxableAmount c" "totl + tc_TaxAmount c \<le> MaxTaxableAmount"
    "apply_stack amount chain (totl + tc_TaxAmount c) (comps @ [c]) = Inr res"
proof -
  have big: "MaxTaxableAmount \<le> MaxInt64" by (simp add: MaxTaxableAmount_def MaxInt64_def)
  obtain base tax totl1 where
    b: "(if ra_Compound r then addAmount amount totl else Inr amount) = Inr base"
    and tx: "TaxOf base (ra_RateBps r) = Inr tax" and add: "addAmount totl tax = Inr totl1"
    and rest: "apply_stack amount chain totl1 (comps @ [\<lparr> tc_RateID = ra_ID r, tc_RateBps = ra_RateBps r,
        tc_Compound = ra_Compound r, tc_TaxableAmount = base, tc_TaxAmount = tax \<rparr>]) = Inr res"
    using assms(1) by (auto split: sum.splits)
  note t = TaxOf_Inr [OF tx]
  have base: "base = (if ra_Compound r then amount + totl else amount)"
    using b addAmount_Inr [of totl amount base] assms(2) big by (auto split: if_splits)
  have "tax \<le> base" "0 \<le> tax" using t tax_le by blast+
  moreover have "base \<le> MaxInt64" using t big by (simp add: taxable_def)
  ultimately have add': "0 \<le> totl" "totl + tax \<le> MaxTaxableAmount" "totl1 = totl + tax"
    using add addAmount_Inr [of tax totl totl1] by auto
  have c: "c = \<lparr> tc_RateID = ra_ID r, tc_RateBps = ra_RateBps r, tc_Compound = ra_Compound r,
       tc_TaxableAmount = base, tc_TaxAmount = tax \<rparr>"
    using t base by (simp add: c_def component_of_def Let_def)
  show "taxable (tc_TaxableAmount c)" "rate_ok (ra_RateBps r)" "0 \<le> totl" "0 \<le> tc_TaxAmount c"
    "tc_TaxAmount c \<le> tc_TaxableAmount c" "totl + tc_TaxAmount c \<le> MaxTaxableAmount"
    "apply_stack amount chain (totl + tc_TaxAmount c) (comps @ [c]) = Inr res"
    using t add' rest \<open>tax \<le> base\<close> \<open>0 \<le> tax\<close> by (simp_all add: c)
qed

lemma component_share:
  assumes "0 \<le> amount" "rate_ok (ra_RateBps r)" "0 \<le> taken" "totl * notionalBase \<le> amount * taken"
  shows "tc_TaxAmount (component_of amount totl r) * notionalBase \<le> amount * ceil_component taken r"
proof -
  define base where "base = (if ra_Compound r then amount + totl else amount)"
  define B where "B = (if ra_Compound r then notionalBase + taken else notionalBase)"
  have bps: "0 \<le> ra_RateBps r" using assms(2) by (simp add: rate_ok_def tax_bounds)
  define tax where "tax = base * ra_RateBps r div BpsScale"
  have "base * notionalBase \<le> amount * B"
    using assms(4) by (auto simp: base_def B_def algebra_simps)
  then have "base * notionalBase * ra_RateBps r \<le> amount * B * ra_RateBps r"
    using bps by (rule mult_right_mono)
  moreover have "amount * (B * ra_RateBps r) \<le> amount * (ceil_component taken r * BpsScale)"
    using ceil_component_bounds(3) [OF assms(3,2)] assms(1) unfolding B_def by (rule mult_left_mono)
  moreover have "tax * BpsScale \<le> base * ra_RateBps r"
    unfolding tax_def using div_mult_mod_eq [of "base * ra_RateBps r" BpsScale]
    by (metis BpsScale_def add.commute le_add_same_cancel2 pos_mod_sign zero_less_numeral)
  then have "tax * BpsScale * notionalBase \<le> base * ra_RateBps r * notionalBase"
    by (rule mult_right_mono) (simp add: notionalBase_def)
  ultimately have "tax * notionalBase * BpsScale \<le> amount * ceil_component taken r * BpsScale"
    by (simp add: ac_simps)
  then have "tax * notionalBase \<le> amount * ceil_component taken r"
    by (simp add: BpsScale_def)
  then show ?thesis by (simp add: component_of_def Let_def tax_def base_def)
qed

lemma apply_stack_bound:
  assumes "0 \<le> amount" "totl \<le> MaxTaxableAmount" "0 \<le> taken" "totl * notionalBase \<le> amount * taken"
    and "\<forall>r \<in> set chain. rate_ok (ra_RateBps r)"
    and "apply_stack amount chain totl comps = Inr (totl', comps')"
  shows "totl' * notionalBase \<le> amount * ceil_taken taken chain"
  using assms
proof (induction chain arbitrary: totl taken comps)
  case Nil
  then show ?case by simp
next
  case (Cons r chain)
  let ?c = "component_of amount totl r"
  note st = apply_stack_Cons [OF Cons.prems(6,2)]
  have "(totl + tc_TaxAmount ?c) * notionalBase \<le> amount * (taken + ceil_component taken r)"
    using Cons.prems(4) component_share [OF assms(1) st(2) Cons.prems(3,4)] by (simp add: algebra_simps)
  moreover have "0 \<le> taken + ceil_component taken r"
    using ceil_component_bounds(1) [OF Cons.prems(3) st(2)] Cons.prems(3) by simp
  ultimately show ?case
    using Cons.IH [OF assms(1) st(6) _ _ _ st(7)] Cons.prems(5) by simp
qed

lemma apply_stack_components:
  assumes "totl \<le> MaxTaxableAmount" "apply_stack amount chain totl comps = Inr (totl', comps')"
  shows "\<exists>new. comps' = comps @ new \<and> length new = length chain \<and>
    totl' = totl + sum_list (map tc_TaxAmount new) \<and> totl' \<le> MaxTaxableAmount \<and>
    (\<forall>c \<in> set new. rate_ok (tc_RateBps c) \<and> 0 \<le> tc_TaxAmount c \<and> tc_TaxAmount c \<le> tc_TaxableAmount c) \<and>
    map tc_RateID new = map ra_ID chain"
  using assms
proof (induction chain arbitrary: totl comps)
  case Nil
  then show ?case by simp
next
  case (Cons r chain)
  let ?c = "component_of amount totl r"
  note st = apply_stack_Cons [OF Cons.prems(2,1)]
  from Cons.IH [OF st(6,7)] obtain new where new: "comps' = (comps @ [?c]) @ new"
    "length new = length chain" "totl' = totl + tc_TaxAmount ?c + sum_list (map tc_TaxAmount new)"
    "totl' \<le> MaxTaxableAmount"
    "\<forall>c \<in> set new. rate_ok (tc_RateBps c) \<and> 0 \<le> tc_TaxAmount c \<and> tc_TaxAmount c \<le> tc_TaxableAmount c"
    "map tc_RateID new = map ra_ID chain" by blast
  moreover have "tc_RateBps ?c = ra_RateBps r" "tc_RateID ?c = ra_ID r"
    by (simp_all add: component_of_def Let_def)
  ultimately show ?case
    using st(2,4,5) by (intro exI [of _ "?c # new"]) simp
qed

lemma stack_charge_within:
  assumes "chain_ok chain" and "assertStackWithinBase chain = None" and "taxable amount"
    and "apply_stack amount chain 0 [] = Inr (tax, comps)"
  shows "0 \<le> tax \<and> tax \<le> amount \<and> map tc_RateID comps = map ra_ID chain \<and>
    tax = sum_list (map tc_TaxAmount comps)"
proof -
  have amount: "0 \<le> amount" and z: "(0 :: int) \<le> MaxTaxableAmount"
    using assms(3) by (auto simp: taxable_def)
  have "ceil_taken 0 chain \<le> notionalBase"
    using assms(2) stack_taken_eq [OF assms(1)] by (auto simp: assertStackWithinBase_def split: if_splits)
  moreover have "tax * notionalBase \<le> amount * ceil_taken 0 chain"
    using assms(1) by (intro apply_stack_bound [OF amount z _ _ _ assms(4)]) (auto simp: chain_ok_def)
  ultimately have "tax * notionalBase \<le> amount * notionalBase"
    using amount by (meson mult_left_mono order_trans)
  then have "tax \<le> amount" by (simp add: notionalBase_def)
  moreover from apply_stack_components [OF z assms(4)] have
    "map tc_RateID comps = map ra_ID chain" "tax = sum_list (map tc_TaxAmount comps)"
    "\<forall>c \<in> set comps. 0 \<le> tc_TaxAmount c" by auto
  moreover from this(3) have "0 \<le> sum_list (map tc_TaxAmount comps)" by (intro sum_list_nonneg) auto
  ultimately show ?thesis by simp
qed

text \<open>C20: a stack that was accepted never takes more than the line. If the write-time check accepts
  a stack of at most four rates, each within the bounds, then on every amount the taxes the
  calculation charges for it - each floored on its own base, compound ones on the amount plus the
  taxes below - add up to at most the amount, and the components it lists, one per rate and in the
  stack's order, add up to exactly the tax charged.\<close>

theorem accepted_stack_within_line:
  assumes "chain_ok chain" and "assertStackWithinBase chain = None" and "taxable amount"
    and "apply_stack amount chain 0 [] = Inr (tax, comps)"
  shows "0 \<le> tax \<and> tax \<le> amount \<and> map tc_RateID comps = map ra_ID chain \<and>
    tax = sum_list (map tc_TaxAmount comps)"
  using stack_charge_within [OF assms] .

theorem accepted_stack_within_line_witness:
  "apply_stack 999 [ex_rate ''a'' ''R'' 500 False None False, ex_rate ''b'' ''R'' 900 False (Some ''a'') True] 0 [] =
     Inr (143, [\<lparr> tc_RateID = ''a'', tc_RateBps = 500, tc_Compound = False, tc_TaxableAmount = 999, tc_TaxAmount = 49 \<rparr>,
       \<lparr> tc_RateID = ''b'', tc_RateBps = 900, tc_Compound = True, tc_TaxableAmount = 1048, tc_TaxAmount = 94 \<rparr>]) \<and>
   (143 :: int) \<le> 999"
proof -
  let ?chain = "[ex_rate ''a'' ''R'' 500 False None False, ex_rate ''b'' ''R'' 900 False (Some ''a'') True]"
  let ?comps = "[\<lparr> tc_RateID = ''a'', tc_RateBps = 500, tc_Compound = False, tc_TaxableAmount = 999, tc_TaxAmount = 49 \<rparr>,
       \<lparr> tc_RateID = ''b'', tc_RateBps = 900, tc_Compound = True, tc_TaxableAmount = 1048, tc_TaxAmount = 94 \<rparr>]"
  have run: "apply_stack 999 ?chain 0 [] = Inr (143, ?comps)" by code_simp
  have "chain_ok ?chain" "assertStackWithinBase ?chain = None" "taxable 999" by code_simp+
  from accepted_stack_within_line [OF this run] run show ?thesis by simp
qed

section \<open>Joining a stack\<close>

text \<open>A walk down from a rate: each rate stands on the next one, the last stands on nothing, and no
  id is met twice.\<close>

definition walk_down :: "tax_rate list \<Rightarrow> tax_rate list \<Rightarrow> bool" where
  "walk_down rates walk \<longleftrightarrow> walk \<noteq> [] \<and> distinct (map ra_ID walk) \<and> set walk \<subseteq> set rates \<and>
    ra_StacksOnID (last walk) = None \<and>
    (\<forall>i. Suc i < length walk \<longrightarrow> ra_StacksOnID (walk ! i) = Some (ra_ID (walk ! Suc i)))"

lemma down_walk_spec:
  assumes "down_walk rates current seen chain = Inr walk" and "current \<in> set rates"
  shows "\<exists>ws. walk = chain @ current # ws \<and> distinct (map ra_ID (current # ws)) \<and>
    ra_ID ` set (current # ws) \<inter> set seen = {} \<and> set ws \<subseteq> set rates \<and>
    ra_StacksOnID (last (current # ws)) = None \<and>
    (\<forall>i. Suc i < length (current # ws) \<longrightarrow>
      ra_StacksOnID ((current # ws) ! i) = Some (ra_ID ((current # ws) ! Suc i)))"
  using assms
proof (induction rates current seen chain rule: down_walk.induct)
  case (1 rates current seen chain)
  have fresh: "ra_ID current \<notin> set seen"
    using "1.prems"(1) by (subst (asm) down_walk.simps) (auto split: if_splits)
  show ?case
  proof (cases "ra_StacksOnID current")
    case None
    with "1.prems"(1) fresh have "walk = chain @ [current]"
      by (subst (asm) down_walk.simps) simp
    with None fresh show ?thesis by (intro exI [of _ "[]"]) simp
  next
    case (Some b)
    obtain below where below: "lookup_rate rates b = Some below"
      and rest: "down_walk rates below (ra_ID current # seen) (chain @ [current]) = Inr walk"
      using "1.prems"(1) fresh Some
      by (subst (asm) down_walk.simps) (auto simp: Let_def split: option.splits)
    from lookup_rate_Some [OF below] have b: "below \<in> set rates" "ra_ID below = b" by auto
    from "1.IH" [OF fresh refl refl Some below rest b(1)] obtain ws where
      ws: "walk = (chain @ [current]) @ below # ws" "distinct (map ra_ID (below # ws))"
        "ra_ID ` set (below # ws) \<inter> set (ra_ID current # seen) = {}" "set ws \<subseteq> set rates"
        "ra_StacksOnID (last (below # ws)) = None"
        "\<forall>i. Suc i < length (below # ws) \<longrightarrow>
          ra_StacksOnID ((below # ws) ! i) = Some (ra_ID ((below # ws) ! Suc i))" by blast
    have links: "\<forall>i. Suc i < length (current # below # ws) \<longrightarrow>
        ra_StacksOnID ((current # below # ws) ! i) = Some (ra_ID ((current # below # ws) ! Suc i))"
    proof (intro allI impI)
      fix i
      assume "Suc i < length (current # below # ws)"
      then show "ra_StacksOnID ((current # below # ws) ! i) = Some (ra_ID ((current # below # ws) ! Suc i))"
        using ws(6) Some b(2) by (cases i) auto
    qed
    show ?thesis
      using ws(1-5) b(1) fresh links by (intro exI [of _ "below # ws"]) auto
  qed
qed

text \<open>A rate joins a stack only if the whole stack stays chargeable. When a rate that is to stand
  on another is accepted, the region's prices are tax-exclusive, the rate is not a default, nothing
  stood on that base before, and the stack from its bottom up to the new rate - a chain of rates of
  the region each standing on the one before - has at most four members and takes at most the line
  itself from every amount.\<close>

theorem accepted_rate_joins_chain:
  assumes ok: "assertStackable repo regionID stacksOnID isDefault rateBps compound [] = None"
    and on: "stacksOnID \<noteq> []" and rates: "repo_ListTaxRates repo regionID = Inr rates"
    and ids: "\<forall>r \<in> set rates. ra_ID r \<noteq> [] \<and> rate_ok (ra_RateBps r)" and new: "rate_ok rateBps"
  shows "\<not> isDefault \<and> (\<exists>chain. regionChainOf repo regionID = Inr chain \<and> \<not> pricesIncludeTax chain) \<and>
    \<not> stands_on rates stacksOnID \<and>
    (\<exists>walk. walk_down rates walk \<and> ra_ID (hd walk) = stacksOnID \<and> length walk < maxStackDepth \<and>
      (\<forall>amount r tax comps. taxable amount \<longrightarrow> ra_RateBps r = rateBps \<longrightarrow> ra_Compound r = compound \<longrightarrow>
        apply_stack amount (rev walk @ [r]) 0 [] = Inr (tax, comps) \<longrightarrow> tax \<le> amount))"
proof -
  have self: "filter (\<lambda>r. ra_ID r \<noteq> []) rates = rates" using ids by (simp add: filter_id_conv)
  define new_r where "new_r = \<lparr> ra_ID = [], ra_TaxRegionID = [], ra_RateBps = rateBps,
      ra_IsDefault = False, ra_StacksOnID = None, ra_Compound = compound \<rparr>"
  obtain base where base: "lookup_rate rates stacksOnID = Some base"
    using ok on rates self by (auto simp: assertStackable_def Let_def split: if_splits option.splits)
  obtain walk where walk: "down_walk rates base [] [] = Inr walk"
    and excl: "assertExclusiveRegion repo regionID = None" and nd: "\<not> isDefault"
    and free: "\<not> stands_on rates stacksOnID"
    and len: "length (rev walk @ [new_r]) \<le> maxStackDepth"
    and within: "assertStackWithinBase (rev walk @ [new_r]) = None"
    using ok on rates self base
    by (auto simp: assertStackable_def Let_def new_r_def split: if_splits option.splits sum.splits)
  from lookup_rate_Some [OF base] have b: "base \<in> set rates" "ra_ID base = stacksOnID" by auto
  from down_walk_spec [OF walk b(1)] obtain ws where ws: "walk = base # ws" and wd: "walk_down rates walk"
    using b(1) unfolding walk_down_def by fastforce
  have ok_chain: "chain_ok (rev walk @ [r])" if "ra_RateBps r = rateBps" for r
    using len wd ids new that by (auto simp: chain_ok_def walk_down_def)
  have taken: "stack_taken (rev walk @ [r]) = stack_taken (rev walk @ [new_r])"
    if "ra_RateBps r = rateBps" "ra_Compound r = compound" for r
    using that by (simp add: stack_taken_def stack_component_def new_r_def)
  have "tax \<le> amount" if "taxable amount" "ra_RateBps r = rateBps" "ra_Compound r = compound"
    "apply_stack amount (rev walk @ [r]) 0 [] = Inr (tax, comps)" for amount r tax comps
  proof -
    have "assertStackWithinBase (rev walk @ [r]) = None"
      using within taken [OF that(2,3)] by (simp add: assertStackWithinBase_def)
    with stack_charge_within [OF ok_chain [OF that(2)] _ that(1,4)] show ?thesis by simp
  qed
  with wd nd free excl ws b(2) len show ?thesis
    by (auto simp: assertExclusiveRegion_def split: sum.splits if_splits)
qed

definition ex_region :: tax_region where
  "ex_region = \<lparr> rg_ID = ''TR'', rg_CountryCode = ''TR'', rg_ProvinceCode = None, rg_ParentID = None,
     rg_ProviderID = [], rg_PricesIncludeTax = None \<rparr>"

definition ex_repo :: tax_repo where
  "ex_repo = \<lparr> repo_ListTaxRates = (\<lambda>_. Inr ex_rates), repo_GetTaxRate = (\<lambda>_. Inr (hd ex_rates)),
     repo_GetTaxRegion = (\<lambda>_. Inr ex_region), repo_LockTaxRegionForWrite = (\<lambda>_. None),
     repo_ResolveTaxRegions = (\<lambda>_ _. Inr [ex_region]), repo_ClassesOfProducts = (\<lambda>_. Inr (\<lambda>_. [])) \<rparr>"

theorem accepted_rate_joins_chain_witness:
  "assertStackable ex_repo ''TR'' ''r4'' False 500 True [] = None \<and>
   (\<exists>walk. walk_down ex_rates walk \<and> ra_ID (hd walk) = ''r4'' \<and> length walk < maxStackDepth)"
proof -
  have ok: "assertStackable ex_repo ''TR'' ''r4'' False 500 True [] = None" by code_simp
  have rates: "repo_ListTaxRates ex_repo ''TR'' = Inr ex_rates" by (simp add: ex_repo_def)
  have ids: "\<forall>r \<in> set ex_rates. ra_ID r \<noteq> [] \<and> rate_ok (ra_RateBps r)" by code_simp
  have new: "rate_ok 500" by code_simp
  show ?thesis using accepted_rate_joins_chain [OF ok _ rates ids new] ok by blast
qed

end
