(* ===== verification/TaxCalc.thy ===== *)
theory TaxCalc
  imports TaxRates
begin

text \<open>
  The tax calculation: \<^verbatim>\<open>internal/modules/tax/service/calculate.go\<close>, the code normalisation and the
  paging of \<^verbatim>\<open>validate.go\<close>, and the provider registry of \<^verbatim>\<open>taxprovider.go\<close>.

  A text whose characters are examined is a list of runes (Unicode code points, \<open>nat\<close>); the
  conversion of the bytes to runes is the language's. A \<open>TaxProvider\<close> is its id and its
  \<open>Calculate\<close>, an arbitrary function: nothing is assumed of its answers beyond their types.
\<close>

section \<open>Codes\<close>

type_synonym rune = nat

definition IsSpace :: "rune \<Rightarrow> bool" where
  "IsSpace r \<longleftrightarrow> (9 \<le> r \<and> r \<le> 13) \<or> r = 32 \<or> r = 133 \<or> r = 160 \<or> r = 5760 \<or>
     (8192 \<le> r \<and> r \<le> 8202) \<or> r = 8232 \<or> r = 8233 \<or> r = 8239 \<or> r = 8287 \<or> r = 12288"

definition TrimSpace :: "rune list \<Rightarrow> rune list" where
  "TrimSpace rs = rev (dropWhile IsSpace (rev (dropWhile IsSpace rs)))"

definition upper_rune :: "rune \<Rightarrow> bool" where "upper_rune r \<longleftrightarrow> 65 \<le> r \<and> r \<le> 90"

definition lower_rune :: "rune \<Rightarrow> bool" where "lower_rune r \<longleftrightarrow> 97 \<le> r \<and> r \<le> 122"

definition digit_rune :: "rune \<Rightarrow> bool" where "digit_rune r \<longleftrightarrow> 48 \<le> r \<and> r \<le> 57"

text \<open>\<open>strings.ToUpper\<close> on ASCII.\<close>

definition ToUpper :: "rune list \<Rightarrow> rune list" where
  "ToUpper rs = map (\<lambda>r. if lower_rune r then r - 32 else r) rs"

text \<open>The byte string of an ASCII text.\<close>

definition ascii :: "rune list \<Rightarrow> string" where "ascii rs = map char_of rs"

definition CountryCodeLength :: nat where "CountryCodeLength = 2"

definition MaxProvinceCodeLength :: nat where "MaxProvinceCodeLength = 10"

definition NormalizeCountryCode :: "rune list \<Rightarrow> error + rune list" where
  "NormalizeCountryCode code =
    (let trimmed = TrimSpace code in
     if length trimmed \<noteq> CountryCodeLength then Inl (Invalid CodeTaxInvalidInput)
     else if list_ex (\<lambda>r. \<not> upper_rune r \<and> \<not> lower_rune r) trimmed
     then Inl (Invalid CodeTaxInvalidInput)
     else Inr (ToUpper trimmed))"

fun province_ok :: "nat \<Rightarrow> rune list \<Rightarrow> bool" where
  "province_ok i [] = True"
| "province_ok i (r # rs) =
    (if upper_rune r \<or> lower_rune r \<or> digit_rune r then province_ok (Suc i) rs
     else if r = 45 \<and> i > 0 then province_ok (Suc i) rs
     else False)"

definition NormalizeProvinceCode :: "rune list \<Rightarrow> error + rune list" where
  "NormalizeProvinceCode code =
    (let trimmed = TrimSpace code in
     if trimmed = [] then Inr []
     else if length trimmed > MaxProvinceCodeLength then Inl (Invalid CodeTaxInvalidInput)
     else if \<not> province_ok 0 trimmed then Inl (Invalid CodeTaxInvalidInput)
     else Inr (ToUpper trimmed))"

definition validateRateBps :: "int \<Rightarrow> error option" where
  "validateRateBps rateBps =
    (if rateBps < MinRateBps then Some (Invalid CodeTaxInvalidInput)
     else if rateBps > MaxRateBps then Some (Invalid CodeTaxInvalidInput)
     else None)"

definition DefaultLimit :: int where "DefaultLimit = 50"

definition MaxLimit :: int where "MaxLimit = 200"

definition normalizePaging :: "int \<Rightarrow> int \<Rightarrow> error + (int \<times> int)" where
  "normalizePaging limit offset =
    (if offset < 0 then Inl (Invalid CodeTaxInvalidInput)
     else
       (let l1 = (if limit \<le> 0 then DefaultLimit else limit);
            l2 = (if l1 > MaxLimit then MaxLimit else l1) in
        Inr (l2, offset)))"

definition clampToInt32 :: "int \<Rightarrow> int" where
  "clampToInt32 value =
    (if value > 2 ^ 31 - 1 then 2 ^ 31 - 1 else if value < - (2 ^ 31) then - (2 ^ 31) else value)"

section \<open>Input and result\<close>

record calculate_input =
  ci_CountryCode :: "rune list"
  ci_ProvinceCode :: "rune list"
  ci_Items :: "taxable_item list"
  ci_Shipping :: shipping_input

record item_tax =
  ix_ID :: string
  ix_RateID :: string
  ix_RateBps :: int
  ix_TaxableAmount :: int64
  ix_TaxAmount :: int64
  ix_Components :: "tax_component list"

record calculate_result =
  cr_RegionID :: string
  cr_PricesIncludeTax :: bool
  cr_RegionFound :: bool
  cr_ProviderID :: string
  cr_Items :: "item_tax list"
  cr_Shipping :: item_tax
  cr_TaxTotal :: int64

fun check_items :: "string list \<Rightarrow> taxable_item list \<Rightarrow> error option" where
  "check_items seen [] = None"
| "check_items seen (item # items) =
    (if it_ID item = [] then Some (Invalid CodeTaxInvalidInput)
     else if it_ID item = ShippingLineID then Some (Invalid CodeTaxInvalidInput)
     else if it_ID item \<in> set seen then Some (Invalid CodeTaxInvalidInput)
     else
       (case checkTaxableAmount (it_Amount item) of
         Some e \<Rightarrow> Some e
       | None \<Rightarrow> check_items (it_ID item # seen) items))"

definition normalizeCalculateInput :: "calculate_input \<Rightarrow> error + calculate_input" where
  "normalizeCalculateInput inp =
    (case NormalizeCountryCode (ci_CountryCode inp) of
      Inl e \<Rightarrow> Inl e
    | Inr country \<Rightarrow>
        (case NormalizeProvinceCode (ci_ProvinceCode inp) of
          Inl e \<Rightarrow> Inl e
        | Inr province \<Rightarrow>
            if length (ci_Items inp) > MaxItems then Inl (Invalid CodeTaxInvalidInput)
            else
              (case check_items [] (ci_Items inp) of
                Some e \<Rightarrow> Inl e
              | None \<Rightarrow>
                  (case checkTaxableAmount (sh_Amount (ci_Shipping inp)) of
                    Some e \<Rightarrow> Inl e
                  | None \<Rightarrow> Inr (inp\<lparr> ci_CountryCode := country, ci_ProvinceCode := province \<rparr>)))))"

definition untaxed_item :: "string \<Rightarrow> int64 \<Rightarrow> item_tax" where
  "untaxed_item eid amount = \<lparr> ix_ID = eid, ix_RateID = [], ix_RateBps = 0, ix_TaxableAmount = amount,
     ix_TaxAmount = 0, ix_Components = [] \<rparr>"

definition zeroResult :: "calculate_input \<Rightarrow> calculate_result" where
  "zeroResult inp =
    \<lparr> cr_RegionID = [], cr_PricesIncludeTax = False, cr_RegionFound = False, cr_ProviderID = [],
      cr_Items = map (\<lambda>i. untaxed_item (it_ID i) (it_Amount i)) (ci_Items inp),
      cr_Shipping = untaxed_item ShippingLineID
        (if sh_Taxable (ci_Shipping inp) then sh_Amount (ci_Shipping inp) else 0),
      cr_TaxTotal = 0 \<rparr>"

section \<open>Validating the provider's answer\<close>

definition validateLine ::
    "provider_item_tax \<Rightarrow> string \<Rightarrow> int64 \<Rightarrow> bool \<Rightarrow> error + item_tax" where
  "validateLine line wantID amount included =
    (if pt_RateBps line < MinRateBps \<or> pt_RateBps line > MaxRateBps
     then Inl (Internal CodeProviderInvalidResult)
     else if pt_TaxAmount line < 0 \<or> pt_TaxAmount line > amount
     then Inl (Internal CodeProviderInvalidResult)
     else if included \<and> (pt_TaxableAmount line < 0 \<or>
         add64 (pt_TaxableAmount line) (pt_TaxAmount line) \<noteq> amount)
     then Inl (Internal CodeProviderInvalidResult)
     else
       (case validateComponents (pt_Components line) (pt_TaxAmount line) of
         Some e \<Rightarrow> Inl e
       | None \<Rightarrow>
           Inr \<lparr> ix_ID = wantID, ix_RateID = pt_RateID line, ix_RateBps = pt_RateBps line,
                 ix_TaxableAmount = (if included then pt_TaxableAmount line else amount),
                 ix_TaxAmount = pt_TaxAmount line, ix_Components = pt_Components line \<rparr>))"

fun index_lines ::
    "provider_item_tax list \<Rightarrow> (string \<Rightarrow> provider_item_tax option) \<Rightarrow>
      error + (string \<Rightarrow> provider_item_tax option)" where
  "index_lines [] m = Inr m"
| "index_lines (l # ls) m =
    (if m (pt_ID l) \<noteq> None then Inl (Internal CodeProviderInvalidResult)
     else index_lines ls (m(pt_ID l \<mapsto> l)))"

fun assemble_items ::
    "(string \<Rightarrow> provider_item_tax option) \<Rightarrow> bool \<Rightarrow> taxable_item list \<Rightarrow> int64 \<Rightarrow> item_tax list \<Rightarrow>
      error + (int64 \<times> item_tax list)" where
  "assemble_items m included [] totl out = Inr (totl, out)"
| "assemble_items m included (i # is) totl out =
    (case m (it_ID i) of
      None \<Rightarrow> Inl (Internal CodeProviderInvalidResult)
    | Some line \<Rightarrow>
        (case validateLine line (it_ID i) (it_Amount i) included of
          Inl e \<Rightarrow> Inl e
        | Inr item \<Rightarrow>
            (case addAmount totl (ix_TaxAmount item) of
              Inl e \<Rightarrow> Inl e
            | Inr totl' \<Rightarrow> assemble_items m included is totl' (out @ [item]))))"

text \<open>\<open>byID\<close> has as many entries as the provider's list once no id repeats.\<close>

definition assembleResult ::
    "calculate_input \<Rightarrow> provider_result \<Rightarrow> string \<Rightarrow> bool \<Rightarrow> error + calculate_result" where
  "assembleResult inp raw providerID included =
    (case index_lines (pr_Items raw) (\<lambda>_. None) of
      Inl e \<Rightarrow> Inl e
    | Inr m \<Rightarrow>
        if length (pr_Items raw) \<noteq> length (ci_Items inp) then Inl (Internal CodeProviderInvalidResult)
        else
          (case assemble_items m included (ci_Items inp) 0 [] of
            Inl e \<Rightarrow> Inl e
          | Inr (totl, items) \<Rightarrow>
              (let shippingBase = (if sh_Taxable (ci_Shipping inp) then sh_Amount (ci_Shipping inp) else 0) in
               case validateLine (pr_Shipping raw) ShippingLineID shippingBase included of
                 Inl e \<Rightarrow> Inl e
               | Inr shipping \<Rightarrow>
                   (case addAmount totl (ix_TaxAmount shipping) of
                     Inl e \<Rightarrow> Inl e
                   | Inr totl' \<Rightarrow>
                       Inr \<lparr> cr_RegionID = [], cr_PricesIncludeTax = False, cr_RegionFound = False,
                             cr_ProviderID = providerID, cr_Items = items, cr_Shipping = shipping,
                             cr_TaxTotal = totl' \<rparr>))))"

section \<open>The provider and the calculation\<close>

record tax_provider =
  tp_ID :: string
  tp_Calculate :: "provider_input \<Rightarrow> error + provider_result"

text \<open>The registry answers by trimmed id; \<open>trim\<close> is \<open>strings.TrimSpace\<close> on a byte string.\<close>

definition providerFor ::
    "(string \<Rightarrow> string) \<Rightarrow> (string \<Rightarrow> error + tax_provider) option \<Rightarrow> tax_region list \<Rightarrow>
      error + tax_provider" where
  "providerFor trim registry chain =
    (case registry of
      None \<Rightarrow> Inl (Internal CodeProviderMisconfigured)
    | Some get \<Rightarrow>
        (let providerID = (case find (\<lambda>r. trim (rg_ProviderID r) \<noteq> []) chain of
               None \<Rightarrow> LocalProviderID | Some r \<Rightarrow> trim (rg_ProviderID r)) in
         case get providerID of
           Inl e \<Rightarrow> Inl (wrap_err e KindInternal CodeProviderMisconfigured)
         | Inr p \<Rightarrow> Inr p))"

definition attachTaxClasses :: "tax_repo \<Rightarrow> taxable_item list \<Rightarrow> error + taxable_item list" where
  "attachTaxClasses repo items =
    (let productIDs = rev (remdups (rev (filter (\<lambda>i. i \<noteq> []) (map it_ProductID items)))) in
     if productIDs = [] then Inr items
     else
       (case repo_ClassesOfProducts repo productIDs of
         Inl e \<Rightarrow> Inl e
       | Inr classes \<Rightarrow> Inr (map (\<lambda>i. i\<lparr> it_TaxClassID := classes (it_ProductID i) \<rparr>) items)))"

definition CalculateTax ::
    "(string \<Rightarrow> string) \<Rightarrow> tax_repo \<Rightarrow> (string \<Rightarrow> error + tax_provider) option \<Rightarrow>
      calculate_input \<Rightarrow> error + calculate_result" where
  "CalculateTax trim repo registry inp =
    (case normalizeCalculateInput inp of
      Inl e \<Rightarrow> Inl e
    | Inr norm \<Rightarrow>
        (case repo_ResolveTaxRegions repo (ascii (ci_CountryCode norm)) (ascii (ci_ProvinceCode norm)) of
          Inl e \<Rightarrow> Inl e
        | Inr [] \<Rightarrow> Inr (zeroResult norm)
        | Inr (r # rs) \<Rightarrow>
            (case providerFor trim registry (r # rs) of
              Inl e \<Rightarrow> Inl e
            | Inr provider \<Rightarrow>
                (let included = pricesIncludeTax (r # rs) in
                 case attachTaxClasses repo (ci_Items norm) of
                   Inl e \<Rightarrow> Inl e
                 | Inr items \<Rightarrow>
                     (case tp_Calculate provider
                         \<lparr> pi_RegionIDs = map rg_ID (r # rs), pi_CountryCode = ascii (ci_CountryCode norm),
                           pi_ProvinceCode = ascii (ci_ProvinceCode norm), pi_Items = items,
                           pi_Shipping = ci_Shipping norm, pi_PricesIncludeTax = included \<rparr> of
                       Inl e \<Rightarrow> Inl e
                     | Inr raw \<Rightarrow>
                         (case assembleResult (norm\<lparr> ci_Items := items \<rparr>) raw (tp_ID provider) included of
                           Inl e \<Rightarrow> Inl e
                         | Inr res \<Rightarrow>
                             Inr (res\<lparr> cr_RegionID := rg_ID r, cr_RegionFound := True,
                                       cr_PricesIncludeTax := included \<rparr>)))))))"

section \<open>Normalised codes\<close>

lemma not_space_code: "upper_rune r \<or> lower_rune r \<or> digit_rune r \<or> r = 45 \<Longrightarrow> \<not> IsSpace r"
  by (auto simp: upper_rune_def lower_rune_def digit_rune_def IsSpace_def)

lemma TrimSpace_id: "\<forall>r \<in> set rs. \<not> IsSpace r \<Longrightarrow> TrimSpace rs = rs"
proof -
  assume a: "\<forall>r \<in> set rs. \<not> IsSpace r"
  then have "dropWhile IsSpace xs = xs" if "set xs = set rs" for xs
    using that by (cases xs) auto
  then show ?thesis by (simp add: TrimSpace_def)
qed

lemma ToUpper_id: "\<forall>r \<in> set rs. \<not> lower_rune r \<Longrightarrow> ToUpper rs = rs"
  unfolding ToUpper_def by (rule map_idI) simp

text \<open>A country code is normalised once and for all. An accepted code is exactly two upper-case
  ASCII letters, and normalising it again gives it back.\<close>

theorem country_code_normal:
  assumes "NormalizeCountryCode code = Inr c"
  shows "length c = 2 \<and> (\<forall>r \<in> set c. upper_rune r) \<and> NormalizeCountryCode c = Inr c"
proof -
  define t where "t = TrimSpace code"
  have t: "length t = 2" "\<forall>r \<in> set t. upper_rune r \<or> lower_rune r" "c = ToUpper t"
    using assms by (auto simp: NormalizeCountryCode_def Let_def t_def CountryCodeLength_def list_ex_iff
        split: if_splits)
  have up: "\<forall>r \<in> set c. upper_rune r"
    using t(2) unfolding t(3) ToUpper_def by (auto simp: upper_rune_def lower_rune_def)
  then have "TrimSpace c = c" "ToUpper c = c"
    by (auto intro!: TrimSpace_id ToUpper_id simp: not_space_code upper_rune_def lower_rune_def IsSpace_def)
  moreover have "length c = 2" using t(1,3) by (simp add: ToUpper_def)
  ultimately show ?thesis
    using up by (simp add: NormalizeCountryCode_def CountryCodeLength_def list_ex_iff)
qed

theorem country_code_normal_witness:
  "NormalizeCountryCode [32, 116, 82] = Inr [84, 82] \<and> NormalizeCountryCode [84, 82] = Inr [84, 82]"
proof -
  have "NormalizeCountryCode [32, 116, 82] = Inr [84, 82]" by code_simp
  with country_code_normal [OF this] show ?thesis by simp
qed

section \<open>What a validated answer satisfies\<close>

definition int64_line :: "provider_item_tax \<Rightarrow> bool" where
  "int64_line l \<longleftrightarrow> is_i64 (pt_TaxableAmount l) \<and> is_i64 (pt_TaxAmount l) \<and>
    (\<forall>c \<in> set (pt_Components l). is_i64 (tc_TaxAmount c))"

definition int64_result :: "provider_result \<Rightarrow> bool" where
  "int64_result raw \<longleftrightarrow> int64_line (pr_Shipping raw) \<and> (\<forall>l \<in> set (pr_Items raw). int64_line l)"

text \<open>A result line for an amount: the tax lies between zero and the amount, the base is the amount,
  or in an inclusive market what the tax leaves of it, and the components, if any, add up.\<close>

definition line_sound :: "bool \<Rightarrow> string \<Rightarrow> int64 \<Rightarrow> item_tax \<Rightarrow> bool" where
  "line_sound included eid amount l \<longleftrightarrow> ix_ID l = eid \<and> rate_ok (ix_RateBps l) \<and>
    0 \<le> ix_TaxAmount l \<and> ix_TaxAmount l \<le> amount \<and>
    (if included then ix_TaxableAmount l + ix_TaxAmount l = amount else ix_TaxableAmount l = amount) \<and>
    (ix_Components l = [] \<or> (2 \<le> length (ix_Components l) \<and> length (ix_Components l) \<le> maxStackDepth \<and>
      sum_list (map tc_TaxAmount (ix_Components l)) = ix_TaxAmount l))"

lemma sum_components_Inr:
  assumes "sum_components cs totl = Inr t" and "\<forall>c \<in> set cs. is_i64 (tc_TaxAmount c)"
  shows "t = totl + sum_list (map tc_TaxAmount cs)"
  using assms
proof (induction cs arbitrary: totl)
  case (Cons c cs)
  then obtain s where s: "addAmount totl (tc_TaxAmount c) = Inr s" "sum_components cs s = Inr t"
    by (auto split: if_splits sum.splits)
  moreover have "tc_TaxAmount c \<le> MaxInt64" using Cons.prems(2) by (simp add: is_i64_def)
  ultimately have "s = totl + tc_TaxAmount c" using addAmount_Inr by blast
  with Cons.IH [OF s(2)] Cons.prems(2) show ?case by simp
qed simp

lemma validateComponents_sound:
  assumes "validateComponents cs tax = None" and "\<forall>c \<in> set cs. is_i64 (tc_TaxAmount c)"
  shows "cs = [] \<or> (2 \<le> length cs \<and> length cs \<le> maxStackDepth \<and> sum_list (map tc_TaxAmount cs) = tax)"
  using assms sum_components_Inr [OF _ assms(2), of 0]
  by (auto simp: validateComponents_def split: if_splits sum.splits)

lemma add64_hits:
  assumes "is_i64 b" "0 \<le> b" "0 \<le> t" "t \<le> MaxTaxableAmount" "0 \<le> a" and "add64 b t = a"
  shows "b + t = a"
proof (cases "b + t \<le> MaxInt64")
  case True
  then have "is_i64 (b + t)" using assms(2,3) by (simp add: is_i64_def MinInt64_def)
  with assms(6) show ?thesis by (simp add: add64_id)
next
  case False
  have "wrap64 (b + t) = b + t - 2 ^ 64"
  proof -
    have "b + t + 2 ^ 63 - 2 ^ 64 \<ge> 0" "b + t + 2 ^ 63 - 2 ^ 64 < 2 ^ 64"
      using False assms(1,4) by (auto simp: is_i64_def MaxInt64_def MaxTaxableAmount_def)
    then have "(b + t + 2 ^ 63) mod 2 ^ 64 = b + t + 2 ^ 63 - 2 ^ 64"
      by (intro int_mod_pos_eq [where q = 1]) auto
    then show ?thesis by (simp add: wrap64_def)
  qed
  moreover have "b + t - 2 ^ 64 < 0"
    using assms(1,4) by (auto simp: is_i64_def MaxInt64_def MaxTaxableAmount_def)
  ultimately show ?thesis using assms(5,6) by (simp add: add64_def)
qed

lemma validateLine_sound:
  assumes "validateLine l eid amount included = Inr x" and "int64_line l" and "taxable amount"
  shows "line_sound included eid amount x"
proof -
  have l: "rate_ok (pt_RateBps l)" "0 \<le> pt_TaxAmount l" "pt_TaxAmount l \<le> amount"
    "included \<Longrightarrow> 0 \<le> pt_TaxableAmount l \<and> add64 (pt_TaxableAmount l) (pt_TaxAmount l) = amount"
    "validateComponents (pt_Components l) (pt_TaxAmount l) = None"
    and x: "x = \<lparr> ix_ID = eid, ix_RateID = pt_RateID l, ix_RateBps = pt_RateBps l,
                 ix_TaxableAmount = (if included then pt_TaxableAmount l else amount),
                 ix_TaxAmount = pt_TaxAmount l, ix_Components = pt_Components l \<rparr>"
    using assms(1) by (auto simp: validateLine_def rate_ok_def split: if_splits option.splits)
  have "pt_TaxableAmount l + pt_TaxAmount l = amount" if included
    by (rule add64_hits) (use l that assms(2,3) in \<open>auto simp: int64_line_def taxable_def\<close>)
  moreover have "pt_Components l = [] \<or> (2 \<le> length (pt_Components l) \<and>
      length (pt_Components l) \<le> maxStackDepth \<and> sum_list (map tc_TaxAmount (pt_Components l)) = pt_TaxAmount l)"
    using validateComponents_sound [OF l(5)] assms(2) by (simp add: int64_line_def)
  ultimately show ?thesis using l x by (simp add: line_sound_def)
qed

lemma index_lines_Inr:
  assumes "index_lines ls m = Inr m'" and "m' k = Some l"
  shows "m k = Some l \<or> l \<in> set ls"
  using assms by (induction ls m rule: index_lines.induct) (auto split: if_splits)

lemma assemble_items_sound:
  assumes "assemble_items m included items totl out = Inr (t, res)"
    and "\<forall>k l. m k = Some l \<longrightarrow> int64_line l" and "\<forall>i \<in> set items. taxable (it_Amount i)"
  shows "\<exists>new. res = out @ new \<and> t = totl + sum_list (map ix_TaxAmount new) \<and>
    list_all2 (\<lambda>i x. line_sound included (it_ID i) (it_Amount i) x) items new"
  using assms(1,3)
proof (induction items arbitrary: totl out)
  case Nil
  then show ?case by simp
next
  case (Cons i items)
  obtain l x s where l: "m (it_ID i) = Some l" "validateLine l (it_ID i) (it_Amount i) included = Inr x"
    "addAmount totl (ix_TaxAmount x) = Inr s" "assemble_items m included items s (out @ [x]) = Inr (t, res)"
    using Cons.prems(1) by (auto split: option.splits sum.splits)
  have snd: "line_sound included (it_ID i) (it_Amount i) x"
    using validateLine_sound [OF l(2)] assms(2) l(1) Cons.prems(2) by simp
  then have "ix_TaxAmount x \<le> MaxInt64"
    using Cons.prems(2) by (auto simp: line_sound_def taxable_def MaxTaxableAmount_def MaxInt64_def)
  then have "s = totl + ix_TaxAmount x" using l(3) addAmount_Inr by blast
  with Cons.IH [OF l(4)] Cons.prems(2) snd show ?case by fastforce
qed

lemma assembleResult_sound:
  assumes "assembleResult inp raw pid included = Inr res" and "int64_result raw"
    and "\<forall>i \<in> set (ci_Items inp). taxable (it_Amount i)" and "taxable (sh_Amount (ci_Shipping inp))"
  shows "cr_TaxTotal res = sum_list (map ix_TaxAmount (cr_Items res)) + ix_TaxAmount (cr_Shipping res) \<and>
    list_all2 (\<lambda>i x. line_sound included (it_ID i) (it_Amount i) x) (ci_Items inp) (cr_Items res) \<and>
    line_sound included ShippingLineID
      (if sh_Taxable (ci_Shipping inp) then sh_Amount (ci_Shipping inp) else 0) (cr_Shipping res)"
proof -
  let ?base = "if sh_Taxable (ci_Shipping inp) then sh_Amount (ci_Shipping inp) else 0"
  obtain m totl items s where m: "index_lines (pr_Items raw) (\<lambda>_. None) = Inr m"
    and it: "assemble_items m included (ci_Items inp) 0 [] = Inr (totl, items)"
    and sh: "validateLine (pr_Shipping raw) ShippingLineID ?base included = Inr s"
    and add: "addAmount totl (ix_TaxAmount s) = Inr (cr_TaxTotal res)"
    and res: "cr_Items res = items" "cr_Shipping res = s"
    using assms(1) by (auto simp: assembleResult_def Let_def split: sum.splits if_splits)
  have "\<forall>k l. m k = Some l \<longrightarrow> int64_line l"
    using index_lines_Inr [OF m] assms(2) by (auto simp: int64_result_def)
  from assemble_items_sound [OF it this assms(3)] have
    "totl = sum_list (map ix_TaxAmount items)"
    "list_all2 (\<lambda>i x. line_sound included (it_ID i) (it_Amount i) x) (ci_Items inp) items" by auto
  moreover have tb: "taxable ?base" using assms(4) by (simp add: taxable_def MaxTaxableAmount_def)
  moreover have s: "line_sound included ShippingLineID ?base s"
    using validateLine_sound [OF sh _ tb] assms(2) by (simp add: int64_result_def)
  moreover have "ix_TaxAmount s \<le> MaxInt64"
  proof -
    have "ix_TaxAmount s \<le> ?base" using s unfolding line_sound_def by blast
    moreover have "?base \<le> MaxTaxableAmount" using tb unfolding taxable_def by blast
    moreover have "MaxTaxableAmount \<le> MaxInt64" by (simp add: MaxTaxableAmount_def MaxInt64_def)
    ultimately show ?thesis by linarith
  qed
  then have "cr_TaxTotal res = totl + ix_TaxAmount s" using add addAmount_Inr by blast
  ultimately show ?thesis using res by simp
qed

lemma check_items_None:
  assumes "check_items seen items = None"
  shows "distinct (map it_ID items) \<and> set (map it_ID items) \<inter> set seen = {} \<and>
    (\<forall>i \<in> set items. taxable (it_Amount i) \<and> it_ID i \<noteq> ShippingLineID)"
  using assms
proof (induction items arbitrary: seen)
  case (Cons i items)
  then have "check_items (it_ID i # seen) items = None" "checkTaxableAmount (it_Amount i) = None"
    "it_ID i \<notin> set seen" "it_ID i \<noteq> ShippingLineID"
    by (auto split: if_splits option.splits)
  with Cons.IH [of "it_ID i # seen"] show ?case
    by (auto simp: checkTaxableAmount_def taxable_def split: if_splits)
qed simp

lemma normalizeCalculateInput_Inr:
  assumes "normalizeCalculateInput inp = Inr norm"
  shows "ci_Items norm = ci_Items inp" "ci_Shipping norm = ci_Shipping inp"
    "distinct (map it_ID (ci_Items inp))" "\<forall>i \<in> set (ci_Items inp). taxable (it_Amount i)"
    "taxable (sh_Amount (ci_Shipping inp))" "length (ci_Items inp) \<le> MaxItems"
  using assms check_items_None [of "[]" "ci_Items inp"]
  by (auto simp: normalizeCalculateInput_def checkTaxableAmount_def taxable_def
      split: sum.splits if_splits option.splits)

lemma attachTaxClasses_Inr:
  assumes "attachTaxClasses repo items = Inr items'"
  shows "map it_ID items' = map it_ID items \<and> map it_Amount items' = map it_Amount items"
  using assms by (auto simp: attachTaxClasses_def Let_def split: if_splits sum.splits)

definition int64_registry :: "(string \<Rightarrow> error + tax_provider) option \<Rightarrow> bool" where
  "int64_registry registry \<longleftrightarrow> (\<forall>get pid p x raw. registry = Some get \<longrightarrow> get pid = Inr p \<longrightarrow>
     tp_Calculate p x = Inr raw \<longrightarrow> int64_result raw)"

lemma line_sound_cong:
  assumes "map it_ID is' = map it_ID is" "map it_Amount is' = map it_Amount is"
    and "list_all2 (\<lambda>i x. line_sound included (it_ID i) (it_Amount i) x) is' xs"
  shows "list_all2 (\<lambda>i x. line_sound included (it_ID i) (it_Amount i) x) is xs"
proof -
  have len: "length is' = length is" using assms(1) by (metis length_map)
  have "it_ID (is' ! k) = it_ID (is ! k)" "it_Amount (is' ! k) = it_Amount (is ! k)"
    if "k < length is" for k
    using assms(1,2) that len by (metis nth_map)+
  with assms(3) len show ?thesis by (simp add: list_all2_conv_all_nth)
qed

lemma zeroResult_sound:
  assumes "\<forall>i \<in> set (ci_Items inp). taxable (it_Amount i)" "taxable (sh_Amount (ci_Shipping inp))"
  shows "cr_TaxTotal (zeroResult inp) =
      sum_list (map ix_TaxAmount (cr_Items (zeroResult inp))) + ix_TaxAmount (cr_Shipping (zeroResult inp)) \<and>
    list_all2 (\<lambda>i x. line_sound included (it_ID i) (it_Amount i) x) (ci_Items inp) (cr_Items (zeroResult inp)) \<and>
    line_sound included ShippingLineID
      (if sh_Taxable (ci_Shipping inp) then sh_Amount (ci_Shipping inp) else 0) (cr_Shipping (zeroResult inp))"
  using assms
  by (auto simp: zeroResult_def untaxed_item_def line_sound_def rate_ok_def tax_bounds taxable_def
      list_all2_conv_all_nth comp_def)

text \<open>C17: the total is the sum of the lines, whatever the provider answers. If a calculation
  succeeds, then for every provider whose figures are 64-bit integers the total tax is exactly the
  sum of the line taxes and the shipping tax, there is one result line per input line in the input's
  order with its id, and every line is sound: its tax lies between zero and the amount that was
  sent, its base is that amount - or, where prices include the tax, base and tax add up to it
  exactly - and a breakdown into components adds up to the line's tax. Shipping that is not taxable
  carries no tax.\<close>

theorem calculate_tax_identity:
  assumes calc: "CalculateTax trim repo registry inp = Inr res" and typed: "int64_registry registry"
  shows "cr_TaxTotal res = sum_list (map ix_TaxAmount (cr_Items res)) + ix_TaxAmount (cr_Shipping res) \<and>
    list_all2 (\<lambda>i x. line_sound (cr_PricesIncludeTax res) (it_ID i) (it_Amount i) x) (ci_Items inp) (cr_Items res) \<and>
    line_sound (cr_PricesIncludeTax res) ShippingLineID
      (if sh_Taxable (ci_Shipping inp) then sh_Amount (ci_Shipping inp) else 0) (cr_Shipping res)"
proof -
  obtain norm where norm: "normalizeCalculateInput inp = Inr norm"
    using calc by (auto simp: CalculateTax_def split: sum.splits)
  note n = normalizeCalculateInput_Inr [OF norm]
  obtain chain where ch: "repo_ResolveTaxRegions repo (ascii (ci_CountryCode norm)) (ascii (ci_ProvinceCode norm)) = Inr chain"
    using calc norm by (auto simp: CalculateTax_def split: sum.splits)
  show ?thesis
  proof (cases chain)
    case Nil
    then have "res = zeroResult norm" using calc norm ch by (simp add: CalculateTax_def)
    with zeroResult_sound [of norm "cr_PricesIncludeTax res"] n show ?thesis by (simp split: if_splits)
  next
    case (Cons r rs)
    let ?inc = "pricesIncludeTax (r # rs)"
    obtain p items x raw out where p: "providerFor trim registry (r # rs) = Inr p"
      and items: "attachTaxClasses repo (ci_Items norm) = Inr items"
      and raw: "tp_Calculate p x = Inr raw"
      and out: "assembleResult (norm\<lparr> ci_Items := items \<rparr>) raw (tp_ID p) ?inc = Inr out"
      and res: "res = out\<lparr> cr_RegionID := rg_ID r, cr_RegionFound := True, cr_PricesIncludeTax := ?inc \<rparr>"
      using calc norm ch Cons by (auto simp: CalculateTax_def Let_def split: sum.splits)
    have "int64_result raw"
      using typed p raw unfolding int64_registry_def
      by (auto simp: providerFor_def Let_def split: option.splits sum.splits)
    moreover note att = attachTaxClasses_Inr [OF items]
    have "\<forall>i \<in> set items. taxable (it_Amount i)"
      using att n(1,4) by (metis (no_types, lifting) image_iff list.set_map)
    ultimately have "cr_TaxTotal out = sum_list (map ix_TaxAmount (cr_Items out)) + ix_TaxAmount (cr_Shipping out)"
      "list_all2 (\<lambda>i x. line_sound ?inc (it_ID i) (it_Amount i) x) items (cr_Items out)"
      "line_sound ?inc ShippingLineID
        (if sh_Taxable (ci_Shipping inp) then sh_Amount (ci_Shipping inp) else 0) (cr_Shipping out)"
      using assembleResult_sound [OF out] n(2,5) by (simp_all del: pricesIncludeTax.simps split: if_splits)
    with line_sound_cong [of items "ci_Items inp"] att n(1) res show ?thesis by simp
  qed
qed

section \<open>A provider that keeps the contract\<close>

definition lawful_components :: "tax_component list \<Rightarrow> int64 \<Rightarrow> bool" where
  "lawful_components cs tax \<longleftrightarrow> cs = [] \<or> (2 \<le> length cs \<and> length cs \<le> maxStackDepth \<and>
    sum_list (map tc_TaxAmount cs) = tax \<and>
    (\<forall>c \<in> set cs. rate_ok (tc_RateBps c) \<and> 0 \<le> tc_TaxAmount c \<and> tc_TaxAmount c \<le> tc_TaxableAmount c))"

definition lawful_line :: "bool \<Rightarrow> int64 \<Rightarrow> provider_item_tax \<Rightarrow> bool" where
  "lawful_line included amount l \<longleftrightarrow> rate_ok (pt_RateBps l) \<and> 0 \<le> pt_TaxAmount l \<and>
    pt_TaxAmount l \<le> amount \<and>
    (included \<longrightarrow> 0 \<le> pt_TaxableAmount l \<and> pt_TaxableAmount l + pt_TaxAmount l = amount) \<and>
    lawful_components (pt_Components l) (pt_TaxAmount l)"

definition shipping_base :: "shipping_input \<Rightarrow> int64" where
  "shipping_base s = (if sh_Taxable s then sh_Amount s else 0)"

text \<open>The documented contract of a \<open>TaxProvider\<close>: one line per item with its id, rates within
  \<open>[0, 100%]\<close>, taxes within \<open>[0, base]\<close>, inclusive prices hit exactly, components adding up. The
  provider's own state \<open>'s\<close> and the inputs it is ready for are parameters.\<close>

locale lawful_provider =
  fixes calculate :: "'s \<Rightarrow> provider_input \<Rightarrow> error + provider_result"
    and fits :: "'s \<Rightarrow> provider_input \<Rightarrow> bool"
  assumes one_line_each: "fits s inp \<Longrightarrow> calculate s inp = Inr raw \<Longrightarrow>
      map pt_ID (pr_Items raw) = map it_ID (pi_Items inp)"
    and lines_lawful: "fits s inp \<Longrightarrow> calculate s inp = Inr raw \<Longrightarrow>
      list_all2 (\<lambda>i l. lawful_line (pi_PricesIncludeTax inp) (it_Amount i) l) (pi_Items inp) (pr_Items raw)"
    and shipping_lawful: "fits s inp \<Longrightarrow> calculate s inp = Inr raw \<Longrightarrow>
      lawful_line (pi_PricesIncludeTax inp) (shipping_base (pi_Shipping inp)) (pr_Shipping raw)"

lemma sum_components_lawful:
  assumes "\<forall>c \<in> set cs. rate_ok (tc_RateBps c) \<and> 0 \<le> tc_TaxAmount c \<and> tc_TaxAmount c \<le> tc_TaxableAmount c"
    and "0 \<le> totl" "totl + sum_list (map tc_TaxAmount cs) \<le> MaxTaxableAmount"
  shows "sum_components cs totl = Inr (totl + sum_list (map tc_TaxAmount cs))"
  using assms
proof (induction cs arbitrary: totl)
  case (Cons c cs)
  have rest: "0 \<le> sum_list (map tc_TaxAmount cs)" using Cons.prems(1) by (intro sum_list_nonneg) auto
  then have "tc_TaxAmount c \<le> MaxInt64" "totl + tc_TaxAmount c \<le> MaxTaxableAmount"
    using Cons.prems by (auto simp: MaxTaxableAmount_def MaxInt64_def)
  then have "addAmount totl (tc_TaxAmount c) = Inr (totl + tc_TaxAmount c)"
    using Cons.prems(1,2) by (simp add: addAmount_Inr)
  with Cons.IH [of "totl + tc_TaxAmount c"] Cons.prems show ?case
    by (auto simp: rate_ok_def)
qed simp

lemma validateLine_lawful:
  assumes "lawful_line included amount l" and "taxable amount"
  shows "\<exists>x. validateLine l eid amount included = Inr x \<and> ix_TaxAmount x = pt_TaxAmount l"
proof -
  have comps: "validateComponents (pt_Components l) (pt_TaxAmount l) = None"
    using assms sum_components_lawful [of "pt_Components l" 0]
    by (auto simp: lawful_line_def lawful_components_def validateComponents_def taxable_def)
  have "add64 (pt_TaxableAmount l) (pt_TaxAmount l) = amount" if included
  proof -
    have "pt_TaxableAmount l + pt_TaxAmount l = amount" using assms(1) that by (simp add: lawful_line_def)
    moreover have "is_i64 amount"
      using assms(2) by (intro is_i64_between [where b = MaxTaxableAmount])
        (auto simp: taxable_def MaxTaxableAmount_def MaxInt64_def)
    ultimately show ?thesis by (simp add: add64_id)
  qed
  with assms comps show ?thesis
    by (auto simp: validateLine_def lawful_line_def rate_ok_def)
qed

lemma index_lines_distinct:
  assumes "distinct (map pt_ID ls)" and "\<forall>l \<in> set ls. m (pt_ID l) = None"
  shows "\<exists>m'. index_lines ls m = Inr m' \<and> (\<forall>l \<in> set ls. m' (pt_ID l) = Some l) \<and>
    (\<forall>k. k \<notin> pt_ID ` set ls \<longrightarrow> m' k = m k)"
  using assms
proof (induction ls arbitrary: m)
  case (Cons l ls)
  then have new: "\<forall>x \<in> set ls. (m(pt_ID l \<mapsto> l)) (pt_ID x) = None" by (auto intro: rev_image_eqI)
  have "distinct (map pt_ID ls)" using Cons.prems(1) by simp
  from Cons.IH [OF this new] obtain m' where
    "index_lines ls (m(pt_ID l \<mapsto> l)) = Inr m'" "\<forall>x \<in> set ls. m' (pt_ID x) = Some x"
    "\<forall>k. k \<notin> pt_ID ` set ls \<longrightarrow> m' k = (m(pt_ID l \<mapsto> l)) k" by blast
  with Cons.prems show ?case by (intro exI [of _ m']) auto
qed simp

lemma assemble_items_lawful:
  assumes "list_all2 (\<lambda>i l. m (it_ID i) = Some l \<and> lawful_line included (it_Amount i) l) items ls"
    and "\<forall>i \<in> set items. taxable (it_Amount i)"
    and "assemble_items m included items totl out = Inl e"
  shows "CodeOf e = CodeAmountOverflow"
  using assms
proof (induction items arbitrary: ls totl out)
  case (Cons i items)
  from Cons.prems(1) obtain l ls' where l: "ls = l # ls'" "m (it_ID i) = Some l"
    "lawful_line included (it_Amount i) l"
    "list_all2 (\<lambda>i l. m (it_ID i) = Some l \<and> lawful_line included (it_Amount i) l) items ls'"
    by (auto simp: list_all2_Cons1)
  from validateLine_lawful [OF l(3), of "it_ID i"] Cons.prems(2) obtain x where
    x: "validateLine l (it_ID i) (it_Amount i) included = Inr x" by auto
  show ?case
  proof (cases "addAmount totl (ix_TaxAmount x)")
    case (Inl e')
    with Cons.prems(3) l(2) x addAmount_Inl_code [OF Inl] show ?thesis by simp
  next
    case (Inr s)
    with Cons.IH [OF l(4), of s "out @ [x]"] Cons.prems(2,3) l(2) x show ?thesis by simp
  qed
qed simp

context lawful_provider
begin

lemma answer_accepted:
  assumes "fits s inp" and raw: "calculate s inp = Inr raw"
    and items: "ci_Items norm = pi_Items inp" "ci_Shipping norm = pi_Shipping inp"
    and ids: "distinct (map it_ID (pi_Items inp))" "\<forall>i \<in> set (pi_Items inp). taxable (it_Amount i)"
      "taxable (sh_Amount (pi_Shipping inp))"
    and err: "assembleResult norm raw pid (pi_PricesIncludeTax inp) = Inl e"
  shows "CodeOf e = CodeAmountOverflow"
proof -
  note one = one_line_each [OF assms(1) raw] and ll = lines_lawful [OF assms(1) raw]
  have len: "length (pr_Items raw) = length (ci_Items norm)" using one items(1) by (metis length_map)
  from index_lines_distinct [of "pr_Items raw" "\<lambda>_. None"] ids(1) one obtain m where
    m: "index_lines (pr_Items raw) (\<lambda>_. None) = Inr m" "\<forall>l \<in> set (pr_Items raw). m (pt_ID l) = Some l"
    by auto
  have found: "list_all2 (\<lambda>i l. m (it_ID i) = Some l \<and> lawful_line (pi_PricesIncludeTax inp) (it_Amount i) l)
      (ci_Items norm) (pr_Items raw)"
    unfolding list_all2_conv_all_nth
  proof (intro conjI allI impI)
    fix k
    assume k: "k < length (ci_Items norm)"
    then have "pt_ID (pr_Items raw ! k) = it_ID (ci_Items norm ! k)"
      using one items(1) len by (metis nth_map)
    with m(2) k len show "m (it_ID (ci_Items norm ! k)) = Some (pr_Items raw ! k)" by (metis nth_mem)
    show "lawful_line (pi_PricesIncludeTax inp) (it_Amount (ci_Items norm ! k)) (pr_Items raw ! k)"
      using ll k items(1) by (simp add: list_all2_conv_all_nth)
  qed (use len in simp)
  have base: "taxable (shipping_base (pi_Shipping inp))"
    using ids(3) by (simp add: shipping_base_def taxable_def MaxTaxableAmount_def)
  obtain x where x: "validateLine (pr_Shipping raw) ShippingLineID (shipping_base (pi_Shipping inp))
      (pi_PricesIncludeTax inp) = Inr x"
    using validateLine_lawful [OF shipping_lawful [OF assms(1) raw] base] by blast
  show ?thesis
  proof (cases "assemble_items m (pi_PricesIncludeTax inp) (ci_Items norm) 0 []")
    case (Inl e')
    with err m(1) len have "e' = e" by (simp add: assembleResult_def)
    with assemble_items_lawful [OF found _ Inl] ids(2) items(1) show ?thesis by simp
  next
    case (Inr r)
    then obtain t out where "assemble_items m (pi_PricesIncludeTax inp) (ci_Items norm) 0 [] = Inr (t, out)"
      by (cases r) auto
    with err m(1) len x items(2) have "addAmount t (ix_TaxAmount x) = Inl e"
      by (auto simp: assembleResult_def Let_def shipping_base_def split: sum.splits if_splits)
    then show ?thesis by (rule addAmount_Inl_code)
  qed
qed

end

section \<open>The local provider keeps it\<close>

text \<open>The local provider is ready for an input whose amounts are within the bounds when every stack
  of its rates passes the check that \<open>assertStackable\<close> and \<open>assertValueWithinStack\<close> make.\<close>

definition stacks_within :: "rate_table \<Rightarrow> bool" where
  "stacks_within t \<longleftrightarrow> (\<forall>base stack. stackFrom t base = Inr stack \<longrightarrow> 2 \<le> length stack \<longrightarrow>
    assertStackWithinBase stack = None)"

definition local_fits :: "rate_source \<Rightarrow> provider_input \<Rightarrow> bool" where
  "local_fits source inp \<longleftrightarrow> (\<forall>i \<in> set (pi_Items inp). taxable (it_Amount i)) \<and>
    taxable (sh_Amount (pi_Shipping inp)) \<and>
    (\<forall>t. loadRates source (pi_RegionIDs inp) = Inr t \<longrightarrow> stacks_within t)"

lemma stack_walk_length:
  "stack_walk t current stack = Inr res \<Longrightarrow> length stack < maxStackDepth \<Longrightarrow>
    \<exists>rest. res = stack @ current # rest \<and> length res \<le> maxStackDepth"
proof (induction t current stack rule: stack_walk.induct)
  case (1 t current stack)
  show ?case
  proof (cases "t_standing t (ra_ID current)")
    case None
    with "1.prems" show ?thesis by (subst (asm) stack_walk.simps) auto
  next
    case (Some nx)
    have "stack_walk t current stack = (if length (stack @ [current]) \<ge> maxStackDepth
        then Inl (Internal CodeInconsistentConfig) else stack_walk t nx (stack @ [current]))"
      by (subst stack_walk.simps) (simp add: Some Let_def)
    with "1.prems"(1) have lt: "\<not> length (stack @ [current]) \<ge> maxStackDepth"
      and rec: "stack_walk t nx (stack @ [current]) = Inr res"
      by (simp_all split: if_splits)
    from "1.IH" [OF refl Some lt rec] lt show ?thesis by auto
  qed
qed

lemma stackFrom_shape:
  assumes "stackFrom t base = Inr stack"
  shows "\<exists>rest. stack = base # rest \<and> length stack \<le> maxStackDepth"
  using stack_walk_length [of t base "[]" stack] assms by (simp add: stackFrom_def maxStackDepth_def)

lemma apply_stack_rates_ok:
  assumes "apply_stack amount chain totl comps = Inr res" "totl \<le> MaxTaxableAmount"
  shows "\<forall>r \<in> set chain. rate_ok (ra_RateBps r)"
  using assms
proof (induction chain arbitrary: totl comps)
  case (Cons r chain)
  note st = apply_stack_Cons [OF Cons.prems]
  from Cons.IH [OF st(7,6)] st(2) show ?case by simp
qed simp

lemma single_within: "rate_ok (ra_RateBps r) \<Longrightarrow> assertStackWithinBase [r] = None"
proof -
  assume r: "rate_ok (ra_RateBps r)"
  then have "chain_ok [r]" by (simp add: chain_ok_def maxStackDepth_def)
  moreover have "ceil_component 0 r \<le> notionalBase" using ceil_component_bounds(2) [of 0 r] r by simp
  ultimately show ?thesis by (simp add: assertStackWithinBase_def stack_taken_eq)
qed

lemma stack_line_lawful:
  assumes "stackFrom t rate = Inr stack" "stacks_within t" "taxable amount"
    and run: "apply_stack amount stack 0 [] = Inr (tax, comps)"
  shows "0 \<le> tax \<and> tax \<le> amount \<and> rate_ok (ra_RateBps (stack ! 0)) \<and>
    lawful_components (if length stack > 1 then comps else []) tax"
proof -
  from stackFrom_shape [OF assms(1)] obtain rest where
    st: "stack = rate # rest" "length stack \<le> maxStackDepth" by blast
  have z: "(0 :: int) \<le> MaxTaxableAmount" by (simp add: MaxTaxableAmount_def)
  note rates = apply_stack_rates_ok [OF run z]
  have ok: "chain_ok stack" using st rates by (simp add: chain_ok_def)
  have "assertStackWithinBase stack = None"
  proof (cases "2 \<le> length stack")
    case True
    with assms(1,2) show ?thesis by (simp add: stacks_within_def)
  next
    case False
    with st rates show ?thesis using single_within [of rate] by (cases rest) auto
  qed
  from stack_charge_within [OF ok this assms(3) run] have "0 \<le> tax" "tax \<le> amount" by auto
  moreover from apply_stack_components [OF z run] have
    "lawful_components (if length stack > 1 then comps else []) tax"
    using st(2) by (auto simp: lawful_components_def)
  ultimately show ?thesis using st(1) rates by simp
qed

lemma applyTo_lawful:
  assumes "applyTo t keys eid amount included = Inr l" "stacks_within t" "taxable amount"
  shows "pt_ID l = eid \<and> lawful_line included amount l"
proof (cases "selectRate t keys")
  case None
  with assms show ?thesis
    by (auto simp: applyTo_def untaxed_line_def lawful_line_def lawful_components_def rate_ok_def
        tax_bounds taxable_def)
next
  case (Some rate)
  then obtain stack where stack: "stackFrom t rate = Inr stack"
    using assms(1) by (auto simp: applyTo_def split: sum.splits)
  show ?thesis
  proof (cases included)
    case True
    with assms(1) Some stack obtain tax where tax: "TaxIncludedIn amount (ra_RateBps rate) = Inr tax"
      and l: "l = \<lparr> pt_ID = eid, pt_RateID = ra_ID rate, pt_RateBps = ra_RateBps rate, pt_TaxAmount = tax,
                 pt_TaxableAmount = sub64 amount tax, pt_Components = [] \<rparr>"
      by (auto simp: applyTo_def split: sum.splits if_splits)
    have r: "rate_ok (ra_RateBps rate)"
      using tax by (auto simp: TaxIncludedIn_def rate_ok_def split: if_splits)
    have t: "0 \<le> tax" "tax \<le> amount"
      using TaxIncludedIn_eq [OF assms(3) r] tax_le(3,4) [OF assms(3) r] tax by simp_all
    have "sub64 amount tax = amount - tax"
      by (rule sub64_id, rule is_i64_between [where b = MaxTaxableAmount])
        (use t assms(3) in \<open>auto simp: taxable_def MaxTaxableAmount_def MaxInt64_def\<close>)
    with l t r show ?thesis by (simp add: lawful_line_def lawful_components_def)
  next
    case False
    with assms(1) Some stack obtain tax comps where run: "apply_stack amount stack 0 [] = Inr (tax, comps)"
      and l: "l = \<lparr> pt_ID = eid, pt_RateID = ra_ID (stack ! 0), pt_RateBps = ra_RateBps (stack ! 0),
                 pt_TaxAmount = tax, pt_TaxableAmount = amount,
                 pt_Components = (if length stack > 1 then comps else []) \<rparr>"
      by (auto simp: applyTo_def split: sum.splits)
    from stack_line_lawful [OF stack assms(2,3) run] l False show ?thesis
      by (simp add: lawful_line_def)
  qed
qed

lemma apply_items_lawful:
  assumes "apply_items t included items = Inr ls" "stacks_within t" "\<forall>i \<in> set items. taxable (it_Amount i)"
  shows "map pt_ID ls = map it_ID items \<and>
    list_all2 (\<lambda>i l. lawful_line included (it_Amount i) l) items ls"
  using assms
proof (induction items arbitrary: ls)
  case (Cons i items)
  then obtain l ls' where l: "applyTo t (itemKeys i) (it_ID i) (it_Amount i) included = Inr l"
    "apply_items t included items = Inr ls'" "ls = l # ls'"
    by (auto split: sum.splits)
  from applyTo_lawful [OF l(1) Cons.prems(2)] Cons.IH [OF l(2) Cons.prems(2)] Cons.prems(3) l(3)
  show ?case by simp
qed simp

lemma untaxed_lawful: "0 \<le> amount \<Longrightarrow> lawful_line included amount (untaxed_line eid amount)"
  by (simp add: untaxed_line_def lawful_line_def lawful_components_def rate_ok_def tax_bounds)

lemma local_Calculate_lawful:
  assumes fits: "local_fits source inp" and raw: "local_Calculate source inp = Inr raw"
  shows "map pt_ID (pr_Items raw) = map it_ID (pi_Items inp) \<and>
    list_all2 (\<lambda>i l. lawful_line (pi_PricesIncludeTax inp) (it_Amount i) l) (pi_Items inp) (pr_Items raw) \<and>
    (pi_RegionIDs inp \<noteq> [] \<longrightarrow>
      lawful_line (pi_PricesIncludeTax inp) (shipping_base (pi_Shipping inp)) (pr_Shipping raw))"
proof (cases "pi_RegionIDs inp = [] \<or> (pi_Items inp = [] \<and> \<not> sh_Taxable (pi_Shipping inp))")
  case True
  then have "raw = \<lparr> pr_Items = map (\<lambda>i. untaxed_line (it_ID i) (it_Amount i)) (pi_Items inp),
             pr_Shipping = untaxed_line ShippingLineID 0 \<rparr>"
    using raw by (simp add: local_Calculate_def split: if_splits)
  with True fits show ?thesis
    using untaxed_lawful
    by (auto simp: list_all2_conv_all_nth untaxed_line_def local_fits_def taxable_def shipping_base_def comp_def)
next
  case False
  then obtain t lines where t: "loadRates source (pi_RegionIDs inp) = Inr t"
    and lines: "apply_items t (pi_PricesIncludeTax inp) (pi_Items inp) = Inr lines" "pr_Items raw = lines"
    using raw by (auto simp: local_Calculate_def split: sum.splits if_splits)
  have st: "stacks_within t" and it: "\<forall>i \<in> set (pi_Items inp). taxable (it_Amount i)"
    and sh: "taxable (sh_Amount (pi_Shipping inp))"
    using fits t by (auto simp: local_fits_def)
  have "lawful_line (pi_PricesIncludeTax inp) (shipping_base (pi_Shipping inp)) (pr_Shipping raw)"
  proof (cases "sh_Taxable (pi_Shipping inp)")
    case True
    then obtain l where "applyTo t (shippingKeys (pi_Shipping inp)) ShippingLineID
        (sh_Amount (pi_Shipping inp)) (pi_PricesIncludeTax inp) = Inr l" "pr_Shipping raw = l"
      using raw False t lines(1) by (auto simp: local_Calculate_def split: sum.splits if_splits)
    with applyTo_lawful [OF _ st sh] True show ?thesis by (simp add: shipping_base_def)
  next
    case no: False
    then have "pr_Shipping raw = untaxed_line ShippingLineID 0"
      using raw False t lines(1) by (auto simp: local_Calculate_def split: if_splits)
    with no show ?thesis using untaxed_lawful [of 0] by (simp add: shipping_base_def)
  qed
  with apply_items_lawful [OF lines(1) st it] lines(2) show ?thesis by simp
qed

interpretation local: lawful_provider local_Calculate
  "\<lambda>source inp. local_fits source inp \<and> pi_RegionIDs inp \<noteq> []"
  by unfold_locales (use local_Calculate_lawful in blast)+

text \<open>the local provider is never blamed for its answer. If the stacks of its rates pass the
  write-time check, then whatever the cart, the validation accepts the local provider's answer; the
  only failure left is a sum of taxes above the bound, with the code \<open>CodeAmountOverflow\<close>.\<close>

theorem local_answer_accepted:
  assumes "local_fits source inp" and "pi_RegionIDs inp \<noteq> []" and "local_Calculate source inp = Inr raw"
    and "ci_Items norm = pi_Items inp" "ci_Shipping norm = pi_Shipping inp"
    and "distinct (map it_ID (pi_Items inp))"
    and "assembleResult norm raw LocalProviderID (pi_PricesIncludeTax inp) = Inl e"
  shows "CodeOf e = CodeAmountOverflow"
proof (rule local.answer_accepted [OF conjI [OF assms(1,2)] assms(3-6) _ _ assms(7)])
  show "\<forall>i \<in> set (pi_Items inp). taxable (it_Amount i)" "taxable (sh_Amount (pi_Shipping inp))"
    using assms(1) by (simp_all add: local_fits_def)
qed

definition ex_source :: "int \<Rightarrow> rate_source" where
  "ex_source bps = \<lparr> src_ListTaxRatesByRegions = (\<lambda>_. Inr [ex_rate ''r1'' ''TR'' bps True None False]),
     src_ListTaxRateRulesByRates = (\<lambda>_. Inr []) \<rparr>"

definition ex_item :: "string \<Rightarrow> int64 \<Rightarrow> taxable_item" where
  "ex_item i a = \<lparr> it_ID = i, it_ProductID = ''p'', it_ProductTypeID = [], it_TaxClassID = [], it_Amount = a \<rparr>"

definition ex_shipping :: shipping_input where
  "ex_shipping = \<lparr> sh_OptionID = [], sh_Amount = 100, sh_Taxable = True \<rparr>"

definition ex_calc :: "taxable_item list \<Rightarrow> calculate_input" where
  "ex_calc items = \<lparr> ci_CountryCode = [116, 114], ci_ProvinceCode = [], ci_Items = items, ci_Shipping = ex_shipping \<rparr>"

definition ex_input :: "taxable_item list \<Rightarrow> bool \<Rightarrow> provider_input" where
  "ex_input items included = \<lparr> pi_RegionIDs = [''TR''], pi_CountryCode = ''TR'', pi_ProvinceCode = [],
     pi_Items = items, pi_Shipping = ex_shipping, pi_PricesIncludeTax = included \<rparr>"

definition ex_registry :: "(string \<Rightarrow> error + tax_provider) option" where
  "ex_registry = Some (\<lambda>_. Inr \<lparr> tp_ID = LocalProviderID, tp_Calculate = (\<lambda>_. Inr
     \<lparr> pr_Items = [untaxed_line ''i'' 999], pr_Shipping = untaxed_line ShippingLineID 100 \<rparr>) \<rparr>)"

lemma ex_source_stacks: "loadRates (ex_source bps) regions = Inr t \<Longrightarrow> stacks_within t"
proof -
  assume "loadRates (ex_source bps) regions = Inr t"
  then have "t_standing t b = None" for b
    by (auto simp: loadRates_def loadRateRows_def ex_source_def ex_rate_def newRateTable_fields smallest_def
        split: if_splits)
  then have "stackFrom t base = Inr [base]" for base
    by (simp add: stackFrom_def, subst stack_walk.simps) simp
  then show ?thesis by (simp add: stacks_within_def)
qed

theorem local_answer_accepted_witness:
  "\<exists>raw e. local_Calculate (ex_source 10000)
      (ex_input [ex_item ''i'' 1000000000000000000, ex_item ''j'' 1000000000000000000] False) = Inr raw \<and>
    assembleResult (ex_calc [ex_item ''i'' 1000000000000000000, ex_item ''j'' 1000000000000000000]) raw
      LocalProviderID False = Inl e \<and> CodeOf e = CodeAmountOverflow"
proof -
  let ?items = "[ex_item ''i'' 1000000000000000000, ex_item ''j'' 1000000000000000000]"
  let ?in = "ex_input ?items False"
  let ?raw = "projr (local_Calculate (ex_source 10000) ?in)"
  let ?res = "assembleResult (ex_calc ?items) ?raw LocalProviderID False"
  have "\<not> isl (local_Calculate (ex_source 10000) ?in) \<and> isl ?res" by code_simp
  then have raw: "local_Calculate (ex_source 10000) ?in = Inr ?raw" and res: "?res = Inl (projl ?res)"
    by (auto simp: isl_def)
  have "local_fits (ex_source 10000) ?in"
    unfolding local_fits_def using ex_source_stacks
    by (auto simp: ex_input_def ex_item_def ex_shipping_def taxable_def MaxTaxableAmount_def)
  from local_answer_accepted [OF this _ raw, of "ex_calc ?items" "projl ?res"] raw res show ?thesis
    by (auto simp: ex_input_def ex_calc_def ex_item_def)
qed

theorem calculate_tax_identity_witness:
  "\<exists>res. CalculateTax (\<lambda>s. s) ex_repo ex_registry (ex_calc [ex_item ''i'' 999]) = Inr res \<and>
    cr_TaxTotal res = sum_list (map ix_TaxAmount (cr_Items res)) + ix_TaxAmount (cr_Shipping res)"
proof -
  let ?r = "CalculateTax (\<lambda>s. s) ex_repo ex_registry (ex_calc [ex_item ''i'' 999])"
  have "\<not> isl ?r" by code_simp
  then obtain res where r: "?r = Inr res" by (cases ?r) auto
  have "int64_registry ex_registry"
    by (auto simp: int64_registry_def ex_registry_def int64_result_def int64_line_def untaxed_line_def
        is_i64_def MinInt64_def MaxInt64_def)
  from calculate_tax_identity [OF r this] r show ?thesis by blast
qed

end
