(* ===== verification/GoStrings.thy ===== *)
theory GoStrings
  imports Prelude "HOL-Library.Sublist"
begin

text \<open>
  What the modelled code uses of Go's \<^verbatim>\<open>strings\<close> and \<^verbatim>\<open>strconv\<close> packages, on byte strings.

  \<open>strings_TrimSpace\<close> removes the white space of Unicode, given by its UTF-8 encodings, from both ends.
  \<open>strings_ToUpper\<close> is written out where its result can be ASCII: the lower-case ASCII letters and the
  two runes outside ASCII whose upper case is an ASCII letter, the dotless i (U+0131) and the long
  s (U+017F). Every other rune outside ASCII has its upper case outside ASCII and is kept as it is;
  the callers refuse a result that is not ASCII, so they cannot tell. \<open>ParseInt\<close> is
  \<open>strconv.ParseInt(s, 10, 64)\<close>: an optional sign and at least one decimal digit, and a value
  within \<open>int64\<close>; its errors are not told apart. \<open>FormatInt\<close> is \<open>strconv.FormatInt(i, 10)\<close>.
\<close>

section \<open>White space\<close>

definition space_runes :: "string list" where
  "space_runes =
    [[CHR 0x09], [CHR 0x0A], [CHR 0x0B], [CHR 0x0C], [CHR 0x0D], [CHR 0x20],
     [CHR 0xC2, CHR 0x85], [CHR 0xC2, CHR 0xA0], [CHR 0xE1, CHR 0x9A, CHR 0x80],
     [CHR 0xE2, CHR 0x80, CHR 0x80], [CHR 0xE2, CHR 0x80, CHR 0x81], [CHR 0xE2, CHR 0x80, CHR 0x82],
     [CHR 0xE2, CHR 0x80, CHR 0x83], [CHR 0xE2, CHR 0x80, CHR 0x84], [CHR 0xE2, CHR 0x80, CHR 0x85],
     [CHR 0xE2, CHR 0x80, CHR 0x86], [CHR 0xE2, CHR 0x80, CHR 0x87], [CHR 0xE2, CHR 0x80, CHR 0x88],
     [CHR 0xE2, CHR 0x80, CHR 0x89], [CHR 0xE2, CHR 0x80, CHR 0x8A], [CHR 0xE2, CHR 0x80, CHR 0xA8],
     [CHR 0xE2, CHR 0x80, CHR 0xA9], [CHR 0xE2, CHR 0x80, CHR 0xAF], [CHR 0xE2, CHR 0x81, CHR 0x9F],
     [CHR 0xE3, CHR 0x80, CHR 0x80]]"

definition strip_rune :: "string list \<Rightarrow> string \<Rightarrow> string option" where
  "strip_rune runes s =
    (case find (\<lambda>q. q \<noteq> [] \<and> prefix q s) runes of
      None \<Rightarrow> None | Some q \<Rightarrow> Some (drop (length q) s))"

lemma strip_rune_shorter: "strip_rune runes s = Some t \<Longrightarrow> length t < length s"
  by (auto simp: strip_rune_def find_Some_iff split: option.splits)
    (metis diff_less length_greater_0_conv less_le_trans prefix_length_le)

function strip_all :: "string list \<Rightarrow> string \<Rightarrow> string" where
  "strip_all runes s = (case strip_rune runes s of None \<Rightarrow> s | Some t \<Rightarrow> strip_all runes t)"
  by pat_completeness auto
termination
  by (relation "measure (\<lambda>(_, s). length s)") (auto simp: strip_rune_shorter)

declare strip_all.simps [simp del]

definition strings_TrimSpace :: "string \<Rightarrow> string" where
  "strings_TrimSpace s = rev (strip_all (map rev space_runes) (rev (strip_all space_runes s)))"

section \<open>Upper case\<close>

definition lower_char :: "char \<Rightarrow> bool" where
  "lower_char c \<longleftrightarrow> 97 \<le> (of_char c :: nat) \<and> (of_char c :: nat) \<le> 122"

definition upper_char :: "char \<Rightarrow> bool" where
  "upper_char c \<longleftrightarrow> 65 \<le> (of_char c :: nat) \<and> (of_char c :: nat) \<le> 90"

definition digit_char :: "char \<Rightarrow> bool" where
  "digit_char c \<longleftrightarrow> 48 \<le> (of_char c :: nat) \<and> (of_char c :: nat) \<le> 57"

definition raise_char :: "char \<Rightarrow> char" where
  "raise_char c = (if lower_char c then char_of ((of_char c :: nat) - 32) else c)"

fun strings_ToUpper :: "string \<Rightarrow> string" where
  "strings_ToUpper [] = []"
| "strings_ToUpper [c] = [raise_char c]"
| "strings_ToUpper (c # d # s) =
    (if c = CHR 0xC4 \<and> d = CHR 0xB1 then CHR ''I'' # strings_ToUpper s
     else if c = CHR 0xC5 \<and> d = CHR 0xBF then CHR ''S'' # strings_ToUpper s
     else raise_char c # strings_ToUpper (d # s))"

section \<open>Integers\<close>

definition digit_val :: "char \<Rightarrow> int" where
  "digit_val c = int (of_char c) - 48"

definition digits_val :: "string \<Rightarrow> int" where
  "digits_val ds = fold (\<lambda>c n. n * 10 + digit_val c) ds 0"

definition ParseInt :: "string \<Rightarrow> int64 option" where
  "ParseInt s =
    (let (neg, ds) =
       (case s of [] \<Rightarrow> (False, [])
        | c # cs \<Rightarrow> if c = CHR ''-'' then (True, cs) else if c = CHR ''+'' then (False, cs) else (False, s)) in
     if ds = [] \<or> \<not> list_all digit_char ds then None
     else
       (let v = (if neg then - digits_val ds else digits_val ds) in
        if MinInt64 \<le> v \<and> v \<le> MaxInt64 then Some v else None))"

fun format_nat :: "nat \<Rightarrow> string" where
  "format_nat n =
    (if n < 10 then [char_of (n + 48)] else format_nat (n div 10) @ [char_of (n mod 10 + 48)])"

declare format_nat.simps [simp del]

definition FormatInt :: "int64 \<Rightarrow> string" where
  "FormatInt i = (if i < 0 then CHR ''-'' # format_nat (nat (- i)) else format_nat (nat i))"

section \<open>Lemmas\<close>

lemma digits_val_append: "digits_val (xs @ [c]) = digits_val xs * 10 + digit_val c"
  by (simp add: digits_val_def)

lemma format_nat_props:
  "format_nat n \<noteq> [] \<and> list_all digit_char (format_nat n) \<and> digits_val (format_nat n) = int n"
proof (induction n rule: format_nat.induct)
  case (1 n)
  have d: "digit_char (char_of (k + 48))" "digit_val (char_of (k + 48)) = int k" if "k < 10" for k :: nat
    using that by (simp_all add: digit_char_def digit_val_def)
  show ?case
  proof (cases "n < 10")
    case True
    then show ?thesis using d [of n] by (simp add: format_nat.simps [of n] digits_val_def)
  next
    case False
    have "int (n div 10) * 10 + int (n mod 10) = int n"
      by presburger
    with False 1 [OF False] d [of "n mod 10"] show ?thesis
      by (simp add: format_nat.simps [of n] digits_val_append)
  qed
qed

lemma format_nat_head: "format_nat n \<noteq> [] \<and> hd (format_nat n) \<noteq> CHR ''-'' \<and> hd (format_nat n) \<noteq> CHR ''+''"
proof -
  have "digit_char (hd (format_nat n))"
    using format_nat_props [of n] by (cases "format_nat n") simp_all
  then have "hd (format_nat n) \<noteq> CHR ''-'' \<and> hd (format_nat n) \<noteq> CHR ''+''"
    by (auto simp: digit_char_def)
  then show ?thesis using format_nat_props [of n] by simp
qed

lemma ParseInt_FormatInt:
  assumes "is_i64 i"
  shows "ParseInt (FormatInt i) = Some i"
proof (cases "i < 0")
  case True
  then show ?thesis
    using format_nat_props [of "nat (- i)"] assms by (simp add: ParseInt_def FormatInt_def is_i64_def)
next
  case False
  obtain c cs where c: "format_nat (nat i) = c # cs" "c \<noteq> CHR ''-''" "c \<noteq> CHR ''+''"
    using format_nat_head [of "nat i"] by (cases "format_nat (nat i)") auto
  then show ?thesis
    using False format_nat_props [of "nat i"] assms by (simp add: ParseInt_def FormatInt_def is_i64_def)
qed

lemma ParseInt_range: "ParseInt s = Some v \<Longrightarrow> is_i64 v"
  by (auto simp: ParseInt_def is_i64_def Let_def split: list.splits if_splits)

end
