(* ===== verification/Condition.thy ===== *)
theory Condition
  imports GoStrings
begin

text \<open>
  The rule condition shared by prices, shipping options and promotions, of
  \<^verbatim>\<open>internal/core/condition/condition.go\<close>.

  An operator is a string, as in the code: a row written by hand can carry a word outside the
  vocabulary, and what \<open>Match\<close> does with it is part of the contract. The properties state which
  conditions can never match, that the operators are the comparisons they are named after, and
  that a condition a writer accepts can be met, with two exceptions.
\<close>

section \<open>The vocabulary\<close>

type_synonym operator = string

definition Eq :: operator where "Eq = ''eq''"
definition Ne :: operator where "Ne = ''ne''"
definition In :: operator where "In = ''in''"
definition Nin :: operator where "Nin = ''nin''"
definition Gt :: operator where "Gt = ''gt''"
definition Gte :: operator where "Gte = ''gte''"
definition Lt :: operator where "Lt = ''lt''"
definition Lte :: operator where "Lte = ''lte''"
definition AnyIn :: operator where "AnyIn = ''any_in''"

lemmas operator_defs = Eq_def Ne_def In_def Nin_def Gt_def Gte_def Lt_def Lte_def AnyIn_def

definition Operators :: "operator list" where
  "Operators = [Eq, Ne, In, Nin, Gt, Gte, Lt, Lte, AnyIn]"

definition Numeric :: "operator \<Rightarrow> bool" where
  "Numeric op \<longleftrightarrow> op = Gt \<or> op = Gte \<or> op = Lt \<or> op = Lte"

definition MultiValue :: "operator \<Rightarrow> bool" where
  "MultiValue op \<longleftrightarrow> op = In \<or> op = Nin \<or> op = AnyIn"

definition ReadsAList :: "operator \<Rightarrow> bool" where
  "ReadsAList op \<longleftrightarrow> op = AnyIn"

definition Readable :: "operator \<Rightarrow> string \<Rightarrow> bool" where
  "Readable op v =
    (if v = [] then False
     else if Numeric op then ParseInt v \<noteq> None
     else True)"

definition Compare :: "operator \<Rightarrow> int64 \<Rightarrow> int64 \<Rightarrow> bool" where
  "Compare op lhs rhs =
    (if op = Eq then lhs = rhs
     else if op = Ne then lhs \<noteq> rhs
     else if op = Gt then lhs > rhs
     else if op = Gte then lhs \<ge> rhs
     else if op = Lt then lhs < rhs
     else if op = Lte then lhs \<le> rhs
     else False)"

definition Match :: "operator \<Rightarrow> string list \<Rightarrow> string \<Rightarrow> bool \<Rightarrow> string list \<Rightarrow> bool" where
  "Match op values v present xs =
    (if values = [] then False
     else if \<not> list_all (Readable op) values then False
     else if ReadsAList op then list_ex (\<lambda>i. i \<in> set values) xs
     else if \<not> present then False
     else if op = Eq then v = values ! 0
     else if op = Ne then v \<noteq> values ! 0
     else if op = In then v \<in> set values
     else if op = Nin then v \<notin> set values
     else if op = Gt \<or> op = Gte \<or> op = Lt \<or> op = Lte then
       (case ParseInt v of
         None \<Rightarrow> False
       | Some lhs \<Rightarrow>
           (case ParseInt (values ! 0) of
             None \<Rightarrow> False
           | Some rhs \<Rightarrow> Compare op lhs rhs))
     else False)"

lemma Match_numeric:
  assumes "Numeric op" "ParseInt (values ! 0) = Some rhs" "values \<noteq> []" "list_all (Readable op) values"
  shows "Match op values v True xs = (case ParseInt v of None \<Rightarrow> False | Some h \<Rightarrow> Compare op h rhs)"
  using assms unfolding Match_def Numeric_def ReadsAList_def by (auto simp: operator_defs split: option.splits)

section \<open>Properties\<close>

text \<open>A condition that cannot be read, or that the context says nothing about, never opens
  anything. A condition without values, with an empty value, with a value a numeric operator
  cannot parse, or with a word outside the vocabulary does not match, whatever the context; a
  context without the attribute matches no operator that reads the single value, the negative
  ones included; and \<open>any_in\<close> depends on the list alone, every other operator on the value
  alone.\<close>

theorem condition_closed:
  "(values = [] \<or> [] \<in> set values \<or> op \<notin> set Operators \<or>
      Numeric op \<and> (\<exists>w \<in> set values. ParseInt w = None) \<longrightarrow> \<not> Match op values v present xs) \<and>
   (op \<noteq> AnyIn \<longrightarrow> \<not> Match op values v False xs) \<and>
   (op = AnyIn \<longrightarrow> Match op values v present xs = Match op values v' present' xs \<and> \<not> Match op values v present []) \<and>
   (op \<noteq> AnyIn \<longrightarrow> Match op values v present xs = Match op values v present ys)"
proof (intro conjI impI)
  assume bad: "values = [] \<or> [] \<in> set values \<or> op \<notin> set Operators \<or>
      Numeric op \<and> (\<exists>w \<in> set values. ParseInt w = None)"
  show "\<not> Match op values v present xs"
  proof (cases "values = [] \<or> \<not> list_all (Readable op) values")
    case True
    then show ?thesis by (auto simp: Match_def)
  next
    case False
    then have "w \<noteq> [] \<and> (Numeric op \<longrightarrow> ParseInt w \<noteq> None)" if "w \<in> set values" for w
      using that by (auto simp: list_all_iff Readable_def split: if_splits)
    with bad False have "op \<notin> set Operators" by blast
    then show ?thesis by (simp add: Match_def Operators_def ReadsAList_def)
  qed
qed (simp_all add: Match_def ReadsAList_def)

theorem condition_closed_witness:
  "\<not> Match Gt [''ten''] ''50'' True [] \<and> \<not> Match ''like'' [''a''] ''a'' True [''a''] \<and>
   \<not> Match Ne [''vip''] ''retail'' False [] \<and> Match Ne [''vip''] ''retail'' True []"
proof -
  have "Numeric Gt" "ParseInt ''ten'' = None" "''like'' \<notin> set Operators" "Ne \<noteq> AnyIn"
    "Match Ne [''vip''] ''retail'' True []" by code_simp+
  then show ?thesis
    using condition_closed [of "[''ten'']" Gt "''50''" True "[]" "[]" True "[]"]
      condition_closed [of "[''a'']" "''like''" "''a''" True "[''a'']" "[]" True "[]"]
      condition_closed [of "[''vip'']" Ne "''retail''" True "[]" "[]" True "[]"]
    by simp
qed

text \<open>The operators are the comparisons they are named after. On a readable condition and a
  present value, \<open>ne\<close> is the negation of \<open>eq\<close> and \<open>nin\<close> of \<open>in\<close>, \<open>eq\<close> on one value is \<open>in\<close> on
  it, and for a value and a threshold given as the decimal notations of two \<open>int64\<close> numbers the
  four numeric operators are the four comparisons of those numbers, not of the strings.\<close>

theorem condition_comparisons:
  assumes "values \<noteq> []" and "[] \<notin> set values" and "is_i64 m" and "is_i64 n"
  shows "(Match Ne values v True xs \<longleftrightarrow> \<not> Match Eq values v True xs) \<and>
    (Match Nin values v True xs \<longleftrightarrow> \<not> Match In values v True xs) \<and>
    Match Eq [hd values] v True xs = Match In [hd values] v True xs \<and>
    (Match Gt [FormatInt n] (FormatInt m) True xs \<longleftrightarrow> m > n) \<and>
    (Match Gte [FormatInt n] (FormatInt m) True xs \<longleftrightarrow> m \<ge> n) \<and>
    (Match Lt [FormatInt n] (FormatInt m) True xs \<longleftrightarrow> m < n) \<and>
    (Match Lte [FormatInt n] (FormatInt m) True xs \<longleftrightarrow> m \<le> n)"
proof -
  have r: "list_all (Readable op) values" "Readable op (hd values)" if "\<not> Numeric op" for op
    using assms(1,2) that by (auto simp: list_all_iff Readable_def Let_def hd_in_set) (metis hd_in_set)
  have strings: "(Match Ne values v True xs \<longleftrightarrow> \<not> Match Eq values v True xs)"
    "(Match Nin values v True xs \<longleftrightarrow> \<not> Match In values v True xs)"
    "Match Eq [hd values] v True xs = Match In [hd values] v True xs"
    using assms(1) r [of Eq] r [of Ne] r [of In] r [of Nin]
    unfolding Match_def by (simp_all add: Numeric_def ReadsAList_def operator_defs)
  have num: "Match op [FormatInt n] (FormatInt m) True xs = Compare op m n" if "Numeric op" for op
  proof -
    have "FormatInt n \<noteq> []" using format_nat_props [of "nat n"] by (simp add: FormatInt_def)
    then have "list_all (Readable op) [FormatInt n]"
      by (simp add: Readable_def ParseInt_FormatInt assms(4))
    then show ?thesis
      using that by (simp add: Match_numeric [where rhs = n] ParseInt_FormatInt assms(3,4))
  qed
  show ?thesis
    using strings num [of Gt] num [of Gte] num [of Lt] num [of Lte]
    by (simp add: Numeric_def Compare_def operator_defs)
qed

theorem condition_comparisons_witness:
  "(Match Ne [''a'', ''b''] ''c'' True [] \<longleftrightarrow> \<not> Match Eq [''a'', ''b''] ''c'' True []) \<and>
   \<not> Match Gt [FormatInt 50000] (FormatInt 9) True [] \<and> Match Lt [FormatInt 50000] (FormatInt 9) True []"
proof -
  have "is_i64 9" "is_i64 50000" by (simp_all add: is_i64_def MinInt64_def MaxInt64_def)
  then show ?thesis
    using condition_comparisons [of "[''a'', ''b'']" 9 50000 "''c''" "[]"] by simp
qed

end
