(* ===== verification/PromoAllocate.thy ===== *)
theory PromoAllocate
  imports Prelude
begin

text \<open>
  The distribution of one discount over several lines, of
  \<^verbatim>\<open>internal/modules/promotion/service/allocate.go\<close>.

  \<open>allocateAcross\<close> is the largest-remainder method: every line first gets its proportional share
  rounded down, and the units the rounding dropped are handed out one by one to the lines whose
  share was cut the most. The model keeps the loop over the lines with its running \<open>assigned\<close>
  sum, the 128-bit product of \<open>mulDivMod\<close>, the three criteria of the sort and the loop that
  hands out the leftover. The lemmas give the closed form of the result; the properties state
  that it distributes the total exactly, how far a share is from its proportional value, who
  gets the leftover, and that the order in which the lines arrive does not matter.
\<close>

section \<open>The code\<close>

record alloc_line =
  al_ID :: string
  al_Amount :: int64

text \<open>\<open>uint64(x)\<close>, and \<open>bits.Mul64\<close> and \<open>bits.Div64\<close> of the standard library: the high and the
  low word of a product, and the quotient and the remainder of a two-word number.\<close>

definition uint64 :: "int64 \<Rightarrow> int" where "uint64 x = x mod 2 ^ 64"

definition Mul64 :: "int \<Rightarrow> int \<Rightarrow> int \<times> int" where
  "Mul64 x y = ((x * y) div 2 ^ 64, (x * y) mod 2 ^ 64)"

definition Div64 :: "int \<Rightarrow> int \<Rightarrow> int \<Rightarrow> int \<times> int" where
  "Div64 hi lo y = ((hi * 2 ^ 64 + lo) div y, (hi * 2 ^ 64 + lo) mod y)"

definition mulDivMod :: "int64 \<Rightarrow> int64 \<Rightarrow> int64 \<Rightarrow> int64 \<times> int64" where
  "mulDivMod a b d =
    (if a \<le> 0 \<or> b \<le> 0 \<or> d \<le> 0 then (0, 0)
     else
       (case Mul64 (uint64 a) (uint64 b) of
         (hi, lo) \<Rightarrow>
           if hi \<ge> uint64 d then (0, 0)
           else
             (case Div64 hi lo (uint64 d) of
               (q, r) \<Rightarrow>
                 if q > MaxInt64 \<or> r > MaxInt64 then (0, 0) else (wrap64 q, wrap64 r))))"

record share =
  s_index :: nat
  s_remainder :: int64
  s_amount :: int64
  s_id :: string

fun share_loop ::
    "int64 \<Rightarrow> int64 \<Rightarrow> alloc_line list \<Rightarrow> nat \<Rightarrow> int64 list \<Rightarrow> int64 \<Rightarrow> share list \<Rightarrow>
      int64 list \<times> int64 \<times> share list" where
  "share_loop totl base [] i out assigned shares = (out, assigned, shares)"
| "share_loop totl base (l # ls) i out assigned shares =
    (if al_Amount l \<le> 0 then share_loop totl base ls (i + 1) out assigned shares
     else
       (case mulDivMod totl (al_Amount l) base of
         (quo, rest) \<Rightarrow>
           share_loop totl base ls (i + 1) (out[i := quo]) (add64 assigned quo)
             (shares @ [\<lparr> s_index = i, s_remainder = rest, s_amount = al_Amount l,
                          s_id = al_ID l \<rparr>])))"

definition compareShares :: "share \<Rightarrow> share \<Rightarrow> int" where
  "compareShares a b =
    (let c = cmp_Compare (s_remainder b) (s_remainder a) in
     if c \<noteq> 0 then c
     else
       (let c' = cmp_Compare (s_amount b) (s_amount a) in
        if c' \<noteq> 0 then c' else cmp_Compare (s_id a) (s_id b)))"

fun leftover_loop :: "share list \<Rightarrow> int64 \<Rightarrow> int64 list \<Rightarrow> int64 list" where
  "leftover_loop [] leftover out = out"
| "leftover_loop (s # ss) leftover out =
    (if leftover > 0
     then leftover_loop ss (sub64 leftover 1) (out[s_index s := add64 (out ! s_index s) 1])
     else out)"

definition alloc_base :: "alloc_line list \<Rightarrow> int64" where
  "alloc_base lines =
    fold (\<lambda>l base. if al_Amount l > 0 then add64 base (al_Amount l) else base) lines 0"

definition allocateAcross :: "int64 \<Rightarrow> alloc_line list \<Rightarrow> int64 list" where
  "allocateAcross totl lines =
    (let out = replicate (length lines) 0 in
     if totl \<le> 0 \<or> lines = [] then out
     else
       (let base = alloc_base lines in
        if base \<le> 0 then out
        else
          (let totl' = (if totl > base then base else totl) in
           case share_loop totl' base lines 0 out 0 [] of
             (out', assigned, shares) \<Rightarrow>
               leftover_loop (SortFunc compareShares shares) (sub64 totl' assigned) out')))"

section \<open>The product does not wrap\<close>

text \<open>What a line counts for, the base of the distribution and the floor of a share.\<close>

definition pos_amount :: "alloc_line \<Rightarrow> int" where "pos_amount l = max 0 (al_Amount l)"

definition base_of :: "alloc_line list \<Rightarrow> int" where "base_of lines = sum_list (map pos_amount lines)"

definition quota :: "int \<Rightarrow> int \<Rightarrow> alloc_line \<Rightarrow> int" where
  "quota t b l = t * pos_amount l div b"

definition frac_of :: "int \<Rightarrow> int \<Rightarrow> alloc_line \<Rightarrow> int" where
  "frac_of t b l = t * pos_amount l mod b"

lemma pos_amount_nonneg [simp]: "0 \<le> pos_amount l"
  by (simp add: pos_amount_def)

lemma mulDivMod_exact:
  assumes "0 \<le> a" "a \<le> d" "0 \<le> b" "b \<le> d" "0 < d" "d \<le> MaxInt64"
  shows "mulDivMod a b d = (a * b div d, a * b mod d)"
proof (cases "a = 0 \<or> b = 0")
  case True
  then show ?thesis using assms by (auto simp: mulDivMod_def)
next
  case False
  then have ab: "0 < a" "0 < b" using assms by auto
  have u: "uint64 a = a" "uint64 b = b" "uint64 d = d"
    using assms by (simp_all add: uint64_def MaxInt64_def)
  have le: "a * b \<le> d * b" using assms by (intro mult_right_mono) simp_all
  have "a * b div 2 ^ 64 < d"
  proof -
    have "d * b < d * 2 ^ 64" using assms by (simp add: MaxInt64_def)
    with le have "a * b < d * 2 ^ 64" by linarith
    then show ?thesis by (simp add: div_less_iff_less_mult)
  qed
  moreover have "a * b div d \<le> b"
    using zdiv_mono1 [OF le \<open>0 < d\<close>] \<open>0 < d\<close> by simp
  moreover have "0 \<le> a * b div d"
    using ab \<open>0 < d\<close> by (simp add: pos_imp_zdiv_nonneg_iff)
  moreover have "0 \<le> a * b mod d" "a * b mod d < d" using \<open>0 < d\<close> by simp_all
  ultimately have le: "a * b mod d \<le> MaxInt64" "a * b div d \<le> MaxInt64"
    and nn: "0 \<le> a * b mod d" "0 \<le> a * b div d"
    using assms by linarith+
  have "wrap64 (a * b mod d) = a * b mod d" "wrap64 (a * b div d) = a * b div d"
    using le nn by (auto intro!: wrap64_id is_i64_between [where b = MaxInt64])
  with ab le \<open>a * b div 2 ^ 64 < d\<close> \<open>0 < d\<close> show ?thesis
    by (simp add: mulDivMod_def Mul64_def Div64_def u)
qed

lemma base_of_simps [simp]:
  "base_of [] = 0" "base_of (l # ls) = pos_amount l + base_of ls"
  by (simp_all add: base_of_def)

lemma base_of_nonneg [simp]: "0 \<le> base_of ls"
  by (induction ls) simp_all

lemma pos_amount_le_base: "l \<in> set ls \<Longrightarrow> pos_amount l \<le> base_of ls"
  by (induction ls) (auto simp: add_increasing add_increasing2)

lemma alloc_base_eq:
  assumes "base_of lines \<le> MaxInt64"
  shows "alloc_base lines = base_of lines"
proof -
  have "fold (\<lambda>l base. if al_Amount l > 0 then add64 base (al_Amount l) else base) lines b
      = b + base_of lines" if "0 \<le> b" "b + base_of lines \<le> MaxInt64" for b
    using that
  proof (induction lines arbitrary: b)
    case (Cons l ls)
    have "0 \<le> base_of ls" by simp
    then have "is_i64 (b + pos_amount l)" using Cons.prems
      by (intro is_i64_between [where b = "b + base_of (l # ls)"]) simp_all
    moreover have "0 \<le> b + pos_amount l" "b + pos_amount l + base_of ls \<le> MaxInt64"
      using Cons.prems by simp_all
    ultimately show ?case
      using Cons.IH [of "b + pos_amount l"] Cons.prems
      by (auto simp: pos_amount_def add64_id max_def)
  qed simp
  from this [of 0] show ?thesis using assms by (simp add: alloc_base_def)
qed

section \<open>The closed form\<close>

text \<open>The shares the loop collects, and what it computes.\<close>

fun shares_of :: "int \<Rightarrow> int \<Rightarrow> nat \<Rightarrow> alloc_line list \<Rightarrow> share list" where
  "shares_of t b i [] = []"
| "shares_of t b i (l # ls) =
    (if al_Amount l \<le> 0 then shares_of t b (i + 1) ls
     else \<lparr> s_index = i, s_remainder = frac_of t b l, s_amount = al_Amount l, s_id = al_ID l \<rparr>
       # shares_of t b (i + 1) ls)"

lemma quota_bounds:
  assumes "0 \<le> t" "t \<le> b" "0 < b"
  shows "0 \<le> quota t b l" "quota t b l \<le> pos_amount l"
proof -
  show "0 \<le> quota t b l" using assms by (simp add: quota_def pos_imp_zdiv_nonneg_iff)
  have "t * pos_amount l \<le> b * pos_amount l" using assms by (intro mult_right_mono) simp_all
  then have "t * pos_amount l div b \<le> b * pos_amount l div b" using assms by (intro zdiv_mono1)
  then show "quota t b l \<le> pos_amount l" using assms by (simp add: quota_def)
qed

lemma sum_quota_le:
  assumes "0 \<le> t" "t \<le> b" "0 < b"
  shows "sum_list (map (quota t b) ls) \<le> base_of ls"
  by (induction ls) (use quota_bounds [OF assms] in \<open>auto intro: add_mono\<close>)

lemma share_loop_eq:
  assumes t: "0 \<le> t" "t \<le> b" "0 < b" "b \<le> MaxInt64"
  shows "(\<forall>l \<in> set ls. pos_amount l \<le> b) \<Longrightarrow> 0 \<le> a \<Longrightarrow> a + base_of ls \<le> MaxInt64 \<Longrightarrow>
    share_loop t b ls (length pre) (pre @ replicate (length ls) 0) a shares =
      (pre @ map (quota t b) ls, a + sum_list (map (quota t b) ls), shares @ shares_of t b (length pre) ls)"
proof (induction ls arbitrary: pre a shares)
  case (Cons l ls)
  note q = quota_bounds [OF t(1-3), of l]
  have IH: "share_loop t b ls (length (pre @ [quota t b l])) ((pre @ [quota t b l]) @ replicate (length ls) 0)
        (a + quota t b l) sh =
      ((pre @ [quota t b l]) @ map (quota t b) ls, a + quota t b l + sum_list (map (quota t b) ls),
       sh @ shares_of t b (length (pre @ [quota t b l])) ls)" for sh
    using Cons.prems q by (intro Cons.IH) auto
  show ?case
  proof (cases "al_Amount l \<le> 0")
    case True
    then have "quota t b l = 0" by (simp add: quota_def pos_amount_def)
    with True IH [of shares] show ?thesis by simp
  next
    case False
    then have pa: "pos_amount l = al_Amount l" by (simp add: pos_amount_def)
    have md: "mulDivMod t (al_Amount l) b = (quota t b l, frac_of t b l)"
      using False Cons.prems(1) t pa by (simp add: mulDivMod_exact quota_def frac_of_def)
    have "a + quota t b l \<le> MaxInt64" using q Cons.prems(2,3) base_of_nonneg [of ls]
      unfolding base_of_simps by linarith
    then have "add64 a (quota t b l) = a + quota t b l"
      using q Cons.prems(2) by (intro add64_id is_i64_between [where b = MaxInt64]) simp_all
    with False md IH show ?thesis by (simp add: list_update_append)
  qed
qed simp

lemma shares_of_index:
  "map s_index (shares_of t b i ls) = map (\<lambda>k. i + k) (filter (\<lambda>k. al_Amount (ls ! k) > 0) [0..<length ls])"
proof (induction ls arbitrary: i)
  case (Cons l ls)
  have "filter (\<lambda>k. al_Amount ((l # ls) ! k) > 0) [0..<length (l # ls)] =
    (if al_Amount l > 0 then [0] else []) @ map Suc (filter (\<lambda>k. al_Amount (ls ! k) > 0) [0..<length ls])"
    by (simp add: upt_conv_Cons filter_map comp_def flip: map_Suc_upt del: upt_Suc)
  then show ?case by (simp add: Cons.IH)
qed simp

lemma leftover_loop_eq:
  assumes "distinct (map s_index ss)" "\<forall>s \<in> set ss. s_index s < length out"
    "k > 0 \<longrightarrow> (\<forall>s \<in> set ss. 0 \<le> out ! s_index s \<and> out ! s_index s < MaxInt64)"
    "0 \<le> k" "k \<le> int (length ss)" "k \<le> MaxInt64"
  shows "leftover_loop ss k out =
    map (\<lambda>j. out ! j + (if j \<in> set (map s_index (take (nat k) ss)) then 1 else 0)) [0..<length out]"
  using assms
proof (induction ss arbitrary: k out)
  case Nil
  then show ?case by (simp add: map_nth)
next
  case (Cons s ss)
  show ?case
  proof (cases "k > 0")
    case False
    with Cons.prems have "k = 0" by simp
    then show ?thesis by (simp add: map_nth)
  next
    case True
    define out' where "out' = out[s_index s := out ! s_index s + 1]"
    have a: "add64 (out ! s_index s) 1 = out ! s_index s + 1" and k: "sub64 k 1 = k - 1"
      using Cons.prems True by (auto intro!: add64_id sub64_id is_i64_between [where b = MaxInt64])
    have ne: "\<forall>x \<in> set ss. s_index x \<noteq> s_index s" using Cons.prems(1) by simp (metis image_eqI)
    have "leftover_loop ss (k - 1) out' = map (\<lambda>j. out' ! j +
        (if j \<in> set (map s_index (take (nat (k - 1)) ss)) then 1 else 0)) [0..<length out']"
      using Cons.prems True ne by (intro Cons.IH) (auto simp: out'_def)
    moreover have "nat k = Suc (nat (k - 1))" using True by simp
    moreover have "s_index s \<notin> s_index ` set (take (nat (k - 1)) ss)"
      using ne by (auto dest: in_set_takeD)
    ultimately show ?thesis
      using True Cons.prems(2) by (auto simp: a k out'_def nth_list_update)
  qed
qed

text \<open>The units the rounding drops are as many as the dropped fractions add up to, and fewer
  than the lines they are dropped from.\<close>

lemma quota_frac: "t * pos_amount l = b * quota t b l + frac_of t b l"
  by (simp add: quota_def frac_of_def)

lemma sum_quota_frac:
  "t * base_of ls = b * sum_list (map (quota t b) ls) + sum_list (map (frac_of t b) ls)"
  by (induction ls) (simp_all add: distrib_left quota_frac [of t _ b])

lemma sum_frac_bounds:
  assumes "0 < b"
  shows "0 \<le> sum_list (map (frac_of t b) ls)"
    and "sum_list (map (frac_of t b) ls) \<le> b * int (length (shares_of t b i ls))"
proof -
  have "0 \<le> frac_of t b l" and le: "frac_of t b l \<le> b" for l
    using assms pos_mod_bound [OF assms, of "t * pos_amount l"] by (simp_all add: frac_of_def less_imp_le)
  then show "0 \<le> sum_list (map (frac_of t b) ls)" by (induction ls) simp_all
  have "frac_of t b l = 0" if "al_Amount l \<le> 0" for l
    using that by (simp add: frac_of_def pos_amount_def)
  then show "sum_list (map (frac_of t b) ls) \<le> b * int (length (shares_of t b i ls))"
    by (induction ls arbitrary: i) (auto simp: distrib_left intro!: add_mono le)
qed

definition dropped :: "int \<Rightarrow> alloc_line list \<Rightarrow> int" where
  "dropped t lines = t - sum_list (map (quota t (base_of lines)) lines)"

lemma dropped_bounds:
  assumes "0 < base_of lines"
  shows "0 \<le> dropped t lines" "dropped t lines \<le> int (length (shares_of t (base_of lines) i lines))"
proof -
  let ?b = "base_of lines"
  have e: "?b * dropped t lines = sum_list (map (frac_of t ?b) lines)"
    using sum_quota_frac [of t lines ?b] by (simp add: dropped_def right_diff_distrib mult.commute [of t])
  have "0 \<le> ?b * dropped t lines"
    using sum_frac_bounds(1) [OF assms, of t lines] e by simp
  then show "0 \<le> dropped t lines" using assms by (simp add: zero_le_mult_iff)
  have "?b * dropped t lines \<le> ?b * int (length (shares_of t ?b i lines))"
    using sum_frac_bounds(2) [OF assms, of t lines i] e by simp
  then show "dropped t lines \<le> int (length (shares_of t ?b i lines))"
    using assms by (simp add: mult_le_cancel_left_pos)
qed

lemma dropped_full: "dropped (base_of lines) lines = 0"
proof (cases "base_of lines = 0")
  case False
  then have "0 < base_of lines" using base_of_nonneg [of lines] by linarith
  then have "quota (base_of lines) (base_of lines) = pos_amount" by (simp add: quota_def fun_eq_iff)
  then show ?thesis by (simp add: dropped_def base_of_def)
next
  case True
  then have "quota (base_of lines) (base_of lines) = (\<lambda>l. 0)" by (simp add: quota_def fun_eq_iff)
  with True show ?thesis by (simp add: dropped_def)
qed

lemma quota_less:
  assumes "0 \<le> t" "t < b" "0 < pos_amount l"
  shows "quota t b l < pos_amount l"
proof -
  have "0 \<le> frac_of t b l" using assms by (simp add: frac_of_def)
  then have "b * quota t b l \<le> t * pos_amount l" using quota_frac [of t l b] by linarith
  also have "\<dots> < b * pos_amount l" using assms by (simp add: mult_strict_right_mono)
  finally show ?thesis using assms by (simp add: mult_less_cancel_left_pos)
qed

text \<open>The lines that get one of the dropped units.\<close>

definition winners :: "int \<Rightarrow> alloc_line list \<Rightarrow> share list" where
  "winners t lines =
    take (nat (dropped t lines)) (SortFunc compareShares (shares_of t (base_of lines) 0 lines))"

definition share_at :: "int \<Rightarrow> alloc_line list \<Rightarrow> nat \<Rightarrow> int" where
  "share_at t lines j =
    quota t (base_of lines) (lines ! j) + (if j \<in> s_index ` set (winners t lines) then 1 else 0)"

lemma shares_of_index0:
  "map s_index (shares_of t b 0 ls) = filter (\<lambda>k. al_Amount (ls ! k) > 0) [0..<length ls]"
  using shares_of_index [of t b 0 ls] by simp

lemma distinct_share_index: "distinct (map s_index (shares_of t b 0 ls))"
  by (simp add: shares_of_index0)

lemma in_shares_of:
  assumes "s \<in> set (shares_of t b 0 ls)"
  shows "s_index s < length ls" "al_Amount (ls ! s_index s) > 0"
proof -
  have "s_index s \<in> set (map s_index (shares_of t b 0 ls))" using assms by simp
  then show "s_index s < length ls" "al_Amount (ls ! s_index s) > 0"
    unfolding shares_of_index0 by simp_all
qed

lemma distinct_map_SortFunc: "distinct (map f (SortFunc c xs)) = distinct (map f xs)"
  by (rule mset_eq_imp_distinct_iff) simp

lemma allocateAcross_eq:
  assumes "0 < totl" "0 < base_of lines" "base_of lines \<le> MaxInt64"
  shows "allocateAcross totl lines =
    map (share_at (min totl (base_of lines)) lines) [0..<length lines]"
proof -
  define b where "b = base_of lines"
  define t where "t = min totl b"
  have t: "0 \<le> t" "t \<le> b" "0 < b" "b \<le> MaxInt64" "(if totl > b then b else totl) = t"
    using assms by (auto simp: t_def b_def)
  have ab: "alloc_base lines = b" and ne: "lines \<noteq> []"
    using assms by (auto simp: alloc_base_eq b_def)
  let ?out = "map (quota t b) lines" and ?ss = "SortFunc compareShares (shares_of t b 0 lines)"
  have loop: "share_loop t b lines 0 (replicate (length lines) 0) 0 [] =
      (?out, sum_list (map (quota t b) lines), shares_of t b 0 lines)"
    using share_loop_eq [OF t(1-4), of lines 0 "[]" "[]"] pos_amount_le_base t(4) b_def by simp
  have d: "0 \<le> dropped t lines" "dropped t lines \<le> int (length ?ss)"
    using dropped_bounds(1) [OF assms(2), of t] dropped_bounds(2) [OF assms(2), of t 0]
    by (simp_all add: b_def)
  have dM: "dropped t lines \<le> MaxInt64"
  proof -
    have "0 \<le> sum_list (map (quota t b) lines)"
      using quota_bounds(1) [OF t(1-3)] by (auto intro!: sum_list_nonneg)
    then show ?thesis using t by (simp add: dropped_def b_def)
  qed
  have sub: "sub64 t (sum_list (map (quota t b) lines)) = dropped t lines"
    using d(1) dM by (subst sub64_id) (auto simp: dropped_def b_def intro!: is_i64_between [where b = MaxInt64])
  have room: "dropped t lines > 0 \<longrightarrow> (\<forall>s \<in> set ?ss. 0 \<le> ?out ! s_index s \<and> ?out ! s_index s < MaxInt64)"
  proof (intro impI ballI)
    fix s assume "dropped t lines > 0" "s \<in> set ?ss"
    then have s: "s_index s < length lines" "al_Amount (lines ! s_index s) > 0" and "t < b"
      using in_shares_of [of s t b lines] dropped_full [of lines] t(2) by (auto simp: b_def le_less)
    let ?l = "lines ! s_index s"
    have "quota t b ?l < pos_amount ?l" using s(2) t(1) \<open>t < b\<close> by (intro quota_less) (simp_all add: pos_amount_def)
    moreover have "pos_amount ?l \<le> b" using s(1) by (simp add: pos_amount_le_base b_def)
    ultimately show "0 \<le> ?out ! s_index s \<and> ?out ! s_index s < MaxInt64"
      using s(1) t quota_bounds(1) [OF t(1-3)] by simp
  qed
  have "leftover_loop ?ss (dropped t lines) ?out =
      map (\<lambda>j. ?out ! j + (if j \<in> set (map s_index (take (nat (dropped t lines)) ?ss)) then 1 else 0))
        [0..<length ?out]"
    by (rule leftover_loop_eq)
      (use d dM room in_shares_of [of _ t b lines] in \<open>simp_all add: distinct_map_SortFunc distinct_share_index\<close>)
  also have "\<dots> = map (share_at t lines) [0..<length lines]"
    by (simp add: share_at_def winners_def b_def)
  finally have "allocateAcross totl lines = map (share_at t lines) [0..<length lines]"
    using assms(1) t loop sub ab ne by (simp add: allocateAcross_def Let_def)
  then show ?thesis by (simp add: t_def b_def)
qed

lemma allocateAcross_zero:
  assumes "totl \<le> 0 \<or> base_of lines = 0"
  shows "allocateAcross totl lines = replicate (length lines) 0"
  using assms alloc_base_eq [of lines] by (auto simp: allocateAcross_def MaxInt64_def Let_def)

lemma share_at_bounds:
  assumes "0 \<le> t" "t \<le> base_of lines" "0 < base_of lines" "j < length lines"
  shows "0 \<le> share_at t lines j" "share_at t lines j \<le> pos_amount (lines ! j)"
    "quota t (base_of lines) (lines ! j) \<le> share_at t lines j"
    "share_at t lines j \<le> quota t (base_of lines) (lines ! j) + 1"
proof -
  let ?b = "base_of lines" and ?l = "lines ! j"
  note q = quota_bounds [OF assms(1-3), of ?l]
  show "0 \<le> share_at t lines j" "quota t ?b ?l \<le> share_at t lines j"
    "share_at t lines j \<le> quota t ?b ?l + 1" using q by (simp_all add: share_at_def)
  show "share_at t lines j \<le> pos_amount ?l"
  proof (cases "j \<in> s_index ` set (winners t lines)")
    case True
    then obtain s where "s \<in> set (winners t lines)" and j: "j = s_index s" by blast
    then have s: "s \<in> set (shares_of t ?b 0 lines)" and "dropped t lines > 0"
      unfolding winners_def by (auto dest: in_set_takeD) (cases "dropped t lines > 0"; simp)
    then have "t < ?b" using dropped_full [of lines] assms(2) by (cases "t = ?b") auto
    moreover have "0 < pos_amount ?l" using in_shares_of(2) [OF s] j by (simp add: pos_amount_def)
    ultimately have "quota t ?b ?l < pos_amount ?l" using assms(1) by (intro quota_less)
    then show ?thesis by (simp add: share_at_def)
  qed (use q in \<open>simp add: share_at_def\<close>)
qed

lemma winners_index:
  "distinct (map s_index (winners t lines))"
  "set (map s_index (winners t lines)) \<subseteq> {0..<length lines}"
proof -
  have "distinct (map s_index (SortFunc compareShares (shares_of t (base_of lines) 0 lines)))"
    by (simp add: distinct_map_SortFunc distinct_share_index)
  then show "distinct (map s_index (winners t lines))"
    by (simp add: winners_def flip: take_map)
  show "set (map s_index (winners t lines)) \<subseteq> {0..<length lines}"
    using in_shares_of(1) [of _ t "base_of lines" lines]
    by (auto simp: winners_def dest!: in_set_takeD)
qed

lemma sum_share_at:
  assumes "0 < base_of lines"
  shows "sum_list (map (share_at t lines) [0..<length lines]) = t"
proof -
  let ?n = "length lines" and ?W = "s_index ` set (winners t lines)"
  have "sum_list (map (share_at t lines) [0..<?n]) =
      sum_list (map (\<lambda>j. quota t (base_of lines) (lines ! j)) [0..<?n]) +
      sum_list (map (\<lambda>j. if j \<in> ?W then 1 else 0) [0..<?n])"
    unfolding share_at_def by (rule sum_list_addf)
  also have "sum_list (map (\<lambda>j. quota t (base_of lines) (lines ! j)) [0..<?n]) = t - dropped t lines"
    by (simp add: sum_list_map_nth_upt dropped_def)
  also have "sum_list (map (\<lambda>j. if j \<in> ?W then 1 else 0) [0..<?n]) = int (card ?W)"
  proof -
    have "?W \<inter> {0..<?n} = ?W" using winners_index(2) [of t lines] by auto
    then show ?thesis
      by (simp add: interv_sum_list_conv_sum_set_nat sum.If_cases Int_commute)
  qed
  also have "card ?W = length (winners t lines)"
    using distinct_card [OF winners_index(1) [of t lines]] by simp
  also have "int (length (winners t lines)) = dropped t lines"
    using dropped_bounds(1) [OF assms, of t] dropped_bounds(2) [OF assms, of t 0] by (simp add: winners_def)
  finally show ?thesis by simp
qed

text \<open>A line that gets a dropped unit had a fraction cut off.\<close>

lemma sum_share_remainder:
  "sum_list (map s_remainder (shares_of t b i ls)) = sum_list (map (frac_of t b) ls)"
proof -
  have "frac_of t b l = 0" if "al_Amount l \<le> 0" for l
    using that by (simp add: frac_of_def pos_amount_def)
  then show ?thesis by (induction ls arbitrary: i) auto
qed

lemma share_remainder_less:
  "0 < b \<Longrightarrow> s \<in> set (shares_of t b i ls) \<Longrightarrow> s_remainder s < b"
  by (induction ls arbitrary: i) (auto simp: frac_of_def split: if_splits)

section \<open>The order of arrival\<close>

lemma compareShares_le:
  "compareShares a b \<le> 0 \<longleftrightarrow> s_remainder b < s_remainder a \<or>
    s_remainder a = s_remainder b \<and>
      (s_amount b < s_amount a \<or> s_amount a = s_amount b \<and> s_id a \<le> s_id b)"
  by (auto simp: compareShares_def cmp_Compare_def Let_def)

lemma compareShares_antisym:
  "compareShares a b \<le> 0 \<Longrightarrow> compareShares b a \<le> 0 \<Longrightarrow> s_id a = s_id b"
  unfolding compareShares_le by auto

lemma ordering_compareShares: "ordering_on A compareShares"
  unfolding ordering_on_def compareShares_le by auto

definition plain_share :: "int \<Rightarrow> int \<Rightarrow> alloc_line \<Rightarrow> share" where
  "plain_share t b l =
    \<lparr> s_index = 0, s_remainder = frac_of t b l, s_amount = al_Amount l, s_id = al_ID l \<rparr>"

lemma in_shares_of_eq:
  assumes "s \<in> set (shares_of t b i ls)"
  shows "s_index s \<ge> i \<and> s = (plain_share t b (ls ! (s_index s - i)))\<lparr> s_index := s_index s \<rparr>"
  using assms
proof (induction ls arbitrary: i)
  case (Cons l ls)
  show ?case
  proof (cases "s \<in> set (shares_of t b (i + 1) ls)")
    case True
    with Cons.IH [of "i + 1"] have "s_index s \<ge> i + 1"
      "s = (plain_share t b (ls ! (s_index s - (i + 1))))\<lparr> s_index := s_index s \<rparr>" by auto
    moreover from this have "s_index s - i = Suc (s_index s - (i + 1))" by simp
    ultimately show ?thesis by simp
  qed (use Cons.prems in \<open>auto simp: plain_share_def split: if_splits\<close>)
qed simp

lemma in_shares_of_fields:
  assumes "s \<in> set (shares_of t b 0 ls)"
  shows "s_id s = al_ID (ls ! s_index s)" "s_remainder s = frac_of t b (ls ! s_index s)"
    "s_amount s = al_Amount (ls ! s_index s)"
  by (subst in_shares_of_eq [OF assms, THEN conjunct2], simp add: plain_share_def)+

lemma share_of_index:
  assumes "j < length ls" "al_Amount (ls ! j) > 0"
  obtains s where "s \<in> set (shares_of t b 0 ls)" "s_index s = j"
proof -
  have "j \<in> set (map s_index (shares_of t b 0 ls))" unfolding shares_of_index0 using assms by simp
  then show thesis using that by auto
qed

lemma winners_cut:
  assumes "0 < base_of lines" and "s \<in> set (winners t lines)"
  shows "0 < s_remainder s"
proof (rule ccontr)
  let ?b = "base_of lines" and ?n = "nat (dropped t lines)"
  let ?so = "SortFunc compareShares (shares_of t ?b 0 lines)"
  assume "\<not> 0 < s_remainder s"
  then have s0: "s_remainder s \<le> 0" by simp
  obtain k where k: "k < length (take ?n ?so)" "take ?n ?so ! k = s"
    using assms(2) unfolding winners_def in_set_conv_nth by blast
  then have so: "?so = take k ?so @ s # drop (Suc k) ?so" and kn: "k < ?n" "k < length ?so"
    using id_take_nth_drop [of k ?so] by simp_all
  have "sorted_wrt (\<lambda>a b. compareShares a b \<le> 0) (take k ?so @ s # drop (Suc k) ?so)"
    using SortFunc_sorted [OF ordering_compareShares, of "shares_of t ?b 0 lines"] so by simp
  then have "s_remainder x \<le> 0" if "x \<in> set (drop (Suc k) ?so)" for x
    using that s0 by (auto simp: sorted_wrt_append compareShares_le)
  then have rest: "sum_list (map s_remainder (drop (Suc k) ?so)) \<le> 0"
    by (intro sum_list_nonpos) auto
  have "s_remainder x \<le> ?b" if "x \<in> set (take k ?so)" for x
    using that share_remainder_less [OF assms(1)] by (fastforce dest: in_set_takeD)
  then have "sum_list (map s_remainder (take k ?so)) \<le> sum_list (map (\<lambda>_. ?b) (take k ?so))"
    by (intro sum_list_mono) auto
  also have "\<dots> = int k * ?b" using kn by (simp add: sum_list_triv min_def)
  finally have "sum_list (map s_remainder ?so) \<le> int k * ?b"
    using rest s0 by (subst so) simp
  also have "sum_list (map s_remainder ?so) = ?b * dropped t lines"
    using sum_list_mset [of ?so "shares_of t ?b 0 lines" s_remainder] sum_quota_frac [of t lines ?b]
    by (simp add: sum_share_remainder dropped_def right_diff_distrib mult.commute [of t])
  finally have "dropped t lines \<le> int k" using assms(1) by (simp add: mult.commute [of _ ?b])
  with kn show False by linarith
qed

lemma share_at_near:
  assumes "0 < base_of lines"
  shows "\<bar>share_at t lines j * base_of lines - t * pos_amount (lines ! j)\<bar> < base_of lines"
proof -
  let ?b = "base_of lines" and ?l = "lines ! j"
  have f: "0 \<le> frac_of t ?b ?l" "frac_of t ?b ?l < ?b" using assms by (simp_all add: frac_of_def)
  have "0 < frac_of t ?b ?l" if "j \<in> s_index ` set (winners t lines)"
  proof -
    from that obtain s where s: "s \<in> set (winners t lines)" "j = s_index s" by blast
    then have "s \<in> set (shares_of t ?b 0 lines)" by (auto simp: winners_def dest: in_set_takeD)
    with s winners_cut [OF assms s(1)] in_shares_of_fields(2) show ?thesis by metis
  qed
  moreover have "share_at t lines j * ?b - t * pos_amount ?l =
      (if j \<in> s_index ` set (winners t lines) then ?b else 0) - frac_of t ?b ?l"
    unfolding quota_frac [of t ?l ?b] by (simp add: share_at_def algebra_simps)
  ultimately show ?thesis using f by (simp add: abs_less_iff)
qed

text \<open>A share without its position.\<close>

abbreviation forget :: "share \<Rightarrow> share" where "forget s \<equiv> s\<lparr> s_index := 0 \<rparr>"

lemma forget_shares_of:
  "map forget (shares_of t b i ls) = map (plain_share t b) (filter (\<lambda>l. al_Amount l > 0) ls)"
  by (induction ls arbitrary: i) (auto simp: plain_share_def)

definition winner_ids :: "int \<Rightarrow> alloc_line list \<Rightarrow> string list" where
  "winner_ids t lines =
    take (nat (dropped t lines)) (map s_id (SortFunc compareShares
      (map (plain_share t (base_of lines)) (filter (\<lambda>l. al_Amount l > 0) lines))))"

lemma winner_ids_eq: "map s_id (winners t lines) = winner_ids t lines"
proof -
  let ?ss = "shares_of t (base_of lines) 0 lines"
  have "map s_id (SortFunc compareShares ?ss) = map s_id (map forget (SortFunc compareShares ?ss))"
    by simp
  also have "map forget (SortFunc compareShares ?ss) = SortFunc compareShares (map forget ?ss)"
    by (rule map_SortFunc) (simp add: compareShares_def Let_def)
  finally show ?thesis
    by (simp add: winners_def winner_ids_def forget_shares_of flip: take_map)
qed

lemma base_of_mset: "mset xs = mset ys \<Longrightarrow> base_of xs = base_of ys"
  unfolding base_of_def by (rule sum_list_mset)

lemma dropped_mset: "mset xs = mset ys \<Longrightarrow> dropped t xs = dropped t ys"
  using sum_list_mset [of xs ys "quota t (base_of ys)"] by (simp add: dropped_def base_of_mset [of xs ys])

lemma winner_ids_mset:
  assumes "mset xs = mset ys" and "distinct (map al_ID xs)"
  shows "winner_ids t xs = winner_ids t ys"
proof -
  let ?f = "\<lambda>zs. map (plain_share t (base_of xs)) (filter (\<lambda>l. al_Amount l > 0) zs)"
  have "SortFunc compareShares (?f xs) = SortFunc compareShares (?f ys)"
  proof (rule SortFunc_unique)
    show "mset (?f xs) = mset (?f ys)" using assms(1) by simp
    fix a b assume ab: "a \<in> set (?f xs)" "b \<in> set (?f xs)" "compareShares a b \<le> 0" "compareShares b a \<le> 0"
    have "s_id a = s_id b" by (rule compareShares_antisym [OF ab(3,4)])
    moreover obtain x y where "x \<in> set xs" "a = plain_share t (base_of xs) x"
      "y \<in> set xs" "b = plain_share t (base_of xs) y" using ab(1,2) by auto
    moreover from calculation have "al_ID x = al_ID y" by (simp add: plain_share_def)
    ultimately show "a = b" using assms(2) by (auto simp: distinct_map dest: inj_onD)
  qed (rule ordering_compareShares)
  then show ?thesis
    using dropped_mset [OF assms(1)] base_of_mset [OF assms(1)] by (simp add: winner_ids_def)
qed

lemma index_winner_iff:
  assumes "distinct (map al_ID lines)" "j < length lines"
  shows "j \<in> s_index ` set (winners t lines) \<longleftrightarrow> al_ID (lines ! j) \<in> set (winner_ids t lines)"
proof -
  have id: "s_id s = al_ID (lines ! s_index s)" "s_index s < length lines"
    if "s \<in> set (winners t lines)" for s
    using that in_shares_of_fields(1) [of s t "base_of lines" lines] in_shares_of(1) [of s t "base_of lines" lines]
    by (auto simp: winners_def dest!: in_set_takeD)
  have "al_ID (lines ! j) \<in> s_id ` set (winners t lines) \<longleftrightarrow> j \<in> s_index ` set (winners t lines)"
  proof
    assume "al_ID (lines ! j) \<in> s_id ` set (winners t lines)"
    then obtain s where s: "s \<in> set (winners t lines)" "al_ID (lines ! j) = s_id s" by auto
    then have "map al_ID lines ! j = map al_ID lines ! s_index s" using id [OF s(1)] assms(2) by simp
    then have "j = s_index s"
      using assms id(2) [OF s(1)] by (simp add: nth_eq_iff_index_eq del: nth_map)
    with s(1) show "j \<in> s_index ` set (winners t lines)" by blast
  qed (use id in force)
  then show ?thesis by (simp flip: winner_ids_eq)
qed

text \<open>The share of a line, as a function of the line and of the collection it is in.\<close>

definition line_share :: "int \<Rightarrow> alloc_line list \<Rightarrow> alloc_line \<Rightarrow> int" where
  "line_share t lines l =
    quota t (base_of lines) l + (if al_ID l \<in> set (winner_ids t lines) then 1 else 0)"

lemma map_share_at:
  assumes "distinct (map al_ID lines)"
  shows "map (share_at t lines) [0..<length lines] = map (line_share t lines) lines"
  by (rule nth_equalityI)
    (simp_all add: share_at_def line_share_def index_winner_iff [OF assms])

lemma line_share_mset:
  assumes "mset xs = mset ys" and "distinct (map al_ID xs)"
  shows "line_share t xs = line_share t ys"
  using base_of_mset [OF assms(1)] winner_ids_mset [OF assms]
  by (simp add: line_share_def fun_eq_iff)

section \<open>Properties\<close>

text \<open>C21: an allocation distributes exactly the total it is given. Whatever the lines (their
  positive amounts add up without leaving \<open>int64\<close>), there is one share per line; the shares add
  up to the total, clipped to the sum of the positive amounts, with nothing lost to rounding; no
  share is negative or exceeds its line, so a line without a positive amount gets nothing; and
  every share is less than one unit away from its exact proportional value.\<close>

theorem allocate_exact:
  assumes "sum_list (map (\<lambda>l. max 0 (al_Amount l)) lines) \<le> MaxInt64"
  shows "let base = sum_list (map (\<lambda>l. max 0 (al_Amount l)) lines);
             given = max 0 (min totl base); out = allocateAcross totl lines in
    length out = length lines \<and> sum_list out = given \<and>
    (\<forall>j < length lines. 0 \<le> out ! j \<and> out ! j \<le> max 0 (al_Amount (lines ! j)) \<and>
      \<bar>out ! j * base - given * max 0 (al_Amount (lines ! j))\<bar> < max 1 base)"
proof -
  let ?b = "base_of lines" and ?t = "max 0 (min totl (base_of lines))"
  have b: "sum_list (map (\<lambda>l. max 0 (al_Amount l)) lines) = ?b"
    by (simp add: base_of_def pos_amount_def [abs_def])
  show ?thesis
  proof (cases "totl \<le> 0 \<or> ?b = 0")
    case True
    then have "?t = 0" using base_of_nonneg [of lines] by auto
    then show ?thesis unfolding b Let_def allocateAcross_zero [OF True]
      by (auto simp: sum_list_replicate less_max_iff_disj)
  next
    case False
    then have t: "0 < totl" "0 < ?b" "0 \<le> ?t" "?t \<le> ?b" "?t = min totl ?b"
      using base_of_nonneg [of lines] by linarith+
    have out: "allocateAcross totl lines = map (share_at ?t lines) [0..<length lines]"
      using allocateAcross_eq [of totl lines] t assms b by simp
    have near: "\<bar>share_at ?t lines j * ?b - ?t * pos_amount (lines ! j)\<bar> < ?b"
      for j using share_at_near [OF t(2)] .
    show ?thesis unfolding b Let_def out
      using near share_at_bounds [OF t(3,4,2)] sum_share_at [OF t(2)] t(2)
      by (simp add: pos_amount_def)
  qed
qed

theorem allocate_exact_witness:
  "let lines = [\<lparr> al_ID = ''a'', al_Amount = 333 \<rparr>, \<lparr> al_ID = ''b'', al_Amount = 0 \<rparr>,
                \<lparr> al_ID = ''c'', al_Amount = 334 \<rparr>, \<lparr> al_ID = ''d'', al_Amount = 333 \<rparr>];
       out = allocateAcross 100 lines in
    out = [33, 0, 34, 33] \<and> sum_list out = max 0 (min 100 (sum_list (map (\<lambda>l. max 0 (al_Amount l)) lines)))"
proof -
  let ?l = "[\<lparr> al_ID = ''a'', al_Amount = 333 \<rparr>, \<lparr> al_ID = ''b'', al_Amount = 0 \<rparr>,
             \<lparr> al_ID = ''c'', al_Amount = 334 \<rparr>, \<lparr> al_ID = ''d'', al_Amount = 333 \<rparr>]"
  have "allocateAcross 100 ?l = [33, 0, 34, 33]" by code_simp
  then show ?thesis using allocate_exact [of ?l 100] by (simp add: MaxInt64_def Let_def)
qed

text \<open>An allocation does not depend on the order in which the lines arrive. When no id is
  used twice, every arrangement of the same lines gives each line the same share, so computing
  the same cart twice puts every cent on the same line; a unit left over by the rounding goes to
  a line only when no other line with a positive amount lost a larger fraction, or lost the same
  fraction and is larger, or is equal in both and has a smaller id.\<close>

theorem allocate_order_free:
  assumes "sum_list (map (\<lambda>l. max 0 (al_Amount l)) lines) \<le> MaxInt64"
    and "distinct (map al_ID lines)"
  shows "\<exists>share. (\<forall>zs. mset zs = mset lines \<longrightarrow> allocateAcross totl zs = map share zs) \<and>
    (let base = sum_list (map (\<lambda>l. max 0 (al_Amount l)) lines); given = max 0 (min totl base);
         cutoff = (\<lambda>l. given * al_Amount l mod base) in
     \<forall>l \<in> set lines. \<forall>m \<in> set lines.
       share l > given * max 0 (al_Amount l) div base \<longrightarrow> al_Amount m > 0 \<longrightarrow>
       share m = given * al_Amount m div base \<longrightarrow>
         cutoff m < cutoff l \<or> cutoff m = cutoff l \<and>
         (al_Amount m < al_Amount l \<or> al_Amount m = al_Amount l \<and> al_ID l \<le> al_ID m))"
proof (cases "totl \<le> 0 \<or> base_of lines = 0")
  case True
  have "allocateAcross totl zs = map (\<lambda>_. 0) zs" if "mset zs = mset lines" for zs
    using True base_of_mset [OF that] by (simp add: allocateAcross_zero map_replicate_const)
  moreover have "sum_list (map (\<lambda>l. max 0 (al_Amount l)) lines) = base_of lines"
    by (simp add: base_of_def pos_amount_def [abs_def])
  ultimately show ?thesis
    using True by (intro exI [of _ "\<lambda>_. 0"]) (auto simp: Let_def)
next
  case False
  let ?b = "base_of lines" and ?t = "max 0 (min totl (base_of lines))"
  have b: "sum_list (map (\<lambda>l. max 0 (al_Amount l)) lines) = ?b"
    by (simp add: base_of_def pos_amount_def [abs_def])
  have t: "0 < totl" "0 < ?b" "?t = min totl ?b" using False base_of_nonneg [of lines] by linarith+
  have shares: "allocateAcross totl zs = map (line_share ?t lines) zs" if "mset zs = mset lines" for zs
  proof -
    have d: "distinct (map al_ID zs)"
      using that assms(2) by (metis mset_map mset_eq_imp_distinct_iff)
    show ?thesis
      using allocateAcross_eq [of totl zs] map_share_at [OF d] line_share_mset [OF that d]
        base_of_mset [OF that] t assms(1) b by simp
  qed
  have most: "compareShares s s' \<le> 0"
    if "s \<in> set (winners ?t lines)" "s' \<in> set (shares_of ?t ?b 0 lines)" "s' \<notin> set (winners ?t lines)" for s s'
  proof -
    let ?so = "SortFunc compareShares (shares_of ?t ?b 0 lines)" and ?n = "nat (dropped ?t lines)"
    have "sorted_wrt (\<lambda>a b. compareShares a b \<le> 0) (take ?n ?so @ drop ?n ?so)"
      using SortFunc_sorted [OF ordering_compareShares] by simp
    moreover have "s' \<in> set (drop ?n ?so)"
      using that(2,3) set_SortFunc append_take_drop_id [of ?n ?so]
      unfolding winners_def by (metis Un_iff set_append)
    ultimately show ?thesis using that(1) unfolding winners_def sorted_wrt_append by blast
  qed
  have rule: "al_Amount l > 0 \<and> (frac_of ?t ?b m < frac_of ?t ?b l \<or> frac_of ?t ?b m = frac_of ?t ?b l \<and>
      (al_Amount m < al_Amount l \<or> al_Amount m = al_Amount l \<and> al_ID l \<le> al_ID m))"
    if lm: "l \<in> set lines" "m \<in> set lines" "line_share ?t lines l > quota ?t ?b l"
      "al_Amount m > 0" "line_share ?t lines m = quota ?t ?b m" for l m
  proof -
    obtain i j where ij: "i < length lines" "l = lines ! i" "j < length lines" "m = lines ! j"
      using lm(1,2) by (auto simp: in_set_conv_nth)
    have "i \<in> s_index ` set (winners ?t lines)" "j \<notin> s_index ` set (winners ?t lines)"
      using lm(3,5) index_winner_iff [OF assms(2), of _ ?t] ij by (auto simp: line_share_def split: if_splits)
    moreover obtain s' where s': "s' \<in> set (shares_of ?t ?b 0 lines)" "s_index s' = j"
      using share_of_index lm(4) ij by metis
    ultimately obtain s where s: "s \<in> set (winners ?t lines)" "s_index s = i"
      and "s' \<notin> set (winners ?t lines)" by auto
    then have "s \<in> set (shares_of ?t ?b 0 lines)" and "compareShares s s' \<le> 0"
      using most [OF s(1) s'(1)] by (auto simp: winners_def dest: in_set_takeD)
    then show ?thesis
      using in_shares_of_fields [OF s'(1)] in_shares_of_fields [of s ?t ?b lines]
        in_shares_of(2) [of s ?t ?b lines] s(2) s'(2) ij
      by (auto simp: compareShares_le)
  qed
  have pos: "frac_of ?t ?b l = ?t * al_Amount l mod ?b" if "al_Amount l > 0" for l
    using that by (simp add: frac_of_def pos_amount_def)
  show ?thesis
    unfolding b Let_def
  proof (intro exI [of _ "line_share ?t lines"] conjI allI impI ballI)
    fix l m
    assume lm: "l \<in> set lines" "m \<in> set lines" "?t * max 0 (al_Amount l) div ?b < line_share ?t lines l"
      "0 < al_Amount m" "line_share ?t lines m = ?t * al_Amount m div ?b"
    have pm: "pos_amount m = al_Amount m" using lm(4) by (simp add: pos_amount_def)
    have r: "al_Amount l > 0 \<and> (frac_of ?t ?b m < frac_of ?t ?b l \<or> frac_of ?t ?b m = frac_of ?t ?b l \<and>
      (al_Amount m < al_Amount l \<or> al_Amount m = al_Amount l \<and> al_ID l \<le> al_ID m))"
      by (rule rule [OF lm(1,2) _ lm(4)])
        (simp_all only: quota_def pm lm(5) lm(3) pos_amount_def [of l])
    show "?t * al_Amount m mod ?b < ?t * al_Amount l mod ?b \<or>
        ?t * al_Amount m mod ?b = ?t * al_Amount l mod ?b \<and>
        (al_Amount m < al_Amount l \<or> al_Amount m = al_Amount l \<and> al_ID l \<le> al_ID m)"
      using r unfolding pos [OF lm(4)] pos [OF conjunct1 [OF r]] by (rule conjunct2)
  qed (rule shares)
qed

theorem allocate_order_free_witness:
  "\<exists>share :: alloc_line \<Rightarrow> int64.
    allocateAcross 5 [\<lparr> al_ID = ''a'', al_Amount = 1 \<rparr>, \<lparr> al_ID = ''b'', al_Amount = 1 \<rparr>,
      \<lparr> al_ID = ''c'', al_Amount = 6 \<rparr>] = map share [\<lparr> al_ID = ''a'', al_Amount = 1 \<rparr>,
      \<lparr> al_ID = ''b'', al_Amount = 1 \<rparr>, \<lparr> al_ID = ''c'', al_Amount = 6 \<rparr>] \<and>
    allocateAcross 5 [\<lparr> al_ID = ''c'', al_Amount = 6 \<rparr>, \<lparr> al_ID = ''b'', al_Amount = 1 \<rparr>,
      \<lparr> al_ID = ''a'', al_Amount = 1 \<rparr>] = map share [\<lparr> al_ID = ''c'', al_Amount = 6 \<rparr>,
      \<lparr> al_ID = ''b'', al_Amount = 1 \<rparr>, \<lparr> al_ID = ''a'', al_Amount = 1 \<rparr>]"
proof -
  let ?a = "\<lparr> al_ID = ''a'', al_Amount = 1 \<rparr>" and ?b = "\<lparr> al_ID = ''b'', al_Amount = 1 \<rparr>"
    and ?c = "\<lparr> al_ID = ''c'', al_Amount = 6 \<rparr>"
  have "sum_list (map (\<lambda>l. max 0 (al_Amount l)) [?a, ?b, ?c]) \<le> MaxInt64" "distinct (map al_ID [?a, ?b, ?c])"
    by (simp_all add: MaxInt64_def)
  from allocate_order_free [OF this, of 5] obtain share where
    share: "\<forall>zs. mset zs = mset [?a, ?b, ?c] \<longrightarrow> allocateAcross 5 zs = map share zs" by blast
  have "mset [?c, ?b, ?a] = mset [?a, ?b, ?c]" by simp
  with share show ?thesis by (intro exI [of _ share]) blast
qed

end
