(* ===== verification/PromoModels.thy ===== *)
theory PromoModels
  imports Errors Condition
begin

text \<open>
  The data of the promotion module, \<^verbatim>\<open>internal/modules/promotion/models/models.go\<close>, its input
  checks (\<^verbatim>\<open>service/validate.go\<close>) and the rules (\<^verbatim>\<open>service/rule.go\<close>).

  The enumerations of the code are strings, and stay strings here: the code says what it does
  with a value outside the enumeration. A pointer to a scalar is an option, a time is the number
  of nanoseconds since Go's zero time, and a Go map is a partial map. Left out of the records are
  the fields no modelled operation reads: names, metadata and bookkeeping times.
\<close>

section \<open>Bounds and codes\<close>

definition MinAmount :: int64 where "MinAmount = 0"
definition MaxAmount :: int64 where "MaxAmount = 1000000000000"
definition MinQuantity :: int64 where "MinQuantity = 1"
definition MaxQuantity :: int64 where "MaxQuantity = 1000000"
definition BasisPointDenominator :: int64 where "BasisPointDenominator = 10000"

lemmas promo_bounds = MinAmount_def MaxAmount_def MinQuantity_def MaxQuantity_def BasisPointDenominator_def

definition CodeInvalidInput :: string where "CodeInvalidInput = ''promotion_invalid_input''"
definition CodeRuleAttributeReserved :: string where
  "CodeRuleAttributeReserved = ''promotion_rule_attribute_reserved''"

section \<open>Campaigns\<close>

type_synonym time = int

text \<open>
  A \<open>TIMESTAMPTZ\<close> column holds whole microseconds: of a time that is written the driver sends
  \<open>Unix()\<close> and \<open>Nanosecond() / 1000\<close>, and drops what is below. Go's zero time and the epoch are
  whole seconds, so this is the floor of the count of nanoseconds.
\<close>

definition column_time :: "time \<Rightarrow> time" where
  "column_time t = t div 1000 * 1000"

lemma column_time_less: "column_time s < column_time e \<longleftrightarrow> s div 1000 < e div 1000"
  by (simp add: column_time_def)

definition BudgetNone :: string where "BudgetNone = ''none''"
definition BudgetSpend :: string where "BudgetSpend = ''spend''"
definition BudgetUsage :: string where "BudgetUsage = ''usage''"

definition CampaignBudgetType_Valid :: "string \<Rightarrow> bool" where
  "CampaignBudgetType_Valid t \<longleftrightarrow> t = BudgetNone \<or> t = BudgetSpend \<or> t = BudgetUsage"

record campaign =
  cp_ID :: string
  cp_Name :: string
  cp_Identifier :: string
  cp_Description :: string
  cp_StartsAt :: "time option"
  cp_EndsAt :: "time option"
  cp_BudgetType :: string
  cp_BudgetLimit :: "int64 option"
  cp_BudgetUsed :: int64
  cp_BudgetCurrencyCode :: string

definition WindowContains :: "campaign \<Rightarrow> time \<Rightarrow> bool" where
  "WindowContains c at =
    (if (case cp_StartsAt c of Some t \<Rightarrow> at < t | None \<Rightarrow> False) then False
     else if (case cp_EndsAt c of Some t \<Rightarrow> at > t | None \<Rightarrow> False) then False
     else True)"

definition BudgetExhausted :: "campaign \<Rightarrow> bool" where
  "BudgetExhausted c =
    (if cp_BudgetType c = BudgetNone then False
     else (case cp_BudgetLimit c of None \<Rightarrow> False | Some l \<Rightarrow> cp_BudgetUsed c \<ge> l))"

definition BudgetDeltaFor :: "campaign \<Rightarrow> int64 \<Rightarrow> int64" where
  "BudgetDeltaFor c amount =
    (if cp_BudgetType c = BudgetSpend then amount
     else if cp_BudgetType c = BudgetUsage then 1
     else 0)"

section \<open>Promotions\<close>

definition PromotionStandard :: string where "PromotionStandard = ''standard''"
definition PromotionBuyGet :: string where "PromotionBuyGet = ''buyget''"

definition PromotionType_Valid :: "string \<Rightarrow> bool" where
  "PromotionType_Valid t \<longleftrightarrow> t = PromotionStandard \<or> t = PromotionBuyGet"

definition PromotionDraft :: string where "PromotionDraft = ''draft''"
definition PromotionActive :: string where "PromotionActive = ''active''"
definition PromotionInactive :: string where "PromotionInactive = ''inactive''"

definition PromotionStatus_Valid :: "string \<Rightarrow> bool" where
  "PromotionStatus_Valid s \<longleftrightarrow> s = PromotionDraft \<or> s = PromotionActive \<or> s = PromotionInactive"

record promotion =
  pr_ID :: string
  pr_Code :: string
  pr_IsAutomatic :: bool
  pr_Type :: string
  pr_CampaignID :: "string option"
  pr_Status :: string
  pr_UsageLimit :: "int64 option"
  pr_UsageCount :: int64

definition UsageExhausted :: "promotion \<Rightarrow> bool" where
  "UsageExhausted p = (case pr_UsageLimit p of None \<Rightarrow> False | Some l \<Rightarrow> pr_UsageCount p \<ge> l)"

definition MethodFixed :: string where "MethodFixed = ''fixed''"
definition MethodPercentage :: string where "MethodPercentage = ''percentage''"
definition TargetItems :: string where "TargetItems = ''items''"
definition TargetShippingMethods :: string where "TargetShippingMethods = ''shipping_methods''"
definition TargetOrder :: string where "TargetOrder = ''order''"
definition AllocationEach :: string where "AllocationEach = ''each''"
definition AllocationAcross :: string where "AllocationAcross = ''across''"

definition MethodType_Valid :: "string \<Rightarrow> bool" where
  "MethodType_Valid t \<longleftrightarrow> t = MethodFixed \<or> t = MethodPercentage"

definition TargetType_Valid :: "string \<Rightarrow> bool" where
  "TargetType_Valid t \<longleftrightarrow> t = TargetItems \<or> t = TargetShippingMethods \<or> t = TargetOrder"

definition Allocation_Valid :: "string \<Rightarrow> bool" where
  "Allocation_Valid a \<longleftrightarrow> a = AllocationEach \<or> a = AllocationAcross"

record application_method =
  me_ID :: string
  me_PromotionID :: string
  me_Type :: string
  me_TargetType :: string
  me_Allocation :: string
  me_Value :: int64
  me_MaxQuantity :: "int64 option"
  me_BuyQuantity :: "int64 option"
  me_ApplyToQuantity :: "int64 option"
  me_CurrencyCode :: string

definition RewardsPurchase :: "application_method \<Rightarrow> bool" where
  "RewardsPurchase m \<longleftrightarrow> me_BuyQuantity m \<noteq> None \<and> me_ApplyToQuantity m \<noteq> None"

section \<open>Rules\<close>

definition RuleContext :: string where "RuleContext = ''context''"
definition RuleTarget :: string where "RuleTarget = ''target''"
definition RuleBuy :: string where "RuleBuy = ''buy''"

lemmas promo_words =
  BudgetNone_def BudgetSpend_def BudgetUsage_def PromotionStandard_def PromotionBuyGet_def
  PromotionDraft_def PromotionActive_def PromotionInactive_def MethodFixed_def MethodPercentage_def
  TargetItems_def TargetShippingMethods_def TargetOrder_def AllocationEach_def AllocationAcross_def
  RuleContext_def RuleTarget_def RuleBuy_def

definition RuleOperator_Valid :: "string \<Rightarrow> bool" where
  "RuleOperator_Valid op \<longleftrightarrow>
    op = Eq \<or> op = Ne \<or> op = In \<or> op = Nin \<or> op = AnyIn \<or> op = Gt \<or> op = Gte \<or> op = Lt \<or> op = Lte"

definition RuleType_Valid :: "string \<Rightarrow> bool" where
  "RuleType_Valid t \<longleftrightarrow> t = RuleContext \<or> t = RuleTarget \<or> t = RuleBuy"

record promotion_rule =
  ru_ID :: string
  ru_PromotionID :: string
  ru_RuleType :: string
  ru_Attribute :: string
  ru_Operator :: string
  ru_Values :: "string list"

definition ReservedAttributePrefix :: string where "ReservedAttributePrefix = ''cart.''"

definition matchRule ::
    "promotion_rule \<Rightarrow> (string \<rightharpoonup> string) \<Rightarrow> (string \<Rightarrow> string list) \<Rightarrow> bool" where
  "matchRule r attributes lsts =
    (let (v, ok) = (case attributes (ru_Attribute r) of None \<Rightarrow> ([], False) | Some v \<Rightarrow> (v, True)) in
     Match (ru_Operator r) (ru_Values r) v ok (lsts (ru_Attribute r)))"

fun matchRules ::
    "promotion_rule list \<Rightarrow> (string \<rightharpoonup> string) \<Rightarrow> (string \<Rightarrow> string list) \<Rightarrow> bool" where
  "matchRules [] attributes lsts = True"
| "matchRules (r # rs) attributes lsts =
    (if \<not> matchRule r attributes lsts then False else matchRules rs attributes lsts)"

record promotion_candidate =
  ca_Promotion :: promotion
  ca_Campaign :: "campaign option"
  ca_Method :: "application_method option"
  ca_Rules :: "promotion_rule list"

definition rulesOfType :: "promotion_candidate \<Rightarrow> string \<Rightarrow> promotion_rule list" where
  "rulesOfType c t = filter (\<lambda>r. ru_RuleType r = t) (ca_Rules c)"

definition ContextRules :: "promotion_candidate \<Rightarrow> promotion_rule list" where
  "ContextRules c = rulesOfType c RuleContext"

definition TargetRules :: "promotion_candidate \<Rightarrow> promotion_rule list" where
  "TargetRules c = rulesOfType c RuleTarget"

definition BuyRules :: "promotion_candidate \<Rightarrow> promotion_rule list" where
  "BuyRules c = rulesOfType c RuleBuy"

section \<open>Input checks\<close>

definition currencyCodeLen :: nat where "currencyCodeLen = 3"
definition maxIDLen :: nat where "maxIDLen = 255"
definition MinCodeLen :: nat where "MinCodeLen = 3"
definition MaxCodeLen :: nat where "MaxCodeLen = 64"
definition MaxCodesPerCompute :: nat where "MaxCodesPerCompute = 20"
definition MaxReferenceLen :: nat where "MaxReferenceLen = 255"
definition MaxAttributeLen :: nat where "MaxAttributeLen = 128"
definition MaxRuleValues :: nat where "MaxRuleValues = 100"
definition MaxNameLen :: nat where "MaxNameLen = 255"
definition MaxDescriptionLen :: nat where "MaxDescriptionLen = 2000"
definition MaxIdentifierLen :: nat where "MaxIdentifierLen = 128"

definition code_char :: "char \<Rightarrow> bool" where
  "code_char c \<longleftrightarrow> upper_char c \<or> digit_char c \<or> c = CHR ''-'' \<or> c = CHR ''_''"

definition normalizeCode :: "string \<Rightarrow> error + string" where
  "normalizeCode code =
    (let trimmed = strings_ToUpper (strings_TrimSpace code) in
     if length trimmed < MinCodeLen then Inl (Invalid CodeInvalidInput)
     else if length trimmed > MaxCodeLen then Inl (Invalid CodeInvalidInput)
     else if list_ex (\<lambda>r. \<not> code_char r) trimmed then Inl (Invalid CodeInvalidInput)
     else Inr trimmed)"

definition normalizeCurrency :: "string \<Rightarrow> error + string" where
  "normalizeCurrency code =
    (let trimmed = strings_ToUpper (strings_TrimSpace code) in
     if length trimmed \<noteq> currencyCodeLen then Inl (Invalid CodeInvalidInput)
     else if list_ex (\<lambda>r. \<not> upper_char r) trimmed then Inl (Invalid CodeInvalidInput)
     else Inr trimmed)"

definition validateAmount :: "int64 \<Rightarrow> error option" where
  "validateAmount amount =
    (if amount < MinAmount then Some (Invalid CodeInvalidInput)
     else if amount > MaxAmount then Some (Invalid CodeInvalidInput)
     else None)"

definition validateQuantity :: "int64 \<Rightarrow> error option" where
  "validateQuantity quantity =
    (if quantity < MinQuantity then Some (Invalid CodeInvalidInput)
     else if quantity > MaxQuantity then Some (Invalid CodeInvalidInput)
     else None)"

definition validateUsageLimit :: "int64 option \<Rightarrow> error option" where
  "validateUsageLimit limit =
    (case limit of None \<Rightarrow> None
     | Some l \<Rightarrow> if l < 0 then Some (Invalid CodeInvalidInput) else None)"

definition validateText :: "string \<Rightarrow> nat \<Rightarrow> nat \<Rightarrow> error option" where
  "validateText v minLen maxLen =
    (let trimmed = strings_TrimSpace v in
     if length trimmed < minLen then Some (Invalid CodeInvalidInput)
     else if length trimmed > maxLen then Some (Invalid CodeInvalidInput)
     else None)"

definition requireID :: "string \<Rightarrow> string \<Rightarrow> error option" where
  "requireID eid pre =
    (if eid = [] then Some (Invalid CodeInvalidInput)
     else if strings_TrimSpace eid \<noteq> eid then Some (Invalid CodeInvalidInput)
     else if length eid > maxIDLen then Some (Invalid CodeInvalidInput)
     else if \<not> prefix pre eid then Some (Invalid CodeInvalidInput)
     else None)"

end
