(* ===== verification/PromoCompute.thy ===== *)
theory PromoCompute
  imports PromoModels PromoAllocate
begin

text \<open>
  The discount computation, \<^verbatim>\<open>internal/modules/promotion/service/compute.go\<close>, with the "buy X,
  get Y" mechanic of \<^verbatim>\<open>buyget.go\<close> and the elimination of \<^verbatim>\<open>skip_reason.go\<close>.

  The code passes pointers to the lines around and writes discounts through them; the model keeps
  the two slices of lines as one record and a pointer as a reference into it, so that two targets
  that are the same line are the same reference and a write through one is seen through the other.
  The map of reserved units is keyed by such references, as the code keys it by address.
\<close>

section \<open>The data\<close>

definition MaxComputeLines :: nat where "MaxComputeLines = 1000"

record compute_item =
  cl_ID :: string
  cl_Amount :: int64
  cl_UnitAmount :: int64
  cl_Quantity :: int64
  cl_Attributes :: "string \<rightharpoonup> string"
  cl_Lists :: "string \<Rightarrow> string list"

record compute_shipping_method =
  sm_ID :: string
  sm_Amount :: int64
  sm_Attributes :: "string \<rightharpoonup> string"

record compute_input =
  in_CurrencyCode :: string
  in_Context :: "string \<rightharpoonup> string"
  in_ContextLists :: "string \<Rightarrow> string list"
  in_Items :: "compute_item list"
  in_ShippingMethods :: "compute_shipping_method list"
  in_Codes :: "string list"
  in_At :: time

record line_discount =
  ld_ID :: string
  ld_Amount :: int64

record applied_promotion =
  ap_PromotionID :: string
  ap_Code :: string
  ap_IsAutomatic :: bool
  ap_Amount :: int64

record skipped_promotion =
  sk_PromotionID :: string
  sk_Code :: string
  sk_Reason :: string

record compute_result =
  re_CurrencyCode :: string
  re_Items :: "line_discount list"
  re_ShippingMethods :: "line_discount list"
  re_ItemsDiscountTotal :: int64
  re_ShippingDiscountTotal :: int64
  re_DiscountTotal :: int64
  re_Applied :: "applied_promotion list"
  re_Skipped :: "skipped_promotion list"
  re_UnmatchedCodes :: "string list"

section \<open>The normalised input\<close>

text \<open>\<open>seen\<close> is the set of the identities met so far. The error carries the index of the input it
  was found at only in its details, which are not modelled.\<close>

definition validateLineID :: "string \<Rightarrow> string list \<Rightarrow> error option" where
  "validateLineID eid seen =
    (case validateText eid 1 maxIDLen of
      Some e \<Rightarrow> Some e
    | None \<Rightarrow> if eid \<in> set seen then Some (Invalid CodeInvalidInput) else None)"

definition validateUnitAmount :: "compute_item \<Rightarrow> error option" where
  "validateUnitAmount i =
    (case validateAmount (cl_UnitAmount i) of
      Some e \<Rightarrow> Some e
    | None \<Rightarrow>
        if mul64 (cl_UnitAmount i) (cl_Quantity i) \<noteq> cl_Amount i
        then Some (Invalid CodeInvalidInput) else None)"

fun check_compute_items :: "compute_item list \<Rightarrow> string list \<Rightarrow> int64 \<Rightarrow> error option" where
  "check_compute_items [] seen subtotal = None"
| "check_compute_items (i # is) seen subtotal =
    (case validateLineID (cl_ID i) seen of
      Some e \<Rightarrow> Some e
    | None \<Rightarrow>
        (case validateAmount (cl_Amount i) of
          Some e \<Rightarrow> Some e
        | None \<Rightarrow>
            (case validateQuantity (cl_Quantity i) of
              Some e \<Rightarrow> Some e
            | None \<Rightarrow>
                (case validateUnitAmount i of
                  Some e \<Rightarrow> Some e
                | None \<Rightarrow>
                    (let subtotal' = add64 subtotal (cl_Amount i) in
                     if subtotal' > MaxAmount then Some (Invalid CodeInvalidInput)
                     else check_compute_items is (cl_ID i # seen) subtotal')))))"

fun check_compute_shipping ::
    "compute_shipping_method list \<Rightarrow> string list \<Rightarrow> int64 \<Rightarrow> error option" where
  "check_compute_shipping [] seen subtotal = None"
| "check_compute_shipping (s # ss) seen subtotal =
    (case validateLineID (sm_ID s) seen of
      Some e \<Rightarrow> Some e
    | None \<Rightarrow>
        (case validateAmount (sm_Amount s) of
          Some e \<Rightarrow> Some e
        | None \<Rightarrow>
            (let subtotal' = add64 subtotal (sm_Amount s) in
             if subtotal' > MaxAmount then Some (Invalid CodeInvalidInput)
             else check_compute_shipping ss (sm_ID s # seen) subtotal')))"

fun normalize_codes :: "string list \<Rightarrow> string list \<Rightarrow> error + string list" where
  "normalize_codes [] out = Inr out"
| "normalize_codes (raw # rest) out =
    (case normalizeCode raw of
      Inl e \<Rightarrow> Inl e
    | Inr code \<Rightarrow>
        if code \<in> set out then normalize_codes rest out
        else normalize_codes rest (out @ [code]))"

definition normalizeCodes :: "string list \<Rightarrow> error + string list" where
  "normalizeCodes codes =
    (if codes = [] then Inr []
     else if length codes > MaxCodesPerCompute then Inl (Invalid CodeInvalidInput)
     else normalize_codes codes [])"

definition normalizeComputeInput :: "compute_input \<Rightarrow> time \<Rightarrow> error + compute_input" where
  "normalizeComputeInput inp now =
    (case normalizeCurrency (in_CurrencyCode inp) of
      Inl e \<Rightarrow> Inl e
    | Inr currency \<Rightarrow>
        if length (in_Items inp) > MaxComputeLines then Inl (Invalid CodeInvalidInput)
        else if length (in_ShippingMethods inp) > MaxComputeLines then Inl (Invalid CodeInvalidInput)
        else
          (case check_compute_items (in_Items inp) [] 0 of
            Some e \<Rightarrow> Inl e
          | None \<Rightarrow>
              (case check_compute_shipping (in_ShippingMethods inp) [] 0 of
                Some e \<Rightarrow> Inl e
              | None \<Rightarrow>
                  (case normalizeCodes (in_Codes inp) of
                    Inl e \<Rightarrow> Inl e
                  | Inr codes \<Rightarrow>
                      Inr (inp\<lparr> in_CurrencyCode := currency, in_Codes := codes,
                               in_At := (if in_At inp = 0 then now else in_At inp) \<rparr>)))))"

section \<open>The lines\<close>

record line_state =
  li_id :: string
  li_amount :: int64
  li_unitAmount :: int64
  li_quantity :: int64
  li_attributes :: "string \<rightharpoonup> string"
  li_lists :: "string \<Rightarrow> string list"
  li_discount :: int64

definition remaining :: "line_state \<Rightarrow> int64" where
  "remaining l =
    (if li_discount l \<ge> li_amount l then 0 else sub64 (li_amount l) (li_discount l))"

definition charge :: "line_state \<Rightarrow> int64 \<Rightarrow> int64 \<times> line_state" where
  "charge l want =
    (if want \<le> 0 then (0, l)
     else
       (let want' = (if want > remaining l then remaining l else want) in
        (want', l\<lparr> li_discount := add64 (li_discount l) want' \<rparr>)))"

text \<open>The two slices of lines, and a pointer to a line of one of them.\<close>

record line_store =
  st_items :: "line_state list"
  st_shipping :: "line_state list"

datatype line_ref = ItemLine nat | ShippingLine nat

fun deref :: "line_store \<Rightarrow> line_ref \<Rightarrow> line_state" where
  "deref st (ItemLine i) = st_items st ! i"
| "deref st (ShippingLine i) = st_shipping st ! i"

fun assign :: "line_store \<Rightarrow> line_ref \<Rightarrow> line_state \<Rightarrow> line_store" where
  "assign st (ItemLine i) l = st\<lparr> st_items := (st_items st)[i := l] \<rparr>"
| "assign st (ShippingLine i) l = st\<lparr> st_shipping := (st_shipping st)[i := l] \<rparr>"

definition charge_at :: "line_store \<Rightarrow> line_ref \<Rightarrow> int64 \<Rightarrow> int64 \<times> line_store" where
  "charge_at st p want =
    (case charge (deref st p) want of (c, l) \<Rightarrow> (c, assign st p l))"

definition filterLines ::
    "(nat \<Rightarrow> line_ref) \<Rightarrow> line_state list \<Rightarrow> promotion_rule list \<Rightarrow> line_ref list" where
  "filterLines ref lines rules =
    map ref (filter (\<lambda>i. \<not> (rules \<noteq> [] \<and>
        \<not> matchRules rules (li_attributes (lines ! i)) (li_lists (lines ! i)))) [0..<length lines])"

definition selectTargets :: "promotion_candidate \<Rightarrow> application_method \<Rightarrow> line_store \<Rightarrow> line_ref list" where
  "selectTargets c m st =
    (if me_TargetType m = TargetItems then filterLines ItemLine (st_items st) (TargetRules c)
     else if me_TargetType m = TargetShippingMethods
     then filterLines ShippingLine (st_shipping st) (TargetRules c)
     else if me_TargetType m = TargetOrder then filterLines ItemLine (st_items st) []
     else [])"

section \<open>The amounts\<close>

definition percentageOf :: "int64 \<Rightarrow> int64 \<Rightarrow> int64" where
  "percentageOf amount basisPoints =
    (if amount \<le> 0 \<or> basisPoints \<le> 0 then 0
     else
       (let amount' = (if amount > MaxAmount then MaxAmount else amount);
            basisPoints' = (if basisPoints > BasisPointDenominator then BasisPointDenominator else basisPoints) in
        quot64 (mul64 amount' basisPoints') BasisPointDenominator))"

definition eachDiscount :: "application_method \<Rightarrow> line_state \<Rightarrow> int64" where
  "eachDiscount m l =
    (if me_Type m = MethodFixed then
       (let units = (case me_MaxQuantity m of
                       Some q \<Rightarrow> if q < li_quantity l then q else li_quantity l
                     | None \<Rightarrow> li_quantity l) in
        if units \<le> 0 then 0 else mul64 (me_Value m) units)
     else if me_Type m = MethodPercentage then percentageOf (li_amount l) (me_Value m)
     else 0)"

definition acrossTotal :: "application_method \<Rightarrow> line_store \<Rightarrow> line_ref list \<Rightarrow> int64" where
  "acrossTotal m st targets =
    (let base = fold (\<lambda>p b. add64 b (li_amount (deref st p))) targets 0 in
     if me_Type m = MethodFixed then me_Value m
     else if me_Type m = MethodPercentage then percentageOf base (me_Value m)
     else 0)"

section \<open>Buy X, get Y\<close>

definition rewardPerUnit :: "application_method \<Rightarrow> int64 \<Rightarrow> int64" where
  "rewardPerUnit m unitAmount =
    (if me_Type m = MethodFixed then min (me_Value m) unitAmount
     else if me_Type m = MethodPercentage then percentageOf unitAmount (me_Value m)
     else 0)"

definition mechanicMatchesMethod :: "promotion \<Rightarrow> application_method option \<Rightarrow> bool" where
  "mechanicMatchesMethod p mo =
    (case mo of None \<Rightarrow> False
     | Some m \<Rightarrow> (pr_Type p = PromotionBuyGet) = RewardsPurchase m)"

definition compareDearest :: "line_store \<Rightarrow> line_ref \<Rightarrow> line_ref \<Rightarrow> int" where
  "compareDearest st a b =
    (let byPrice = cmp_Compare (li_unitAmount (deref st b)) (li_unitAmount (deref st a)) in
     if byPrice \<noteq> 0 then byPrice else cmp_Compare (li_id (deref st a)) (li_id (deref st b)))"

definition compareCheapest :: "line_store \<Rightarrow> line_ref \<Rightarrow> line_ref \<Rightarrow> int" where
  "compareCheapest st a b =
    (let byPrice = cmp_Compare (li_unitAmount (deref st a)) (li_unitAmount (deref st b)) in
     if byPrice \<noteq> 0 then byPrice else cmp_Compare (li_id (deref st a)) (li_id (deref st b)))"

fun reserve_loop ::
    "line_store \<Rightarrow> line_ref list \<Rightarrow> int64 \<Rightarrow> (line_ref \<Rightarrow> int64) \<Rightarrow> line_ref \<Rightarrow> int64" where
  "reserve_loop st [] left reserved = reserved"
| "reserve_loop st (p # ps) left reserved =
    (if left \<le> 0 then reserved
     else
       (let take = min (li_quantity (deref st p)) left in
        reserve_loop st ps (sub64 left take) (reserved(p := take))))"

definition reserveBoughtUnits :: "line_store \<Rightarrow> line_ref list \<Rightarrow> int64 \<Rightarrow> line_ref \<Rightarrow> int64" where
  "reserveBoughtUnits st lines quantity =
    reserve_loop st (SortFunc (compareDearest st) lines) quantity (\<lambda>_. 0)"

fun reward_loop ::
    "application_method \<Rightarrow> (line_ref \<Rightarrow> int64) \<Rightarrow> line_ref list \<Rightarrow> int64 \<Rightarrow> int64 \<Rightarrow> line_store \<Rightarrow>
      int64 \<times> line_store" where
  "reward_loop m reserved [] left applied st = (applied, st)"
| "reward_loop m reserved (p # ps) left applied st =
    (if left \<le> 0 then (applied, st)
     else
       (let available = sub64 (li_quantity (deref st p)) (reserved p) in
        if available \<le> 0 then reward_loop m reserved ps left applied st
        else
          (let perUnit = rewardPerUnit m (li_unitAmount (deref st p)) in
           if perUnit \<le> 0 then reward_loop m reserved ps left applied st
           else
             (let take = min available left in
              case charge_at st p (mul64 take perUnit) of
                (c, st') \<Rightarrow> reward_loop m reserved ps (sub64 left take) (add64 applied c) st'))))"

definition payReward ::
    "application_method \<Rightarrow> int64 \<Rightarrow> line_ref list \<Rightarrow> (line_ref \<Rightarrow> int64) \<Rightarrow> line_store \<Rightarrow>
      int64 \<times> line_store" where
  "payReward m applyTo targets reserved st =
    reward_loop m reserved (SortFunc (compareCheapest st) targets) applyTo 0 st"

definition applyBuyGet ::
    "promotion_candidate \<Rightarrow> application_method \<Rightarrow> line_ref list \<Rightarrow> line_store \<Rightarrow> int64 \<times> line_store" where
  "applyBuyGet c m targets st =
    (case (me_BuyQuantity m, me_ApplyToQuantity m) of
      (Some buy, Some applyTo) \<Rightarrow>
        (let bought = filterLines ItemLine (st_items st) (BuyRules c);
             count = fold (\<lambda>p n. add64 n (li_quantity (deref st p))) bought 0 in
         if count < buy then (0, st)
         else payReward m applyTo targets (reserveBoughtUnits st bought buy) st)
    | _ \<Rightarrow> (0, st))"

section \<open>One promotion\<close>

fun each_loop ::
    "application_method \<Rightarrow> line_ref list \<Rightarrow> int64 \<Rightarrow> line_store \<Rightarrow> int64 \<times> line_store" where
  "each_loop m [] applied st = (applied, st)"
| "each_loop m (p # ps) applied st =
    (case charge_at st p (eachDiscount m (deref st p)) of
      (c, st') \<Rightarrow> each_loop m ps (add64 applied c) st')"

fun across_loop ::
    "(line_ref \<times> int64) list \<Rightarrow> int64 \<Rightarrow> line_store \<Rightarrow> int64 \<times> line_store" where
  "across_loop [] applied st = (applied, st)"
| "across_loop ((p, share) # rest) applied st =
    (case charge_at st p share of
      (c, st') \<Rightarrow> across_loop rest (add64 applied c) st')"

definition alloc_lines :: "line_store \<Rightarrow> line_ref list \<Rightarrow> alloc_line list" where
  "alloc_lines st targets =
    map (\<lambda>p. \<lparr> al_ID = li_id (deref st p), al_Amount = li_amount (deref st p) \<rparr>) targets"

text \<open>A candidate without a method does not reach this function; reading its method would panic.\<close>

definition applyPromotion :: "promotion_candidate \<Rightarrow> line_store \<Rightarrow> int64 \<times> line_store" where
  "applyPromotion c st =
    (case ca_Method c of
      None \<Rightarrow> (0, st)
    | Some m \<Rightarrow>
        (let targets = selectTargets c m st in
         if targets = [] then (0, st)
         else if pr_Type (ca_Promotion c) = PromotionBuyGet then applyBuyGet c m targets st
         else
           (let allocation = (if me_TargetType m = TargetOrder then AllocationAcross else me_Allocation m) in
            if allocation = AllocationEach then each_loop m targets 0 st
            else
              across_loop
                (zip targets (allocateAcross (acrossTotal m st targets) (alloc_lines st targets))) 0 st)))"

end
