(* ===== verification/PromoDiscounts.thy ===== *)
theory PromoDiscounts
  imports PromoCompute
begin

text \<open>
  The elimination of candidates (\<^verbatim>\<open>internal/modules/promotion/service/skip_reason.go\<close>) and the
  discount computation as a whole (\<^verbatim>\<open>compute.go\<close>).

  The lemmas follow one discount through the computation: what \<open>charge\<close> takes from a line, what
  one promotion takes from all lines, and what the list of eligible promotions takes. They hold
  for every candidate, also for one no writer would have stored.
\<close>

section \<open>Elimination\<close>

definition SkipNotActive :: string where "SkipNotActive = ''not_active''"
definition SkipMechanicUnknown :: string where "SkipMechanicUnknown = ''mechanic_unknown''"
definition SkipNoApplicationMethod :: string where "SkipNoApplicationMethod = ''no_application_method''"
definition SkipRewardMismatch :: string where "SkipRewardMismatch = ''reward_mismatch''"
definition SkipUsageExhausted :: string where "SkipUsageExhausted = ''usage_exhausted''"
definition SkipCodeNotGiven :: string where "SkipCodeNotGiven = ''code_not_given''"
definition SkipCampaignClosed :: string where "SkipCampaignClosed = ''campaign_closed''"
definition SkipCurrencyMismatch :: string where "SkipCurrencyMismatch = ''currency_mismatch''"
definition SkipRulesNotMatched :: string where "SkipRulesNotMatched = ''rules_not_matched''"

lemmas skip_reasons = SkipNotActive_def SkipMechanicUnknown_def SkipNoApplicationMethod_def
  SkipRewardMismatch_def SkipUsageExhausted_def SkipCodeNotGiven_def SkipCampaignClosed_def
  SkipCurrencyMismatch_def SkipRulesNotMatched_def

definition campaignBudgetCurrencyMatches :: "promotion_candidate \<Rightarrow> string \<Rightarrow> bool" where
  "campaignBudgetCurrencyMatches c currency =
    (case ca_Campaign c of
      None \<Rightarrow> True
    | Some cp \<Rightarrow>
        if cp_BudgetType cp \<noteq> BudgetSpend then True else cp_BudgetCurrencyCode cp = currency)"

definition campaignUsable :: "promotion_candidate \<Rightarrow> time \<Rightarrow> bool" where
  "campaignUsable c at =
    (if pr_CampaignID (ca_Promotion c) = None then True
     else
       (case ca_Campaign c of
         None \<Rightarrow> False
       | Some cp \<Rightarrow> WindowContains cp at \<and> \<not> BudgetExhausted cp))"

definition skipReasonOf :: "promotion_candidate \<Rightarrow> compute_input \<Rightarrow> string" where
  "skipReasonOf c inp =
    (let p = ca_Promotion c in
     if pr_Status p \<noteq> PromotionActive then SkipNotActive
     else if \<not> PromotionType_Valid (pr_Type p) then SkipMechanicUnknown
     else
       (case ca_Method c of
         None \<Rightarrow> SkipNoApplicationMethod
       | Some m \<Rightarrow>
           if \<not> mechanicMatchesMethod p (ca_Method c) then SkipRewardMismatch
           else if UsageExhausted p then SkipUsageExhausted
           else if \<not> pr_IsAutomatic p \<and> pr_Code p \<notin> set (in_Codes inp) then SkipCodeNotGiven
           else if \<not> campaignUsable c (in_At inp) then SkipCampaignClosed
           else if \<not> campaignBudgetCurrencyMatches c (in_CurrencyCode inp) then SkipCurrencyMismatch
           else if me_Type m = MethodFixed \<and> me_CurrencyCode m \<noteq> in_CurrencyCode inp
           then SkipCurrencyMismatch
           else if \<not> matchRules (ContextRules c) (in_Context inp) (in_ContextLists inp)
           then SkipRulesNotMatched
           else []))"

definition eligible :: "promotion_candidate \<Rightarrow> compute_input \<Rightarrow> bool" where
  "eligible c inp \<longleftrightarrow> skipReasonOf c inp = []"

definition compareCandidates :: "promotion_candidate \<Rightarrow> promotion_candidate \<Rightarrow> int" where
  "compareCandidates a b =
    (if pr_IsAutomatic (ca_Promotion a) \<noteq> pr_IsAutomatic (ca_Promotion b)
     then (if pr_IsAutomatic (ca_Promotion a) then 1 else - 1)
     else cmp_Compare (pr_ID (ca_Promotion a)) (pr_ID (ca_Promotion b)))"

fun partition_loop ::
    "promotion_candidate list \<Rightarrow> compute_input \<Rightarrow> promotion_candidate list \<Rightarrow> skipped_promotion list \<Rightarrow>
      promotion_candidate list \<times> skipped_promotion list" where
  "partition_loop [] inp out skipped = (out, skipped)"
| "partition_loop (c # cs) inp out skipped =
    (let reason = skipReasonOf c inp in
     if reason \<noteq> [] then
       partition_loop cs inp out
         (skipped @ [\<lparr> sk_PromotionID = pr_ID (ca_Promotion c), sk_Code = pr_Code (ca_Promotion c),
                       sk_Reason = reason \<rparr>])
     else partition_loop cs inp (out @ [c]) skipped)"

definition partitionCandidates ::
    "promotion_candidate list \<Rightarrow> compute_input \<Rightarrow> promotion_candidate list \<times> skipped_promotion list" where
  "partitionCandidates cs inp =
    (case partition_loop cs inp [] [] of
      (out, skipped) \<Rightarrow> (SortFunc compareCandidates out, skipped))"

section \<open>The computation\<close>

definition unmatchedCodes :: "string list \<Rightarrow> promotion_candidate list \<Rightarrow> string list" where
  "unmatchedCodes codes elig =
    (if codes = [] then []
     else filter (\<lambda>code. code \<notin> (\<lambda>c. pr_Code (ca_Promotion c)) ` set elig) codes)"

definition item_line :: "compute_item \<Rightarrow> line_state" where
  "item_line i =
    \<lparr> li_id = cl_ID i, li_amount = cl_Amount i, li_unitAmount = cl_UnitAmount i,
      li_quantity = cl_Quantity i, li_attributes = cl_Attributes i, li_lists = cl_Lists i,
      li_discount = 0 \<rparr>"

definition shipping_line :: "compute_shipping_method \<Rightarrow> line_state" where
  "shipping_line s =
    \<lparr> li_id = sm_ID s, li_amount = sm_Amount s, li_unitAmount = sm_Amount s, li_quantity = 1,
      li_attributes = sm_Attributes s, li_lists = (\<lambda>_. []), li_discount = 0 \<rparr>"

fun apply_all ::
    "promotion_candidate list \<Rightarrow> line_store \<Rightarrow> applied_promotion list \<Rightarrow>
      applied_promotion list \<times> line_store" where
  "apply_all [] st applied = (applied, st)"
| "apply_all (c # cs) st applied =
    (case applyPromotion c st of
      (amount, st') \<Rightarrow>
        if amount \<le> 0 then apply_all cs st' applied
        else
          apply_all cs st'
            (applied @ [\<lparr> ap_PromotionID = pr_ID (ca_Promotion c), ap_Code = pr_Code (ca_Promotion c),
                          ap_IsAutomatic = pr_IsAutomatic (ca_Promotion c), ap_Amount = amount \<rparr>]))"

definition line_discount_of :: "line_state \<Rightarrow> line_discount" where
  "line_discount_of l = \<lparr> ld_ID = li_id l, ld_Amount = li_discount l \<rparr>"

definition discount_sum :: "line_state list \<Rightarrow> int64" where
  "discount_sum ls = fold (\<lambda>l s. add64 s (li_discount l)) ls 0"

definition computeDiscounts :: "promotion_candidate list \<Rightarrow> compute_input \<Rightarrow> compute_result" where
  "computeDiscounts cs inp =
    (let st0 = \<lparr> st_items = map item_line (in_Items inp),
                 st_shipping = map shipping_line (in_ShippingMethods inp) \<rparr> in
     case partitionCandidates cs inp of
       (elig, skipped) \<Rightarrow>
         (case apply_all elig st0 [] of
           (applied, st) \<Rightarrow>
             (let itemsTotal = discount_sum (st_items st);
                  shippingTotal = discount_sum (st_shipping st) in
              \<lparr> re_CurrencyCode = in_CurrencyCode inp,
                re_Items = map line_discount_of (st_items st),
                re_ShippingMethods = map line_discount_of (st_shipping st),
                re_ItemsDiscountTotal = itemsTotal, re_ShippingDiscountTotal = shippingTotal,
                re_DiscountTotal = add64 itemsTotal shippingTotal,
                re_Applied = applied, re_Skipped = skipped,
                re_UnmatchedCodes = unmatchedCodes (in_Codes inp) elig \<rparr>)))"

section \<open>What is taken from a line\<close>

text \<open>A line in range: its discount lies between zero and its amount. A pointer in range: it
  points to a line of the store.\<close>

definition line_ok :: "line_state \<Rightarrow> bool" where
  "line_ok l \<longleftrightarrow> 0 \<le> li_discount l \<and> li_discount l \<le> li_amount l \<and> li_amount l \<le> MaxInt64"

fun ref_ok :: "line_store \<Rightarrow> line_ref \<Rightarrow> bool" where
  "ref_ok st (ItemLine i) \<longleftrightarrow> i < length (st_items st)"
| "ref_ok st (ShippingLine i) \<longleftrightarrow> i < length (st_shipping st)"

definition all_lines :: "line_store \<Rightarrow> line_state list" where
  "all_lines st = st_items st @ st_shipping st"

definition store_ok :: "line_store \<Rightarrow> bool" where
  "store_ok st \<longleftrightarrow> (\<forall>l \<in> set (all_lines st). line_ok l) \<and>
    sum_list (map li_amount (all_lines st)) \<le> MaxInt64"

definition discounted :: "line_store \<Rightarrow> int" where
  "discounted st = sum_list (map li_discount (all_lines st))"

text \<open>The parts of a line no discount changes.\<close>

definition same_lines :: "line_store \<Rightarrow> line_store \<Rightarrow> bool" where
  "same_lines st st' \<longleftrightarrow>
    map (\<lambda>l. l\<lparr> li_discount := 0 \<rparr>) (st_items st') = map (\<lambda>l. l\<lparr> li_discount := 0 \<rparr>) (st_items st) \<and>
    map (\<lambda>l. l\<lparr> li_discount := 0 \<rparr>) (st_shipping st') = map (\<lambda>l. l\<lparr> li_discount := 0 \<rparr>) (st_shipping st)"

lemma same_lines_refl [simp]: "same_lines st st"
  by (simp add: same_lines_def)

lemma same_lines_trans: "same_lines a b \<Longrightarrow> same_lines b c \<Longrightarrow> same_lines a c"
  by (simp add: same_lines_def)

lemma same_lines_length:
  "same_lines st st' \<Longrightarrow> length (st_items st') = length (st_items st) \<and>
    length (st_shipping st') = length (st_shipping st)"
  unfolding same_lines_def by (metis length_map)

lemma same_lines_ref_ok: "same_lines st st' \<Longrightarrow> ref_ok st' p = ref_ok st p"
  using same_lines_length [of st st'] by (cases p) auto

lemma charge_effect:
  assumes "line_ok l" and "charge l want = (c, l')"
  shows "c = max 0 (min want (li_amount l - li_discount l))"
    and "l' = l\<lparr> li_discount := li_discount l + c \<rparr>" and "line_ok l'" and "0 \<le> c"
proof -
  have rem: "remaining l = li_amount l - li_discount l"
    using assms(1) by (auto simp: remaining_def line_ok_def intro!: sub64_id is_i64_between [where b = MaxInt64])
  have add: "add64 (li_discount l) x = li_discount l + x"
    if "0 \<le> x" "x \<le> li_amount l - li_discount l" for x
    using assms(1) that by (intro add64_id is_i64_between [where b = MaxInt64]) (auto simp: line_ok_def)
  show c: "c = max 0 (min want (li_amount l - li_discount l))"
    using assms by (auto simp: charge_def rem Let_def line_ok_def split: if_splits)
  then show "0 \<le> c" by simp
  have "c \<le> li_amount l - li_discount l" using c assms(1) by (simp add: line_ok_def)
  moreover have "l' = (if want \<le> 0 then l else l\<lparr> li_discount := add64 (li_discount l) c \<rparr>)"
    using assms(2) by (auto simp: charge_def Let_def split: if_splits)
  ultimately show "l' = l\<lparr> li_discount := li_discount l + c \<rparr>"
    using add [OF \<open>0 \<le> c\<close>] c by auto
  with \<open>c \<le> _\<close> \<open>0 \<le> c\<close> assms(1) show "line_ok l'" by (simp add: line_ok_def)
qed

section \<open>What is taken from all lines\<close>

text \<open>One store is the other after discounts of \<open>c\<close> in all: the lines are the same but for their
  discounts, no line is discounted beyond its amount, and the discounts grew by \<open>c\<close>.\<close>

definition takes :: "line_store \<Rightarrow> int \<Rightarrow> line_store \<Rightarrow> bool" where
  "takes st c st' \<longleftrightarrow> store_ok st \<and> store_ok st' \<and> same_lines st st' \<and> 0 \<le> c \<and>
    discounted st' = discounted st + c"

lemma takes_refl: "store_ok st \<Longrightarrow> takes st 0 st"
  by (simp add: takes_def)

lemma discounted_bounds:
  assumes "store_ok st"
  shows "0 \<le> discounted st" "discounted st \<le> MaxInt64"
proof -
  have ok: "\<forall>l \<in> set (all_lines st). line_ok l" using assms by (simp add: store_ok_def)
  then show "0 \<le> discounted st"
    unfolding discounted_def by (auto intro!: sum_list_nonneg simp: line_ok_def)
  have "discounted st \<le> sum_list (map li_amount (all_lines st))"
    unfolding discounted_def using ok by (intro sum_list_mono) (auto simp: line_ok_def)
  then show "discounted st \<le> MaxInt64" using assms by (simp add: store_ok_def)
qed

lemma map_update_same:
  "i < length xs \<Longrightarrow> f v = f (xs ! i) \<Longrightarrow> map f (xs[i := v]) = map f xs"
  by (simp add: map_update list_update_same_conv)

lemma sum_list_update_map:
  fixes f :: "'a \<Rightarrow> int"
  shows "i < length xs \<Longrightarrow> sum_list (map f (xs[i := v])) = sum_list (map f xs) - f (xs ! i) + f v"
  by (simp add: map_update sum_list_list_update_int)

lemma deref_in: "ref_ok st p \<Longrightarrow> deref st p \<in> set (all_lines st)"
  by (cases p) (auto simp: all_lines_def)

lemma charge_at_takes:
  assumes "store_ok st" "ref_ok st p" "charge_at st p want = (c, st')"
  shows "takes st c st'" and "c = max 0 (min want (li_amount (deref st p) - li_discount (deref st p)))"
    and "st' = assign st p ((deref st p)\<lparr> li_discount := li_discount (deref st p) + c \<rparr>)"
proof -
  let ?l = "deref st p"
  have ok: "line_ok ?l" using assms(1) deref_in [OF assms(2)] by (simp add: store_ok_def)
  obtain l' where l': "charge ?l want = (c, l')" "st' = assign st p l'"
    using assms(3) by (auto simp: charge_at_def split: prod.splits)
  note ce = charge_effect [OF ok l'(1)]
  show "c = max 0 (min want (li_amount ?l - li_discount ?l))" by (rule ce(1))
  show st': "st' = assign st p (?l\<lparr> li_discount := li_discount ?l + c \<rparr>)" using l'(2) ce(2) by simp
  show "takes st c st'"
  proof (cases p)
    case (ItemLine i)
    then have i: "i < length (st_items st)" using assms(2) by simp
    have "set (all_lines st') \<subseteq> insert l' (set (all_lines st))"
      using ItemLine l'(2) set_update_subset_insert [of "st_items st" i l'] by (auto simp: all_lines_def)
    then have "\<forall>l \<in> set (all_lines st'). line_ok l" using ce(3) assms(1) by (auto simp: store_ok_def)
    moreover have "sum_list (map li_amount (all_lines st')) = sum_list (map li_amount (all_lines st))"
      using ItemLine l'(2) ce(2) i by (simp add: all_lines_def sum_list_update_map)
    moreover have "same_lines st st'"
      using ItemLine l'(2) ce(2) i by (simp add: same_lines_def map_update_same)
    moreover have "discounted st' = discounted st + c"
      using ItemLine l'(2) ce(2) i by (simp add: discounted_def all_lines_def sum_list_update_map)
    ultimately show ?thesis using assms(1) ce(4) by (simp add: takes_def store_ok_def)
  next
    case (ShippingLine i)
    then have i: "i < length (st_shipping st)" using assms(2) by simp
    have "set (all_lines st') \<subseteq> insert l' (set (all_lines st))"
      using ShippingLine l'(2) set_update_subset_insert [of "st_shipping st" i l'] by (auto simp: all_lines_def)
    then have "\<forall>l \<in> set (all_lines st'). line_ok l" using ce(3) assms(1) by (auto simp: store_ok_def)
    moreover have "sum_list (map li_amount (all_lines st')) = sum_list (map li_amount (all_lines st))"
      using ShippingLine l'(2) ce(2) i by (simp add: all_lines_def sum_list_update_map)
    moreover have "same_lines st st'"
      using ShippingLine l'(2) ce(2) i by (simp add: same_lines_def map_update_same)
    moreover have "discounted st' = discounted st + c"
      using ShippingLine l'(2) ce(2) i by (simp add: discounted_def all_lines_def sum_list_update_map)
    ultimately show ?thesis using assms(1) ce(4) by (simp add: takes_def store_ok_def)
  qed
qed

lemma takes_charge:
  assumes "takes st0 a st" "ref_ok st p" "charge_at st p want = (c, st')"
  shows "takes st0 (add64 a c) st'" and "add64 a c = a + c"
proof -
  have ok: "store_ok st" "store_ok st0" using assms(1) by (simp_all add: takes_def)
  note t = charge_at_takes(1) [OF ok(1) assms(2,3)]
  have "a + c = discounted st' - discounted st0" using t assms(1) by (simp add: takes_def)
  moreover have "store_ok st'" using t by (simp add: takes_def)
  ultimately have "0 \<le> a + c" "a + c \<le> MaxInt64"
    using discounted_bounds [OF \<open>store_ok st'\<close>] discounted_bounds [OF ok(2)] t assms(1)
    by (auto simp: takes_def)
  then show e: "add64 a c = a + c" by (intro add64_id is_i64_between [where b = MaxInt64]) simp_all
  show "takes st0 (add64 a c) st'"
    unfolding e using t assms(1) by (auto simp: takes_def intro: same_lines_trans)
qed

lemma takes_ref_ok: "takes st0 a st \<Longrightarrow> ref_ok st p = ref_ok st0 p"
  by (simp add: takes_def same_lines_ref_ok)

lemma each_loop_takes:
  assumes "takes st0 a st" "\<forall>p \<in> set ps. ref_ok st0 p" "each_loop m ps a st = (b, st')"
  shows "takes st0 b st'"
  using assms
proof (induction ps arbitrary: a st)
  case (Cons p ps)
  obtain c st1 where c: "charge_at st p (eachDiscount m (deref st p)) = (c, st1)" by fastforce
  have "ref_ok st p" using Cons.prems(1,2) takes_ref_ok by auto
  then have "takes st0 (add64 a c) st1" by (rule takes_charge(1) [OF Cons.prems(1) _ c])
  then show ?case using Cons.prems c by (intro Cons.IH) auto
qed simp

lemma across_loop_takes:
  assumes "takes st0 a st" "\<forall>p \<in> fst ` set ps. ref_ok st0 p" "across_loop ps a st = (b, st')"
  shows "takes st0 b st'"
  using assms
proof (induction ps arbitrary: a st)
  case (Cons q ps)
  obtain p share where q: "q = (p, share)" by fastforce
  obtain c st1 where c: "charge_at st p share = (c, st1)" by fastforce
  have "ref_ok st p" using Cons.prems(1,2) takes_ref_ok q by auto
  then have "takes st0 (add64 a c) st1" by (rule takes_charge(1) [OF Cons.prems(1) _ c])
  then show ?case using Cons.prems c q by (intro Cons.IH) auto
qed simp

lemma reward_loop_takes:
  assumes "takes st0 a st" "\<forall>p \<in> set ps. ref_ok st0 p" "reward_loop m r ps left a st = (b, st')"
  shows "takes st0 b st'"
  using assms
proof (induction ps arbitrary: a st left)
  case (Cons p ps)
  let ?av = "sub64 (li_quantity (deref st p)) (r p)" and ?u = "rewardPerUnit m (li_unitAmount (deref st p))"
  obtain c st1 where c: "charge_at st p (mul64 (min ?av left) ?u) = (c, st1)" by fastforce
  have "ref_ok st p" using Cons.prems(1,2) takes_ref_ok by auto
  then have t: "takes st0 (add64 a c) st1" by (rule takes_charge(1) [OF Cons.prems(1) _ c])
  show ?case
  proof (cases "left \<le> 0 \<or> ?av \<le> 0 \<or> ?u \<le> 0")
    case True
    then show ?thesis using Cons.prems Cons.IH [OF Cons.prems(1)] by (auto simp: Let_def split: if_splits)
  next
    case False
    then show ?thesis using Cons.prems c Cons.IH [OF t] by (auto simp: Let_def)
  qed
qed simp

lemma filterLines_ok:
  "\<forall>p \<in> set (filterLines ItemLine (st_items st) rules). ref_ok st p"
  "\<forall>p \<in> set (filterLines ShippingLine (st_shipping st) rules). ref_ok st p"
  by (auto simp: filterLines_def)

lemma selectTargets_ok: "\<forall>p \<in> set (selectTargets c m st). ref_ok st p"
  using filterLines_ok unfolding selectTargets_def by auto

lemma applyPromotion_takes:
  assumes "store_ok st" "applyPromotion c st = (a, st')"
  shows "takes st a st'"
proof (cases "ca_Method c")
  case None
  then show ?thesis using assms takes_refl by (auto simp: applyPromotion_def)
next
  case (Some m)
  define ts where "ts = selectTargets c m st"
  have ok: "\<forall>p \<in> set ts. ref_ok st p" unfolding ts_def by (rule selectTargets_ok)
  consider "ts = []" | "ts \<noteq> []" "pr_Type (ca_Promotion c) = PromotionBuyGet"
    | "ts \<noteq> []" "pr_Type (ca_Promotion c) \<noteq> PromotionBuyGet" by blast
  then show ?thesis
  proof cases
    case 1
    then show ?thesis using assms Some takes_refl by (auto simp: applyPromotion_def ts_def)
  next
    case 2
    then have bg: "applyBuyGet c m ts st = (a, st')" using assms Some by (simp add: applyPromotion_def ts_def)
    then show ?thesis
      using takes_refl [OF assms(1)] ok reward_loop_takes [OF takes_refl [OF assms(1)], of "SortFunc (compareCheapest st) ts"]
      by (auto simp: applyBuyGet_def payReward_def Let_def split: option.splits if_splits)
  next
    case 3
    let ?al = "if me_TargetType m = TargetOrder then AllocationAcross else me_Allocation m"
    show ?thesis
    proof (cases "?al = AllocationEach")
      case True
      then have "each_loop m ts 0 st = (a, st')" using 3 assms(2) Some by (simp add: applyPromotion_def ts_def Let_def)
      then show ?thesis using each_loop_takes [OF takes_refl [OF assms(1)] ok] by simp
    next
      case False
      then have "across_loop (zip ts (allocateAcross (acrossTotal m st ts) (alloc_lines st ts))) 0 st = (a, st')"
        using 3 assms(2) Some by (simp add: applyPromotion_def ts_def Let_def)
      moreover have "\<forall>p \<in> fst ` set (zip ts (allocateAcross (acrossTotal m st ts) (alloc_lines st ts))). ref_ok st p"
        using ok by (auto dest: set_zip_leftD)
      ultimately show ?thesis using across_loop_takes [OF takes_refl [OF assms(1)]] by blast
    qed
  qed
qed

lemma apply_all_takes:
  assumes "takes st0 (sum_list (map ap_Amount applied)) st" "\<forall>x \<in> set applied. 0 < ap_Amount x"
    "apply_all cs st applied = (out, st')"
  shows "takes st0 (sum_list (map ap_Amount out)) st' \<and> (\<forall>x \<in> set out. 0 < ap_Amount x)"
  using assms
proof (induction cs arbitrary: st applied)
  case (Cons c cs)
  obtain a st1 where a: "applyPromotion c st = (a, st1)" by fastforce
  have "store_ok st" using Cons.prems(1) by (simp add: takes_def)
  then have t: "takes st a st1" using a by (rule applyPromotion_takes)
  have t0: "takes st0 (sum_list (map ap_Amount applied) + a) st1"
    using Cons.prems(1) t by (auto simp: takes_def intro: same_lines_trans)
  show ?case
  proof (cases "a \<le> 0")
    case True
    then have "a = 0" using t by (simp add: takes_def)
    then show ?thesis using Cons.IH [of applied st1] Cons.prems a t0 by simp
  next
    case False
    show ?thesis by (rule Cons.IH) (use False Cons.prems a t0 in auto)
  qed
qed simp

section \<open>What the checks of the input establish\<close>

lemma check_compute_items_ok:
  assumes "check_compute_items is seen s = None" "0 \<le> s" "s \<le> MaxAmount"
  shows "s + sum_list (map cl_Amount is) \<le> MaxAmount \<and> distinct (map cl_ID is) \<and>
    set (map cl_ID is) \<inter> set seen = {} \<and>
    (\<forall>i \<in> set is. 0 \<le> cl_Amount i \<and> cl_Amount i \<le> MaxAmount \<and> 1 \<le> cl_Quantity i \<and>
      cl_Quantity i \<le> MaxQuantity \<and> 0 \<le> cl_UnitAmount i \<and> cl_UnitAmount i \<le> MaxAmount \<and>
      cl_UnitAmount i * cl_Quantity i = cl_Amount i)"
  using assms
proof (induction "is" arbitrary: seen s)
  case (Cons i ls)
  have c: "validateLineID (cl_ID i) seen = None" "validateAmount (cl_Amount i) = None"
    "validateQuantity (cl_Quantity i) = None" "validateUnitAmount i = None"
    "\<not> add64 s (cl_Amount i) > MaxAmount" "check_compute_items ls (cl_ID i # seen) (add64 s (cl_Amount i)) = None"
    using Cons.prems(1) by (auto simp: Let_def split: option.splits if_splits)
  have am: "0 \<le> cl_Amount i" "cl_Amount i \<le> MaxAmount" using c(2)
    by (auto simp: validateAmount_def promo_bounds split: if_splits)
  have qu: "1 \<le> cl_Quantity i" "cl_Quantity i \<le> MaxQuantity" using c(3)
    by (auto simp: validateQuantity_def promo_bounds split: if_splits)
  have u: "0 \<le> cl_UnitAmount i" "cl_UnitAmount i \<le> MaxAmount"
    "mul64 (cl_UnitAmount i) (cl_Quantity i) = cl_Amount i" using c(4)
    by (auto simp: validateUnitAmount_def validateAmount_def promo_bounds split: option.splits if_splits)
  have "cl_UnitAmount i * cl_Quantity i \<le> MaxAmount * MaxQuantity"
    using u qu by (intro mult_mono) (simp_all add: promo_bounds)
  then have "is_i64 (cl_UnitAmount i * cl_Quantity i)"
    using u qu by (intro is_i64_between [where b = "MaxAmount * MaxQuantity"])
      (simp_all add: promo_bounds MaxInt64_def)
  then have ua: "cl_UnitAmount i * cl_Quantity i = cl_Amount i" using u(3) by (simp add: mul64_id)
  have "is_i64 (s + cl_Amount i)" using am Cons.prems(2,3)
    by (intro is_i64_between [where b = "2 * MaxAmount"]) (simp_all add: promo_bounds MaxInt64_def)
  then have a: "add64 s (cl_Amount i) = s + cl_Amount i" by (rule add64_id)
  have new: "cl_ID i \<notin> set seen" using c(1)
    by (auto simp: validateLineID_def split: option.splits if_splits)
  have "s + cl_Amount i + sum_list (map cl_Amount ls) \<le> MaxAmount \<and> distinct (map cl_ID ls) \<and>
    set (map cl_ID ls) \<inter> set (cl_ID i # seen) = {} \<and>
    (\<forall>i \<in> set ls. 0 \<le> cl_Amount i \<and> cl_Amount i \<le> MaxAmount \<and> 1 \<le> cl_Quantity i \<and>
      cl_Quantity i \<le> MaxQuantity \<and> 0 \<le> cl_UnitAmount i \<and> cl_UnitAmount i \<le> MaxAmount \<and>
      cl_UnitAmount i * cl_Quantity i = cl_Amount i)"
    using Cons.IH [of "cl_ID i # seen" "s + cl_Amount i"] c(5,6) a am Cons.prems(2) by simp
  then show ?case using am qu u(1,2) ua new by auto
qed simp

lemma check_compute_shipping_ok:
  assumes "check_compute_shipping ss seen s = None" "0 \<le> s" "s \<le> MaxAmount"
  shows "s + sum_list (map sm_Amount ss) \<le> MaxAmount \<and> distinct (map sm_ID ss) \<and>
    set (map sm_ID ss) \<inter> set seen = {} \<and> (\<forall>m \<in> set ss. 0 \<le> sm_Amount m \<and> sm_Amount m \<le> MaxAmount)"
  using assms
proof (induction ss arbitrary: seen s)
  case (Cons m ms)
  have c: "validateLineID (sm_ID m) seen = None" "validateAmount (sm_Amount m) = None"
    "\<not> add64 s (sm_Amount m) > MaxAmount" "check_compute_shipping ms (sm_ID m # seen) (add64 s (sm_Amount m)) = None"
    using Cons.prems(1) by (auto simp: Let_def split: option.splits if_splits)
  have am: "0 \<le> sm_Amount m" "sm_Amount m \<le> MaxAmount" using c(2)
    by (auto simp: validateAmount_def promo_bounds split: if_splits)
  have "is_i64 (s + sm_Amount m)" using am Cons.prems(2,3)
    by (intro is_i64_between [where b = "2 * MaxAmount"]) (simp_all add: promo_bounds MaxInt64_def)
  then have a: "add64 s (sm_Amount m) = s + sm_Amount m" by (rule add64_id)
  have new: "sm_ID m \<notin> set seen" using c(1)
    by (auto simp: validateLineID_def split: option.splits if_splits)
  have "s + sm_Amount m + sum_list (map sm_Amount ms) \<le> MaxAmount \<and> distinct (map sm_ID ms) \<and>
    set (map sm_ID ms) \<inter> set (sm_ID m # seen) = {} \<and>
    (\<forall>m \<in> set ms. 0 \<le> sm_Amount m \<and> sm_Amount m \<le> MaxAmount)"
    using Cons.IH [of "sm_ID m # seen" "s + sm_Amount m"] c(3,4) a am Cons.prems(2) by simp
  then show ?case using am new by auto
qed simp

definition initial_store :: "compute_input \<Rightarrow> line_store" where
  "initial_store inp =
    \<lparr> st_items = map item_line (in_Items inp), st_shipping = map shipping_line (in_ShippingMethods inp) \<rparr>"

lemma normalized_fields:
  assumes "normalizeComputeInput inp now = Inr inp'"
  shows "in_Items inp' = in_Items inp" "in_ShippingMethods inp' = in_ShippingMethods inp"
    "in_Context inp' = in_Context inp" "in_ContextLists inp' = in_ContextLists inp"
    "check_compute_items (in_Items inp) [] 0 = None"
    "check_compute_shipping (in_ShippingMethods inp) [] 0 = None"
    "normalizeCodes (in_Codes inp) = Inr (in_Codes inp')"
  using assms by (auto simp: normalizeComputeInput_def split: sum.splits option.splits if_splits)

lemmas normalized_items = check_compute_items_ok [OF normalized_fields(5)]
lemmas normalized_shipping = check_compute_shipping_ok [OF normalized_fields(6)]

lemma initial_store_ok:
  assumes "normalizeComputeInput inp now = Inr inp'"
  shows "store_ok (initial_store inp')" and "discounted (initial_store inp') = 0"
proof -
  have i: "sum_list (map cl_Amount (in_Items inp)) \<le> MaxAmount"
    "\<forall>i \<in> set (in_Items inp). 0 \<le> cl_Amount i \<and> cl_Amount i \<le> MaxAmount"
    and s: "sum_list (map sm_Amount (in_ShippingMethods inp)) \<le> MaxAmount"
    "\<forall>m \<in> set (in_ShippingMethods inp). 0 \<le> sm_Amount m \<and> sm_Amount m \<le> MaxAmount"
    using normalized_items [OF assms] normalized_shipping [OF assms] by (simp_all add: promo_bounds)
  have m: "map (li_amount \<circ> item_line) is = map cl_Amount is"
    "map (li_amount \<circ> shipping_line) ss = map sm_Amount ss" for "is" ss
    by (simp_all add: item_line_def shipping_line_def)
  show "store_ok (initial_store inp')"
    using i s by (auto simp: store_ok_def initial_store_def all_lines_def normalized_fields [OF assms] m
        line_ok_def item_line_def shipping_line_def promo_bounds MaxInt64_def)
  show "discounted (initial_store inp') = 0"
    by (simp add: discounted_def initial_store_def all_lines_def comp_def item_line_def shipping_line_def
        sum_list_0)
qed

lemma discount_sum_eq:
  assumes "store_ok st"
  shows "discount_sum (st_items st) = sum_list (map li_discount (st_items st))"
    and "discount_sum (st_shipping st) = sum_list (map li_discount (st_shipping st))"
    and "add64 (discount_sum (st_items st)) (discount_sum (st_shipping st)) = discounted st"
proof -
  have ok: "\<forall>l \<in> set (all_lines st). 0 \<le> li_discount l" using assms by (simp add: store_ok_def line_ok_def)
  have b: "discounted st \<le> MaxInt64" by (rule discounted_bounds(2) [OF assms])
  have fold: "fold (\<lambda>l s. add64 s (li_discount l)) ls a = a + sum_list (map li_discount ls)"
    if "\<forall>l \<in> set ls. 0 \<le> li_discount l" "0 \<le> a" "a + sum_list (map li_discount ls) \<le> MaxInt64" for ls a
    using that
  proof (induction ls arbitrary: a)
    case (Cons l ls)
    have "0 \<le> sum_list (map li_discount ls)" using Cons.prems(1) by (auto intro!: sum_list_nonneg)
    then have "is_i64 (a + li_discount l)"
      using Cons.prems by (intro is_i64_between [where b = MaxInt64]) auto
    then show ?case using Cons by (simp add: add64_id add.assoc)
  qed simp
  have pos: "0 \<le> sum_list (map li_discount (st_items st))" "0 \<le> sum_list (map li_discount (st_shipping st))"
    using ok by (auto intro!: sum_list_nonneg simp: all_lines_def)
  show i: "discount_sum (st_items st) = sum_list (map li_discount (st_items st))"
    and s: "discount_sum (st_shipping st) = sum_list (map li_discount (st_shipping st))"
    using ok b pos by (auto simp: discount_sum_def fold all_lines_def discounted_def)
  show "add64 (discount_sum (st_items st)) (discount_sum (st_shipping st)) = discounted st"
    using b pos unfolding i s
    by (subst add64_id) (auto simp: discounted_def all_lines_def intro!: is_i64_between [where b = MaxInt64])
qed

lemma same_lines_nth:
  assumes "same_lines st st'"
  shows "i < length (st_items st) \<Longrightarrow> (st_items st' ! i)\<lparr> li_discount := 0 \<rparr> = (st_items st ! i)\<lparr> li_discount := 0 \<rparr>"
    and "i < length (st_shipping st) \<Longrightarrow> (st_shipping st' ! i)\<lparr> li_discount := 0 \<rparr> = (st_shipping st ! i)\<lparr> li_discount := 0 \<rparr>"
  using assms same_lines_length [OF assms] unfolding same_lines_def by (metis nth_map)+

end
