(* ===== verification/PromoProps.thy ===== *)
theory PromoProps
  imports PromoDiscounts
begin

text \<open>
  Properties of the discount computation, and the carts their witnesses run on.
\<close>

section \<open>A cart\<close>

definition cart_input :: compute_input where
  "cart_input =
    \<lparr> in_CurrencyCode = '' try '', in_Context = (\<lambda>_. None), in_ContextLists = (\<lambda>_. []),
      in_Items =
        [\<lparr> cl_ID = ''li_1'', cl_Amount = 1000, cl_UnitAmount = 500, cl_Quantity = 2,
           cl_Attributes = (\<lambda>_. None), cl_Lists = (\<lambda>_. []) \<rparr>,
         \<lparr> cl_ID = ''li_2'', cl_Amount = 333, cl_UnitAmount = 333, cl_Quantity = 1,
           cl_Attributes = (\<lambda>_. None), cl_Lists = (\<lambda>_. []) \<rparr>],
      in_ShippingMethods = [\<lparr> sm_ID = ''sm_1'', sm_Amount = 250, sm_Attributes = (\<lambda>_. None) \<rparr>],
      in_Codes = [''summer''], in_At = 0 \<rparr>"

definition cart_promotion :: "string \<Rightarrow> string \<Rightarrow> bool \<Rightarrow> string \<Rightarrow> promotion" where
  "cart_promotion eid code auto t =
    \<lparr> pr_ID = eid, pr_Code = code, pr_IsAutomatic = auto, pr_Type = t, pr_CampaignID = None,
      pr_Status = PromotionActive, pr_UsageLimit = None, pr_UsageCount = 0 \<rparr>"

definition cart_method :: "string \<Rightarrow> string \<Rightarrow> string \<Rightarrow> int64 \<Rightarrow> application_method" where
  "cart_method t target alloc v =
    \<lparr> me_ID = ''pam_1'', me_PromotionID = [], me_Type = t, me_TargetType = target, me_Allocation = alloc,
      me_Value = v, me_MaxQuantity = None, me_BuyQuantity = None, me_ApplyToQuantity = None,
      me_CurrencyCode = (if t = MethodFixed then ''TRY'' else []) \<rparr>"

definition cart_candidates :: "promotion_candidate list" where
  "cart_candidates =
    [\<lparr> ca_Promotion = cart_promotion ''promo_1'' ''AUTO'' True PromotionStandard, ca_Campaign = None,
       ca_Method = Some (cart_method MethodFixed TargetOrder AllocationAcross 100), ca_Rules = [] \<rparr>,
     \<lparr> ca_Promotion = cart_promotion ''promo_2'' ''SUMMER'' False PromotionStandard, ca_Campaign = None,
       ca_Method = Some (cart_method MethodPercentage TargetItems AllocationEach 9500), ca_Rules = [] \<rparr>,
     \<lparr> ca_Promotion = cart_promotion ''promo_3'' ''SHIP'' True PromotionStandard, ca_Campaign = None,
       ca_Method = Some (cart_method MethodPercentage TargetShippingMethods AllocationEach 10000), ca_Rules = [] \<rparr>]"

lemma cart_normalized:
  "normalizeComputeInput cart_input 77 =
    Inr (cart_input\<lparr> in_CurrencyCode := ''TRY'', in_Codes := [''SUMMER''], in_At := 77 \<rparr>)"
proof -
  have "normalizeCurrency (in_CurrencyCode cart_input) = Inr ''TRY''"
    "check_compute_items (in_Items cart_input) [] 0 = None"
    "check_compute_shipping (in_ShippingMethods cart_input) [] 0 = None"
    "normalizeCodes (in_Codes cart_input) = Inr [''SUMMER'']"
    "length (in_Items cart_input) \<le> MaxComputeLines" "length (in_ShippingMethods cart_input) \<le> MaxComputeLines"
    "in_At cart_input = 0" by code_simp+
  then show ?thesis by (simp add: normalizeComputeInput_def)
qed

section \<open>The identity of the result\<close>

text \<open>C3: the discount of a cart adds up in every way it is reported. Whatever the candidates, also
  those no writer would have stored, the computation on an accepted input reports one discount per
  item and per shipping method, in the order of the input and under its identity; no discount is
  negative or exceeds the amount of its line; and the total is at once the total of the items and
  of the shipping, the sum of all line discounts, and the sum of what the applied promotions each
  took, every one of them a positive amount.\<close>

theorem compute_identity:
  assumes "normalizeComputeInput inp now = Inr inp'"
  shows "let r = computeDiscounts cs inp' in
    list_all2 (\<lambda>d i. ld_ID d = cl_ID i \<and> 0 \<le> ld_Amount d \<and> ld_Amount d \<le> cl_Amount i)
      (re_Items r) (in_Items inp) \<and>
    list_all2 (\<lambda>d m. ld_ID d = sm_ID m \<and> 0 \<le> ld_Amount d \<and> ld_Amount d \<le> sm_Amount m)
      (re_ShippingMethods r) (in_ShippingMethods inp) \<and>
    re_ItemsDiscountTotal r = sum_list (map ld_Amount (re_Items r)) \<and>
    re_ShippingDiscountTotal r = sum_list (map ld_Amount (re_ShippingMethods r)) \<and>
    re_DiscountTotal r = re_ItemsDiscountTotal r + re_ShippingDiscountTotal r \<and>
    re_DiscountTotal r = sum_list (map ap_Amount (re_Applied r)) \<and>
    (\<forall>a \<in> set (re_Applied r). 0 < ap_Amount a)"
proof -
  define st0 where "st0 = initial_store inp'"
  obtain elig skipped where p: "partitionCandidates cs inp' = (elig, skipped)" by fastforce
  obtain applied st where a: "apply_all elig st0 [] = (applied, st)" by fastforce
  note ok0 = initial_store_ok [OF assms, folded st0_def]
  have t: "takes st0 (sum_list (map ap_Amount applied)) st" "\<forall>x \<in> set applied. 0 < ap_Amount x"
    using apply_all_takes [OF _ _ a] takes_refl [OF ok0(1)] by simp_all
  then have ok: "store_ok st" and same: "same_lines st0 st"
    and d: "discounted st = sum_list (map ap_Amount applied)" using ok0(2) by (simp_all add: takes_def)
  note sums = discount_sum_eq [OF ok]
  have len: "length (st_items st) = length (in_Items inp)"
    "length (st_shipping st) = length (in_ShippingMethods inp)"
    using same_lines_length [OF same] by (simp_all add: st0_def initial_store_def normalized_fields [OF assms])
  have item: "li_id (st_items st ! i) = cl_ID (in_Items inp ! i) \<and>
      li_amount (st_items st ! i) = cl_Amount (in_Items inp ! i)" if "i < length (in_Items inp)" for i
  proof -
    have "(st_items st ! i)\<lparr> li_discount := 0 \<rparr> = (item_line (in_Items inp ! i))\<lparr> li_discount := 0 \<rparr>"
      using same_lines_nth(1) [OF same, of i] that by (simp add: st0_def initial_store_def normalized_fields [OF assms])
    then show ?thesis by (cases "st_items st ! i") (simp add: item_line_def)
  qed
  have ship: "li_id (st_shipping st ! i) = sm_ID (in_ShippingMethods inp ! i) \<and>
      li_amount (st_shipping st ! i) = sm_Amount (in_ShippingMethods inp ! i)"
    if "i < length (in_ShippingMethods inp)" for i
  proof -
    have "(st_shipping st ! i)\<lparr> li_discount := 0 \<rparr> = (shipping_line (in_ShippingMethods inp ! i))\<lparr> li_discount := 0 \<rparr>"
      using same_lines_nth(2) [OF same, of i] that by (simp add: st0_def initial_store_def normalized_fields [OF assms])
    then show ?thesis by (cases "st_shipping st ! i") (simp add: shipping_line_def)
  qed
  have bounds: "\<forall>l \<in> set (all_lines st). 0 \<le> li_discount l \<and> li_discount l \<le> li_amount l"
    using ok by (simp add: store_ok_def line_ok_def)
  have "list_all2 (\<lambda>d i. ld_ID d = cl_ID i \<and> 0 \<le> ld_Amount d \<and> ld_Amount d \<le> cl_Amount i)
      (map line_discount_of (st_items st)) (in_Items inp)"
    unfolding list_all2_conv_all_nth using len item bounds
    by (auto simp: line_discount_of_def all_lines_def) (metis UnI1 nth_mem)+
  moreover have "list_all2 (\<lambda>d m. ld_ID d = sm_ID m \<and> 0 \<le> ld_Amount d \<and> ld_Amount d \<le> sm_Amount m)
      (map line_discount_of (st_shipping st)) (in_ShippingMethods inp)"
    unfolding list_all2_conv_all_nth using len ship bounds
    by (auto simp: line_discount_of_def all_lines_def) (metis UnI2 nth_mem)+
  moreover have amounts: "map (ld_Amount \<circ> line_discount_of) ls = map li_discount ls" for ls
    by (simp add: line_discount_of_def)
  moreover have "computeDiscounts cs inp' =
      \<lparr> re_CurrencyCode = in_CurrencyCode inp', re_Items = map line_discount_of (st_items st),
        re_ShippingMethods = map line_discount_of (st_shipping st),
        re_ItemsDiscountTotal = discount_sum (st_items st),
        re_ShippingDiscountTotal = discount_sum (st_shipping st),
        re_DiscountTotal = discounted st, re_Applied = applied, re_Skipped = skipped,
        re_UnmatchedCodes = unmatchedCodes (in_Codes inp') elig \<rparr>"
    using p a sums(3) by (simp add: computeDiscounts_def st0_def initial_store_def Let_def)
  ultimately show ?thesis
    using t(2) sums(1,2) d by (simp add: amounts discounted_def all_lines_def)
qed

theorem compute_identity_witness:
  "\<exists>inp'. normalizeComputeInput cart_input 77 = Inr inp' \<and>
    re_DiscountTotal (computeDiscounts cart_candidates inp') =
      sum_list (map ap_Amount (re_Applied (computeDiscounts cart_candidates inp'))) \<and>
    map ld_Amount (re_Items (computeDiscounts cart_candidates inp')) = [1000, 333] \<and>
    map ap_Amount (re_Applied (computeDiscounts cart_candidates inp')) = [1266, 67, 250]"
proof -
  let ?i = "cart_input\<lparr> in_CurrencyCode := ''TRY'', in_Codes := [''SUMMER''], in_At := 77 \<rparr>"
  have n: "normalizeComputeInput cart_input 77 = Inr ?i" by (rule cart_normalized)
  have "map ld_Amount (re_Items (computeDiscounts cart_candidates ?i)) = [1000, 333] \<and>
      map ap_Amount (re_Applied (computeDiscounts cart_candidates ?i)) = [1266, 67, 250]"
    by code_simp
  with n compute_identity [OF n, of cart_candidates] show ?thesis by (auto simp: Let_def)
qed

section \<open>The order of the candidates and of the codes\<close>

lemma partition_loop_eq:
  "partition_loop cs inp out skipped =
    (out @ filter (\<lambda>c. eligible c inp) cs,
     skipped @ map (\<lambda>c. \<lparr> sk_PromotionID = pr_ID (ca_Promotion c), sk_Code = pr_Code (ca_Promotion c),
         sk_Reason = skipReasonOf c inp \<rparr>) (filter (\<lambda>c. \<not> eligible c inp) cs))"
  by (induction cs arbitrary: out skipped) (auto simp: eligible_def Let_def)

lemma ordering_compareCandidates: "ordering_on A compareCandidates"
  unfolding ordering_on_def compareCandidates_def cmp_Compare_def by (auto split: if_splits)

lemma compareCandidates_antisym:
  "compareCandidates a b \<le> 0 \<Longrightarrow> compareCandidates b a \<le> 0 \<Longrightarrow>
    pr_ID (ca_Promotion a) = pr_ID (ca_Promotion b)"
  unfolding compareCandidates_def cmp_Compare_def by (auto split: if_splits)

lemma eligible_order_free:
  assumes "mset cs = mset cs'" "distinct (map (\<lambda>c. pr_ID (ca_Promotion c)) cs)"
    "\<And>c. eligible c inp = eligible c inp'"
  shows "SortFunc compareCandidates (filter (\<lambda>c. eligible c inp) cs) =
    SortFunc compareCandidates (filter (\<lambda>c. eligible c inp') cs')"
proof (rule SortFunc_unique)
  show "mset (filter (\<lambda>c. eligible c inp) cs) = mset (filter (\<lambda>c. eligible c inp') cs')"
    using assms(1,3) by simp
  fix a b assume "a \<in> set (filter (\<lambda>c. eligible c inp) cs)" "b \<in> set (filter (\<lambda>c. eligible c inp) cs)"
    "compareCandidates a b \<le> 0" "compareCandidates b a \<le> 0"
  then show "a = b"
    using compareCandidates_antisym [of a b] assms(2) by (auto simp: distinct_map dest: inj_onD)
qed (rule ordering_compareCandidates)

lemma apply_all_order:
  assumes "apply_all cs st applied = (out, st')"
  shows "\<exists>ds. out = applied @ ds \<and>
    subseq (map (\<lambda>a. (ap_IsAutomatic a, ap_PromotionID a)) ds)
      (map (\<lambda>c. (pr_IsAutomatic (ca_Promotion c), pr_ID (ca_Promotion c))) cs)"
  using assms
proof (induction cs arbitrary: st applied)
  case (Cons c cs)
  obtain a st1 where a: "applyPromotion c st = (a, st1)" by fastforce
  show ?case
  proof (cases "a \<le> 0")
    case True
    then show ?thesis using Cons.IH [of st1 applied] Cons.prems a by auto
  next
    case False
    let ?x = "\<lparr> ap_PromotionID = pr_ID (ca_Promotion c), ap_Code = pr_Code (ca_Promotion c),
        ap_IsAutomatic = pr_IsAutomatic (ca_Promotion c), ap_Amount = a \<rparr>"
    have "apply_all cs st1 (applied @ [?x]) = (out, st')" using False Cons.prems a by simp
    then obtain ds where "out = (applied @ [?x]) @ ds" "subseq (map (\<lambda>a. (ap_IsAutomatic a, ap_PromotionID a)) ds)
      (map (\<lambda>c. (pr_IsAutomatic (ca_Promotion c), pr_ID (ca_Promotion c))) cs)"
      using Cons.IH by blast
    then show ?thesis by (intro exI [of _ "?x # ds"]) simp
  qed
qed simp

lemma sorted_wrt_nths: "sorted_wrt R xs \<Longrightarrow> sorted_wrt R (nths xs N)"
proof (induction xs arbitrary: N)
  case (Cons x xs)
  let ?M = "{j. Suc j \<in> N}"
  have "\<forall>y \<in> set (nths xs ?M). R x y"
    using Cons.prems set_nths_subset [of xs ?M] unfolding sorted_wrt.simps(2) by blast
  then show ?case using Cons.IH [of ?M] Cons.prems by (simp add: nths_Cons)
qed simp

lemma sorted_wrt_subseq: "subseq xs ys \<Longrightarrow> sorted_wrt R ys \<Longrightarrow> sorted_wrt R xs"
  by (auto simp: subseq_conv_nths sorted_wrt_nths)

text \<open>the discount of a cart does not depend on the order in which the candidates are read or
  the codes were typed. When no promotion is a candidate twice, any arrangement of the same
  candidates and any list with the same codes give the same discount on every line, the same
  totals and the same applied promotions in the same order: the coupons before the automatic
  promotions, and each of the two by ascending identity.\<close>

theorem compute_order_free:
  assumes "mset cs = mset cs'" and "distinct (map (\<lambda>c. pr_ID (ca_Promotion c)) cs)"
    and "set codes = set codes'"
  shows "let r = computeDiscounts cs (inp\<lparr> in_Codes := codes \<rparr>);
             r' = computeDiscounts cs' (inp\<lparr> in_Codes := codes' \<rparr>) in
    re_Items r = re_Items r' \<and> re_ShippingMethods r = re_ShippingMethods r' \<and>
    re_DiscountTotal r = re_DiscountTotal r' \<and> re_Applied r = re_Applied r' \<and>
    sorted_wrt (\<lambda>a b. \<not> ap_IsAutomatic a \<and> ap_IsAutomatic b \<or>
      ap_IsAutomatic a = ap_IsAutomatic b \<and> ap_PromotionID a < ap_PromotionID b) (re_Applied r)"
proof -
  define i i' where "i = inp\<lparr> in_Codes := codes \<rparr>" and "i' = inp\<lparr> in_Codes := codes' \<rparr>"
  have same: "eligible c i = eligible c i'" for c
    using assms(3) by (simp add: eligible_def skipReasonOf_def i_def i'_def Let_def cong: if_cong option.case_cong)
  define elig where "elig = SortFunc compareCandidates (filter (\<lambda>c. eligible c i) cs)"
  have elig': "elig = SortFunc compareCandidates (filter (\<lambda>c. eligible c i') cs')"
    unfolding elig_def by (rule eligible_order_free [OF assms(1,2) same])
  obtain applied st where a: "apply_all elig (initial_store i) [] = (applied, st)" by fastforce
  have "initial_store i' = initial_store i" by (simp add: initial_store_def i_def i'_def)
  then have r: "re_Items (computeDiscounts cs i) = re_Items (computeDiscounts cs' i') \<and>
      re_ShippingMethods (computeDiscounts cs i) = re_ShippingMethods (computeDiscounts cs' i') \<and>
      re_DiscountTotal (computeDiscounts cs i) = re_DiscountTotal (computeDiscounts cs' i') \<and>
      re_Applied (computeDiscounts cs i) = re_Applied (computeDiscounts cs' i') \<and>
      re_Applied (computeDiscounts cs i) = applied"
    using a elig' [symmetric]
    by (simp add: computeDiscounts_def partitionCandidates_def partition_loop_eq elig_def [symmetric]
        initial_store_def [symmetric] Let_def)
  let ?key = "\<lambda>c. (pr_IsAutomatic (ca_Promotion c), pr_ID (ca_Promotion c))"
  let ?lt = "\<lambda>x y :: bool \<times> string. \<not> fst x \<and> fst y \<or> fst x = fst y \<and> snd x < snd y"
  have "distinct (map (\<lambda>c. pr_ID (ca_Promotion c)) elig)"
  proof -
    have "distinct (map (\<lambda>c. pr_ID (ca_Promotion c)) (filter (\<lambda>c. eligible c i) cs))"
      using assms(2) by (rule distinct_map_filter)
    then show ?thesis
      unfolding elig_def by (metis mset_SortFunc mset_eq_imp_distinct_iff mset_map)
  qed
  moreover have "sorted_wrt (\<lambda>a b. compareCandidates a b \<le> 0) elig"
    unfolding elig_def by (rule SortFunc_sorted [OF ordering_compareCandidates])
  ultimately have "sorted_wrt ?lt (map ?key elig)"
  proof (induction elig)
    case (Cons c cs)
    have "?lt (?key c) (?key d)" if "d \<in> set cs" for d
    proof -
      have "compareCandidates c d \<le> 0" "pr_ID (ca_Promotion c) \<noteq> pr_ID (ca_Promotion d)"
        using Cons.prems that by auto
      then show ?thesis by (auto simp: compareCandidates_def cmp_Compare_def split: if_splits)
    qed
    then show ?case using Cons by auto
  qed simp
  moreover have "subseq (map (\<lambda>a. (ap_IsAutomatic a, ap_PromotionID a)) applied) (map ?key elig)"
    using apply_all_order [OF a] by simp
  ultimately have "sorted_wrt ?lt (map (\<lambda>a. (ap_IsAutomatic a, ap_PromotionID a)) applied)"
    by (rule sorted_wrt_subseq [rotated])
  then have sorted: "sorted_wrt (\<lambda>a b. \<not> ap_IsAutomatic a \<and> ap_IsAutomatic b \<or>
      ap_IsAutomatic a = ap_IsAutomatic b \<and> ap_PromotionID a < ap_PromotionID b) applied"
    by (simp add: sorted_wrt_map)
  have e: "re_Applied (computeDiscounts cs i) = applied" using r by blast
  show ?thesis
    using r [unfolded e] sorted unfolding Let_def i_def [symmetric] i'_def [symmetric] e by blast
qed

theorem compute_order_free_witness:
  "re_Applied (computeDiscounts cart_candidates (cart_input\<lparr> in_Codes := [''A'', ''B''] \<rparr>)) =
   re_Applied (computeDiscounts (rev cart_candidates) (cart_input\<lparr> in_Codes := [''B'', ''A'', ''B''] \<rparr>))"
proof -
  have "mset cart_candidates = mset (rev cart_candidates)" by simp
  moreover have "distinct (map (\<lambda>c. pr_ID (ca_Promotion c)) cart_candidates)" by code_simp
  moreover have "set [''A'', ''B''] = set [''B'', ''A'', ''B'']" by auto
  ultimately show ?thesis
    using compute_order_free [of cart_candidates "rev cart_candidates" "[''A'', ''B'']" "[''B'', ''A'', ''B'']" cart_input]
    by (simp add: Let_def)
qed

section \<open>Percentages add up\<close>

lemma percentageOf_eq:
  assumes "0 \<le> a" "a \<le> MaxAmount" "0 \<le> v" "v \<le> BasisPointDenominator"
  shows "percentageOf a v = a * v div 10000" and "0 \<le> percentageOf a v" and "percentageOf a v \<le> a"
proof -
  have "a * v \<le> MaxAmount * BasisPointDenominator" using assms by (intro mult_mono) simp_all
  then have "mul64 a v = a * v" "a * v \<le> MaxInt64"
    using assms by (auto intro!: mul64_id is_i64_between [where b = MaxInt64] simp: promo_bounds MaxInt64_def)
  then show e: "percentageOf a v = a * v div 10000"
    using assms by (auto simp: percentageOf_def promo_bounds quot64_id Let_def)
  show "0 \<le> percentageOf a v" unfolding e using assms by (simp add: pos_imp_zdiv_nonneg_iff)
  have "a * v \<le> a * 10000" using assms by (intro mult_left_mono) (simp_all add: promo_bounds)
  then have "a * v div 10000 \<le> a * 10000 div 10000" by (intro zdiv_mono1) simp_all
  then show "percentageOf a v \<le> a" unfolding e by simp
qed

text \<open>What an allocation per line does to the items, when no item is targeted twice.\<close>

lemma each_loop_items:
  assumes "store_ok st" "distinct is" "\<forall>i \<in> set is. i < length (st_items st)"
    "each_loop m (map ItemLine is) a st = (b, st')"
  shows "st_shipping st' = st_shipping st \<and> length (st_items st') = length (st_items st) \<and> store_ok st' \<and>
    (\<forall>i < length (st_items st). st_items st' ! i =
      (let l = st_items st ! i in
       if i \<in> set is then l\<lparr> li_discount := li_discount l +
           max 0 (min (eachDiscount m l) (li_amount l - li_discount l)) \<rparr> else l))"
  using assms
proof (induction "is" arbitrary: a st)
  case (Cons i ks)
  let ?l = "st_items st ! i"
  obtain c st1 where c: "charge_at st (ItemLine i) (eachDiscount m ?l) = (c, st1)" by fastforce
  have ok: "ref_ok st (ItemLine i)" using Cons.prems(3) by simp
  note ch = charge_at_takes [OF Cons.prems(1) ok c]
  have st1: "st1 = st\<lparr> st_items := (st_items st)[i := ?l\<lparr> li_discount := li_discount ?l +
      max 0 (min (eachDiscount m ?l) (li_amount ?l - li_discount ?l)) \<rparr>] \<rparr>"
    using ch(2,3) by simp
  have "store_ok st1" using ch(1) by (simp add: takes_def)
  moreover have "each_loop m (map ItemLine ks) (add64 a c) st1 = (b, st')" using Cons.prems(4) c by simp
  ultimately have IH: "st_shipping st' = st_shipping st1 \<and> length (st_items st') = length (st_items st1) \<and> store_ok st' \<and>
    (\<forall>j < length (st_items st1). st_items st' ! j =
      (let l = st_items st1 ! j in
       if j \<in> set ks then l\<lparr> li_discount := li_discount l +
           max 0 (min (eachDiscount m l) (li_amount l - li_discount l)) \<rparr> else l))"
    using Cons.prems(2,3) st1 by (intro Cons.IH) auto
  have "i \<notin> set ks" using Cons.prems(2) by simp
  have "st_items st' ! j = (let l = st_items st ! j in
      if j \<in> set (i # ks) then l\<lparr> li_discount := li_discount l +
          max 0 (min (eachDiscount m l) (li_amount l - li_discount l)) \<rparr> else l)"
    if "j < length (st_items st)" for j
  proof (cases "j = i")
    case True
    then show ?thesis using IH that \<open>i \<notin> set ks\<close> by (simp add: st1 Let_def)
  next
    case False
    then show ?thesis using IH that by (simp add: st1 Let_def)
  qed
  with IH show ?case by (simp add: st1)
qed auto

definition percent_candidate :: "promotion_candidate \<Rightarrow> bool" where
  "percent_candidate c \<longleftrightarrow> pr_Type (ca_Promotion c) = PromotionStandard \<and>
    (\<exists>m. ca_Method c = Some m \<and> me_Type m = MethodPercentage \<and> me_TargetType m = TargetItems \<and>
      me_Allocation m = AllocationEach \<and> 0 \<le> me_Value m \<and> me_Value m \<le> BasisPointDenominator)"

text \<open>The discount a candidate promises on an item: its percentage of the item's own amount, when
  the target rules of the candidate select the item.\<close>

definition promised :: "compute_item \<Rightarrow> promotion_candidate \<Rightarrow> int" where
  "promised i c =
    (case ca_Method c of None \<Rightarrow> 0
     | Some m \<Rightarrow> if matchRules (TargetRules c) (cl_Attributes i) (cl_Lists i)
                then cl_Amount i * me_Value m div 10000 else 0)"

definition discounted_line :: "compute_item \<Rightarrow> int \<Rightarrow> line_state" where
  "discounted_line i d = (item_line i)\<lparr> li_discount := min (cl_Amount i) d \<rparr>"

lemma apply_percent:
  assumes "percent_candidate c" "store_ok st" "applyPromotion c st = (a, st')"
    "st_items st = map2 discounted_line items ds" "length ds = length items" "\<forall>d \<in> set ds. 0 \<le> d"
    "\<forall>i \<in> set items. 0 \<le> cl_Amount i \<and> cl_Amount i \<le> MaxAmount"
  shows "store_ok st' \<and> st_items st' = map2 discounted_line items (map2 (\<lambda>i d. d + promised i c) items ds)"
proof -
  obtain m where m: "ca_Method c = Some m" "me_Type m = MethodPercentage" "me_TargetType m = TargetItems"
    "me_Allocation m = AllocationEach" "0 \<le> me_Value m" "me_Value m \<le> BasisPointDenominator"
    using assms(1) by (auto simp: percent_candidate_def)
  have std: "pr_Type (ca_Promotion c) \<noteq> PromotionBuyGet"
    using assms(1) by (simp add: percent_candidate_def promo_words)
  define ks where "ks = filter (\<lambda>i. \<not> (TargetRules c \<noteq> [] \<and>
        \<not> matchRules (TargetRules c) (li_attributes (st_items st ! i)) (li_lists (st_items st ! i))))
      [0..<length (st_items st)]"
  have len: "length (st_items st) = length items" using assms(4,5) by simp
  have targets: "selectTargets c m st = map ItemLine ks"
    using m by (simp add: selectTargets_def filterLines_def ks_def)
  have line: "st_items st ! i = discounted_line (items ! i) (ds ! i)" if "i < length items" for i
    using that assms(4,5) by simp
  have inks: "i \<in> set ks \<longleftrightarrow> matchRules (TargetRules c) (cl_Attributes (items ! i)) (cl_Lists (items ! i))"
    if "i < length items" for i
    using that line [OF that] by (auto simp: ks_def len discounted_line_def item_line_def)
  have each: "each_loop m (map ItemLine ks) 0 st = (a, st')"
    using assms(3) std m targets
    by (cases "ks = []") (auto simp: applyPromotion_def Let_def promo_words)
  have res: "st_shipping st' = st_shipping st \<and> length (st_items st') = length (st_items st) \<and> store_ok st' \<and>
    (\<forall>i < length (st_items st). st_items st' ! i =
      (let l = st_items st ! i in
       if i \<in> set ks then l\<lparr> li_discount := li_discount l +
           max 0 (min (eachDiscount m l) (li_amount l - li_discount l)) \<rparr> else l))"
    by (rule each_loop_items [OF assms(2) _ _ each]) (auto simp: ks_def)
  have "st_items st' ! i = discounted_line (items ! i) (ds ! i + promised (items ! i) c)"
    if i: "i < length items" for i
  proof -
    have am: "0 \<le> cl_Amount (items ! i)" "cl_Amount (items ! i) \<le> MaxAmount" and "0 \<le> ds ! i"
      using i assms(5,6,7) by auto
    note pc = percentageOf_eq [OF am m(5,6)]
    have "eachDiscount m (discounted_line (items ! i) (ds ! i)) = cl_Amount (items ! i) * me_Value m div 10000"
      using m(2) pc(1) by (simp add: eachDiscount_def discounted_line_def item_line_def promo_words)
    moreover have "st_items st' ! i = (if i \<in> set ks then (st_items st ! i)\<lparr> li_discount := li_discount (st_items st ! i) +
           max 0 (min (eachDiscount m (st_items st ! i)) (li_amount (st_items st ! i) - li_discount (st_items st ! i))) \<rparr>
         else st_items st ! i)"
      using res i len by (simp add: Let_def)
    moreover have "min x d + max 0 (min p (x - min x d)) = min x (d + p)" if "0 \<le> x" "0 \<le> d" "0 \<le> p" for x d p :: int
      using that by linarith
    ultimately show ?thesis
      using inks [OF i] line [OF i] pc(1,2) m(1) \<open>0 \<le> ds ! i\<close> am(1)
      by (simp add: promised_def discounted_line_def item_line_def)
  qed
  then have "st_items st' = map2 discounted_line items (map2 (\<lambda>i d. d + promised i c) items ds)"
    using res len assms(5) by (intro nth_equalityI) auto
  then show ?thesis using res by blast
qed

lemma apply_all_percent:
  assumes "\<forall>c \<in> set cs. percent_candidate c" "store_ok st" "apply_all cs st applied = (out, st')"
    "st_items st = map2 discounted_line items ds" "length ds = length items" "\<forall>d \<in> set ds. 0 \<le> d"
    "\<forall>i \<in> set items. 0 \<le> cl_Amount i \<and> cl_Amount i \<le> MaxAmount"
  shows "st_items st' = map2 discounted_line items
    (map2 (\<lambda>i d. d + sum_list (map (promised i) cs)) items ds)"
  using assms
proof (induction cs arbitrary: st applied ds)
  case Nil
  have "map2 (\<lambda>i d. d) items ds = ds" using Nil.prems(5) by (intro nth_equalityI) auto
  with Nil show ?case by simp
next
  case (Cons c cs)
  obtain a st1 where a: "applyPromotion c st = (a, st1)" by fastforce
  let ?ds = "map2 (\<lambda>i d. d + promised i c) items ds"
  have pc: "percent_candidate c" using Cons.prems(1) by simp
  have s1: "store_ok st1 \<and> st_items st1 = map2 discounted_line items ?ds"
    by (rule apply_percent [OF pc Cons.prems(2) a Cons.prems(4-7)])
  have nn: "0 \<le> promised i c" if "i \<in> set items" for i
    using pc Cons.prems(7) that
    by (auto simp: percent_candidate_def promised_def pos_imp_zdiv_nonneg_iff promo_bounds split: option.splits)
  have "\<forall>d \<in> set ?ds. 0 \<le> d"
    using Cons.prems(6) nn by (fastforce dest: set_zip_leftD set_zip_rightD intro: add_nonneg_nonneg)
  moreover obtain out' where "apply_all cs st1 out' = (out, st')"
    using Cons.prems(3) a by (auto split: if_splits)
  ultimately have "st_items st' = map2 discounted_line items
      (map2 (\<lambda>i d. d + sum_list (map (promised i) cs)) items ?ds)"
    using Cons.prems s1 by (intro Cons.IH [where st = st1]) auto
  moreover have "map2 (\<lambda>i d. d + sum_list (map (promised i) cs)) items ?ds =
      map2 (\<lambda>i d. d + sum_list (map (promised i) (c # cs))) items ds"
    using Cons.prems(5) by (intro nth_equalityI) auto
  ultimately show ?case by simp
qed

text \<open>percentages do not stack on top of each other. When the eligible promotions are
  percentages taken per item, the discount of an item is the sum of what each promotion promises on
  the item's original amount, rounded down one by one, and no more than the item's amount; a
  promotion promises nothing on an item its target rules do not select. Ten and twenty percent make
  thirty percent, in whatever order they are applied.\<close>

theorem percentages_add:
  assumes "normalizeComputeInput inp now = Inr inp'"
    and "\<forall>c \<in> set cs. eligible c inp' \<longrightarrow> percent_candidate c"
  shows "re_Items (computeDiscounts cs inp') =
    map (\<lambda>i. \<lparr> ld_ID = cl_ID i,
      ld_Amount = min (cl_Amount i) (\<Sum>c\<leftarrow>filter (\<lambda>c. eligible c inp') cs. promised i c) \<rparr>) (in_Items inp)"
proof -
  define elig where "elig = SortFunc compareCandidates (filter (\<lambda>c. eligible c inp') cs)"
  obtain applied st where a: "apply_all elig (initial_store inp') [] = (applied, st)" by fastforce
  have items: "\<forall>i \<in> set (in_Items inp). 0 \<le> cl_Amount i \<and> cl_Amount i \<le> MaxAmount"
    using normalized_items [OF assms(1)] by (simp add: promo_bounds)
  let ?ds = "map (\<lambda>_. 0 :: int) (in_Items inp)"
  have "st_items (initial_store inp') = map2 discounted_line (in_Items inp) ?ds"
    using items by (intro nth_equalityI)
      (auto simp: initial_store_def normalized_fields [OF assms(1)] discounted_line_def item_line_def)
  then have "st_items st = map2 discounted_line (in_Items inp)
      (map2 (\<lambda>i d. d + sum_list (map (promised i) elig)) (in_Items inp) ?ds)"
    by (intro apply_all_percent [OF _ initial_store_ok(1) [OF assms(1)] a])
      (use assms(2) items in \<open>auto simp: elig_def\<close>)
  moreover have "sum_list (map (promised i) elig) = (\<Sum>c\<leftarrow>filter (\<lambda>c. eligible c inp') cs. promised i c)" for i
    unfolding elig_def by (rule sum_list_mset) simp
  ultimately have "map line_discount_of (st_items st) =
    map (\<lambda>i. \<lparr> ld_ID = cl_ID i,
      ld_Amount = min (cl_Amount i) (\<Sum>c\<leftarrow>filter (\<lambda>c. eligible c inp') cs. promised i c) \<rparr>) (in_Items inp)"
    by (intro nth_equalityI) (auto simp: line_discount_of_def discounted_line_def item_line_def)
  then show ?thesis
    using a by (simp add: computeDiscounts_def partitionCandidates_def partition_loop_eq elig_def [symmetric]
        initial_store_def [symmetric] Let_def)
qed

definition percent_pair :: "promotion_candidate list" where
  "percent_pair =
    [\<lparr> ca_Promotion = cart_promotion ''promo_1'' ''TEN'' True PromotionStandard, ca_Campaign = None,
       ca_Method = Some (cart_method MethodPercentage TargetItems AllocationEach 1000), ca_Rules = [] \<rparr>,
     \<lparr> ca_Promotion = cart_promotion ''promo_2'' ''SUMMER'' False PromotionStandard, ca_Campaign = None,
       ca_Method = Some (cart_method MethodPercentage TargetItems AllocationEach 2000), ca_Rules = [] \<rparr>]"

theorem percentages_add_witness:
  "\<exists>inp'. normalizeComputeInput cart_input 77 = Inr inp' \<and>
    map ld_Amount (re_Items (computeDiscounts percent_pair inp')) = [300, 99]"
proof -
  let ?i = "cart_input\<lparr> in_CurrencyCode := ''TRY'', in_Codes := [''SUMMER''], in_At := 77 \<rparr>"
  have "\<forall>c \<in> set percent_pair. eligible c ?i \<longrightarrow> percent_candidate c"
    by (simp add: percent_pair_def percent_candidate_def cart_promotion_def cart_method_def promo_bounds)
  note r = percentages_add [OF cart_normalized this]
  have "map (\<lambda>i. min (cl_Amount i) (\<Sum>c\<leftarrow>filter (\<lambda>c. eligible c ?i) percent_pair. promised i c)) (in_Items cart_input) = [300, 99]"
    by code_simp
  then show ?thesis using cart_normalized by (intro exI [of _ ?i]) (simp add: r comp_def)
qed

end
