(* ===== verification/PromoBuyGet.thy ===== *)
theory PromoBuyGet
  imports PromoProps
begin

text \<open>
  The "buy X, get Y" mechanic, \<^verbatim>\<open>internal/modules/promotion/service/buyget.go\<close>: which units the
  purchase consumes, which units are rewarded, and that the two are different units.
\<close>

lemma same_lines_deref:
  assumes "same_lines st st'" "ref_ok st p"
  shows "li_quantity (deref st' p) = li_quantity (deref st p)"
    "li_unitAmount (deref st' p) = li_unitAmount (deref st p)"
    "li_amount (deref st' p) = li_amount (deref st p)"
proof -
  have "(deref st' p)\<lparr> li_discount := 0 \<rparr> = (deref st p)\<lparr> li_discount := 0 \<rparr>"
    using same_lines_nth [OF assms(1)] assms(2) by (cases p) auto
  then show "li_quantity (deref st' p) = li_quantity (deref st p)"
    "li_unitAmount (deref st' p) = li_unitAmount (deref st p)"
    "li_amount (deref st' p) = li_amount (deref st p)"
    by (cases "deref st' p"; cases "deref st p"; simp)+
qed

lemma deref_assign: "ref_ok st p \<Longrightarrow> deref (assign st p l) q = (if q = p then l else deref st q)"
  by (cases p; cases q) (auto simp: nth_list_update)

definition units_ok :: "line_store \<Rightarrow> bool" where
  "units_ok st \<longleftrightarrow> (\<forall>l \<in> set (all_lines st). 1 \<le> li_quantity l \<and> li_quantity l \<le> MaxQuantity \<and>
      0 \<le> li_unitAmount l \<and> li_unitAmount l \<le> MaxAmount) \<and> length (st_items st) \<le> MaxComputeLines"

lemma units_ok_line:
  assumes "units_ok st" "ref_ok st p"
  shows "1 \<le> li_quantity (deref st p)" "li_quantity (deref st p) \<le> MaxQuantity"
    "0 \<le> li_unitAmount (deref st p)" "li_unitAmount (deref st p) \<le> MaxAmount"
  using assms deref_in [OF assms(2)] by (simp_all add: units_ok_def)

section \<open>The units the purchase consumes\<close>

abbreviation qty :: "line_store \<Rightarrow> line_ref \<Rightarrow> int64" where
  "qty st p \<equiv> li_quantity (deref st p)"

lemma sum_qty_nonneg:
  "\<forall>p \<in> set ps. 1 \<le> qty st p \<and> qty st p \<le> MaxQuantity \<Longrightarrow> 0 \<le> sum_list (map (qty st) ps)"
  by (induction ps) auto

lemma reserve_loop_eq:
  assumes "distinct ps" "\<forall>p \<in> set ps. 1 \<le> qty st p \<and> qty st p \<le> MaxQuantity"
    "0 \<le> left" "left \<le> MaxQuantity" "r' = reserve_loop st ps left r" "\<forall>p \<in> set ps. r p = 0"
  shows "(\<forall>p. p \<notin> set ps \<longrightarrow> r' p = r p) \<and> (\<forall>p \<in> set ps. 0 \<le> r' p \<and> r' p \<le> qty st p) \<and>
    sum_list (map r' ps) = min left (sum_list (map (qty st) ps)) \<and>
    sorted_wrt (\<lambda>p q. r' q > 0 \<longrightarrow> r' p = qty st p) ps"
  using assms
proof (induction ps arbitrary: left r)
  case (Cons p ps)
  have nn: "0 \<le> sum_list (map (qty st) ps)" using Cons.prems(2) by (intro sum_qty_nonneg) simp
  show ?case
  proof (cases "left \<le> 0")
    case True
    then have "left = 0" "r' = r" using Cons.prems by auto
    moreover have "0 \<le> sum_list (map (qty st) (p # ps))"
      using Cons.prems(2) by (rule sum_qty_nonneg)
    moreover have "sum_list (map r (p # ps)) = sum_list (map (\<lambda>_. 0) (p # ps))"
      using Cons.prems(6) by (intro arg_cong [of _ _ sum_list] map_cong) auto
    ultimately show ?thesis using Cons.prems(2,6) by (auto simp: sorted_wrt_iff_nth_less)
  next
    case False
    define t where "t = min (qty st p) left"
    have t: "1 \<le> t" "t \<le> qty st p" "t \<le> left" using False Cons.prems(2) by (auto simp: t_def)
    have sub: "sub64 left t = left - t"
      using t Cons.prems(4) by (intro sub64_id is_i64_between [where b = MaxInt64])
        (auto simp: promo_bounds MaxInt64_def)
    have r': "r' = reserve_loop st ps (left - t) (r(p := t))"
      using False Cons.prems(5) by (simp add: t_def [symmetric] sub Let_def)
    have IH: "(\<forall>q. q \<notin> set ps \<longrightarrow> r' q = (r(p := t)) q) \<and> (\<forall>q \<in> set ps. 0 \<le> r' q \<and> r' q \<le> qty st q) \<and>
      sum_list (map r' ps) = min (left - t) (sum_list (map (qty st) ps)) \<and>
      sorted_wrt (\<lambda>p q. r' q > 0 \<longrightarrow> r' p = qty st p) ps"
      using Cons.prems t by (intro Cons.IH [OF _ _ _ _ r']) auto
    have rp: "r' p = t" using IH Cons.prems(1) by simp
    have full: "r' p = qty st p" if "q \<in> set ps" "r' q > 0" for q
    proof (rule ccontr)
      assume "r' p \<noteq> qty st p"
      then have "left - t = 0" using rp by (auto simp: t_def split: if_splits)
      then have "sum_list (map r' ps) = 0" using IH nn by simp
      then have "\<forall>x \<in> set (map r' ps). x = 0"
        using IH by (subst (asm) sum_list_nonneg_eq_0_iff) auto
      with that show False by auto
    qed
    have "min left (qty st p + sum_list (map (qty st) ps)) = t + min (left - t) (sum_list (map (qty st) ps))"
      using nn t unfolding t_def by linarith
    then show ?thesis using IH rp full t Cons.prems(1) by auto
  qed
qed simp

section \<open>The units the reward discounts\<close>

abbreviation unit_reward :: "application_method \<Rightarrow> line_store \<Rightarrow> line_ref \<Rightarrow> int" where
  "unit_reward m st p \<equiv> rewardPerUnit m (li_unitAmount (deref st p))"

lemma rewardPerUnit_le:
  assumes "0 \<le> u" "u \<le> MaxAmount" "me_Type m = MethodPercentage \<longrightarrow> me_Value m \<le> BasisPointDenominator"
  shows "rewardPerUnit m u \<le> u"
proof -
  have "percentageOf u (me_Value m) \<le> u" if "me_Type m = MethodPercentage"
    using percentageOf_eq(3) [of u "me_Value m"] assms that
    by (cases "me_Value m \<le> 0") (auto simp: percentageOf_def)
  then show ?thesis using assms(1) by (auto simp: rewardPerUnit_def)
qed

lemma reward_loop_eq:
  assumes "distinct ps" "\<forall>p \<in> set ps. ref_ok st p" "units_ok st" "store_ok st"
    "\<forall>p. 0 \<le> r p \<and> r p \<le> MaxQuantity" "0 \<le> left" "left \<le> MaxQuantity"
    "me_Type m = MethodPercentage \<longrightarrow> me_Value m \<le> BasisPointDenominator"
    "reward_loop m r ps left a st = (b, st')"
  shows "\<exists>take. (\<forall>p. 0 \<le> take p) \<and> (\<forall>p. p \<notin> set ps \<longrightarrow> take p = 0) \<and>
    (\<forall>p \<in> set ps. take p > 0 \<longrightarrow> take p + r p \<le> qty st p) \<and> sum_list (map take ps) \<le> left \<and>
    (\<forall>q. ref_ok st q \<longrightarrow> deref st' q = (deref st q)\<lparr> li_discount := li_discount (deref st q) +
       min (take q * unit_reward m st q) (li_amount (deref st q) - li_discount (deref st q)) \<rparr> \<or>
       take q = 0 \<and> deref st' q = deref st q)"
  using assms
proof (induction ps arbitrary: left a st)
  case Nil
  then show ?case by (intro exI [of _ "\<lambda>_. 0"]) auto
next
  case (Cons p ps)
  let ?u = "unit_reward m st p"
  have okp: "ref_ok st p" using Cons.prems(2) by simp
  note up = units_ok_line [OF Cons.prems(3) okp]
  have rp: "0 \<le> r p" "r p \<le> MaxQuantity" using Cons.prems(5) by auto
  have "is_i64 (qty st p - r p)" using up(1,2) rp by (simp add: is_i64_def MinInt64_def MaxInt64_def promo_bounds)
  then have av: "sub64 (qty st p) (r p) = qty st p - r p" by (rule sub64_id)
  show ?case
  proof (cases "left \<le> 0 \<or> qty st p - r p \<le> 0 \<or> ?u \<le> 0")
    case True
    show ?thesis
    proof (cases "left \<le> 0")
      case True
      then show ?thesis using Cons.prems by (intro exI [of _ "\<lambda>_. 0"]) auto
    next
      case False
      with True have "reward_loop m r ps left a st = (b, st')"
        using Cons.prems(9) av by (auto simp: Let_def split: if_splits)
      with Cons.IH [of st left a] Cons.prems obtain take where tk:
        "(\<forall>p. 0 \<le> take p) \<and> (\<forall>p. p \<notin> set ps \<longrightarrow> take p = 0) \<and>
        (\<forall>p \<in> set ps. take p > 0 \<longrightarrow> take p + r p \<le> qty st p) \<and> sum_list (map take ps) \<le> left \<and>
        (\<forall>q. ref_ok st q \<longrightarrow> deref st' q = (deref st q)\<lparr> li_discount := li_discount (deref st q) +
           min (take q * unit_reward m st q) (li_amount (deref st q) - li_discount (deref st q)) \<rparr> \<or>
           take q = 0 \<and> deref st' q = deref st q)" by auto
      moreover have "take p = 0" using tk Cons.prems(1) by simp
      ultimately show ?thesis by (intro exI [of _ take]) auto
    qed
  next
    case False
    define t where "t = min (qty st p - r p) left"
    have t: "1 \<le> t" "t \<le> left" "t + r p \<le> qty st p" using False by (auto simp: t_def)
    have u: "1 \<le> ?u" "?u \<le> MaxAmount"
      using False rewardPerUnit_le [OF up(3,4) Cons.prems(8)] up(4) by auto
    have "t * ?u \<le> MaxQuantity * MaxAmount" using t u Cons.prems(7) by (intro mult_mono) auto
    then have mul: "mul64 t ?u = t * ?u"
      using t u by (intro mul64_id is_i64_between [where b = "MaxQuantity * MaxAmount"])
        (auto simp: promo_bounds MaxInt64_def)
    obtain c st1 where c: "charge_at st p (t * ?u) = (c, st1)" by fastforce
    note ch = charge_at_takes [OF Cons.prems(4) okp c]
    have sub: "sub64 left t = left - t"
      using t Cons.prems(7) by (intro sub64_id is_i64_between [where b = MaxInt64])
        (auto simp: promo_bounds MaxInt64_def)
    have rest: "reward_loop m r ps (left - t) (add64 a c) st1 = (b, st')"
      using False Cons.prems(9) av c by (simp add: Let_def t_def [symmetric] mul sub)
    have same: "same_lines st st1" "store_ok st1" using ch(1) by (simp_all add: takes_def)
    have ok: "ref_ok st1 q = ref_ok st q" for q by (rule same_lines_ref_ok [OF same(1)])
    have "units_ok st1"
    proof -
      have "\<exists>l' \<in> set (all_lines st). l\<lparr> li_discount := 0 \<rparr> = l'\<lparr> li_discount := 0 \<rparr>"
        if "l \<in> set (all_lines st1)" for l
      proof -
        have "l\<lparr> li_discount := 0 \<rparr> \<in> set (map (\<lambda>l. l\<lparr> li_discount := 0 \<rparr>) (all_lines st1))" using that by simp
        also have "map (\<lambda>l. l\<lparr> li_discount := 0 \<rparr>) (all_lines st1) = map (\<lambda>l. l\<lparr> li_discount := 0 \<rparr>) (all_lines st)"
          using same(1) by (simp add: same_lines_def all_lines_def)
        finally show ?thesis by auto
      qed
      then have "1 \<le> li_quantity l \<and> li_quantity l \<le> MaxQuantity \<and> 0 \<le> li_unitAmount l \<and> li_unitAmount l \<le> MaxAmount"
        if "l \<in> set (all_lines st1)" for l
        using that Cons.prems(3) unfolding units_ok_def
        by (metis line_state.ext_inject line_state.surjective line_state.update_convs(7))
      then show ?thesis using Cons.prems(3) same_lines_length [OF same(1)] by (simp add: units_ok_def)
    qed
    with Cons.IH [of st1 "left - t" "add64 a c"] Cons.prems rest t ok same(2) obtain take where tk:
      "\<forall>p. 0 \<le> take p" "\<forall>p. p \<notin> set ps \<longrightarrow> take p = 0"
      "\<forall>p \<in> set ps. take p > 0 \<longrightarrow> take p + r p \<le> qty st1 p" "sum_list (map take ps) \<le> left - t"
      "\<forall>q. ref_ok st1 q \<longrightarrow> deref st' q = (deref st1 q)\<lparr> li_discount := li_discount (deref st1 q) +
         min (take q * unit_reward m st1 q) (li_amount (deref st1 q) - li_discount (deref st1 q)) \<rparr> \<or>
         take q = 0 \<and> deref st' q = deref st1 q" by auto
    have p0: "take p = 0" using tk(2) Cons.prems(1) by simp
    have d1: "deref st1 q = (if q = p then (deref st p)\<lparr> li_discount := li_discount (deref st p) + c \<rparr> else deref st q)" for q
      unfolding ch(3) by (rule deref_assign [OF okp])
    have room: "li_discount (deref st p) \<le> li_amount (deref st p)"
      using Cons.prems(4) deref_in [OF okp] by (simp add: store_ok_def line_ok_def)
    have "0 \<le> t * ?u" using t u by simp
    then have cc: "c = min (t * ?u) (li_amount (deref st p) - li_discount (deref st p))" using ch(2) room by simp
    have left0: "0 \<le> li_amount (deref st1 p) - li_discount (deref st1 p)"
      using same(2) deref_in [of st1 p] okp ok by (simp add: store_ok_def line_ok_def)
    have atp: "deref st' p = deref st1 p"
      using tk(5) okp ok p0 left0 by auto
    show ?thesis
    proof (intro exI [of _ "take(p := t)"] conjI allI ballI impI)
      fix q assume "ref_ok st q"
      show "deref st' q = (deref st q)\<lparr> li_discount := li_discount (deref st q) +
         min ((take(p := t)) q * unit_reward m st q) (li_amount (deref st q) - li_discount (deref st q)) \<rparr> \<or>
         (take(p := t)) q = 0 \<and> deref st' q = deref st q"
        using tk(5) \<open>ref_ok st q\<close> ok d1 [of q] atp cc by (cases "q = p") auto
    next
      fix q assume "q \<in> set (p # ps)" "0 < (take(p := t)) q"
      then show "(take(p := t)) q + r q \<le> qty st q"
        using tk(3) t(3) d1 [of q] by (cases "q = p") auto
    next
      have "map (take(p := t)) ps = map take ps" using Cons.prems(1) by auto
      then have "sum_list (map (take(p := t)) ps) = sum_list (map take ps)" by (rule arg_cong)
      then show "sum_list (map (take(p := t)) (p # ps)) \<le> left" using tk(4) by simp
    qed (use tk(1,2) t(1) in auto)
  qed
qed

section \<open>Properties\<close>

lemma distinct_filterLines: "inj ref \<Longrightarrow> distinct (filterLines ref lines rules)"
  by (auto simp: filterLines_def distinct_map intro: inj_on_subset)

lemma distinct_selectTargets: "distinct (selectTargets c m st)"
  by (simp add: selectTargets_def distinct_filterLines inj_def)

lemma fold_count:
  assumes "\<forall>p \<in> set ps. 1 \<le> qty st p \<and> qty st p \<le> MaxQuantity" "length ps \<le> MaxComputeLines"
  shows "fold (\<lambda>p n. add64 n (qty st p)) ps 0 = sum_list (map (qty st) ps)"
proof -
  have "fold (\<lambda>p n. add64 n (qty st p)) ps a = a + sum_list (map (qty st) ps)"
    if "\<forall>p \<in> set ps. 1 \<le> qty st p \<and> qty st p \<le> MaxQuantity" "0 \<le> a"
      "a + int (length ps) * MaxQuantity \<le> MaxInt64" for a
    using that
  proof (induction ps arbitrary: a)
    case (Cons p ps)
    have q: "1 \<le> qty st p" "qty st p \<le> MaxQuantity" using Cons.prems(1) by auto
    then have "is_i64 (a + qty st p)"
      using Cons.prems(2,3) by (intro is_i64_between [where b = MaxInt64])
        (auto simp: distrib_right promo_bounds)
    then show ?case using Cons.IH [of "a + qty st p"] Cons.prems q
      by (simp add: add64_id distrib_right)
  qed simp
  moreover have "int (length ps) * MaxQuantity \<le> int MaxComputeLines * MaxQuantity"
    using assms(2) by (intro mult_right_mono) (simp_all add: promo_bounds)
  ultimately show ?thesis using assms(1) by (simp add: MaxComputeLines_def promo_bounds MaxInt64_def)
qed

lemma reserveBoughtUnits_spec:
  assumes "distinct bought" "\<forall>p \<in> set bought. 1 \<le> qty st p \<and> qty st p \<le> MaxQuantity"
    "0 \<le> buy" "buy \<le> MaxQuantity" "buy \<le> sum_list (map (qty st) bought)"
    "r = reserveBoughtUnits st bought buy"
  shows "sum_list (map r bought) = buy \<and> (\<forall>p. p \<notin> set bought \<longrightarrow> r p = 0) \<and>
    (\<forall>p \<in> set bought. 0 \<le> r p \<and> r p \<le> qty st p) \<and>
    (\<forall>p \<in> set bought. \<forall>q \<in> set bought. r q > 0 \<longrightarrow>
      li_unitAmount (deref st p) > li_unitAmount (deref st q) \<longrightarrow> r p = qty st p)"
proof -
  let ?so = "SortFunc (compareDearest st) bought"
  have re: "(\<forall>p. p \<notin> set bought \<longrightarrow> r p = 0) \<and> (\<forall>p \<in> set bought. 0 \<le> r p \<and> r p \<le> qty st p) \<and>
    sum_list (map r ?so) = min buy (sum_list (map (qty st) ?so)) \<and>
    sorted_wrt (\<lambda>p q. r q > 0 \<longrightarrow> r p = qty st p) ?so"
    using reserve_loop_eq [of ?so st buy r "\<lambda>_. 0"] assms by (simp add: reserveBoughtUnits_def)
  have rsum: "sum_list (map r bought) = buy"
    using re assms(5) sum_list_mset [of ?so bought r] sum_list_mset [of ?so bought "qty st"] by simp
  have greedy: "r p = qty st p"
    if pq: "p \<in> set bought" "q \<in> set bought" "r q > 0" "li_unitAmount (deref st p) > li_unitAmount (deref st q)" for p q
  proof -
    obtain i j where ij: "i < length ?so" "?so ! i = p" "j < length ?so" "?so ! j = q"
      using pq(1,2) by (metis in_set_conv_nth set_SortFunc)
    have ord: "ordering_on (set bought) (compareDearest st)"
      unfolding ordering_on_def compareDearest_def cmp_Compare_def by (auto simp: Let_def)
    have "\<not> compareDearest st q p \<le> 0" using pq(4) by (simp add: compareDearest_def cmp_Compare_def)
    then have "\<not> j < i"
      using SortFunc_sorted [OF ord] ij sorted_wrt_nth_less [of _ ?so j i] by auto
    then have "i < j" using pq(4) ij by (cases "i = j") auto
    then show ?thesis using re ij pq(3) sorted_wrt_nth_less [of _ ?so i j] by auto
  qed
  show ?thesis using rsum re greedy by blast
qed

lemma payReward_spec:
  assumes "distinct targets" "\<forall>p \<in> set targets. ref_ok st p" "units_ok st" "store_ok st"
    "\<forall>p. 0 \<le> r p \<and> r p \<le> MaxQuantity" "0 \<le> reward" "reward \<le> MaxQuantity"
    "me_Type m = MethodPercentage \<longrightarrow> me_Value m \<le> BasisPointDenominator"
    "payReward m reward targets r st = (amount, st')"
  shows "\<exists>take. (\<forall>p. 0 \<le> take p) \<and> (\<forall>p. p \<notin> set targets \<longrightarrow> take p = 0) \<and>
    (\<forall>p. take p > 0 \<longrightarrow> take p + r p \<le> qty st p) \<and> sum_list (map take targets) \<le> reward \<and>
    (\<forall>p. ref_ok st p \<longrightarrow> li_discount (deref st' p) = li_discount (deref st p) +
       min (take p * unit_reward m st p) (li_amount (deref st p) - li_discount (deref st p)))"
proof -
  let ?so = "SortFunc (compareCheapest st) targets"
  have "\<exists>take. (\<forall>p. 0 \<le> take p) \<and> (\<forall>p. p \<notin> set ?so \<longrightarrow> take p = 0) \<and>
    (\<forall>p \<in> set ?so. take p > 0 \<longrightarrow> take p + r p \<le> qty st p) \<and> sum_list (map take ?so) \<le> reward \<and>
    (\<forall>q. ref_ok st q \<longrightarrow> deref st' q = (deref st q)\<lparr> li_discount := li_discount (deref st q) +
       min (take q * unit_reward m st q) (li_amount (deref st q) - li_discount (deref st q)) \<rparr> \<or>
       take q = 0 \<and> deref st' q = deref st q)"
    using assms by (intro reward_loop_eq [where a = 0 and b = amount]) (simp_all add: payReward_def)
  then obtain take where tk: "\<forall>p. 0 \<le> take p" "\<forall>p. p \<notin> set targets \<longrightarrow> take p = 0"
    "\<forall>p \<in> set targets. take p > 0 \<longrightarrow> take p + r p \<le> qty st p" "sum_list (map take ?so) \<le> reward"
    "\<forall>q. ref_ok st q \<longrightarrow> deref st' q = (deref st q)\<lparr> li_discount := li_discount (deref st q) +
       min (take q * unit_reward m st q) (li_amount (deref st q) - li_discount (deref st q)) \<rparr> \<or>
       take q = 0 \<and> deref st' q = deref st q" by auto
  have "li_discount (deref st' p) = li_discount (deref st p) +
      min (take p * unit_reward m st p) (li_amount (deref st p) - li_discount (deref st p))"
    if "ref_ok st p" for p
  proof -
    have "0 \<le> li_amount (deref st p) - li_discount (deref st p)"
      using assms(4) deref_in [OF that] by (simp add: store_ok_def line_ok_def)
    then show ?thesis using tk(5) that by auto
  qed
  moreover have "sum_list (map take targets) \<le> reward"
    using tk(4) sum_list_mset [of ?so targets take] by simp
  moreover have "take p + r p \<le> qty st p" if "take p > 0" for p
    using tk(2,3) that by (cases "p \<in> set targets") auto
  ultimately show ?thesis using tk(1,2) by blast
qed

lemma bought_lines:
  assumes "units_ok st"
  shows "\<forall>p \<in> set (filterLines ItemLine (st_items st) rules). 1 \<le> qty st p \<and> qty st p \<le> MaxQuantity"
    and "fold (\<lambda>p n. add64 n (qty st p)) (filterLines ItemLine (st_items st) rules) 0 =
      sum_list (map (qty st) (filterLines ItemLine (st_items st) rules))"
proof -
  show q: "\<forall>p \<in> set (filterLines ItemLine (st_items st) rules). 1 \<le> qty st p \<and> qty st p \<le> MaxQuantity"
    using filterLines_ok(1) [of st rules] units_ok_line [OF assms] by blast
  have "length (filterLines ItemLine (st_items st) rules) \<le> length (st_items st)"
    using length_filter_le [of _ "[0..<length (st_items st)]"] by (simp add: filterLines_def)
  then show "fold (\<lambda>p n. add64 n (qty st p)) (filterLines ItemLine (st_items st) rules) 0 =
      sum_list (map (qty st) (filterLines ItemLine (st_items st) rules))"
    using assms q by (intro fold_count) (simp_all add: units_ok_def)
qed

text \<open>C22: "buy X, get Y" never gives away a unit it counted as bought. On the lines of an accepted
  cart, whatever discounts they already carry, a promotion that asks for X units and rewards Y does
  nothing when the lines its buy rules select hold fewer than X units. Otherwise exactly X units of
  those lines are reserved, a line only after all the units of every dearer line; at most Y units of
  the target lines are rewarded; no line has more units reserved and rewarded together than it
  holds; and each line is discounted by its rewarded units times what one unit is worth, within
  what is left of its amount, every other line by nothing.\<close>

theorem buyget_units:
  assumes "store_ok st" and "units_ok st"
    and "pr_Type (ca_Promotion c) = PromotionBuyGet" and "ca_Method c = Some m"
    and "me_BuyQuantity m = Some buy" and "me_ApplyToQuantity m = Some reward"
    and "1 \<le> buy" "buy \<le> MaxQuantity" "1 \<le> reward" "reward \<le> MaxQuantity"
    and "me_Type m = MethodPercentage \<longrightarrow> me_Value m \<le> BasisPointDenominator"
    and "applyPromotion c st = (amount, st')"
  shows "let bought = filterLines ItemLine (st_items st) (BuyRules c);
             quantity = (\<lambda>p. li_quantity (deref st p)) in
    if sum_list (map quantity bought) < buy then amount = 0 \<and> st' = st
    else \<exists>reserved rewarded.
      sum_list (map reserved bought) = buy \<and> (\<forall>p. 0 \<le> reserved p \<and> 0 \<le> rewarded p) \<and>
      (\<forall>p \<in> set bought. \<forall>q \<in> set bought. reserved q > 0 \<longrightarrow>
        li_unitAmount (deref st p) > li_unitAmount (deref st q) \<longrightarrow> reserved p = quantity p) \<and>
      sum_list (map rewarded (selectTargets c m st)) \<le> reward \<and>
      (\<forall>p. p \<notin> set (selectTargets c m st) \<longrightarrow> rewarded p = 0) \<and>
      (\<forall>p. ref_ok st p \<longrightarrow> reserved p + rewarded p \<le> quantity p \<and>
        li_discount (deref st' p) = li_discount (deref st p) +
          min (rewarded p * rewardPerUnit m (li_unitAmount (deref st p)))
              (li_amount (deref st p) - li_discount (deref st p)))"
proof -
  define bought where "bought = filterLines ItemLine (st_items st) (BuyRules c)"
  define targets where "targets = selectTargets c m st"
  note q = bought_lines [OF assms(2), of "BuyRules c", folded bought_def]
  have dist: "distinct bought" "distinct targets"
    by (simp_all add: bought_def targets_def distinct_filterLines distinct_selectTargets inj_def)
  have run: "(amount, st') = (if targets = [] \<or> sum_list (map (qty st) bought) < buy then (0, st)
      else payReward m reward targets (reserveBoughtUnits st bought buy) st)"
    using assms(3-6,12) q(2)
    by (auto simp: applyPromotion_def applyBuyGet_def bought_def targets_def Let_def split: if_splits)
  show ?thesis
  proof (cases "sum_list (map (qty st) bought) < buy")
    case True
    with run show ?thesis by (simp add: bought_def Let_def)
  next
    case False
    define r where "r = reserveBoughtUnits st bought buy"
    have "0 \<le> buy" "buy \<le> sum_list (map (qty st) bought)" using assms(7) False by simp_all
    note spec = reserveBoughtUnits_spec [OF dist(1) q(1) this(1) assms(8) this(2) r_def]
    have r: "sum_list (map r bought) = buy" "\<forall>p. p \<notin> set bought \<longrightarrow> r p = 0"
      "\<forall>p \<in> set bought. 0 \<le> r p \<and> r p \<le> qty st p"
      "\<forall>p \<in> set bought. \<forall>q \<in> set bought. r q > 0 \<longrightarrow>
        li_unitAmount (deref st p) > li_unitAmount (deref st q) \<longrightarrow> r p = qty st p"
      using spec by blast+
    have rb: "0 \<le> r p \<and> r p \<le> MaxQuantity" for p
      using r(2,3) q(1) by (cases "p \<in> set bought") (auto simp: promo_bounds intro: order_trans)
    have rq: "r p \<le> qty st p" if "ref_ok st p" for p
      using r(2,3) units_ok_line(1) [OF assms(2) that] by (cases "p \<in> set bought") auto
    obtain take where tk: "\<forall>p. 0 \<le> take p" "\<forall>p. p \<notin> set targets \<longrightarrow> take p = 0"
      "\<forall>p. take p > 0 \<longrightarrow> take p + r p \<le> qty st p" "sum_list (map take targets) \<le> reward"
      "\<forall>p. ref_ok st p \<longrightarrow> li_discount (deref st' p) = li_discount (deref st p) +
         min (take p * unit_reward m st p) (li_amount (deref st p) - li_discount (deref st p))"
    proof (cases "targets = []")
      case True
      with run have "st' = st" by simp
      then show thesis using that [of "\<lambda>_. 0"] True assms(1,9) deref_in [of st]
        by (auto simp: store_ok_def line_ok_def)
    next
      case ne: False
      then have pay: "payReward m reward targets r st = (amount, st')" using run False by (simp add: r_def)
      have "\<forall>p \<in> set targets. ref_ok st p" unfolding targets_def by (rule selectTargets_ok)
      moreover have "\<forall>p. 0 \<le> r p \<and> r p \<le> MaxQuantity" using rb by blast
      moreover have "0 \<le> reward" using assms(9) by simp
      ultimately show thesis
        using payReward_spec [OF dist(2) _ assms(2,1) _ _ assms(10,11) pay] that by blast
    qed
    have "r p + take p \<le> qty st p" if "ref_ok st p" for p
      using tk(1,3) rq [OF that] by (cases "take p > 0") (auto simp: not_less intro: antisym)
    then show ?thesis
      using False r(1,4) tk rb unfolding Let_def bought_def [symmetric] targets_def [symmetric]
      by (simp only: if_False) (rule exI [of _ r], rule exI [of _ take], intro conjI; blast)
  qed
qed

definition reward_method :: application_method where
  "reward_method = (cart_method MethodPercentage TargetItems AllocationEach 10000)
    \<lparr> me_BuyQuantity := Some 2, me_ApplyToQuantity := Some 1 \<rparr>"

definition reward_candidate :: promotion_candidate where
  "reward_candidate =
    \<lparr> ca_Promotion = cart_promotion ''promo_9'' ''BOGO'' True PromotionBuyGet, ca_Campaign = None,
      ca_Method = Some reward_method, ca_Rules = [] \<rparr>"

theorem buyget_units_witness:
  "fst (applyPromotion reward_candidate (initial_store cart_input)) = 333 \<and>
   (\<exists>reserved rewarded :: line_ref \<Rightarrow> int64.
     sum_list (map reserved [ItemLine 0, ItemLine 1]) = 2 \<and>
     sum_list (map rewarded [ItemLine 0, ItemLine 1]) \<le> 1 \<and>
     reserved (ItemLine 0) + rewarded (ItemLine 0) \<le> 2)"
proof -
  let ?st = "initial_store cart_input"
  obtain amount st' where run: "applyPromotion reward_candidate ?st = (amount, st')" by fastforce
  have hyps: "store_ok ?st" "units_ok ?st" "pr_Type (ca_Promotion reward_candidate) = PromotionBuyGet"
    "ca_Method reward_candidate = Some reward_method" "me_BuyQuantity reward_method = Some 2"
    "me_ApplyToQuantity reward_method = Some 1" "(1 :: int64) \<le> 2" "2 \<le> MaxQuantity" "(1 :: int64) \<le> 1"
    "1 \<le> MaxQuantity" "me_Type reward_method = MethodPercentage \<longrightarrow> me_Value reward_method \<le> BasisPointDenominator"
    by code_simp+
  have lines: "filterLines ItemLine (st_items ?st) (BuyRules reward_candidate) = [ItemLine 0, ItemLine 1]"
    "selectTargets reward_candidate reward_method ?st = [ItemLine 0, ItemLine 1]"
    "li_quantity (deref ?st (ItemLine 0)) = 2" "li_quantity (deref ?st (ItemLine 1)) = 1" "ref_ok ?st (ItemLine 0)"
    by code_simp+
  have amount: "fst (applyPromotion reward_candidate ?st) = 333" by code_simp
  have "\<not> sum_list (map (\<lambda>p. li_quantity (deref ?st p)) [ItemLine 0, ItemLine 1]) < 2" by code_simp
  from buyget_units [OF hyps run, unfolded Let_def lines(1,2) if_not_P [OF this]]
  obtain reserved rewarded :: "line_ref \<Rightarrow> int64" where
    "sum_list (map reserved [ItemLine 0, ItemLine 1]) = 2" "sum_list (map rewarded [ItemLine 0, ItemLine 1]) \<le> 1"
    "\<forall>p. ref_ok ?st p \<longrightarrow> reserved p + rewarded p \<le> li_quantity (deref ?st p)"
    by blast
  with lines(3,5) amount show ?thesis by (metis (no_types))
qed

end
