(* ===== verification/Database.thy ===== *)
theory Database
  imports Errors
begin

text \<open>
  What the repositories of the modules share of the database: how a statement can fail, and what a
  transaction leaves behind. The faults of one call are an argument, \<open>flt\<close>: it says which of the
  call's statements fail and how. A transaction is a function from the tables to the tables. One
  whose function returns an error leaves the tables as they were. So does one whose commit fails,
  unless the commit took effect and only its answer was lost: the fault \<open>commit lost\<close> says which.
\<close>

datatype pg_fault = PgContext | PgTxClosed | PgState string | PgOther

datatype pg_error = PgNoRows | PgFault pg_fault

type_synonym faults = "string \<Rightarrow> pg_fault option"

definition sqlstateCheckViolation :: string where "sqlstateCheckViolation = ''23514''"
definition sqlstateUniqueViolation :: string where "sqlstateUniqueViolation = ''23505''"
definition sqlstateForeignKeyViolation :: string where "sqlstateForeignKeyViolation = ''23503''"
definition sqlstateNotNullViolation :: string where "sqlstateNotNullViolation = ''23502''"
definition sqlstateStringDataRightTrunc :: string where "sqlstateStringDataRightTrunc = ''22001''"

lemmas sqlstates = sqlstateCheckViolation_def sqlstateUniqueViolation_def sqlstateForeignKeyViolation_def
  sqlstateNotNullViolation_def sqlstateStringDataRightTrunc_def

text \<open>The wrapped error is kept as a sentinel that names the database error.\<close>

fun pg_sentinel :: "pg_error \<Rightarrow> error" where
  "pg_sentinel PgNoRows = Sentinel ''no rows in result set''"
| "pg_sentinel (PgFault PgContext) = Sentinel ''context canceled''"
| "pg_sentinel (PgFault PgTxClosed) = Sentinel ''tx is closed''"
| "pg_sentinel (PgFault (PgState s)) = Sentinel (''sqlstate '' @ s)"
| "pg_sentinel (PgFault PgOther) = Sentinel ''database''"

definition violates :: "string \<Rightarrow> pg_error" where "violates s = PgFault (PgState s)"

definition out_of_range :: pg_error where "out_of_range = PgFault (PgState ''22003'')"

definition statement :: "faults \<Rightarrow> string \<Rightarrow> (pg_error + 'a) \<Rightarrow> pg_error + 'a" where
  "statement flt name r = (case flt name of Some f \<Rightarrow> Inl (PgFault f) | None \<Rightarrow> r)"

definition found :: "'a option \<Rightarrow> pg_error + 'a" where
  "found r = (case r of None \<Rightarrow> Inl PgNoRows | Some a \<Rightarrow> Inr a)"

definition transact ::
    "(pg_error \<Rightarrow> error) \<Rightarrow> faults \<Rightarrow> ('db \<Rightarrow> (error + 'a) \<times> 'db) \<Rightarrow> 'db \<Rightarrow> (error + 'a) \<times> 'db" where
  "transact wrap flt fn db =
    (case flt ''begin'' of
      Some f \<Rightarrow> (Inl (wrap (PgFault f)), db)
    | None \<Rightarrow>
        (case fn db of
          (Inl e, _) \<Rightarrow> (Inl e, db)
        | (Inr a, db') \<Rightarrow>
            (case flt ''commit'' of
              Some f \<Rightarrow> (Inl (wrap (PgFault f)), if flt ''commit lost'' = None then db else db')
            | None \<Rightarrow> (Inr a, db'))))"

text \<open>Sequencing of fallible steps, and the wrapping of a statement's error.\<close>

definition and_then :: "error + 'a \<Rightarrow> ('a \<Rightarrow> error + 'b) \<Rightarrow> error + 'b" where
  "and_then r f = (case r of Inl e \<Rightarrow> Inl e | Inr a \<Rightarrow> f a)"

definition wrapped :: "(pg_error \<Rightarrow> error) \<Rightarrow> pg_error + 'a \<Rightarrow> error + 'a" where
  "wrapped w r = (case r of Inl e \<Rightarrow> Inl (w e) | Inr a \<Rightarrow> Inr a)"

lemma and_then_Inr [simp]: "and_then r f = Inr b \<longleftrightarrow> (\<exists>a. r = Inr a \<and> f a = Inr b)"
  by (cases r) (simp_all add: and_then_def)

lemma and_then_simps [simp]: "and_then (Inr a) f = f a" "and_then (Inl e) f = Inl e"
  by (simp_all add: and_then_def)

lemma wrapped_Inr [simp]: "wrapped w r = Inr a \<longleftrightarrow> r = Inr a"
  by (cases r) (simp_all add: wrapped_def)

lemma wrapped_simps [simp]: "wrapped w (Inr a) = Inr a" "wrapped w (Inl e) = Inl (w e)"
  by (simp_all add: wrapped_def)


text \<open>
  The body of a transaction as a sequence of steps. A step reads and writes the tables; one that
  returns an error ends the body, and its tables are those the rollback restores, so they are not
  part of its result. \<open>inside\<close> gives the faults of a part of the body that a loop runs several times.
\<close>

definition give :: "'a \<Rightarrow> 'db \<Rightarrow> error + 'a \<times> 'db" where "give a db = Inr (a, db)"

definition refuse :: "error \<Rightarrow> 'db \<Rightarrow> error + 'a \<times> 'db" where "refuse e db = Inl e"

definition check :: "error + 'a \<Rightarrow> 'db \<Rightarrow> error + 'a \<times> 'db" where
  "check r db = (case r of Inl e \<Rightarrow> Inl e | Inr a \<Rightarrow> Inr (a, db))"

definition bindT ::
    "('db \<Rightarrow> error + 'a \<times> 'db) \<Rightarrow> ('a \<Rightarrow> 'db \<Rightarrow> error + 'b \<times> 'db) \<Rightarrow> 'db \<Rightarrow> error + 'b \<times> 'db" where
  "bindT m f db = (case m db of Inl e \<Rightarrow> Inl e | Inr (a, db') \<Rightarrow> f a db')"

definition inside :: "string \<Rightarrow> faults \<Rightarrow> faults" where "inside lbl flt name = flt (lbl @ '':'' @ name)"

lemma give_Inr [simp]: "give a db = Inr (b, db') \<longleftrightarrow> b = a \<and> db' = db"
  by (auto simp: give_def)

lemma refuse_Inr [simp]: "refuse e db \<noteq> Inr r" "refuse e db = Inl e' \<longleftrightarrow> e' = e"
  by (auto simp: refuse_def)

lemma check_Inr [simp]: "check r db = Inr (a, db') \<longleftrightarrow> r = Inr a \<and> db' = db"
  by (auto simp: check_def split: sum.split)

lemma bindT_Inr [simp]:
  "bindT m f db = Inr (b, db'') \<longleftrightarrow> (\<exists>a db'. m db = Inr (a, db') \<and> f a db' = Inr (b, db''))"
  by (auto simp: bindT_def split: sum.split)

lemma bindT_run: "m db = Inr (a, db') \<Longrightarrow> bindT m f db = f a db'" "m db = Inl e \<Longrightarrow> bindT m f db = Inl e"
  by (simp_all add: bindT_def)

lemma give_run: "bindT (give a) f db = f a db" "bindT (check (Inr a)) f db = f a db"
  "bindT (refuse e) f db = Inl e" "bindT (check (Inl e)) f db = Inl e"
  by (simp_all add: bindT_def give_def check_def refuse_def)

lemma bindT_cong: "(\<And>a db'. m db = Inr (a, db') \<Longrightarrow> f a db' = g a db') \<Longrightarrow> bindT m f db = bindT m g db"
  by (cases "m db") (simp_all add: bindT_def split: prod.split)

text \<open>What a body keeps of a property of the tables when it succeeds.\<close>

definition keeps :: "('db \<Rightarrow> bool) \<Rightarrow> ('db \<Rightarrow> error + 'a \<times> 'db) \<Rightarrow> bool" where
  "keeps P m \<longleftrightarrow> (\<forall>db a db'. P db \<longrightarrow> m db = Inr (a, db') \<longrightarrow> P db')"

lemma keepsI: "(\<And>db a db'. P db \<Longrightarrow> m db = Inr (a, db') \<Longrightarrow> P db') \<Longrightarrow> keeps P m"
  by (simp add: keeps_def)

lemma keepsD: "keeps P m \<Longrightarrow> P db \<Longrightarrow> m db = Inr (a, db') \<Longrightarrow> P db'"
  by (simp add: keeps_def)

lemma keeps_steps [intro]:
  "keeps P (give a)" "keeps P (refuse e)" "keeps P (check r)"
  by (auto simp: keeps_def)

lemma keeps_bindT [intro]: "keeps P m \<Longrightarrow> (\<And>a. keeps P (f a)) \<Longrightarrow> keeps P (bindT m f)"
  unfolding keeps_def bindT_Inr by blast

end
