(* ===== verification/PromoRepo.thy ===== *)
theory PromoRepo
  imports PromoModels Database
begin

text \<open>
  The promotion repository, \<^verbatim>\<open>internal/modules/promotion/repository\<close>, over the tables of
  \<^verbatim>\<open>migrations/\<close> and the statements of \<^verbatim>\<open>queries/\<close>.

  A table is the list of its rows. Each statement is a function of the tables that gives its row or
  the way it failed: no row, a violated constraint, an integer out of range, or a fault of the
  connection. The faults of one call are an argument, \<open>flt\<close>: it says which of the call's statements
  fail and how. A transaction is one function from the tables to the tables; the code holds the
  promotion's row lock from its first statement to its end, so two transactions on one promotion do
  not interleave, and every other write is a single statement. What a
  transaction leaves behind when it fails is in \<open>Database\<close>.

  Ids are given by the caller; the bookkeeping times \<open>created_at\<close> and \<open>updated_at\<close>, the metadata and
  the pages of the list reads are left out.
\<close>

section \<open>Tables\<close>

record promotion_row =
  pw_promo :: promotion
  pw_deleted :: bool

record campaign_row =
  cw_campaign :: campaign
  cw_deleted :: bool

record method_row =
  mw_method :: application_method
  mw_deleted :: bool

record rule_row =
  rw_rule :: promotion_rule
  rw_deleted :: bool

record redemption =
  rd_ID :: string
  rd_PromotionID :: string
  rd_CampaignID :: "string option"
  rd_Reference :: string
  rd_Amount :: int64
  rd_CurrencyCode :: string
  rd_BudgetDelta :: int64
  rd_ReleasedAt :: "time option"

record promo_db =
  t_promotion :: "promotion_row list"
  t_campaign :: "campaign_row list"
  t_method :: "method_row list"
  t_rule :: "rule_row list"
  t_redemption :: "redemption list"

section \<open>Faults and errors\<close>

definition CodeCampaignNotFound :: string where "CodeCampaignNotFound = ''campaign_not_found''"
definition CodePromotionNotFound :: string where "CodePromotionNotFound = ''promotion_not_found''"
definition CodeApplicationMethodNotFound :: string where
  "CodeApplicationMethodNotFound = ''promotion_application_method_not_found''"
definition CodePromotionRuleNotFound :: string where
  "CodePromotionRuleNotFound = ''promotion_rule_not_found''"
definition CodeUsageLimitReached :: string where "CodeUsageLimitReached = ''promotion_usage_limit_reached''"
definition CodePromotionNotActive :: string where "CodePromotionNotActive = ''promotion_not_active''"
definition CodeCampaignWindowClosed :: string where "CodeCampaignWindowClosed = ''campaign_window_closed''"
definition CodeBudgetUnitLocked :: string where "CodeBudgetUnitLocked = ''campaign_budget_unit_locked''"
definition CodeBudgetExceeded :: string where "CodeBudgetExceeded = ''campaign_budget_exceeded''"
definition CodeBudgetCurrencyMismatch :: string where
  "CodeBudgetCurrencyMismatch = ''campaign_budget_currency_mismatch''"
definition CodeRedemptionRaced :: string where "CodeRedemptionRaced = ''promotion_redemption_raced''"
definition CodeConstraintViolation :: string where
  "CodeConstraintViolation = ''promotion_constraint_violation''"
definition CodeDuplicate :: string where "CodeDuplicate = ''promotion_duplicate''"
definition CodeQueryFailed :: string where "CodeQueryFailed = ''promotion_query_failed''"
definition CodeDbCanceled :: string where "CodeDbCanceled = ''promotion_canceled''"
definition CodeTxFailed :: string where "CodeTxFailed = ''promotion_tx_failed''"

lemmas repo_codes = CodeCampaignNotFound_def CodePromotionNotFound_def CodeApplicationMethodNotFound_def
  CodePromotionRuleNotFound_def CodeUsageLimitReached_def
  CodePromotionNotActive_def CodeCampaignWindowClosed_def CodeBudgetUnitLocked_def CodeBudgetExceeded_def
  CodeBudgetCurrencyMismatch_def CodeRedemptionRaced_def CodeConstraintViolation_def CodeDuplicate_def
  CodeQueryFailed_def CodeDbCanceled_def CodeTxFailed_def

definition wrapDB :: "pg_error \<Rightarrow> error" where
  "wrapDB err =
    (case err of
      PgFault PgContext \<Rightarrow> Typed KindUnavailable CodeDbCanceled (Some (pg_sentinel err))
    | PgFault PgTxClosed \<Rightarrow> Typed KindInternal CodeTxFailed (Some (pg_sentinel err))
    | PgFault (PgState s) \<Rightarrow>
        if s = sqlstateUniqueViolation then Typed KindConflict CodeDuplicate (Some (pg_sentinel err))
        else if s = sqlstateCheckViolation \<or> s = sqlstateForeignKeyViolation \<or>
          s = sqlstateNotNullViolation \<or> s = sqlstateStringDataRightTrunc
        then Typed KindInvalid CodeConstraintViolation (Some (pg_sentinel err))
        else Typed KindInternal CodeQueryFailed (Some (pg_sentinel err))
    | _ \<Rightarrow> Typed KindInternal CodeQueryFailed (Some (pg_sentinel err)))"

definition notFoundOr :: "pg_error \<Rightarrow> string \<Rightarrow> error" where
  "notFoundOr err code = (if err = PgNoRows then NotFound code else wrapDB err)"

definition inTx :: "faults \<Rightarrow> (promo_db \<Rightarrow> (error + 'a) \<times> promo_db) \<Rightarrow> promo_db \<Rightarrow> (error + 'a) \<times> promo_db" where
  "inTx flt fn db = transact wrapDB flt fn db"

section \<open>Reads\<close>

definition live_promotion :: "promo_db \<Rightarrow> string \<Rightarrow> promotion option" where
  "live_promotion db eid =
    map_option pw_promo (find (\<lambda>r. pr_ID (pw_promo r) = eid \<and> \<not> pw_deleted r) (t_promotion db))"

definition live_campaign :: "promo_db \<Rightarrow> string \<Rightarrow> campaign option" where
  "live_campaign db eid =
    map_option cw_campaign (find (\<lambda>r. cp_ID (cw_campaign r) = eid \<and> \<not> cw_deleted r) (t_campaign db))"

definition active_redemption :: "promo_db \<Rightarrow> string \<Rightarrow> string \<Rightarrow> redemption option" where
  "active_redemption db pid ref =
    find (\<lambda>r. rd_PromotionID r = pid \<and> rd_Reference r = ref \<and> rd_ReleasedAt r = None) (t_redemption db)"

definition q_LockPromotion :: "faults \<Rightarrow> string \<Rightarrow> promo_db \<Rightarrow> pg_error + promotion" where
  "q_LockPromotion flt eid db = statement flt ''LockPromotion'' (found (live_promotion db eid))"

definition q_GetActiveRedemption :: "faults \<Rightarrow> string \<Rightarrow> string \<Rightarrow> promo_db \<Rightarrow> pg_error + redemption" where
  "q_GetActiveRedemption flt pid ref db =
    statement flt ''GetActiveRedemption'' (found (active_redemption db pid ref))"

definition q_LockActiveRedemption :: "faults \<Rightarrow> string \<Rightarrow> string \<Rightarrow> promo_db \<Rightarrow> pg_error + redemption" where
  "q_LockActiveRedemption flt pid ref db =
    statement flt ''LockActiveRedemption'' (found (active_redemption db pid ref))"

definition q_LockCampaign :: "faults \<Rightarrow> string \<Rightarrow> promo_db \<Rightarrow> pg_error + campaign" where
  "q_LockCampaign flt eid db = statement flt ''LockCampaign'' (found (live_campaign db eid))"

section \<open>Counters and ledger\<close>

definition set_promotion :: "string \<Rightarrow> (promotion \<Rightarrow> promotion) \<Rightarrow> promo_db \<Rightarrow> promo_db" where
  "set_promotion eid f db = db\<lparr> t_promotion :=
    map (\<lambda>r. if pr_ID (pw_promo r) = eid \<and> \<not> pw_deleted r then r\<lparr> pw_promo := f (pw_promo r) \<rparr> else r)
      (t_promotion db) \<rparr>"

definition set_campaign :: "string \<Rightarrow> (campaign \<Rightarrow> campaign) \<Rightarrow> promo_db \<Rightarrow> promo_db" where
  "set_campaign eid f db = db\<lparr> t_campaign :=
    map (\<lambda>r. if cp_ID (cw_campaign r) = eid \<and> \<not> cw_deleted r then r\<lparr> cw_campaign := f (cw_campaign r) \<rparr> else r)
      (t_campaign db) \<rparr>"

text \<open>A sum that leaves \<open>bigint\<close> is SQLSTATE 22003, which the repository does not tell apart.\<close>

definition q_IncrementPromotionUsage :: "faults \<Rightarrow> string \<Rightarrow> promo_db \<Rightarrow> pg_error + promo_db" where
  "q_IncrementPromotionUsage flt eid db =
    statement flt ''IncrementPromotionUsage''
      (case live_promotion db eid of
        None \<Rightarrow> Inl PgNoRows
      | Some p \<Rightarrow>
          if pr_UsageCount p + 1 > MaxInt64 then Inl out_of_range
          else if (case pr_UsageLimit p of None \<Rightarrow> True | Some l \<Rightarrow> pr_UsageCount p + 1 \<le> l)
          then Inr (set_promotion eid (\<lambda>p. p\<lparr> pr_UsageCount := pr_UsageCount p + 1 \<rparr>) db)
          else Inl PgNoRows)"

definition q_DecrementPromotionUsage :: "faults \<Rightarrow> string \<Rightarrow> promo_db \<Rightarrow> pg_error + promo_db" where
  "q_DecrementPromotionUsage flt eid db =
    statement flt ''DecrementPromotionUsage''
      (case live_promotion db eid of
        None \<Rightarrow> Inl PgNoRows
      | Some p \<Rightarrow> Inr (set_promotion eid (\<lambda>p. p\<lparr> pr_UsageCount := max (pr_UsageCount p - 1) 0 \<rparr>) db))"

definition q_IncrementCampaignBudget :: "faults \<Rightarrow> string \<Rightarrow> int64 \<Rightarrow> promo_db \<Rightarrow> pg_error + promo_db" where
  "q_IncrementCampaignBudget flt eid delta db =
    statement flt ''IncrementCampaignBudget''
      (case live_campaign db eid of
        None \<Rightarrow> Inl PgNoRows
      | Some c \<Rightarrow>
          if cp_BudgetUsed c + delta > MaxInt64 then Inl out_of_range
          else if (case cp_BudgetLimit c of None \<Rightarrow> True | Some l \<Rightarrow> cp_BudgetUsed c + delta \<le> l)
          then Inr (set_campaign eid (\<lambda>c. c\<lparr> cp_BudgetUsed := cp_BudgetUsed c + delta \<rparr>) db)
          else Inl PgNoRows)"

definition q_DecrementCampaignBudget :: "faults \<Rightarrow> string \<Rightarrow> int64 \<Rightarrow> promo_db \<Rightarrow> pg_error + promo_db" where
  "q_DecrementCampaignBudget flt eid delta db =
    statement flt ''DecrementCampaignBudget''
      (case live_campaign db eid of
        None \<Rightarrow> Inl PgNoRows
      | Some c \<Rightarrow> Inr (set_campaign eid (\<lambda>c. c\<lparr> cp_BudgetUsed := max (cp_BudgetUsed c - delta) 0 \<rparr>) db))"

definition currency_check :: "string \<Rightarrow> bool" where
  "currency_check s \<longleftrightarrow> length s = 3 \<and> list_all upper_char s"

definition redemption_checks :: "redemption \<Rightarrow> bool" where
  "redemption_checks r \<longleftrightarrow> rd_Reference r \<noteq> [] \<and> 0 \<le> rd_Amount r \<and> rd_Amount r \<le> 1000000000000 \<and>
    0 \<le> rd_BudgetDelta r \<and> currency_check (rd_CurrencyCode r)"

definition q_InsertRedemption :: "faults \<Rightarrow> redemption \<Rightarrow> promo_db \<Rightarrow> pg_error + promo_db" where
  "q_InsertRedemption flt r db =
    statement flt ''InsertRedemption''
      (if \<not> redemption_checks r then Inl (PgFault (PgState sqlstateCheckViolation))
       else if list_ex (\<lambda>x. rd_ID x = rd_ID r) (t_redemption db) \<or>
         active_redemption db (rd_PromotionID r) (rd_Reference r) \<noteq> None
       then Inl (PgFault (PgState sqlstateUniqueViolation))
       else Inr (db\<lparr> t_redemption := t_redemption db @ [r] \<rparr>))"

definition q_MarkRedemptionReleased :: "faults \<Rightarrow> string \<Rightarrow> time \<Rightarrow> promo_db \<Rightarrow> pg_error + redemption \<times> promo_db" where
  "q_MarkRedemptionReleased flt eid at db =
    statement flt ''MarkRedemptionReleased''
      (case find (\<lambda>r. rd_ID r = eid \<and> rd_ReleasedAt r = None) (t_redemption db) of
        None \<Rightarrow> Inl PgNoRows
      | Some r \<Rightarrow>
          Inr (r\<lparr> rd_ReleasedAt := Some (column_time at) \<rparr>,
               db\<lparr> t_redemption := map (\<lambda>x. if rd_ID x = eid \<and> rd_ReleasedAt x = None
                    then x\<lparr> rd_ReleasedAt := Some (column_time at) \<rparr> else x) (t_redemption db) \<rparr>))"

section \<open>Redeeming and releasing\<close>

definition lockBudget ::
    "faults \<Rightarrow> promotion \<Rightarrow> redemption \<Rightarrow> time \<Rightarrow> promo_db \<Rightarrow> error + int64 \<times> string option" where
  "lockBudget flt p req now db =
    (case pr_CampaignID p of
      None \<Rightarrow> Inr (0, None)
    | Some cid \<Rightarrow>
        (case q_LockCampaign flt cid db of
          Inl e \<Rightarrow> Inl (if e = PgNoRows then Conflict CodeCampaignNotFound else wrapDB e)
        | Inr c \<Rightarrow>
            if \<not> WindowContains c now then Inl (Conflict CodeCampaignWindowClosed)
            else if cp_BudgetType c = BudgetSpend \<and> cp_BudgetCurrencyCode c \<noteq> rd_CurrencyCode req
            then Inl (Conflict CodeBudgetCurrencyMismatch)
            else Inr (BudgetDeltaFor c (rd_Amount req), Some (cp_ID c))))"

definition redeem_budget :: "faults \<Rightarrow> int64 \<Rightarrow> string option \<Rightarrow> promo_db \<Rightarrow> error + promo_db" where
  "redeem_budget flt delta campaignID db =
    (case campaignID of
      None \<Rightarrow> Inr db
    | Some cid \<Rightarrow>
        if delta > 0 then
          (case q_IncrementCampaignBudget flt cid delta db of
            Inl e \<Rightarrow> Inl (if e = PgNoRows then Conflict CodeBudgetExceeded else wrapDB e)
          | Inr db' \<Rightarrow> Inr db')
        else Inr db)"

definition redeem_tx ::
    "faults \<Rightarrow> redemption \<Rightarrow> time \<Rightarrow> promo_db \<Rightarrow> (error + redemption \<times> bool) \<times> promo_db" where
  "redeem_tx flt req now db =
    (case q_LockPromotion flt (rd_PromotionID req) db of
      Inl e \<Rightarrow> (Inl (notFoundOr e CodePromotionNotFound), db)
    | Inr p \<Rightarrow>
        (case q_GetActiveRedemption flt (rd_PromotionID req) (rd_Reference req) db of
          Inr existing \<Rightarrow> (Inr (existing, False), db)
        | Inl e \<Rightarrow>
            if e \<noteq> PgNoRows then (Inl (wrapDB e), db)
            else if pr_Status p \<noteq> PromotionActive then (Inl (Conflict CodePromotionNotActive), db)
            else
              (case lockBudget flt p req now db of
                Inl e \<Rightarrow> (Inl e, db)
              | Inr (delta, campaignID) \<Rightarrow>
                  (case q_IncrementPromotionUsage flt (rd_PromotionID req) db of
                    Inl e \<Rightarrow> (Inl (if e = PgNoRows then Conflict CodeUsageLimitReached else wrapDB e), db)
                  | Inr db1 \<Rightarrow>
                      (case redeem_budget flt delta campaignID db1 of
                        Inl e \<Rightarrow> (Inl e, db1)
                      | Inr db2 \<Rightarrow>
                          (let row = req\<lparr> rd_CampaignID := campaignID, rd_BudgetDelta := delta,
                                          rd_ReleasedAt := None \<rparr> in
                           case q_InsertRedemption flt row db2 of
                             Inl e \<Rightarrow> (Inl (wrapDB e), db2)
                           | Inr db3 \<Rightarrow> (Inr (row, True), db3)))))))"

definition Redeem ::
    "faults \<Rightarrow> redemption \<Rightarrow> time \<Rightarrow> promo_db \<Rightarrow> (error + redemption \<times> bool) \<times> promo_db" where
  "Redeem flt req now = inTx flt (redeem_tx flt req now)"

definition release_budget :: "faults \<Rightarrow> redemption \<Rightarrow> promo_db \<Rightarrow> error + promo_db" where
  "release_budget flt r db =
    (case rd_CampaignID r of
      None \<Rightarrow> Inr db
    | Some cid \<Rightarrow>
        if rd_BudgetDelta r > 0 then
          (case q_DecrementCampaignBudget flt cid (rd_BudgetDelta r) db of
            Inl e \<Rightarrow> if e = PgNoRows then Inr db else Inl (wrapDB e)
          | Inr db' \<Rightarrow> Inr db')
        else Inr db)"

text \<open>The first component is the redemption released, or nothing when there was none.\<close>

definition release_tx ::
    "faults \<Rightarrow> string \<Rightarrow> string \<Rightarrow> time \<Rightarrow> promo_db \<Rightarrow> (error + redemption option) \<times> promo_db" where
  "release_tx flt pid ref now db =
    (case q_LockPromotion flt pid db of
      Inl e \<Rightarrow> (Inl (notFoundOr e CodePromotionNotFound), db)
    | Inr p \<Rightarrow>
        (case q_LockActiveRedemption flt pid ref db of
          Inl e \<Rightarrow> if e = PgNoRows then (Inr None, db) else (Inl (wrapDB e), db)
        | Inr r \<Rightarrow>
            (case release_budget flt r db of
              Inl e \<Rightarrow> (Inl e, db)
            | Inr db1 \<Rightarrow>
                (case q_DecrementPromotionUsage flt pid db1 of
                  Inl e \<Rightarrow> (Inl (wrapDB e), db1)
                | Inr db2 \<Rightarrow>
                    (case q_MarkRedemptionReleased flt (rd_ID r) now db2 of
                      Inl e \<Rightarrow>
                        (Inl (if e = PgNoRows then Conflict CodeRedemptionRaced else wrapDB e), db2)
                    | Inr (row, db3) \<Rightarrow> (Inr (Some row), db3))))))"

definition Release ::
    "faults \<Rightarrow> string \<Rightarrow> string \<Rightarrow> time \<Rightarrow> promo_db \<Rightarrow> (error + redemption option) \<times> promo_db" where
  "Release flt pid ref now = inTx flt (release_tx flt pid ref now)"

end
