(* ===== verification/PromoAdmin.thy ===== *)
theory PromoAdmin
  imports PromoRepo
begin

text \<open>
  What the administration writes: the builders of
  \<^verbatim>\<open>internal/modules/promotion/service\<close> (\<^verbatim>\<open>service.go\<close>, \<^verbatim>\<open>campaign.go\<close>, \<^verbatim>\<open>rule.go\<close>), which turn an
  input into a record or refuse it, the constraints of the tables (\<^verbatim>\<open>migrations/\<close>), and the writes
  of the repository. The properties state that a record a builder accepts satisfies every
  constraint of its table, and that an accepted rule can be met.
\<close>

section \<open>Builders\<close>

definition PromotionIDPrefix :: string where "PromotionIDPrefix = ''promo_''"
definition CampaignIDPrefix :: string where "CampaignIDPrefix = ''camp_''"

record promotion_draft =
  pi_Code :: string
  pi_IsAutomatic :: bool
  pi_Type :: string
  pi_CampaignID :: "string option"
  pi_Status :: string
  pi_UsageLimit :: "int64 option"

definition buildPromotion :: "string \<Rightarrow> promotion_draft \<Rightarrow> error + promotion" where
  "buildPromotion eid d =
    (case normalizeCode (pi_Code d) of
      Inl e \<Rightarrow> Inl e
    | Inr code \<Rightarrow>
        (let promoType = (if pi_Type d = [] then PromotionStandard else pi_Type d) in
         if \<not> PromotionType_Valid promoType then Inl (Invalid CodeInvalidInput)
         else
           (let st = (if pi_Status d = [] then PromotionDraft else pi_Status d) in
            if \<not> PromotionStatus_Valid st then Inl (Invalid CodeInvalidInput)
            else
              (case (case pi_CampaignID d of None \<Rightarrow> None | Some cid \<Rightarrow> requireID cid CampaignIDPrefix) of
                Some e \<Rightarrow> Inl e
              | None \<Rightarrow>
                  (case validateUsageLimit (pi_UsageLimit d) of
                    Some e \<Rightarrow> Inl e
                  | None \<Rightarrow>
                      Inr \<lparr> pr_ID = eid, pr_Code = code, pr_IsAutomatic = pi_IsAutomatic d,
                            pr_Type = promoType, pr_CampaignID = pi_CampaignID d, pr_Status = st,
                            pr_UsageLimit = pi_UsageLimit d, pr_UsageCount = 0 \<rparr>)))))"

record campaign_draft =
  cd_Name :: string
  cd_Identifier :: string
  cd_Description :: string
  cd_StartsAt :: "time option"
  cd_EndsAt :: "time option"
  cd_BudgetType :: string
  cd_BudgetLimit :: "int64 option"
  cd_BudgetCurrencyCode :: string

definition checkCampaignWindow :: "time option \<Rightarrow> time option \<Rightarrow> error option" where
  "checkCampaignWindow startsAt endsAt =
    (case (startsAt, endsAt) of
      (Some s, Some e) \<Rightarrow> if \<not> s < e then Some (Invalid CodeInvalidInput) else None
    | _ \<Rightarrow> None)"

definition checkBudgetLimit :: "int64 \<Rightarrow> error option" where
  "checkBudgetLimit limit =
    (if limit < 0 then Some (Invalid CodeInvalidInput)
     else if limit > MaxAmount then Some (Invalid CodeInvalidInput)
     else None)"

definition normalizeBudget :: "campaign_draft \<Rightarrow> error + string \<times> int64 option \<times> string" where
  "normalizeBudget d =
    (let budgetType = (if cd_BudgetType d = [] then BudgetNone else cd_BudgetType d) in
     if \<not> CampaignBudgetType_Valid budgetType then Inl (Invalid CodeInvalidInput)
     else if budgetType = BudgetNone then
       (if cd_BudgetLimit d \<noteq> None then Inl (Invalid CodeInvalidInput)
        else if cd_BudgetCurrencyCode d \<noteq> [] then Inl (Invalid CodeInvalidInput)
        else Inr (budgetType, None, []))
     else
       (case cd_BudgetLimit d of
         None \<Rightarrow> Inl (Invalid CodeInvalidInput)
       | Some limit \<Rightarrow>
           (case checkBudgetLimit limit of
             Some e \<Rightarrow> Inl e
           | None \<Rightarrow>
               if budgetType = BudgetUsage then
                 (if cd_BudgetCurrencyCode d \<noteq> [] then Inl (Invalid CodeInvalidInput)
                  else Inr (budgetType, Some limit, []))
               else
                 (case normalizeCurrency (cd_BudgetCurrencyCode d) of
                   Inl e \<Rightarrow> Inl e
                 | Inr currency \<Rightarrow> Inr (budgetType, Some limit, currency)))))"

definition buildCampaign :: "string \<Rightarrow> campaign_draft \<Rightarrow> error + campaign" where
  "buildCampaign eid d =
    (case validateText (cd_Name d) 1 MaxNameLen of
      Some e \<Rightarrow> Inl e
    | None \<Rightarrow>
        (case validateText (cd_Identifier d) 1 MaxIdentifierLen of
          Some e \<Rightarrow> Inl e
        | None \<Rightarrow>
            (case validateText (cd_Description d) 0 MaxDescriptionLen of
              Some e \<Rightarrow> Inl e
            | None \<Rightarrow>
                (case checkCampaignWindow (cd_StartsAt d) (cd_EndsAt d) of
                  Some e \<Rightarrow> Inl e
                | None \<Rightarrow>
                    (case normalizeBudget d of
                      Inl e \<Rightarrow> Inl e
                    | Inr (budgetType, limit, currency) \<Rightarrow>
                        Inr \<lparr> cp_ID = eid, cp_Name = cd_Name d, cp_Identifier = cd_Identifier d,
                              cp_Description = cd_Description d, cp_StartsAt = cd_StartsAt d,
                              cp_EndsAt = cd_EndsAt d, cp_BudgetType = budgetType,
                              cp_BudgetLimit = limit, cp_BudgetUsed = 0,
                              cp_BudgetCurrencyCode = currency \<rparr>)))))"

record method_draft =
  md_Type :: string
  md_TargetType :: string
  md_Allocation :: string
  md_Value :: int64
  md_MaxQuantity :: "int64 option"
  md_BuyQuantity :: "int64 option"
  md_ApplyToQuantity :: "int64 option"
  md_CurrencyCode :: string

definition validateRewardQuantities :: "int64 option \<Rightarrow> int64 option \<Rightarrow> error option" where
  "validateRewardQuantities buy applyTo =
    (if (buy = None) \<noteq> (applyTo = None) then Some (Invalid CodeInvalidInput)
     else
       (case (buy, applyTo) of
         (Some b, Some a) \<Rightarrow>
           (case validateQuantity b of Some e \<Rightarrow> Some e | None \<Rightarrow> validateQuantity a)
       | _ \<Rightarrow> None))"

definition method_measure :: "method_draft \<Rightarrow> error + string" where
  "method_measure d =
    (if md_Type d = MethodFixed then
       (case validateAmount (md_Value d) of
         Some e \<Rightarrow> Inl e
       | None \<Rightarrow> normalizeCurrency (md_CurrencyCode d))
     else if md_Type d = MethodPercentage then
       (if md_Value d < 0 \<or> md_Value d > BasisPointDenominator then Inl (Invalid CodeInvalidInput)
        else if md_CurrencyCode d \<noteq> [] then Inl (Invalid CodeInvalidInput)
        else Inr [])
     else Inr [])"

definition buildApplicationMethod :: "string \<Rightarrow> string \<Rightarrow> method_draft \<Rightarrow> error + application_method" where
  "buildApplicationMethod eid pid d =
    (if \<not> MethodType_Valid (md_Type d) then Inl (Invalid CodeInvalidInput)
     else if \<not> TargetType_Valid (md_TargetType d) then Inl (Invalid CodeInvalidInput)
     else
       (let allocation = (if md_Allocation d = [] then AllocationEach else md_Allocation d) in
        if \<not> Allocation_Valid allocation then Inl (Invalid CodeInvalidInput)
        else if md_TargetType d = TargetOrder \<and> md_Allocation d \<noteq> [] \<and> md_Allocation d \<noteq> AllocationAcross
        then Inl (Invalid CodeInvalidInput)
        else
          (let allocation' = (if md_TargetType d = TargetOrder then AllocationAcross else allocation) in
           case (case md_MaxQuantity d of None \<Rightarrow> None | Some q \<Rightarrow> validateQuantity q) of
             Some e \<Rightarrow> Inl e
           | None \<Rightarrow>
               (case validateRewardQuantities (md_BuyQuantity d) (md_ApplyToQuantity d) of
                 Some e \<Rightarrow> Inl e
               | None \<Rightarrow>
                   (case method_measure d of
                     Inl e \<Rightarrow> Inl e
                   | Inr currency \<Rightarrow>
                       Inr \<lparr> me_ID = eid, me_PromotionID = pid, me_Type = md_Type d,
                             me_TargetType = md_TargetType d, me_Allocation = allocation',
                             me_Value = md_Value d, me_MaxQuantity = md_MaxQuantity d,
                             me_BuyQuantity = md_BuyQuantity d, me_ApplyToQuantity = md_ApplyToQuantity d,
                             me_CurrencyCode = currency \<rparr>)))))"

record rule_input =
  ri_RuleType :: string
  ri_Attribute :: string
  ri_Operator :: string
  ri_Values :: "string list"

definition validateRuleInput :: "rule_input \<Rightarrow> error option" where
  "validateRuleInput r =
    (if \<not> RuleType_Valid (ri_RuleType r) then Some (Invalid CodeInvalidInput)
     else
       (case validateText (ri_Attribute r) 1 MaxAttributeLen of
         Some e \<Rightarrow> Some e
       | None \<Rightarrow>
           if \<not> RuleOperator_Valid (ri_Operator r) then Some (Invalid CodeInvalidInput)
           else if ri_Values r = [] then Some (Invalid CodeInvalidInput)
           else if length (ri_Values r) > MaxRuleValues then Some (Invalid CodeInvalidInput)
           else if \<not> MultiValue (ri_Operator r) \<and> length (ri_Values r) \<noteq> 1
           then Some (Invalid CodeInvalidInput)
           else
             check_all (\<lambda>v. if v = [] then Some (Invalid CodeInvalidInput)
                            else if \<not> Readable (ri_Operator r) v then Some (Invalid CodeInvalidInput)
                            else None) (ri_Values r)))"

definition refuseReservedAttribute :: "rule_input \<Rightarrow> error option" where
  "refuseReservedAttribute r =
    (if prefix ReservedAttributePrefix (ri_Attribute r)
     then Some (Invalid CodeRuleAttributeReserved) else None)"

definition buildRule :: "string \<Rightarrow> string \<Rightarrow> rule_input \<Rightarrow> error + promotion_rule" where
  "buildRule eid pid r =
    (case requireID pid PromotionIDPrefix of
      Some e \<Rightarrow> Inl e
    | None \<Rightarrow>
        (case validateRuleInput r of
          Some e \<Rightarrow> Inl e
        | None \<Rightarrow>
            (case refuseReservedAttribute r of
              Some e \<Rightarrow> Inl e
            | None \<Rightarrow>
                Inr \<lparr> ru_ID = eid, ru_PromotionID = pid, ru_RuleType = ri_RuleType r,
                      ru_Attribute = ri_Attribute r, ru_Operator = ri_Operator r,
                      ru_Values = ri_Values r \<rparr>)))"

section \<open>Constraints of the tables\<close>

definition promotion_checks :: "promotion \<Rightarrow> bool" where
  "promotion_checks p \<longleftrightarrow> pr_Code p \<noteq> [] \<and> strings_ToUpper (pr_Code p) = pr_Code p \<and>
    pr_Type p \<in> {''standard'', ''buyget''} \<and> pr_Status p \<in> {''draft'', ''active'', ''inactive''} \<and>
    (case pr_UsageLimit p of None \<Rightarrow> True | Some l \<Rightarrow> 0 \<le> l) \<and> 0 \<le> pr_UsageCount p"

definition campaign_checks :: "campaign \<Rightarrow> bool" where
  "campaign_checks c \<longleftrightarrow> cp_Name c \<noteq> [] \<and> cp_Identifier c \<noteq> [] \<and>
    (case (cp_StartsAt c, cp_EndsAt c) of (Some s, Some e) \<Rightarrow> s < e | _ \<Rightarrow> True) \<and>
    cp_BudgetType c \<in> {''none'', ''spend'', ''usage''} \<and>
    (case cp_BudgetLimit c of None \<Rightarrow> True | Some l \<Rightarrow> 0 \<le> l \<and> l \<le> 1000000000000) \<and>
    0 \<le> cp_BudgetUsed c \<and>
    (if cp_BudgetType c = ''spend'' then currency_check (cp_BudgetCurrencyCode c)
     else cp_BudgetCurrencyCode c = []) \<and>
    (cp_BudgetType c \<noteq> ''none'' \<or> cp_BudgetLimit c = None)"

text \<open>The row a campaign is written as; the constraints are checked on it.\<close>

definition campaign_columns :: "campaign \<Rightarrow> campaign" where
  "campaign_columns c = c\<lparr> cp_StartsAt := map_option column_time (cp_StartsAt c),
    cp_EndsAt := map_option column_time (cp_EndsAt c) \<rparr>"

definition quantity_check :: "int64 option \<Rightarrow> bool" where
  "quantity_check q = (case q of None \<Rightarrow> True | Some n \<Rightarrow> 1 \<le> n \<and> n \<le> 1000000)"

definition method_checks :: "application_method \<Rightarrow> bool" where
  "method_checks m \<longleftrightarrow> me_Type m \<in> {''fixed'', ''percentage''} \<and>
    me_TargetType m \<in> {''items'', ''shipping_methods'', ''order''} \<and>
    me_Allocation m \<in> {''each'', ''across''} \<and> 0 \<le> me_Value m \<and>
    (if me_Type m = ''fixed'' then currency_check (me_CurrencyCode m) else me_CurrencyCode m = []) \<and>
    (me_Type m \<noteq> ''fixed'' \<or> me_Value m \<le> 1000000000000) \<and>
    (me_Type m \<noteq> ''percentage'' \<or> me_Value m \<le> 10000) \<and>
    quantity_check (me_MaxQuantity m) \<and> (me_TargetType m \<noteq> ''order'' \<or> me_Allocation m = ''across'') \<and>
    (me_BuyQuantity m = None) = (me_ApplyToQuantity m = None) \<and>
    quantity_check (me_BuyQuantity m) \<and> quantity_check (me_ApplyToQuantity m)"

definition rule_checks :: "promotion_rule \<Rightarrow> bool" where
  "rule_checks r \<longleftrightarrow> ru_RuleType r \<in> {''context'', ''target'', ''buy''} \<and> ru_Attribute r \<noteq> [] \<and>
    ru_Operator r \<in> {''eq'', ''ne'', ''in'', ''nin'', ''any_in'', ''gt'', ''gte'', ''lt'', ''lte''} \<and>
    length (ru_Values r) \<ge> 1"

section \<open>What a builder accepts\<close>

lemma strings_TrimSpace_Nil [simp]: "strings_TrimSpace [] = []"
proof -
  have "strip_rune runes [] = None" for runes
    by (auto simp: strip_rune_def find_None_iff split: option.splits)
  then show ?thesis by (simp add: strings_TrimSpace_def strip_all.simps)
qed

lemma validateText_nonempty: "validateText v (Suc n) k = None \<Longrightarrow> v \<noteq> []"
  by (auto simp: validateText_def)

lemma ToUpper_code:
  "list_all code_char s \<Longrightarrow> strings_ToUpper s = s"
proof (induction s rule: strings_ToUpper.induct)
  case (2 c)
  then show ?case
    by (auto simp: raise_char_def code_char_def lower_char_def upper_char_def digit_char_def)
next
  case (3 c d s)
  have "c \<noteq> CHR 0xC4" "c \<noteq> CHR 0xC5" "raise_char c = c"
    using 3(4) by (auto simp: raise_char_def code_char_def lower_char_def upper_char_def digit_char_def)
  then show ?case using 3 by simp
qed simp

lemma normalizeCode_checked:
  assumes "normalizeCode code = Inr c"
  shows "c \<noteq> [] \<and> strings_ToUpper c = c"
proof -
  have "list_all code_char c" "length c \<ge> MinCodeLen"
    using assms by (auto simp: normalizeCode_def Let_def list_ex_iff list_all_iff split: if_splits)
  then show ?thesis by (auto simp: ToUpper_code MinCodeLen_def)
qed

lemma normalizeCurrency_checked:
  "normalizeCurrency code = Inr c \<Longrightarrow> currency_check c"
  by (auto simp: normalizeCurrency_def currency_check_def currencyCodeLen_def Let_def list_ex_iff list_all_iff
      split: if_splits)

lemma buildPromotion_parts:
  assumes "buildPromotion eid d = Inr p"
  shows "normalizeCode (pi_Code d) = Inr (pr_Code p)" "PromotionType_Valid (pr_Type p)"
    "PromotionStatus_Valid (pr_Status p)" "validateUsageLimit (pr_UsageLimit p) = None"
    "pr_UsageCount p = 0" "pr_ID p = eid"
  using assms by (auto simp: buildPromotion_def Let_def split: sum.splits option.splits if_splits)

lemma buildPromotion_checked:
  assumes "buildPromotion eid d = Inr p"
  shows "promotion_checks p"
proof -
  note parts = buildPromotion_parts [OF assms]
  have "pr_Code p \<noteq> [] \<and> strings_ToUpper (pr_Code p) = pr_Code p"
    using normalizeCode_checked [OF parts(1)] .
  moreover have "case pr_UsageLimit p of None \<Rightarrow> True | Some l \<Rightarrow> 0 \<le> l"
    using parts(4) by (auto simp: validateUsageLimit_def split: option.splits if_splits)
  ultimately show ?thesis
    using parts(2,3,5) unfolding promotion_checks_def PromotionType_Valid_def PromotionStatus_Valid_def promo_words
    by simp
qed

lemma normalizeBudget_checked:
  assumes "normalizeBudget d = Inr (t, l, cur)"
  shows "t \<in> {''none'', ''spend'', ''usage''} \<and>
    (case l of None \<Rightarrow> True | Some l \<Rightarrow> 0 \<le> l \<and> l \<le> 1000000000000) \<and>
    (if t = ''spend'' then currency_check cur else cur = []) \<and> (t \<noteq> ''none'' \<or> l = None)"
  using assms normalizeCurrency_checked
  by (auto simp: normalizeBudget_def CampaignBudgetType_Valid_def checkBudgetLimit_def promo_words promo_bounds Let_def
      split: option.splits sum.splits if_splits)

lemma buildCampaign_checked:
  assumes "buildCampaign eid d = Inr c"
  shows "campaign_checks (campaign_columns c) \<longleftrightarrow>
    \<not> (\<exists>s e. cd_StartsAt d = Some s \<and> cd_EndsAt d = Some e \<and> s div 1000 = e div 1000)"
    and "cp_BudgetUsed c = 0"
proof -
  obtain t l cur where b: "normalizeBudget d = Inr (t, l, cur)"
    and c: "c = \<lparr> cp_ID = eid, cp_Name = cd_Name d, cp_Identifier = cd_Identifier d,
      cp_Description = cd_Description d, cp_StartsAt = cd_StartsAt d, cp_EndsAt = cd_EndsAt d,
      cp_BudgetType = t, cp_BudgetLimit = l, cp_BudgetUsed = 0, cp_BudgetCurrencyCode = cur \<rparr>"
    and v: "validateText (cd_Name d) 1 MaxNameLen = None" "validateText (cd_Identifier d) 1 MaxIdentifierLen = None"
      "checkCampaignWindow (cd_StartsAt d) (cd_EndsAt d) = None"
    using assms by (auto simp: buildCampaign_def split: option.splits sum.splits)
  have "cd_Name d \<noteq> []" "cd_Identifier d \<noteq> []"
    using v(1,2) validateText_nonempty by (metis One_nat_def)+
  moreover have window: "(case (map_option column_time (cd_StartsAt d), map_option column_time (cd_EndsAt d)) of
      (Some s, Some e) \<Rightarrow> s < e | _ \<Rightarrow> True) \<longleftrightarrow>
    \<not> (\<exists>s e. cd_StartsAt d = Some s \<and> cd_EndsAt d = Some e \<and> s div 1000 = e div 1000)"
  proof (cases "cd_StartsAt d"; cases "cd_EndsAt d")
    fix s e assume w: "cd_StartsAt d = Some s" "cd_EndsAt d = Some e"
    with v(3) have "s < e" by (simp add: checkCampaignWindow_def split: if_splits)
    then have "s div 1000 \<le> e div 1000" by (intro zdiv_mono1) simp_all
    with w show ?thesis by (auto simp: column_time_less)
  qed auto
  ultimately show "campaign_checks (campaign_columns c) \<longleftrightarrow>
      \<not> (\<exists>s e. cd_StartsAt d = Some s \<and> cd_EndsAt d = Some e \<and> s div 1000 = e div 1000)"
    using normalizeBudget_checked [OF b]
    unfolding c campaign_checks_def campaign_columns_def campaign.simps window by simp
  show "cp_BudgetUsed c = 0" by (simp add: c)
qed

lemma buildApplicationMethod_checked:
  assumes "buildApplicationMethod eid pid d = Inr m"
  shows "method_checks m"
proof -
  have v: "MethodType_Valid (md_Type d)" "TargetType_Valid (md_TargetType d)"
    "Allocation_Valid (if md_Allocation d = [] then AllocationEach else md_Allocation d)"
    "(case md_MaxQuantity d of None \<Rightarrow> None | Some q \<Rightarrow> validateQuantity q) = None"
    "validateRewardQuantities (md_BuyQuantity d) (md_ApplyToQuantity d) = None"
    and cur: "\<exists>currency. method_measure d = Inr currency \<and>
      m = \<lparr> me_ID = eid, me_PromotionID = pid, me_Type = md_Type d, me_TargetType = md_TargetType d,
        me_Allocation = (if md_TargetType d = TargetOrder then AllocationAcross
          else if md_Allocation d = [] then AllocationEach else md_Allocation d),
        me_Value = md_Value d, me_MaxQuantity = md_MaxQuantity d, me_BuyQuantity = md_BuyQuantity d,
        me_ApplyToQuantity = md_ApplyToQuantity d, me_CurrencyCode = currency \<rparr>"
    using assms by (auto simp: buildApplicationMethod_def Let_def split: option.splits sum.splits if_splits)
  then obtain currency where cur: "method_measure d = Inr currency" and
    m: "m = \<lparr> me_ID = eid, me_PromotionID = pid, me_Type = md_Type d, me_TargetType = md_TargetType d,
        me_Allocation = (if md_TargetType d = TargetOrder then AllocationAcross
          else if md_Allocation d = [] then AllocationEach else md_Allocation d),
        me_Value = md_Value d, me_MaxQuantity = md_MaxQuantity d, me_BuyQuantity = md_BuyQuantity d,
        me_ApplyToQuantity = md_ApplyToQuantity d, me_CurrencyCode = currency \<rparr>" by blast
  have money: "0 \<le> md_Value d \<and> (if md_Type d = ''fixed'' then currency_check currency else currency = []) \<and>
    (md_Type d \<noteq> ''fixed'' \<or> md_Value d \<le> 1000000000000) \<and> (md_Type d \<noteq> ''percentage'' \<or> md_Value d \<le> 10000)"
    using cur v(1) normalizeCurrency_checked
    by (auto simp: method_measure_def MethodType_Valid_def validateAmount_def promo_words promo_bounds
        split: option.splits if_splits)
  have q: "quantity_check (md_MaxQuantity d)"
    "(md_BuyQuantity d = None) = (md_ApplyToQuantity d = None) \<and> quantity_check (md_BuyQuantity d) \<and>
      quantity_check (md_ApplyToQuantity d)"
    using v(4,5) by (auto simp: quantity_check_def validateQuantity_def validateRewardQuantities_def promo_bounds
        split: option.splits if_splits)
  show ?thesis
    using v(1-3) money q
    by (simp add: m method_checks_def MethodType_Valid_def TargetType_Valid_def Allocation_Valid_def promo_words
        split: if_splits)
qed

lemma buildRule_input:
  assumes "buildRule eid pid r = Inr ru"
  shows "validateRuleInput r = None"
    and "ru = \<lparr> ru_ID = eid, ru_PromotionID = pid, ru_RuleType = ri_RuleType r,
      ru_Attribute = ri_Attribute r, ru_Operator = ri_Operator r, ru_Values = ri_Values r \<rparr>"
  using assms by (auto simp: buildRule_def split: option.splits)

lemma validateRuleInput_ok:
  assumes "validateRuleInput r = None"
  shows "RuleType_Valid (ri_RuleType r)" "ri_Attribute r \<noteq> []" "RuleOperator_Valid (ri_Operator r)"
    "ri_Values r \<noteq> []" "\<not> MultiValue (ri_Operator r) \<longrightarrow> length (ri_Values r) = 1"
    "list_all (Readable (ri_Operator r)) (ri_Values r)" "[] \<notin> set (ri_Values r)"
  using assms validateText_nonempty [of "ri_Attribute r" 0]
  by (auto simp: validateRuleInput_def list_all_iff Readable_def split: option.splits if_splits)

lemma buildRule_checked: "buildRule eid pid r = Inr ru \<Longrightarrow> rule_checks ru"
  using validateRuleInput_ok [OF buildRule_input(1), of eid pid r ru] buildRule_input(2) [of eid pid r ru]
  by (auto simp: rule_checks_def RuleType_Valid_def RuleOperator_Valid_def operator_defs promo_words Suc_le_eq)

section \<open>Rules that can be met\<close>

lemma matchRule_single:
  "matchRule r (\<lambda>_. Some v) (\<lambda>_. []) = Match (ru_Operator r) (ru_Values r) v True []"
  by (simp add: matchRule_def)

lemma Match_string:
  assumes "values \<noteq> []" "list_all (Readable op) values"
  shows "op = Eq \<Longrightarrow> Match op values (hd values) True xs"
    and "op = Ne \<Longrightarrow> Match op values (hd values @ ''x'') True xs"
    and "op = In \<Longrightarrow> Match op values (hd values) True xs"
    and "op = Nin \<Longrightarrow> w \<notin> set values \<Longrightarrow> Match op values w True xs"
    and "op = AnyIn \<Longrightarrow> Match op values v present [hd values]"
  using assms by (simp_all add: Match_def ReadsAList_def operator_defs hd_conv_nth)

lemma fresh_string: "\<exists>w :: string. w \<notin> set ws"
  using ex_new_if_finite [OF infinite_UNIV_listI, of "set ws"] by simp

lemma Match_number_iff:
  assumes "Numeric op" "ParseInt (values ! 0) = Some n" "values \<noteq> []" "list_all (Readable op) values"
  shows "(\<exists>v present xs. Match op values v present xs) \<longleftrightarrow> (\<exists>m. is_i64 m \<and> Compare op m n)"
proof
  assume "\<exists>v present xs. Match op values v present xs"
  then obtain v present xs where m: "Match op values v present xs" by blast
  then have "present" using assms(1) by (auto simp: Match_def Numeric_def ReadsAList_def operator_defs split: if_splits)
  with m have "(case ParseInt v of None \<Rightarrow> False | Some h \<Rightarrow> Compare op h n)"
    using Match_numeric [OF assms] by simp
  then show "\<exists>m. is_i64 m \<and> Compare op m n"
    by (auto split: option.splits dest: ParseInt_range)
next
  assume "\<exists>m. is_i64 m \<and> Compare op m n"
  then obtain m where "is_i64 m" "Compare op m n" by blast
  then have "Match op values (FormatInt m) True []"
    by (simp add: Match_numeric [OF assms] ParseInt_FormatInt)
  then show "\<exists>v present xs. Match op values v present xs" by blast
qed

lemma Compare_reachable:
  assumes "is_i64 n" "Numeric op"
  shows "(\<exists>m. is_i64 m \<and> Compare op m n) \<longleftrightarrow> \<not> (op = Gt \<and> n = MaxInt64) \<and> \<not> (op = Lt \<and> n = MinInt64)"
proof -
  consider "op = Gte" | "op = Lte" | "op = Gt" | "op = Lt" using assms(2) by (auto simp: Numeric_def)
  then show ?thesis
  proof cases
    case 3
    have "(\<exists>m. is_i64 m \<and> m > n) \<longleftrightarrow> n \<noteq> MaxInt64"
      using assms(1) by (auto simp: is_i64_def MinInt64_def MaxInt64_def intro: exI [of _ "n + 1"])
    with 3 show ?thesis by (simp add: Compare_def operator_defs)
  next
    case 4
    have "(\<exists>m. is_i64 m \<and> m < n) \<longleftrightarrow> n \<noteq> MinInt64"
      using assms(1) by (auto simp: is_i64_def MinInt64_def MaxInt64_def intro: exI [of _ "n - 1"])
    with 4 show ?thesis by (simp add: Compare_def operator_defs)
  qed (use assms(1) in \<open>auto simp: Compare_def operator_defs\<close>)
qed

text \<open>C38: a rule that is accepted can be met, with two exceptions. For every rule the service stores
  there is a context that satisfies it, unless it asks for a number greater than the largest or less
  than the smallest \<open>int64\<close>; those two are accepted although nothing can ever satisfy them.\<close>

theorem accepted_rule_can_match:
  assumes "buildRule eid pid r = Inr ru"
  shows "(\<exists>attributes lsts. matchRule ru attributes lsts) \<longleftrightarrow>
    \<not> (ru_Operator ru = Gt \<and> ParseInt (hd (ru_Values ru)) = Some MaxInt64) \<and>
    \<not> (ru_Operator ru = Lt \<and> ParseInt (hd (ru_Values ru)) = Some MinInt64)"
proof -
  define op where "op = ru_Operator ru"
  define vs where "vs = ru_Values ru"
  have ok: "RuleOperator_Valid op" "vs \<noteq> []" "list_all (Readable op) vs"
    using validateRuleInput_ok [OF buildRule_input(1) [OF assms]] buildRule_input(2) [OF assms]
    by (simp_all add: op_def vs_def)
  have matched: "(\<exists>attributes lsts. matchRule ru attributes lsts) \<longleftrightarrow> (\<exists>v present xs. Match op vs v present xs)"
  proof
    assume "\<exists>attributes lsts. matchRule ru attributes lsts"
    then show "\<exists>v present xs. Match op vs v present xs"
      unfolding matchRule_def op_def vs_def Let_def case_prod_beta by blast
  next
    assume "\<exists>v present xs. Match op vs v present xs"
    then obtain v present xs where m: "Match op vs v present xs" by blast
    show "\<exists>attributes lsts. matchRule ru attributes lsts"
    proof (cases present)
      case True
      with m have "matchRule ru (\<lambda>_. Some v) (\<lambda>_. xs)" by (simp add: matchRule_def op_def vs_def)
      then show ?thesis by blast
    next
      case False
      with m have "op = AnyIn" "Match op vs [] False xs"
        unfolding Match_def by (auto simp: ReadsAList_def split: if_splits)
      then have "matchRule ru (\<lambda>_. None) (\<lambda>_. xs)" by (simp add: matchRule_def op_def vs_def)
      then show ?thesis by blast
    qed
  qed
  show ?thesis
  proof (cases "Numeric op")
    case True
    then obtain n where n: "ParseInt (vs ! 0) = Some n"
      using ok(2,3) by (cases vs) (auto simp: Readable_def split: if_splits)
    then show ?thesis
      using ok(2) Compare_reachable [OF ParseInt_range [OF n] True] Match_number_iff [OF True n ok(2,3)]
      by (simp add: matched op_def [symmetric] vs_def [symmetric] hd_conv_nth)
  next
    case False
    then have "op \<in> {Eq, Ne, In, Nin, AnyIn}"
      using ok(1) by (auto simp: RuleOperator_Valid_def Numeric_def Operators_def)
    then have "\<exists>v present xs. Match op vs v present xs"
      using Match_string [OF ok(2,3)] fresh_string [of vs] by blast
    with False show ?thesis by (simp add: matched op_def Numeric_def)
  qed
qed

definition big_spender :: rule_input where
  "big_spender = \<lparr> ri_RuleType = ''context'', ri_Attribute = ''spent'', ri_Operator = ''gt'',
    ri_Values = [''9223372036854775807''] \<rparr>"

theorem accepted_rule_can_match_witness:
  "\<exists>ru. buildRule ''prule_1'' ''promo_1'' big_spender = Inr ru \<and> (\<nexists>attributes lsts. matchRule ru attributes lsts)"
proof -
  have accepted: "(case buildRule ''prule_1'' ''promo_1'' big_spender of Inl e \<Rightarrow> False | Inr ru \<Rightarrow>
      ru_Operator ru = Gt \<and> ParseInt (hd (ru_Values ru)) = Some MaxInt64)"
    by code_simp
  then obtain ru where ru: "buildRule ''prule_1'' ''promo_1'' big_spender = Inr ru" "ru_Operator ru = Gt"
      "ParseInt (hd (ru_Values ru)) = Some MaxInt64"
    by (auto split: sum.splits)
  have "\<nexists>attributes lsts. matchRule ru attributes lsts"
    using accepted_rule_can_match [OF ru(1)] ru(2,3) by simp
  with ru(1) show ?thesis by blast
qed

end
