(* ===== verification/PromoWrites.thy ===== *)
theory PromoWrites
  imports PromoAdmin
begin

text \<open>
  The writes of the administration: the statements of \<^verbatim>\<open>queries/\<close> with the constraints of the tables,
  the repository operations over them (\<^verbatim>\<open>repository/\<close>), and the service operations that read back
  why a conditional write touched no row (\<^verbatim>\<open>service/status.go\<close>, \<^verbatim>\<open>promotion_campaign.go\<close>,
  \<^verbatim>\<open>campaign_revise.go\<close>, \<^verbatim>\<open>discount_revise.go\<close>, \<^verbatim>\<open>coupon.go\<close>).

  PostgreSQL checks the constraints of a row before the unique indexes, and the foreign keys last.
  A row is never deleted, only marked, so a foreign key that held goes on holding. The times
  of a campaign are written, and compared with those a caller read, as \<open>column_time\<close> makes them; a
  bookkeeping time is no part of a row here. Ids are an argument where the code draws a new one.
\<close>

section \<open>Statements\<close>

definition campaign_exists :: "promo_db \<Rightarrow> string option \<Rightarrow> bool" where
  "campaign_exists db cid =
    (case cid of None \<Rightarrow> True | Some c \<Rightarrow> list_ex (\<lambda>r. cp_ID (cw_campaign r) = c) (t_campaign db))"

definition q_InsertPromotion :: "faults \<Rightarrow> promotion \<Rightarrow> promo_db \<Rightarrow> pg_error + promotion \<times> promo_db" where
  "q_InsertPromotion flt p db =
    statement flt ''InsertPromotion''
      (let row = p\<lparr> pr_UsageCount := 0 \<rparr> in
       if \<not> promotion_checks row then Inl (violates sqlstateCheckViolation)
       else if list_ex (\<lambda>r. pr_ID (pw_promo r) = pr_ID p \<or>
           \<not> pw_deleted r \<and> pr_Code (pw_promo r) = pr_Code p) (t_promotion db)
       then Inl (violates sqlstateUniqueViolation)
       else if \<not> campaign_exists db (pr_CampaignID p) then Inl (violates sqlstateForeignKeyViolation)
       else Inr (row, db\<lparr> t_promotion := t_promotion db @ [\<lparr> pw_promo = row, pw_deleted = False \<rparr>] \<rparr>))"

definition q_GetPromotion :: "faults \<Rightarrow> string \<Rightarrow> promo_db \<Rightarrow> pg_error + promotion" where
  "q_GetPromotion flt eid db = statement flt ''GetPromotion'' (found (live_promotion db eid))"

definition q_UpdatePromotion :: "faults \<Rightarrow> promotion \<Rightarrow> promo_db \<Rightarrow> pg_error + promotion \<times> promo_db" where
  "q_UpdatePromotion flt p db =
    statement flt ''UpdatePromotion''
      (case live_promotion db (pr_ID p) of
        None \<Rightarrow> Inl PgNoRows
      | Some old \<Rightarrow>
          (let row = p\<lparr> pr_UsageCount := pr_UsageCount old \<rparr> in
           if \<not> promotion_checks row then Inl (violates sqlstateCheckViolation)
           else if list_ex (\<lambda>r. pr_ID (pw_promo r) \<noteq> pr_ID p \<and> \<not> pw_deleted r \<and>
               pr_Code (pw_promo r) = pr_Code p) (t_promotion db)
           then Inl (violates sqlstateUniqueViolation)
           else if \<not> campaign_exists db (pr_CampaignID p) then Inl (violates sqlstateForeignKeyViolation)
           else Inr (row, set_promotion (pr_ID p) (\<lambda>_. row) db)))"

definition q_SoftDeletePromotion :: "faults \<Rightarrow> string \<Rightarrow> promo_db \<Rightarrow> pg_error + promo_db" where
  "q_SoftDeletePromotion flt eid db =
    statement flt ''SoftDeletePromotion''
      (case live_promotion db eid of
        None \<Rightarrow> Inl PgNoRows
      | Some _ \<Rightarrow> Inr (db\<lparr> t_promotion :=
          map (\<lambda>r. if pr_ID (pw_promo r) = eid then r\<lparr> pw_deleted := True \<rparr> else r) (t_promotion db) \<rparr>))"

definition q_SwitchPromotionStatus ::
    "faults \<Rightarrow> string \<Rightarrow> string \<Rightarrow> string \<Rightarrow> promo_db \<Rightarrow> pg_error + promotion \<times> promo_db" where
  "q_SwitchPromotionStatus flt eid fromStatus toStatus db =
    statement flt ''SwitchPromotionStatus''
      (case live_promotion db eid of
        None \<Rightarrow> Inl PgNoRows
      | Some p \<Rightarrow>
          if pr_Status p \<noteq> fromStatus then Inl PgNoRows
          else
            (let row = p\<lparr> pr_Status := toStatus \<rparr> in
             if \<not> promotion_checks row then Inl (violates sqlstateCheckViolation)
             else Inr (row, set_promotion eid (\<lambda>_. row) db)))"

definition q_SetPromotionCampaign ::
    "faults \<Rightarrow> string \<Rightarrow> string option \<Rightarrow> string option \<Rightarrow> promo_db \<Rightarrow> pg_error + promotion \<times> promo_db" where
  "q_SetPromotionCampaign flt eid fromCampaign toCampaign db =
    statement flt ''SetPromotionCampaign''
      (case live_promotion db eid of
        None \<Rightarrow> Inl PgNoRows
      | Some p \<Rightarrow>
          if pr_CampaignID p \<noteq> fromCampaign then Inl PgNoRows
          else if (case toCampaign of None \<Rightarrow> False | Some c \<Rightarrow> live_campaign db c = None) then Inl PgNoRows
          else
            (let row = p\<lparr> pr_CampaignID := toCampaign \<rparr> in
             Inr (row, set_promotion eid (\<lambda>_. row) db)))"

definition q_InsertCampaign :: "faults \<Rightarrow> campaign \<Rightarrow> promo_db \<Rightarrow> pg_error + campaign \<times> promo_db" where
  "q_InsertCampaign flt c db =
    statement flt ''InsertCampaign''
      (let row = campaign_columns c\<lparr> cp_BudgetUsed := 0 \<rparr> in
       if \<not> campaign_checks row then Inl (violates sqlstateCheckViolation)
       else if list_ex (\<lambda>r. cp_ID (cw_campaign r) = cp_ID c \<or>
           \<not> cw_deleted r \<and> cp_Identifier (cw_campaign r) = cp_Identifier c) (t_campaign db)
       then Inl (violates sqlstateUniqueViolation)
       else Inr (row, db\<lparr> t_campaign := t_campaign db @ [\<lparr> cw_campaign = row, cw_deleted = False \<rparr>] \<rparr>))"

definition q_GetCampaign :: "faults \<Rightarrow> string \<Rightarrow> promo_db \<Rightarrow> pg_error + campaign" where
  "q_GetCampaign flt eid db = statement flt ''GetCampaign'' (found (live_campaign db eid))"

definition q_UpdateCampaign :: "faults \<Rightarrow> campaign \<Rightarrow> promo_db \<Rightarrow> pg_error + campaign \<times> promo_db" where
  "q_UpdateCampaign flt c db =
    statement flt ''UpdateCampaign''
      (case live_campaign db (cp_ID c) of
        None \<Rightarrow> Inl PgNoRows
      | Some old \<Rightarrow>
          if \<not> (cp_BudgetUsed old = 0 \<or> cp_BudgetType old = cp_BudgetType c \<and>
              cp_BudgetCurrencyCode old = cp_BudgetCurrencyCode c) then Inl PgNoRows
          else
            (let row = campaign_columns c\<lparr> cp_BudgetUsed := cp_BudgetUsed old \<rparr> in
             if \<not> campaign_checks row then Inl (violates sqlstateCheckViolation)
             else if list_ex (\<lambda>r. cp_ID (cw_campaign r) \<noteq> cp_ID c \<and> \<not> cw_deleted r \<and>
                 cp_Identifier (cw_campaign r) = cp_Identifier c) (t_campaign db)
             then Inl (violates sqlstateUniqueViolation)
             else Inr (row, set_campaign (cp_ID c) (\<lambda>_. row) db)))"

record campaign_terms =
  ct_Name :: string
  ct_Description :: string
  ct_StartsAt :: "time option"
  ct_EndsAt :: "time option"
  ct_BudgetLimit :: "int64 option"

definition Terms :: "campaign \<Rightarrow> campaign_terms" where
  "Terms c = \<lparr> ct_Name = cp_Name c, ct_Description = cp_Description c, ct_StartsAt = cp_StartsAt c,
    ct_EndsAt = cp_EndsAt c, ct_BudgetLimit = cp_BudgetLimit c \<rparr>"

definition Terms_Same :: "campaign_terms \<Rightarrow> campaign_terms \<Rightarrow> bool" where
  "Terms_Same t u \<longleftrightarrow> ct_Name t = ct_Name u \<and> ct_Description t = ct_Description u \<and>
    ct_StartsAt t = ct_StartsAt u \<and> ct_EndsAt t = ct_EndsAt u \<and> ct_BudgetLimit t = ct_BudgetLimit u"

definition q_ReviseCampaign ::
    "faults \<Rightarrow> string \<Rightarrow> campaign_terms \<Rightarrow> campaign_terms \<Rightarrow> promo_db \<Rightarrow> pg_error + campaign \<times> promo_db" where
  "q_ReviseCampaign flt eid readTerms nextTerms db =
    statement flt ''ReviseCampaign''
      (case live_campaign db eid of
        None \<Rightarrow> Inl PgNoRows
      | Some c \<Rightarrow>
          if \<not> (cp_Name c = ct_Name readTerms \<and> cp_Description c = ct_Description readTerms \<and>
              cp_StartsAt c = map_option column_time (ct_StartsAt readTerms) \<and>
              cp_EndsAt c = map_option column_time (ct_EndsAt readTerms) \<and>
              cp_BudgetLimit c = ct_BudgetLimit readTerms \<and>
              (cp_BudgetType c = ''none'') = (ct_BudgetLimit nextTerms = None)) then Inl PgNoRows
          else
            (let row = c\<lparr> cp_Name := ct_Name nextTerms, cp_Description := ct_Description nextTerms,
                 cp_StartsAt := map_option column_time (ct_StartsAt nextTerms),
                 cp_EndsAt := map_option column_time (ct_EndsAt nextTerms),
                 cp_BudgetLimit := ct_BudgetLimit nextTerms \<rparr> in
             if \<not> campaign_checks row then Inl (violates sqlstateCheckViolation)
             else Inr (row, set_campaign eid (\<lambda>_. row) db)))"

definition q_SoftDeleteCampaign :: "faults \<Rightarrow> string \<Rightarrow> promo_db \<Rightarrow> pg_error + promo_db" where
  "q_SoftDeleteCampaign flt eid db =
    statement flt ''SoftDeleteCampaign''
      (case live_campaign db eid of
        None \<Rightarrow> Inl PgNoRows
      | Some _ \<Rightarrow> Inr (db\<lparr> t_campaign :=
          map (\<lambda>r. if cp_ID (cw_campaign r) = eid then r\<lparr> cw_deleted := True \<rparr> else r) (t_campaign db) \<rparr>))"

definition live_method :: "promo_db \<Rightarrow> string \<Rightarrow> application_method option" where
  "live_method db pid =
    map_option mw_method (find (\<lambda>r. me_PromotionID (mw_method r) = pid \<and> \<not> mw_deleted r) (t_method db))"

definition set_method :: "string \<Rightarrow> (application_method \<Rightarrow> application_method) \<Rightarrow> promo_db \<Rightarrow> promo_db" where
  "set_method pid f db = db\<lparr> t_method :=
    map (\<lambda>r. if me_PromotionID (mw_method r) = pid \<and> \<not> mw_deleted r
      then r\<lparr> mw_method := f (mw_method r) \<rparr> else r) (t_method db) \<rparr>"

definition q_UpsertApplicationMethod ::
    "faults \<Rightarrow> application_method \<Rightarrow> promo_db \<Rightarrow> pg_error + application_method \<times> promo_db" where
  "q_UpsertApplicationMethod flt m db =
    statement flt ''UpsertApplicationMethod''
      (if \<not> method_checks m then Inl (violates sqlstateCheckViolation)
       else
         (case live_method db (me_PromotionID m) of
           Some old \<Rightarrow>
             (let row = m\<lparr> me_ID := me_ID old \<rparr> in Inr (row, set_method (me_PromotionID m) (\<lambda>_. row) db))
         | None \<Rightarrow>
             if list_ex (\<lambda>r. me_ID (mw_method r) = me_ID m) (t_method db)
             then Inl (violates sqlstateUniqueViolation)
             else if \<not> list_ex (\<lambda>r. pr_ID (pw_promo r) = me_PromotionID m) (t_promotion db)
             then Inl (violates sqlstateForeignKeyViolation)
             else Inr (m, db\<lparr> t_method := t_method db @ [\<lparr> mw_method = m, mw_deleted = False \<rparr>] \<rparr>)))"

definition q_GetApplicationMethod :: "faults \<Rightarrow> string \<Rightarrow> promo_db \<Rightarrow> pg_error + application_method" where
  "q_GetApplicationMethod flt pid db = statement flt ''GetApplicationMethod'' (found (live_method db pid))"

definition q_ReviseMethodValue ::
    "faults \<Rightarrow> string \<Rightarrow> string \<Rightarrow> int64 \<Rightarrow> int64 \<Rightarrow> promo_db \<Rightarrow> pg_error + application_method \<times> promo_db" where
  "q_ReviseMethodValue flt pid readType readValue v db =
    statement flt ''ReviseMethodValue''
      (case live_method db pid of
        None \<Rightarrow> Inl PgNoRows
      | Some m \<Rightarrow>
          if \<not> (me_Type m = readType \<and> me_Value m = readValue) then Inl PgNoRows
          else
            (let row = m\<lparr> me_Value := v \<rparr> in
             if \<not> method_checks row then Inl (violates sqlstateCheckViolation)
             else Inr (row, set_method pid (\<lambda>_. row) db)))"

definition q_SoftDeleteApplicationMethod :: "faults \<Rightarrow> string \<Rightarrow> promo_db \<Rightarrow> pg_error + promo_db" where
  "q_SoftDeleteApplicationMethod flt pid db =
    statement flt ''SoftDeleteApplicationMethod''
      (case live_method db pid of
        None \<Rightarrow> Inl PgNoRows
      | Some _ \<Rightarrow> Inr (db\<lparr> t_method :=
          map (\<lambda>r. if me_PromotionID (mw_method r) = pid then r\<lparr> mw_deleted := True \<rparr> else r) (t_method db) \<rparr>))"

definition q_LockPromotionShared :: "faults \<Rightarrow> string \<Rightarrow> promo_db \<Rightarrow> pg_error + promotion" where
  "q_LockPromotionShared flt eid db = statement flt ''LockPromotionShared'' (found (live_promotion db eid))"

definition q_InsertPromotionRule ::
    "faults \<Rightarrow> promotion_rule \<Rightarrow> promo_db \<Rightarrow> pg_error + promotion_rule \<times> promo_db" where
  "q_InsertPromotionRule flt r db =
    statement flt ''InsertPromotionRule''
      (if \<not> rule_checks r then Inl (violates sqlstateCheckViolation)
       else if list_ex (\<lambda>x. ru_ID (rw_rule x) = ru_ID r) (t_rule db) then Inl (violates sqlstateUniqueViolation)
       else if \<not> list_ex (\<lambda>x. pr_ID (pw_promo x) = ru_PromotionID r) (t_promotion db)
       then Inl (violates sqlstateForeignKeyViolation)
       else Inr (r, db\<lparr> t_rule := t_rule db @ [\<lparr> rw_rule = r, rw_deleted = False \<rparr>] \<rparr>))"

definition live_rule :: "promo_db \<Rightarrow> string \<Rightarrow> promotion_rule option" where
  "live_rule db eid = map_option rw_rule (find (\<lambda>r. ru_ID (rw_rule r) = eid \<and> \<not> rw_deleted r) (t_rule db))"

definition q_SoftDeletePromotionRule :: "faults \<Rightarrow> string \<Rightarrow> promo_db \<Rightarrow> pg_error + promo_db" where
  "q_SoftDeletePromotionRule flt eid db =
    statement flt ''SoftDeletePromotionRule''
      (case live_rule db eid of
        None \<Rightarrow> Inl PgNoRows
      | Some _ \<Rightarrow> Inr (db\<lparr> t_rule :=
          map (\<lambda>r. if ru_ID (rw_rule r) = eid then r\<lparr> rw_deleted := True \<rparr> else r) (t_rule db) \<rparr>))"

section \<open>Repository operations\<close>

text \<open>A single statement: a failed one wrote nothing.\<close>

definition single :: "(pg_error \<Rightarrow> error) \<Rightarrow> promo_db \<Rightarrow> pg_error + 'a \<times> promo_db \<Rightarrow> (error + 'a) \<times> promo_db" where
  "single err db r = (case r of Inl e \<Rightarrow> (Inl (err e), db) | Inr (a, db') \<Rightarrow> (Inr a, db'))"

definition single_unit :: "(pg_error \<Rightarrow> error) \<Rightarrow> promo_db \<Rightarrow> pg_error + promo_db \<Rightarrow> (error + unit) \<times> promo_db" where
  "single_unit err db r = (case r of Inl e \<Rightarrow> (Inl (err e), db) | Inr db' \<Rightarrow> (Inr (), db'))"

text \<open>A conditional write that touched no row is an answer of its own.\<close>

definition conditional :: "promo_db \<Rightarrow> pg_error + 'a \<times> promo_db \<Rightarrow> (error + 'a option) \<times> promo_db" where
  "conditional db r =
    (case r of
      Inl e \<Rightarrow> (if e = PgNoRows then (Inr None, db) else (Inl (wrapDB e), db))
    | Inr (a, db') \<Rightarrow> (Inr (Some a), db'))"

definition orDuplicate :: "pg_error \<Rightarrow> error" where
  "orDuplicate e = (if e = violates sqlstateUniqueViolation then Conflict CodeDuplicate else wrapDB e)"

definition repo_CreatePromotion :: "faults \<Rightarrow> promotion \<Rightarrow> promo_db \<Rightarrow> (error + promotion) \<times> promo_db" where
  "repo_CreatePromotion flt p db = single wrapDB db (q_InsertPromotion flt p db)"

definition repo_GetPromotion :: "faults \<Rightarrow> string \<Rightarrow> promo_db \<Rightarrow> error + promotion" where
  "repo_GetPromotion flt eid db =
    (case q_GetPromotion flt eid db of Inl e \<Rightarrow> Inl (notFoundOr e CodePromotionNotFound) | Inr p \<Rightarrow> Inr p)"

definition repo_UpdatePromotion :: "faults \<Rightarrow> promotion \<Rightarrow> promo_db \<Rightarrow> (error + promotion) \<times> promo_db" where
  "repo_UpdatePromotion flt p db =
    single (\<lambda>e. notFoundOr e CodePromotionNotFound) db (q_UpdatePromotion flt p db)"

definition repo_DeletePromotion :: "faults \<Rightarrow> string \<Rightarrow> promo_db \<Rightarrow> (error + unit) \<times> promo_db" where
  "repo_DeletePromotion flt eid db =
    single_unit (\<lambda>e. notFoundOr e CodePromotionNotFound) db (q_SoftDeletePromotion flt eid db)"

definition repo_SwitchPromotionStatus ::
    "faults \<Rightarrow> string \<Rightarrow> string \<Rightarrow> string \<Rightarrow> promo_db \<Rightarrow> (error + promotion option) \<times> promo_db" where
  "repo_SwitchPromotionStatus flt eid fromStatus toStatus db =
    conditional db (q_SwitchPromotionStatus flt eid fromStatus toStatus db)"

definition repo_SetPromotionCampaign ::
    "faults \<Rightarrow> string \<Rightarrow> string option \<Rightarrow> string option \<Rightarrow> promo_db \<Rightarrow> (error + promotion option) \<times> promo_db" where
  "repo_SetPromotionCampaign flt eid fromCampaign toCampaign db =
    conditional db (q_SetPromotionCampaign flt eid fromCampaign toCampaign db)"

definition repo_CreateCampaign :: "faults \<Rightarrow> campaign \<Rightarrow> promo_db \<Rightarrow> (error + campaign) \<times> promo_db" where
  "repo_CreateCampaign flt c db = single orDuplicate db (q_InsertCampaign flt c db)"

definition repo_GetCampaign :: "faults \<Rightarrow> string \<Rightarrow> promo_db \<Rightarrow> error + campaign" where
  "repo_GetCampaign flt eid db =
    (case q_GetCampaign flt eid db of Inl e \<Rightarrow> Inl (notFoundOr e CodeCampaignNotFound) | Inr c \<Rightarrow> Inr c)"

text \<open>
  The reads that explain a refused write run after it, on the tables as they are by then; these are
  the argument \<open>later\<close>.
\<close>

definition campaignUpdateRejected :: "faults \<Rightarrow> string \<Rightarrow> promo_db \<Rightarrow> error" where
  "campaignUpdateRejected flt eid later =
    (case repo_GetCampaign flt eid later of Inl e \<Rightarrow> e | Inr _ \<Rightarrow> Conflict CodeBudgetUnitLocked)"

definition repo_UpdateCampaign ::
    "faults \<Rightarrow> campaign \<Rightarrow> promo_db \<Rightarrow> promo_db \<Rightarrow> (error + campaign) \<times> promo_db" where
  "repo_UpdateCampaign flt c later db =
    single (\<lambda>e. if e = PgNoRows then campaignUpdateRejected flt (cp_ID c) later else wrapDB e) db
      (q_UpdateCampaign flt c db)"

definition repo_ReviseCampaign ::
    "faults \<Rightarrow> string \<Rightarrow> campaign_terms \<Rightarrow> campaign_terms \<Rightarrow> promo_db \<Rightarrow> (error + campaign option) \<times> promo_db" where
  "repo_ReviseCampaign flt eid readTerms nextTerms db =
    conditional db (q_ReviseCampaign flt eid readTerms nextTerms db)"

definition repo_DeleteCampaign :: "faults \<Rightarrow> string \<Rightarrow> promo_db \<Rightarrow> (error + unit) \<times> promo_db" where
  "repo_DeleteCampaign flt eid db =
    single_unit (\<lambda>e. notFoundOr e CodeCampaignNotFound) db (q_SoftDeleteCampaign flt eid db)"

definition requireLivePromotion :: "faults \<Rightarrow> string \<Rightarrow> promo_db \<Rightarrow> error option" where
  "requireLivePromotion flt pid db =
    (case q_LockPromotionShared flt pid db of
      Inl e \<Rightarrow> Some (notFoundOr e CodePromotionNotFound) | Inr _ \<Rightarrow> None)"

definition repo_SetApplicationMethod ::
    "faults \<Rightarrow> application_method \<Rightarrow> promo_db \<Rightarrow> (error + application_method) \<times> promo_db" where
  "repo_SetApplicationMethod flt m = inTx flt (\<lambda>db.
    (case requireLivePromotion flt (me_PromotionID m) db of
      Some e \<Rightarrow> (Inl e, db)
    | None \<Rightarrow> single wrapDB db (q_UpsertApplicationMethod flt m db)))"

definition repo_GetApplicationMethod :: "faults \<Rightarrow> string \<Rightarrow> promo_db \<Rightarrow> error + application_method" where
  "repo_GetApplicationMethod flt pid db =
    (case q_GetApplicationMethod flt pid db of
      Inl e \<Rightarrow> Inl (notFoundOr e CodeApplicationMethodNotFound) | Inr m \<Rightarrow> Inr m)"

definition repo_ReviseMethodValue ::
    "faults \<Rightarrow> string \<Rightarrow> string \<Rightarrow> int64 \<Rightarrow> int64 \<Rightarrow> promo_db \<Rightarrow> (error + application_method option) \<times> promo_db" where
  "repo_ReviseMethodValue flt pid readType readValue v db =
    conditional db (q_ReviseMethodValue flt pid readType readValue v db)"

definition repo_DeleteApplicationMethod :: "faults \<Rightarrow> string \<Rightarrow> promo_db \<Rightarrow> (error + unit) \<times> promo_db" where
  "repo_DeleteApplicationMethod flt pid db =
    single_unit (\<lambda>e. notFoundOr e CodeApplicationMethodNotFound) db (q_SoftDeleteApplicationMethod flt pid db)"

definition repo_CreatePromotionRule ::
    "faults \<Rightarrow> promotion_rule \<Rightarrow> promo_db \<Rightarrow> (error + promotion_rule) \<times> promo_db" where
  "repo_CreatePromotionRule flt r = inTx flt (\<lambda>db.
    (case requireLivePromotion flt (ru_PromotionID r) db of
      Some e \<Rightarrow> (Inl e, db)
    | None \<Rightarrow> single wrapDB db (q_InsertPromotionRule flt r db)))"

definition repo_DeletePromotionRule :: "faults \<Rightarrow> string \<Rightarrow> promo_db \<Rightarrow> (error + unit) \<times> promo_db" where
  "repo_DeletePromotionRule flt eid db =
    single_unit (\<lambda>e. notFoundOr e CodePromotionRuleNotFound) db (q_SoftDeletePromotionRule flt eid db)"

definition repo_CreatePromotionWithMethod ::
    "faults \<Rightarrow> promotion \<Rightarrow> application_method \<Rightarrow> promo_db \<Rightarrow> (error + promotion) \<times> promo_db" where
  "repo_CreatePromotionWithMethod flt p m = inTx flt (\<lambda>db.
    (case q_InsertPromotion flt p db of
      Inl e \<Rightarrow> (Inl (orDuplicate e), db)
    | Inr (row, db1) \<Rightarrow>
        (case q_UpsertApplicationMethod flt (m\<lparr> me_PromotionID := pr_ID row \<rparr>) db1 of
          Inl e \<Rightarrow> (Inl (wrapDB e), db1)
        | Inr (_, db2) \<Rightarrow> (Inr row, db2))))"

section \<open>Service operations\<close>

definition CodeStatusMoved :: string where "CodeStatusMoved = ''promotion_status_moved''"
definition CodeCampaignMoved :: string where "CodeCampaignMoved = ''promotion_campaign_moved''"
definition CodeCampaignGone :: string where "CodeCampaignGone = ''promotion_campaign_gone''"
definition CodeCampaignRevised :: string where "CodeCampaignRevised = ''promotion_campaign_revised''"
definition CodeDiscountRevised :: string where "CodeDiscountRevised = ''promotion_discount_revised''"

text \<open>The message of \<open>CodeCampaignGone\<close> reads \<open>*to\<close>; with \<open>to\<close> nil that is a panic.\<close>

definition nil_dereference :: error where
  "nil_dereference = Sentinel ''panic: invalid memory address or nil pointer dereference''"

definition CreatePromotion ::
    "faults \<Rightarrow> string \<Rightarrow> promotion_draft \<Rightarrow> promo_db \<Rightarrow> (error + promotion) \<times> promo_db" where
  "CreatePromotion flt eid d db =
    (case buildPromotion eid d of Inl e \<Rightarrow> (Inl e, db) | Inr p \<Rightarrow> repo_CreatePromotion flt p db)"

definition GetPromotion :: "faults \<Rightarrow> string \<Rightarrow> promo_db \<Rightarrow> error + promotion" where
  "GetPromotion flt eid db =
    (case requireID eid PromotionIDPrefix of Some e \<Rightarrow> Inl e | None \<Rightarrow> repo_GetPromotion flt eid db)"

definition UpdatePromotion ::
    "faults \<Rightarrow> string \<Rightarrow> promotion_draft \<Rightarrow> promo_db \<Rightarrow> (error + promotion) \<times> promo_db" where
  "UpdatePromotion flt eid d db =
    (case requireID eid PromotionIDPrefix of
      Some e \<Rightarrow> (Inl e, db)
    | None \<Rightarrow>
        (case buildPromotion eid d of Inl e \<Rightarrow> (Inl e, db) | Inr p \<Rightarrow> repo_UpdatePromotion flt p db))"

definition DeletePromotion :: "faults \<Rightarrow> string \<Rightarrow> promo_db \<Rightarrow> (error + unit) \<times> promo_db" where
  "DeletePromotion flt eid db =
    (case requireID eid PromotionIDPrefix of Some e \<Rightarrow> (Inl e, db) | None \<Rightarrow> repo_DeletePromotion flt eid db)"

definition SwitchPromotionStatus ::
    "faults \<Rightarrow> string \<Rightarrow> string \<Rightarrow> string \<Rightarrow> promo_db \<Rightarrow> promo_db \<Rightarrow> (error + promotion) \<times> promo_db" where
  "SwitchPromotionStatus flt eid fromStatus toStatus later db =
    (case requireID eid PromotionIDPrefix of
      Some e \<Rightarrow> (Inl e, db)
    | None \<Rightarrow>
        if \<not> PromotionStatus_Valid fromStatus \<or> \<not> PromotionStatus_Valid toStatus
        then (Inl (Invalid CodeInvalidInput), db)
        else if fromStatus = toStatus then (Inl (Invalid CodeInvalidInput), db)
        else
          (case repo_SwitchPromotionStatus flt eid fromStatus toStatus db of
            (Inl e, db') \<Rightarrow> (Inl e, db')
          | (Inr (Some p), db') \<Rightarrow> (Inr p, db')
          | (Inr None, db') \<Rightarrow>
              (case GetPromotion flt eid later of
                Inl e \<Rightarrow> (Inl e, db')
              | Inr _ \<Rightarrow> (Inl (Conflict CodeStatusMoved), db'))))"

definition SetPromotionCampaign ::
    "faults \<Rightarrow> string \<Rightarrow> string option \<Rightarrow> string option \<Rightarrow> promo_db \<Rightarrow> promo_db \<Rightarrow> (error + promotion) \<times> promo_db" where
  "SetPromotionCampaign flt eid fromCampaign toCampaign later db =
    (case requireID eid PromotionIDPrefix of
      Some e \<Rightarrow> (Inl e, db)
    | None \<Rightarrow>
        (case check_all (\<lambda>c. case c of None \<Rightarrow> None | Some cid \<Rightarrow> requireID cid CampaignIDPrefix)
            [fromCampaign, toCampaign] of
          Some e \<Rightarrow> (Inl e, db)
        | None \<Rightarrow>
            if fromCampaign = toCampaign then (Inl (Invalid CodeInvalidInput), db)
            else
              (case repo_SetPromotionCampaign flt eid fromCampaign toCampaign db of
                (Inl e, db') \<Rightarrow> (Inl e, db')
              | (Inr (Some p), db') \<Rightarrow> (Inr p, db')
              | (Inr None, db') \<Rightarrow>
                  (case GetPromotion flt eid later of
                    Inl e \<Rightarrow> (Inl e, db')
                  | Inr current \<Rightarrow>
                      if pr_CampaignID current \<noteq> fromCampaign then (Inl (Conflict CodeCampaignMoved), db')
                      else
                        (case toCampaign of
                          None \<Rightarrow> (Inl nil_dereference, db')
                        | Some _ \<Rightarrow> (Inl (NotFound CodeCampaignGone), db'))))))"

definition CreateCampaign ::
    "faults \<Rightarrow> string \<Rightarrow> campaign_draft \<Rightarrow> promo_db \<Rightarrow> (error + campaign) \<times> promo_db" where
  "CreateCampaign flt eid d db =
    (case buildCampaign eid d of Inl e \<Rightarrow> (Inl e, db) | Inr c \<Rightarrow> repo_CreateCampaign flt c db)"

definition UpdateCampaign ::
    "faults \<Rightarrow> string \<Rightarrow> campaign_draft \<Rightarrow> promo_db \<Rightarrow> promo_db \<Rightarrow> (error + campaign) \<times> promo_db" where
  "UpdateCampaign flt eid d later db =
    (case requireID eid CampaignIDPrefix of
      Some e \<Rightarrow> (Inl e, db)
    | None \<Rightarrow>
        (case buildCampaign eid d of
          Inl e \<Rightarrow> (Inl e, db) | Inr c \<Rightarrow> repo_UpdateCampaign flt c later db))"

definition DeleteCampaign :: "faults \<Rightarrow> string \<Rightarrow> promo_db \<Rightarrow> (error + unit) \<times> promo_db" where
  "DeleteCampaign flt eid db =
    (case requireID eid CampaignIDPrefix of Some e \<Rightarrow> (Inl e, db) | None \<Rightarrow> repo_DeleteCampaign flt eid db)"

definition ReviseCampaign ::
    "faults \<Rightarrow> string \<Rightarrow> campaign_terms \<Rightarrow> campaign_terms \<Rightarrow> promo_db \<Rightarrow> promo_db \<Rightarrow> (error + campaign) \<times> promo_db" where
  "ReviseCampaign flt eid readTerms nextTerms later db =
    (case requireID eid CampaignIDPrefix of
      Some e \<Rightarrow> (Inl e, db)
    | None \<Rightarrow>
        (let t = nextTerms\<lparr> ct_Name := strings_TrimSpace (ct_Name nextTerms),
                            ct_Description := strings_TrimSpace (ct_Description nextTerms) \<rparr> in
         case check_all (\<lambda>e. e)
            [validateText (ct_Name t) 1 MaxNameLen, validateText (ct_Description t) 0 MaxDescriptionLen,
             checkCampaignWindow (ct_StartsAt t) (ct_EndsAt t),
             (case ct_BudgetLimit t of None \<Rightarrow> None | Some l \<Rightarrow> checkBudgetLimit l)] of
           Some e \<Rightarrow> (Inl e, db)
         | None \<Rightarrow>
             (case repo_ReviseCampaign flt eid readTerms t db of
               (Inl e, db') \<Rightarrow> (Inl e, db')
             | (Inr (Some c), db') \<Rightarrow> (Inr c, db')
             | (Inr None, db') \<Rightarrow>
                 (case repo_GetCampaign flt eid later of
                   Inl e \<Rightarrow> (Inl e, db')
                 | Inr current \<Rightarrow>
                     if Terms_Same (Terms current) readTerms then (Inl (Invalid CodeInvalidInput), db')
                     else (Inl (Conflict CodeCampaignRevised), db')))))"

definition SetApplicationMethod ::
    "faults \<Rightarrow> string \<Rightarrow> string \<Rightarrow> method_draft \<Rightarrow> promo_db \<Rightarrow> (error + application_method) \<times> promo_db" where
  "SetApplicationMethod flt eid pid d db =
    (case requireID pid PromotionIDPrefix of
      Some e \<Rightarrow> (Inl e, db)
    | None \<Rightarrow>
        (case buildApplicationMethod eid pid d of
          Inl e \<Rightarrow> (Inl e, db) | Inr m \<Rightarrow> repo_SetApplicationMethod flt m db))"

definition ReviseDiscountValue ::
    "faults \<Rightarrow> string \<Rightarrow> string \<Rightarrow> int64 \<Rightarrow> int64 \<Rightarrow> promo_db \<Rightarrow> promo_db \<Rightarrow>
      (error + application_method) \<times> promo_db" where
  "ReviseDiscountValue flt pid readType readValue v later db =
    (case requireID pid PromotionIDPrefix of
      Some e \<Rightarrow> (Inl e, db)
    | None \<Rightarrow>
        (case (if readType = MethodFixed then validateAmount v
               else if readType = MethodPercentage then
                 (if v < 0 \<or> v > BasisPointDenominator then Some (Invalid CodeInvalidInput) else None)
               else Some (Invalid CodeInvalidInput)) of
          Some e \<Rightarrow> (Inl e, db)
        | None \<Rightarrow>
            (case repo_ReviseMethodValue flt pid readType readValue v db of
              (Inl e, db') \<Rightarrow> (Inl e, db')
            | (Inr (Some m), db') \<Rightarrow> (Inr m, db')
            | (Inr None, db') \<Rightarrow>
                (case repo_GetApplicationMethod flt pid later of
                  Inl e \<Rightarrow> (Inl e, db')
                | Inr _ \<Rightarrow> (Inl (Conflict CodeDiscountRevised), db')))))"

definition DeleteApplicationMethod :: "faults \<Rightarrow> string \<Rightarrow> promo_db \<Rightarrow> (error + unit) \<times> promo_db" where
  "DeleteApplicationMethod flt pid db =
    (case requireID pid PromotionIDPrefix of
      Some e \<Rightarrow> (Inl e, db) | None \<Rightarrow> repo_DeleteApplicationMethod flt pid db)"

definition AddPromotionRule ::
    "faults \<Rightarrow> string \<Rightarrow> string \<Rightarrow> rule_input \<Rightarrow> promo_db \<Rightarrow> (error + promotion_rule) \<times> promo_db" where
  "AddPromotionRule flt eid pid r db =
    (case buildRule eid pid r of Inl e \<Rightarrow> (Inl e, db) | Inr ru \<Rightarrow> repo_CreatePromotionRule flt ru db)"

definition PromotionRuleIDPrefix :: string where "PromotionRuleIDPrefix = ''prule_''"

definition DeletePromotionRule :: "faults \<Rightarrow> string \<Rightarrow> promo_db \<Rightarrow> (error + unit) \<times> promo_db" where
  "DeletePromotionRule flt eid db =
    (case requireID eid PromotionRuleIDPrefix of
      Some e \<Rightarrow> (Inl e, db) | None \<Rightarrow> repo_DeletePromotionRule flt eid db)"

definition CreateCoupon ::
    "faults \<Rightarrow> string \<Rightarrow> string \<Rightarrow> string \<Rightarrow> int64 option \<Rightarrow> method_draft \<Rightarrow> promo_db \<Rightarrow> (error + promotion) \<times> promo_db" where
  "CreateCoupon flt pid mid code limit d db =
    (case buildPromotion pid \<lparr> pi_Code = code, pi_IsAutomatic = False, pi_Type = [], pi_CampaignID = None,
        pi_Status = [], pi_UsageLimit = limit \<rparr> of
      Inl e \<Rightarrow> (Inl e, db)
    | Inr p \<Rightarrow>
        (case buildApplicationMethod mid (pr_ID p) d of
          Inl e \<Rightarrow> (Inl e, db)
        | Inr m \<Rightarrow> repo_CreatePromotionWithMethod flt p m db))"

section \<open>Accepted rows\<close>





end
