(* ===== verification/PromoLedger.thy ===== *)
theory PromoLedger
  imports PromoWrites
begin

text \<open>
  The redemption ledger and the counters: the states the promotion tables can reach, and what holds
  in all of them.

  A step is one committed operation of the repository (\<^verbatim>\<open>internal/modules/promotion/repository\<close>),
  with any input and under any faults. The locks make every run of the code such a sequence: the
  transactions of one promotion are serial, and two promotions meet in a campaign's row only, which
  is locked from its read to the end. The invariant says that the counters are exactly what the
  ledger says they are, in the unit the campaign has now.
\<close>

section \<open>Reachable tables\<close>

definition empty_db :: promo_db where
  "empty_db = \<lparr> t_promotion = [], t_campaign = [], t_method = [], t_rule = [], t_redemption = [] \<rparr>"

inductive promo_step :: "promo_db \<Rightarrow> promo_db \<Rightarrow> bool" where
  step_CreatePromotion: "promo_step db (snd (repo_CreatePromotion flt p db))"
| step_UpdatePromotion: "promo_step db (snd (repo_UpdatePromotion flt p db))"
| step_DeletePromotion: "promo_step db (snd (repo_DeletePromotion flt eid db))"
| step_SwitchPromotionStatus: "promo_step db (snd (repo_SwitchPromotionStatus flt eid f t db))"
| step_SetPromotionCampaign: "promo_step db (snd (repo_SetPromotionCampaign flt eid f' t' db))"
| step_CreatePromotionWithMethod: "promo_step db (snd (repo_CreatePromotionWithMethod flt p m db))"
| step_CreateCampaign: "promo_step db (snd (repo_CreateCampaign flt c db))"
| step_UpdateCampaign: "promo_step db (snd (repo_UpdateCampaign flt c later db))"
| step_ReviseCampaign: "promo_step db (snd (repo_ReviseCampaign flt eid u u' db))"
| step_DeleteCampaign: "promo_step db (snd (repo_DeleteCampaign flt eid db))"
| step_SetApplicationMethod: "promo_step db (snd (repo_SetApplicationMethod flt m db))"
| step_ReviseMethodValue: "promo_step db (snd (repo_ReviseMethodValue flt eid f v v' db))"
| step_DeleteApplicationMethod: "promo_step db (snd (repo_DeleteApplicationMethod flt eid db))"
| step_CreatePromotionRule: "promo_step db (snd (repo_CreatePromotionRule flt r db))"
| step_DeletePromotionRule: "promo_step db (snd (repo_DeletePromotionRule flt eid db))"
| step_Redeem: "promo_step db (snd (Redeem flt req now db))"
| step_Release: "promo_step db (snd (Release flt eid ref now db))"

inductive reachable_db :: "promo_db \<Rightarrow> bool" where
  reachable_empty: "reachable_db empty_db"
| reachable_step: "reachable_db db \<Longrightarrow> promo_step db db' \<Longrightarrow> reachable_db db'"

section \<open>The invariant\<close>

abbreviation active :: "redemption \<Rightarrow> bool" where
  "active r \<equiv> rd_ReleasedAt r = None"

definition uses :: "redemption list \<Rightarrow> string \<Rightarrow> int" where
  "uses rs pid = int (length (filter (\<lambda>r. rd_PromotionID r = pid \<and> active r) rs))"

definition spent :: "redemption list \<Rightarrow> string \<Rightarrow> int" where
  "spent rs cid = sum_list (map rd_BudgetDelta (filter (\<lambda>r. rd_CampaignID r = Some cid \<and> active r) rs))"

text \<open>A budget share in the campaign's unit: the whole amount of a redemption in the campaign's
  currency, or one use.\<close>

definition in_unit :: "campaign \<Rightarrow> redemption \<Rightarrow> bool" where
  "in_unit c r \<longleftrightarrow>
    cp_BudgetType c = BudgetSpend \<and> rd_CurrencyCode r = cp_BudgetCurrencyCode c \<and> rd_BudgetDelta r = rd_Amount r \<or>
    cp_BudgetType c = BudgetUsage \<and> rd_BudgetDelta r = 1"

definition promotion_row_ok :: "redemption list \<Rightarrow> promotion_row \<Rightarrow> bool" where
  "promotion_row_ok rs w \<longleftrightarrow> promotion_checks (pw_promo w) \<and>
    pr_UsageCount (pw_promo w) = uses rs (pr_ID (pw_promo w))"

definition campaign_row_ok :: "redemption list \<Rightarrow> campaign_row \<Rightarrow> bool" where
  "campaign_row_ok rs w \<longleftrightarrow> campaign_checks (cw_campaign w) \<and>
    (\<not> cw_deleted w \<longrightarrow>
      cp_BudgetUsed (cw_campaign w) = spent rs (cp_ID (cw_campaign w)) \<and>
      (\<forall>r \<in> set rs. rd_CampaignID r = Some (cp_ID (cw_campaign w)) \<and> active r \<and> rd_BudgetDelta r \<noteq> 0 \<longrightarrow>
        in_unit (cw_campaign w) r))"

definition promotion_ids :: "promo_db \<Rightarrow> string list" where
  "promotion_ids db = map (\<lambda>w. pr_ID (pw_promo w)) (t_promotion db)"

definition campaign_ids :: "promo_db \<Rightarrow> string list" where
  "campaign_ids db = map (\<lambda>w. cp_ID (cw_campaign w)) (t_campaign db)"

definition redemption_row_ok :: "string list \<Rightarrow> string list \<Rightarrow> redemption \<Rightarrow> bool" where
  "redemption_row_ok ps cs r \<longleftrightarrow> redemption_checks r \<and> rd_PromotionID r \<in> set ps \<and>
    (case rd_CampaignID r of None \<Rightarrow> rd_BudgetDelta r = 0 | Some cid \<Rightarrow> cid \<in> set cs)"

definition active_keys :: "redemption list \<Rightarrow> (string \<times> string) list" where
  "active_keys rs = map (\<lambda>r. (rd_PromotionID r, rd_Reference r)) (filter (\<lambda>r. active r) rs)"

definition ledger_ok :: "promo_db \<Rightarrow> bool" where
  "ledger_ok db \<longleftrightarrow>
    distinct (promotion_ids db) \<and> distinct (campaign_ids db) \<and> distinct (map rd_ID (t_redemption db)) \<and>
    (\<forall>w \<in> set (t_promotion db). promotion_row_ok (t_redemption db) w) \<and>
    (\<forall>w \<in> set (t_campaign db). campaign_row_ok (t_redemption db) w) \<and>
    (\<forall>r \<in> set (t_redemption db). redemption_row_ok (promotion_ids db) (campaign_ids db) r) \<and>
    distinct (active_keys (t_redemption db))"

lemma ledger_okD:
  assumes "ledger_ok db"
  shows "distinct (promotion_ids db)" "distinct (campaign_ids db)" "distinct (map rd_ID (t_redemption db))"
    "\<And>w. w \<in> set (t_promotion db) \<Longrightarrow> promotion_row_ok (t_redemption db) w"
    "\<And>w. w \<in> set (t_campaign db) \<Longrightarrow> campaign_row_ok (t_redemption db) w"
    "\<And>r. r \<in> set (t_redemption db) \<Longrightarrow> redemption_row_ok (promotion_ids db) (campaign_ids db) r"
    "distinct (active_keys (t_redemption db))"
  using assms by (auto simp: ledger_ok_def)

lemma ledger_ok_empty: "ledger_ok empty_db"
  by (simp add: ledger_ok_def empty_db_def promotion_ids_def campaign_ids_def active_keys_def)

section \<open>Rows found by their id\<close>

lemma find_row: "find P xs = Some x \<Longrightarrow> x \<in> set xs \<and> P x"
  by (auto simp: find_Some_iff)

lemma find_distinct:
  assumes "distinct (map f xs)" "x \<in> set xs" "P x" "\<And>y. P y \<Longrightarrow> f y = f x"
  shows "find P xs = Some x"
proof -
  obtain y where y: "find P xs = Some y"
    using assms(2,3) by (cases "find P xs") (auto simp: find_None_iff)
  with find_row [OF y] assms(4) have "y \<in> set xs" "f y = f x" by auto
  then have "y = x" using assms(1,2) by (auto simp: distinct_map inj_on_def)
  with y show ?thesis by simp
qed

lemma live_promotion_row:
  assumes "live_promotion db eid = Some p"
  obtains w where "w \<in> set (t_promotion db)" "pw_promo w = p" "\<not> pw_deleted w" "pr_ID p = eid"
  using assms by (auto simp: live_promotion_def dest!: find_row)

lemma live_campaign_row:
  assumes "live_campaign db eid = Some c"
  obtains w where "w \<in> set (t_campaign db)" "cw_campaign w = c" "\<not> cw_deleted w" "cp_ID c = eid"
  using assms by (auto simp: live_campaign_def dest!: find_row)

lemma live_promotionI:
  assumes "distinct (promotion_ids db)" "w \<in> set (t_promotion db)" "\<not> pw_deleted w" "pr_ID (pw_promo w) = eid"
  shows "live_promotion db eid = Some (pw_promo w)"
  using find_distinct [OF assms(1) [unfolded promotion_ids_def] assms(2), of
      "\<lambda>r. pr_ID (pw_promo r) = eid \<and> \<not> pw_deleted r"] assms(3,4)
  by (simp add: live_promotion_def)

lemma live_campaignI:
  assumes "distinct (campaign_ids db)" "w \<in> set (t_campaign db)" "\<not> cw_deleted w" "cp_ID (cw_campaign w) = eid"
  shows "live_campaign db eid = Some (cw_campaign w)"
  using find_distinct [OF assms(1) [unfolded campaign_ids_def] assms(2), of
      "\<lambda>r. cp_ID (cw_campaign r) = eid \<and> \<not> cw_deleted r"] assms(3,4)
  by (simp add: live_campaign_def)

lemma live_promotion_unique:
  assumes "ledger_ok db" "live_promotion db eid = Some p" "w \<in> set (t_promotion db)" "pr_ID (pw_promo w) = eid"
  shows "pw_promo w = p" "\<not> pw_deleted w"
proof -
  obtain v where v: "v \<in> set (t_promotion db)" "pw_promo v = p" "\<not> pw_deleted v" "pr_ID p = eid"
    using assms(2) by (rule live_promotion_row)
  then have "v = w"
    using assms(3,4) ledger_okD(1) [OF assms(1)] by (auto simp: promotion_ids_def distinct_map inj_on_def)
  with v show "pw_promo w = p" "\<not> pw_deleted w" by simp_all
qed

lemma live_campaign_unique:
  assumes "ledger_ok db" "live_campaign db eid = Some c" "w \<in> set (t_campaign db)" "cp_ID (cw_campaign w) = eid"
  shows "cw_campaign w = c" "\<not> cw_deleted w"
proof -
  obtain v where v: "v \<in> set (t_campaign db)" "cw_campaign v = c" "\<not> cw_deleted v" "cp_ID c = eid"
    using assms(2) by (rule live_campaign_row)
  then have "v = w"
    using assms(3,4) ledger_okD(2) [OF assms(1)] by (auto simp: campaign_ids_def distinct_map inj_on_def)
  with v show "cw_campaign w = c" "\<not> cw_deleted w" by simp_all
qed

section \<open>Writes that leave the ledger alone\<close>

lemma ledger_cong:
  assumes "t_promotion db' = t_promotion db" "t_campaign db' = t_campaign db" "t_redemption db' = t_redemption db"
  shows "ledger_ok db' = ledger_ok db"
  using assms by (simp add: ledger_ok_def promotion_ids_def campaign_ids_def)

lemma ledger_promotions_map:
  assumes "ledger_ok db" "t_promotion db' = map g (t_promotion db)"
    and "t_campaign db' = t_campaign db" "t_redemption db' = t_redemption db"
    and g: "\<And>w. w \<in> set (t_promotion db) \<Longrightarrow> pr_ID (pw_promo (g w)) = pr_ID (pw_promo w) \<and>
      pr_UsageCount (pw_promo (g w)) = pr_UsageCount (pw_promo w) \<and> promotion_checks (pw_promo (g w))"
  shows "ledger_ok db'"
proof -
  have "promotion_ids db' = promotion_ids db" using assms(2) g by (simp add: promotion_ids_def)
  moreover have "campaign_ids db' = campaign_ids db" using assms(3) by (simp add: campaign_ids_def)
  moreover have "\<forall>w \<in> set (t_promotion db'). promotion_row_ok (t_redemption db') w"
    using ledger_okD(4) [OF assms(1)] assms(2,4) g by (auto simp: promotion_row_ok_def)
  ultimately show ?thesis using assms(1,3,4) by (simp add: ledger_ok_def)
qed

lemma ledger_campaigns_map:
  assumes "ledger_ok db" "t_campaign db' = map g (t_campaign db)"
    and "t_promotion db' = t_promotion db" "t_redemption db' = t_redemption db"
    and g: "\<And>w. w \<in> set (t_campaign db) \<Longrightarrow> cp_ID (cw_campaign (g w)) = cp_ID (cw_campaign w) \<and>
      campaign_checks (cw_campaign (g w)) \<and> (cw_deleted w \<longrightarrow> cw_deleted (g w)) \<and>
      (\<not> cw_deleted w \<longrightarrow> cp_BudgetUsed (cw_campaign (g w)) = cp_BudgetUsed (cw_campaign w)) \<and>
      (\<not> cw_deleted w \<longrightarrow> cp_BudgetUsed (cw_campaign w) = 0 \<or>
        cp_BudgetType (cw_campaign (g w)) = cp_BudgetType (cw_campaign w) \<and>
        cp_BudgetCurrencyCode (cw_campaign (g w)) = cp_BudgetCurrencyCode (cw_campaign w))"
  shows "ledger_ok db'"
proof -
  have ids: "promotion_ids db' = promotion_ids db" "campaign_ids db' = campaign_ids db"
    using assms(2,3) g by (simp_all add: promotion_ids_def campaign_ids_def)
  have "campaign_row_ok (t_redemption db) (g w)" if w: "w \<in> set (t_campaign db)" for w
  proof (cases "cw_deleted w")
    case True
    then show ?thesis using g [OF w] by (simp add: campaign_row_ok_def)
  next
    case False
    have row: "campaign_row_ok (t_redemption db) w" using ledger_okD(5) [OF assms(1) w] .
    show ?thesis
    proof (cases "cp_BudgetUsed (cw_campaign w) = 0")
      case zero: True
      let ?mine = "filter (\<lambda>r. rd_CampaignID r = Some (cp_ID (cw_campaign w)) \<and> active r) (t_redemption db)"
      have "sum_list (map rd_BudgetDelta ?mine) = 0" using zero row False by (simp add: campaign_row_ok_def spent_def)
      moreover have "\<forall>r \<in> set ?mine. 0 \<le> rd_BudgetDelta r"
        using ledger_okD(6) [OF assms(1)] by (auto simp: redemption_row_ok_def redemption_checks_def)
      ultimately have "\<forall>r \<in> set ?mine. rd_BudgetDelta r = 0"
        by (subst (asm) sum_list_nonneg_eq_0_iff) auto
      then show ?thesis using row False g [OF w] by (auto simp: campaign_row_ok_def)
    next
      case False
      then show ?thesis using row \<open>\<not> cw_deleted w\<close> g [OF w] by (auto simp: campaign_row_ok_def in_unit_def)
    qed
  qed
  then show ?thesis using assms(1-4) ids by (auto simp: ledger_ok_def)
qed

lemma ledger_promotion_added:
  assumes "ledger_ok db" "t_promotion db' = t_promotion db @ [\<lparr> pw_promo = p, pw_deleted = False \<rparr>]"
    and "t_campaign db' = t_campaign db" "t_redemption db' = t_redemption db"
    and "pr_ID p \<notin> set (promotion_ids db)" "promotion_checks p" "pr_UsageCount p = 0"
  shows "ledger_ok db'"
proof -
  have ids: "promotion_ids db' = promotion_ids db @ [pr_ID p]" "campaign_ids db' = campaign_ids db"
    using assms(2,3) by (simp_all add: promotion_ids_def campaign_ids_def)
  have "\<And>r. r \<in> set (t_redemption db) \<Longrightarrow> rd_PromotionID r \<noteq> pr_ID p"
    using ledger_okD(6) [OF assms(1)] assms(5) by (fastforce simp: redemption_row_ok_def)
  then have "uses (t_redemption db) (pr_ID p) = 0" by (simp add: uses_def filter_empty_conv)
  then show ?thesis
    using assms ids by (auto simp: ledger_ok_def promotion_row_ok_def redemption_row_ok_def split: option.splits)
qed

lemma ledger_campaign_added:
  assumes "ledger_ok db" "t_campaign db' = t_campaign db @ [\<lparr> cw_campaign = c, cw_deleted = False \<rparr>]"
    and "t_promotion db' = t_promotion db" "t_redemption db' = t_redemption db"
    and "cp_ID c \<notin> set (campaign_ids db)" "campaign_checks c" "cp_BudgetUsed c = 0"
  shows "ledger_ok db'"
proof -
  have ids: "campaign_ids db' = campaign_ids db @ [cp_ID c]" "promotion_ids db' = promotion_ids db"
    using assms(2,3) by (simp_all add: promotion_ids_def campaign_ids_def)
  have none: "\<And>r. r \<in> set (t_redemption db) \<Longrightarrow> rd_CampaignID r \<noteq> Some (cp_ID c)"
    using ledger_okD(6) [OF assms(1)] assms(5) by (fastforce simp: redemption_row_ok_def)
  then have "spent (t_redemption db) (cp_ID c) = 0" by (simp add: spent_def filter_empty_conv)
  then have "campaign_row_ok (t_redemption db) \<lparr> cw_campaign = c, cw_deleted = False \<rparr>"
    using assms(6,7) none by (auto simp: campaign_row_ok_def)
  moreover have "redemption_row_ok (promotion_ids db') (campaign_ids db') r" if "r \<in> set (t_redemption db)" for r
    using ledger_okD(6) [OF assms(1) that] ids by (auto simp: redemption_row_ok_def split: option.splits)
  ultimately show ?thesis using assms(1-5) ids by (auto simp: ledger_ok_def)
qed

section \<open>The statements\<close>

lemma statement_Inr [simp]: "statement flt n r = Inr x \<longleftrightarrow> flt n = None \<and> r = Inr x"
  by (simp add: statement_def split: option.splits)

lemma found_Inr [simp]: "found r = Inr x \<longleftrightarrow> r = Some x"
  by (simp add: found_def split: option.splits)

lemma set_promotion_tables [simp]:
  "t_campaign (set_promotion eid f db) = t_campaign db" "t_redemption (set_promotion eid f db) = t_redemption db"
  "t_promotion (set_promotion eid f db) = map (\<lambda>r. if pr_ID (pw_promo r) = eid \<and> \<not> pw_deleted r
    then r\<lparr> pw_promo := f (pw_promo r) \<rparr> else r) (t_promotion db)"
  by (simp_all add: set_promotion_def)

lemma set_campaign_tables [simp]:
  "t_promotion (set_campaign eid f db) = t_promotion db" "t_redemption (set_campaign eid f db) = t_redemption db"
  "t_campaign (set_campaign eid f db) = map (\<lambda>r. if cp_ID (cw_campaign r) = eid \<and> \<not> cw_deleted r
    then r\<lparr> cw_campaign := f (cw_campaign r) \<rparr> else r) (t_campaign db)"
  by (simp_all add: set_campaign_def)

lemma set_method_tables [simp]:
  "t_promotion (set_method pid f db) = t_promotion db" "t_campaign (set_method pid f db) = t_campaign db"
  "t_redemption (set_method pid f db) = t_redemption db"
  by (simp_all add: set_method_def)

lemma promotion_row_checks: "ledger_ok db \<Longrightarrow> w \<in> set (t_promotion db) \<Longrightarrow> promotion_checks (pw_promo w)"
  using ledger_okD(4) by (auto simp: promotion_row_ok_def)

lemma campaign_row_checks: "ledger_ok db \<Longrightarrow> w \<in> set (t_campaign db) \<Longrightarrow> campaign_checks (cw_campaign w)"
  using ledger_okD(5) by (auto simp: campaign_row_ok_def)

text \<open>A promotion row rewritten under its own id and counter.\<close>

lemma ledger_set_promotion:
  assumes "ledger_ok db" "live_promotion db eid = Some old"
    and "pr_ID row = eid" "pr_UsageCount row = pr_UsageCount old" "promotion_checks row"
  shows "ledger_ok (set_promotion eid (\<lambda>_. row) db)"
  by (rule ledger_promotions_map [OF assms(1) set_promotion_tables(3)])
    (use assms live_promotion_unique [OF assms(1,2)] promotion_row_checks in auto)

lemma ledger_set_campaign:
  assumes "ledger_ok db" "live_campaign db eid = Some old"
    and "cp_ID row = eid" "cp_BudgetUsed row = cp_BudgetUsed old" "campaign_checks row"
    and "cp_BudgetUsed old = 0 \<or> cp_BudgetType old = cp_BudgetType row \<and>
      cp_BudgetCurrencyCode old = cp_BudgetCurrencyCode row"
  shows "ledger_ok (set_campaign eid (\<lambda>_. row) db)"
  by (rule ledger_campaigns_map [OF assms(1) set_campaign_tables(3)])
    (use assms live_campaign_unique [OF assms(1,2)] campaign_row_checks in auto)

lemma live_promotion_id: "live_promotion db eid = Some p \<Longrightarrow> pr_ID p = eid"
  by (auto elim: live_promotion_row)

lemma live_campaign_id: "live_campaign db eid = Some c \<Longrightarrow> cp_ID c = eid"
  by (auto elim: live_campaign_row)

lemma live_promotion_checks: "ledger_ok db \<Longrightarrow> live_promotion db eid = Some p \<Longrightarrow> promotion_checks p"
  using promotion_row_checks by (auto elim: live_promotion_row)

lemma live_campaign_checks: "ledger_ok db \<Longrightarrow> live_campaign db eid = Some c \<Longrightarrow> campaign_checks c"
  using campaign_row_checks by (auto elim: live_campaign_row)

lemma ledger_InsertPromotion:
  assumes "ledger_ok db" "q_InsertPromotion flt p db = Inr (row, db')"
  shows "ledger_ok db'"
  using assms(2)
  by (intro ledger_promotion_added [OF assms(1), of db' row])
    (auto simp: q_InsertPromotion_def Let_def promotion_ids_def list_ex_iff split: if_splits)

lemma ledger_UpdatePromotion:
  assumes "ledger_ok db" "q_UpdatePromotion flt p db = Inr (row, db')"
  shows "ledger_ok db'"
  using assms ledger_set_promotion [OF assms(1)]
  by (auto simp: q_UpdatePromotion_def Let_def split: option.splits if_splits)

lemma ledger_SoftDeletePromotion:
  assumes "ledger_ok db" "q_SoftDeletePromotion flt eid db = Inr db'"
  shows "ledger_ok db'"
  using assms(2) promotion_row_checks [OF assms(1)]
  by (intro ledger_promotions_map [OF assms(1), of db'
        "\<lambda>r. if pr_ID (pw_promo r) = eid then r\<lparr> pw_deleted := True \<rparr> else r"])
    (auto simp: q_SoftDeletePromotion_def split: option.splits)

lemma ledger_SwitchPromotionStatus:
  assumes "ledger_ok db" "q_SwitchPromotionStatus flt eid f t db = Inr (row, db')"
  shows "ledger_ok db'"
  using assms ledger_set_promotion [OF assms(1)] live_promotion_id
  by (auto simp: q_SwitchPromotionStatus_def Let_def split: option.splits if_splits)

lemma ledger_SetPromotionCampaign:
  assumes "ledger_ok db" "q_SetPromotionCampaign flt eid f t db = Inr (row, db')"
  shows "ledger_ok db'"
proof -
  obtain p where p: "live_promotion db eid = Some p" "row = p\<lparr> pr_CampaignID := t \<rparr>"
    "db' = set_promotion eid (\<lambda>_. row) db"
    using assms(2) by (auto simp: q_SetPromotionCampaign_def Let_def split: option.splits if_splits)
  have "promotion_checks row"
    using live_promotion_checks [OF assms(1) p(1)] by (simp add: p(2) promotion_checks_def)
  then show ?thesis
    unfolding p(3) using p live_promotion_id by (intro ledger_set_promotion [OF assms(1) p(1)]) auto
qed

lemma ledger_InsertCampaign:
  assumes "ledger_ok db" "q_InsertCampaign flt c db = Inr (row, db')"
  shows "ledger_ok db'"
  using assms(2)
  by (intro ledger_campaign_added [OF assms(1), of db' row])
    (auto simp: q_InsertCampaign_def campaign_columns_def Let_def campaign_ids_def list_ex_iff split: if_splits)

lemma ledger_UpdateCampaign:
  assumes "ledger_ok db" "q_UpdateCampaign flt c db = Inr (row, db')"
  shows "ledger_ok db'"
proof -
  obtain old where "live_campaign db (cp_ID c) = Some old"
    "row = campaign_columns c\<lparr> cp_BudgetUsed := cp_BudgetUsed old \<rparr>"
    "campaign_checks row" "db' = set_campaign (cp_ID c) (\<lambda>_. row) db"
    "cp_BudgetUsed old = 0 \<or> cp_BudgetType old = cp_BudgetType c \<and>
      cp_BudgetCurrencyCode old = cp_BudgetCurrencyCode c"
    using assms(2) by (auto simp: q_UpdateCampaign_def Let_def split: option.splits if_splits)
  then show ?thesis by (simp add: ledger_set_campaign [OF assms(1)] campaign_columns_def)
qed

lemma ledger_ReviseCampaign:
  assumes "ledger_ok db" "q_ReviseCampaign flt eid t u db = Inr (row, db')"
  shows "ledger_ok db'"
proof -
  obtain old where "live_campaign db eid = Some old" "row = old\<lparr> cp_Name := ct_Name u,
      cp_Description := ct_Description u, cp_StartsAt := map_option column_time (ct_StartsAt u),
      cp_EndsAt := map_option column_time (ct_EndsAt u),
      cp_BudgetLimit := ct_BudgetLimit u \<rparr>" "campaign_checks row" "db' = set_campaign eid (\<lambda>_. row) db"
    using assms(2) by (auto simp: q_ReviseCampaign_def Let_def split: option.splits if_splits)
  then show ?thesis using live_campaign_id by (simp add: ledger_set_campaign [OF assms(1)])
qed

lemma ledger_SoftDeleteCampaign:
  assumes "ledger_ok db" "q_SoftDeleteCampaign flt eid db = Inr db'"
  shows "ledger_ok db'"
  using assms(2) campaign_row_checks [OF assms(1)]
  by (intro ledger_campaigns_map [OF assms(1), of db'
        "\<lambda>r. if cp_ID (cw_campaign r) = eid then r\<lparr> cw_deleted := True \<rparr> else r"])
    (auto simp: q_SoftDeleteCampaign_def split: option.splits)

text \<open>The methods and the rules are no part of the ledger.\<close>

lemma ledger_UpsertApplicationMethod:
  "q_UpsertApplicationMethod flt m db = Inr (row, db') \<Longrightarrow> ledger_ok db' = ledger_ok db"
  by (rule ledger_cong) (auto simp: q_UpsertApplicationMethod_def Let_def split: option.splits if_splits)

lemma ledger_ReviseMethodValue:
  "q_ReviseMethodValue flt pid t v v' db = Inr (row, db') \<Longrightarrow> ledger_ok db' = ledger_ok db"
  by (rule ledger_cong) (auto simp: q_ReviseMethodValue_def Let_def split: option.splits if_splits)

lemma ledger_SoftDeleteApplicationMethod:
  "q_SoftDeleteApplicationMethod flt pid db = Inr db' \<Longrightarrow> ledger_ok db' = ledger_ok db"
  by (rule ledger_cong) (auto simp: q_SoftDeleteApplicationMethod_def split: option.splits)

lemma ledger_InsertPromotionRule:
  "q_InsertPromotionRule flt r db = Inr (row, db') \<Longrightarrow> ledger_ok db' = ledger_ok db"
  by (rule ledger_cong) (auto simp: q_InsertPromotionRule_def split: if_splits)

lemma ledger_SoftDeletePromotionRule:
  "q_SoftDeletePromotionRule flt eid db = Inr db' \<Longrightarrow> ledger_ok db' = ledger_ok db"
  by (rule ledger_cong) (auto simp: q_SoftDeletePromotionRule_def split: option.splits)

section \<open>What a redemption and a release do\<close>

text \<open>The counters moved by one use of a promotion, and by a share of a campaign's budget.\<close>

definition move_use :: "string \<Rightarrow> int \<Rightarrow> promotion_row \<Rightarrow> promotion_row" where
  "move_use pid k w = (if pr_ID (pw_promo w) = pid \<and> \<not> pw_deleted w
    then w\<lparr> pw_promo := (pw_promo w)\<lparr> pr_UsageCount := pr_UsageCount (pw_promo w) + k \<rparr> \<rparr> else w)"

definition move_budget :: "string option \<Rightarrow> int \<Rightarrow> campaign_row \<Rightarrow> campaign_row" where
  "move_budget cid k w = (if cid = Some (cp_ID (cw_campaign w)) \<and> \<not> cw_deleted w
    then w\<lparr> cw_campaign := (cw_campaign w)\<lparr> cp_BudgetUsed := cp_BudgetUsed (cw_campaign w) + k \<rparr> \<rparr> else w)"

text \<open>\<open>book r\<close> writes the redemption to the ledger and to the counters; \<open>unbook\<close> takes it back.\<close>

definition book :: "redemption \<Rightarrow> promo_db \<Rightarrow> promo_db" where
  "book r db = db\<lparr> t_promotion := map (move_use (rd_PromotionID r) 1) (t_promotion db),
    t_campaign := map (move_budget (rd_CampaignID r) (rd_BudgetDelta r)) (t_campaign db),
    t_redemption := t_redemption db @ [r] \<rparr>"

definition released :: "string \<Rightarrow> time \<Rightarrow> redemption \<Rightarrow> redemption" where
  "released eid at r = (if rd_ID r = eid \<and> active r then r\<lparr> rd_ReleasedAt := Some (column_time at) \<rparr> else r)"

definition unbook :: "redemption \<Rightarrow> time \<Rightarrow> promo_db \<Rightarrow> promo_db" where
  "unbook r at db = db\<lparr> t_promotion := map (move_use (rd_PromotionID r) (-1)) (t_promotion db),
    t_campaign := map (move_budget (rd_CampaignID r) (- rd_BudgetDelta r)) (t_campaign db),
    t_redemption := map (released (rd_ID r) at) (t_redemption db) \<rparr>"

lemma move_budget_0 [simp]: "move_budget cid 0 w = w"
  by (cases w) (simp add: move_budget_def)

lemma move_budget_None [simp]: "move_budget None k w = w"
  by (simp add: move_budget_def)

lemma move_ids [simp]:
  "pr_ID (pw_promo (move_use pid k w)) = pr_ID (pw_promo w)" "pw_deleted (move_use pid k w) = pw_deleted w"
  "cp_ID (cw_campaign (move_budget cid k v)) = cp_ID (cw_campaign v)"
  "cw_deleted (move_budget cid k v) = cw_deleted v"
  by (simp_all add: move_use_def move_budget_def)

lemma set_promotion_move:
  "set_promotion pid (\<lambda>p. p\<lparr> pr_UsageCount := pr_UsageCount p + k \<rparr>) db =
    db\<lparr> t_promotion := map (move_use pid k) (t_promotion db) \<rparr>"
  by (simp add: set_promotion_def move_use_def fun_eq_iff)

lemma set_campaign_move:
  "set_campaign cid (\<lambda>c. c\<lparr> cp_BudgetUsed := cp_BudgetUsed c + k \<rparr>) db =
    db\<lparr> t_campaign := map (move_budget (Some cid) k) (t_campaign db) \<rparr>"
  unfolding set_campaign_def move_budget_def by (rule arg_cong [where f = "\<lambda>t. db\<lparr> t_campaign := t \<rparr>"]) auto

text \<open>What a redemption that was written went through.\<close>

definition redeem_gates :: "redemption \<Rightarrow> time \<Rightarrow> redemption \<Rightarrow> promo_db \<Rightarrow> bool" where
  "redeem_gates req now r db \<longleftrightarrow>
    active_redemption db (rd_PromotionID req) (rd_Reference req) = None \<and>
    (\<exists>p. live_promotion db (rd_PromotionID req) = Some p \<and> pr_Status p = PromotionActive \<and>
      (case pr_UsageLimit p of None \<Rightarrow> True | Some l \<Rightarrow> pr_UsageCount p + 1 \<le> l) \<and>
      rd_CampaignID r = pr_CampaignID p) \<and>
    (case rd_CampaignID r of
      None \<Rightarrow> rd_BudgetDelta r = 0
    | Some cid \<Rightarrow>
        (\<exists>c. live_campaign db cid = Some c \<and> WindowContains c now \<and>
          (cp_BudgetType c = BudgetSpend \<longrightarrow> cp_BudgetCurrencyCode c = rd_CurrencyCode req) \<and>
          rd_BudgetDelta r = BudgetDeltaFor c (rd_Amount req) \<and>
          (rd_BudgetDelta r > 0 \<longrightarrow>
            (case cp_BudgetLimit c of None \<Rightarrow> True | Some l \<Rightarrow> cp_BudgetUsed c + rd_BudgetDelta r \<le> l)))) \<and>
    rd_ID r = rd_ID req \<and> rd_PromotionID r = rd_PromotionID req \<and> rd_Reference r = rd_Reference req \<and>
    rd_Amount r = rd_Amount req \<and> rd_CurrencyCode r = rd_CurrencyCode req \<and> active r \<and>
    redemption_checks r \<and> rd_ID r \<notin> rd_ID ` set (t_redemption db)"

lemma lockBudget_Inr:
  assumes "lockBudget flt p req now db = Inr (delta, campaignID)"
  shows "campaignID = pr_CampaignID p"
    and "case campaignID of None \<Rightarrow> delta = 0
      | Some cid \<Rightarrow> \<exists>c. live_campaign db cid = Some c \<and> WindowContains c now \<and>
          (cp_BudgetType c = BudgetSpend \<longrightarrow> cp_BudgetCurrencyCode c = rd_CurrencyCode req) \<and>
          delta = BudgetDeltaFor c (rd_Amount req)"
  using assms live_campaign_id
  by (auto simp: lockBudget_def q_LockCampaign_def split: option.splits sum.splits if_splits)

lemma IncrementPromotionUsage_Inr:
  assumes "q_IncrementPromotionUsage flt pid db = Inr db'"
  shows "db' = db\<lparr> t_promotion := map (move_use pid 1) (t_promotion db) \<rparr>"
    and "\<exists>p. live_promotion db pid = Some p \<and>
      (case pr_UsageLimit p of None \<Rightarrow> True | Some l \<Rightarrow> pr_UsageCount p + 1 \<le> l)"
  using assms
  by (auto simp: q_IncrementPromotionUsage_def set_promotion_move split: option.splits if_splits)

lemma redeem_budget_Inr:
  assumes "redeem_budget flt delta cid db = Inr db'" and "0 \<le> delta"
  shows "db' = db\<lparr> t_campaign := map (move_budget cid delta) (t_campaign db) \<rparr>"
    and "delta > 0 \<longrightarrow> (case cid of None \<Rightarrow> True | Some c' \<Rightarrow>
      \<exists>c. live_campaign db c' = Some c \<and>
        (case cp_BudgetLimit c of None \<Rightarrow> True | Some l \<Rightarrow> cp_BudgetUsed c + delta \<le> l))"
proof -
  have "db' = db \<and> (delta = 0 \<or> cid = None) \<or> (\<exists>c'. cid = Some c' \<and> q_IncrementCampaignBudget flt c' delta db = Inr db')"
    using assms by (auto simp: redeem_budget_def split: option.splits sum.splits if_splits)
  moreover have "x = db\<lparr> t_campaign := map (move_budget (Some c') delta) (t_campaign db) \<rparr> \<and>
      (\<exists>c. live_campaign db c' = Some c \<and>
        (case cp_BudgetLimit c of None \<Rightarrow> True | Some l \<Rightarrow> cp_BudgetUsed c + delta \<le> l))"
    if "q_IncrementCampaignBudget flt c' delta db = Inr x" for c' x
    using that by (auto simp: q_IncrementCampaignBudget_def set_campaign_move split: option.splits if_splits)
  moreover have "map (move_budget cid delta) ws = ws" if "delta = 0 \<or> cid = None" for ws
    using that by (auto simp: map_idI)
  ultimately show "db' = db\<lparr> t_campaign := map (move_budget cid delta) (t_campaign db) \<rparr>"
    and "delta > 0 \<longrightarrow> (case cid of None \<Rightarrow> True | Some c' \<Rightarrow>
      \<exists>c. live_campaign db c' = Some c \<and>
        (case cp_BudgetLimit c of None \<Rightarrow> True | Some l \<Rightarrow> cp_BudgetUsed c + delta \<le> l))"
    by auto
qed

lemma redeem_tx_created:
  assumes "redeem_tx flt req now db = (Inr (r, True), db')"
  shows "redeem_gates req now r db" and "rd_PromotionID r = rd_PromotionID req" and "db' = book r db"
proof -
  obtain p delta cid db1 db2 where
    p: "live_promotion db (rd_PromotionID req) = Some p" "pr_Status p = PromotionActive"
    and none: "active_redemption db (rd_PromotionID req) (rd_Reference req) = None"
    and lb: "lockBudget flt p req now db = Inr (delta, cid)"
    and iu: "q_IncrementPromotionUsage flt (rd_PromotionID req) db = Inr db1"
    and rb: "redeem_budget flt delta cid db1 = Inr db2"
    and r: "r = req\<lparr> rd_CampaignID := cid, rd_BudgetDelta := delta, rd_ReleasedAt := None \<rparr>"
    and ins: "q_InsertRedemption flt r db2 = Inr db'"
    using assms
    by (auto simp: redeem_tx_def q_LockPromotion_def q_GetActiveRedemption_def Let_def statement_def found_def
        split: sum.splits option.splits if_splits prod.splits)
  have checks: "redemption_checks r" "rd_ID r \<notin> rd_ID ` set (t_redemption db2)"
    and db': "db' = db2\<lparr> t_redemption := t_redemption db2 @ [r] \<rparr>"
    using ins by (auto simp: q_InsertRedemption_def list_ex_iff split: if_splits)
  have "0 \<le> delta" using checks(1) by (simp add: r redemption_checks_def)
  note rb' = redeem_budget_Inr [OF rb this]
  have db1: "db1 = db\<lparr> t_promotion := map (move_use (rd_PromotionID req) 1) (t_promotion db) \<rparr>"
    by (rule IncrementPromotionUsage_Inr(1) [OF iu])
  then show "db' = book r db" by (simp add: db' rb'(1) book_def r)
  show "rd_PromotionID r = rd_PromotionID req" by (simp add: r)
  have same: "live_campaign db1 = live_campaign db" "t_redemption db2 = t_redemption db"
    using db1 rb'(1) by (simp_all add: live_campaign_def fun_eq_iff)
  show "redeem_gates req now r db"
    unfolding redeem_gates_def
    using p none checks lockBudget_Inr [OF lb] IncrementPromotionUsage_Inr(2) [OF iu] rb'(2) same r
    by (auto split: option.splits)
qed

lemma redeem_tx_existing:
  assumes "redeem_tx flt req now db = (Inr (r, False), db')"
  shows "db' = db" "active_redemption db (rd_PromotionID req) (rd_Reference req) = Some r"
  using assms
  by (auto simp: redeem_tx_def q_GetActiveRedemption_def Let_def statement_def found_def
      split: sum.splits option.splits if_splits prod.splits)

lemma uses_snoc: "active r \<Longrightarrow> uses (rs @ [r]) pid = uses rs pid + (if rd_PromotionID r = pid then 1 else 0)"
  by (simp add: uses_def)

lemma spent_snoc:
  "active r \<Longrightarrow> spent (rs @ [r]) cid = spent rs cid + (if rd_CampaignID r = Some cid then rd_BudgetDelta r else 0)"
  by (simp add: spent_def)

lemma promotion_checks_count:
  "promotion_checks p \<Longrightarrow> 0 \<le> k \<Longrightarrow> promotion_checks (p\<lparr> pr_UsageCount := k \<rparr>)"
  by (simp add: promotion_checks_def)

lemma campaign_checks_used:
  "campaign_checks c \<Longrightarrow> 0 \<le> k \<Longrightarrow> campaign_checks (c\<lparr> cp_BudgetUsed := k \<rparr>)"
  by (simp add: campaign_checks_def)

lemma active_redemption_None:
  "active_redemption db pid ref = None \<longleftrightarrow> (pid, ref) \<notin> set (active_keys (t_redemption db))"
  by (auto simp: active_redemption_def active_keys_def find_None_iff image_iff)

lemma book_ids [simp]:
  "promotion_ids (book r db) = promotion_ids db" "campaign_ids (book r db) = campaign_ids db"
  "t_redemption (book r db) = t_redemption db @ [r]"
  "promotion_ids (unbook r at db) = promotion_ids db" "campaign_ids (unbook r at db) = campaign_ids db"
  "t_redemption (unbook r at db) = map (released (rd_ID r) at) (t_redemption db)"
  by (simp_all add: book_def unbook_def promotion_ids_def campaign_ids_def)

lemma book_tables:
  "t_promotion (book r db) = map (move_use (rd_PromotionID r) 1) (t_promotion db)"
  "t_campaign (book r db) = map (move_budget (rd_CampaignID r) (rd_BudgetDelta r)) (t_campaign db)"
  "t_promotion (unbook r at db) = map (move_use (rd_PromotionID r) (-1)) (t_promotion db)"
  "t_campaign (unbook r at db) = map (move_budget (rd_CampaignID r) (- rd_BudgetDelta r)) (t_campaign db)"
  by (simp_all add: book_def unbook_def)

lemma live_promotion_in: "live_promotion db pid = Some p \<Longrightarrow> pid \<in> set (promotion_ids db)"
  by (erule live_promotion_row) (auto simp: promotion_ids_def intro!: image_eqI)

lemma live_campaign_in: "live_campaign db cid = Some c \<Longrightarrow> cid \<in> set (campaign_ids db)"
  by (erule live_campaign_row) (auto simp: campaign_ids_def intro!: image_eqI)

lemma ledger_book:
  assumes "ledger_ok db" "redeem_gates req now r db" "rd_PromotionID r = rd_PromotionID req"
  shows "ledger_ok (book r db)"
proof -
  obtain p where p: "live_promotion db (rd_PromotionID r) = Some p"
    using assms(2,3) by (auto simp: redeem_gates_def)
  have r: "active r" "redemption_checks r" "rd_ID r \<notin> rd_ID ` set (t_redemption db)" "0 \<le> rd_BudgetDelta r"
    "rd_Reference r = rd_Reference req" "rd_CurrencyCode r = rd_CurrencyCode req" "rd_Amount r = rd_Amount req"
    using assms(2) by (auto simp: redeem_gates_def redemption_checks_def)
  have promotions: "promotion_row_ok (t_redemption db @ [r]) (move_use (rd_PromotionID r) 1 w)"
    if w: "w \<in> set (t_promotion db)" for w
  proof -
    have ok: "promotion_checks (pw_promo w)" "pr_UsageCount (pw_promo w) = uses (t_redemption db) (pr_ID (pw_promo w))"
      using ledger_okD(4) [OF assms(1) w] by (simp_all add: promotion_row_ok_def)
    have "0 \<le> uses (t_redemption db) (pr_ID (pw_promo w))" by (simp add: uses_def)
    then show ?thesis
      using ok live_promotion_unique [OF assms(1) p w] r(1)
      by (auto simp: promotion_row_ok_def move_use_def uses_snoc promotion_checks_count)
  qed
  have campaigns: "campaign_row_ok (t_redemption db @ [r]) (move_budget (rd_CampaignID r) (rd_BudgetDelta r) v)"
    if v: "v \<in> set (t_campaign db)" for v
  proof (cases "rd_CampaignID r = Some (cp_ID (cw_campaign v)) \<and> \<not> cw_deleted v")
    case False
    then show ?thesis
      using ledger_okD(5) [OF assms(1) v] r(1)
      by (auto simp: campaign_row_ok_def move_budget_def spent_snoc)
  next
    case True
    have ok: "campaign_checks (cw_campaign v)"
      "cp_BudgetUsed (cw_campaign v) = spent (t_redemption db) (cp_ID (cw_campaign v))"
      "\<forall>x \<in> set (t_redemption db). rd_CampaignID x = Some (cp_ID (cw_campaign v)) \<and> active x \<and>
        rd_BudgetDelta x \<noteq> 0 \<longrightarrow> in_unit (cw_campaign v) x"
      using ledger_okD(5) [OF assms(1) v] True by (auto simp: campaign_row_ok_def)
    obtain c where c: "live_campaign db (cp_ID (cw_campaign v)) = Some c"
      "cp_BudgetType c = BudgetSpend \<longrightarrow> cp_BudgetCurrencyCode c = rd_CurrencyCode req"
      "rd_BudgetDelta r = BudgetDeltaFor c (rd_Amount req)"
      using assms(2) True by (auto simp: redeem_gates_def)
    have "cw_campaign v = c" using live_campaign_unique(1) [OF assms(1) c(1) v] by simp
    then have unit: "in_unit (cw_campaign v) r" if "rd_BudgetDelta r \<noteq> 0"
      using c(2,3) that r(6,7) by (auto simp: in_unit_def BudgetDeltaFor_def split: if_splits)
    have "0 \<le> cp_BudgetUsed (cw_campaign v)" using ok(1) by (simp add: campaign_checks_def)
    then show ?thesis
      using True ok unit r(1,4)
      by (auto simp: campaign_row_ok_def move_budget_def spent_snoc campaign_checks_used in_unit_def)
  qed
  have redemptions: "redemption_row_ok (promotion_ids db) (campaign_ids db) r"
  proof -
    have "rd_PromotionID r \<in> set (promotion_ids db)"
      using live_promotion_in [OF p] .
    moreover have "case rd_CampaignID r of None \<Rightarrow> rd_BudgetDelta r = 0 | Some cid \<Rightarrow> cid \<in> set (campaign_ids db)"
      using assms(2) live_campaign_in by (auto simp: redeem_gates_def split: option.splits)
    ultimately show ?thesis using r(2) by (simp add: redemption_row_ok_def)
  qed
  have keys: "(rd_PromotionID r, rd_Reference r) \<notin> set (active_keys (t_redemption db))"
    using assms(2,3) r(5) by (simp add: redeem_gates_def active_redemption_None)
  show ?thesis
    unfolding ledger_ok_def book_ids book_tables
    using ledger_okD(1,2,3,6,7) [OF assms(1)] promotions campaigns redemptions keys r(1,3)
    by (auto simp: active_keys_def)
qed

subsection \<open>Releasing\<close>

lemma active_redemption_row:
  assumes "active_redemption db pid ref = Some r"
  shows "r \<in> set (t_redemption db)" "rd_PromotionID r = pid" "rd_Reference r = ref" "active r"
  using find_row [OF assms [unfolded active_redemption_def]] by auto

lemma uses_pos:
  assumes "r \<in> set rs" "active r"
  shows "1 \<le> uses rs (rd_PromotionID r)"
proof -
  have "filter (\<lambda>x. rd_PromotionID x = rd_PromotionID r \<and> active x) rs \<noteq> []"
    using assms by (auto simp: filter_empty_conv)
  then show ?thesis unfolding uses_def by (cases "filter (\<lambda>x. rd_PromotionID x = rd_PromotionID r \<and> active x) rs") auto
qed

lemma spent_ge:
  assumes "r \<in> set rs" "active r" "rd_CampaignID r = Some cid" "\<forall>x \<in> set rs. 0 \<le> rd_BudgetDelta x"
  shows "rd_BudgetDelta r \<le> spent rs cid"
  unfolding spent_def using assms by (intro member_le_sum_list) auto

lemma find_active:
  assumes "distinct (map rd_ID rs)" "r \<in> set rs" "active r"
  shows "find (\<lambda>x. rd_ID x = rd_ID r \<and> active x) rs = Some r"
  using assms by (intro find_distinct [where f = rd_ID]) auto

lemma DecrementPromotionUsage_Inr:
  assumes "ledger_ok db" "q_DecrementPromotionUsage flt pid db = Inr db'" "1 \<le> uses (t_redemption db) pid"
  shows "db' = db\<lparr> t_promotion := map (move_use pid (-1)) (t_promotion db) \<rparr>"
proof -
  obtain p where p: "live_promotion db pid = Some p"
    and db': "db' = set_promotion pid (\<lambda>p. p\<lparr> pr_UsageCount := max (pr_UsageCount p - 1) 0 \<rparr>) db"
    using assms(2) by (auto simp: q_DecrementPromotionUsage_def split: option.splits)
  have floor: "max (pr_UsageCount (pw_promo w) - 1) 0 = pr_UsageCount (pw_promo w) - 1"
    if "w \<in> set (t_promotion db)" "pr_ID (pw_promo w) = pid" for w
    using ledger_okD(4) [OF assms(1) that(1)] that(2) assms(3) by (simp add: promotion_row_ok_def)
  have "map (\<lambda>r. if pr_ID (pw_promo r) = pid \<and> \<not> pw_deleted r then r\<lparr> pw_promo :=
        (pw_promo r)\<lparr> pr_UsageCount := max (pr_UsageCount (pw_promo r) - 1) 0 \<rparr> \<rparr> else r) (t_promotion db) =
      map (move_use pid (-1)) (t_promotion db)"
    by (intro map_cong refl) (simp add: move_use_def floor)
  then show ?thesis by (simp add: db' set_promotion_def)
qed

lemma release_budget_Inr:
  assumes "ledger_ok db" "r \<in> set (t_redemption db)" "active r" "release_budget flt r db = Inr db'"
  shows "db' = db\<lparr> t_campaign := map (move_budget (rd_CampaignID r) (- rd_BudgetDelta r)) (t_campaign db) \<rparr>"
proof -
  have nonneg: "\<forall>x \<in> set (t_redemption db). 0 \<le> rd_BudgetDelta x"
    using ledger_okD(6) [OF assms(1)] by (auto simp: redemption_row_ok_def redemption_checks_def)
  have same: "db\<lparr> t_campaign := map (move_budget cid k) (t_campaign db) \<rparr> = db"
    if "\<And>v. v \<in> set (t_campaign db) \<Longrightarrow> move_budget cid k v = v" for cid k
    using that by (simp add: map_idI)
  consider "rd_CampaignID r = None \<or> rd_BudgetDelta r = 0" "db' = db"
    | cid where "rd_CampaignID r = Some cid" "live_campaign db cid = None" "db' = db"
    | cid c where "rd_CampaignID r = Some cid" "live_campaign db cid = Some c"
      "db' = set_campaign cid (\<lambda>c. c\<lparr> cp_BudgetUsed := max (cp_BudgetUsed c - rd_BudgetDelta r) 0 \<rparr>) db"
  proof (cases "rd_CampaignID r = None \<or> rd_BudgetDelta r = 0")
    case True
    then show ?thesis using assms(4) that(1) by (auto simp: release_budget_def split: option.splits)
  next
    case False
    then obtain cid where cid: "rd_CampaignID r = Some cid" "0 < rd_BudgetDelta r"
      using nonneg assms(2) by (cases "rd_CampaignID r") force+
    then have "live_campaign db cid = None \<and> db' = db \<or> (\<exists>c. live_campaign db cid = Some c \<and>
        db' = set_campaign cid (\<lambda>c. c\<lparr> cp_BudgetUsed := max (cp_BudgetUsed c - rd_BudgetDelta r) 0 \<rparr>) db)"
      using assms(4)
      by (auto simp: release_budget_def q_DecrementCampaignBudget_def statement_def
          split: option.splits sum.splits if_splits)
    then show ?thesis using that(2,3) cid(1) by blast
  qed
  then show ?thesis
  proof cases
    case 1
    then show ?thesis by (auto simp: same)
  next
    case (2 cid)
    have "move_budget (Some cid) k v = v" if "v \<in> set (t_campaign db)" for k v
      using that 2(2) live_campaignI [OF ledger_okD(2) [OF assms(1)] that] by (auto simp: move_budget_def)
    then show ?thesis using 2 by (simp add: same)
  next
    case (3 cid c)
    have floor: "max (cp_BudgetUsed (cw_campaign v) - rd_BudgetDelta r) 0 = cp_BudgetUsed (cw_campaign v) - rd_BudgetDelta r"
      if v: "v \<in> set (t_campaign db)" "cp_ID (cw_campaign v) = cid" "\<not> cw_deleted v" for v
      using ledger_okD(5) [OF assms(1) v(1)] v(2,3) spent_ge [OF assms(2,3) 3(1) nonneg]
      by (simp add: campaign_row_ok_def)
    have "map (\<lambda>v. if cp_ID (cw_campaign v) = cid \<and> \<not> cw_deleted v then v\<lparr> cw_campaign :=
          (cw_campaign v)\<lparr> cp_BudgetUsed := max (cp_BudgetUsed (cw_campaign v) - rd_BudgetDelta r) 0 \<rparr> \<rparr> else v)
          (t_campaign db) = map (move_budget (Some cid) (- rd_BudgetDelta r)) (t_campaign db)"
      by (intro map_cong refl) (auto simp: move_budget_def floor)
    then show ?thesis using 3(1,3) by (simp add: set_campaign_def)
  qed
qed

lemma release_tx_released:
  assumes "ledger_ok db" "release_tx flt pid ref now db = (Inr (Some row), db')"
  obtains r where "active_redemption db pid ref = Some r" "row = r\<lparr> rd_ReleasedAt := Some (column_time now) \<rparr>"
    "db' = unbook r now db" "live_promotion db pid \<noteq> None"
proof -
  obtain p r db1 db2 where p: "live_promotion db pid = Some p" and r: "active_redemption db pid ref = Some r"
    and rb: "release_budget flt r db = Inr db1"
    and du: "q_DecrementPromotionUsage flt pid db1 = Inr db2"
    and mr: "q_MarkRedemptionReleased flt (rd_ID r) now db2 = Inr (row, db')"
    using assms(2)
    by (auto simp: release_tx_def q_LockPromotion_def q_LockActiveRedemption_def
        split: sum.splits if_splits prod.splits)
  note ar = active_redemption_row [OF r]
  have db1: "db1 = db\<lparr> t_campaign := map (move_budget (rd_CampaignID r) (- rd_BudgetDelta r)) (t_campaign db) \<rparr>"
    by (rule release_budget_Inr [OF assms(1) ar(1,4) rb])
  have "db2 = db1\<lparr> t_promotion := map (move_use pid (-1)) (t_promotion db) \<rparr>"
  proof -
    have "q_DecrementPromotionUsage flt pid db = Inr (db2\<lparr> t_campaign := t_campaign db \<rparr>)"
      using du by (auto simp: db1 q_DecrementPromotionUsage_def live_promotion_def set_promotion_def split: option.splits)
    then have "db2\<lparr> t_campaign := t_campaign db \<rparr> = db\<lparr> t_promotion := map (move_use pid (-1)) (t_promotion db) \<rparr>"
      using DecrementPromotionUsage_Inr [OF assms(1)] uses_pos [OF ar(1,4)] ar(2) by simp
    moreover have "t_campaign db2 = t_campaign db1"
      using du by (auto simp: q_DecrementPromotionUsage_def split: option.splits)
    ultimately show ?thesis unfolding db1 by (cases db2; cases db; simp)
  qed
  then have db2: "db2 = db\<lparr> t_campaign := map (move_budget (rd_CampaignID r) (- rd_BudgetDelta r)) (t_campaign db),
      t_promotion := map (move_use pid (-1)) (t_promotion db) \<rparr>"
    by (simp add: db1)
  have "find (\<lambda>x. rd_ID x = rd_ID r \<and> active x) (t_redemption db) = Some r"
    by (rule find_active [OF ledger_okD(3) [OF assms(1)] ar(1,4)])
  then have "row = r\<lparr> rd_ReleasedAt := Some (column_time now) \<rparr>" "db' = unbook r now db"
    using mr ar(2) by (auto simp: q_MarkRedemptionReleased_def db2 unbook_def released_def fun_eq_iff)
  then show ?thesis using that r p by simp
qed

lemma released_split:
  assumes "distinct (map rd_ID rs)" "r \<in> set rs" "active r"
  obtains xs ys where "rs = xs @ r # ys"
    "map (released (rd_ID r) at) rs = xs @ r\<lparr> rd_ReleasedAt := Some (column_time at) \<rparr> # ys"
proof -
  obtain xs ys where rs: "rs = xs @ r # ys" using assms(2) by (auto simp: in_set_conv_decomp)
  have "rd_ID x \<noteq> rd_ID r" if "x \<in> set xs \<union> set ys" for x
    using assms(1) that by (auto simp: rs image_iff)
  then have "released (rd_ID r) at x = x" if "x \<in> set xs \<union> set ys" for x
    using that by (simp add: released_def)
  then have "map (released (rd_ID r) at) xs = xs" "map (released (rd_ID r) at) ys = ys"
    by (auto intro!: map_idI)
  then show ?thesis using that [OF rs] assms(3) by (simp add: rs released_def)
qed

lemma redemption_row_released [simp]:
  "redemption_row_ok ps cs (r\<lparr> rd_ReleasedAt := x \<rparr>) = redemption_row_ok ps cs r"
  by (simp add: redemption_row_ok_def redemption_checks_def split: option.split)

lemma ledger_unbook:
  assumes "ledger_ok db" "r \<in> set (t_redemption db)" "active r" "live_promotion db (rd_PromotionID r) = Some p"
  shows "ledger_ok (unbook r at db)"
proof -
  obtain xs ys where rs: "t_redemption db = xs @ r # ys"
    and rs': "map (released (rd_ID r) at) (t_redemption db) = xs @ r\<lparr> rd_ReleasedAt := Some (column_time at) \<rparr> # ys"
    using released_split [OF ledger_okD(3) [OF assms(1)] assms(2,3)] .
  let ?rs' = "xs @ r\<lparr> rd_ReleasedAt := Some (column_time at) \<rparr> # ys"
  have uses': "uses ?rs' pid = uses (t_redemption db) pid - (if rd_PromotionID r = pid then 1 else 0)" for pid
    using assms(3) by (simp add: uses_def rs)
  have spent': "spent ?rs' cid =
      spent (t_redemption db) cid - (if rd_CampaignID r = Some cid then rd_BudgetDelta r else 0)" for cid
    using assms(3) by (simp add: spent_def rs)
  have nonneg: "0 \<le> uses ?rs' pid" for pid by (simp add: uses_def)
  have row_checks: "redemption_row_ok (promotion_ids db) (campaign_ids db) x" if "x \<in> set ?rs'" for x
    using ledger_okD(6) [OF assms(1)] that by (auto simp: rs)
  have nonneg': "0 \<le> spent ?rs' cid" for cid
    unfolding spent_def using row_checks by (intro sum_list_nonneg) (auto simp: redemption_row_ok_def redemption_checks_def)
  have promotions: "promotion_row_ok ?rs' (move_use (rd_PromotionID r) (-1) w)" if w: "w \<in> set (t_promotion db)" for w
  proof (cases "pr_ID (pw_promo w) = rd_PromotionID r")
    case True
    then have "\<not> pw_deleted w" using live_promotion_unique(2) [OF assms(1,4) w] by simp
    then show ?thesis
      using ledger_okD(4) [OF assms(1) w] True nonneg [of "rd_PromotionID r"]
      by (simp add: promotion_row_ok_def move_use_def uses' promotion_checks_count)
  next
    case False
    then show ?thesis
      using ledger_okD(4) [OF assms(1) w] by (simp add: promotion_row_ok_def move_use_def uses')
  qed
  have campaigns: "campaign_row_ok ?rs' (move_budget (rd_CampaignID r) (- rd_BudgetDelta r) v)"
    if v: "v \<in> set (t_campaign db)" for v
  proof (cases "cw_deleted v")
    case True
    then show ?thesis using ledger_okD(5) [OF assms(1) v] by (simp add: campaign_row_ok_def move_budget_def)
  next
    case False
    let ?cid = "cp_ID (cw_campaign v)"
    have ok: "campaign_checks (cw_campaign v)" "cp_BudgetUsed (cw_campaign v) = spent (t_redemption db) ?cid"
      "\<forall>x \<in> set (t_redemption db). rd_CampaignID x = Some ?cid \<and> active x \<and> rd_BudgetDelta x \<noteq> 0 \<longrightarrow>
        in_unit (cw_campaign v) x"
      using ledger_okD(5) [OF assms(1) v] False by (auto simp: campaign_row_ok_def)
    then have units: "\<forall>x \<in> set ?rs'. rd_CampaignID x = Some ?cid \<and> active x \<and> rd_BudgetDelta x \<noteq> 0 \<longrightarrow>
        in_unit (cw_campaign v) x" by (auto simp: rs)
    show ?thesis
    proof (cases "rd_CampaignID r = Some ?cid")
      case True
      have "cp_BudgetUsed (cw_campaign v) - rd_BudgetDelta r = spent ?rs' ?cid" using ok(2) True by (simp add: spent')
      then show ?thesis
        using False True units ok(1) nonneg' [of ?cid]
        by (simp add: campaign_row_ok_def move_budget_def campaign_checks_used in_unit_def)
    next
      case other: False
      then show ?thesis
        using False units ok by (auto simp: campaign_row_ok_def move_budget_def spent')
    qed
  qed
  have "distinct (active_keys ?rs')"
    using ledger_okD(7) [OF assms(1)] assms(3) by (auto simp: rs active_keys_def)
  moreover have "distinct (map rd_ID ?rs')" using ledger_okD(3) [OF assms(1)] by (simp add: rs)
  ultimately show ?thesis
    unfolding ledger_ok_def book_ids book_tables rs'
    using ledger_okD(1,2) [OF assms(1)] promotions campaigns row_checks by auto
qed

section \<open>Every step keeps the ledger\<close>

lemma single_ok: "ledger_ok db \<Longrightarrow> (\<And>a db'. r = Inr (a, db') \<Longrightarrow> ledger_ok db') \<Longrightarrow> ledger_ok (snd (single err db r))"
  by (auto simp: single_def split: sum.splits)

lemma single_unit_ok: "ledger_ok db \<Longrightarrow> (\<And>db'. r = Inr db' \<Longrightarrow> ledger_ok db') \<Longrightarrow> ledger_ok (snd (single_unit err db r))"
  by (auto simp: single_unit_def split: sum.splits)

lemma conditional_ok: "ledger_ok db \<Longrightarrow> (\<And>a db'. r = Inr (a, db') \<Longrightarrow> ledger_ok db') \<Longrightarrow> ledger_ok (snd (conditional db r))"
  by (auto simp: conditional_def split: sum.splits)

lemma inTx_cases: "snd (inTx flt fn db) = db \<or> (\<exists>a. fn db = (Inr a, snd (inTx flt fn db)))"
  by (cases "fn db"; cases "fst (fn db)") (auto simp: inTx_def transact_def split: option.splits)

lemma inTx_ok:
  assumes "ledger_ok db" "\<And>a db'. fn db = (Inr a, db') \<Longrightarrow> ledger_ok db'"
  shows "ledger_ok (snd (inTx flt fn db))"
  using assms inTx_cases [of flt fn db] by metis

lemma ledger_Redeem:
  assumes "ledger_ok db" shows "ledger_ok (snd (Redeem flt req now db))"
  unfolding Redeem_def
proof (rule inTx_ok [OF assms])
  fix a db' assume tx: "redeem_tx flt req now db = (Inr a, db')"
  obtain r b where a: "a = (r, b)" by fastforce
  show "ledger_ok db'"
  proof (cases b)
    case True
    have "redeem_tx flt req now db = (Inr (r, True), db')" using tx a True by simp
    note new = redeem_tx_created [OF this]
    show ?thesis unfolding new(3) by (rule ledger_book [OF assms new(1,2)])
  next
    case False
    have "redeem_tx flt req now db = (Inr (r, False), db')" using tx a False by simp
    from redeem_tx_existing(1) [OF this] show ?thesis using assms by simp
  qed
qed

lemma ledger_Release:
  assumes "ledger_ok db" shows "ledger_ok (snd (Release flt pid ref now db))"
  unfolding Release_def
proof (rule inTx_ok [OF assms])
  fix a db' assume tx: "release_tx flt pid ref now db = (Inr a, db')"
  show "ledger_ok db'"
  proof (cases a)
    case None
    then have "db' = db" using tx by (auto simp: release_tx_def split: sum.splits if_splits)
    then show ?thesis using assms by simp
  next
    case (Some row)
    obtain r where r: "active_redemption db pid ref = Some r" "db' = unbook r now db" "live_promotion db pid \<noteq> None"
      using release_tx_released [OF assms tx [unfolded Some]] by blast
    then show ?thesis
      using ledger_unbook [OF assms active_redemption_row(1,4) [OF r(1)]] active_redemption_row(2) [OF r(1)] by auto
  qed
qed

lemma ledger_step:
  assumes "ledger_ok db" "promo_step db db'"
  shows "ledger_ok db'"
  using assms(2)
proof cases
  case (step_CreatePromotionWithMethod flt p m)
  show ?thesis
    unfolding step_CreatePromotionWithMethod repo_CreatePromotionWithMethod_def
    by (rule inTx_ok [OF assms(1)])
      (use ledger_InsertPromotion [OF assms(1)] ledger_UpsertApplicationMethod in \<open>fastforce split: sum.splits prod.splits\<close>)
next
  case (step_SetApplicationMethod flt m)
  show ?thesis
    unfolding step_SetApplicationMethod repo_SetApplicationMethod_def
    by (rule inTx_ok [OF assms(1)])
      (use assms(1) ledger_UpsertApplicationMethod in \<open>auto simp: single_def split: sum.splits option.splits\<close>)
next
  case (step_CreatePromotionRule flt r)
  show ?thesis
    unfolding step_CreatePromotionRule repo_CreatePromotionRule_def
    by (rule inTx_ok [OF assms(1)])
      (use assms(1) ledger_InsertPromotionRule in \<open>auto simp: single_def split: sum.splits option.splits\<close>)
next
  case (step_CreatePromotion flt p)
  show ?thesis
    unfolding step_CreatePromotion repo_CreatePromotion_def by (rule single_ok [OF assms(1)]) (rule ledger_InsertPromotion [OF assms(1)])
next
  case (step_UpdatePromotion flt p)
  show ?thesis
    unfolding step_UpdatePromotion repo_UpdatePromotion_def by (rule single_ok [OF assms(1)]) (rule ledger_UpdatePromotion [OF assms(1)])
next
  case (step_DeletePromotion flt eid)
  show ?thesis
    unfolding step_DeletePromotion repo_DeletePromotion_def by (rule single_unit_ok [OF assms(1)]) (rule ledger_SoftDeletePromotion [OF assms(1)])
next
  case (step_SwitchPromotionStatus flt eid f t)
  show ?thesis
    unfolding step_SwitchPromotionStatus repo_SwitchPromotionStatus_def by (rule conditional_ok [OF assms(1)]) (rule ledger_SwitchPromotionStatus [OF assms(1)])
next
  case (step_SetPromotionCampaign flt eid f t)
  show ?thesis
    unfolding step_SetPromotionCampaign repo_SetPromotionCampaign_def by (rule conditional_ok [OF assms(1)]) (rule ledger_SetPromotionCampaign [OF assms(1)])
next
  case (step_CreateCampaign flt c)
  show ?thesis
    unfolding step_CreateCampaign repo_CreateCampaign_def by (rule single_ok [OF assms(1)]) (rule ledger_InsertCampaign [OF assms(1)])
next
  case (step_UpdateCampaign flt c later)
  show ?thesis
    unfolding step_UpdateCampaign repo_UpdateCampaign_def by (rule single_ok [OF assms(1)]) (rule ledger_UpdateCampaign [OF assms(1)])
next
  case (step_ReviseCampaign flt eid u u')
  show ?thesis
    unfolding step_ReviseCampaign repo_ReviseCampaign_def by (rule conditional_ok [OF assms(1)]) (rule ledger_ReviseCampaign [OF assms(1)])
next
  case (step_DeleteCampaign flt eid)
  show ?thesis
    unfolding step_DeleteCampaign repo_DeleteCampaign_def by (rule single_unit_ok [OF assms(1)]) (rule ledger_SoftDeleteCampaign [OF assms(1)])
next
  case (step_ReviseMethodValue flt eid f v v')
  show ?thesis
    unfolding step_ReviseMethodValue repo_ReviseMethodValue_def by (rule conditional_ok [OF assms(1)]) (simp add: ledger_ReviseMethodValue assms(1))
next
  case (step_DeleteApplicationMethod flt eid)
  show ?thesis
    unfolding step_DeleteApplicationMethod repo_DeleteApplicationMethod_def by (rule single_unit_ok [OF assms(1)]) (simp add: ledger_SoftDeleteApplicationMethod assms(1))
next
  case (step_DeletePromotionRule flt eid)
  show ?thesis
    unfolding step_DeletePromotionRule repo_DeletePromotionRule_def by (rule single_unit_ok [OF assms(1)]) (simp add: ledger_SoftDeletePromotionRule assms(1))
qed (simp_all add: ledger_Redeem ledger_Release assms(1))

lemma reachable_ledger: "reachable_db db \<Longrightarrow> ledger_ok db"
  by (induction rule: reachable_db.induct) (auto simp: ledger_ok_empty intro: ledger_step)

end
