(* ===== verification/PromoRedeem.thy ===== *)
theory PromoRedeem
  imports PromoLedger
begin

text \<open>
  The properties of redeeming and releasing a promotion, over the reachable tables: the counters
  agree with the ledger, a redemption counts once however often it is tried, a release takes back
  exactly what was booked, and no counter is raised beyond its limit.
\<close>

section \<open>Example tables\<close>

definition no_faults :: faults where "no_faults = (\<lambda>_. None)"

definition spring_campaign :: campaign where
  "spring_campaign = \<lparr> cp_ID = ''camp_1'', cp_Name = ''Spring'', cp_Identifier = ''spring'', cp_Description = [],
    cp_StartsAt = Some 10000, cp_EndsAt = Some 20000, cp_BudgetType = ''spend'', cp_BudgetLimit = Some 5000,
    cp_BudgetUsed = 0, cp_BudgetCurrencyCode = ''USD'' \<rparr>"

definition spring_coupon :: promotion where
  "spring_coupon = \<lparr> pr_ID = ''promo_1'', pr_Code = ''SPRING10'', pr_IsAutomatic = False, pr_Type = ''standard'',
    pr_CampaignID = Some ''camp_1'', pr_Status = ''active'', pr_UsageLimit = Some 2, pr_UsageCount = 0 \<rparr>"

definition cart_redemption :: redemption where
  "cart_redemption = \<lparr> rd_ID = ''red_1'', rd_PromotionID = ''promo_1'', rd_CampaignID = None,
    rd_Reference = ''cart_1'', rd_Amount = 1200, rd_CurrencyCode = ''USD'', rd_BudgetDelta = 0,
    rd_ReleasedAt = None \<rparr>"

definition spring_db :: promo_db where
  "spring_db = snd (repo_CreatePromotion no_faults spring_coupon
    (snd (repo_CreateCampaign no_faults spring_campaign empty_db)))"

definition redeemed_db :: promo_db where
  "redeemed_db = snd (Redeem no_faults cart_redemption 15000 spring_db)"

lemma reachable_spring: "reachable_db spring_db"
  unfolding spring_db_def by (intro reachable_step [OF _ step_CreatePromotion] reachable_step [OF _ step_CreateCampaign]
      reachable_empty)

lemma reachable_redeemed: "reachable_db redeemed_db"
  unfolding redeemed_db_def by (rule reachable_step [OF reachable_spring step_Redeem])

section \<open>The ledger and the counters\<close>

text \<open>C2: the counters are what the ledger says. In every state the tables can reach, whatever was
  written, in whatever order and under whatever faults of the database, a promotion has been used
  as often as the ledger holds redemptions of it that were not released; the used budget of a live
  campaign is the sum of their shares, each of them in the unit the campaign's budget has now: the
  whole amount in the campaign's currency, or one use. A promotion and a reference have at most one
  such redemption.\<close>

theorem ledger_agrees:
  assumes "reachable_db db"
  shows "(\<forall>w \<in> set (t_promotion db). pr_UsageCount (pw_promo w) = uses (t_redemption db) (pr_ID (pw_promo w))) \<and>
    (\<forall>w \<in> set (t_campaign db). \<not> cw_deleted w \<longrightarrow>
      cp_BudgetUsed (cw_campaign w) = spent (t_redemption db) (cp_ID (cw_campaign w)) \<and>
      (\<forall>r \<in> set (t_redemption db). rd_CampaignID r = Some (cp_ID (cw_campaign w)) \<and> active r \<and>
        rd_BudgetDelta r \<noteq> 0 \<longrightarrow> in_unit (cw_campaign w) r)) \<and>
    (\<forall>r \<in> set (t_redemption db). \<forall>r' \<in> set (t_redemption db).
      active r \<and> active r' \<and> rd_PromotionID r = rd_PromotionID r' \<and> rd_Reference r = rd_Reference r' \<longrightarrow> r = r')"
proof -
  note ok = reachable_ledger [OF assms]
  have "inj_on (\<lambda>r. (rd_PromotionID r, rd_Reference r)) (set (filter (\<lambda>r. active r) (t_redemption db)))"
    using ledger_okD(7) [OF ok] by (simp add: active_keys_def distinct_map)
  then have "\<forall>r \<in> set (t_redemption db). \<forall>r' \<in> set (t_redemption db).
      active r \<and> active r' \<and> rd_PromotionID r = rd_PromotionID r' \<and> rd_Reference r = rd_Reference r' \<longrightarrow> r = r'"
    by (auto simp: inj_on_def)
  moreover have "\<forall>w \<in> set (t_promotion db). pr_UsageCount (pw_promo w) = uses (t_redemption db) (pr_ID (pw_promo w))"
    using ledger_okD(4) [OF ok] by (simp add: promotion_row_ok_def)
  moreover have "\<forall>w \<in> set (t_campaign db). \<not> cw_deleted w \<longrightarrow>
      cp_BudgetUsed (cw_campaign w) = spent (t_redemption db) (cp_ID (cw_campaign w)) \<and>
      (\<forall>r \<in> set (t_redemption db). rd_CampaignID r = Some (cp_ID (cw_campaign w)) \<and> active r \<and>
        rd_BudgetDelta r \<noteq> 0 \<longrightarrow> in_unit (cw_campaign w) r)"
    using ledger_okD(5) [OF ok] by (simp add: campaign_row_ok_def)
  ultimately show ?thesis by blast
qed

theorem ledger_agrees_witness:
  "\<exists>w. t_promotion redeemed_db = [w] \<and> pr_UsageCount (pw_promo w) = 1 \<and>
    uses (t_redemption redeemed_db) (pr_ID (pw_promo w)) = 1 \<and>
    spent (t_redemption redeemed_db) ''camp_1'' = 1200"
proof -
  have facts: "length (t_promotion redeemed_db) = 1" "list_all (\<lambda>w. pr_UsageCount (pw_promo w) = 1) (t_promotion redeemed_db)"
    "spent (t_redemption redeemed_db) ''camp_1'' = 1200" by code_simp+
  then obtain w where "t_promotion redeemed_db = [w]" "pr_UsageCount (pw_promo w) = 1"
    by (cases "t_promotion redeemed_db") auto
  with facts ledger_agrees [OF reachable_redeemed] show ?thesis by (intro exI [of _ w]) simp
qed

section \<open>Redeeming\<close>

lemma inTx_outcome:
  assumes "inTx flt fn db = (res, db')"
  shows "case res of
      Inr a \<Rightarrow> fn db = (Inr a, db')
    | Inl e \<Rightarrow> db' = db \<or> (\<exists>a. fn db = (Inr a, db') \<and> flt ''commit'' \<noteq> None \<and> flt ''commit lost'' \<noteq> None)"
  using assms
  by (cases "fn db"; cases "fst (fn db)") (auto simp: inTx_def transact_def split: option.splits if_splits sum.splits)

lemma inTx_no_faults [simp]:
  "inTx no_faults fn db = (case fn db of (Inl e, _) \<Rightarrow> (Inl e, db) | (Inr a, db') \<Rightarrow> (Inr a, db'))"
  by (simp add: inTx_def transact_def no_faults_def split: prod.split sum.split)

lemma statement_no_faults [simp]: "statement no_faults name r = r"
  by (simp add: statement_def no_faults_def)

lemma find_app: "find P (xs @ [x]) = (case find P xs of Some y \<Rightarrow> Some y | None \<Rightarrow> if P x then Some x else None)"
  by (induction xs) auto

lemma active_redemption_book:
  assumes "redeem_gates req now r db" "rd_PromotionID r = rd_PromotionID req"
  shows "active_redemption (book r db) (rd_PromotionID req) (rd_Reference req) = Some r"
proof -
  have "rd_Reference r = rd_Reference req" "active r"
    using assms(1) by (simp_all add: redeem_gates_def)
  moreover have "active_redemption db (rd_PromotionID req) (rd_Reference req) = None"
    using assms(1) by (simp add: redeem_gates_def)
  ultimately show ?thesis using assms(2) by (simp add: active_redemption_def find_app)
qed

lemma live_promotion_book:
  "live_promotion (book r db) pid = map_option
    (\<lambda>p. p\<lparr> pr_UsageCount := pr_UsageCount p + (if rd_PromotionID r = pid then 1 else 0) \<rparr>) (live_promotion db pid)"
proof -
  have "map_option pw_promo (find (\<lambda>w. pr_ID (pw_promo w) = pid \<and> \<not> pw_deleted w) (map (move_use k 1) ws)) =
    map_option (\<lambda>p. p\<lparr> pr_UsageCount := pr_UsageCount p + (if k = pid then 1 else 0) \<rparr>)
      (map_option pw_promo (find (\<lambda>w. pr_ID (pw_promo w) = pid \<and> \<not> pw_deleted w) ws))" for k ws
    by (induction ws) (auto simp: move_use_def)
  then show ?thesis by (simp add: live_promotion_def book_tables)
qed

lemma live_campaign_book:
  "live_campaign (book r db) cid = map_option
    (\<lambda>c. c\<lparr> cp_BudgetUsed := cp_BudgetUsed c + (if rd_CampaignID r = Some cid then rd_BudgetDelta r else 0) \<rparr>)
    (live_campaign db cid)"
proof -
  have "map_option cw_campaign (find (\<lambda>w. cp_ID (cw_campaign w) = cid \<and> \<not> cw_deleted w) (map (move_budget k d) ws)) =
    map_option (\<lambda>c. c\<lparr> cp_BudgetUsed := cp_BudgetUsed c + (if k = Some cid then d else 0) \<rparr>)
      (map_option cw_campaign (find (\<lambda>w. cp_ID (cw_campaign w) = cid \<and> \<not> cw_deleted w) ws))" for k d ws
    by (induction ws) (auto simp: move_budget_def)
  then show ?thesis by (simp add: live_campaign_def book_tables)
qed

lemma WindowContains_used [simp]: "WindowContains (c\<lparr> cp_BudgetUsed := k \<rparr>) t = WindowContains c t"
  by (simp add: WindowContains_def)

lemma redeem_gates_campaign:
  assumes "redeem_gates req now r db" "rd_CampaignID r = Some cid"
  shows "\<exists>c. live_campaign db cid = Some c \<and> WindowContains c now \<and>
    (cp_BudgetType c = ''spend'' \<longrightarrow> cp_BudgetCurrencyCode c = rd_CurrencyCode r) \<and>
    (rd_BudgetDelta r > 0 \<longrightarrow>
      (case cp_BudgetLimit c of None \<Rightarrow> True | Some l \<Rightarrow> cp_BudgetUsed c + rd_BudgetDelta r \<le> l))"
proof -
  have "rd_CurrencyCode r = rd_CurrencyCode req" using assms(1) by (simp add: redeem_gates_def)
  moreover obtain c where "live_campaign db cid = Some c" "WindowContains c now"
    "cp_BudgetType c = BudgetSpend \<longrightarrow> cp_BudgetCurrencyCode c = rd_CurrencyCode req"
    "rd_BudgetDelta r > 0 \<longrightarrow>
      (case cp_BudgetLimit c of None \<Rightarrow> True | Some l \<Rightarrow> cp_BudgetUsed c + rd_BudgetDelta r \<le> l)"
    using assms unfolding redeem_gates_def by fastforce
  ultimately show ?thesis by (simp add: BudgetSpend_def)
qed

lemma redeem_gates_row:
  assumes "redeem_gates req now r db"
  shows "r = req\<lparr> rd_CampaignID := rd_CampaignID r, rd_ReleasedAt := None,
    rd_BudgetDelta :=
      (case map_option cp_BudgetType (Option.bind (rd_CampaignID r) (live_campaign db)) of
        None \<Rightarrow> 0
      | Some t \<Rightarrow> if t = ''spend'' then rd_Amount req else if t = ''usage'' then 1 else 0) \<rparr>"
proof (rule redemption.equality)
  show "rd_BudgetDelta r = rd_BudgetDelta (req\<lparr> rd_CampaignID := rd_CampaignID r, rd_ReleasedAt := None,
    rd_BudgetDelta :=
      (case map_option cp_BudgetType (Option.bind (rd_CampaignID r) (live_campaign db)) of
        None \<Rightarrow> 0
      | Some t \<Rightarrow> if t = ''spend'' then rd_Amount req else if t = ''usage'' then 1 else 0) \<rparr>)"
    using assms unfolding redeem_gates_def
    by (auto simp: BudgetDeltaFor_def BudgetSpend_def BudgetUsage_def split: option.splits)
qed (use assms in \<open>auto simp: redeem_gates_def\<close>)

text \<open>C4: a redemption is written whole or not at all, and within the limits. An error leaves
  the tables as they were, unless the commit took effect and only its answer was lost. The record
  of an earlier call is given back with the tables unchanged. A new record is exactly one more use
  of the promotion, its share of the campaign's budget and one row of the ledger. That row is the
  request's, with the promotion's campaign and its share of the budget: the whole amount under a
  spend budget, which is then in the request's currency, one under a usage budget, nothing without
  a campaign. The promotion is then active and used no more often than its limit allows, and a
  share that was booked is within the limit of the campaign.\<close>

theorem redeem_exact:
  assumes "Redeem flt req now db = (res, db')"
  shows "case res of
      Inl e \<Rightarrow> db' = db \<or> flt ''commit'' \<noteq> None \<and> flt ''commit lost'' \<noteq> None
    | Inr (r, new) \<Rightarrow>
        (if new then
           active_redemption db (rd_PromotionID req) (rd_Reference req) = None \<and>
           active_redemption db' (rd_PromotionID req) (rd_Reference req) = Some r \<and> db' = book r db \<and>
           (\<exists>p. live_promotion db' (rd_PromotionID req) = Some p \<and> pr_Status p = PromotionActive \<and>
             (case pr_UsageLimit p of None \<Rightarrow> True | Some l \<Rightarrow> pr_UsageCount p \<le> l) \<and>
             r = req\<lparr> rd_CampaignID := pr_CampaignID p, rd_ReleasedAt := None,
               rd_BudgetDelta :=
                 (case map_option cp_BudgetType (Option.bind (pr_CampaignID p) (live_campaign db)) of
                   None \<Rightarrow> 0
                 | Some t \<Rightarrow> if t = ''spend'' then rd_Amount req else if t = ''usage'' then 1 else 0) \<rparr>) \<and>
           (\<forall>cid. rd_CampaignID r = Some cid \<longrightarrow> (\<exists>c. live_campaign db' cid = Some c \<and> WindowContains c now \<and>
             (cp_BudgetType c = ''spend'' \<longrightarrow> cp_BudgetCurrencyCode c = rd_CurrencyCode r) \<and>
             (rd_BudgetDelta r > 0 \<longrightarrow>
               (case cp_BudgetLimit c of None \<Rightarrow> True | Some l \<Rightarrow> cp_BudgetUsed c \<le> l))))
         else active_redemption db (rd_PromotionID req) (rd_Reference req) = Some r \<and> db' = db)"
proof (cases res)
  case (Inl e)
  then show ?thesis using inTx_outcome [OF assms [unfolded Redeem_def]] by auto
next
  case (Inr a)
  then have tx: "redeem_tx flt req now db = (Inr a, db')"
    using inTx_outcome [OF assms [unfolded Redeem_def]] by simp
  obtain r new where a: "a = (r, new)" by fastforce
  show ?thesis
  proof (cases new)
    case False
    then show ?thesis using redeem_tx_existing [of flt req now db r db'] tx a Inr by simp
  next
    case True
    then have "redeem_tx flt req now db = (Inr (r, True), db')" using tx a by simp
    note new = redeem_tx_created [OF this]
    note g = new(1) [unfolded redeem_gates_def]
    have promotion: "\<exists>p. live_promotion db' (rd_PromotionID req) = Some p \<and> pr_Status p = PromotionActive \<and>
        (case pr_UsageLimit p of None \<Rightarrow> True | Some l \<Rightarrow> pr_UsageCount p \<le> l) \<and>
        r = req\<lparr> rd_CampaignID := pr_CampaignID p, rd_ReleasedAt := None,
          rd_BudgetDelta :=
            (case map_option cp_BudgetType (Option.bind (pr_CampaignID p) (live_campaign db)) of
              None \<Rightarrow> 0
            | Some t \<Rightarrow> if t = ''spend'' then rd_Amount req else if t = ''usage'' then 1 else 0) \<rparr>"
    proof -
      obtain p where p: "live_promotion db (rd_PromotionID req) = Some p" "pr_Status p = PromotionActive"
        "case pr_UsageLimit p of None \<Rightarrow> True | Some l \<Rightarrow> pr_UsageCount p + 1 \<le> l"
        "rd_CampaignID r = pr_CampaignID p"
        using g by blast
      then show ?thesis
        using redeem_gates_row [OF new(1)]
        by (auto simp: new(2,3) live_promotion_book split: option.splits)
    qed
    have campaign: "\<exists>c. live_campaign db' cid = Some c \<and> WindowContains c now \<and>
        (cp_BudgetType c = ''spend'' \<longrightarrow> cp_BudgetCurrencyCode c = rd_CurrencyCode r) \<and>
        (rd_BudgetDelta r > 0 \<longrightarrow> (case cp_BudgetLimit c of None \<Rightarrow> True | Some l \<Rightarrow> cp_BudgetUsed c \<le> l))"
      if cid: "rd_CampaignID r = Some cid" for cid
    proof -
      obtain c where c: "live_campaign db cid = Some c" "WindowContains c now"
        "cp_BudgetType c = ''spend'' \<longrightarrow> cp_BudgetCurrencyCode c = rd_CurrencyCode r"
        "rd_BudgetDelta r > 0 \<longrightarrow>
          (case cp_BudgetLimit c of None \<Rightarrow> True | Some l \<Rightarrow> cp_BudgetUsed c + rd_BudgetDelta r \<le> l)"
        using redeem_gates_campaign [OF new(1) cid] by blast
      then have "live_campaign db' cid = Some (c\<lparr> cp_BudgetUsed := cp_BudgetUsed c + rd_BudgetDelta r \<rparr>)"
        using cid by (simp add: new(3) live_campaign_book)
      moreover have "WindowContains (c\<lparr> cp_BudgetUsed := cp_BudgetUsed c + rd_BudgetDelta r \<rparr>) now"
        using c(2) by simp
      ultimately show ?thesis using c(3,4) by (simp split: option.splits)
    qed
    show ?thesis
      using g promotion campaign active_redemption_book [OF new(1,2)] True a Inr by (auto simp: new(3))
  qed
qed

lemma redeemed_result:
  obtains r where "Redeem no_faults cart_redemption 15000 spring_db = (Inr (r, True), redeemed_db)"
    "rd_BudgetDelta r = 1200"
proof -
  have "case fst (Redeem no_faults cart_redemption 15000 spring_db) of
      Inl e \<Rightarrow> False | Inr (r, new) \<Rightarrow> new \<and> rd_BudgetDelta r = 1200" by code_simp
  then obtain r where "fst (Redeem no_faults cart_redemption 15000 spring_db) = Inr (r, True)" "rd_BudgetDelta r = 1200"
    by (auto split: sum.splits)
  then have "Redeem no_faults cart_redemption 15000 spring_db = (Inr (r, True), redeemed_db)"
    by (simp only: redeemed_db_def prod_eq_iff fst_conv snd_conv)
  with \<open>rd_BudgetDelta r = 1200\<close> show ?thesis using that by blast
qed

theorem redeem_exact_witness:
  "\<exists>r. Redeem no_faults cart_redemption 15000 spring_db = (Inr (r, True), redeemed_db) \<and>
    redeemed_db = book r spring_db \<and> rd_BudgetDelta r = 1200"
proof -
  obtain r where r: "Redeem no_faults cart_redemption 15000 spring_db = (Inr (r, True), redeemed_db)"
    "rd_BudgetDelta r = 1200" by (rule redeemed_result)
  have "redeemed_db = book r spring_db" using redeem_exact [OF r(1)] by simp
  with r show ?thesis by blast
qed

text \<open>a redemption counts once. After a call that succeeded, and after one whose commit took
  effect although the caller was told it failed, the same call again, with whatever amount, time or
  identity the second one brings, gives back the record of the first and changes nothing, also
  when the promotion has been stopped, its campaign closed or its uses been spent in between.\<close>

theorem redeem_once:
  assumes "Redeem flt req now db = (res, db')" and "(\<exists>a. res = Inr a) \<or> db' \<noteq> db"
    and "rd_PromotionID req' = rd_PromotionID req" and "rd_Reference req' = rd_Reference req"
    and "active_redemption db2 (rd_PromotionID req) (rd_Reference req) =
      active_redemption db' (rd_PromotionID req) (rd_Reference req)"
    and "live_promotion db2 (rd_PromotionID req) \<noteq> None"
  shows "\<exists>r. active_redemption db' (rd_PromotionID req) (rd_Reference req) = Some r \<and>
    Redeem no_faults req' now' db2 = (Inr (r, False), db2)"
proof -
  obtain a where tx: "redeem_tx flt req now db = (Inr a, db')"
    using inTx_outcome [OF assms(1) [unfolded Redeem_def]] assms(2) by (auto split: sum.splits)
  obtain r new where a: "a = (r, new)" by fastforce
  have r: "active_redemption db' (rd_PromotionID req) (rd_Reference req) = Some r"
  proof (cases new)
    case True
    then have "redeem_tx flt req now db = (Inr (r, True), db')" using tx a by simp
    note n = redeem_tx_created [OF this]
    show ?thesis unfolding n(3) by (rule active_redemption_book [OF n(1,2)])
  next
    case False
    then show ?thesis using redeem_tx_existing [of flt req now db r db'] tx a by simp
  qed
  then have "redeem_tx no_faults req' now' db2 = (Inr (r, False), db2)"
    using assms(3-6) by (auto simp: redeem_tx_def q_LockPromotion_def q_GetActiveRedemption_def found_def)
  then show ?thesis using r by (simp add: Redeem_def)
qed

definition stopped_db :: promo_db where
  "stopped_db = snd (repo_SwitchPromotionStatus no_faults ''promo_1'' ''active'' ''inactive'' redeemed_db)"

theorem redeem_once_witness:
  "\<exists>r. Redeem no_faults (cart_redemption\<lparr> rd_ID := ''red_2'', rd_Amount := 7 \<rparr>) 99 stopped_db = (Inr (r, False), stopped_db) \<and>
    (\<exists>p. live_promotion stopped_db ''promo_1'' = Some p \<and> pr_Status p = ''inactive'')"
proof -
  obtain r where r: "Redeem no_faults cart_redemption 15000 spring_db = (Inr (r, True), redeemed_db)"
    by (rule redeemed_result)
  have same: "t_redemption stopped_db = t_redemption redeemed_db"
    by (auto simp: stopped_db_def repo_SwitchPromotionStatus_def conditional_def q_SwitchPromotionStatus_def Let_def
        split: sum.splits option.splits if_splits)
  have "case live_promotion stopped_db ''promo_1'' of None \<Rightarrow> False | Some p \<Rightarrow> pr_Status p = ''inactive''"
    by code_simp
  then obtain p where p: "live_promotion stopped_db ''promo_1'' = Some p" "pr_Status p = ''inactive''"
    by (auto split: option.splits)
  have "\<exists>r. active_redemption redeemed_db ''promo_1'' ''cart_1'' = Some r \<and>
      Redeem no_faults (cart_redemption\<lparr> rd_ID := ''red_2'', rd_Amount := 7 \<rparr>) 99 stopped_db = (Inr (r, False), stopped_db)"
    using redeem_once [OF r disjI1 [OF exI [of _ "(r, True)"]], of "cart_redemption\<lparr> rd_ID := ''red_2'', rd_Amount := 7 \<rparr>" stopped_db 99] p(1) same
    by (simp add: cart_redemption_def active_redemption_def)
  with p show ?thesis by blast
qed

section \<open>Releasing\<close>

lemma release_tx_no_faults:
  assumes "live_promotion db pid = Some p"
  shows "\<exists>res. fst (release_tx no_faults pid ref now db) = Inr res \<and>
    (res = None \<longleftrightarrow> active_redemption db pid ref = None)"
proof (cases "active_redemption db pid ref")
  case None
  then show ?thesis using assms by (simp add: release_tx_def q_LockPromotion_def q_LockActiveRedemption_def found_def)
next
  case (Some r)
  have "\<exists>db1. release_budget no_faults r db = Inr db1 \<and> t_promotion db1 = t_promotion db \<and>
      t_redemption db1 = t_redemption db"
    by (cases "rd_CampaignID r"; cases "live_campaign db (the (rd_CampaignID r))")
      (simp_all add: release_budget_def q_DecrementCampaignBudget_def)
  then obtain db1 where rb: "release_budget no_faults r db = Inr db1"
    "t_promotion db1 = t_promotion db" "t_redemption db1 = t_redemption db" by blast
  have live: "live_promotion db1 pid = Some p" using assms rb(2) by (simp add: live_promotion_def)
  obtain db2 where du: "q_DecrementPromotionUsage no_faults pid db1 = Inr db2" "t_redemption db2 = t_redemption db"
    using live rb(3) by (auto simp: q_DecrementPromotionUsage_def)
  have "find (\<lambda>x. rd_ID x = rd_ID r \<and> active x) (t_redemption db2) \<noteq> None"
    using active_redemption_row(1,4) [OF Some] du(2) by (auto simp: find_None_iff)
  then show ?thesis
    using assms Some rb(1) du(1)
    by (auto simp: release_tx_def q_LockPromotion_def q_LockActiveRedemption_def q_MarkRedemptionReleased_def found_def)
qed

text \<open>C24: a release takes back exactly what was booked, and it gets there. Over a reachable state, an
  error leaves the tables as they were unless the commit's answer was lost; when there is nothing
  to release nothing changes; otherwise the record released is the active one, and the promotion's
  counter, the budget of the campaign it was booked on, if that is still live, and the row itself
  are what the redemption made of them, taken back. As long as the promotion is there and the
  database answers, a release succeeds, whether there is anything to release or not; of a promotion
  that was deleted no redemption can be released any more.\<close>

theorem release_exact:
  assumes "reachable_db db" and "Release flt pid ref now db = (res, db')"
  shows "(case res of
      Inl e \<Rightarrow> db' = db \<or> flt ''commit'' \<noteq> None \<and> flt ''commit lost'' \<noteq> None
    | Inr None \<Rightarrow> db' = db \<and> active_redemption db pid ref = None
    | Inr (Some row) \<Rightarrow> (\<exists>r. active_redemption db pid ref = Some r \<and> row = r\<lparr> rd_ReleasedAt := Some (column_time now) \<rparr> \<and>
        db' = unbook r now db)) \<and>
    (flt = no_faults \<longrightarrow>
      (if live_promotion db pid = None then res = Inl (NotFound CodePromotionNotFound) else (\<exists>a. res = Inr a)))"
proof (intro conjI impI)
  note out = inTx_outcome [OF assms(2) [unfolded Release_def]]
  note ok = reachable_ledger [OF assms(1)]
  show "case res of
      Inl e \<Rightarrow> db' = db \<or> flt ''commit'' \<noteq> None \<and> flt ''commit lost'' \<noteq> None
    | Inr None \<Rightarrow> db' = db \<and> active_redemption db pid ref = None
    | Inr (Some row) \<Rightarrow> (\<exists>r. active_redemption db pid ref = Some r \<and> row = r\<lparr> rd_ReleasedAt := Some (column_time now) \<rparr> \<and>
        db' = unbook r now db)"
  proof (cases res)
    case (Inl e)
    then show ?thesis using out by auto
  next
    case (Inr a)
    then have tx: "release_tx flt pid ref now db = (Inr a, db')" using out by simp
    show ?thesis
    proof (cases a)
      case None
      then show ?thesis
        using tx Inr
        by (auto simp: release_tx_def q_LockActiveRedemption_def statement_def found_def
            split: sum.splits if_splits option.splits prod.splits)
    next
      case (Some row)
      have "release_tx flt pid ref now db = (Inr (Some row), db')" using tx Some by simp
      from release_tx_released [OF ok this] show ?thesis using Some Inr by auto
    qed
  qed
  assume nf: "flt = no_faults"
  show "if live_promotion db pid = None then res = Inl (NotFound CodePromotionNotFound) else (\<exists>a. res = Inr a)"
  proof (cases "live_promotion db pid")
    case None
    then show ?thesis
      using assms(2) nf by (simp add: Release_def release_tx_def q_LockPromotion_def found_def notFoundOr_def)
  next
    case (Some p)
    have "\<exists>a. fst (release_tx no_faults pid ref now db) = Inr a"
      using release_tx_no_faults [OF Some, of ref now] by blast
    then show ?thesis
      using assms(2) nf Some by (cases "release_tx no_faults pid ref now db") (auto simp: Release_def)
  qed
qed

theorem release_exact_witness:
  "\<exists>r. active_redemption redeemed_db ''promo_1'' ''cart_1'' = Some r \<and>
    Release no_faults ''promo_1'' ''cart_1'' 18000 redeemed_db =
      (Inr (Some (r\<lparr> rd_ReleasedAt := Some (column_time 18000) \<rparr>)), unbook r 18000 redeemed_db) \<and>
    t_campaign (unbook r 18000 redeemed_db) = t_campaign spring_db \<and>
    fst (Release no_faults ''promo_2'' ''cart_1'' 18000 redeemed_db) = Inl (NotFound CodePromotionNotFound)"
proof -
  obtain res db' where rel: "Release no_faults ''promo_1'' ''cart_1'' 18000 redeemed_db = (res, db')" by fastforce
  obtain res' db'' where rel': "Release no_faults ''promo_2'' ''cart_1'' 18000 redeemed_db = (res', db'')" by fastforce
  have facts: "live_promotion redeemed_db ''promo_1'' \<noteq> None" "live_promotion redeemed_db ''promo_2'' = None"
    "active_redemption redeemed_db ''promo_1'' ''cart_1'' \<noteq> None" by code_simp+
  have restored: "t_campaign (snd (Release no_faults ''promo_1'' ''cart_1'' 18000 redeemed_db)) = t_campaign spring_db"
    by code_simp
  note ex = release_exact [OF reachable_redeemed rel]
  obtain a where a: "res = Inr a" using ex facts(1) by auto
  then obtain row where row: "a = Some row" using ex facts(3) by (cases a) auto
  then obtain r where r: "active_redemption redeemed_db ''promo_1'' ''cart_1'' = Some r"
    "row = r\<lparr> rd_ReleasedAt := Some (column_time 18000) \<rparr>" "db' = unbook r 18000 redeemed_db" using ex a by auto
  have "res' = Inl (NotFound CodePromotionNotFound)"
    using release_exact [OF reachable_redeemed rel'] facts(2) by simp
  with r a row rel rel' restored show ?thesis by auto
qed

text \<open>C35: releasing a redemption undoes it. When a redemption was just written and is released, the
  counters of every promotion and every campaign are what they were before, and of the redemption
  only its row remains, marked as released; a second release finds nothing to do.\<close>

theorem redeem_release_roundtrip:
  assumes "reachable_db db" and "Redeem flt req now db = (Inr (r, True), db')"
  shows "\<exists>db''. Release no_faults (rd_PromotionID req) (rd_Reference req) at db' =
      (Inr (Some (r\<lparr> rd_ReleasedAt := Some (column_time at) \<rparr>)), db'') \<and>
    t_promotion db'' = t_promotion db \<and> t_campaign db'' = t_campaign db \<and>
    t_redemption db'' = t_redemption db @ [r\<lparr> rd_ReleasedAt := Some (column_time at) \<rparr>] \<and>
    Release no_faults (rd_PromotionID req) (rd_Reference req) at' db'' = (Inr None, db'')"
proof -
  note ok = reachable_ledger [OF assms(1)]
  have "redeem_tx flt req now db = (Inr (r, True), db')"
    using inTx_outcome [OF assms(2) [unfolded Redeem_def]] by simp
  note new = redeem_tx_created [OF this]
  have ok': "ledger_ok db'" unfolding new(3) by (rule ledger_book [OF ok new(1,2)])
  have act: "active_redemption db' (rd_PromotionID req) (rd_Reference req) = Some r"
    unfolding new(3) by (rule active_redemption_book [OF new(1,2)])
  obtain p where p: "live_promotion db' (rd_PromotionID req) = Some p"
    using new(1) by (auto simp: new(2,3) redeem_gates_def live_promotion_book)
  obtain a db2 where "release_tx no_faults (rd_PromotionID req) (rd_Reference req) at db' = (Inr a, db2)" "a \<noteq> None"
    using release_tx_no_faults [OF p, of "rd_Reference req" at] act
    by (cases "release_tx no_faults (rd_PromotionID req) (rd_Reference req) at db'") auto
  then obtain row where tx: "release_tx no_faults (rd_PromotionID req) (rd_Reference req) at db' = (Inr (Some row), db2)"
    by auto
  have row: "row = r\<lparr> rd_ReleasedAt := Some (column_time at) \<rparr>" and db2: "db2 = unbook r at db'"
    using release_tx_released [OF ok' tx] act by auto
  have r: "active r" "rd_PromotionID r = rd_PromotionID req" "rd_ID r \<notin> rd_ID ` set (t_redemption db)"
    using new(1) unfolding redeem_gates_def by blast+
  have promotions: "t_promotion db2 = t_promotion db"
    by (simp add: db2 new(3) book_tables, rule map_idI) (auto simp: move_use_def)
  have campaigns: "t_campaign db2 = t_campaign db"
    by (simp add: db2 new(3) book_tables, rule map_idI) (auto simp: move_budget_def)
  have "released (rd_ID r) at x = x" if "x \<in> set (t_redemption db)" for x
    using r(3) imageI [OF that, of rd_ID] by (auto simp: released_def)
  then have redemptions: "t_redemption db2 = t_redemption db @ [r\<lparr> rd_ReleasedAt := Some (column_time at) \<rparr>]"
    using r(1) by (simp add: db2 new(3) map_idI) (simp add: released_def)
  have "active_redemption db2 (rd_PromotionID req) (rd_Reference req) = None"
  proof -
    have "active_redemption db (rd_PromotionID req) (rd_Reference req) = None"
      using new(1) by (simp add: redeem_gates_def)
    then show ?thesis by (simp add: active_redemption_def redemptions find_app)
  qed
  moreover have "live_promotion db2 (rd_PromotionID req) \<noteq> None"
    using new(1) promotions by (auto simp: live_promotion_def redeem_gates_def)
  ultimately have "Release no_faults (rd_PromotionID req) (rd_Reference req) at' db2 = (Inr None, db2)"
    by (auto simp: Release_def release_tx_def q_LockPromotion_def q_LockActiveRedemption_def found_def)
  moreover have "Release no_faults (rd_PromotionID req) (rd_Reference req) at db' =
      (Inr (Some (r\<lparr> rd_ReleasedAt := Some (column_time at) \<rparr>)), db2)"
    by (simp add: Release_def tx row)
  ultimately show ?thesis using promotions campaigns redemptions by blast
qed

theorem redeem_release_roundtrip_witness:
  "\<exists>db''. fst (Release no_faults ''promo_1'' ''cart_1'' 18000 redeemed_db) \<noteq> Inr None \<and>
    snd (Release no_faults ''promo_1'' ''cart_1'' 18000 redeemed_db) = db'' \<and>
    t_promotion db'' = t_promotion spring_db \<and> length (t_redemption db'') = 1"
proof -
  obtain r where r: "Redeem no_faults cart_redemption 15000 spring_db = (Inr (r, True), redeemed_db)"
    by (rule redeemed_result)
  have "t_redemption spring_db = []" by code_simp
  then show ?thesis
    using redeem_release_roundtrip [OF reachable_spring r, of 18000 19000] by (auto simp: cart_redemption_def)
qed

section \<open>Limits\<close>

text \<open>Only a redemption writes a row to the ledger, and only a release marks one.\<close>

lemma single_ledger:
  "(\<And>a db'. r = Inr (a, db') \<Longrightarrow> t_redemption db' = t_redemption db) \<Longrightarrow>
    t_redemption (snd (single err db r)) = t_redemption db"
  by (auto simp: single_def split: sum.splits)

lemma single_unit_ledger:
  "(\<And>db'. r = Inr db' \<Longrightarrow> t_redemption db' = t_redemption db) \<Longrightarrow>
    t_redemption (snd (single_unit err db r)) = t_redemption db"
  by (auto simp: single_unit_def split: sum.splits)

lemma conditional_ledger:
  "(\<And>a db'. r = Inr (a, db') \<Longrightarrow> t_redemption db' = t_redemption db) \<Longrightarrow>
    t_redemption (snd (conditional db r)) = t_redemption db"
  by (auto simp: conditional_def split: sum.splits)

lemma inTx_ledger:
  assumes "\<And>a db'. fn db = (Inr a, db') \<Longrightarrow> t_redemption db' = t_redemption db"
  shows "t_redemption (snd (inTx flt fn db)) = t_redemption db"
  using inTx_cases [of flt fn db] assms by metis

lemma statements_ledger:
  "q_InsertPromotion flt p db = Inr (row1, db') \<Longrightarrow> t_redemption db' = t_redemption db"
  "q_UpdatePromotion flt p db = Inr (row1, db') \<Longrightarrow> t_redemption db' = t_redemption db"
  "q_SoftDeletePromotion flt eid db = Inr db' \<Longrightarrow> t_redemption db' = t_redemption db"
  "q_SwitchPromotionStatus flt eid f t db = Inr (row1, db') \<Longrightarrow> t_redemption db' = t_redemption db"
  "q_SetPromotionCampaign flt eid f' t' db = Inr (row1, db') \<Longrightarrow> t_redemption db' = t_redemption db"
  "q_InsertCampaign flt c db = Inr (row2, db') \<Longrightarrow> t_redemption db' = t_redemption db"
  "q_UpdateCampaign flt c db = Inr (row2, db') \<Longrightarrow> t_redemption db' = t_redemption db"
  "q_ReviseCampaign flt eid u u' db = Inr (row2, db') \<Longrightarrow> t_redemption db' = t_redemption db"
  "q_SoftDeleteCampaign flt eid db = Inr db' \<Longrightarrow> t_redemption db' = t_redemption db"
  "q_UpsertApplicationMethod flt m db = Inr (row3, db') \<Longrightarrow> t_redemption db' = t_redemption db"
  "q_ReviseMethodValue flt eid f v v' db = Inr (row3, db') \<Longrightarrow> t_redemption db' = t_redemption db"
  "q_SoftDeleteApplicationMethod flt eid db = Inr db' \<Longrightarrow> t_redemption db' = t_redemption db"
  "q_InsertPromotionRule flt ru db = Inr (row4, db') \<Longrightarrow> t_redemption db' = t_redemption db"
  "q_SoftDeletePromotionRule flt eid db = Inr db' \<Longrightarrow> t_redemption db' = t_redemption db"
  by (auto simp: q_InsertPromotion_def q_UpdatePromotion_def q_SoftDeletePromotion_def q_SwitchPromotionStatus_def
      q_SetPromotionCampaign_def q_InsertCampaign_def q_UpdateCampaign_def q_ReviseCampaign_def
      q_SoftDeleteCampaign_def q_UpsertApplicationMethod_def q_ReviseMethodValue_def
      q_SoftDeleteApplicationMethod_def q_InsertPromotionRule_def q_SoftDeletePromotionRule_def Let_def
      split: option.splits if_splits)

lemma admin_ledger:
  "t_redemption (snd (repo_CreatePromotion flt p db)) = t_redemption db"
  "t_redemption (snd (repo_UpdatePromotion flt p db)) = t_redemption db"
  "t_redemption (snd (repo_DeletePromotion flt eid db)) = t_redemption db"
  "t_redemption (snd (repo_SwitchPromotionStatus flt eid f t db)) = t_redemption db"
  "t_redemption (snd (repo_SetPromotionCampaign flt eid f' t' db)) = t_redemption db"
  "t_redemption (snd (repo_CreateCampaign flt c db)) = t_redemption db"
  "t_redemption (snd (repo_UpdateCampaign flt c later db)) = t_redemption db"
  "t_redemption (snd (repo_ReviseCampaign flt eid u u' db)) = t_redemption db"
  "t_redemption (snd (repo_DeleteCampaign flt eid db)) = t_redemption db"
  "t_redemption (snd (repo_ReviseMethodValue flt eid f v v' db)) = t_redemption db"
  "t_redemption (snd (repo_DeleteApplicationMethod flt eid db)) = t_redemption db"
  "t_redemption (snd (repo_DeletePromotionRule flt eid db)) = t_redemption db"
  unfolding repo_CreatePromotion_def repo_UpdatePromotion_def repo_DeletePromotion_def
    repo_SwitchPromotionStatus_def repo_SetPromotionCampaign_def repo_CreateCampaign_def repo_UpdateCampaign_def
    repo_ReviseCampaign_def repo_DeleteCampaign_def repo_ReviseMethodValue_def repo_DeleteApplicationMethod_def
    repo_DeletePromotionRule_def
  by ((rule single_ledger single_unit_ledger conditional_ledger), erule statements_ledger)+

text \<open>What a step does to the ledger: nothing, one redemption more, or one marked.\<close>

lemma step_ledger:
  assumes "ledger_ok db" "promo_step db db'"
  shows "t_redemption db' = t_redemption db \<or>
    (\<exists>req now r. redeem_gates req now r db \<and> rd_PromotionID r = rd_PromotionID req \<and> db' = book r db) \<or>
    (\<exists>r at. r \<in> set (t_redemption db) \<and> active r \<and> t_redemption db' = map (released (rd_ID r) at) (t_redemption db))"
  using assms(2)
proof cases
  case (step_Redeem flt req now)
  show ?thesis
  proof (cases "db' = db")
    case False
    then obtain r new where tx: "redeem_tx flt req now db = (Inr (r, new), db')"
      using inTx_cases [of flt "redeem_tx flt req now" db] step_Redeem by (auto simp: Redeem_def)
    then have new using redeem_tx_existing(1) [of flt req now db r db'] False by (cases new) auto
    then have "redeem_tx flt req now db = (Inr (r, True), db')" using tx by simp
    from redeem_tx_created [OF this] show ?thesis by blast
  qed simp
next
  case (step_Release flt pid ref now)
  show ?thesis
  proof (cases "db' = db")
    case False
    then obtain a where tx: "release_tx flt pid ref now db = (Inr a, db')"
      using inTx_cases [of flt "release_tx flt pid ref now" db] step_Release by (auto simp: Release_def)
    then obtain row where "a = Some row"
      using False by (cases a) (auto simp: release_tx_def split: sum.splits if_splits)
    with tx have "release_tx flt pid ref now db = (Inr (Some row), db')" by simp
    from release_tx_released [OF assms(1) this] obtain r where
      r: "active_redemption db pid ref = Some r" "db' = unbook r now db" by metis
    have "t_redemption db' = map (released (rd_ID r) now) (t_redemption db)" by (simp add: r(2))
    then show ?thesis using active_redemption_row [OF r(1)] by blast
  qed simp
next
  case (step_CreatePromotionWithMethod flt p m)
  have "t_redemption db' = t_redemption db"
    unfolding step_CreatePromotionWithMethod repo_CreatePromotionWithMethod_def
    by (rule inTx_ledger) (auto split: sum.splits prod.splits dest!: statements_ledger)
  then show ?thesis ..
next
  case (step_SetApplicationMethod flt m)
  have "t_redemption db' = t_redemption db"
    unfolding step_SetApplicationMethod repo_SetApplicationMethod_def
    by (rule inTx_ledger) (auto simp: single_def split: sum.splits option.splits prod.splits dest!: statements_ledger)
  then show ?thesis ..
next
  case (step_CreatePromotionRule flt r)
  have "t_redemption db' = t_redemption db"
    unfolding step_CreatePromotionRule repo_CreatePromotionRule_def
    by (rule inTx_ledger) (auto simp: single_def split: sum.splits option.splits prod.splits dest!: statements_ledger)
  then show ?thesis ..
qed (simp_all add: admin_ledger)

lemma released_uses_spent:
  assumes "distinct (map rd_ID rs)" "r \<in> set rs" "active r" "0 \<le> rd_BudgetDelta r"
  shows "uses (map (released (rd_ID r) at) rs) pid \<le> uses rs pid"
    and "spent (map (released (rd_ID r) at) rs) cid \<le> spent rs cid"
proof -
  obtain xs ys where "rs = xs @ r # ys"
    "map (released (rd_ID r) at) rs = xs @ r\<lparr> rd_ReleasedAt := Some (column_time at) \<rparr> # ys"
    using released_split [OF assms(1-3)] .
  then show "uses (map (released (rd_ID r) at) rs) pid \<le> uses rs pid"
    "spent (map (released (rd_ID r) at) rs) cid \<le> spent rs cid"
    using assms(3,4) by (simp_all add: uses_def spent_def)
qed

lemma live_promotion_uses:
  "ledger_ok db \<Longrightarrow> live_promotion db pid = Some p \<Longrightarrow> pr_UsageCount p = uses (t_redemption db) pid"
  using ledger_okD(4) by (fastforce simp: promotion_row_ok_def elim!: live_promotion_row)

lemma live_campaign_spent:
  "ledger_ok db \<Longrightarrow> live_campaign db cid = Some c \<Longrightarrow> cp_BudgetUsed c = spent (t_redemption db) cid"
  using ledger_okD(5) by (fastforce simp: campaign_row_ok_def elim!: live_campaign_row)

text \<open>no counter is raised past its limit. Whatever the step, when the uses of a promotion
  grow they grow by one, the promotion is active, and the new count is within its usage limit;
  when the used budget of a campaign grows, it grows by the share of one redemption and the new
  total is within the budget's limit. Only an administrator who lowers a limit can put a counter
  above it.\<close>

theorem raises_within_limits:
  assumes "reachable_db db" and "promo_step db db'"
  shows "(\<forall>pid p p'. live_promotion db pid = Some p \<and> live_promotion db' pid = Some p' \<and>
      pr_UsageCount p < pr_UsageCount p' \<longrightarrow>
      pr_UsageCount p' = pr_UsageCount p + 1 \<and> pr_Status p' = PromotionActive \<and>
      (case pr_UsageLimit p' of None \<Rightarrow> True | Some l \<Rightarrow> pr_UsageCount p' \<le> l)) \<and>
    (\<forall>cid c c'. live_campaign db cid = Some c \<and> live_campaign db' cid = Some c' \<and>
      cp_BudgetUsed c < cp_BudgetUsed c' \<longrightarrow>
      (\<exists>r. t_redemption db' = t_redemption db @ [r] \<and> cp_BudgetUsed c' = cp_BudgetUsed c + rd_BudgetDelta r \<and>
        rd_CampaignID r = Some cid) \<and>
      (case cp_BudgetLimit c' of None \<Rightarrow> True | Some l \<Rightarrow> cp_BudgetUsed c' \<le> l))"
proof -
  note ok = reachable_ledger [OF assms(1)]
  note ok' = ledger_step [OF ok assms(2)]
  note counts = live_promotion_uses [OF ok] live_promotion_uses [OF ok']
  note budgets = live_campaign_spent [OF ok] live_campaign_spent [OF ok']
  from step_ledger [OF ok assms(2)] consider "t_redemption db' = t_redemption db"
    | req now r where "redeem_gates req now r db" "rd_PromotionID r = rd_PromotionID req" "db' = book r db"
    | r at where "r \<in> set (t_redemption db)" "active r" "t_redemption db' = map (released (rd_ID r) at) (t_redemption db)"
    by blast
  then show ?thesis
  proof cases
    case 1
    then show ?thesis using counts budgets by fastforce
  next
    case (3 r at)
    have "0 \<le> rd_BudgetDelta r"
      using ledger_okD(6) [OF ok 3(1)] by (simp add: redemption_row_ok_def redemption_checks_def)
    note le = released_uses_spent [OF ledger_okD(3) [OF ok] 3(1,2) this, of at, folded 3(3)]
    then show ?thesis using counts budgets by (auto simp: not_less [symmetric])
  next
    case (2 req now r)
    have promotions: "pr_UsageCount p' = pr_UsageCount p + 1 \<and> pr_Status p' = PromotionActive \<and>
        (case pr_UsageLimit p' of None \<Rightarrow> True | Some l \<Rightarrow> pr_UsageCount p' \<le> l)"
      if "live_promotion db pid = Some p" "live_promotion db' pid = Some p'" "pr_UsageCount p < pr_UsageCount p'"
      for pid p p'
      using that 2(1,2)
      by (auto simp: 2(3) live_promotion_book redeem_gates_def split: if_splits option.splits)
    have campaigns: "cp_BudgetUsed c' = cp_BudgetUsed c + rd_BudgetDelta r \<and> rd_CampaignID r = Some cid \<and>
        (case cp_BudgetLimit c' of None \<Rightarrow> True | Some l \<Rightarrow> cp_BudgetUsed c' \<le> l)"
      if prems: "live_campaign db cid = Some c" "live_campaign db' cid = Some c'" "cp_BudgetUsed c < cp_BudgetUsed c'"
      for cid c c'
    proof -
      have c': "c' = c\<lparr> cp_BudgetUsed := cp_BudgetUsed c + (if rd_CampaignID r = Some cid then rd_BudgetDelta r else 0) \<rparr>"
        using prems(1,2) by (simp add: 2(3) live_campaign_book)
      then have cid: "rd_CampaignID r = Some cid" "rd_BudgetDelta r > 0"
        using prems(3) by (auto split: if_splits)
      then show ?thesis
        using redeem_gates_campaign [OF 2(1) cid(1)] prems(1) c' by (auto split: option.splits)
    qed
    have "t_redemption db' = t_redemption db @ [r]" by (simp add: 2(3))
    then show ?thesis using promotions campaigns by blast
  qed
qed

theorem raises_within_limits_witness:
  "promo_step spring_db redeemed_db \<and> reachable_db spring_db \<and>
   (\<exists>r. t_redemption redeemed_db = t_redemption spring_db @ [r] \<and> rd_CampaignID r = Some ''camp_1'')"
proof -
  have s: "promo_step spring_db redeemed_db" unfolding redeemed_db_def by (rule step_Redeem)
  have facts: "(case live_campaign spring_db ''camp_1'' of None \<Rightarrow> False | Some c \<Rightarrow> cp_BudgetUsed c = 0)"
    "(case live_campaign redeemed_db ''camp_1'' of None \<Rightarrow> False | Some c \<Rightarrow> cp_BudgetUsed c = 1200)" by code_simp+
  then obtain c c' where "live_campaign spring_db ''camp_1'' = Some c" "live_campaign redeemed_db ''camp_1'' = Some c'"
    "cp_BudgetUsed c < cp_BudgetUsed c'"
    by (auto split: option.splits)
  then have "\<exists>r. t_redemption redeemed_db = t_redemption spring_db @ [r] \<and> rd_CampaignID r = Some ''camp_1''"
    using raises_within_limits [OF reachable_spring s] by blast
  with s reachable_spring show ?thesis by blast
qed

end
