(* ===== verification/PromoService.thy ===== *)
theory PromoService
  imports PromoProps PromoRedeem
begin

text \<open>
  The operations of the promotion service that read the tables: the candidates of a computation
  (\<^verbatim>\<open>repository/promotion.go\<close>), the computation the cart asks for and the one that explains itself
  (\<^verbatim>\<open>service/compute.go\<close>), the storefront's coupon, redeeming and releasing by id or by code
  (\<^verbatim>\<open>service/redeem.go\<close>), and the trial of a promotion on past purchases (\<^verbatim>\<open>service/trial.go\<close>).

  An operation that reads with several statements sees the tables as they are at each of them; the
  argument \<open>see\<close> says which state each statement meets, by the statement's name. Rows come in the
  order of their ids.
\<close>

type_synonym snapshots = "string \<Rightarrow> promo_db"

section \<open>Candidates\<close>

definition candidate_from :: "snapshots \<Rightarrow> promotion \<Rightarrow> promotion_candidate" where
  "candidate_from see p =
    \<lparr> ca_Promotion = p,
      ca_Campaign = (case pr_CampaignID p of
        None \<Rightarrow> None | Some cid \<Rightarrow> live_campaign (see ''GetCampaignsByIDs'') cid),
      ca_Method = live_method (see ''GetApplicationMethodsByPromotions'') (pr_ID p),
      ca_Rules = sort_key ru_ID (map rw_rule (filter (\<lambda>r. ru_PromotionID (rw_rule r) = pr_ID p \<and> \<not> rw_deleted r)
        (t_rule (see ''ListPromotionRulesByPromotions'')))) \<rparr>"

definition candidatesOf :: "faults \<Rightarrow> snapshots \<Rightarrow> promotion list \<Rightarrow> error + promotion_candidate list" where
  "candidatesOf flt see rows =
    (if rows = [] then Inr []
     else
       (case flt ''GetApplicationMethodsByPromotions'' of
         Some f \<Rightarrow> Inl (wrapDB (PgFault f))
       | None \<Rightarrow>
           (case flt ''ListPromotionRulesByPromotions'' of
             Some f \<Rightarrow> Inl (wrapDB (PgFault f))
           | None \<Rightarrow>
               (case (if \<exists>p \<in> set rows. pr_CampaignID p \<noteq> None then flt ''GetCampaignsByIDs'' else None) of
                 Some f \<Rightarrow> Inl (wrapDB (PgFault f))
               | None \<Rightarrow> Inr (map (candidate_from see) rows)))))"

definition candidate_rows :: "(promotion \<Rightarrow> bool) \<Rightarrow> string list \<Rightarrow> promo_db \<Rightarrow> promotion list" where
  "candidate_rows ok codes db = sort_key pr_ID (map pw_promo (filter (\<lambda>w. \<not> pw_deleted w \<and> ok (pw_promo w) \<and>
    (pr_IsAutomatic (pw_promo w) \<or> pr_Code (pw_promo w) \<in> set codes)) (t_promotion db)))"

definition ListCandidates :: "faults \<Rightarrow> snapshots \<Rightarrow> string list \<Rightarrow> error + promotion_candidate list" where
  "ListCandidates flt see codes =
    (case flt ''ListApplicablePromotions'' of
      Some f \<Rightarrow> Inl (wrapDB (PgFault f))
    | None \<Rightarrow>
        candidatesOf flt see
          (candidate_rows (\<lambda>p. pr_Status p = ''active'') codes (see ''ListApplicablePromotions'')))"

definition ListCandidatesForDiagnosis :: "faults \<Rightarrow> snapshots \<Rightarrow> string list \<Rightarrow> error + promotion_candidate list" where
  "ListCandidatesForDiagnosis flt see codes =
    (case flt ''ListCandidatesForDiagnosis'' of
      Some f \<Rightarrow> Inl (wrapDB (PgFault f))
    | None \<Rightarrow> candidatesOf flt see (candidate_rows (\<lambda>_. True) codes (see ''ListCandidatesForDiagnosis'')))"

definition ComputeDiscounts :: "faults \<Rightarrow> snapshots \<Rightarrow> time \<Rightarrow> compute_input \<Rightarrow> error + compute_result" where
  "ComputeDiscounts flt see now inp =
    (case normalizeComputeInput inp now of
      Inl e \<Rightarrow> Inl e
    | Inr normalized \<Rightarrow>
        (case ListCandidates flt see (in_Codes normalized) of
          Inl e \<Rightarrow> Inl e
        | Inr candidates \<Rightarrow> Inr (computeDiscounts candidates normalized)))"

definition ExplainDiscounts :: "faults \<Rightarrow> snapshots \<Rightarrow> time \<Rightarrow> compute_input \<Rightarrow> error + compute_result" where
  "ExplainDiscounts flt see now inp =
    (case normalizeComputeInput inp now of
      Inl e \<Rightarrow> Inl e
    | Inr normalized \<Rightarrow>
        (case ListCandidatesForDiagnosis flt see (in_Codes normalized) of
          Inl e \<Rightarrow> Inl e
        | Inr candidates \<Rightarrow> Inr (computeDiscounts candidates normalized)))"

section \<open>Redeeming by id or by code\<close>

definition live_by_code :: "promo_db \<Rightarrow> string \<Rightarrow> promotion option" where
  "live_by_code db code =
    map_option pw_promo (find (\<lambda>r. pr_Code (pw_promo r) = code \<and> \<not> pw_deleted r) (t_promotion db))"

definition repo_GetPromotionByCode :: "faults \<Rightarrow> string \<Rightarrow> promo_db \<Rightarrow> error + promotion" where
  "repo_GetPromotionByCode flt code db =
    (case statement flt ''GetPromotionByCode'' (found (live_by_code db code)) of
      Inl e \<Rightarrow> Inl (notFoundOr e CodePromotionNotFound) | Inr p \<Rightarrow> Inr p)"

definition resolvePromotion :: "faults \<Rightarrow> string \<Rightarrow> string \<Rightarrow> promo_db \<Rightarrow> error + promotion" where
  "resolvePromotion flt eid code db =
    (if eid \<noteq> [] then
       (case requireID eid PromotionIDPrefix of
         Some e \<Rightarrow> Inl e
       | None \<Rightarrow>
           (case repo_GetPromotion flt eid db of
             Inl e \<Rightarrow> Inl e
           | Inr p \<Rightarrow>
               if code \<noteq> [] then
                 (case normalizeCode code of
                   Inl e \<Rightarrow> Inl e
                 | Inr normalized \<Rightarrow>
                     if normalized \<noteq> pr_Code p then Inl (Invalid CodeInvalidInput) else Inr p)
               else Inr p))
     else if code \<noteq> [] then
       (case normalizeCode code of
         Inl e \<Rightarrow> Inl e
       | Inr normalized \<Rightarrow> repo_GetPromotionByCode flt normalized db)
     else Inl (Invalid CodeInvalidInput))"

record redeem_input =
  rin_PromotionID :: string
  rin_Code :: string
  rin_Reference :: string
  rin_Amount :: int64
  rin_CurrencyCode :: string

text \<open>The promotion is resolved in the state \<open>before\<close>; the transaction runs later, on its own.\<close>

definition RedeemPromotion ::
    "faults \<Rightarrow> string \<Rightarrow> redeem_input \<Rightarrow> time \<Rightarrow> promo_db \<Rightarrow> promo_db \<Rightarrow> (error + redemption) \<times> promo_db" where
  "RedeemPromotion flt eid r now before db =
    (case resolvePromotion flt (rin_PromotionID r) (rin_Code r) before of
      Inl e \<Rightarrow> (Inl e, db)
    | Inr p \<Rightarrow>
        (case validateText (rin_Reference r) 1 MaxReferenceLen of
          Some e \<Rightarrow> (Inl e, db)
        | None \<Rightarrow>
            (case validateAmount (rin_Amount r) of
              Some e \<Rightarrow> (Inl e, db)
            | None \<Rightarrow>
                (case normalizeCurrency (rin_CurrencyCode r) of
                  Inl e \<Rightarrow> (Inl e, db)
                | Inr currency \<Rightarrow>
                    (case Redeem flt \<lparr> rd_ID = eid, rd_PromotionID = pr_ID p, rd_CampaignID = None,
                        rd_Reference = rin_Reference r, rd_Amount = rin_Amount r,
                        rd_CurrencyCode = currency, rd_BudgetDelta = 0, rd_ReleasedAt = None \<rparr> now db of
                      (Inl e, db') \<Rightarrow> (Inl e, db')
                    | (Inr (row, _), db') \<Rightarrow> (Inr row, db'))))))"

definition ReleasePromotion ::
    "faults \<Rightarrow> string \<Rightarrow> string \<Rightarrow> string \<Rightarrow> time \<Rightarrow> promo_db \<Rightarrow> promo_db \<Rightarrow> (error + bool) \<times> promo_db" where
  "ReleasePromotion flt eid code ref now before db =
    (case resolvePromotion flt eid code before of
      Inl e \<Rightarrow> (Inl e, db)
    | Inr p \<Rightarrow>
        (case validateText ref 1 MaxReferenceLen of
          Some e \<Rightarrow> (Inl e, db)
        | None \<Rightarrow>
            (case Release flt (pr_ID p) ref now db of
              (Inl e, db') \<Rightarrow> (Inl e, db')
            | (Inr row, db') \<Rightarrow> (Inr (row \<noteq> None), db'))))"

section \<open>The storefront's coupon\<close>

definition CodePromotionNotUsable :: string where "CodePromotionNotUsable = ''promotion_not_usable''"

definition notUsable :: error where "notUsable = NotFound CodePromotionNotUsable"

definition storeCouponVisible :: "promotion_candidate \<Rightarrow> time \<Rightarrow> bool" where
  "storeCouponVisible c at =
    (let p = ca_Promotion c in
     if pr_Status p \<noteq> PromotionActive \<or> \<not> PromotionType_Valid (pr_Type p) then False
     else if \<not> mechanicMatchesMethod p (ca_Method c) then False
     else if UsageExhausted p then False
     else campaignUsable c at)"

record store_coupon =
  sc_Code :: string
  sc_Mechanic :: string
  sc_BuyQuantity :: "int64 option"
  sc_ApplyToQuantity :: "int64 option"
  sc_MethodType :: string
  sc_TargetType :: string
  sc_Value :: int64
  sc_CurrencyCode :: string

text \<open>A record that is not there is no error here; any other failure is.\<close>

definition unless_not_found :: "error + 'a \<Rightarrow> error + 'a option" where
  "unless_not_found r =
    (case r of
      Inr a \<Rightarrow> Inr (Some a)
    | Inl e \<Rightarrow> if IsNotFound (Some e) then Inr None else Inl e)"

definition storeCandidate :: "faults \<Rightarrow> snapshots \<Rightarrow> string \<Rightarrow> error + promotion_candidate" where
  "storeCandidate flt see code =
    (case repo_GetPromotionByCode flt code (see ''GetPromotionByCode'') of
      Inl e \<Rightarrow> Inl e
    | Inr p \<Rightarrow>
        (case unless_not_found (repo_GetApplicationMethod flt (pr_ID p) (see ''GetApplicationMethod'')) of
          Inl e \<Rightarrow> Inl e
        | Inr method \<Rightarrow>
            (case (case pr_CampaignID p of
                None \<Rightarrow> Inr None
              | Some cid \<Rightarrow> unless_not_found (repo_GetCampaign flt cid (see ''GetCampaign''))) of
              Inl e \<Rightarrow> Inl e
            | Inr campaign \<Rightarrow>
                Inr \<lparr> ca_Promotion = p, ca_Campaign = campaign, ca_Method = method, ca_Rules = [] \<rparr>)))"

text \<open>A visible coupon has a method; the fields are read through its pointer.\<close>

definition LookupStoreCoupon :: "faults \<Rightarrow> snapshots \<Rightarrow> time \<Rightarrow> string \<Rightarrow> error + store_coupon" where
  "LookupStoreCoupon flt see now code =
    (case normalizeCode code of
      Inl e \<Rightarrow> Inl notUsable
    | Inr normalized \<Rightarrow>
        (case storeCandidate flt see normalized of
          Inl e \<Rightarrow> if IsNotFound (Some e) then Inl notUsable else Inl e
        | Inr c \<Rightarrow>
            if \<not> storeCouponVisible c now then Inl notUsable
            else
              (case ca_Method c of
                None \<Rightarrow> Inl nil_dereference
              | Some m \<Rightarrow>
                  Inr \<lparr> sc_Code = pr_Code (ca_Promotion c), sc_Mechanic = pr_Type (ca_Promotion c),
                        sc_BuyQuantity = me_BuyQuantity m, sc_ApplyToQuantity = me_ApplyToQuantity m,
                        sc_MethodType = me_Type m, sc_TargetType = me_TargetType m, sc_Value = me_Value m,
                        sc_CurrencyCode = me_CurrencyCode m \<rparr>)))"

section \<open>The trial\<close>

definition MaxTrialEntries :: nat where "MaxTrialEntries = 5000"
definition CodeTrialCannotApply :: string where "CodeTrialCannotApply = ''promotion_trial_cannot_apply''"
definition MaxLimit32 :: int where "MaxLimit32 = 100"

definition reasonsNoPurchaseChanges :: "string list" where
  "reasonsNoPurchaseChanges = [SkipMechanicUnknown, SkipNoApplicationMethod, SkipRewardMismatch]"

record trial_entry =
  te_Reference :: string
  te_Input :: compute_input

record trial_outcome =
  to_Reference :: string
  to_AlreadyApplied :: bool
  to_Skipped :: string
  to_Result :: "compute_result option"

definition asPublished :: "promotion_candidate \<Rightarrow> promotion_candidate" where
  "asPublished c = c\<lparr> ca_Promotion := (ca_Promotion c)\<lparr> pr_Status := PromotionActive, pr_IsAutomatic := True,
      pr_UsageLimit := None, pr_CampaignID := None \<rparr>, ca_Campaign := None \<rparr>"

definition emptyComputeInput :: compute_input where
  "emptyComputeInput = \<lparr> in_CurrencyCode = [], in_Context = (\<lambda>_. None), in_ContextLists = (\<lambda>_. []), in_Items = [],
    in_ShippingMethods = [], in_Codes = [], in_At = 0 \<rparr>"

definition GetApplicationMethod :: "faults \<Rightarrow> string \<Rightarrow> promo_db \<Rightarrow> error + application_method" where
  "GetApplicationMethod flt pid db =
    (case requireID pid PromotionIDPrefix of Some e \<Rightarrow> Inl e | None \<Rightarrow> repo_GetApplicationMethod flt pid db)"

definition repo_ListPromotionRules :: "faults \<Rightarrow> string \<Rightarrow> promo_db \<Rightarrow> error + promotion_rule list" where
  "repo_ListPromotionRules flt pid db =
    (case flt ''ListPromotionRules'' of
      Some f \<Rightarrow> Inl (wrapDB (PgFault f))
    | None \<Rightarrow> Inr (sort_key ru_ID (map rw_rule
        (filter (\<lambda>r. ru_PromotionID (rw_rule r) = pid \<and> \<not> rw_deleted r) (t_rule db)))))"

definition ListPromotionRules :: "faults \<Rightarrow> snapshots \<Rightarrow> string \<Rightarrow> error + promotion_rule list" where
  "ListPromotionRules flt see pid =
    (case requireID pid PromotionIDPrefix of
      Some e \<Rightarrow> Inl e
    | None \<Rightarrow>
        (case repo_GetPromotion flt pid (see ''GetPromotion'') of
          Inl e \<Rightarrow> Inl e
        | Inr _ \<Rightarrow> repo_ListPromotionRules flt pid (see ''ListPromotionRules'')))"

definition trialCandidate :: "faults \<Rightarrow> snapshots \<Rightarrow> string \<Rightarrow> error + promotion_candidate" where
  "trialCandidate flt see pid =
    (case GetPromotion flt pid (see ''GetPromotion'') of
      Inl e \<Rightarrow> Inl e
    | Inr p \<Rightarrow>
        (case unless_not_found (GetApplicationMethod flt pid (see ''GetApplicationMethod'')) of
          Inl e \<Rightarrow> Inl e
        | Inr method \<Rightarrow>
            (case ListPromotionRules flt see pid of
              Inl e \<Rightarrow> Inl e
            | Inr rules \<Rightarrow>
                (let published = asPublished \<lparr> ca_Promotion = p, ca_Campaign = None, ca_Method = method, ca_Rules = rules \<rparr>;
                     probe = emptyComputeInput\<lparr> in_CurrencyCode :=
                       (case ca_Method published of None \<Rightarrow> [] | Some m \<Rightarrow> me_CurrencyCode m) \<rparr> in
                 if skipReasonOf published probe \<in> set reasonsNoPurchaseChanges
                 then Inl (Conflict CodeTrialCannotApply)
                 else Inr published))))"

text \<open>The database refuses a negative offset.\<close>

definition repo_ListRedemptions :: "faults \<Rightarrow> string \<Rightarrow> int \<Rightarrow> int \<Rightarrow> promo_db \<Rightarrow> error + redemption list" where
  "repo_ListRedemptions flt pid limit offset db =
    (case (if offset < 0 then Some (PgState ''2201X'') else flt ''ListRedemptions'') of
      Some f \<Rightarrow> Inl (wrapDB (PgFault f))
    | None \<Rightarrow>
        (case flt ''CountRedemptions'' of
          Some f \<Rightarrow> Inl (wrapDB (PgFault f))
        | None \<Rightarrow> Inr (take (nat limit) (drop (nat offset)
            (sort_key rd_ID (filter (\<lambda>r. rd_PromotionID r = pid) (t_redemption db)))))))"

definition wrap32 :: "int \<Rightarrow> int" where
  "wrap32 x = (x + 2 ^ 31) mod 2 ^ 32 - 2 ^ 31"

lemma wrap32_range: "0 \<le> x \<Longrightarrow> x < 2 ^ 32 \<Longrightarrow> wrap32 x = (if x < 2 ^ 31 then x else x - 2 ^ 32)"
proof -
  assume x: "0 \<le> x" "x < 2 ^ 32"
  show ?thesis
  proof (cases "x < 2 ^ 31")
    case True
    have "(x + 2 ^ 31) mod 2 ^ 32 = x + 2 ^ 31" using x True by (intro mod_pos_pos_trivial) simp_all
    note m = this
    show ?thesis unfolding wrap32_def m using True by simp
  next
    case False
    have "(x + 2 ^ 31) mod 2 ^ 32 = (x - 2 ^ 31 + 2 ^ 32) mod 2 ^ 32"
      by (rule arg_cong [where f = "\<lambda>y. y mod 2 ^ 32"]) simp
    also have "\<dots> = (x - 2 ^ 31) mod 2 ^ 32" by (rule mod_add_self2)
    also have "\<dots> = x - 2 ^ 31" using x False by (intro mod_pos_pos_trivial) simp_all
    finally have m: "(x + 2 ^ 31) mod 2 ^ 32 = x - 2 ^ 31" .
    show ?thesis unfolding wrap32_def m using False by simp
  qed
qed

lemma wrap32_bounds: "- (2 ^ 31) \<le> wrap32 x \<and> wrap32 x < 2 ^ 31"
  using pos_mod_bound [of "2 ^ 32" "x + 2 ^ 31"] pos_mod_sign [of "2 ^ 32" "x + 2 ^ 31"] by (simp add: wrap32_def)

text \<open>One page per turn, each from the tables as they are by then; the offset is an \<open>int32\<close>. A walk
  that never ended would be \<open>None\<close>.\<close>

partial_function (option) live_loop ::
    "faults \<Rightarrow> (int \<Rightarrow> promo_db) \<Rightarrow> string \<Rightarrow> int \<Rightarrow> string list \<Rightarrow> (error + string list) option" where
  "live_loop flt sees pid offset live =
    (case repo_ListRedemptions flt pid MaxLimit32 offset (sees offset) of
      Inl e \<Rightarrow> Some (Inl e)
    | Inr page \<Rightarrow>
        (if int (length page) < MaxLimit32
         then Some (Inr (live @ map rd_Reference (filter (\<lambda>r. active r) page)))
         else live_loop flt sees pid (wrap32 (offset + MaxLimit32))
           (live @ map rd_Reference (filter (\<lambda>r. active r) page))))"

definition liveReferences ::
    "faults \<Rightarrow> (int \<Rightarrow> promo_db) \<Rightarrow> string \<Rightarrow> (error + string list) option" where
  "liveReferences flt sees pid = live_loop flt sees pid 0 []"

fun trial_entries ::
    "promotion_candidate \<Rightarrow> string list \<Rightarrow> time \<Rightarrow> trial_entry list \<Rightarrow> trial_outcome list \<Rightarrow>
      error + trial_outcome list" where
  "trial_entries c redeemed now [] outcomes = Inr outcomes"
| "trial_entries c redeemed now (e # es) outcomes =
    (let outcome = \<lparr> to_Reference = te_Reference e, to_AlreadyApplied = False, to_Skipped = [], to_Result = None \<rparr> in
     if te_Reference e \<in> set redeemed \<and> te_Reference e \<noteq> [] then
       trial_entries c redeemed now es (outcomes @ [outcome\<lparr> to_AlreadyApplied := True \<rparr>])
     else
       (case normalizeComputeInput ((te_Input e)\<lparr> in_Codes := [] \<rparr>) now of
         Inl err \<Rightarrow> Inl err
       | Inr normalized \<Rightarrow>
           (let result = computeDiscounts [c] normalized in
            trial_entries c redeemed now es
              (outcomes @ [outcome\<lparr> to_Result := Some result,
                to_Skipped := (case re_Skipped result of [] \<Rightarrow> [] | s # _ \<Rightarrow> sk_Reason s) \<rparr>]))))"

definition TrialDiscounts ::
    "faults \<Rightarrow> snapshots \<Rightarrow> (int \<Rightarrow> promo_db) \<Rightarrow> time \<Rightarrow> string \<Rightarrow> trial_entry list \<Rightarrow>
      (error + trial_outcome list) option" where
  "TrialDiscounts flt see sees now pid entries =
    (if length entries > MaxTrialEntries then Some (Inl (Invalid CodeInvalidInput))
     else
       (case trialCandidate flt see pid of
         Inl e \<Rightarrow> Some (Inl e)
       | Inr c \<Rightarrow>
           (case liveReferences flt sees pid of
             None \<Rightarrow> None
           | Some (Inl e) \<Rightarrow> Some (Inl e)
           | Some (Inr redeemed) \<Rightarrow> Some (trial_entries c redeemed now entries []))))"

end
