(* ===== verification/PromoServiceProps.thy ===== *)
theory PromoServiceProps
  imports PromoService
begin

text \<open>
  The properties of the promotion service's reads: the explained computation gives the discount the
  cart gets, the storefront shows a coupon exactly when the computation would not refuse it for a
  reason of its own, what the computation offers can be redeemed, and the trial prices a promotion
  the way a cart would if it were published.
\<close>

text \<open>A coupon on stock: active, with a method, of the campaign above; a cart of one line.\<close>

definition percent_method :: application_method where
  "percent_method = \<lparr> me_ID = ''pam_1'', me_PromotionID = ''promo_1'', me_Type = ''percentage'',
    me_TargetType = ''items'', me_Allocation = ''each'', me_Value = 1000, me_MaxQuantity = None,
    me_BuyQuantity = None, me_ApplyToQuantity = None, me_CurrencyCode = [] \<rparr>"

definition stocked_db :: promo_db where
  "stocked_db = snd (repo_SetApplicationMethod no_faults percent_method spring_db)"

definition paused_db :: promo_db where
  "paused_db = snd (repo_SwitchPromotionStatus no_faults ''promo_1'' ''active'' ''inactive'' stocked_db)"

lemma reachable_stocked: "reachable_db stocked_db"
  unfolding stocked_db_def by (rule reachable_step [OF reachable_spring step_SetApplicationMethod])

definition one_line_cart :: compute_input where
  "one_line_cart = \<lparr> in_CurrencyCode = ''USD'', in_Context = (\<lambda>_. None), in_ContextLists = (\<lambda>_. []),
    in_Items = [\<lparr> cl_ID = ''line_1'', cl_Amount = 2000, cl_UnitAmount = 1000, cl_Quantity = 2,
      cl_Attributes = (\<lambda>_. None), cl_Lists = (\<lambda>_. []) \<rparr>],
    in_ShippingMethods = [], in_Codes = [''SPRING10''], in_At = 15000 \<rparr>"

section \<open>Computing and explaining\<close>

lemma no_faults_apply [simp]: "no_faults name = None"
  by (simp add: no_faults_def)

lemma candidatesOf_no_faults [simp]: "candidatesOf no_faults see rows = Inr (map (candidate_from see) rows)"
  by (simp add: candidatesOf_def)

lemma candidate_rows_filter: "candidate_rows ok codes db = filter ok (candidate_rows (\<lambda>_. True) codes db)"
  by (simp add: candidate_rows_def filter_sort filter_map comp_def) (metis (lifting))

lemma eligible_active: "eligible c inp \<Longrightarrow> pr_Status (ca_Promotion c) = PromotionActive"
  by (auto simp: eligible_def skipReasonOf_def skip_reasons Let_def split: if_splits)

lemma skip_not_active: "skipReasonOf c inp = SkipNotActive \<longleftrightarrow> pr_Status (ca_Promotion c) \<noteq> PromotionActive"
  by (auto simp: skipReasonOf_def skip_reasons Let_def split: option.splits)

text \<open>Eligible candidates and reported reasons of the two reads.\<close>

lemma partition_active:
  assumes "cs = filter (\<lambda>c. pr_Status (ca_Promotion c) = PromotionActive) cs'"
  shows "fst (partitionCandidates cs inp) = fst (partitionCandidates cs' inp)"
    and "snd (partitionCandidates cs inp) =
      filter (\<lambda>s. sk_Reason s \<noteq> SkipNotActive) (snd (partitionCandidates cs' inp))"
proof -
  have "filter (\<lambda>c. eligible c inp) cs = filter (\<lambda>c. eligible c inp) cs'"
    unfolding assms filter_filter by (rule filter_cong) (auto dest: eligible_active)
  then show "fst (partitionCandidates cs inp) = fst (partitionCandidates cs' inp)"
    by (simp add: partitionCandidates_def partition_loop_eq)
  show "snd (partitionCandidates cs inp) =
      filter (\<lambda>s. sk_Reason s \<noteq> SkipNotActive) (snd (partitionCandidates cs' inp))"
    by (simp add: partitionCandidates_def partition_loop_eq assms filter_map comp_def skip_not_active conj_commute)
qed

text \<open>the discount an operator is shown is the discount the customer gets. When the two
  computations read the same tables, both succeed or both refuse the input with the same error,
  and the results agree in every amount, in what was applied and in the codes that matched nothing;
  the explanation reports the promotions that were skipped for the same reasons and in the same
  order, and beside them the ones that are not active.\<close>

theorem explain_same_discount:
  assumes "see ''ListApplicablePromotions'' = see ''ListCandidatesForDiagnosis''"
  shows "case ExplainDiscounts no_faults see now inp of
      Inl e \<Rightarrow> ComputeDiscounts no_faults see now inp = Inl e
    | Inr r \<Rightarrow> ComputeDiscounts no_faults see now inp =
        Inr (r\<lparr> re_Skipped := filter (\<lambda>s. sk_Reason s \<noteq> SkipNotActive) (re_Skipped r) \<rparr>)"
proof (cases "normalizeComputeInput inp now")
  case (Inl e)
  then show ?thesis by (simp add: ExplainDiscounts_def ComputeDiscounts_def)
next
  case (Inr n)
  let ?db = "see ''ListCandidatesForDiagnosis''"
  let ?all = "map (candidate_from see) (candidate_rows (\<lambda>_. True) (in_Codes n) ?db)"
  let ?act = "map (candidate_from see) (candidate_rows (\<lambda>p. pr_Status p = ''active'') (in_Codes n) ?db)"
  have act: "?act = filter (\<lambda>c. pr_Status (ca_Promotion c) = PromotionActive) ?all"
    by (subst candidate_rows_filter) (simp add: filter_map comp_def candidate_from_def PromotionActive_def)
  obtain elig skipped where p: "partitionCandidates ?all n = (elig, skipped)" by fastforce
  then have q: "partitionCandidates ?act n = (elig, filter (\<lambda>s. sk_Reason s \<noteq> SkipNotActive) skipped)"
    using partition_active [OF act, of n] by (simp add: prod_eq_iff)
  have "computeDiscounts ?act n = (computeDiscounts ?all n)
      \<lparr> re_Skipped := filter (\<lambda>s. sk_Reason s \<noteq> SkipNotActive) (re_Skipped (computeDiscounts ?all n)) \<rparr>"
    unfolding computeDiscounts_def Let_def p q by (simp split: prod.split)
  then show ?thesis
    using Inr assms
    by (simp add: ExplainDiscounts_def ComputeDiscounts_def ListCandidates_def ListCandidatesForDiagnosis_def)
qed

theorem explain_same_discount_witness:
  "\<exists>r. ExplainDiscounts no_faults (\<lambda>_. paused_db) 15000 one_line_cart = Inr r \<and>
    map sk_Reason (re_Skipped r) = [SkipNotActive] \<and>
    ComputeDiscounts no_faults (\<lambda>_. paused_db) 15000 one_line_cart = Inr (r\<lparr> re_Skipped := [] \<rparr>)"
proof -
  have "case ExplainDiscounts no_faults (\<lambda>_. paused_db) 15000 one_line_cart of
      Inl e \<Rightarrow> False | Inr r \<Rightarrow> map sk_Reason (re_Skipped r) = [SkipNotActive]" by code_simp
  then obtain r where r: "ExplainDiscounts no_faults (\<lambda>_. paused_db) 15000 one_line_cart = Inr r"
    "map sk_Reason (re_Skipped r) = [SkipNotActive]" by (auto split: sum.splits)
  then have "filter (\<lambda>s. sk_Reason s \<noteq> SkipNotActive) (re_Skipped r) = []" by (auto simp: filter_empty_conv)
  with r explain_same_discount [of "\<lambda>_. paused_db" 15000 one_line_cart] show ?thesis by simp
qed

section \<open>The storefront's coupon\<close>

lemma unless_not_found_found:
  "unless_not_found (case found r of Inl e \<Rightarrow> Inl (notFoundOr e code) | Inr p \<Rightarrow> Inr p) = Inr r"
  by (simp add: unless_not_found_def found_def notFoundOr_def NotFound_def newError_def IsNotFound_def HasKind_def
      split: option.split)

lemma storeCandidate_no_faults:
  assumes "live_by_code db code = Some p"
  shows "storeCandidate no_faults (\<lambda>_. db) code = Inr ((candidate_from (\<lambda>_. db) p)\<lparr> ca_Rules := [] \<rparr>)"
  using assms
  by (simp add: storeCandidate_def repo_GetPromotionByCode_def repo_GetApplicationMethod_def repo_GetCampaign_def
      q_GetApplicationMethod_def q_GetCampaign_def unless_not_found_found candidate_from_def found_def [of "Some p"]
      split: option.split)

definition refusals_of_the_cart :: "string list" where
  "refusals_of_the_cart = [[], SkipCurrencyMismatch, SkipRulesNotMatched]"

lemma visible_iff:
  assumes "pr_Code (ca_Promotion c) \<in> set (in_Codes inp)" "in_At inp = now"
  shows "storeCouponVisible (c\<lparr> ca_Rules := rs \<rparr>) now \<longleftrightarrow> skipReasonOf c inp \<in> set refusals_of_the_cart"
  using assms
  by (auto simp: storeCouponVisible_def skipReasonOf_def refusals_of_the_cart_def skip_reasons Let_def
      mechanicMatchesMethod_def campaignUsable_def split: option.splits)

text \<open>the storefront shows a coupon exactly when a cart could use it. A code is refused, and
  always with the same error, when it is malformed, when no live promotion carries it, and when the
  computation, given the code at the same moment, would skip the promotion whatever the cart:
  because it is not active, its mechanic or its method is not usable, its uses are spent, or its
  campaign is gone, closed or exhausted. It is shown when the computation applies the promotion or
  leaves it out only for the cart's currency or the cart's rules. The answer never reads through a
  method that is not there.\<close>

theorem store_coupon_visible:
  "(\<forall>e. normalizeCode code = Inl e \<longrightarrow> LookupStoreCoupon no_faults (\<lambda>_. db) now code = Inl notUsable) \<and>
   (\<forall>normalized inp. normalizeCode code = Inr normalized \<and> normalized \<in> set (in_Codes inp) \<and> in_At inp = now \<longrightarrow>
     (case live_by_code db normalized of
       None \<Rightarrow> LookupStoreCoupon no_faults (\<lambda>_. db) now code = Inl notUsable
     | Some p \<Rightarrow>
         pr_Code p = normalized \<and> p \<in> set (candidate_rows (\<lambda>_. True) (in_Codes inp) db) \<and>
         (if skipReasonOf (candidate_from (\<lambda>_. db) p) inp \<in> set refusals_of_the_cart
          then \<exists>sc. LookupStoreCoupon no_faults (\<lambda>_. db) now code = Inr sc \<and> sc_Code sc = normalized
          else LookupStoreCoupon no_faults (\<lambda>_. db) now code = Inl notUsable)))"
proof (intro conjI allI impI)
  fix e assume "normalizeCode code = Inl e"
  then show "LookupStoreCoupon no_faults (\<lambda>_. db) now code = Inl notUsable" by (simp add: LookupStoreCoupon_def)
next
  fix normalized and inp :: compute_input
  assume a: "normalizeCode code = Inr normalized \<and> normalized \<in> set (in_Codes inp) \<and> in_At inp = now"
  show "case live_by_code db normalized of
       None \<Rightarrow> LookupStoreCoupon no_faults (\<lambda>_. db) now code = Inl notUsable
     | Some p \<Rightarrow>
         pr_Code p = normalized \<and> p \<in> set (candidate_rows (\<lambda>_. True) (in_Codes inp) db) \<and>
         (if skipReasonOf (candidate_from (\<lambda>_. db) p) inp \<in> set refusals_of_the_cart
          then \<exists>sc. LookupStoreCoupon no_faults (\<lambda>_. db) now code = Inr sc \<and> sc_Code sc = normalized
          else LookupStoreCoupon no_faults (\<lambda>_. db) now code = Inl notUsable)"
  proof (cases "live_by_code db normalized")
    case None
    then show ?thesis
      using a by (simp add: LookupStoreCoupon_def storeCandidate_def repo_GetPromotionByCode_def found_def
          notFoundOr_def IsNotFound_def NotFound_def newError_def HasKind_def)
  next
    case (Some p)
    then obtain w where w: "w \<in> set (t_promotion db)" "pw_promo w = p" "\<not> pw_deleted w" "pr_Code p = normalized"
      by (auto simp: live_by_code_def dest!: find_row)
    then have row: "p \<in> set (candidate_rows (\<lambda>_. True) (in_Codes inp) db)"
      using a by (auto simp: candidate_rows_def)
    let ?c = "candidate_from (\<lambda>_. db) p"
    have code: "pr_Code (ca_Promotion ?c) = normalized" using w(4) by (simp add: candidate_from_def)
    note vis = visible_iff [of ?c inp now "[]", unfolded code]
    show ?thesis
    proof (cases "skipReasonOf ?c inp \<in> set refusals_of_the_cart")
      case False
      then show ?thesis
        using a Some vis row w(4) by (simp add: LookupStoreCoupon_def storeCandidate_no_faults)
    next
      case True
      then have v: "storeCouponVisible (?c\<lparr> ca_Rules := [] \<rparr>) now" using a vis by simp
      then obtain m where "ca_Method ?c = Some m"
        by (auto simp: storeCouponVisible_def mechanicMatchesMethod_def Let_def split: if_splits option.splits)
      then show ?thesis
        using a Some True v row w(4) code by (simp add: LookupStoreCoupon_def storeCandidate_no_faults)
    qed
  qed
qed

theorem store_coupon_visible_witness:
  "(\<exists>sc. LookupStoreCoupon no_faults (\<lambda>_. stocked_db) 15000 '' spring10 '' = Inr sc \<and> sc_Code sc = ''SPRING10'') \<and>
   LookupStoreCoupon no_faults (\<lambda>_. paused_db) 15000 '' spring10 '' = Inl notUsable \<and>
   LookupStoreCoupon no_faults (\<lambda>_. stocked_db) 15000 ''WINTER'' = Inl notUsable \<and>
   LookupStoreCoupon no_faults (\<lambda>_. stocked_db) 15000 ''?'' = Inl notUsable"
proof -
  have facts: "normalizeCode '' spring10 '' = Inr ''SPRING10''" "normalizeCode ''WINTER'' = Inr ''WINTER''"
    "live_by_code stocked_db ''WINTER'' = None"
    "(case normalizeCode ''?'' of Inl e \<Rightarrow> True | Inr c \<Rightarrow> False)"
    "(case live_by_code stocked_db ''SPRING10'' of None \<Rightarrow> False
      | Some p \<Rightarrow> skipReasonOf (candidate_from (\<lambda>_. stocked_db) p) one_line_cart = [])"
    "(case live_by_code paused_db ''SPRING10'' of None \<Rightarrow> False
      | Some p \<Rightarrow> skipReasonOf (candidate_from (\<lambda>_. paused_db) p) one_line_cart = SkipNotActive)"
    by code_simp+
  have cart: "in_Codes one_line_cart = [''SPRING10'']" "in_At one_line_cart = 15000"
    by (simp_all add: one_line_cart_def)
  have refused: "[] \<in> set refusals_of_the_cart" "SkipNotActive \<notin> set refusals_of_the_cart"
    by (simp_all add: refusals_of_the_cart_def skip_reasons)
  note shown = store_coupon_visible [THEN conjunct2, rule_format]
  obtain p where p: "live_by_code stocked_db ''SPRING10'' = Some p"
    "skipReasonOf (candidate_from (\<lambda>_. stocked_db) p) one_line_cart = []"
    using facts(5) by (auto split: option.splits)
  obtain p' where p': "live_by_code paused_db ''SPRING10'' = Some p'"
    "skipReasonOf (candidate_from (\<lambda>_. paused_db) p') one_line_cart = SkipNotActive"
    using facts(6) by (auto split: option.splits)
  have "\<exists>sc. LookupStoreCoupon no_faults (\<lambda>_. stocked_db) 15000 '' spring10 '' = Inr sc \<and> sc_Code sc = ''SPRING10''"
    using shown [of "'' spring10 ''" "''SPRING10''" one_line_cart 15000 stocked_db] facts(1) cart p refused by simp
  moreover have "LookupStoreCoupon no_faults (\<lambda>_. paused_db) 15000 '' spring10 '' = Inl notUsable"
    using shown [of "'' spring10 ''" "''SPRING10''" one_line_cart 15000 paused_db] facts(1) cart p' refused by simp
  moreover have "LookupStoreCoupon no_faults (\<lambda>_. stocked_db) 15000 ''WINTER'' = Inl notUsable"
    using shown [of "''WINTER''" "''WINTER''" "one_line_cart\<lparr> in_Codes := [''WINTER''] \<rparr>" 15000 stocked_db] facts(2,3) cart
    by simp
  moreover have "LookupStoreCoupon no_faults (\<lambda>_. stocked_db) 15000 ''?'' = Inl notUsable"
    using store_coupon_visible [THEN conjunct1, of "''?''" stocked_db 15000] facts(4) by (auto split: sum.splits)
  ultimately show ?thesis by blast
qed

section \<open>What is offered can be redeemed\<close>

lemma eligible_gates:
  assumes "skipReasonOf c inp = []"
  shows "pr_Status (ca_Promotion c) = PromotionActive" "\<not> UsageExhausted (ca_Promotion c)"
    "campaignUsable c (in_At inp)" "campaignBudgetCurrencyMatches c (in_CurrencyCode inp)"
  using assms by (auto simp: skipReasonOf_def skip_reasons Let_def split: if_splits option.splits)

lemma eligible_lockBudget:
  assumes "skipReasonOf (candidate_from (\<lambda>_. db) p) inp = []"
    and "rd_CurrencyCode req = in_CurrencyCode inp" and "in_At inp = now"
  shows "case pr_CampaignID p of
      None \<Rightarrow> lockBudget no_faults p req now db = Inr (0, None)
    | Some cid \<Rightarrow> \<exists>c. live_campaign db cid = Some c \<and> \<not> BudgetExhausted c \<and>
        lockBudget no_faults p req now db = Inr (BudgetDeltaFor c (rd_Amount req), Some cid)"
proof (cases "pr_CampaignID p")
  case None
  then show ?thesis by (simp add: lockBudget_def)
next
  case (Some cid)
  note g = eligible_gates [OF assms(1)]
  obtain c where c: "live_campaign db cid = Some c" "WindowContains c now" "\<not> BudgetExhausted c"
    using g(3) Some assms(3) by (auto simp: campaignUsable_def candidate_from_def split: option.splits)
  moreover have "cp_BudgetType c = BudgetSpend \<longrightarrow> cp_BudgetCurrencyCode c = rd_CurrencyCode req"
    using g(4) Some c(1) assms(2)
    by (auto simp: campaignBudgetCurrencyMatches_def candidate_from_def split: if_splits)
  ultimately show ?thesis
    using Some live_campaign_id [OF c(1)] by (auto simp: lockBudget_def q_LockCampaign_def found_def)
qed

text \<open>The booking of an amount on a budget that is not exhausted fails for one reason alone.\<close>

lemma redeem_budget_open:
  assumes "live_campaign db cid = Some c" "campaign_checks c" "\<not> BudgetExhausted c" "0 \<le> amount" "amount \<le> MaxAmount"
    and "cp_BudgetUsed c + MaxAmount \<le> MaxInt64"
  shows "(\<exists>db'. redeem_budget no_faults (BudgetDeltaFor c amount) (Some cid) db = Inr db' \<and>
      t_redemption db' = t_redemption db) \<or>
    redeem_budget no_faults (BudgetDeltaFor c amount) (Some cid) db = Inl (Conflict CodeBudgetExceeded) \<and>
      cp_BudgetType c = BudgetSpend \<and> (\<exists>l. cp_BudgetLimit c = Some l \<and> l < cp_BudgetUsed c + amount)"
proof -
  have small: "\<not> cp_BudgetUsed c + BudgetDeltaFor c amount > MaxInt64"
    using assms(4-6) by (auto simp: BudgetDeltaFor_def MaxAmount_def MaxInt64_def)
  have usage: "cp_BudgetUsed c + BudgetDeltaFor c amount \<le> l"
    if "cp_BudgetLimit c = Some l" "cp_BudgetType c = BudgetUsage" for l
    using assms(3) that by (auto simp: BudgetExhausted_def BudgetDeltaFor_def promo_words)
  have kinds: "cp_BudgetType c = BudgetNone \<or> cp_BudgetType c = BudgetSpend \<or> cp_BudgetType c = BudgetUsage"
    using assms(2) by (auto simp: campaign_checks_def promo_words)
  have none: "BudgetDeltaFor c amount = 0" if "cp_BudgetType c = BudgetNone"
    using that by (simp add: BudgetDeltaFor_def promo_words)
  show ?thesis
  proof (cases "BudgetDeltaFor c amount > 0")
    case False
    then show ?thesis by (simp add: redeem_budget_def)
  next
    case True
    show ?thesis
    proof (cases "case cp_BudgetLimit c of None \<Rightarrow> True | Some l \<Rightarrow> cp_BudgetUsed c + BudgetDeltaFor c amount \<le> l")
      case within: True
      have "q_IncrementCampaignBudget no_faults cid (BudgetDeltaFor c amount) db =
          Inr (set_campaign cid (\<lambda>x. x\<lparr> cp_BudgetUsed := cp_BudgetUsed x + BudgetDeltaFor c amount \<rparr>) db)"
        using assms(1) small within by (simp add: q_IncrementCampaignBudget_def)
      then show ?thesis using True by (simp add: redeem_budget_def)
    next
      case over: False
      then obtain l where l: "cp_BudgetLimit c = Some l" "l < cp_BudgetUsed c + BudgetDeltaFor c amount"
        by (auto split: option.splits)
      then have spend: "cp_BudgetType c = BudgetSpend" using usage kinds none True by force
      have "q_IncrementCampaignBudget no_faults cid (BudgetDeltaFor c amount) db = Inl PgNoRows"
        using assms(1) small over by (simp add: q_IncrementCampaignBudget_def)
      then show ?thesis using True l spend by (simp add: redeem_budget_def BudgetDeltaFor_def)
    qed
  qed
qed

lemma RedeemPromotion_by_id:
  assumes "live_promotion db pid = Some p" "requireID pid PromotionIDPrefix = None"
    and "normalizeCurrency currency = Inr code" "validateText ref 1 MaxReferenceLen = None" "validateAmount amount = None"
  shows "RedeemPromotion no_faults eid \<lparr> rin_PromotionID = pid, rin_Code = [], rin_Reference = ref,
      rin_Amount = amount, rin_CurrencyCode = currency \<rparr> now db db =
    (case Redeem no_faults \<lparr> rd_ID = eid, rd_PromotionID = pid, rd_CampaignID = None, rd_Reference = ref,
        rd_Amount = amount, rd_CurrencyCode = code, rd_BudgetDelta = 0, rd_ReleasedAt = None \<rparr> now db of
      (Inl e, db') \<Rightarrow> (Inl e, db') | (Inr (row, _), db') \<Rightarrow> (Inr row, db'))"
proof -
  have "pid \<noteq> []" using assms(2) by (auto simp: requireID_def)
  then have "resolvePromotion no_faults pid [] db = Inr p"
    using assms(1,2) by (simp add: resolvePromotion_def repo_GetPromotion_def q_GetPromotion_def found_def)
  then show ?thesis using assms(3-5) live_promotion_id [OF assms(1)] by (simp add: RedeemPromotion_def)
qed

text \<open>Once the gates are open and the budget is booked, the row goes in.\<close>

lemma redeem_tx_booked:
  assumes "live_promotion db (rd_PromotionID req) = Some p" "pr_Status p = PromotionActive"
    and "active_redemption db (rd_PromotionID req) (rd_Reference req) = None"
    and "q_IncrementPromotionUsage no_faults (rd_PromotionID req) db = Inr db1"
    and "lockBudget no_faults p req now db = Inr (delta, cid)"
    and "redeem_budget no_faults delta cid db1 = Inr db2" "t_redemption db2 = t_redemption db"
    and "redemption_checks (req\<lparr> rd_CampaignID := cid, rd_BudgetDelta := delta, rd_ReleasedAt := None \<rparr>)"
    and "rd_ID req \<notin> rd_ID ` set (t_redemption db)"
  shows "\<exists>row db'. redeem_tx no_faults req now db = (Inr (row, True), db')"
proof -
  let ?row = "req\<lparr> rd_CampaignID := cid, rd_BudgetDelta := delta, rd_ReleasedAt := None \<rparr>"
  have "active_redemption db2 (rd_PromotionID req) (rd_Reference req) = None"
    using assms(3,7) by (simp add: active_redemption_def)
  moreover have "\<not> list_ex (\<lambda>x. rd_ID x = rd_ID req) (t_redemption db2)"
    using assms(7,9) by (auto simp: list_ex_iff) (metis image_eqI)
  ultimately have "q_InsertRedemption no_faults ?row db2 = Inr (db2\<lparr> t_redemption := t_redemption db2 @ [?row] \<rparr>)"
    using assms(8) by (simp add: q_InsertRedemption_def)
  moreover have "q_LockPromotion no_faults (rd_PromotionID req) db = Inr p"
    using assms(1) by (simp add: q_LockPromotion_def found_def)
  ultimately show ?thesis
    using assms(2-6) by (simp add: redeem_tx_def q_GetActiveRedemption_def found_def Let_def)
qed

text \<open>What becomes of a redemption whose promotion the computation offers.\<close>

lemma redeem_tx_offered:
  assumes "ledger_ok db" and "live_promotion db (rd_PromotionID req) = Some p"
    and "skipReasonOf (candidate_from (\<lambda>_. db) p) inp = []" and "in_At inp = now"
    and "rd_CurrencyCode req = in_CurrencyCode inp"
    and "active_redemption db (rd_PromotionID req) (rd_Reference req) = None"
    and "\<And>cid delta. 0 \<le> delta \<Longrightarrow>
      redemption_checks (req\<lparr> rd_CampaignID := cid, rd_BudgetDelta := delta, rd_ReleasedAt := None \<rparr>)"
    and "rd_ID req \<notin> rd_ID ` set (t_redemption db)" and "pr_UsageCount p < MaxInt64"
    and "0 \<le> rd_Amount req" "rd_Amount req \<le> MaxAmount"
    and "\<forall>w \<in> set (t_campaign db). cp_BudgetUsed (cw_campaign w) + MaxAmount \<le> MaxInt64"
  shows "(\<exists>row db'. redeem_tx no_faults req now db = (Inr (row, True), db')) \<or>
    (\<exists>db' cid c l. redeem_tx no_faults req now db = (Inl (Conflict CodeBudgetExceeded), db') \<and>
      pr_CampaignID p = Some cid \<and> live_campaign db cid = Some c \<and> cp_BudgetType c = BudgetSpend \<and>
      cp_BudgetLimit c = Some l \<and> cp_BudgetUsed c < l \<and> l < cp_BudgetUsed c + rd_Amount req)"
proof -
  note g = eligible_gates [OF assms(3)]
  have active: "pr_Status p = PromotionActive" using g(1) by (simp add: candidate_from_def)
  obtain db1 where db1: "q_IncrementPromotionUsage no_faults (rd_PromotionID req) db = Inr db1"
    using assms(2,9) g(2)
    by (auto simp: q_IncrementPromotionUsage_def UsageExhausted_def candidate_from_def split: option.splits)
  note moved = IncrementPromotionUsage_Inr(1) [OF db1]
  note booked = redeem_tx_booked [OF assms(2) active assms(6) db1]
  show ?thesis
  proof (cases "pr_CampaignID p")
    case None
    then show ?thesis
      using booked [of now 0 None db1] assms(7) [of 0 None] assms(8)
      by (simp add: lockBudget_def redeem_budget_def moved)
  next
    case (Some cid)
    obtain c where c: "live_campaign db cid = Some c" "\<not> BudgetExhausted c"
      "lockBudget no_faults p req now db = Inr (BudgetDeltaFor c (rd_Amount req), Some cid)"
      using eligible_lockBudget [OF assms(3,5,4)] Some by auto
    have room: "cp_BudgetUsed c + MaxAmount \<le> MaxInt64" using assms(12) c(1) by (auto elim!: live_campaign_row)
    have delta: "0 \<le> BudgetDeltaFor c (rd_Amount req)" using assms(10) by (simp add: BudgetDeltaFor_def)
    have "live_campaign db1 cid = Some c" using c(1) by (simp add: moved live_campaign_def)
    from redeem_budget_open [OF this live_campaign_checks [OF assms(1) c(1)] c(2) assms(10,11) room]
    show ?thesis
    proof (elim disjE exE conjE)
      fix db2 assume "redeem_budget no_faults (BudgetDeltaFor c (rd_Amount req)) (Some cid) db1 = Inr db2"
        and "t_redemption db2 = t_redemption db1"
      then show ?thesis using booked [OF c(3)] assms(7) [OF delta] assms(8) by (simp add: moved)
    next
      fix l assume over: "redeem_budget no_faults (BudgetDeltaFor c (rd_Amount req)) (Some cid) db1 = Inl (Conflict CodeBudgetExceeded)"
        "cp_BudgetType c = BudgetSpend" "cp_BudgetLimit c = Some l" "l < cp_BudgetUsed c + rd_Amount req"
      have "redeem_tx no_faults req now db = (Inl (Conflict CodeBudgetExceeded), db1)"
        using assms(2,6) active c(3) db1 over(1)
        by (simp add: redeem_tx_def q_LockPromotion_def q_GetActiveRedemption_def found_def Let_def)
      moreover have "cp_BudgetUsed c < l" using c(2) over(2,3) by (auto simp: BudgetExhausted_def promo_words)
      ultimately show ?thesis using over Some c(1) by blast
    qed
  qed
qed

text \<open>C25: a discount the computation offers can be redeemed. When the computation applies a
  promotion at a moment and the redemption of it arrives while the tables are still the same, for
  the cart's currency and with an accepted reference and amount, it is written, or the record of an
  earlier redemption of that reference is given back; the only refusal left is that of a budget of
  money which is not exhausted but does not cover the amount.\<close>

theorem offered_can_be_redeemed:
  assumes "reachable_db db" and "live_promotion db pid = Some p" and "requireID pid PromotionIDPrefix = None"
    and "skipReasonOf (candidate_from (\<lambda>_. db) p) inp = []" and "in_At inp = now"
    and "normalizeCurrency currency = Inr (in_CurrencyCode inp)"
    and "validateText ref 1 MaxReferenceLen = None" and "validateAmount amount = None"
    and "eid \<notin> rd_ID ` set (t_redemption db)"
    and "pr_UsageCount p < MaxInt64"
    and "\<forall>w \<in> set (t_campaign db). cp_BudgetUsed (cw_campaign w) + MaxAmount \<le> MaxInt64"
  shows "case RedeemPromotion no_faults eid \<lparr> rin_PromotionID = pid, rin_Code = [], rin_Reference = ref,
      rin_Amount = amount, rin_CurrencyCode = currency \<rparr> now db db of
      (Inr row, db') \<Rightarrow> active_redemption db' pid ref = Some row
    | (Inl e, db') \<Rightarrow> db' = db \<and> e = Conflict CodeBudgetExceeded \<and>
        (\<exists>cid c l. pr_CampaignID p = Some cid \<and> live_campaign db cid = Some c \<and> cp_BudgetType c = BudgetSpend \<and>
          cp_BudgetLimit c = Some l \<and> cp_BudgetUsed c < l \<and> l < cp_BudgetUsed c + amount)"
proof -
  note ok = reachable_ledger [OF assms(1)]
  define req where "req = \<lparr> rd_ID = eid, rd_PromotionID = pid, rd_CampaignID = None, rd_Reference = ref,
    rd_Amount = amount, rd_CurrencyCode = in_CurrencyCode inp, rd_BudgetDelta = 0, rd_ReleasedAt = None \<rparr>"
  have req [simp]: "rd_ID req = eid" "rd_PromotionID req = pid" "rd_Reference req = ref" "rd_Amount req = amount"
    "rd_CurrencyCode req = in_CurrencyCode inp" by (simp_all add: req_def)
  note call = RedeemPromotion_by_id [OF assms(2,3,6-8), of eid now, folded req_def]
  have amount: "0 \<le> amount" "amount \<le> MaxAmount"
    using assms(8) by (auto simp: validateAmount_def promo_bounds split: if_splits)
  have checks: "redemption_checks (req\<lparr> rd_CampaignID := cid, rd_BudgetDelta := delta, rd_ReleasedAt := None \<rparr>)"
    if "0 \<le> delta" for cid delta
    using amount that validateText_nonempty [of ref 0] assms(7) normalizeCurrency_checked [OF assms(6)]
    by (simp add: redemption_checks_def MaxAmount_def)
  show ?thesis
  proof (cases "active_redemption db pid ref")
    case (Some row)
    then have "redeem_tx no_faults req now db = (Inr (row, False), db)"
      using assms(2) by (simp add: redeem_tx_def q_LockPromotion_def q_GetActiveRedemption_def found_def)
    then show ?thesis using Some by (simp add: call Redeem_def)
  next
    case None
    consider row db' where "redeem_tx no_faults req now db = (Inr (row, True), db')"
      | db' cid c l where "redeem_tx no_faults req now db = (Inl (Conflict CodeBudgetExceeded), db')"
        "pr_CampaignID p = Some cid" "live_campaign db cid = Some c" "cp_BudgetType c = BudgetSpend"
        "cp_BudgetLimit c = Some l" "cp_BudgetUsed c < l" "l < cp_BudgetUsed c + amount"
      using redeem_tx_offered [OF ok _ assms(4,5) _ _ checks] assms(2,9-11) None amount by auto
    then show ?thesis
    proof cases
      case 1
      then show ?thesis
        using redeem_tx_created [OF 1] active_redemption_book [of req now _ db] by (simp add: call Redeem_def)
    next
      case 2
      then show ?thesis by (simp add: call Redeem_def)
    qed
  qed
qed

theorem offered_can_be_redeemed_witness:
  "\<exists>row. active_redemption (snd (RedeemPromotion no_faults ''red_1'' \<lparr> rin_PromotionID = ''promo_1'', rin_Code = [],
      rin_Reference = ''cart_1'', rin_Amount = 200, rin_CurrencyCode = ''usd'' \<rparr> 15000 stocked_db stocked_db))
    ''promo_1'' ''cart_1'' = Some row"
proof -
  have facts: "requireID ''promo_1'' PromotionIDPrefix = None" "normalizeCurrency ''usd'' = Inr ''USD''"
    "validateText ''cart_1'' 1 MaxReferenceLen = None" "validateAmount 200 = None"
    "t_redemption stocked_db = []"
    "(case live_promotion stocked_db ''promo_1'' of None \<Rightarrow> False | Some p \<Rightarrow> pr_UsageCount p < MaxInt64 \<and>
      skipReasonOf (candidate_from (\<lambda>_. stocked_db) p) one_line_cart = [])"
    "list_all (\<lambda>w. cp_BudgetUsed (cw_campaign w) + MaxAmount \<le> MaxInt64) (t_campaign stocked_db)"
    "(case fst (RedeemPromotion no_faults ''red_1'' \<lparr> rin_PromotionID = ''promo_1'', rin_Code = [],
      rin_Reference = ''cart_1'', rin_Amount = 200, rin_CurrencyCode = ''usd'' \<rparr> 15000 stocked_db stocked_db) of
      Inl e \<Rightarrow> False | Inr r \<Rightarrow> True)" by code_simp+
  obtain p where p: "live_promotion stocked_db ''promo_1'' = Some p" "pr_UsageCount p < MaxInt64"
    "skipReasonOf (candidate_from (\<lambda>_. stocked_db) p) one_line_cart = []"
    using facts(6) by (auto split: option.splits)
  have cart: "in_At one_line_cart = 15000" "in_CurrencyCode one_line_cart = ''USD''" by (simp_all add: one_line_cart_def)
  have "normalizeCurrency ''usd'' = Inr (in_CurrencyCode one_line_cart)" using facts(2) cart by simp
  note t = offered_can_be_redeemed [OF reachable_stocked p(1) facts(1) p(3) cart(1) this facts(3,4), of "''red_1''"]
  have "case RedeemPromotion no_faults ''red_1'' \<lparr> rin_PromotionID = ''promo_1'', rin_Code = [],
      rin_Reference = ''cart_1'', rin_Amount = 200, rin_CurrencyCode = ''usd'' \<rparr> 15000 stocked_db stocked_db of
      (Inr row, db') \<Rightarrow> active_redemption db' ''promo_1'' ''cart_1'' = Some row | (Inl e, db') \<Rightarrow> True"
    using t p(2) facts(5,7) by (auto simp: list_all_iff split: prod.splits sum.splits)
  then show ?thesis using facts(8) by (auto split: prod.splits sum.splits)
qed

section \<open>The trial\<close>

lemma filter_take_drop_all: "filter P (take n xs) @ filter P (drop n xs) = filter P xs"
  by (metis append_take_drop_id filter_append)

lemma live_loop_all:
  fixes k :: nat
  assumes "rows = sort_key rd_ID (filter (\<lambda>r. rd_PromotionID r = pid) (t_redemption db))"
    and "int (length rows) + 100 < 2 ^ 31" and "k \<le> length rows"
  shows "live_loop no_faults (\<lambda>_. db) pid (int k) live =
    Some (Inr (live @ map rd_Reference (filter (\<lambda>r. active r) (drop k rows))))"
  using assms(3)
proof (induction "length rows - k" arbitrary: k live rule: less_induct)
  case less
  let ?page = "take 100 (drop k rows)"
  let ?refs = "\<lambda>rs. map rd_Reference (filter (\<lambda>r. active r) rs)"
  have page: "repo_ListRedemptions no_faults pid MaxLimit32 (int k) db = Inr ?page"
    using assms(1) by (simp add: repo_ListRedemptions_def MaxLimit32_def)
  show ?case
  proof (cases "length ?page < 100")
    case True
    then have "drop k rows = ?page" by simp
    then show ?thesis using page True by (subst live_loop.simps) (simp add: MaxLimit32_def)
  next
    case False
    then have k: "k + 100 \<le> length rows" by simp
    have w: "wrap32 (int k + MaxLimit32) = int (k + 100)"
      using wrap32_range [of "int k + 100"] k assms(2) by (simp add: MaxLimit32_def)
    have full: "int (length ?page) = MaxLimit32" using k by (simp add: MaxLimit32_def)
    have "live_loop no_faults (\<lambda>_. db) pid (int k) live =
        live_loop no_faults (\<lambda>_. db) pid (int (k + 100)) (live @ ?refs ?page)"
      by (subst live_loop.simps) (simp only: page sum.case full w less_irrefl if_False)
    also have "\<dots> = Some (Inr ((live @ ?refs ?page) @ ?refs (drop (k + 100) rows)))"
      using k by (intro less.hyps) simp_all
    also have "drop (k + 100) rows = drop 100 (drop k rows)" by (simp add: add.commute)
    also have "(live @ ?refs ?page) @ ?refs (drop 100 (drop k rows)) = live @ ?refs (drop k rows)"
      unfolding append_assoc map_append [symmetric] filter_take_drop_all ..
    finally show ?thesis .
  qed
qed

lemma live_loop_total: "offset < 2 ^ 31 \<Longrightarrow> \<exists>res. live_loop flt sees pid offset live = Some res"
proof (induction "nat (2 ^ 31 - offset)" arbitrary: offset live rule: less_induct)
  case less
  show ?case
  proof (cases "repo_ListRedemptions flt pid MaxLimit32 offset (sees offset)")
    case (Inl e)
    then show ?thesis by (subst live_loop.simps) simp
  next
    case (Inr page)
    then have pos: "0 \<le> offset" by (auto simp: repo_ListRedemptions_def split: if_splits)
    let ?next = "wrap32 (offset + MaxLimit32)"
    have "\<exists>res. live_loop flt sees pid ?next live' = Some res" for live'
    proof (cases "?next < 0")
      case True
      then show ?thesis by (subst live_loop.simps) (simp add: repo_ListRedemptions_def)
    next
      case False
      then have "offset < ?next" "?next < 2 ^ 31"
        using wrap32_range [of "offset + MaxLimit32"] pos less.prems
        by (auto simp: MaxLimit32_def split: if_splits)
      then show ?thesis using less.prems by (intro less.hyps) auto
    qed
    then show ?thesis using Inr by (subst live_loop.simps) simp
  qed
qed

text \<open>the trial's walk over the redemption ledger ends, and misses nothing. Whatever the tables
  are at each page and whatever the database answers, the loop stops. Over a ledger that stands
  still, with fewer than two thousand million redemptions of the promotion, it returns the references
  the promotion is redeemed on and not released, each of them and no other.\<close>

theorem live_references_complete:
  "(\<exists>res. liveReferences flt sees pid = Some res) \<and>
   (int (length (filter (\<lambda>r. rd_PromotionID r = pid) (t_redemption db))) + 100 < 2 ^ 31 \<longrightarrow>
     (\<exists>refs. liveReferences no_faults (\<lambda>_. db) pid = Some (Inr refs) \<and>
       set refs = rd_Reference ` {r \<in> set (t_redemption db). rd_PromotionID r = pid \<and> active r}))"
proof (intro conjI impI)
  show "\<exists>res. liveReferences flt sees pid = Some res"
    unfolding liveReferences_def by (rule live_loop_total) simp
next
  assume small: "int (length (filter (\<lambda>r. rd_PromotionID r = pid) (t_redemption db))) + 100 < 2 ^ 31"
  let ?rows = "sort_key rd_ID (filter (\<lambda>r. rd_PromotionID r = pid) (t_redemption db))"
  have "liveReferences no_faults (\<lambda>_. db) pid = Some (Inr (map rd_Reference (filter (\<lambda>r. active r) ?rows)))"
    using live_loop_all [of ?rows pid db 0 "[]"] small by (simp only: liveReferences_def) simp
  then show "\<exists>refs. liveReferences no_faults (\<lambda>_. db) pid = Some (Inr refs) \<and>
       set refs = rd_Reference ` {r \<in> set (t_redemption db). rd_PromotionID r = pid \<and> active r}"
    by auto
qed

theorem live_references_complete_witness:
  "\<exists>refs. liveReferences no_faults (\<lambda>_. redeemed_db) ''promo_1'' = Some (Inr refs) \<and> set refs = {''cart_1''}"
proof -
  have facts: "int (length (filter (\<lambda>r. rd_PromotionID r = ''promo_1'') (t_redemption redeemed_db))) + 100 < 2 ^ 31"
    "map rd_Reference (filter (\<lambda>r. rd_PromotionID r = ''promo_1'' \<and> active r) (t_redemption redeemed_db)) = [''cart_1'']"
    by code_simp+
  have "rd_Reference ` {r \<in> set (t_redemption redeemed_db). rd_PromotionID r = ''promo_1'' \<and> active r} = {''cart_1''}"
    using arg_cong [OF facts(2), of set] by auto
  then show ?thesis using live_references_complete [of no_faults "\<lambda>_. redeemed_db" "''promo_1''" redeemed_db] facts(1) by auto
qed

lemma asPublished_reason:
  "skipReasonOf (asPublished c) inp =
    (if \<not> PromotionType_Valid (pr_Type (ca_Promotion c)) then SkipMechanicUnknown
     else
       (case ca_Method c of
         None \<Rightarrow> SkipNoApplicationMethod
       | Some m \<Rightarrow>
           if \<not> mechanicMatchesMethod (ca_Promotion c) (ca_Method c) then SkipRewardMismatch
           else if me_Type m = MethodFixed \<and> me_CurrencyCode m \<noteq> in_CurrencyCode inp then SkipCurrencyMismatch
           else if \<not> matchRules (ContextRules c) (in_Context inp) (in_ContextLists inp)
           then SkipRulesNotMatched else []))"
  by (simp add: skipReasonOf_def asPublished_def UsageExhausted_def campaignUsable_def campaignBudgetCurrencyMatches_def
      mechanicMatchesMethod_def ContextRules_def rulesOfType_def Let_def split: option.split)

lemma no_purchase_changes:
  "skipReasonOf (asPublished c) inp \<in> set reasonsNoPurchaseChanges \<longleftrightarrow>
    skipReasonOf (asPublished c) inp' \<in> set reasonsNoPurchaseChanges"
  by (auto simp: asPublished_reason reasonsNoPurchaseChanges_def skip_reasons split: option.splits)

text \<open>What the trial says of one purchase.\<close>

definition trial_row :: "promotion_candidate \<Rightarrow> string list \<Rightarrow> time \<Rightarrow> trial_outcome \<Rightarrow> trial_entry \<Rightarrow> bool" where
  "trial_row c redeemed now out e \<longleftrightarrow> to_Reference out = te_Reference e \<and>
    (if te_Reference e \<noteq> [] \<and> te_Reference e \<in> set redeemed
     then to_AlreadyApplied out \<and> to_Result out = None \<and> to_Skipped out = []
     else \<not> to_AlreadyApplied out \<and>
       (\<exists>n. normalizeComputeInput ((te_Input e)\<lparr> in_Codes := [] \<rparr>) now = Inr n \<and>
         to_Result out = Some (computeDiscounts [c] n) \<and> to_Skipped out = skipReasonOf c n))"

lemma trial_entries_Inr:
  assumes "trial_entries c redeemed now es acc = Inr outs"
  shows "\<exists>rest. outs = acc @ rest \<and> list_all2 (trial_row c redeemed now) rest es"
  using assms
proof (induction es arbitrary: acc)
  case (Cons e es)
  have "\<exists>out. trial_row c redeemed now out e \<and> trial_entries c redeemed now es (acc @ [out]) = Inr outs"
  proof (cases "te_Reference e \<in> set redeemed \<and> te_Reference e \<noteq> []")
    case True
    then show ?thesis
      using Cons.prems
      by (intro exI [of _ "\<lparr> to_Reference = te_Reference e, to_AlreadyApplied = True, to_Skipped = [], to_Result = None \<rparr>"])
        (simp add: Let_def trial_row_def)
  next
    case False
    then obtain n where n: "normalizeComputeInput ((te_Input e)\<lparr> in_Codes := [] \<rparr>) now = Inr n"
      using Cons.prems by (auto simp: Let_def split: sum.splits)
    have "(case re_Skipped (computeDiscounts [c] n) of [] \<Rightarrow> [] | s # _ \<Rightarrow> sk_Reason s) = skipReasonOf c n"
      by (simp add: computeDiscounts_def partitionCandidates_def partition_loop_eq eligible_def Let_def split: prod.split)
    then show ?thesis
      using Cons.prems False n
      by (intro exI [of _ "\<lparr> to_Reference = te_Reference e, to_AlreadyApplied = False,
          to_Skipped = skipReasonOf c n, to_Result = Some (computeDiscounts [c] n) \<rparr>"])
        (auto simp: Let_def trial_row_def)
  qed
  then obtain out where "trial_row c redeemed now out e" "trial_entries c redeemed now es (acc @ [out]) = Inr outs"
    by blast
  with Cons.IH show ?case by fastforce
qed simp

text \<open>A stored promotion as a cart would meet it once published: its own method and rules, active,
  automatic, and with neither a usage limit nor a campaign in its way.\<close>

definition published_promotion :: "promotion \<Rightarrow> application_method option \<Rightarrow> promotion_rule list \<Rightarrow> promotion_candidate" where
  "published_promotion p m rules =
    \<lparr> ca_Promotion = p\<lparr> pr_Status := ''active'', pr_IsAutomatic := True, pr_UsageLimit := None, pr_CampaignID := None \<rparr>,
       ca_Campaign = None, ca_Method = m, ca_Rules = rules \<rparr>"

definition rules_by_id :: "promo_db \<Rightarrow> string \<Rightarrow> promotion_rule list" where
  "rules_by_id db pid =
    sort_key ru_ID (map rw_rule (filter (\<lambda>w. ru_PromotionID (rw_rule w) = pid \<and> \<not> rw_deleted w) (t_rule db)))"

lemma published_promotion_eq:
  "asPublished \<lparr> ca_Promotion = p, ca_Campaign = k, ca_Method = m, ca_Rules = rules \<rparr> = published_promotion p m rules"
  by (simp add: asPublished_def published_promotion_def PromotionActive_def)

lemma repo_ListPromotionRules_Inr:
  assumes "repo_ListPromotionRules flt pid db = Inr rules" shows "rules = rules_by_id db pid"
  using assms by (auto simp: repo_ListPromotionRules_def rules_by_id_def split: option.splits)

lemma method_read:
  assumes "unless_not_found (GetApplicationMethod flt pid db) = Inr m" and "requireID pid PromotionIDPrefix = None"
  shows "m = live_method db pid"
proof (cases "flt ''GetApplicationMethod''")
  case None
  with assms show ?thesis
    by (simp add: GetApplicationMethod_def repo_GetApplicationMethod_def q_GetApplicationMethod_def statement_def
        unless_not_found_found)
next
  case (Some f)
  have "\<not> IsNotFound (Some (wrapDB (PgFault f)))"
    by (cases f) (simp_all add: wrapDB_def IsNotFound_def HasKind_def)
  with assms Some show ?thesis
    by (simp add: GetApplicationMethod_def repo_GetApplicationMethod_def q_GetApplicationMethod_def statement_def
        unless_not_found_def notFoundOr_def)
qed

lemma trialCandidate_Inr:
  assumes "trialCandidate flt see pid = Inr c"
  shows "\<exists>p. live_promotion (see ''GetPromotion'') pid = Some p \<and>
    c = published_promotion p (live_method (see ''GetApplicationMethod'') pid)
      (rules_by_id (see ''ListPromotionRules'') pid) \<and>
    (\<forall>inp. skipReasonOf c inp \<notin> set reasonsNoPurchaseChanges)"
proof -
  obtain p mth rules probe where
    p: "live_promotion (see ''GetPromotion'') pid = Some p" "requireID pid PromotionIDPrefix = None"
    and m: "unless_not_found (GetApplicationMethod flt pid (see ''GetApplicationMethod'')) = Inr mth"
    and rules: "ListPromotionRules flt see pid = Inr rules"
    and c: "c = asPublished \<lparr> ca_Promotion = p, ca_Campaign = None, ca_Method = mth, ca_Rules = rules \<rparr>"
    and probe: "skipReasonOf c probe \<notin> set reasonsNoPurchaseChanges"
    using assms
    by (auto simp: trialCandidate_def GetPromotion_def repo_GetPromotion_def q_GetPromotion_def Let_def
        split: option.splits sum.splits if_splits)
  have "rules = rules_by_id (see ''ListPromotionRules'') pid"
    using rules by (auto simp: ListPromotionRules_def intro: repo_ListPromotionRules_Inr
        split: option.splits sum.splits)
  note same = method_read [OF m p(2)] this
  have "skipReasonOf c inp \<notin> set reasonsNoPurchaseChanges" for inp
    using probe no_purchase_changes unfolding c by blast
  then show ?thesis
    using p(1) c [unfolded published_promotion_eq same] by blast
qed

lemma trialCandidate_refused:
  assumes "trialCandidate no_faults see pid = Inl (Conflict CodeTrialCannotApply)"
  shows "\<exists>p. live_promotion (see ''GetPromotion'') pid = Some p \<and>
    (\<forall>inp. skipReasonOf (published_promotion p (live_method (see ''GetApplicationMethod'') pid)
      (rules_by_id (see ''ListPromotionRules'') pid)) inp \<in> set reasonsNoPurchaseChanges)"
proof -
  have codes: "Conflict CodeTrialCannotApply \<noteq> Invalid x" "Conflict CodeTrialCannotApply \<noteq> NotFound x" for x
    by (simp_all add: error_ctor_defs)
  have req: "requireID pid PromotionIDPrefix \<noteq> Some (Conflict CodeTrialCannotApply)"
    by (auto simp: requireID_def error_ctor_defs)
  obtain p where p: "live_promotion (see ''GetPromotion'') pid = Some p" "requireID pid PromotionIDPrefix = None"
    using assms codes codes(2) [THEN not_sym] req
    by (auto simp: trialCandidate_def GetPromotion_def repo_GetPromotion_def q_GetPromotion_def found_def notFoundOr_def
        split: option.splits sum.splits)
  have rules: "repo_ListPromotionRules no_faults pid (see ''ListPromotionRules'') =
      Inr (rules_by_id (see ''ListPromotionRules'') pid)"
    using repo_ListPromotionRules_Inr [of no_faults pid] by (simp add: repo_ListPromotionRules_def no_faults_def)
  let ?rules = "rules_by_id (see ''ListPromotionRules'') pid"
  let ?c = "\<lparr> ca_Promotion = p, ca_Campaign = None, ca_Method = live_method (see ''GetApplicationMethod'') pid,
    ca_Rules = ?rules \<rparr>"
  have "\<exists>probe. skipReasonOf (asPublished ?c) probe \<in> set reasonsNoPurchaseChanges"
    using assms p
    by (auto simp: trialCandidate_def GetPromotion_def repo_GetPromotion_def q_GetPromotion_def found_def [of "Some p"]
        GetApplicationMethod_def repo_GetApplicationMethod_def q_GetApplicationMethod_def unless_not_found_found
        ListPromotionRules_def rules Let_def split: if_splits)
  then have "skipReasonOf (asPublished ?c) inp \<in> set reasonsNoPurchaseChanges" for inp
    using no_purchase_changes by blast
  then show ?thesis using p(1) unfolding published_promotion_eq by blast
qed

lemma live_references_still:
  assumes "int (length (filter (\<lambda>r. rd_PromotionID r = pid) (t_redemption db))) + 100 < 2 ^ 31"
  shows "liveReferences no_faults (\<lambda>_. db) pid = Some (Inr (map rd_Reference
    (filter (\<lambda>r. active r) (sort_key rd_ID (filter (\<lambda>r. rd_PromotionID r = pid) (t_redemption db))))))"
  using live_loop_all [of _ pid db 0 "[]", OF refl] assms by (simp only: liveReferences_def) simp

text \<open>C26: a trial is what a cart would have been given. It answers for every purchase, in order. A
  purchase the promotion was redeemed on is marked and not priced again. Every other one carries
  exactly the result of the computation with the stored promotion alone, with the method and the
  rules that stand in the tables, made active, automatic and free of its usage limit and campaign,
  and the reason it does not apply, which can only be the currency or a rule. The purchases marked
  are those of the unreleased redemptions, when nothing fails or is written while they are listed.
  A promotion refused as a whole, with its own method and rules, would have discounted nothing on
  any purchase.\<close>

theorem trial_prices_the_promotion:
  "(\<forall>outs. TrialDiscounts flt see sees now pid entries = Some (Inr outs) \<longrightarrow>
     (\<exists>p c redeemed. liveReferences flt sees pid = Some (Inr redeemed) \<and> pr_ID p = pid \<and>
       live_promotion (see ''GetPromotion'') pid = Some p \<and>
       c = published_promotion p (live_method (see ''GetApplicationMethod'') pid)
         (rules_by_id (see ''ListPromotionRules'') pid) \<and>
       list_all2 (trial_row c redeemed now) outs entries \<and>
       list_all (\<lambda>out. to_Skipped out \<in> set refusals_of_the_cart) outs \<and>
       (\<forall>db. flt = no_faults \<and> sees = (\<lambda>_. db) \<and>
         int (length (filter (\<lambda>r. rd_PromotionID r = pid) (t_redemption db))) + 100 < 2 ^ 31 \<longrightarrow>
         set redeemed = rd_Reference ` {r \<in> set (t_redemption db). rd_PromotionID r = pid \<and> active r}))) \<and>
   (length entries \<le> MaxTrialEntries \<and> trialCandidate no_faults see pid = Inl (Conflict CodeTrialCannotApply) \<longrightarrow>
     TrialDiscounts no_faults see sees now pid entries = Some (Inl (Conflict CodeTrialCannotApply)) \<and>
     (\<exists>p. pr_ID p = pid \<and> live_promotion (see ''GetPromotion'') pid = Some p \<and>
       (\<forall>inp. re_Applied (computeDiscounts
         [published_promotion p (live_method (see ''GetApplicationMethod'') pid)
           (rules_by_id (see ''ListPromotionRules'') pid)] inp) = [])))"
proof (intro conjI allI impI)
  fix outs assume t: "TrialDiscounts flt see sees now pid entries = Some (Inr outs)"
  then obtain c redeemed where c: "trialCandidate flt see pid = Inr c" "liveReferences flt sees pid = Some (Inr redeemed)"
    "trial_entries c redeemed now entries [] = Inr outs"
    by (auto simp: TrialDiscounts_def split: if_splits sum.splits option.splits)
  obtain p where p: "live_promotion (see ''GetPromotion'') pid = Some p"
    "c = published_promotion p (live_method (see ''GetApplicationMethod'') pid)
      (rules_by_id (see ''ListPromotionRules'') pid)"
    "\<And>inp. skipReasonOf c inp \<notin> set reasonsNoPurchaseChanges"
    using trialCandidate_Inr [OF c(1)] by blast
  have rows: "list_all2 (trial_row c redeemed now) outs entries"
    using trial_entries_Inr [OF c(3)] by simp
  have reason: "skipReasonOf c inp \<in> set refusals_of_the_cart" for inp
    using p(3) [of inp] unfolding p(2) published_promotion_eq [where k = None, symmetric] asPublished_reason
    by (auto simp: refusals_of_the_cart_def reasonsNoPurchaseChanges_def split: option.splits)
  have "to_Skipped out \<in> set refusals_of_the_cart" if "trial_row c redeemed now out e" for out e
  proof -
    have "to_Skipped out = [] \<or> (\<exists>n. to_Skipped out = skipReasonOf c n)"
      using that by (auto simp: trial_row_def split: if_splits)
    moreover have "[] \<in> set refusals_of_the_cart" by (simp add: refusals_of_the_cart_def)
    ultimately show ?thesis using reason by metis
  qed
  then have "list_all (\<lambda>out. to_Skipped out \<in> set refusals_of_the_cart) outs"
    using rows by (auto simp: list_all_length list_all2_conv_all_nth)
  moreover have "set redeemed = rd_Reference ` {r \<in> set (t_redemption db). rd_PromotionID r = pid \<and> active r}"
    if "flt = no_faults \<and> sees = (\<lambda>_. db) \<and>
      int (length (filter (\<lambda>r. rd_PromotionID r = pid) (t_redemption db))) + 100 < 2 ^ 31" for db
    using that live_references_still [of pid db] c(2) by auto
  ultimately show "\<exists>p c redeemed. liveReferences flt sees pid = Some (Inr redeemed) \<and> pr_ID p = pid \<and>
       live_promotion (see ''GetPromotion'') pid = Some p \<and>
       c = published_promotion p (live_method (see ''GetApplicationMethod'') pid)
         (rules_by_id (see ''ListPromotionRules'') pid) \<and>
       list_all2 (trial_row c redeemed now) outs entries \<and>
       list_all (\<lambda>out. to_Skipped out \<in> set refusals_of_the_cart) outs \<and>
       (\<forall>db. flt = no_faults \<and> sees = (\<lambda>_. db) \<and>
         int (length (filter (\<lambda>r. rd_PromotionID r = pid) (t_redemption db))) + 100 < 2 ^ 31 \<longrightarrow>
         set redeemed = rd_Reference ` {r \<in> set (t_redemption db). rd_PromotionID r = pid \<and> active r})"
    using c(2) p(1,2) live_promotion_id [OF p(1)] rows by blast
next
  assume t: "length entries \<le> MaxTrialEntries \<and> trialCandidate no_faults see pid = Inl (Conflict CodeTrialCannotApply)"
  then show "TrialDiscounts no_faults see sees now pid entries = Some (Inl (Conflict CodeTrialCannotApply))"
    by (simp add: TrialDiscounts_def)
  obtain p where p: "live_promotion (see ''GetPromotion'') pid = Some p"
    "\<And>inp. skipReasonOf (published_promotion p (live_method (see ''GetApplicationMethod'') pid)
      (rules_by_id (see ''ListPromotionRules'') pid)) inp \<in> set reasonsNoPurchaseChanges"
    using trialCandidate_refused t by blast
  have "re_Applied (computeDiscounts [published_promotion p (live_method (see ''GetApplicationMethod'') pid)
      (rules_by_id (see ''ListPromotionRules'') pid)] inp) = []" for inp
  proof -
    have "skipReasonOf (published_promotion p (live_method (see ''GetApplicationMethod'') pid)
        (rules_by_id (see ''ListPromotionRules'') pid)) inp \<noteq> []"
      using p(2) [of inp] by (auto simp: reasonsNoPurchaseChanges_def skip_reasons)
    then show ?thesis
      by (simp add: computeDiscounts_def partitionCandidates_def partition_loop_eq eligible_def SortFunc_def Let_def)
  qed
  then show "\<exists>p. pr_ID p = pid \<and> live_promotion (see ''GetPromotion'') pid = Some p \<and>
       (\<forall>inp. re_Applied (computeDiscounts
         [published_promotion p (live_method (see ''GetApplicationMethod'') pid)
           (rules_by_id (see ''ListPromotionRules'') pid)] inp) = [])"
    using p(1) live_promotion_id [OF p(1)] by blast
qed

text \<open>The stopped promotion with a rule on the region.\<close>

definition region_rule :: promotion_rule where
  "region_rule = \<lparr> ru_ID = ''prule_1'', ru_PromotionID = ''promo_1'', ru_RuleType = ''context'',
    ru_Attribute = ''region'', ru_Operator = ''eq'', ru_Values = [''eu''] \<rparr>"

definition regional_db :: promo_db where
  "regional_db = snd (repo_CreatePromotionRule no_faults region_rule paused_db)"

theorem trial_prices_the_promotion_witness:
  "(\<exists>outs p c redeemed. TrialDiscounts no_faults (\<lambda>_. regional_db) (\<lambda>_. regional_db) 15000 ''promo_1''
      [\<lparr> te_Reference = ''cart_9'', te_Input = one_line_cart \<rparr>] = Some (Inr outs) \<and>
      map to_Skipped outs = [SkipRulesNotMatched] \<and>
      live_promotion regional_db ''promo_1'' = Some p \<and>
      c = published_promotion p (live_method regional_db ''promo_1'') (rules_by_id regional_db ''promo_1'') \<and>
      ca_Rules c = [region_rule] \<and>
      list_all2 (trial_row c redeemed 15000) outs [\<lparr> te_Reference = ''cart_9'', te_Input = one_line_cart \<rparr>]) \<and>
   TrialDiscounts no_faults (\<lambda>_. spring_db) (\<lambda>_. spring_db) 15000 ''promo_1'' [] =
     Some (Inl (Conflict CodeTrialCannotApply))"
proof -
  let ?es = "[\<lparr> te_Reference = ''cart_9'', te_Input = one_line_cart \<rparr>]"
  have facts: "(case trialCandidate no_faults (\<lambda>_. regional_db) ''promo_1'' of Inl e \<Rightarrow> False
      | Inr c \<Rightarrow> (case trial_entries c [] 15000 ?es [] of
          Inl e \<Rightarrow> False | Inr outs \<Rightarrow> map to_Skipped outs = [SkipRulesNotMatched]))"
    "t_redemption regional_db = []" "rules_by_id regional_db ''promo_1'' = [region_rule]"
    "(case trialCandidate no_faults (\<lambda>_. spring_db) ''promo_1'' of Inl e \<Rightarrow> e = Conflict CodeTrialCannotApply | Inr c \<Rightarrow> False)"
    by code_simp+
  have "liveReferences no_faults (\<lambda>_. regional_db) ''promo_1'' = Some (Inr [])"
    using live_references_still [of "''promo_1''" regional_db] facts(2) by simp
  then obtain outs where outs: "TrialDiscounts no_faults (\<lambda>_. regional_db) (\<lambda>_. regional_db) 15000 ''promo_1'' ?es =
      Some (Inr outs)" "map to_Skipped outs = [SkipRulesNotMatched]"
    using facts(1) by (auto simp: TrialDiscounts_def MaxTrialEntries_def split: sum.splits)
  obtain p c redeemed where p: "live_promotion regional_db ''promo_1'' = Some p"
    and c: "c = published_promotion p (live_method regional_db ''promo_1'') (rules_by_id regional_db ''promo_1'')"
    and rows: "list_all2 (trial_row c redeemed 15000) outs ?es"
    using trial_prices_the_promotion [of no_faults "\<lambda>_. regional_db" "\<lambda>_. regional_db" 15000 "''promo_1''" ?es,
      THEN conjunct1, rule_format, OF outs(1)] by blast
  have "ca_Rules c = [region_rule]" unfolding c by (simp add: published_promotion_def facts(3))
  moreover have "TrialDiscounts no_faults (\<lambda>_. spring_db) (\<lambda>_. spring_db) 15000 ''promo_1'' [] =
     Some (Inl (Conflict CodeTrialCannotApply))"
    using trial_prices_the_promotion [of no_faults "\<lambda>_. spring_db" "\<lambda>_. spring_db" 15000 "''promo_1''" "[]"] facts(4)
    by (simp split: sum.splits)
  ultimately show ?thesis
    using outs p c rows
    by (intro conjI exI [of _ outs] exI [of _ p] exI [of _ c] exI [of _ redeemed])
qed

end
