(* ===== verification/PromoMove.thy ===== *)
theory PromoMove
  imports PromoRedeem
begin

text \<open>
  Moving a promotion between campaigns (\<^verbatim>\<open>internal/modules/promotion/service/promotion_campaign.go\<close>):
  the conditional write, and what the read that explains a refused one can meet.
\<close>

section \<open>Moving a promotion between campaigns\<close>

lemma live_promotion_set:
  assumes "live_promotion db eid = Some p" "pr_ID row = eid"
  shows "live_promotion (set_promotion eid (\<lambda>_. row) db) eid = Some row"
proof -
  have step: "find (\<lambda>w. pr_ID (pw_promo w) = eid \<and> \<not> pw_deleted w) ws \<noteq> None \<Longrightarrow>
    map_option pw_promo (find (\<lambda>w. pr_ID (pw_promo w) = eid \<and> \<not> pw_deleted w)
      (map (\<lambda>r. if pr_ID (pw_promo r) = eid \<and> \<not> pw_deleted r then r\<lparr> pw_promo := row \<rparr> else r) ws)) = Some row"
    for ws using assms(2) by (induction ws) auto
  have "find (\<lambda>w. pr_ID (pw_promo w) = eid \<and> \<not> pw_deleted w) (t_promotion db) \<noteq> None"
    using assms(1) by (auto simp: live_promotion_def)
  from step [OF this] show ?thesis by (simp add: live_promotion_def)
qed

lemma requireID_not_panic: "requireID cid pre \<noteq> Some nil_dereference"
  by (simp add: requireID_def nil_dereference_def error_ctor_defs)

text \<open>C37: a promotion is moved only from the campaign the operator saw it in. Under any faults the call
  either fails and leaves the tables alone, or the promotion was in that campaign, is now in the
  other one, which is live, and kept everything else. Without faults a call that should take the
  promotion out of its campaign ends in a nil dereference exactly when the promotion was not in the
  campaign at the write and is there again when it is read back; when nothing changes in between,
  never.\<close>

theorem set_campaign_exact:
  "(case SetPromotionCampaign flt eid fromC toC later db of
      (Inl e, db') \<Rightarrow> db' = db
    | (Inr p, db') \<Rightarrow> (\<exists>old. live_promotion db eid = Some old \<and> pr_CampaignID old = fromC \<and>
        p = old\<lparr> pr_CampaignID := toC \<rparr> \<and> live_promotion db' eid = Some p \<and> t_redemption db' = t_redemption db \<and>
        (\<forall>cid. toC = Some cid \<longrightarrow> live_campaign db' cid \<noteq> None))) \<and>
   (requireID eid PromotionIDPrefix = None \<and> requireID cid CampaignIDPrefix = None \<longrightarrow>
     (fst (SetPromotionCampaign no_faults eid (Some cid) None later db) = Inl nil_dereference \<longleftrightarrow>
       (\<forall>p. live_promotion db eid = Some p \<longrightarrow> pr_CampaignID p \<noteq> Some cid) \<and>
       (\<exists>p. live_promotion later eid = Some p \<and> pr_CampaignID p = Some cid))) \<and>
   fst (SetPromotionCampaign no_faults eid fromC toC db db) \<noteq> Inl nil_dereference"
proof (intro conjI impI)
  show "case SetPromotionCampaign flt eid fromC toC later db of
      (Inl e, db') \<Rightarrow> db' = db
    | (Inr p, db') \<Rightarrow> (\<exists>old. live_promotion db eid = Some old \<and> pr_CampaignID old = fromC \<and>
        p = old\<lparr> pr_CampaignID := toC \<rparr> \<and> live_promotion db' eid = Some p \<and> t_redemption db' = t_redemption db \<and>
        (\<forall>cid. toC = Some cid \<longrightarrow> live_campaign db' cid \<noteq> None))"
  proof (cases "SetPromotionCampaign flt eid fromC toC later db")
    case (Pair res db')
    have "db' = db" if "res = Inl e" for e
      using Pair that
      by (auto simp: SetPromotionCampaign_def repo_SetPromotionCampaign_def conditional_def
          split: option.splits sum.splits if_splits)
    moreover have "\<exists>old. live_promotion db eid = Some old \<and> pr_CampaignID old = fromC \<and>
        p = old\<lparr> pr_CampaignID := toC \<rparr> \<and> live_promotion db' eid = Some p \<and> t_redemption db' = t_redemption db \<and>
        (\<forall>cid. toC = Some cid \<longrightarrow> live_campaign db' cid \<noteq> None)" if "res = Inr p" for p
    proof -
      have q: "q_SetPromotionCampaign flt eid fromC toC db = Inr (p, db')"
        using Pair that
        by (auto simp: SetPromotionCampaign_def repo_SetPromotionCampaign_def conditional_def
            split: option.splits sum.splits if_splits)
      then obtain old where old: "live_promotion db eid = Some old" "pr_CampaignID old = fromC"
        "p = old\<lparr> pr_CampaignID := toC \<rparr>" "db' = set_promotion eid (\<lambda>_. p) db"
        "case toC of None \<Rightarrow> True | Some c \<Rightarrow> live_campaign db c \<noteq> None"
        by (auto simp: q_SetPromotionCampaign_def Let_def split: option.splits if_splits)
      have "live_promotion db' eid = Some p"
        unfolding old(4) using old(3) live_promotion_id [OF old(1)] by (intro live_promotion_set [OF old(1)]) simp
      then show ?thesis using old by (auto simp: live_campaign_def split: option.splits)
    qed
    ultimately show ?thesis using Pair by (cases res) auto
  qed
next
  assume ids: "requireID eid PromotionIDPrefix = None \<and> requireID cid CampaignIDPrefix = None"
  have "nil_dereference \<noteq> Conflict x" "nil_dereference \<noteq> NotFound x" for x
    by (simp_all add: nil_dereference_def error_ctor_defs)
  note ne = this this [THEN not_sym]
  show "fst (SetPromotionCampaign no_faults eid (Some cid) None later db) = Inl nil_dereference \<longleftrightarrow>
       (\<forall>p. live_promotion db eid = Some p \<longrightarrow> pr_CampaignID p \<noteq> Some cid) \<and>
       (\<exists>p. live_promotion later eid = Some p \<and> pr_CampaignID p = Some cid)"
    using ids ne
    by (auto simp: SetPromotionCampaign_def repo_SetPromotionCampaign_def conditional_def q_SetPromotionCampaign_def
        GetPromotion_def repo_GetPromotion_def q_GetPromotion_def found_def notFoundOr_def Let_def split: option.splits)
next
  have "nil_dereference \<noteq> Conflict x" "nil_dereference \<noteq> NotFound x" "nil_dereference \<noteq> Invalid x" for x
    by (simp_all add: nil_dereference_def error_ctor_defs)
  note ne = this this [THEN not_sym]
  show "fst (SetPromotionCampaign no_faults eid fromC toC db db) \<noteq> Inl nil_dereference"
    using ne requireID_not_panic
    by (auto simp: SetPromotionCampaign_def repo_SetPromotionCampaign_def conditional_def q_SetPromotionCampaign_def
        GetPromotion_def repo_GetPromotion_def q_GetPromotion_def found_def notFoundOr_def Let_def
        split: option.splits dest!: check_all_Some_in)
qed

definition moved_db :: promo_db where
  "moved_db = snd (repo_SetPromotionCampaign no_faults ''promo_1'' (Some ''camp_1'') None spring_db)"

theorem set_campaign_exact_witness:
  "fst (SetPromotionCampaign no_faults ''promo_1'' (Some ''camp_1'') None spring_db moved_db) = Inl nil_dereference"
proof -
  have facts: "requireID ''promo_1'' PromotionIDPrefix = None" "requireID ''camp_1'' CampaignIDPrefix = None"
    "(case live_promotion moved_db ''promo_1'' of None \<Rightarrow> False | Some p \<Rightarrow> pr_CampaignID p = None)"
    "(case live_promotion spring_db ''promo_1'' of None \<Rightarrow> False | Some p \<Rightarrow> pr_CampaignID p = Some ''camp_1'')"
    by code_simp+
  then obtain p p' where "live_promotion moved_db ''promo_1'' = Some p" "pr_CampaignID p = None"
    "live_promotion spring_db ''promo_1'' = Some p'" "pr_CampaignID p' = Some ''camp_1''"
    by (auto split: option.splits)
  then show ?thesis
    using set_campaign_exact [THEN conjunct2, THEN conjunct1, rule_format, of "''promo_1''" "''camp_1''" spring_db moved_db]
      facts(1,2) by simp
qed

end
