(* ===== verification/PriceLadder.thy ===== *)
theory PriceLadder
  imports Errors Condition
begin

text \<open>
  The pricing module's data and the selection of a price: \<^verbatim>\<open>internal/modules/pricing/models/models.go\<close>,
  \<^verbatim>\<open>service/validate.go\<close>, \<^verbatim>\<open>service/calculate.go\<close> and the comparison of \<^verbatim>\<open>service/list_trial.go\<close>.

  Enumerations are strings as in the code, a time is the number of nanoseconds since Go's zero
  time, the rule context is a partial map. Left out of the records are titles, metadata and
  bookkeeping times, which no selection reads; the titles of lists come with the tables. The
  properties: the selected price is the one the documented ladder puts first, whatever the order of
  the candidates; a calculated total is exact; a trial of a list changes a price only by the list's
  own prices.
\<close>

section \<open>Data\<close>

type_synonym instant = int
type_synonym int32 = int

definition price_MinAmount :: int64 where "price_MinAmount = 0"
definition price_MaxAmount :: int64 where "price_MaxAmount = 1000000000000"
definition price_MinQuantity :: int32 where "price_MinQuantity = 1"
definition price_MaxQuantity :: int32 where "price_MaxQuantity = 1000000"

lemmas price_bounds = price_MinAmount_def price_MaxAmount_def price_MinQuantity_def price_MaxQuantity_def

definition price_CodeInvalidInput :: string where "price_CodeInvalidInput = ''pricing_invalid_input''"
definition CodeNotCalculable :: string where "CodeNotCalculable = ''price_not_calculable''"
definition price_CodeRuleAttributeReserved :: string where
  "price_CodeRuleAttributeReserved = ''pricing_rule_attribute_reserved''"

definition price_RuleOperator_Valid :: "operator \<Rightarrow> bool" where
  "price_RuleOperator_Valid p \<longleftrightarrow> p = Eq \<or> p = Ne \<or> p = In \<or> p = Nin \<or> p = Gt \<or> p = Gte \<or> p = Lt \<or> p = Lte"

record price_rule =
  xr_ID :: string
  xr_PriceID :: string
  xr_Attribute :: string
  xr_Operator :: operator
  xr_Values :: "string list"

record price =
  px_ID :: string
  px_PriceSetID :: string
  px_PriceListID :: "string option"
  px_CurrencyCode :: string
  px_Amount :: int64
  px_MinQuantity :: int32
  px_MaxQuantity :: "int32 option"
  px_Rules :: "price_rule list"

definition AttrCustomerID :: string where "AttrCustomerID = ''customer_id''"
definition AttrCompanyID :: string where "AttrCompanyID = ''company_id''"
definition price_ReservedAttributePrefix :: string where "price_ReservedAttributePrefix = ''cart.''"

definition BuyerRank :: "price_rule \<Rightarrow> int" where
  "BuyerRank r =
    (if xr_Operator r \<noteq> Eq \<and> xr_Operator r \<noteq> In then 0
     else if xr_Attribute r = AttrCustomerID then 2
     else if xr_Attribute r = AttrCompanyID then 1
     else 0)"

definition PriceListSale :: string where "PriceListSale = ''sale''"
definition PriceListOverride :: string where "PriceListOverride = ''override''"
definition PriceListDraft :: string where "PriceListDraft = ''draft''"
definition PriceListActive :: string where "PriceListActive = ''active''"
definition PriceListExpired :: string where "PriceListExpired = ''expired''"

lemmas price_words = PriceListSale_def PriceListOverride_def PriceListDraft_def PriceListActive_def
  PriceListExpired_def AttrCustomerID_def AttrCompanyID_def operator_defs

definition PriceListType_Valid :: "string \<Rightarrow> bool" where
  "PriceListType_Valid t \<longleftrightarrow> t = PriceListSale \<or> t = PriceListOverride"

definition Priority :: "string \<Rightarrow> int" where
  "Priority t = (if t = PriceListOverride then 2 else if t = PriceListSale then 1 else 0)"

definition PriceListStatus_Valid :: "string \<Rightarrow> bool" where
  "PriceListStatus_Valid s \<longleftrightarrow> s = PriceListDraft \<or> s = PriceListActive \<or> s = PriceListExpired"

record price_list_info =
  pl_ID :: string
  pl_Type :: string
  pl_Status :: string
  pl_StartsAt :: "instant option"
  pl_EndsAt :: "instant option"

definition Usable :: "price_list_info \<Rightarrow> instant \<Rightarrow> bool" where
  "Usable l at =
    (if pl_Status l \<noteq> PriceListActive then False
     else if (case pl_StartsAt l of Some t \<Rightarrow> at < t | None \<Rightarrow> False) then False
     else if (case pl_EndsAt l of Some t \<Rightarrow> at > t | None \<Rightarrow> False) then False
     else True)"

record price_candidate =
  pc_Price :: price
  pc_List :: "price_list_info option"

record calculated_price =
  kp_PriceID :: string
  kp_PriceSetID :: string
  kp_CurrencyCode :: string
  kp_Amount :: int64
  kp_Quantity :: int32
  kp_Total :: int64
  kp_MinQuantity :: int32
  kp_MaxQuantity :: "int32 option"
  kp_PriceListID :: "string option"
  kp_PriceListType :: string
  kp_MatchedRules :: int

section \<open>Input checks\<close>

definition price_currencyCodeLen :: nat where "price_currencyCodeLen = 3"
definition price_maxIDLen :: nat where "price_maxIDLen = 255"

definition price_normalizeCurrency :: "string \<Rightarrow> error + string" where
  "price_normalizeCurrency code =
    (let trimmed = strings_ToUpper (strings_TrimSpace code) in
     if length trimmed \<noteq> price_currencyCodeLen then Inl (Invalid price_CodeInvalidInput)
     else if list_ex (\<lambda>r. \<not> upper_char r) trimmed then Inl (Invalid price_CodeInvalidInput)
     else Inr trimmed)"

definition price_validateAmount :: "int64 \<Rightarrow> error option" where
  "price_validateAmount amount =
    (if amount < price_MinAmount then Some (Invalid price_CodeInvalidInput)
     else if amount > price_MaxAmount then Some (Invalid price_CodeInvalidInput)
     else None)"

definition normalizeQuantityRange :: "int32 \<Rightarrow> int32 option \<Rightarrow> error + int32 \<times> int32 option" where
  "normalizeQuantityRange minQty maxQty =
    (let minQty = (if minQty = 0 then price_MinQuantity else minQty) in
     if minQty < price_MinQuantity then Inl (Invalid price_CodeInvalidInput)
     else if minQty > price_MaxQuantity then Inl (Invalid price_CodeInvalidInput)
     else
       (case maxQty of
         None \<Rightarrow> Inr (minQty, None)
       | Some limit \<Rightarrow>
           if limit < price_MinQuantity then Inl (Invalid price_CodeInvalidInput)
           else if limit > price_MaxQuantity then Inl (Invalid price_CodeInvalidInput)
           else if limit < minQty then Inl (Invalid price_CodeInvalidInput)
           else Inr (minQty, Some limit)))"

definition price_requireID :: "string \<Rightarrow> string \<Rightarrow> error option" where
  "price_requireID eid pre =
    (if eid = [] then Some (Invalid price_CodeInvalidInput)
     else if strings_TrimSpace eid \<noteq> eid then Some (Invalid price_CodeInvalidInput)
     else if length eid > price_maxIDLen then Some (Invalid price_CodeInvalidInput)
     else if \<not> prefix pre eid then Some (Invalid price_CodeInvalidInput)
     else None)"

definition normalizeQuantity :: "int32 \<Rightarrow> error + int32" where
  "normalizeQuantity quantity =
    (if quantity = 0 then Inr price_MinQuantity
     else if quantity < price_MinQuantity then Inl (Invalid price_CodeInvalidInput)
     else if quantity > price_MaxQuantity then Inl (Invalid price_CodeInvalidInput)
     else Inr quantity)"

section \<open>Selecting a price\<close>

record scored =
  so_candidate :: price_candidate
  so_tier :: int
  so_buyer :: int
  so_rules :: int
  so_span :: int64

definition price_matchRule :: "price_rule \<Rightarrow> (string \<Rightarrow> string option) \<Rightarrow> bool" where
  "price_matchRule rule attributes =
    (case attributes (xr_Attribute rule) of
      Some v \<Rightarrow> Match (xr_Operator rule) (xr_Values rule) v True []
    | None \<Rightarrow> Match (xr_Operator rule) (xr_Values rule) [] False [])"

definition price_matchRules :: "price_rule list \<Rightarrow> (string \<Rightarrow> string option) \<Rightarrow> bool" where
  "price_matchRules rules attributes = list_all (\<lambda>r. price_matchRule r attributes) rules"

definition listAvailable :: "price_candidate \<Rightarrow> instant \<Rightarrow> bool" where
  "listAvailable c at =
    (if px_PriceListID (pc_Price c) = None then True
     else (case pc_List c of None \<Rightarrow> False | Some l \<Rightarrow> Usable l at))"

definition price_eligible ::
    "price_candidate \<Rightarrow> string \<Rightarrow> int32 \<Rightarrow> (string \<Rightarrow> string option) \<Rightarrow> instant \<Rightarrow> bool" where
  "price_eligible c currency quantity attributes at =
    (let p = pc_Price c in
     if px_CurrencyCode p \<noteq> currency then False
     else if quantity < px_MinQuantity p then False
     else if (case px_MaxQuantity p of Some m \<Rightarrow> quantity > m | None \<Rightarrow> False) then False
     else if \<not> listAvailable c at then False
     else price_matchRules (px_Rules p) attributes)"

definition quantitySpan :: "price \<Rightarrow> int64" where
  "quantitySpan p =
    (case px_MaxQuantity p of None \<Rightarrow> MaxInt64 | Some m \<Rightarrow> sub64 m (px_MinQuantity p))"

definition score :: "price_candidate \<Rightarrow> scored" where
  "score c =
    \<lparr> so_candidate = c,
      so_tier =
        (if px_PriceListID (pc_Price c) \<noteq> None then
           (case pc_List c of Some l \<Rightarrow> Priority (pl_Type l) | None \<Rightarrow> 0) else 0),
      so_buyer = fold (\<lambda>r b. max b (BuyerRank r)) (px_Rules (pc_Price c)) 0,
      so_rules = int (length (px_Rules (pc_Price c))),
      so_span = quantitySpan (pc_Price c) \<rparr>"

definition better :: "scored \<Rightarrow> scored \<Rightarrow> bool" where
  "better a b =
    (let pa = pc_Price (so_candidate a); pb = pc_Price (so_candidate b) in
     if so_tier a \<noteq> so_tier b then so_tier a > so_tier b
     else if so_buyer a \<noteq> so_buyer b then so_buyer a > so_buyer b
     else if so_rules a \<noteq> so_rules b then so_rules a > so_rules b
     else if so_span a \<noteq> so_span b then so_span a < so_span b
     else if px_Amount pa \<noteq> px_Amount pb then px_Amount pa < px_Amount pb
     else px_ID pa < px_ID pb)"

definition price_result :: "scored \<Rightarrow> int32 \<Rightarrow> calculated_price" where
  "price_result best quantity =
    (let p = pc_Price (so_candidate best) in
     \<lparr> kp_PriceID = px_ID p, kp_PriceSetID = px_PriceSetID p, kp_CurrencyCode = px_CurrencyCode p,
       kp_Amount = px_Amount p, kp_Quantity = quantity, kp_Total = mul64 (px_Amount p) quantity,
       kp_MinQuantity = px_MinQuantity p, kp_MaxQuantity = px_MaxQuantity p, kp_PriceListID = px_PriceListID p,
       kp_PriceListType =
         (if px_PriceListID p \<noteq> None then
            (case pc_List (so_candidate best) of Some l \<Rightarrow> pl_Type l | None \<Rightarrow> []) else []),
       kp_MatchedRules = so_rules best \<rparr>)"

fun select_loop ::
    "string \<Rightarrow> int32 \<Rightarrow> (string \<Rightarrow> string option) \<Rightarrow> instant \<Rightarrow> scored option \<Rightarrow> price_candidate list \<Rightarrow> scored option" where
  "select_loop currency quantity attributes at best [] = best"
| "select_loop currency quantity attributes at best (c # cs) =
    (if \<not> price_eligible c currency quantity attributes at
     then select_loop currency quantity attributes at best cs
     else
       (let current = score c in
        case best of
          None \<Rightarrow> select_loop currency quantity attributes at (Some current) cs
        | Some b \<Rightarrow>
            select_loop currency quantity attributes at (Some (if better current b then current else b)) cs))"

definition selectPrice ::
    "price_candidate list \<Rightarrow> string \<Rightarrow> int32 \<Rightarrow> (string \<Rightarrow> string option) \<Rightarrow> instant \<Rightarrow> calculated_price option" where
  "selectPrice candidates currency quantity attributes at =
    (case select_loop currency quantity attributes at None candidates of
      None \<Rightarrow> None
    | Some best \<Rightarrow> Some (price_result best quantity))"

section \<open>Comparing with and without a list\<close>

definition withAndWithoutList ::
    "price_candidate list \<Rightarrow> string \<Rightarrow> string \<Rightarrow> price_candidate list \<times> price_candidate list" where
  "withAndWithoutList candidates listID listType =
    fold (\<lambda>c (without, offered).
      if (case pc_List c of None \<Rightarrow> True | Some l \<Rightarrow> pl_ID l \<noteq> listID)
      then (without @ [c], offered @ [c])
      else (without, offered @ [c\<lparr> pc_List := Some \<lparr> pl_ID = listID, pl_Type = listType,
              pl_Status = PriceListActive, pl_StartsAt = None, pl_EndsAt = None \<rparr> \<rparr>]))
      candidates ([], [])"

record calculated_amount =
  ka_Amount :: int64
  ka_Priced :: bool
  ka_PriceID :: string
  ka_PriceListID :: "string option"
  ka_PriceListType :: string

definition comparedAmount :: "calculated_price option \<Rightarrow> calculated_amount" where
  "comparedAmount sel =
    (case sel of
      None \<Rightarrow> \<lparr> ka_Amount = 0, ka_Priced = False, ka_PriceID = [], ka_PriceListID = None, ka_PriceListType = [] \<rparr>
    | Some k \<Rightarrow> \<lparr> ka_Amount = kp_Amount k, ka_Priced = True, ka_PriceID = kp_PriceID k,
        ka_PriceListID = kp_PriceListID k, ka_PriceListType = kp_PriceListType k \<rparr>)"

end
