(* ===== verification/PriceLadderProps.thy ===== *)
theory PriceLadderProps
  imports PriceLadder "HOL-Library.Product_Lexorder"
begin

text \<open>
  The ladder of \<open>PriceLadder\<close> against its documentation: every candidate has one key, the criteria
  in the documented order, and the selected price is the eligible one with the least key.
\<close>

section \<open>The documented order\<close>

definition names_buyer :: "string \<Rightarrow> price \<Rightarrow> bool" where
  "names_buyer attribute p \<longleftrightarrow>
    (\<exists>r \<in> set (px_Rules p). xr_Attribute r = attribute \<and> (xr_Operator r = ''eq'' \<or> xr_Operator r = ''in''))"

definition ladder_key :: "price_candidate \<Rightarrow> int \<times> int \<times> int \<times> int \<times> int \<times> string" where
  "ladder_key c =
    (let p = pc_Price c;
         listType = (if px_PriceListID p = None then None else map_option pl_Type (pc_List c)) in
     (if listType = Some ''override'' then 0 else if listType = Some ''sale'' then 1 else 2,
      if names_buyer ''customer_id'' p then 0 else if names_buyer ''company_id'' p then 1 else 2,
      - int (length (px_Rules p)),
      (case px_MaxQuantity p of None \<Rightarrow> MaxInt64 | Some m \<Rightarrow> m - px_MinQuantity p),
      px_Amount p,
      px_ID p))"

definition quantities_ok :: "price \<Rightarrow> bool" where
  "quantities_ok p \<longleftrightarrow> 1 \<le> px_MinQuantity p \<and> px_MinQuantity p \<le> 1000000 \<and>
    (case px_MaxQuantity p of None \<Rightarrow> True | Some m \<Rightarrow> px_MinQuantity p \<le> m \<and> m \<le> 1000000)"

lemma buyer_fold:
  "fold (\<lambda>r b. max b (BuyerRank r)) rs b0 =
    (if \<exists>r \<in> set rs. BuyerRank r = 2 then max b0 2 else if \<exists>r \<in> set rs. BuyerRank r = 1 then max b0 1 else max b0 0)"
  if "0 \<le> b0"
  using that by (induction rs arbitrary: b0) (auto simp: BuyerRank_def max_def)

lemma BuyerRank_names:
  "BuyerRank r = 2 \<longleftrightarrow> xr_Attribute r = ''customer_id'' \<and> (xr_Operator r = ''eq'' \<or> xr_Operator r = ''in'')"
  "BuyerRank r = 1 \<longleftrightarrow> xr_Attribute r = ''company_id'' \<and> (xr_Operator r = ''eq'' \<or> xr_Operator r = ''in'')"
  by (auto simp: BuyerRank_def price_words)

lemma score_key:
  assumes "quantities_ok (pc_Price c)"
  shows "ladder_key c = (2 - so_tier (score c), 2 - so_buyer (score c), - so_rules (score c), so_span (score c),
    px_Amount (pc_Price c), px_ID (pc_Price c))"
proof -
  have "so_span (score c) = (case px_MaxQuantity (pc_Price c) of None \<Rightarrow> MaxInt64 | Some m \<Rightarrow> m - px_MinQuantity (pc_Price c))"
    using assms by (auto simp: score_def quantitySpan_def quantities_ok_def sub64_id is_i64_def MinInt64_def MaxInt64_def
        split: option.splits)
  moreover have "so_buyer (score c) = (if names_buyer ''customer_id'' (pc_Price c) then 2
      else if names_buyer ''company_id'' (pc_Price c) then 1 else 0)"
    by (simp add: score_def buyer_fold BuyerRank_names names_buyer_def)
  ultimately show ?thesis
    by (auto simp: ladder_key_def Let_def score_def Priority_def price_words split: option.split)
qed

lemma better_key:
  assumes "quantities_ok (pc_Price c)" "quantities_ok (pc_Price d)"
  shows "better (score c) (score d) \<longleftrightarrow> ladder_key c < ladder_key d"
  unfolding score_key [OF assms(1)] score_key [OF assms(2)]
  by (auto simp: better_def Let_def less_prod_def score_def)

lemma select_loop_least:
  assumes "quantities_ok (pc_Price b)" "\<forall>c \<in> set cs. quantities_ok (pc_Price c)"
  shows "\<exists>c. select_loop currency quantity attributes at (Some (score b)) cs = Some (score c) \<and>
    c \<in> insert b {c \<in> set cs. price_eligible c currency quantity attributes at} \<and> ladder_key c \<le> ladder_key b \<and>
    (\<forall>d \<in> set cs. price_eligible d currency quantity attributes at \<longrightarrow> ladder_key c \<le> ladder_key d)"
  using assms
proof (induction cs arbitrary: b)
  case (Cons e cs)
  show ?case
  proof (cases "price_eligible e currency quantity attributes at")
    case False
    with Cons.prems show ?thesis using Cons.IH [of b] by auto
  next
    case True
    define n where "n = (if ladder_key e < ladder_key b then e else b)"
    have n: "quantities_ok (pc_Price n)" "ladder_key n \<le> ladder_key b" "ladder_key n \<le> ladder_key e" "n = b \<or> n = e"
      using Cons.prems by (auto simp: n_def)
    have "select_loop currency quantity attributes at (Some (score b)) (e # cs) =
        select_loop currency quantity attributes at (Some (score n)) cs"
      using True Cons.prems by (simp add: Let_def better_key n_def)
    moreover have "\<forall>c \<in> set cs. quantities_ok (pc_Price c)" using Cons.prems(2) by simp
    from Cons.IH [OF n(1) this] obtain c where "select_loop currency quantity attributes at (Some (score n)) cs = Some (score c)"
      "c \<in> insert n {c \<in> set cs. price_eligible c currency quantity attributes at}" "ladder_key c \<le> ladder_key n"
      "\<forall>d \<in> set cs. price_eligible d currency quantity attributes at \<longrightarrow> ladder_key c \<le> ladder_key d"
      by blast
    ultimately show ?thesis using True n by (intro exI [of _ c]) (auto intro: order_trans)
  qed
qed simp

lemma select_loop_None:
  assumes "\<forall>c \<in> set cs. quantities_ok (pc_Price c)"
  shows "case select_loop currency quantity attributes at None cs of
      None \<Rightarrow> \<forall>c \<in> set cs. \<not> price_eligible c currency quantity attributes at
    | Some s \<Rightarrow> \<exists>c \<in> set cs. s = score c \<and> price_eligible c currency quantity attributes at \<and>
        (\<forall>d \<in> set cs. price_eligible d currency quantity attributes at \<longrightarrow> ladder_key c \<le> ladder_key d)"
  using assms
proof (induction cs)
  case (Cons e cs)
  show ?case
  proof (cases "price_eligible e currency quantity attributes at")
    case True
    then show ?thesis
      using select_loop_least [of e cs currency quantity attributes at] Cons.prems by (auto simp: Let_def)
  next
    case False
    then show ?thesis using Cons by (auto split: option.splits)
  qed
qed simp

text \<open>C11: the price a customer is charged is the one the documented ladder puts first. Among candidates
  with distinct ids a price is calculated exactly when one is eligible, and it is the price of the
  one eligible candidate that comes before every other: by the priority of its list (override, sale,
  base), then by how narrowly its rules name the buyer (customer, company, nobody), then more rules,
  a narrower range of quantities, the smaller amount, the smaller id. The order in which the
  candidates arrive decides nothing.\<close>

theorem selectPrice_ladder:
  assumes "\<forall>c \<in> set cs. quantities_ok (pc_Price c)" and "distinct (map (\<lambda>c. px_ID (pc_Price c)) cs)"
  shows "selectPrice cs currency quantity attributes at = Some k \<longleftrightarrow>
    (\<exists>c \<in> set cs. price_eligible c currency quantity attributes at \<and> k = price_result (score c) quantity \<and>
      (\<forall>d \<in> set cs. price_eligible d currency quantity attributes at \<longrightarrow> d = c \<or> ladder_key c < ladder_key d))"
    (is "_ \<longleftrightarrow> (\<exists>c \<in> set cs. ?first c)")
proof -
  have keys: "c = d" if "c \<in> set cs" "d \<in> set cs" "ladder_key c = ladder_key d" for c d
    using assms(2) that by (auto simp: ladder_key_def Let_def distinct_map inj_on_def)
  note found = select_loop_None [OF assms(1), of currency quantity attributes at]
  show ?thesis
  proof
    assume "selectPrice cs currency quantity attributes at = Some k"
    then obtain s where "select_loop currency quantity attributes at None cs = Some s" "k = price_result s quantity"
      by (auto simp: selectPrice_def split: option.splits)
    with found obtain c where "c \<in> set cs" "price_eligible c currency quantity attributes at"
      "k = price_result (score c) quantity"
      "\<forall>d \<in> set cs. price_eligible d currency quantity attributes at \<longrightarrow> ladder_key c \<le> ladder_key d" by auto
    then show "\<exists>c \<in> set cs. ?first c" using keys by (intro bexI [of _ c]) (auto simp: order_le_less)
  next
    assume "\<exists>c \<in> set cs. ?first c"
    then obtain c where c: "c \<in> set cs" "?first c" by blast
    with found obtain c' where "select_loop currency quantity attributes at None cs = Some (score c')" "c' \<in> set cs"
      "price_eligible c' currency quantity attributes at" "ladder_key c' \<le> ladder_key c"
      by (auto split: option.splits)
    then show "selectPrice cs currency quantity attributes at = Some k"
      using c by (auto simp: selectPrice_def)
  qed
qed

definition eur_price :: "string \<Rightarrow> int64 \<Rightarrow> price_rule list \<Rightarrow> price" where
  "eur_price eid amount rules = \<lparr> px_ID = eid, px_PriceSetID = ''pset_1'', px_PriceListID = None,
    px_CurrencyCode = ''EUR'', px_Amount = amount, px_MinQuantity = 1, px_MaxQuantity = None, px_Rules = rules \<rparr>"

definition contract_candidates :: "price_candidate list" where
  "contract_candidates =
    [\<lparr> pc_Price = eur_price ''price_1'' 900 [], pc_List = None \<rparr>,
     \<lparr> pc_Price = eur_price ''price_2'' 1000 [\<lparr> xr_ID = ''prule_1'', xr_PriceID = ''price_2'',
       xr_Attribute = ''customer_id'', xr_Operator = ''eq'', xr_Values = [''cus_1''] \<rparr>], pc_List = None \<rparr>]"

theorem selectPrice_ladder_witness:
  "(\<exists>k. selectPrice contract_candidates ''EUR'' 3 [''customer_id'' \<mapsto> ''cus_1''] 5 = Some k \<and> kp_PriceID k = ''price_2'' \<and> kp_Total k = 3000) \<and>
   (\<exists>c \<in> set contract_candidates. kp_PriceID (price_result (score c) 3) = ''price_2'')"
proof -
  have ok: "list_all (\<lambda>c. quantities_ok (pc_Price c)) contract_candidates"
    "distinct (map (\<lambda>c. px_ID (pc_Price c)) contract_candidates)" by code_simp+
  have k: "\<exists>k. selectPrice contract_candidates ''EUR'' 3 [''customer_id'' \<mapsto> ''cus_1''] 5 = Some k \<and>
      kp_PriceID k = ''price_2'' \<and> kp_Total k = 3000"
  proof -
    have "(case selectPrice contract_candidates ''EUR'' 3 [''customer_id'' \<mapsto> ''cus_1''] 5 of None \<Rightarrow> False
        | Some k \<Rightarrow> kp_PriceID k = ''price_2'' \<and> kp_Total k = 3000)" by code_simp
    then show ?thesis by (auto split: option.splits)
  qed
  then obtain k where "selectPrice contract_candidates ''EUR'' 3 [''customer_id'' \<mapsto> ''cus_1''] 5 = Some k"
    "kp_PriceID k = ''price_2''" by blast
  then have "\<exists>c \<in> set contract_candidates. kp_PriceID (price_result (score c) 3) = ''price_2''"
    using selectPrice_ladder [of contract_candidates "''EUR''" 3 "[''customer_id'' \<mapsto> ''cus_1'']" 5 k] ok
    by (auto simp: list_all_iff)
  with k show ?thesis by blast
qed

end
