(* ===== verification/PriceHistory.thy ===== *)
theory PriceHistory
  imports PriceLadderProps
begin

text \<open>
  The ladder's past: \<^verbatim>\<open>internal/modules/pricing/models/history.go\<close> and the pure part of
  \<^verbatim>\<open>service/history.go\<close>.

  What a set charged in a window is rebuilt from snapshots of its prices and of the lists they name:
  the ladder is run at finitely many moments and its answers are merged into stretches of time. A Go
  map that is walked is an association list; what is computed does not depend on its order. Thirty
  days are thirty times 24 hours, which they are in UTC, where the code keeps its times. The
  properties: the stretches tell the ladder's answer at every instant of the window, and a
  reduction states when the run of sale prices began and the lowest price of the days before.
\<close>

section \<open>Data\<close>

record price_set_snapshot =
  ps_PriceSetID :: string
  ps_RecordedAt :: instant
  ps_Prices :: "price list"

record price_list_snapshot =
  ls_RecordedAt :: instant
  ls_Info :: price_list_info
  ls_Deleted :: bool

record applied_price =
  az_From :: instant
  az_To :: "instant option"
  az_Priced :: bool
  az_Amount :: int64
  az_PriceID :: string
  az_PriceListID :: "string option"
  az_PriceListType :: string

record price_timeline =
  tl_PriceSetID :: string
  tl_CurrencyCode :: string
  tl_From :: instant
  tl_To :: instant
  tl_RecordedSince :: "instant option"
  tl_Stretches :: "applied_price list"

record reduction =
  rn_CurrencyCode :: string
  rn_PriceID :: string
  rn_ReducedSince :: "instant option"
  rn_LowestPrior :: "int64 option"

type_synonym list_history = "(string \<times> price_list_snapshot list) list"

definition Covers :: "price_timeline \<Rightarrow> instant \<Rightarrow> bool" where
  "Covers t from = (case tl_RecordedSince t of None \<Rightarrow> False | Some since \<Rightarrow> \<not> since > from)"

fun lowest_loop :: "instant \<Rightarrow> instant \<Rightarrow> applied_price option \<Rightarrow> applied_price list \<Rightarrow> applied_price option" where
  "lowest_loop from to lowest [] = lowest"
| "lowest_loop from to lowest (s # ss) =
    (if \<not> az_Priced s \<or> \<not> az_From s < to then lowest_loop from to lowest ss
     else if (case az_To s of Some t \<Rightarrow> \<not> t > from | None \<Rightarrow> False) then lowest_loop from to lowest ss
     else
       (case lowest of
         None \<Rightarrow> lowest_loop from to (Some s) ss
       | Some l \<Rightarrow> lowest_loop from to (Some (if az_Amount s < az_Amount l then s else l)) ss))"

definition Lowest :: "price_timeline \<Rightarrow> instant \<Rightarrow> instant \<Rightarrow> applied_price option" where
  "Lowest t from to = lowest_loop from to None (tl_Stretches t)"

definition ReductionReferenceDays :: int where "ReductionReferenceDays = 30"
definition timelineQuantity :: int32 where "timelineQuantity = 1"
definition CodeTimelineInvalid :: string where "CodeTimelineInvalid = ''pricing_timeline_invalid''"

definition days_before :: "int \<Rightarrow> instant \<Rightarrow> instant" where
  "days_before n t = t - n * (24 * 60 * 60 * 1000000000)"

section \<open>The answer at one instant\<close>

fun standing :: "('a \<Rightarrow> instant) \<Rightarrow> instant \<Rightarrow> 'a option \<Rightarrow> 'a list \<Rightarrow> 'a option" where
  "standing recorded at found [] = found"
| "standing recorded at found (s # ss) =
    (if recorded s > at then found else standing recorded at (Some s) ss)"

definition standingSet :: "price_set_snapshot list \<Rightarrow> instant \<Rightarrow> price_set_snapshot option" where
  "standingSet sets at = standing ps_RecordedAt at None sets"

definition standingList :: "price_list_snapshot list \<Rightarrow> instant \<Rightarrow> price_list_snapshot option" where
  "standingList snapshots at = standing ls_RecordedAt at None snapshots"

definition list_snapshots :: "list_history \<Rightarrow> string \<Rightarrow> price_list_snapshot list" where
  "list_snapshots hist listID = (case map_of hist listID of Some ss \<Rightarrow> ss | None \<Rightarrow> [])"

definition no_price :: applied_price where
  "no_price = \<lparr> az_From = 0, az_To = None, az_Priced = False, az_Amount = 0, az_PriceID = [],
    az_PriceListID = None, az_PriceListType = [] \<rparr>"

definition past_candidate :: "list_history \<Rightarrow> instant \<Rightarrow> price \<Rightarrow> price_candidate" where
  "past_candidate hist at p =
    \<lparr> pc_Price = p,
      pc_List =
        (case px_PriceListID p of
          None \<Rightarrow> None
        | Some listID \<Rightarrow>
            (case standingList (list_snapshots hist listID) at of
              Some l \<Rightarrow> if ls_Deleted l then None else Some (ls_Info l)
            | None \<Rightarrow> None)) \<rparr>"

definition appliedAt :: "price_set_snapshot list \<Rightarrow> list_history \<Rightarrow> string \<Rightarrow> instant \<Rightarrow> applied_price" where
  "appliedAt sets hist currency at =
    (case standingSet sets at of
      None \<Rightarrow> no_price
    | Some std \<Rightarrow>
        (case selectPrice (map (past_candidate hist at) (ps_Prices std)) currency timelineQuantity Map.empty at of
          None \<Rightarrow> no_price
        | Some winner \<Rightarrow>
            no_price\<lparr> az_Priced := True, az_Amount := kp_Amount winner, az_PriceID := kp_PriceID winner,
              az_PriceListID := kp_PriceListID winner, az_PriceListType := kp_PriceListType winner \<rparr>))"

section \<open>The timeline\<close>

definition list_moments :: "price_list_snapshot \<Rightarrow> instant list" where
  "list_moments s =
    [ls_RecordedAt s] @
    (case pl_StartsAt (ls_Info s) of Some t \<Rightarrow> [t] | None \<Rightarrow> []) @
    (case pl_EndsAt (ls_Info s) of Some t \<Rightarrow> [t + 1] | None \<Rightarrow> [])"

definition changeMoments ::
    "price_set_snapshot list \<Rightarrow> list_history \<Rightarrow> instant \<Rightarrow> instant \<Rightarrow> instant list" where
  "changeMoments sets hist start to =
    remdups_adj (SortFunc cmp_Compare
      (start # filter (\<lambda>at. at > start \<and> at < to)
        (map ps_RecordedAt sets @ concat (map (\<lambda>(_, ss). concat (map list_moments ss)) hist))))"

definition sameAnswer :: "applied_price \<Rightarrow> applied_price \<Rightarrow> bool" where
  "sameAnswer a b =
    (if az_Priced a \<noteq> az_Priced b then False
     else if \<not> az_Priced a then True
     else az_Amount a = az_Amount b \<and> az_PriceID a = az_PriceID b \<and>
       az_PriceListID a = az_PriceListID b \<and> az_PriceListType a = az_PriceListType b)"

fun stretch_loop ::
    "(instant \<Rightarrow> applied_price) \<Rightarrow> instant \<Rightarrow> applied_price list \<Rightarrow> instant list \<Rightarrow> applied_price list" where
  "stretch_loop answer to acc [] = acc"
| "stretch_loop answer to acc (at # rest) =
    (let end' = (case rest of [] \<Rightarrow> to | m # _ \<Rightarrow> m);
         stretch = (answer at)\<lparr> az_From := at, az_To := Some end' \<rparr> in
     if acc \<noteq> [] \<and> sameAnswer (List.last acc) stretch
     then stretch_loop answer to (butlast acc @ [(List.last acc)\<lparr> az_To := Some end' \<rparr>]) rest
     else stretch_loop answer to (acc @ [stretch]) rest)"

definition buildTimeline ::
    "string \<Rightarrow> string \<Rightarrow> price_set_snapshot list \<Rightarrow> list_history \<Rightarrow> instant \<Rightarrow> instant \<Rightarrow> price_timeline" where
  "buildTimeline setID currency sets hist from to =
    (let timeline = \<lparr> tl_PriceSetID = setID, tl_CurrencyCode = currency, tl_From = from, tl_To = to,
           tl_RecordedSince = None, tl_Stretches = [] \<rparr> in
     case sets of
       [] \<Rightarrow> timeline
     | first # _ \<Rightarrow>
         (let since = ps_RecordedAt first;
              timeline = timeline\<lparr> tl_RecordedSince := Some since \<rparr>;
              start = (if since > from then since else from) in
          if \<not> start < to then timeline
          else timeline\<lparr> tl_Stretches :=
            stretch_loop (appliedAt sets hist currency) to [] (changeMoments sets hist start to) \<rparr>))"

section \<open>Reductions\<close>

definition onSale :: "applied_price \<Rightarrow> bool" where
  "onSale s \<longleftrightarrow> az_Priced s \<and> az_PriceListType s = PriceListSale"

fun run_start :: "applied_price list \<Rightarrow> nat \<Rightarrow> nat" where
  "run_start ss 0 = 0"
| "run_start ss (Suc n) = (if onSale (ss ! n) then run_start ss n else Suc n)"

text \<open>The result is nothing when the timeline does not end in a sale price.\<close>

definition reductionFrom :: "price_timeline \<Rightarrow> int \<Rightarrow> reduction option" where
  "reductionFrom timeline referenceDays =
    (let ss = tl_Stretches timeline in
     if ss = [] \<or> \<not> onSale (List.last ss) then None
     else
       (let red = \<lparr> rn_CurrencyCode = tl_CurrencyCode timeline, rn_PriceID = az_PriceID (List.last ss),
              rn_ReducedSince = None, rn_LowestPrior = None \<rparr>;
            first = run_start ss (length ss - 1) in
        if first = 0 then Some red
        else
          (let since = az_From (ss ! first);
               red = red\<lparr> rn_ReducedSince := Some since \<rparr>;
               referenceFrom = days_before referenceDays since in
           if \<not> Covers timeline referenceFrom then Some red
           else Some (red\<lparr> rn_LowestPrior := map_option az_Amount (Lowest timeline referenceFrom since) \<rparr>))))"

end
