(* ===== verification/PriceTimeline.thy ===== *)
theory PriceTimeline
  imports PriceHistory
begin

text \<open>
  Why finitely many moments are enough: between two neighbouring moments of change the ladder gives
  one answer, so the merged stretches tell its answer at every instant; and what a reduction reads
  off them.
\<close>

section \<open>Between two moments\<close>

lemma standing_cong:
  assumes "\<forall>s \<in> set ss. recorded s > t \<longleftrightarrow> recorded s > m"
  shows "standing recorded t found ss = standing recorded m found ss"
  using assms by (induction ss arbitrary: found) auto

lemma standing_in: "standing recorded at found ss = Some s \<Longrightarrow> s \<in> set ss \<or> found = Some s"
  by (induction ss arbitrary: found) (auto split: if_splits)

lemma select_loop_cong:
  assumes "\<forall>c \<in> set cs. price_eligible c currency quantity attributes t = price_eligible c currency quantity attributes m"
  shows "select_loop currency quantity attributes t best cs = select_loop currency quantity attributes m best cs"
  using assms by (induction cs arbitrary: best) (auto simp: Let_def split: option.split)

lemma Usable_cong:
  assumes "m \<le> t" "\<forall>s. pl_StartsAt l = Some s \<longrightarrow> \<not> (m < s \<and> s \<le> t)" "\<forall>e. pl_EndsAt l = Some e \<longrightarrow> \<not> (m < e + 1 \<and> e + 1 \<le> t)"
  shows "Usable l t = Usable l m"
  using assms by (auto simp: Usable_def split: option.splits)

text \<open>No moment of change lies after \<open>m\<close> and up to \<open>t\<close>.\<close>

definition quiet_between :: "price_set_snapshot list \<Rightarrow> list_history \<Rightarrow> instant \<Rightarrow> instant \<Rightarrow> bool" where
  "quiet_between sets hist m t \<longleftrightarrow>
    (\<forall>at \<in> set (map ps_RecordedAt sets @ concat (map (\<lambda>(_, ss). concat (map list_moments ss)) hist)).
      \<not> (m < at \<and> at \<le> t))"

lemma quiet_list:
  assumes "quiet_between sets hist m t" "s \<in> set (list_snapshots hist listID)" "at \<in> set (list_moments s)"
  shows "\<not> (m < at \<and> at \<le> t)"
proof -
  have "\<exists>listID ss. (listID, ss) \<in> set hist \<and> s \<in> set ss"
    using assms(2) map_of_SomeD [of hist listID]
    by (cases "map_of hist listID") (auto simp: list_snapshots_def)
  then show ?thesis using assms(1,3) unfolding quiet_between_def by fastforce
qed

lemma appliedAt_quiet:
  assumes "quiet_between sets hist m t" "m \<le> t"
  shows "appliedAt sets hist currency t = appliedAt sets hist currency m"
proof -
  have "standingSet sets t = standingSet sets m"
    unfolding standingSet_def
    using assms by (intro standing_cong) (fastforce simp: quiet_between_def)
  moreover have "past_candidate hist t = past_candidate hist m"
  proof
    have "standingList (list_snapshots hist listID) t = standingList (list_snapshots hist listID) m" for listID
      unfolding standingList_def
      using quiet_list [OF assms(1), of _ listID] assms(2) by (intro standing_cong) (fastforce simp: list_moments_def)
    then show "past_candidate hist t p = past_candidate hist m p" for p
      by (auto simp: past_candidate_def split: option.split)
  qed
  moreover have "price_eligible (past_candidate hist m p) currency q attributes t =
      price_eligible (past_candidate hist m p) currency q attributes m" for p q attributes
  proof -
    have "Usable (ls_Info s) t = Usable (ls_Info s) m"
      if "standingList (list_snapshots hist listID) m = Some s" for s listID
    proof -
      have "s \<in> set (list_snapshots hist listID)"
        using that standing_in by (fastforce simp: standingList_def)
      then show ?thesis
        using quiet_list [OF assms(1)] assms(2) by (intro Usable_cong) (auto simp: list_moments_def)
    qed
    then show ?thesis
      by (auto simp: price_eligible_def listAvailable_def past_candidate_def Let_def split: option.splits)
  qed
  ultimately have "standingSet sets t = standingSet sets m"
    and "selectPrice (map (past_candidate hist t) ps) currency q attributes t =
      selectPrice (map (past_candidate hist m) ps) currency q attributes m" for ps q attributes
    by (simp_all add: selectPrice_def select_loop_cong [of _ currency q attributes t m])
  then show ?thesis by (simp only: appliedAt_def)
qed

section \<open>Stretches that tell an answer\<close>

fun contiguous :: "instant \<Rightarrow> applied_price list \<Rightarrow> instant \<Rightarrow> bool" where
  "contiguous a [] b \<longleftrightarrow> a = b"
| "contiguous a (s # ss) b \<longleftrightarrow> az_From s = a \<and> (\<exists>e. az_To s = Some e \<and> a < e \<and> contiguous e ss b)"

definition covers_instant :: "applied_price \<Rightarrow> instant \<Rightarrow> bool" where
  "covers_instant s t \<longleftrightarrow> az_From s \<le> t \<and> (case az_To s of None \<Rightarrow> True | Some e \<Rightarrow> t < e)"

lemma contiguous_append: "contiguous a (xs @ ys) b \<longleftrightarrow> (\<exists>m. contiguous a xs m \<and> contiguous m ys b)"
  by (induction xs arbitrary: a) auto

lemma contiguous_le: "contiguous a ss b \<Longrightarrow> a \<le> b"
  by (induction ss arbitrary: a) fastforce+

lemma contiguous_covers: "contiguous a ss b \<Longrightarrow> a \<le> t \<Longrightarrow> t < b \<Longrightarrow> \<exists>s \<in> set ss. covers_instant s t"
  by (induction ss arbitrary: a) (fastforce simp: covers_instant_def)+

lemma contiguous_within:
  "contiguous a ss b \<Longrightarrow> s \<in> set ss \<Longrightarrow> a \<le> az_From s \<and> (\<exists>e. az_To s = Some e \<and> az_From s < e \<and> e \<le> b)"
proof (induction ss arbitrary: a)
  case (Cons x ss)
  then obtain e where e: "az_To x = Some e" "a < e" "contiguous e ss b" "az_From x = a" by auto
  show ?case
  proof (cases "s = x")
    case True
    with e show ?thesis using contiguous_le by auto
  next
    case False
    with Cons.prems(2) Cons.IH [OF e(3)] e(2) show ?thesis by auto
  qed
qed simp

lemma sameAnswer_refl [simp]: "sameAnswer s s"
  by (simp add: sameAnswer_def)

lemma sameAnswer_trans: "sameAnswer a b \<Longrightarrow> sameAnswer b c \<Longrightarrow> sameAnswer a c"
  by (auto simp: sameAnswer_def split: if_splits)

lemma sameAnswer_times [simp]:
  "sameAnswer (a\<lparr> az_From := x \<rparr>) b = sameAnswer a b" "sameAnswer b (a\<lparr> az_From := x \<rparr>) = sameAnswer b a"
  "sameAnswer (a\<lparr> az_From := x, az_To := y \<rparr>) b = sameAnswer a b" "sameAnswer (a\<lparr> az_To := y \<rparr>) b = sameAnswer a b"
  "sameAnswer b (a\<lparr> az_From := x, az_To := y \<rparr>) = sameAnswer b a" "sameAnswer b (a\<lparr> az_To := y \<rparr>) = sameAnswer b a"
  by (simp_all add: sameAnswer_def)

definition told :: "(instant \<Rightarrow> applied_price) \<Rightarrow> applied_price list \<Rightarrow> bool" where
  "told answer ss \<longleftrightarrow> (\<forall>s \<in> set ss. \<forall>t. covers_instant s t \<longrightarrow> sameAnswer s (answer t))"

lemma stretch_loop_tells:
  assumes "contiguous a acc (case moments of [] \<Rightarrow> to | m # _ \<Rightarrow> m)" "told answer acc"
    and "successively (\<lambda>x y. \<not> sameAnswer x y) acc"
    and "sorted_wrt (<) moments" "\<forall>m \<in> set moments. m < to"
    and "\<And>m t. m \<in> set moments \<Longrightarrow> m \<le> t \<Longrightarrow> t < to \<Longrightarrow> \<forall>m' \<in> set moments. \<not> (m < m' \<and> m' \<le> t) \<Longrightarrow> answer t = answer m"
  shows "contiguous a (stretch_loop answer to acc moments) to \<and> told answer (stretch_loop answer to acc moments) \<and>
    successively (\<lambda>x y. \<not> sameAnswer x y) (stretch_loop answer to acc moments)"
  using assms
proof (induction moments arbitrary: acc)
  case (Cons m rest)
  define e where "e = (case rest of [] \<Rightarrow> to | m # _ \<Rightarrow> m)"
  define st where "st = (answer m)\<lparr> az_From := m, az_To := Some e \<rparr>"
  have less: "m < e" "e \<le> to" using Cons.prems(4,5) by (auto simp: e_def split: list.splits)
  have const: "answer t = answer m" if "m \<le> t" "t < e" for t
  proof (rule Cons.prems(6))
    show "\<forall>m' \<in> set (m # rest). \<not> (m < m' \<and> m' \<le> t)"
      using that(2) Cons.prems(4) by (auto simp: e_def split: list.splits)
  qed (use that less in auto)
  have later: "answer t = answer m'" if "m' \<in> set rest" "m' \<le> t" "t < to" "\<forall>m'' \<in> set rest. \<not> (m' < m'' \<and> m'' \<le> t)" for m' t
    using Cons.prems(6) [of m' t] Cons.prems(4) that by auto
  have IH: "contiguous a (stretch_loop answer to acc' rest) to \<and> told answer (stretch_loop answer to acc' rest) \<and>
      successively (\<lambda>x y. \<not> sameAnswer x y) (stretch_loop answer to acc' rest)"
    if "contiguous a acc' e" "told answer acc'" "successively (\<lambda>x y. \<not> sameAnswer x y) acc'" for acc'
    by (rule Cons.IH [OF that(1) [unfolded e_def] that(2,3) _ _ later]) (use Cons.prems(4,5) in auto)
  show ?case
  proof (cases "acc \<noteq> [] \<and> sameAnswer (List.last acc) st")
    case True
    then obtain xs l where acc: "acc = xs @ [l]" by (cases acc rule: rev_cases) auto
    define l' where "l' = l\<lparr> az_To := Some e \<rparr>"
    have l: "az_To l = Some m" "az_From l < m" "contiguous a xs (az_From l)"
      using Cons.prems(1) by (auto simp: acc contiguous_append)
    have "sameAnswer l' (answer t)" if "covers_instant l' t" for t
    proof (cases "t < m")
      case True
      then have "covers_instant l t" using that l by (simp add: covers_instant_def l'_def)
      then show ?thesis using Cons.prems(2) by (simp add: told_def acc l'_def)
    next
      case False
      then have "answer t = answer m" using that by (intro const) (simp_all add: covers_instant_def l'_def)
      then show ?thesis using True by (simp add: acc st_def l'_def)
    qed
    then have "told answer (xs @ [l'])" using Cons.prems(2) by (simp add: told_def acc)
    moreover have "contiguous a (xs @ [l']) e" using l less by (auto simp: contiguous_append l'_def)
    moreover have "successively (\<lambda>x y. \<not> sameAnswer x y) (xs @ [l'])"
      using Cons.prems(3) by (auto simp: acc successively_append_iff l'_def)
    moreover have "sameAnswer l (answer m)" using True by (simp add: acc st_def)
    then have "stretch_loop answer to acc (m # rest) = stretch_loop answer to (xs @ [l']) rest"
      by (simp add: Let_def acc e_def [symmetric] l'_def)
    ultimately show ?thesis using IH by simp
  next
    case False
    have "sameAnswer st (answer t)" if "covers_instant st t" for t
    proof -
      have "answer t = answer m" using that by (intro const) (simp_all add: covers_instant_def st_def)
      then show ?thesis by (simp add: st_def)
    qed
    then have "told answer (acc @ [st])" using Cons.prems(2) by (simp add: told_def)
    moreover have "contiguous a (acc @ [st]) e"
      using Cons.prems(1) less by (auto simp: contiguous_append st_def)
    moreover have "successively (\<lambda>x y. \<not> sameAnswer x y) (acc @ [st])"
      using Cons.prems(3) False by (auto simp: successively_append_iff)
    moreover have "\<not> (acc \<noteq> [] \<and> sameAnswer (List.last acc) (answer m))" using False by (simp add: st_def)
    then have "stretch_loop answer to acc (m # rest) = stretch_loop answer to (acc @ [st]) rest"
      by (auto simp: Let_def e_def [symmetric] st_def)
    ultimately show ?thesis using IH by simp
  qed
qed simp


section \<open>The timeline\<close>

lemma changeMoments_spec:
  assumes "start < to"
  shows "sorted_wrt (<) (changeMoments sets hist start to)"
    and "set (changeMoments sets hist start to) = insert start {at. start < at \<and> at < to \<and>
      at \<in> set (map ps_RecordedAt sets @ concat (map (\<lambda>(_, ss). concat (map list_moments ss)) hist))}"
    and "hd (changeMoments sets hist start to) = start"
proof -
  let ?xs = "start # filter (\<lambda>at. at > start \<and> at < to)
    (map ps_RecordedAt sets @ concat (map (\<lambda>(_, ss). concat (map list_moments ss)) hist))"
  have ord: "ordering_on UNIV (cmp_Compare :: instant \<Rightarrow> _)"
    by (auto simp: ordering_on_def cmp_Compare_def)
  have "sorted_wrt (\<lambda>a b. cmp_Compare a b \<le> 0) (SortFunc cmp_Compare ?xs)"
    by (rule SortFunc_sorted) (rule ordering_on_subset [OF ord], simp)
  then have "sorted (SortFunc cmp_Compare ?xs)"
    by (rule sorted_wrt_mono_rel [rotated]) (auto simp: cmp_Compare_def split: if_splits)
  then have "sorted (changeMoments sets hist start to)" by (simp add: changeMoments_def)
  moreover have "successively (\<noteq>) (changeMoments sets hist start to)"
    using distinct_adj_remdups_adj unfolding distinct_adj_def changeMoments_def .
  ultimately have "successively (<) (changeMoments sets hist start to)"
    by (simp add: successively_conv_nth sorted_iff_nth_Suc order_less_le)
  then show sw: "sorted_wrt (<) (changeMoments sets hist start to)"
    by (simp add: successively_conv_sorted_wrt)
  show members: "set (changeMoments sets hist start to) = insert start {at. start < at \<and> at < to \<and>
      at \<in> set (map ps_RecordedAt sets @ concat (map (\<lambda>(_, ss). concat (map list_moments ss)) hist))}"
    by (auto simp: changeMoments_def)
  obtain x xs where x: "changeMoments sets hist start to = x # xs"
    using members by (cases "changeMoments sets hist start to") auto
  then have "x \<le> start" using sw members by (cases "x = start") (auto simp: set_eq_iff less_imp_le)
  moreover have "start \<le> x" using members x by (auto simp: set_eq_iff)
  ultimately show "hd (changeMoments sets hist start to) = start" using x by simp
qed

text \<open>What a window of a set's history is about: it begins at the first snapshot or at the window's
  own beginning, whichever is later.\<close>

definition window_start :: "price_set_snapshot list \<Rightarrow> instant \<Rightarrow> instant" where
  "window_start sets from = max from (ps_RecordedAt (hd sets))"

lemma buildTimeline_tells:
  assumes "sets \<noteq> []" "window_start sets from < to"
  shows "contiguous (window_start sets from) (tl_Stretches (buildTimeline setID currency sets hist from to)) to"
    and "told (appliedAt sets hist currency) (tl_Stretches (buildTimeline setID currency sets hist from to))"
    and "successively (\<lambda>x y. \<not> sameAnswer x y) (tl_Stretches (buildTimeline setID currency sets hist from to))"
proof -
  let ?a = "window_start sets from"
  let ?ms = "changeMoments sets hist ?a to"
  note ms = changeMoments_spec [OF assms(2), of sets hist]
  have "(case ?ms of [] \<Rightarrow> to | m # _ \<Rightarrow> m) = ?a" using ms(2,3) by (cases ?ms) auto
  then have "contiguous ?a (stretch_loop (appliedAt sets hist currency) to [] ?ms) to \<and>
      told (appliedAt sets hist currency) (stretch_loop (appliedAt sets hist currency) to [] ?ms) \<and>
      successively (\<lambda>x y. \<not> sameAnswer x y) (stretch_loop (appliedAt sets hist currency) to [] ?ms)"
  proof (intro stretch_loop_tells)
    fix m t assume m: "m \<in> set ?ms" "m \<le> t" "t < to" "\<forall>m' \<in> set ?ms. \<not> (m < m' \<and> m' \<le> t)"
    then have "?a \<le> m" using ms(2) by auto
    have "quiet_between sets hist m t"
      unfolding quiet_between_def
    proof (intro ballI notI)
      fix at assume "at \<in> set (map ps_RecordedAt sets @ concat (map (\<lambda>(_, ss). concat (map list_moments ss)) hist))"
        and "m < at \<and> at \<le> t"
      then have "at \<in> set ?ms" unfolding ms(2) using \<open>?a \<le> m\<close> m(3) by auto
      then show False using m(4) \<open>m < at \<and> at \<le> t\<close> by blast
    qed
    then show "appliedAt sets hist currency t = appliedAt sets hist currency m" using m(2) by (rule appliedAt_quiet)
  qed (use assms(2) ms in \<open>auto simp: told_def\<close>)
  moreover have "tl_Stretches (buildTimeline setID currency sets hist from to) =
      stretch_loop (appliedAt sets hist currency) to [] ?ms"
    using assms by (cases sets) (auto simp: buildTimeline_def Let_def window_start_def max_def)
  ultimately show "contiguous ?a (tl_Stretches (buildTimeline setID currency sets hist from to)) to"
    "told (appliedAt sets hist currency) (tl_Stretches (buildTimeline setID currency sets hist from to))"
    "successively (\<lambda>x y. \<not> sameAnswer x y) (tl_Stretches (buildTimeline setID currency sets hist from to))"
    by auto
qed

text \<open>C14: the timeline of a set tells what the ladder would have answered at every instant, although
  the ladder is run at finitely many. Its stretches cover the window from the first snapshot on,
  without a gap or an overlap; at any instant of a stretch, also where a list's window opens or
  closes with no write at all, the ladder over what was recorded then gives the stretch's answer;
  and neighbouring stretches differ, so an answer is never reported in two pieces.\<close>

theorem timeline_tells_every_instant:
  assumes "sets \<noteq> []" and "max from (ps_RecordedAt (hd sets)) < to"
  shows "let ss = tl_Stretches (buildTimeline setID currency sets hist from to) in
    contiguous (max from (ps_RecordedAt (hd sets))) ss to \<and>
    (\<forall>t. max from (ps_RecordedAt (hd sets)) \<le> t \<and> t < to \<longrightarrow>
      (\<exists>s \<in> set ss. covers_instant s t \<and> sameAnswer s (appliedAt sets hist currency t))) \<and>
    (\<forall>i. Suc i < length ss \<longrightarrow> \<not> sameAnswer (ss ! i) (ss ! Suc i))"
proof -
  note tells = buildTimeline_tells [where setID = setID and currency = currency and hist = hist,
    OF assms(1) assms(2) [folded window_start_def], unfolded window_start_def]
  show ?thesis
    unfolding Let_def
    using tells(1,2) contiguous_covers [OF tells(1)] tells(3) [unfolded successively_conv_nth]
    by (fastforce simp: told_def)
qed


definition summer_list :: "instant \<Rightarrow> instant \<Rightarrow> price_list_info" where
  "summer_list starts ends = \<lparr> pl_ID = ''plist_1'', pl_Type = ''sale'', pl_Status = ''active'',
    pl_StartsAt = Some starts, pl_EndsAt = Some ends \<rparr>"

definition a_day :: int where "a_day = 24 * 60 * 60 * 1000000000"

text \<open>Recorded on day 1: a base price of 1000 and a sale price of 800 of a list that runs from day 40 on;
  on day 35 the base price is lowered to 900.\<close>

definition summer_sets :: "price_set_snapshot list" where
  "summer_sets =
    (let snapshot = \<lambda>at amount. \<lparr> ps_PriceSetID = ''pset_1'', ps_RecordedAt = at,
           ps_Prices = [eur_price ''price_1'' amount [], (eur_price ''price_2'' 800 [])\<lparr> px_PriceListID := Some ''plist_1'' \<rparr>] \<rparr> in
     [snapshot (1 * a_day) 1000, snapshot (35 * a_day) 900])"

definition summer_hist :: list_history where
  "summer_hist = [(''plist_1'', [\<lparr> ls_RecordedAt = a_day, ls_Info = summer_list (40 * a_day) (50 * a_day), ls_Deleted = False \<rparr>])]"

theorem timeline_tells_every_instant_witness:
  "map (\<lambda>s. (az_From s, az_To s, az_Amount s)) (tl_Stretches (buildTimeline ''pset_1'' ''EUR'' summer_sets summer_hist 0 (60 * a_day))) =
     [(a_day, Some (35 * a_day), 1000), (35 * a_day, Some (40 * a_day), 900),
      (40 * a_day, Some (50 * a_day + 1), 800), (50 * a_day + 1, Some (60 * a_day), 900)] \<and>
   (\<exists>s \<in> set (tl_Stretches (buildTimeline ''pset_1'' ''EUR'' summer_sets summer_hist 0 (60 * a_day))).
     covers_instant s (50 * a_day) \<and> sameAnswer s (appliedAt summer_sets summer_hist ''EUR'' (50 * a_day)))"
proof
  show "map (\<lambda>s. (az_From s, az_To s, az_Amount s)) (tl_Stretches (buildTimeline ''pset_1'' ''EUR'' summer_sets summer_hist 0 (60 * a_day))) =
     [(a_day, Some (35 * a_day), 1000), (35 * a_day, Some (40 * a_day), 900),
      (40 * a_day, Some (50 * a_day + 1), 800), (50 * a_day + 1, Some (60 * a_day), 900)]" by code_simp
  show "\<exists>s \<in> set (tl_Stretches (buildTimeline ''pset_1'' ''EUR'' summer_sets summer_hist 0 (60 * a_day))).
     covers_instant s (50 * a_day) \<and> sameAnswer s (appliedAt summer_sets summer_hist ''EUR'' (50 * a_day))"
    using timeline_tells_every_instant [of summer_sets 0 "60 * a_day" "''pset_1''" "''EUR''" summer_hist]
    by (simp add: Let_def summer_sets_def a_day_def)
qed

section \<open>Reductions\<close>

lemma run_start_spec:
  "run_start ss n \<le> n \<and> (\<forall>i. run_start ss n \<le> i \<and> i < n \<longrightarrow> onSale (ss ! i)) \<and>
    (run_start ss n > 0 \<longrightarrow> \<not> onSale (ss ! (run_start ss n - 1)))"
proof (induction n)
  case (Suc n)
  then show ?case by (auto simp: less_Suc_eq)
qed simp

lemma onSale_sameAnswer: "sameAnswer a b \<Longrightarrow> onSale a = onSale b"
  by (auto simp: sameAnswer_def onSale_def split: if_splits)

lemma sameAnswer_priced: "sameAnswer a b \<Longrightarrow> az_Priced a = az_Priced b \<and> (az_Priced a \<longrightarrow> az_Amount a = az_Amount b \<and> az_PriceID a = az_PriceID b)"
  by (auto simp: sameAnswer_def split: if_splits)

lemma lowest_loop_spec:
  assumes "low = lowest_loop from to l0 ss"
    and "\<forall>s \<in> set ss. \<exists>e. az_To s = Some e"
  defines "inside \<equiv> {s \<in> set ss. az_Priced s \<and> az_From s < to \<and> the (az_To s) > from}"
  shows "(case low of
      None \<Rightarrow> l0 = None \<and> inside = {}
    | Some s \<Rightarrow> (s \<in> inside \<or> l0 = Some s) \<and> (\<forall>x \<in> inside. az_Amount s \<le> az_Amount x) \<and>
        (\<forall>x. l0 = Some x \<longrightarrow> az_Amount s \<le> az_Amount x))"
  using assms(1,2) unfolding inside_def
proof (induction ss arbitrary: l0)
  case (Cons s ss)
  obtain e where e: "az_To s = Some e" using Cons.prems(2) by auto
  have rest: "\<forall>s \<in> set ss. \<exists>e. az_To s = Some e" using Cons.prems(2) by simp
  show ?case
  proof (cases "az_Priced s \<and> az_From s < to \<and> e > from")
    case False
    then have "lowest_loop from to l0 (s # ss) = lowest_loop from to l0 ss" using e by auto
    with Cons.IH [OF _ rest, of l0] Cons.prems(1) False e show ?thesis by (auto split: option.splits)
  next
    case True
    let ?l = "Some (case l0 of None \<Rightarrow> s | Some l \<Rightarrow> if az_Amount s < az_Amount l then s else l)"
    have "lowest_loop from to l0 (s # ss) = lowest_loop from to ?l ss" using e True by (auto split: option.split)
    with Cons.IH [OF _ rest, of ?l] Cons.prems(1) True e show ?thesis by (force split: option.splits if_splits)
  qed
qed (auto split: option.splits)

lemma contiguous_split:
  assumes "contiguous a ss b" "k < length ss"
  shows "contiguous a (take k ss) (az_From (ss ! k))" "contiguous (az_From (ss ! k)) (drop k ss) b"
proof -
  have "contiguous a (take k ss @ drop k ss) b" using assms(1) by simp
  then obtain m where m: "contiguous a (take k ss) m" "contiguous m (drop k ss) b"
    by (auto simp only: contiguous_append)
  moreover have "m = az_From (ss ! k)" using m(2) assms(2) by (simp add: Cons_nth_drop_Suc [symmetric])
  ultimately show "contiguous a (take k ss) (az_From (ss ! k))" "contiguous (az_From (ss ! k)) (drop k ss) b"
    by auto
qed

lemma contiguous_last:
  assumes "contiguous a ss b" "ss \<noteq> []"
  shows "covers_instant (List.last ss) (b - 1)" "az_From (List.last ss) < b" "a < b"
proof -
  obtain xs x where ss: "ss = xs @ [x]" using assms(2) by (cases ss rule: rev_cases) auto
  then show "covers_instant (List.last ss) (b - 1)" "az_From (List.last ss) < b" "a < b"
    using assms(1) contiguous_le by (fastforce simp: contiguous_append covers_instant_def)+
qed

text \<open>The run of sale prices a timeline ends in.\<close>

lemma sale_run:
  assumes c: "contiguous a ss b" and ans: "told answer ss" and "ss \<noteq> []" "onSale (List.last ss)"
    and k: "k = run_start ss (length ss - 1)"
  shows "\<forall>t. az_From (ss ! k) \<le> t \<and> t < b \<longrightarrow> onSale (answer t)" and "a \<le> az_From (ss ! k)" "az_From (ss ! k) < b"
    and "k = 0 \<longrightarrow> az_From (ss ! k) = a"
    and "k > 0 \<longrightarrow> a < az_From (ss ! k) \<and> \<not> onSale (answer (az_From (ss ! k) - 1))"
proof -
  have run: "k \<le> length ss - 1" "\<forall>i. k \<le> i \<and> i < length ss - 1 \<longrightarrow> onSale (ss ! i)" "k > 0 \<longrightarrow> \<not> onSale (ss ! (k - 1))"
    using run_start_spec [of ss "length ss - 1"] by (auto simp: k)
  have less: "k < length ss" using run(1) assms(3) by (cases ss) auto
  note parts = contiguous_split [OF c less]
  have sale: "onSale s" if mem: "s \<in> set (drop k ss)" for s
  proof -
    obtain j where j: "j < length (drop k ss)" "s = drop k ss ! j" using mem by (auto simp: in_set_conv_nth)
    define i where "i = k + j"
    have "s = ss ! i" "k \<le> i" "i < length ss" using j less by (auto simp: i_def)
    then show ?thesis
      using run(2) assms(4) last_conv_nth [OF assms(3)] by (cases "i = length ss - 1") auto
  qed
  show "\<forall>t. az_From (ss ! k) \<le> t \<and> t < b \<longrightarrow> onSale (answer t)"
  proof (intro allI impI)
    fix t assume "az_From (ss ! k) \<le> t \<and> t < b"
    then obtain s where s: "s \<in> set (drop k ss)" "covers_instant s t" using contiguous_covers [OF parts(2)] by blast
    then have "sameAnswer s (answer t)" using ans in_set_dropD by (fastforce simp: told_def)
    then show "onSale (answer t)" using sale [OF s(1)] onSale_sameAnswer by blast
  qed
  show "a \<le> az_From (ss ! k)" by (rule contiguous_le [OF parts(1)])
  show "az_From (ss ! k) < b" using contiguous_last(3) [OF parts(2)] less by simp
  show "k = 0 \<longrightarrow> az_From (ss ! k) = a" using parts(1) by auto
  show "k > 0 \<longrightarrow> a < az_From (ss ! k) \<and> \<not> onSale (answer (az_From (ss ! k) - 1))"
  proof
    assume "k > 0"
    then obtain j where "k = Suc j" by (cases k) auto
    then have "take k ss \<noteq> []" "List.last (take k ss) = ss ! (k - 1)"
      using less by (auto simp: take_Suc_conv_app_nth)
    moreover have "ss ! (k - 1) \<in> set ss" using less \<open>k > 0\<close> by simp
    ultimately show "a < az_From (ss ! k) \<and> \<not> onSale (answer (az_From (ss ! k) - 1))"
      using contiguous_last [OF parts(1)] run(3) \<open>k > 0\<close> ans onSale_sameAnswer unfolding told_def by metis
  qed
qed

text \<open>The lowest price of a window, read off the stretches.\<close>

lemma Lowest_told:
  assumes c: "contiguous a (tl_Stretches tml) b" and ans: "told answer (tl_Stretches tml)" and "a \<le> from" "from < to" "to \<le> b"
  shows "case Lowest tml from to of
      None \<Rightarrow> \<forall>t. from \<le> t \<and> t < to \<longrightarrow> \<not> az_Priced (answer t)
    | Some s \<Rightarrow> (\<exists>t. from \<le> t \<and> t < to \<and> az_Priced (answer t) \<and> az_Amount (answer t) = az_Amount s) \<and>
        (\<forall>t. from \<le> t \<and> t < to \<and> az_Priced (answer t) \<longrightarrow> az_Amount s \<le> az_Amount (answer t))"
proof -
  let ?ss = "tl_Stretches tml"
  let ?in = "{s \<in> set ?ss. az_Priced s \<and> az_From s < to \<and> the (az_To s) > from}"
  have ends: "\<forall>s \<in> set ?ss. \<exists>e. az_To s = Some e" using contiguous_within [OF c] by blast
  have low: "case Lowest tml from to of None \<Rightarrow> ?in = {} | Some s \<Rightarrow> s \<in> ?in \<and> (\<forall>x \<in> ?in. az_Amount s \<le> az_Amount x)"
    using lowest_loop_spec [OF Lowest_def [of tml "from" to] ends] by (cases "Lowest tml from to") simp_all
  have reached: "\<exists>s \<in> ?in. az_Amount s = az_Amount (answer t)" if t: "from \<le> t" "t < to" "az_Priced (answer t)" for t
  proof -
    obtain s where s: "s \<in> set ?ss" "covers_instant s t" using contiguous_covers [OF c, of t] assms(3,5) t by auto
    then have "sameAnswer s (answer t)" using ans by (simp add: told_def)
    moreover obtain e where "az_To s = Some e" using ends s(1) by blast
    ultimately have "s \<in> ?in \<and> az_Amount s = az_Amount (answer t)"
      using s t sameAnswer_priced by (fastforce simp: covers_instant_def)
    then show ?thesis by blast
  qed
  show ?thesis
  proof (cases "Lowest tml from to")
    case None
    then show ?thesis using low reached by force
  next
    case (Some s)
    then have s: "s \<in> ?in" "\<forall>x \<in> ?in. az_Amount s \<le> az_Amount x" using low by auto
    let ?t = "max from (az_From s)"
    obtain e where e: "az_To s = Some e" "az_From s < e" using contiguous_within [OF c] s(1) by blast
    then have "covers_instant s ?t" "from \<le> ?t" "?t < to" using s(1) assms(4) by (auto simp: covers_instant_def)
    moreover from this have "sameAnswer s (answer ?t)" using ans s(1) by (simp add: told_def)
    ultimately have "\<exists>t. from \<le> t \<and> t < to \<and> az_Priced (answer t) \<and> az_Amount (answer t) = az_Amount s"
      using sameAnswer_priced s(1) by (intro exI [of _ ?t]) fastforce
    then show ?thesis using Some s(2) reached by fastforce
  qed
qed

text \<open>C13: what a shop announces of a reduction is true. When a reduction is reported for a moment, the
  price charged then is the reported one and comes from a sale list. If the reduction states since
  when, sale prices were charged at every instant from then on and none was at the instant before;
  if it does not, sale prices were charged at every recorded instant. A stated reference price was
  charged at some instant of the days before the reduction, the history reaches back over all of
  them, and nothing lower was charged in them; none is stated only when the history does not reach
  back or nothing was priced then.\<close>

theorem reduction_is_true:
  assumes "sets \<noteq> []" and "from \<le> ps_RecordedAt (hd sets)" and "0 < days"
    and "reductionFrom (buildTimeline setID currency sets hist from to) days = Some r"
  shows "let charged = appliedAt sets hist currency; recorded = ps_RecordedAt (hd sets) in
    onSale (charged (to - 1)) \<and> az_PriceID (charged (to - 1)) = rn_PriceID r \<and>
    (case rn_ReducedSince r of
      None \<Rightarrow> (\<forall>t. recorded \<le> t \<and> t < to \<longrightarrow> onSale (charged t)) \<and> rn_LowestPrior r = None
    | Some since \<Rightarrow>
        (\<forall>t. since \<le> t \<and> t < to \<longrightarrow> onSale (charged t)) \<and> \<not> onSale (charged (since - 1)) \<and>
        (case rn_LowestPrior r of
          None \<Rightarrow> recorded > days_before days since \<or>
            (\<forall>t. days_before days since \<le> t \<and> t < since \<longrightarrow> \<not> az_Priced (charged t))
        | Some a \<Rightarrow> recorded \<le> days_before days since \<and>
            (\<exists>t. days_before days since \<le> t \<and> t < since \<and> az_Priced (charged t) \<and> az_Amount (charged t) = a) \<and>
            (\<forall>t. days_before days since \<le> t \<and> t < since \<and> az_Priced (charged t) \<longrightarrow> a \<le> az_Amount (charged t))))"
proof -
  define tml where "tml = buildTimeline setID currency sets hist from to"
  define first where "first = ps_RecordedAt (hd sets)"
  define answer where "answer = appliedAt sets hist currency"
  define k where "k = run_start (tl_Stretches tml) (length (tl_Stretches tml) - 1)"
  define since where "since = az_From (tl_Stretches tml ! k)"
  have start: "window_start sets from = first" using assms(2) by (simp add: window_start_def first_def)
  have red: "reductionFrom tml days = Some r" using assms(4) by (simp add: tml_def)
  have shown: "tl_Stretches tml \<noteq> []" "onSale (List.last (tl_Stretches tml))"
    using red by (auto simp: reductionFrom_def Let_def split: if_splits)
  have "first < to"
    using shown(1) assms(1,2) by (cases sets) (auto simp: tml_def buildTimeline_def Let_def first_def split: if_splits)
  then have tells: "contiguous first (tl_Stretches tml) to" "told answer (tl_Stretches tml)"
    using buildTimeline_tells(1,2) [OF assms(1), of "from" to] by (simp_all add: start tml_def answer_def)
  note run = sale_run [OF tells shown k_def, folded since_def]
  have ended: "onSale (answer (to - 1)) \<and> az_PriceID (answer (to - 1)) = az_PriceID (List.last (tl_Stretches tml))"
    using contiguous_last(1) [OF tells(1) shown(1)] tells(2) shown onSale_sameAnswer sameAnswer_priced
    unfolding told_def onSale_def by (metis last_in_set)
  have covers: "Covers tml t \<longleftrightarrow> first \<le> t" for t
    using assms(1) by (cases sets) (auto simp: Covers_def tml_def buildTimeline_def Let_def first_def)
  have r: "r = (let red = \<lparr> rn_CurrencyCode = tl_CurrencyCode tml, rn_PriceID = az_PriceID (List.last (tl_Stretches tml)),
      rn_ReducedSince = None, rn_LowestPrior = None \<rparr> in
    if k = 0 then red
    else if \<not> Covers tml (days_before days since) then red\<lparr> rn_ReducedSince := Some since \<rparr>
    else red\<lparr> rn_ReducedSince := Some since, rn_LowestPrior := map_option az_Amount (Lowest tml (days_before days since) since) \<rparr>)"
    using red shown unfolding reductionFrom_def Let_def k_def [symmetric] since_def [symmetric]
    by (auto split: if_splits)
  have before: "days_before days since < since" using assms(3) by (simp add: days_before_def)
  show ?thesis
    unfolding Let_def answer_def [symmetric] first_def [symmetric]
  proof (intro conjI)
    show "onSale (answer (to - 1))" "az_PriceID (answer (to - 1)) = rn_PriceID r"
      using ended r by (auto simp: Let_def)
    show "case rn_ReducedSince r of
      None \<Rightarrow> (\<forall>t. first \<le> t \<and> t < to \<longrightarrow> onSale (answer t)) \<and> rn_LowestPrior r = None
    | Some since \<Rightarrow>
        (\<forall>t. since \<le> t \<and> t < to \<longrightarrow> onSale (answer t)) \<and> \<not> onSale (answer (since - 1)) \<and>
        (case rn_LowestPrior r of
          None \<Rightarrow> first > days_before days since \<or>
            (\<forall>t. days_before days since \<le> t \<and> t < since \<longrightarrow> \<not> az_Priced (answer t))
        | Some a \<Rightarrow> first \<le> days_before days since \<and>
            (\<exists>t. days_before days since \<le> t \<and> t < since \<and> az_Priced (answer t) \<and> az_Amount (answer t) = a) \<and>
            (\<forall>t. days_before days since \<le> t \<and> t < since \<and> az_Priced (answer t) \<longrightarrow> a \<le> az_Amount (answer t)))"
    proof (cases "k = 0")
      case True
      then show ?thesis using run(1,4) r by (simp add: Let_def)
    next
      case False
      then have sale: "\<forall>t. since \<le> t \<and> t < to \<longrightarrow> onSale (answer t)" "\<not> onSale (answer (since - 1))" "since \<le> to"
        using run by auto
      show ?thesis
      proof (cases "first \<le> days_before days since")
        case False
        with \<open>k \<noteq> 0\<close> r sale show ?thesis by (simp add: Let_def covers)
      next
        case True
        note low = Lowest_told [OF tells True before sale(3)]
        show ?thesis
          using \<open>k \<noteq> 0\<close> r sale True low
          by (cases "Lowest tml (days_before days since) since") (simp_all add: Let_def covers)
      qed
    qed
  qed
qed

theorem reduction_is_true_witness:
  "\<exists>r. reductionFrom (buildTimeline ''pset_1'' ''EUR'' summer_sets summer_hist 0 (45 * a_day)) 30 = Some r \<and>
    rn_ReducedSince r = Some (40 * a_day) \<and> rn_LowestPrior r = Some 900 \<and>
    \<not> onSale (appliedAt summer_sets summer_hist ''EUR'' (40 * a_day - 1))"
proof -
  have "reductionFrom (buildTimeline ''pset_1'' ''EUR'' summer_sets summer_hist 0 (45 * a_day)) 30 =
      Some \<lparr> rn_CurrencyCode = ''EUR'', rn_PriceID = ''price_2'', rn_ReducedSince = Some (40 * a_day), rn_LowestPrior = Some 900 \<rparr>"
    by code_simp
  with reduction_is_true [OF _ _ _ this] show ?thesis
    by (simp add: Let_def summer_sets_def a_day_def)
qed

end
