(* ===== verification/PriceTables.thy ===== *)
theory PriceTables
  imports PriceHistory Database
begin

text \<open>
  The pricing repository, \<^verbatim>\<open>internal/modules/pricing/repository\<close>, over the tables of its
  \<^verbatim>\<open>migrations/\<close>, with the snapshots every write appends, and the service's reads over them
  (\<^verbatim>\<open>service/calculate.go\<close>, \<^verbatim>\<open>service/history.go\<close>, \<^verbatim>\<open>service/list_trial.go\<close>).

  A table is the list of its rows in the order they were inserted, which is the order of their
  sequence numbers. A transaction is one function of the tables; a clock the code reads under the
  lock and one it reads before the transaction are both arguments, and what the caller gives for
  them tells the two apart. A time counts microseconds, the resolution of the columns. Ids are arguments where
  the code draws new ones. Metadata, the pages of the list reads and the update stamps are left out.
\<close>

section \<open>Tables\<close>

record price_list = price_list_info +
  pll_Title :: string
  pll_Description :: string

definition info_of :: "price_list \<Rightarrow> price_list_info" where
  "info_of l = \<lparr> pl_ID = pl_ID l, pl_Type = pl_Type l, pl_Status = pl_Status l,
    pl_StartsAt = pl_StartsAt l, pl_EndsAt = pl_EndsAt l \<rparr>"

record price_set_row =
  rs_ID :: string
  rs_deleted :: bool

record price_row =
  rp_price :: price
  rp_created :: instant
  rp_deleted :: bool

record price_rule_row =
  rq_rule :: price_rule
  rq_created :: instant
  rq_deleted :: bool

record price_list_row =
  rl_list :: price_list
  rl_deleted :: bool

record price_db =
  td_set :: "price_set_row list"
  td_price :: "price_row list"
  td_rule :: "price_rule_row list"
  td_list :: "price_list_row list"
  td_set_history :: "price_set_snapshot list"
  td_list_history :: "price_list_snapshot list"

section \<open>Errors\<close>

definition CodePriceSetNotFound :: string where "CodePriceSetNotFound = ''price_set_not_found''"
definition CodePriceListNotFound :: string where "CodePriceListNotFound = ''price_list_not_found''"
definition CodePriceRuleNotFound :: string where "CodePriceRuleNotFound = ''price_rule_not_found''"
definition price_CodeConstraintViolation :: string where
  "price_CodeConstraintViolation = ''pricing_constraint_violation''"
definition price_CodeDuplicate :: string where "price_CodeDuplicate = ''pricing_duplicate''"
definition price_CodeQueryFailed :: string where "price_CodeQueryFailed = ''pricing_query_failed''"
definition price_CodeCanceled :: string where "price_CodeCanceled = ''pricing_canceled''"
definition price_CodeTxFailed :: string where "price_CodeTxFailed = ''pricing_tx_failed''"

definition price_wrapDB :: "pg_error \<Rightarrow> error" where
  "price_wrapDB err =
    (case err of
      PgFault PgContext \<Rightarrow> Typed KindUnavailable price_CodeCanceled (Some (pg_sentinel err))
    | PgFault PgTxClosed \<Rightarrow> Typed KindInternal price_CodeTxFailed (Some (pg_sentinel err))
    | PgFault (PgState s) \<Rightarrow>
        if s = sqlstateUniqueViolation then Typed KindConflict price_CodeDuplicate (Some (pg_sentinel err))
        else if s = sqlstateCheckViolation \<or> s = sqlstateForeignKeyViolation \<or>
          s = sqlstateNotNullViolation \<or> s = sqlstateStringDataRightTrunc
        then Typed KindInvalid price_CodeConstraintViolation (Some (pg_sentinel err))
        else Typed KindInternal price_CodeQueryFailed (Some (pg_sentinel err))
    | _ \<Rightarrow> Typed KindInternal price_CodeQueryFailed (Some (pg_sentinel err)))"

definition price_notFoundOr :: "string \<Rightarrow> pg_error \<Rightarrow> error" where
  "price_notFoundOr code err = (if err = PgNoRows then NotFound code else price_wrapDB err)"

definition price_inTx ::
    "faults \<Rightarrow> (price_db \<Rightarrow> error + 'a \<times> price_db) \<Rightarrow> price_db \<Rightarrow> (error + 'a) \<times> price_db" where
  "price_inTx flt body db =
    transact price_wrapDB flt (\<lambda>db. case body db of Inl e \<Rightarrow> (Inl e, db) | Inr (a, db') \<Rightarrow> (Inr a, db')) db"

section \<open>Statements\<close>

definition live_set :: "price_db \<Rightarrow> string \<Rightarrow> price_set_row option" where
  "live_set db sid = find (\<lambda>r. rs_ID r = sid \<and> \<not> rs_deleted r) (td_set db)"

definition q_GetPriceSet :: "faults \<Rightarrow> string \<Rightarrow> price_db \<Rightarrow> pg_error + price_set_row" where
  "q_GetPriceSet flt sid db = statement flt ''GetPriceSet'' (found (live_set db sid))"

definition q_GetPriceSetForUpdate :: "faults \<Rightarrow> string \<Rightarrow> price_db \<Rightarrow> pg_error + price_set_row" where
  "q_GetPriceSetForUpdate flt sid db = statement flt ''GetPriceSetForUpdate'' (found (live_set db sid))"

definition live_list :: "price_db \<Rightarrow> string \<Rightarrow> price_list option" where
  "live_list db lid = map_option rl_list (find (\<lambda>r. pl_ID (rl_list r) = lid \<and> \<not> rl_deleted r) (td_list db))"

definition q_GetPriceList :: "faults \<Rightarrow> string \<Rightarrow> price_db \<Rightarrow> pg_error + price_list" where
  "q_GetPriceList flt lid db = statement flt ''GetPriceList'' (found (live_list db lid))"

definition q_GetPriceListForUpdate :: "faults \<Rightarrow> string \<Rightarrow> price_db \<Rightarrow> pg_error + price_list" where
  "q_GetPriceListForUpdate flt lid db = statement flt ''GetPriceListForUpdate'' (found (live_list db lid))"

definition live_prices :: "price_db \<Rightarrow> string \<Rightarrow> price list" where
  "live_prices db sid =
    map rp_price (sort_key rp_created
      (filter (\<lambda>r. px_PriceSetID (rp_price r) = sid \<and> \<not> rp_deleted r) (td_price db)))"

definition q_ListPricesBySet :: "faults \<Rightarrow> string \<Rightarrow> price_db \<Rightarrow> pg_error + price list" where
  "q_ListPricesBySet flt sid db = statement flt ''ListPricesBySet'' (Inr (live_prices db sid))"

definition q_GetPrice :: "faults \<Rightarrow> string \<Rightarrow> price_db \<Rightarrow> pg_error + price" where
  "q_GetPrice flt pid db =
    statement flt ''GetPrice''
      (found (map_option rp_price (find (\<lambda>r. px_ID (rp_price r) = pid \<and> \<not> rp_deleted r) (td_price db))))"

definition rules_of :: "price_db \<Rightarrow> string \<Rightarrow> price_rule list" where
  "rules_of db pid =
    map rq_rule (sort_key rq_created (filter (\<lambda>r. xr_PriceID (rq_rule r) = pid \<and> \<not> rq_deleted r) (td_rule db)))"

text \<open>The rules of several prices, each price's in their order.\<close>

definition q_ListPriceRulesByPrices :: "faults \<Rightarrow> string list \<Rightarrow> price_db \<Rightarrow> pg_error + price_rule list" where
  "q_ListPriceRulesByPrices flt ids db =
    statement flt ''ListPriceRulesByPrices''
      (Inr (concat (map (rules_of db) (sorted_list_of_set (set ids)))))"

definition price_checks :: "price \<Rightarrow> bool" where
  "price_checks p \<longleftrightarrow>
    length (px_CurrencyCode p) = 3 \<and> list_all upper_char (px_CurrencyCode p) \<and>
    0 \<le> px_Amount p \<and> px_Amount p \<le> 1000000000000 \<and>
    1 \<le> px_MinQuantity p \<and> px_MinQuantity p \<le> 1000000 \<and>
    (case px_MaxQuantity p of None \<Rightarrow> True | Some m \<Rightarrow> m \<le> 1000000 \<and> m \<ge> px_MinQuantity p)"

definition q_InsertPrice :: "faults \<Rightarrow> price \<Rightarrow> instant \<Rightarrow> price_db \<Rightarrow> pg_error + price_db" where
  "q_InsertPrice flt p now db =
    statement flt ''InsertPrice''
      (if \<not> price_checks p then Inl (violates sqlstateCheckViolation)
       else if list_ex (\<lambda>r. px_ID (rp_price r) = px_ID p) (td_price db) then Inl (violates sqlstateUniqueViolation)
       else if \<not> list_ex (\<lambda>r. rs_ID r = px_PriceSetID p) (td_set db) then Inl (violates sqlstateForeignKeyViolation)
       else if (case px_PriceListID p of None \<Rightarrow> False
           | Some lid \<Rightarrow> \<not> list_ex (\<lambda>r. pl_ID (rl_list r) = lid) (td_list db))
       then Inl (violates sqlstateForeignKeyViolation)
       else Inr (db\<lparr> td_price := td_price db @
         [\<lparr> rp_price = p\<lparr> px_Rules := [] \<rparr>, rp_created = now, rp_deleted = False \<rparr>] \<rparr>))"

definition price_rule_checks :: "price_rule \<Rightarrow> bool" where
  "price_rule_checks r \<longleftrightarrow> xr_Attribute r \<noteq> [] \<and>
    xr_Operator r \<in> {''eq'', ''ne'', ''in'', ''nin'', ''gt'', ''gte'', ''lt'', ''lte''} \<and> xr_Values r \<noteq> []"

definition q_InsertPriceRule :: "faults \<Rightarrow> price_rule \<Rightarrow> instant \<Rightarrow> price_db \<Rightarrow> pg_error + price_db" where
  "q_InsertPriceRule flt r now db =
    statement flt ''InsertPriceRule''
      (if \<not> price_rule_checks r then Inl (violates sqlstateCheckViolation)
       else if list_ex (\<lambda>x. xr_ID (rq_rule x) = xr_ID r) (td_rule db) then Inl (violates sqlstateUniqueViolation)
       else if \<not> list_ex (\<lambda>x. px_ID (rp_price x) = xr_PriceID r) (td_price db)
       then Inl (violates sqlstateForeignKeyViolation)
       else Inr (db\<lparr> td_rule := td_rule db @ [\<lparr> rq_rule = r, rq_created = now, rq_deleted = False \<rparr>] \<rparr>))"

definition gone_prices :: "price_db \<Rightarrow> string \<Rightarrow> string set" where
  "gone_prices db sid = (\<lambda>r. px_ID (rp_price r)) `
    set (filter (\<lambda>r. px_PriceSetID (rp_price r) = sid \<and> \<not> rp_deleted r) (td_price db))"

definition q_DeletePricesBySet :: "faults \<Rightarrow> string \<Rightarrow> price_db \<Rightarrow> pg_error + price_db" where
  "q_DeletePricesBySet flt sid db =
    statement flt ''DeletePricesBySet''
      (Inr (db\<lparr> td_price := filter (\<lambda>r. \<not> (px_PriceSetID (rp_price r) = sid \<and> \<not> rp_deleted r)) (td_price db),
                td_rule := filter (\<lambda>x. xr_PriceID (rq_rule x) \<notin> gone_prices db sid) (td_rule db) \<rparr>))"

definition q_SoftDeletePricesBySet :: "faults \<Rightarrow> string \<Rightarrow> price_db \<Rightarrow> pg_error + price_db" where
  "q_SoftDeletePricesBySet flt sid db =
    statement flt ''SoftDeletePricesBySet''
      (Inr (db\<lparr> td_price := map (\<lambda>r. if px_PriceSetID (rp_price r) = sid then r\<lparr> rp_deleted := True \<rparr> else r) (td_price db) \<rparr>))"

definition q_InsertPriceSet :: "faults \<Rightarrow> string \<Rightarrow> price_db \<Rightarrow> pg_error + price_db" where
  "q_InsertPriceSet flt sid db =
    statement flt ''InsertPriceSet''
      (if list_ex (\<lambda>r. rs_ID r = sid) (td_set db) then Inl (violates sqlstateUniqueViolation)
       else Inr (db\<lparr> td_set := td_set db @ [\<lparr> rs_ID = sid, rs_deleted = False \<rparr>] \<rparr>))"

definition q_SoftDeletePriceSet :: "faults \<Rightarrow> string \<Rightarrow> price_db \<Rightarrow> pg_error + price_db" where
  "q_SoftDeletePriceSet flt sid db =
    statement flt ''SoftDeletePriceSet''
      (case live_set db sid of
        None \<Rightarrow> Inl PgNoRows
      | Some _ \<Rightarrow> Inr (db\<lparr> td_set := map (\<lambda>r. if rs_ID r = sid then r\<lparr> rs_deleted := True \<rparr> else r) (td_set db) \<rparr>))"

definition price_list_checks :: "price_list \<Rightarrow> bool" where
  "price_list_checks l \<longleftrightarrow> pll_Title l \<noteq> [] \<and> pl_Type l \<in> {''sale'', ''override''} \<and>
    pl_Status l \<in> {''draft'', ''active'', ''expired''} \<and>
    (case (pl_StartsAt l, pl_EndsAt l) of (Some a, Some b) \<Rightarrow> a < b | _ \<Rightarrow> True)"

definition q_InsertPriceList :: "faults \<Rightarrow> price_list \<Rightarrow> price_db \<Rightarrow> pg_error + price_list \<times> price_db" where
  "q_InsertPriceList flt l db =
    statement flt ''InsertPriceList''
      (if \<not> price_list_checks l then Inl (violates sqlstateCheckViolation)
       else if list_ex (\<lambda>r. pl_ID (rl_list r) = pl_ID l) (td_list db) then Inl (violates sqlstateUniqueViolation)
       else Inr (l, db\<lparr> td_list := td_list db @ [\<lparr> rl_list = l, rl_deleted = False \<rparr>] \<rparr>))"

definition q_UpdatePriceList :: "faults \<Rightarrow> price_list \<Rightarrow> price_db \<Rightarrow> pg_error + price_list \<times> price_db" where
  "q_UpdatePriceList flt l db =
    statement flt ''UpdatePriceList''
      (case live_list db (pl_ID l) of
        None \<Rightarrow> Inl PgNoRows
      | Some _ \<Rightarrow>
          if \<not> price_list_checks l then Inl (violates sqlstateCheckViolation)
          else Inr (l, db\<lparr> td_list := map (\<lambda>r. if pl_ID (rl_list r) = pl_ID l then r\<lparr> rl_list := l \<rparr> else r) (td_list db) \<rparr>))"

definition q_SoftDeletePriceList :: "faults \<Rightarrow> string \<Rightarrow> price_db \<Rightarrow> pg_error + price_db" where
  "q_SoftDeletePriceList flt lid db =
    statement flt ''SoftDeletePriceList''
      (case live_list db lid of
        None \<Rightarrow> Inl PgNoRows
      | Some _ \<Rightarrow> Inr (db\<lparr> td_list := map (\<lambda>r. if pl_ID (rl_list r) = lid then r\<lparr> rl_deleted := True \<rparr> else r) (td_list db) \<rparr>))"

definition live_price_rule :: "price_db \<Rightarrow> string \<Rightarrow> price_rule option" where
  "live_price_rule db rid = map_option rq_rule (find (\<lambda>x. xr_ID (rq_rule x) = rid \<and> \<not> rq_deleted x) (td_rule db))"

definition q_GetPriceRule :: "faults \<Rightarrow> string \<Rightarrow> price_db \<Rightarrow> pg_error + price_rule" where
  "q_GetPriceRule flt rid db = statement flt ''GetPriceRule'' (found (live_price_rule db rid))"

definition q_SoftDeletePriceRule :: "faults \<Rightarrow> string \<Rightarrow> price_db \<Rightarrow> pg_error + price_db" where
  "q_SoftDeletePriceRule flt rid db =
    statement flt ''SoftDeletePriceRule''
      (case live_price_rule db rid of
        None \<Rightarrow> Inl PgNoRows
      | Some _ \<Rightarrow> Inr (db\<lparr> td_rule := map (\<lambda>x. if xr_ID (rq_rule x) = rid then x\<lparr> rq_deleted := True \<rparr> else x) (td_rule db) \<rparr>))"

section \<open>Snapshots\<close>

definition attachRules :: "faults \<Rightarrow> price list \<Rightarrow> price_db \<Rightarrow> error + price list" where
  "attachRules flt prices db =
    (if prices = [] then Inr []
     else
       and_then (wrapped price_wrapDB (q_ListPriceRulesByPrices flt (map px_ID prices) db)) (\<lambda>rows.
         Inr (map (\<lambda>p. p\<lparr> px_Rules := filter (\<lambda>r. xr_PriceID r = px_ID p) rows \<rparr>) prices)))"

text \<open>The JSON of a snapshot leaves out the ids of the rules.\<close>

definition fromHistoryPrice :: "string \<Rightarrow> price \<Rightarrow> price" where
  "fromHistoryPrice sid p =
    p\<lparr> px_PriceSetID := sid, px_Rules := map (\<lambda>r. r\<lparr> xr_ID := [], xr_PriceID := px_ID p \<rparr>) (px_Rules p) \<rparr>"

definition recordSetHistory :: "faults \<Rightarrow> string \<Rightarrow> instant \<Rightarrow> price_db \<Rightarrow> error + price_db" where
  "recordSetHistory flt sid now db =
    and_then (wrapped price_wrapDB (q_ListPricesBySet flt sid db)) (\<lambda>rows.
    and_then (attachRules flt rows db) (\<lambda>prices.
    wrapped price_wrapDB (statement flt ''InsertPriceSetHistory''
      (Inr (db\<lparr> td_set_history := td_set_history db @
        [\<lparr> ps_PriceSetID = sid, ps_RecordedAt = now, ps_Prices = map (fromHistoryPrice sid) prices \<rparr>] \<rparr>)))))"

definition recordListHistory :: "faults \<Rightarrow> price_list \<Rightarrow> bool \<Rightarrow> instant \<Rightarrow> price_db \<Rightarrow> error + price_db" where
  "recordListHistory flt l deleted now db =
    wrapped price_wrapDB (statement flt ''InsertPriceListHistory''
      (Inr (db\<lparr> td_list_history := td_list_history db @
        [\<lparr> ls_RecordedAt = now, ls_Info = info_of l, ls_Deleted = deleted \<rparr>] \<rparr>)))"

definition recordSetOfPrice :: "faults \<Rightarrow> string \<Rightarrow> instant \<Rightarrow> price_db \<Rightarrow> error + price_db" where
  "recordSetOfPrice flt pid now db =
    (case q_GetPrice flt pid db of
      Inl e \<Rightarrow> if e = PgNoRows then Inr db else Inl (price_wrapDB e)
    | Inr p \<Rightarrow> recordSetHistory flt (px_PriceSetID p) now db)"

section \<open>Writes\<close>

fun insert_rules :: "faults \<Rightarrow> string \<Rightarrow> price_rule list \<Rightarrow> instant \<Rightarrow> price_db \<Rightarrow> error + price_db" where
  "insert_rules flt pid [] now db = Inr db"
| "insert_rules flt pid (r # rs) now db =
    and_then (wrapped price_wrapDB (q_InsertPriceRule flt (r\<lparr> xr_PriceID := pid \<rparr>) now db)) (insert_rules flt pid rs now)"

fun insertPrices :: "faults \<Rightarrow> string \<Rightarrow> price list \<Rightarrow> instant \<Rightarrow> price_db \<Rightarrow> error + price_db" where
  "insertPrices flt sid [] now db = Inr db"
| "insertPrices flt sid (p # ps) now db =
    and_then (wrapped price_wrapDB (q_InsertPrice flt (p\<lparr> px_PriceSetID := sid \<rparr>) now db)) (\<lambda>db1.
    and_then (insert_rules flt (px_ID p) (px_Rules p) now db1) (insertPrices flt sid ps now))"

definition repo_CreatePriceSet ::
    "faults \<Rightarrow> string \<Rightarrow> price list \<Rightarrow> instant \<Rightarrow> price_db \<Rightarrow> (error + unit) \<times> price_db" where
  "repo_CreatePriceSet flt sid prices now = price_inTx flt (\<lambda>db.
    and_then (wrapped price_wrapDB (q_InsertPriceSet flt sid db)) (\<lambda>db1.
    and_then (insertPrices flt sid prices now db1) (\<lambda>db2.
    and_then (recordSetHistory flt sid now db2) (\<lambda>db3. Inr ((), db3)))))"

definition replaceLocked :: "faults \<Rightarrow> string \<Rightarrow> price list \<Rightarrow> instant \<Rightarrow> price_db \<Rightarrow> error + price_db" where
  "replaceLocked flt sid prices now db =
    and_then (wrapped price_wrapDB (q_DeletePricesBySet flt sid db)) (\<lambda>db1.
    and_then (insertPrices flt sid prices now db1) (recordSetHistory flt sid now))"

definition ReplacePrices ::
    "faults \<Rightarrow> string \<Rightarrow> price list \<Rightarrow> instant \<Rightarrow> price_db \<Rightarrow> (error + unit) \<times> price_db" where
  "ReplacePrices flt sid prices now = price_inTx flt (\<lambda>db.
    and_then (wrapped (price_notFoundOr CodePriceSetNotFound) (q_GetPriceSetForUpdate flt sid db)) (\<lambda>_.
    and_then (replaceLocked flt sid prices now db) (\<lambda>db1. Inr ((), db1))))"

text \<open>The caller's function decides from the prices under the lock; it may decide to write nothing. The
  result is whether it wrote, which the callers keep in a variable of their function.\<close>

definition RevisePrices ::
    "faults \<Rightarrow> string \<Rightarrow> (price list \<Rightarrow> error + price list \<times> bool) \<Rightarrow> instant \<Rightarrow> price_db \<Rightarrow> (error + bool) \<times> price_db" where
  "RevisePrices flt sid revise now = price_inTx flt (\<lambda>db.
    and_then (wrapped (price_notFoundOr CodePriceSetNotFound) (q_GetPriceSetForUpdate flt sid db)) (\<lambda>_.
    and_then (wrapped price_wrapDB (q_ListPricesBySet flt sid db)) (\<lambda>rows.
    and_then (attachRules flt rows db) (\<lambda>current.
    and_then (revise current) (\<lambda>(next_prices, write).
      if \<not> write then Inr (False, db)
      else and_then (replaceLocked flt sid next_prices now db) (\<lambda>db1. Inr (True, db1)))))))"

definition repo_DeletePriceSet :: "faults \<Rightarrow> string \<Rightarrow> instant \<Rightarrow> price_db \<Rightarrow> (error + unit) \<times> price_db" where
  "repo_DeletePriceSet flt sid now = price_inTx flt (\<lambda>db.
    and_then (wrapped (price_notFoundOr CodePriceSetNotFound) (q_SoftDeletePriceSet flt sid db)) (\<lambda>db1.
    and_then (wrapped price_wrapDB (q_SoftDeletePricesBySet flt sid db1)) (\<lambda>db2.
    and_then (recordSetHistory flt sid now db2) (\<lambda>db3. Inr ((), db3)))))"

definition repo_CreatePriceRule :: "faults \<Rightarrow> price_rule \<Rightarrow> instant \<Rightarrow> price_db \<Rightarrow> (error + unit) \<times> price_db" where
  "repo_CreatePriceRule flt r now = price_inTx flt (\<lambda>db.
    and_then (wrapped price_wrapDB (q_InsertPriceRule flt r now db)) (\<lambda>db1.
    and_then (recordSetOfPrice flt (xr_PriceID r) now db1) (\<lambda>db2. Inr ((), db2))))"

definition repo_DeletePriceRule :: "faults \<Rightarrow> string \<Rightarrow> instant \<Rightarrow> price_db \<Rightarrow> (error + unit) \<times> price_db" where
  "repo_DeletePriceRule flt rid now = price_inTx flt (\<lambda>db.
    and_then (wrapped (price_notFoundOr CodePriceRuleNotFound) (q_GetPriceRule flt rid db)) (\<lambda>r.
    and_then (wrapped (price_notFoundOr CodePriceRuleNotFound) (q_SoftDeletePriceRule flt rid db)) (\<lambda>db1.
    and_then (recordSetOfPrice flt (xr_PriceID r) now db1) (\<lambda>db2. Inr ((), db2)))))"

definition repo_CreatePriceList :: "faults \<Rightarrow> price_list \<Rightarrow> instant \<Rightarrow> price_db \<Rightarrow> (error + price_list) \<times> price_db" where
  "repo_CreatePriceList flt l now = price_inTx flt (\<lambda>db.
    and_then (wrapped price_wrapDB (q_InsertPriceList flt l db)) (\<lambda>(row, db1).
    and_then (recordListHistory flt row False now db1) (\<lambda>db2. Inr (row, db2))))"

definition repo_UpdatePriceList :: "faults \<Rightarrow> price_list \<Rightarrow> instant \<Rightarrow> price_db \<Rightarrow> (error + price_list) \<times> price_db" where
  "repo_UpdatePriceList flt l now = price_inTx flt (\<lambda>db.
    and_then (wrapped (price_notFoundOr CodePriceListNotFound) (q_GetPriceListForUpdate flt (pl_ID l) db)) (\<lambda>_.
    and_then (wrapped (price_notFoundOr CodePriceListNotFound) (q_UpdatePriceList flt l db)) (\<lambda>(row, db1).
    and_then (recordListHistory flt row False now db1) (\<lambda>db2. Inr (row, db2)))))"

definition repo_SwitchPriceListStatus ::
    "faults \<Rightarrow> string \<Rightarrow> string \<Rightarrow> string \<Rightarrow> instant \<Rightarrow> price_db \<Rightarrow> (error + price_list \<times> bool) \<times> price_db" where
  "repo_SwitchPriceListStatus flt lid fromS toS now = price_inTx flt (\<lambda>db.
    and_then (wrapped (price_notFoundOr CodePriceListNotFound) (q_GetPriceListForUpdate flt lid db)) (\<lambda>_.
    and_then (wrapped (price_notFoundOr CodePriceListNotFound) (q_GetPriceList flt lid db)) (\<lambda>current.
      if pl_Status current \<noteq> fromS then Inr ((current, False), db)
      else
        and_then (wrapped (price_notFoundOr CodePriceListNotFound)
          (q_UpdatePriceList flt (current\<lparr> pl_Status := toS \<rparr>) db)) (\<lambda>(row, db1).
        and_then (recordListHistory flt row False now db1) (\<lambda>db2. Inr ((row, True), db2))))))"

record price_list_terms =
  plt_Title :: string
  plt_Description :: string
  plt_StartsAt :: "instant option"
  plt_EndsAt :: "instant option"

definition price_Terms :: "price_list \<Rightarrow> price_list_terms" where
  "price_Terms l = \<lparr> plt_Title = pll_Title l, plt_Description = pll_Description l,
    plt_StartsAt = pl_StartsAt l, plt_EndsAt = pl_EndsAt l \<rparr>"

definition price_Same :: "price_list_terms \<Rightarrow> price_list_terms \<Rightarrow> bool" where
  "price_Same t u \<longleftrightarrow> plt_Title t = plt_Title u \<and> plt_Description t = plt_Description u \<and>
    plt_StartsAt t = plt_StartsAt u \<and> plt_EndsAt t = plt_EndsAt u"

definition repo_RevisePriceList ::
    "faults \<Rightarrow> string \<Rightarrow> price_list_terms \<Rightarrow> price_list_terms \<Rightarrow> instant \<Rightarrow> price_db \<Rightarrow>
      (error + price_list \<times> bool) \<times> price_db" where
  "repo_RevisePriceList flt lid read_terms next_terms now = price_inTx flt (\<lambda>db.
    and_then (wrapped (price_notFoundOr CodePriceListNotFound) (q_GetPriceListForUpdate flt lid db)) (\<lambda>_.
    and_then (wrapped (price_notFoundOr CodePriceListNotFound) (q_GetPriceList flt lid db)) (\<lambda>current.
      if \<not> price_Same (price_Terms current) read_terms then Inr ((current, False), db)
      else
        and_then (wrapped (price_notFoundOr CodePriceListNotFound)
          (q_UpdatePriceList flt (current\<lparr> pll_Title := plt_Title next_terms, pll_Description := plt_Description next_terms,
            pl_StartsAt := plt_StartsAt next_terms, pl_EndsAt := plt_EndsAt next_terms \<rparr>) db)) (\<lambda>(row, db1).
        and_then (recordListHistory flt row False now db1) (\<lambda>db2. Inr ((row, True), db2))))))"

text \<open>The list is read without a lock, and its clock is read before the transaction.\<close>

definition repo_DeletePriceList :: "faults \<Rightarrow> string \<Rightarrow> instant \<Rightarrow> price_db \<Rightarrow> (error + unit) \<times> price_db" where
  "repo_DeletePriceList flt lid now = price_inTx flt (\<lambda>db.
    and_then (wrapped (price_notFoundOr CodePriceListNotFound) (q_GetPriceList flt lid db)) (\<lambda>l.
    and_then (wrapped (price_notFoundOr CodePriceListNotFound) (q_SoftDeletePriceList flt lid db)) (\<lambda>db1.
    and_then (recordListHistory flt l True now db1) (\<lambda>db2. Inr ((), db2)))))"

section \<open>Reads\<close>

definition candidate_of :: "price_db \<Rightarrow> price \<Rightarrow> price_candidate" where
  "candidate_of db p =
    \<lparr> pc_Price = p,
      pc_List = (case px_PriceListID p of None \<Rightarrow> None | Some lid \<Rightarrow> map_option info_of (live_list db lid)) \<rparr>"

definition ListPriceCandidates :: "faults \<Rightarrow> string \<Rightarrow> price_db \<Rightarrow> error + price_candidate list" where
  "ListPriceCandidates flt sid db =
    and_then (wrapped price_wrapDB (statement flt ''ListPriceCandidates'' (Inr (live_prices db sid)))) (\<lambda>rows.
    and_then (attachRules flt rows db) (\<lambda>prices. Inr (map (candidate_of db) prices)))"

text \<open>The history of sets and of lists, oldest first.\<close>

definition PriceSetHistory :: "price_db \<Rightarrow> string \<Rightarrow> price_set_snapshot list" where
  "PriceSetHistory db sid = sort_key ps_RecordedAt (filter (\<lambda>s. ps_PriceSetID s = sid) (td_set_history db))"

definition PriceListHistory :: "price_db \<Rightarrow> string list \<Rightarrow> list_history" where
  "PriceListHistory db ids =
    map (\<lambda>lid. (lid, sort_key ls_RecordedAt (filter (\<lambda>s. pl_ID (ls_Info s) = lid) (td_list_history db)))) ids"

definition named_lists :: "price_set_snapshot list \<Rightarrow> string list" where
  "named_lists sets =
    sorted_list_of_set (set (concat (map (\<lambda>s. List.map_filter px_PriceListID (ps_Prices s)) sets)))"

definition set_history :: "price_db \<Rightarrow> string \<Rightarrow> price_set_snapshot list \<times> list_history" where
  "set_history db sid =
    (let sets = PriceSetHistory db sid in (sets, PriceListHistory db (named_lists sets)))"

end
