(* ===== verification/PriceReach.thy ===== *)
theory PriceReach
  imports PriceTables
begin

text \<open>
  The states the pricing tables reach, and the invariant that ties the snapshots to the tables: when no
  write is stamped earlier than one already recorded, the last snapshot of a set is its live prices
  and the last snapshot of a list is the list.
\<close>

section \<open>Steps\<close>

definition empty_prices :: price_db where
  "empty_prices = \<lparr> td_set = [], td_price = [], td_rule = [], td_list = [], td_set_history = [], td_list_history = [] \<rparr>"

text \<open>One write of the repository, stamped \<open>now\<close>.\<close>

inductive price_step :: "instant \<Rightarrow> price_db \<Rightarrow> price_db \<Rightarrow> bool" where
  create_set: "repo_CreatePriceSet flt sid prices now db = (res, db') \<Longrightarrow> price_step now db db'"
| replace: "ReplacePrices flt sid prices now db = (res, db') \<Longrightarrow> price_step now db db'"
| revise: "RevisePrices flt sid f now db = (res, db') \<Longrightarrow> price_step now db db'"
| delete_set: "repo_DeletePriceSet flt sid now db = (res, db') \<Longrightarrow> price_step now db db'"
| create_rule: "repo_CreatePriceRule flt r now db = (res, db') \<Longrightarrow> price_step now db db'"
| delete_rule: "repo_DeletePriceRule flt rid now db = (res, db') \<Longrightarrow> price_step now db db'"
| create_list: "repo_CreatePriceList flt l now db = (res, db') \<Longrightarrow> price_step now db db'"
| update_list: "repo_UpdatePriceList flt l now db = (res, db') \<Longrightarrow> price_step now db db'"
| switch_list: "repo_SwitchPriceListStatus flt lid fromS toS now db = (res, db') \<Longrightarrow> price_step now db db'"
| revise_list: "repo_RevisePriceList flt lid t u now db = (res, db') \<Longrightarrow> price_step now db db'"
| delete_list: "repo_DeletePriceList flt lid now db = (res, db') \<Longrightarrow> price_step now db db'"

text \<open>The tables at a moment, when the stamps of the writes never go back.\<close>

inductive prices_at :: "instant \<Rightarrow> price_db \<Rightarrow> bool" where
  start: "prices_at now empty_prices"
| wrote: "prices_at past db \<Longrightarrow> past \<le> now \<Longrightarrow> price_step now db db' \<Longrightarrow> prices_at now db'"

text \<open>Writes stamped after a moment.\<close>

inductive later_writes :: "instant \<Rightarrow> price_db \<Rightarrow> price_db \<Rightarrow> bool" where
  none_yet: "later_writes at db db"
| one_more: "later_writes at db db' \<Longrightarrow> at < now \<Longrightarrow> price_step now db' db'' \<Longrightarrow> later_writes at db db''"

section \<open>What a set's snapshot holds\<close>

definition with_rules :: "price_db \<Rightarrow> price list \<Rightarrow> price list" where
  "with_rules db ps = map (\<lambda>p. p\<lparr> px_Rules := rules_of db (px_ID p) \<rparr>) ps"

definition snapshot_of :: "price_db \<Rightarrow> string \<Rightarrow> price list" where
  "snapshot_of db sid = map (fromHistoryPrice sid) (with_rules db (live_prices db sid))"

lemma filter_rules_of: "filter (\<lambda>r. xr_PriceID r = q) (rules_of db pid) = (if pid = q then rules_of db q else [])"
  by (auto simp: rules_of_def filter_map o_def filter_empty_conv intro!: filter_True)

lemma concat_single: "distinct xs \<Longrightarrow> concat (map (\<lambda>x. if x = q then f q else []) xs) = (if q \<in> set xs then f q else [])"
  by (induction xs) auto

lemma attachRules_Inr:
  assumes "attachRules flt ps db = Inr qs"
  shows "qs = with_rules db ps"
proof (cases "ps = []")
  case True
  with assms show ?thesis by (simp add: attachRules_def with_rules_def)
next
  case False
  have "filter (\<lambda>r. xr_PriceID r = px_ID p) (concat (map (rules_of db) (sorted_list_of_set (set (map px_ID ps))))) =
      rules_of db (px_ID p)" if "p \<in> set ps" for p
    using that by (simp add: filter_concat o_def filter_rules_of concat_single)
  then show ?thesis
    using assms False
    by (auto simp: attachRules_def with_rules_def q_ListPriceRulesByPrices_def statement_def split: option.splits)
qed

lemma statement_Inr_iff [simp]: "statement flt name r = Inr a \<longleftrightarrow> flt name = None \<and> r = Inr a"
  by (simp add: statement_def split: option.split)

lemma found_Inr_iff [simp]: "found r = Inr a \<longleftrightarrow> r = Some a"
  by (simp add: found_def split: option.split)

definition set_snapshot :: "string \<Rightarrow> instant \<Rightarrow> price_db \<Rightarrow> price_set_snapshot" where
  "set_snapshot sid now db = \<lparr> ps_PriceSetID = sid, ps_RecordedAt = now, ps_Prices = snapshot_of db sid \<rparr>"

lemma recordSetHistory_Inr:
  assumes "recordSetHistory flt sid now db = Inr db'"
  shows "db' = db\<lparr> td_set_history := td_set_history db @ [set_snapshot sid now db] \<rparr>"
  using assms by (auto simp: recordSetHistory_def q_ListPricesBySet_def set_snapshot_def snapshot_of_def dest!: attachRules_Inr)

lemma recordListHistory_Inr:
  assumes "recordListHistory flt l deleted now db = Inr db'"
  shows "db' = db\<lparr> td_list_history := td_list_history db @
    [\<lparr> ls_RecordedAt = now, ls_Info = info_of l, ls_Deleted = deleted \<rparr>] \<rparr>"
  using assms by (auto simp: recordListHistory_def)

lemma recordSetOfPrice_Inr:
  assumes "recordSetOfPrice flt pid now db = Inr db'"
  shows "(db' = db \<and> (\<forall>r \<in> set (td_price db). px_ID (rp_price r) = pid \<longrightarrow> rp_deleted r)) \<or>
    (\<exists>r \<in> set (td_price db). px_ID (rp_price r) = pid \<and> \<not> rp_deleted r \<and>
      db' = db\<lparr> td_set_history := td_set_history db @ [set_snapshot (px_PriceSetID (rp_price r)) now db] \<rparr>)"
  using assms
  by (force simp: recordSetOfPrice_def q_GetPrice_def statement_def found_def find_None_iff find_Some_iff
      dest!: recordSetHistory_Inr split: sum.splits option.splits if_splits)

section \<open>Writes leave the other sets alone\<close>

definition price_ids :: "price_db \<Rightarrow> string list" where
  "price_ids db = map (\<lambda>r. px_ID (rp_price r)) (td_price db)"

definition lists_ok :: "price_list_row list \<Rightarrow> bool" where
  "lists_ok rows \<longleftrightarrow> distinct (map (\<lambda>r. pl_ID (rl_list r)) rows) \<and> (\<forall>r \<in> set rows. price_list_checks (rl_list r))"

definition tables_ok :: "price_db \<Rightarrow> bool" where
  "tables_ok db \<longleftrightarrow> distinct (price_ids db) \<and> distinct (map (\<lambda>x. xr_ID (rq_rule x)) (td_rule db)) \<and>
    lists_ok (td_list db) \<and> (\<forall>r \<in> set (td_price db). price_checks (rp_price r)) \<and>
    (\<forall>x \<in> set (td_rule db). xr_PriceID (rq_rule x) \<in> set (price_ids db))"

text \<open>Only rules of prices of the set \<open>sid\<close> may differ.\<close>

lemma snapshot_other:
  assumes "td_price db' = td_price db" and "\<And>q. q \<noteq> pid \<Longrightarrow> rules_of db' q = rules_of db q"
    and "\<forall>r \<in> set (td_price db). px_ID (rp_price r) = pid \<longrightarrow> rp_deleted r \<or> px_PriceSetID (rp_price r) = sid"
    and "sid' \<noteq> sid"
  shows "snapshot_of db' sid' = snapshot_of db sid'"
proof -
  have "live_prices db' sid' = live_prices db sid'" by (simp add: live_prices_def assms(1))
  moreover have "px_ID p \<noteq> pid" if "p \<in> set (live_prices db sid')" for p
    using that assms(3,4) by (auto simp: live_prices_def)
  ultimately show ?thesis using assms(2) by (simp add: snapshot_of_def with_rules_def)
qed

lemma live_prices_snoc:
  "px_PriceSetID p \<noteq> sid \<Longrightarrow>
    live_prices (db\<lparr> td_price := td_price db @ [\<lparr> rp_price = p, rp_created = now, rp_deleted = False \<rparr>] \<rparr>) sid = live_prices db sid"
  by (simp add: live_prices_def)

lemma rules_of_cong: "td_rule db' = td_rule db \<Longrightarrow> rules_of db' = rules_of db"
  by (simp add: rules_of_def fun_eq_iff)

definition rest_kept :: "price_db \<Rightarrow> price_db \<Rightarrow> bool" where
  "rest_kept db db' \<longleftrightarrow> td_list db' = td_list db \<and> td_set_history db' = td_set_history db \<and>
    td_list_history db' = td_list_history db"

lemma insert_price_keeps:
  assumes "q_InsertPrice flt p now db = Inr db'" "tables_ok db"
  shows "tables_ok db' \<and> rest_kept db db' \<and> (\<forall>sid. sid \<noteq> px_PriceSetID p \<longrightarrow> snapshot_of db' sid = snapshot_of db sid) \<and>
    (\<forall>r \<in> set (td_price db'). px_ID (rp_price r) = px_ID p \<longrightarrow> px_PriceSetID (rp_price r) = px_PriceSetID p)"
proof -
  have new: "db' = db\<lparr> td_price := td_price db @ [\<lparr> rp_price = p\<lparr> px_Rules := [] \<rparr>, rp_created = now, rp_deleted = False \<rparr>] \<rparr>"
    "price_checks p" "px_ID p \<notin> set (price_ids db)"
    using assms(1) by (auto simp: q_InsertPrice_def list_ex_iff price_ids_def split: if_splits)
  have "price_checks (p\<lparr> px_Rules := [] \<rparr>)" using new(2) by (auto simp: price_checks_def split: option.splits)
  then have "tables_ok db'" using assms(2) new(3) by (auto simp: new(1) tables_ok_def price_ids_def)
  moreover have "snapshot_of db' sid = snapshot_of db sid" if "sid \<noteq> px_PriceSetID p" for sid
    using that live_prices_snoc [of "p\<lparr> px_Rules := [] \<rparr>" sid db now]
    by (simp add: snapshot_of_def with_rules_def new(1) rules_of_cong [of "db\<lparr> td_price := _ \<rparr>" db])
  moreover have "\<forall>r \<in> set (td_price db). px_ID (rp_price r) \<noteq> px_ID p" using new(3) by (force simp: price_ids_def)
  ultimately show ?thesis by (auto simp: new(1) rest_kept_def)
qed

lemma insert_rule_keeps:
  assumes "q_InsertPriceRule flt r now db = Inr db'" "tables_ok db"
  shows "tables_ok db' \<and> rest_kept db db' \<and> td_price db' = td_price db \<and>
    (\<forall>q. q \<noteq> xr_PriceID r \<longrightarrow> rules_of db' q = rules_of db q)"
proof -
  have "xr_ID r \<notin> set (map (\<lambda>x. xr_ID (rq_rule x)) (td_rule db))" "xr_PriceID r \<in> set (price_ids db)"
    and "db' = db\<lparr> td_rule := td_rule db @ [\<lparr> rq_rule = r, rq_created = now, rq_deleted = False \<rparr>] \<rparr>"
    using assms(1) by (force simp: q_InsertPriceRule_def list_ex_iff price_ids_def split: if_splits)+
  then show ?thesis
    using assms(2) by (simp add: tables_ok_def rest_kept_def price_ids_def rules_of_def)
qed

lemma insert_rules_keeps:
  "insert_rules flt pid rs now db = Inr db' \<Longrightarrow> tables_ok db \<Longrightarrow>
    tables_ok db' \<and> rest_kept db db' \<and> td_price db' = td_price db \<and> (\<forall>q. q \<noteq> pid \<longrightarrow> rules_of db' q = rules_of db q)"
proof (induction rs arbitrary: db)
  case (Cons r rs)
  then obtain db1 where 1: "q_InsertPriceRule flt (r\<lparr> xr_PriceID := pid \<rparr>) now db = Inr db1"
    "insert_rules flt pid rs now db1 = Inr db'" by auto
  from insert_rule_keeps [OF 1(1) Cons.prems(2)] Cons.IH [OF 1(2)] show ?case by (simp add: rest_kept_def)
qed (simp add: rest_kept_def)

lemma insertPrices_keeps:
  "insertPrices flt sid ps now db = Inr db' \<Longrightarrow> tables_ok db \<Longrightarrow>
    tables_ok db' \<and> rest_kept db db' \<and> (\<forall>s. s \<noteq> sid \<longrightarrow> snapshot_of db' s = snapshot_of db s)"
proof (induction ps arbitrary: db)
  case (Cons p ps)
  then obtain db1 db2 where 1: "q_InsertPrice flt (p\<lparr> px_PriceSetID := sid \<rparr>) now db = Inr db1"
    "insert_rules flt (px_ID p) (px_Rules p) now db1 = Inr db2" "insertPrices flt sid ps now db2 = Inr db'" by auto
  note k1 = insert_price_keeps [OF 1(1) Cons.prems(2)]
  then have k2: "tables_ok db2 \<and> rest_kept db1 db2 \<and> td_price db2 = td_price db1 \<and>
      (\<forall>q. q \<noteq> px_ID p \<longrightarrow> rules_of db2 q = rules_of db1 q)"
    using insert_rules_keeps [OF 1(2)] by blast
  have "snapshot_of db2 s = snapshot_of db1 s" if "s \<noteq> sid" for s
    using k1 k2 that by (intro snapshot_other [of _ _ "px_ID p" sid]) auto
  with k1 k2 Cons.IH [OF 1(3)] show ?case by (simp add: rest_kept_def)
qed (simp add: rest_kept_def)

lemma replaceLocked_keeps:
  assumes "replaceLocked flt sid ps now db = Inr db'" "tables_ok db"
  shows "\<exists>db1. db' = db1\<lparr> td_set_history := td_set_history db1 @ [set_snapshot sid now db1] \<rparr> \<and>
    tables_ok db1 \<and> rest_kept db db1 \<and> (\<forall>s. s \<noteq> sid \<longrightarrow> snapshot_of db1 s = snapshot_of db s)"
proof -
  let ?gone = "gone_prices db sid"
  define db0 where "db0 = db\<lparr> td_price := filter (\<lambda>r. \<not> (px_PriceSetID (rp_price r) = sid \<and> \<not> rp_deleted r)) (td_price db),
    td_rule := filter (\<lambda>x. xr_PriceID (rq_rule x) \<notin> ?gone) (td_rule db) \<rparr>"
  obtain db1 where 1: "insertPrices flt sid ps now db0 = Inr db1" "recordSetHistory flt sid now db1 = Inr db'"
    using assms(1) by (auto simp: replaceLocked_def q_DeletePricesBySet_def db0_def)
  have "q \<in> set (price_ids db0)" if "q \<in> set (price_ids db)" "q \<notin> ?gone" for q
    using that by (fastforce simp: db0_def price_ids_def gone_prices_def)
  then have "\<forall>x \<in> set (td_rule db0). xr_PriceID (rq_rule x) \<in> set (price_ids db0)"
    using assms(2) by (auto simp: tables_ok_def db0_def)
  then have ok0: "tables_ok db0"
    using assms(2) by (auto simp: tables_ok_def db0_def price_ids_def intro: distinct_map_filter)
  have "snapshot_of db0 s = snapshot_of db s" if "s \<noteq> sid" for s
  proof -
    have "filter (\<lambda>r. px_PriceSetID (rp_price r) = s \<and> \<not> rp_deleted r) (td_price db0) =
        filter (\<lambda>r. px_PriceSetID (rp_price r) = s \<and> \<not> rp_deleted r) (td_price db)"
      using that by (auto simp: db0_def intro!: filter_cong)
    then have live: "live_prices db0 s = live_prices db s" by (simp add: live_prices_def)
    have "px_ID p \<notin> ?gone" if mem: "p \<in> set (live_prices db s)" for p
    proof
      assume "px_ID p \<in> ?gone"
      then obtain r where r: "r \<in> set (td_price db)" "px_ID (rp_price r) = px_ID p" "px_PriceSetID (rp_price r) = sid"
        by (auto simp: gone_prices_def)
      obtain r' where "r' \<in> set (td_price db)" "rp_price r' = p" "px_PriceSetID p = s"
        using mem by (auto simp: live_prices_def)
      then show False
        using r assms(2) \<open>s \<noteq> sid\<close> by (auto simp: tables_ok_def price_ids_def distinct_map inj_on_def)
    qed
    then have "rules_of db0 (px_ID p) = rules_of db (px_ID p)" if "p \<in> set (live_prices db s)" for p
    proof -
      have "px_ID p \<notin> ?gone" using that \<open>\<And>p. p \<in> set (live_prices db s) \<Longrightarrow> px_ID p \<notin> ?gone\<close> by blast
      then have "filter (\<lambda>r. xr_PriceID (rq_rule r) = px_ID p \<and> \<not> rq_deleted r) (td_rule db0) =
          filter (\<lambda>r. xr_PriceID (rq_rule r) = px_ID p \<and> \<not> rq_deleted r) (td_rule db)"
        by (auto simp: db0_def intro!: filter_cong)
      then show ?thesis by (simp add: rules_of_def)
    qed
    then show ?thesis by (simp add: snapshot_of_def with_rules_def live)
  qed
  moreover have "rest_kept db db0" by (simp add: rest_kept_def db0_def)
  ultimately show ?thesis
    using insertPrices_keeps [OF 1(1) ok0] recordSetHistory_Inr [OF 1(2)]
    by (intro exI [of _ db1]) (simp add: rest_kept_def)
qed


section \<open>The invariant\<close>

definition listed :: "price_db \<Rightarrow> string \<Rightarrow> price_list_info option" where
  "listed db lid = map_option info_of (live_list db lid)"

definition last_set :: "price_db \<Rightarrow> string \<Rightarrow> price list" where
  "last_set db sid =
    (let ss = filter (\<lambda>s. ps_PriceSetID s = sid) (td_set_history db) in if ss = [] then [] else ps_Prices (List.last ss))"

definition last_listed :: "price_db \<Rightarrow> string \<Rightarrow> price_list_info option" where
  "last_listed db lid =
    (let ss = filter (\<lambda>s. pl_ID (ls_Info s) = lid) (td_list_history db) in
     if ss = [] \<or> ls_Deleted (List.last ss) then None else Some (ls_Info (List.last ss)))"

definition stamped :: "instant \<Rightarrow> price_db \<Rightarrow> bool" where
  "stamped now db \<longleftrightarrow> sorted (map ps_RecordedAt (td_set_history db)) \<and> sorted (map ls_RecordedAt (td_list_history db)) \<and>
    (\<forall>s \<in> set (td_set_history db). ps_RecordedAt s \<le> now) \<and> (\<forall>s \<in> set (td_list_history db). ls_RecordedAt s \<le> now)"

definition in_step :: "price_db \<Rightarrow> bool" where
  "in_step db \<longleftrightarrow> tables_ok db \<and> (\<forall>sid. snapshot_of db sid = last_set db sid) \<and> (\<forall>lid. listed db lid = last_listed db lid)"

lemma stamped_later: "stamped past db \<Longrightarrow> past \<le> now \<Longrightarrow> stamped now db"
  by (auto simp: stamped_def)

lemma listed_cong: "td_list db' = td_list db \<Longrightarrow> listed db' lid = listed db lid"
  by (simp add: listed_def live_list_def)

text \<open>Only snapshots stamped \<open>now\<close> are added.\<close>

definition grew :: "instant \<Rightarrow> price_db \<Rightarrow> price_db \<Rightarrow> bool" where
  "grew now db db' \<longleftrightarrow>
    (\<exists>xs. td_set_history db' = td_set_history db @ xs \<and> (\<forall>x \<in> set xs. ps_RecordedAt x = now)) \<and>
    (\<exists>ys. td_list_history db' = td_list_history db @ ys \<and> (\<forall>y \<in> set ys. ls_RecordedAt y = now))"

lemma grew_refl [simp]: "grew now db db"
  by (simp add: grew_def)

lemma sorted_same_stamp: "\<forall>z \<in> set zs. f z = (now :: instant) \<Longrightarrow> sorted (map f zs)"
  by (induction zs) auto

lemma stamped_grew:
  assumes "stamped now db" "grew now db db'"
  shows "stamped now db'"
proof -
  obtain xs ys where "td_set_history db' = td_set_history db @ xs" and x: "\<forall>x \<in> set xs. ps_RecordedAt x = now"
    and "td_list_history db' = td_list_history db @ ys" and y: "\<forall>y \<in> set ys. ls_RecordedAt y = now"
    using assms(2) by (auto simp: grew_def)
  then show ?thesis
    using assms(1) sorted_same_stamp [OF x] sorted_same_stamp [OF y] by (auto simp: stamped_def sorted_append)
qed

text \<open>The three ways a write changes the tables.\<close>

lemma set_recorded:
  assumes "in_step db" "tables_ok db1" "rest_kept db db1" "\<forall>s. s \<noteq> sid \<longrightarrow> snapshot_of db1 s = snapshot_of db s"
    and "db' = db1\<lparr> td_set_history := td_set_history db1 @ [set_snapshot sid now db1] \<rparr>"
  shows "in_step db' \<and> grew now db db'"
proof -
  have snap: "snapshot_of db' = snapshot_of db1"
    by (simp add: assms(5) snapshot_of_def with_rules_def live_prices_def rules_of_def fun_eq_iff)
  have "tables_ok db'" using assms(2) by (simp add: assms(5) tables_ok_def price_ids_def)
  moreover have "snapshot_of db' s = last_set db' s" for s
  proof (cases "s = sid")
    case True
    have "last_set db' sid = snapshot_of db1 sid" by (simp add: last_set_def assms(5) set_snapshot_def Let_def)
    then show ?thesis using True by (simp add: snap)
  next
    case False
    then have "last_set db' s = last_set db s"
      using assms(3) by (simp add: last_set_def assms(5) set_snapshot_def rest_kept_def)
    then show ?thesis using False assms(1,4) by (simp add: snap in_step_def)
  qed
  moreover have "listed db' lid = last_listed db' lid" for lid
    using assms(1,3) listed_cong [of db' db] by (simp add: in_step_def last_listed_def rest_kept_def assms(5))
  ultimately show ?thesis
    using assms(3) by (auto simp: in_step_def grew_def rest_kept_def assms(5) set_snapshot_def)
qed

lemma nothing_recorded:
  assumes "in_step db" "tables_ok db'" "rest_kept db db'" "\<forall>s. snapshot_of db' s = snapshot_of db s"
  shows "in_step db' \<and> grew now db db'"
  using assms listed_cong [of db' db]
  by (simp add: in_step_def grew_def rest_kept_def last_set_def last_listed_def)

lemma list_recorded:
  assumes "in_step db" "lists_ok (td_list db')"
    and "td_price db' = td_price db" "td_rule db' = td_rule db" "td_set_history db' = td_set_history db"
    and "td_list_history db' = td_list_history db @ [\<lparr> ls_RecordedAt = now, ls_Info = info_of l, ls_Deleted = gone \<rparr>]"
    and "\<forall>q. live_list db' q = (if q = pl_ID l then (if gone then None else Some l) else live_list db q)"
  shows "in_step db' \<and> grew now db db'"
proof -
  have "snapshot_of db' = snapshot_of db"
    using assms(3,4) by (simp add: snapshot_of_def with_rules_def live_prices_def rules_of_def fun_eq_iff)
  moreover have "listed db' lid = last_listed db' lid" for lid
    using assms(1,6,7) by (auto simp: listed_def in_step_def last_listed_def info_of_def)
  moreover have "tables_ok db'" using assms(1,2,3,4) by (simp add: in_step_def tables_ok_def price_ids_def)
  ultimately show ?thesis
    using assms(1,5,6) by (auto simp: in_step_def grew_def last_set_def)
qed

lemma live_list_id: "live_list db lid = Some l \<Longrightarrow> pl_ID l = lid"
  by (auto simp: live_list_def find_Some_iff)

lemma live_list_update:
  assumes "live_list db (pl_ID l) = Some old"
  shows "live_list (db\<lparr> td_list := map (\<lambda>r. if pl_ID (rl_list r) = pl_ID l then r\<lparr> rl_list := l \<rparr> else r) (td_list db) \<rparr>) q =
    (if q = pl_ID l then Some l else live_list db q)"
proof -
  have "map_option rl_list (find (\<lambda>r. pl_ID (rl_list r) = q \<and> \<not> rl_deleted r)
      (map (\<lambda>r. if pl_ID (rl_list r) = pl_ID l then r\<lparr> rl_list := l \<rparr> else r) rows)) =
    (if q = pl_ID l then map_option (\<lambda>_. l) (find (\<lambda>r. pl_ID (rl_list r) = q \<and> \<not> rl_deleted r) rows)
     else map_option rl_list (find (\<lambda>r. pl_ID (rl_list r) = q \<and> \<not> rl_deleted r) rows))" for rows
    by (induction rows) auto
  from this [of "td_list db"] show ?thesis using assms unfolding live_list_def
    by (cases "q = pl_ID l") auto
qed

lemma live_list_delete:
  "live_list (db\<lparr> td_list := map (\<lambda>r. if pl_ID (rl_list r) = lid then r\<lparr> rl_deleted := True \<rparr> else r) (td_list db) \<rparr>) q =
    (if q = lid then None else live_list db q)"
proof -
  have "map_option rl_list (find (\<lambda>r. pl_ID (rl_list r) = q \<and> \<not> rl_deleted r)
      (map (\<lambda>r. if pl_ID (rl_list r) = lid then r\<lparr> rl_deleted := True \<rparr> else r) rows)) =
    (if q = lid then None else map_option rl_list (find (\<lambda>r. pl_ID (rl_list r) = q \<and> \<not> rl_deleted r) rows))" for rows
    by (induction rows) auto
  from this [of "td_list db"] show ?thesis unfolding live_list_def by (cases "q = lid") simp_all
qed

lemma live_list_insert:
  assumes "\<not> list_ex (\<lambda>r. pl_ID (rl_list r) = pl_ID l) (td_list db)"
  shows "live_list (db\<lparr> td_list := td_list db @ [\<lparr> rl_list = l, rl_deleted = False \<rparr>] \<rparr>) q =
    (if q = pl_ID l then Some l else live_list db q)"
proof -
  have "find P (xs @ [y]) = (case find P xs of Some x \<Rightarrow> Some x | None \<Rightarrow> if P y then Some y else None)" for P xs and y :: price_list_row
    by (induction xs) auto
  moreover have "find (\<lambda>r. pl_ID (rl_list r) = pl_ID l \<and> \<not> rl_deleted r) (td_list db) = None"
    using assms by (auto simp: find_None_iff list_ex_iff)
  ultimately show ?thesis by (auto simp: live_list_def split: option.split)
qed


section \<open>Every write keeps it\<close>

lemma price_inTx_after:
  "price_inTx flt body db = (res, db') \<Longrightarrow> db' = db \<or> (\<exists>a. body db = Inr (a, db'))"
  by (auto simp: price_inTx_def transact_def split: option.splits sum.splits if_splits)

lemma ledger_like:
  assumes "price_inTx flt body db = (res, db')" "in_step db"
    and "\<And>a db'. body db = Inr (a, db') \<Longrightarrow> in_step db' \<and> grew now db db'"
  shows "in_step db' \<and> grew now db db'"
  using price_inTx_after [OF assms(1)] assms(2,3) grew_refl by blast

lemma rule_recorded:
  assumes "in_step db" "tables_ok db1" "rest_kept db db1" "td_price db1 = td_price db"
    and "\<And>q. q \<noteq> pid \<Longrightarrow> rules_of db1 q = rules_of db q" "recordSetOfPrice flt pid now db1 = Inr db'"
  shows "in_step db' \<and> grew now db db'"
  using recordSetOfPrice_Inr [OF assms(6)]
proof (elim disjE conjE bexE)
  assume "db' = db1" and gone: "\<forall>r \<in> set (td_price db1). px_ID (rp_price r) = pid \<longrightarrow> rp_deleted r"
  have "snapshot_of db1 s = snapshot_of db s" for s
    by (rule snapshot_other [OF assms(4,5), where sid = "CHR ''x'' # s"]) (use gone assms(4) in auto)
  with \<open>db' = db1\<close> show ?thesis using assms(1,2,3) nothing_recorded by blast
next
  fix r assume r: "r \<in> set (td_price db1)" "px_ID (rp_price r) = pid" "\<not> rp_deleted r"
    and db': "db' = db1\<lparr> td_set_history := td_set_history db1 @ [set_snapshot (px_PriceSetID (rp_price r)) now db1] \<rparr>"
  have "r' = r" if "r' \<in> set (td_price db)" "px_ID (rp_price r') = pid" for r'
    using that r assms(1,4) by (auto simp: in_step_def tables_ok_def price_ids_def distinct_map inj_on_def)
  then have "\<forall>s. s \<noteq> px_PriceSetID (rp_price r) \<longrightarrow> snapshot_of db1 s = snapshot_of db s"
    using snapshot_other [OF assms(4,5), where sid = "px_PriceSetID (rp_price r)"] by blast
  then show ?thesis using set_recorded [OF assms(1,2,3) _ db'] by blast
qed

lemma replaced_in_step:
  assumes "in_step db" "replaceLocked flt sid ps now db = Inr db'"
  shows "in_step db' \<and> grew now db db'"
proof -
  have "tables_ok db" using assms(1) by (simp add: in_step_def)
  from replaceLocked_keeps [OF assms(2) this] show ?thesis using set_recorded [OF assms(1)] by blast
qed

lemma created_in_step:
  assumes "in_step db" "q_InsertPriceSet flt sid db = Inr db1"
    and "insertPrices flt sid prices now db1 = Inr db2" "recordSetHistory flt sid now db2 = Inr db'"
  shows "in_step db' \<and> grew now db db'"
proof -
  have db1: "db1 = db\<lparr> td_set := td_set db @ [\<lparr> rs_ID = sid, rs_deleted = False \<rparr>] \<rparr>"
    using assms(2) by (auto simp: q_InsertPriceSet_def split: if_splits)
  have "tables_ok db1" using assms(1) by (simp add: db1 in_step_def tables_ok_def price_ids_def)
  moreover have "snapshot_of db1 = snapshot_of db"
    by (simp add: db1 snapshot_of_def with_rules_def live_prices_def rules_of_def fun_eq_iff)
  ultimately have kept: "tables_ok db2 \<and> rest_kept db1 db2 \<and> (\<forall>s. s \<noteq> sid \<longrightarrow> snapshot_of db2 s = snapshot_of db s)"
    using insertPrices_keeps [OF assms(3)] by metis
  moreover have "rest_kept db db2" using kept by (simp add: rest_kept_def db1)
  ultimately show ?thesis using set_recorded [OF assms(1) _ _ _ recordSetHistory_Inr [OF assms(4)]] by blast
qed

lemma deleted_set_in_step:
  assumes "in_step db" "q_SoftDeletePriceSet flt sid db = Inr db1"
    and "q_SoftDeletePricesBySet flt sid db1 = Inr db2" "recordSetHistory flt sid now db2 = Inr db'"
  shows "in_step db' \<and> grew now db db'"
proof -
  have db2: "td_price db2 = map (\<lambda>r. if px_PriceSetID (rp_price r) = sid then r\<lparr> rp_deleted := True \<rparr> else r) (td_price db)"
    "td_rule db2 = td_rule db" "rest_kept db db2"
    using assms(2,3) by (auto simp: q_SoftDeletePriceSet_def q_SoftDeletePricesBySet_def rest_kept_def split: option.splits)
  have "map rp_price (td_price db2) = map rp_price (td_price db)" by (simp add: db2(1) o_def if_distrib cong: if_cong)
  moreover have "price_ids d = map px_ID (map rp_price (td_price d))" "rp_price ` set (td_price d) = set (map rp_price (td_price d))" for d
    by (simp_all add: price_ids_def)
  ultimately have "price_ids db2 = price_ids db" "rp_price ` set (td_price db2) = rp_price ` set (td_price db)" by presburger+
  then have "tables_ok db2"
    using assms(1) db2(2,3) by (auto simp: in_step_def tables_ok_def rest_kept_def) (metis imageE imageI)
  moreover have "snapshot_of db2 s = snapshot_of db s" if "s \<noteq> sid" for s
  proof -
    have "filter (\<lambda>r. px_PriceSetID (rp_price r) = s \<and> \<not> rp_deleted r)
        (map (\<lambda>r. if px_PriceSetID (rp_price r) = sid then r\<lparr> rp_deleted := True \<rparr> else r) rows) =
        filter (\<lambda>r. px_PriceSetID (rp_price r) = s \<and> \<not> rp_deleted r) rows" for rows
      using that by (induction rows) auto
    from this [of "td_price db"]
    have "filter (\<lambda>r. px_PriceSetID (rp_price r) = s \<and> \<not> rp_deleted r) (td_price db2) =
        filter (\<lambda>r. px_PriceSetID (rp_price r) = s \<and> \<not> rp_deleted r) (td_price db)"
      by (simp add: db2(1))
    then show ?thesis by (simp add: snapshot_of_def with_rules_def live_prices_def rules_of_def db2(2))
  qed
  ultimately show ?thesis
    using set_recorded [OF assms(1) _ db2(3) _ recordSetHistory_Inr [OF assms(4)]] by blast
qed

lemma updated_list_in_step:
  assumes "in_step db" "q_UpdatePriceList flt l db = Inr (row, db1)"
    and "recordListHistory flt row False now db1 = Inr db'"
  shows "in_step db' \<and> grew now db db'"
proof -
  obtain old where old: "live_list db (pl_ID l) = Some old" "row = l" and checked: "price_list_checks l"
    and db1: "db1 = db\<lparr> td_list := map (\<lambda>r. if pl_ID (rl_list r) = pl_ID l then r\<lparr> rl_list := l \<rparr> else r) (td_list db) \<rparr>"
    using assms(2) by (auto simp: q_UpdatePriceList_def split: option.splits if_splits)
  have ids: "map (\<lambda>r. pl_ID (rl_list r)) (td_list db1) = map (\<lambda>r. pl_ID (rl_list r)) (td_list db)" by (simp add: db1)
  have "lists_ok (td_list db1)"
    unfolding lists_ok_def ids using assms(1) checked by (auto simp: in_step_def tables_ok_def lists_ok_def db1)
  moreover have "live_list db' q = live_list db1 q" for q
    by (simp add: recordListHistory_Inr [OF assms(3)] live_list_def)
  ultimately show ?thesis
    using old live_list_update [OF old(1)] recordListHistory_Inr [OF assms(3)]
    by (intro list_recorded [OF assms(1), where l = l and gone = False]) (simp_all add: db1)
qed

lemma deleted_rule_in_step:
  assumes "in_step db" "live_price_rule db rid = Some r" "q_SoftDeletePriceRule flt rid db = Inr db1"
    and "recordSetOfPrice flt (xr_PriceID r) now db1 = Inr db'"
  shows "in_step db' \<and> grew now db db'"
proof -
  have db1: "db1 = db\<lparr> td_rule := map (\<lambda>x. if xr_ID (rq_rule x) = rid then x\<lparr> rq_deleted := True \<rparr> else x) (td_rule db) \<rparr>"
    using assms(2,3) by (auto simp: q_SoftDeletePriceRule_def)
  obtain x where x: "x \<in> set (td_rule db)" "xr_ID (rq_rule x) = rid" "rq_rule x = r"
    using assms(2) by (auto simp: live_price_rule_def find_Some_iff intro: nth_mem)
  have "rules_of db1 q = rules_of db q" if "q \<noteq> xr_PriceID r" for q
  proof -
    have other: "xr_PriceID (rq_rule y) \<noteq> q" if "y \<in> set (td_rule db)" "xr_ID (rq_rule y) = rid" for y
    proof -
      have "y = x" using that x assms(1) by (auto simp: in_step_def tables_ok_def distinct_map inj_on_def)
      then show ?thesis using x(3) \<open>q \<noteq> xr_PriceID r\<close> by simp
    qed
    have "filter (\<lambda>x. xr_PriceID (rq_rule x) = q \<and> \<not> rq_deleted x)
        (map (\<lambda>x. if xr_ID (rq_rule x) = rid then x\<lparr> rq_deleted := True \<rparr> else x) rows) =
        filter (\<lambda>x. xr_PriceID (rq_rule x) = q \<and> \<not> rq_deleted x) rows" if "set rows \<subseteq> set (td_rule db)" for rows
      using that by (induction rows) (use other in auto)
    from this [of "td_rule db"] show ?thesis by (simp add: rules_of_def db1)
  qed
  moreover have same: "map (\<lambda>x. xr_ID (rq_rule x)) (td_rule db1) = map (\<lambda>x. xr_ID (rq_rule x)) (td_rule db)" by (simp add: db1)
  have "tables_ok db1" unfolding tables_ok_def same using assms(1) by (auto simp: in_step_def tables_ok_def price_ids_def db1)
  ultimately show ?thesis
    by (intro rule_recorded [OF assms(1) _ _ _ _ assms(4)]) (simp_all add: rest_kept_def db1)
qed

lemma created_rule_in_step:
  assumes "in_step db" "q_InsertPriceRule flt r now db = Inr db1"
    and "recordSetOfPrice flt (xr_PriceID r) now db1 = Inr db'"
  shows "in_step db' \<and> grew now db db'"
proof -
  have "tables_ok db" using assms(1) by (simp add: in_step_def)
  from insert_rule_keeps [OF assms(2) this] show ?thesis
    by (intro rule_recorded [OF assms(1) _ _ _ _ assms(3)]) simp_all
qed

lemma created_list_in_step:
  assumes "in_step db" "q_InsertPriceList flt l db = Inr (row, db1)"
    and "recordListHistory flt row False now db1 = Inr db'"
  shows "in_step db' \<and> grew now db db'"
proof -
  have row: "row = l" and fresh: "\<not> list_ex (\<lambda>r. pl_ID (rl_list r) = pl_ID l) (td_list db)"
    and checked: "price_list_checks l" and db1: "db1 = db\<lparr> td_list := td_list db @ [\<lparr> rl_list = l, rl_deleted = False \<rparr>] \<rparr>"
    using assms(2) by (auto simp: q_InsertPriceList_def split: if_splits)
  have "lists_ok (td_list db1)"
    using assms(1) fresh checked by (force simp: db1 in_step_def tables_ok_def lists_ok_def list_ex_iff)
  moreover have "live_list db' q = live_list db1 q" for q
    by (simp add: recordListHistory_Inr [OF assms(3)] live_list_def)
  ultimately show ?thesis
    using row live_list_insert [OF fresh] recordListHistory_Inr [OF assms(3)]
    by (intro list_recorded [OF assms(1), where l = l and gone = False]) (simp_all add: db1)
qed

lemma deleted_list_in_step:
  assumes "in_step db" "live_list db lid = Some l" "q_SoftDeletePriceList flt lid db = Inr db1"
    and "recordListHistory flt l True now db1 = Inr db'"
  shows "in_step db' \<and> grew now db db'"
proof -
  have db1: "db1 = db\<lparr> td_list := map (\<lambda>r. if pl_ID (rl_list r) = lid then r\<lparr> rl_deleted := True \<rparr> else r) (td_list db) \<rparr>"
    using assms(2,3) by (auto simp: q_SoftDeletePriceList_def)
  have ids: "map (\<lambda>r. pl_ID (rl_list r)) (td_list db1) = map (\<lambda>r. pl_ID (rl_list r)) (td_list db)" by (simp add: db1)
  have "lists_ok (td_list db1)"
    unfolding lists_ok_def ids using assms(1) by (auto simp: in_step_def tables_ok_def lists_ok_def db1)
  moreover have "live_list db' q = live_list db1 q" for q
    by (simp add: recordListHistory_Inr [OF assms(4)] live_list_def)
  ultimately show ?thesis
    using live_list_id [OF assms(2)] live_list_delete recordListHistory_Inr [OF assms(4)]
    by (intro list_recorded [OF assms(1), where l = l and gone = True]) (simp_all add: db1)
qed

lemma price_step_in_step:
  assumes "price_step now db db'" "in_step db"
  shows "in_step db' \<and> grew now db db'"
  using assms
proof (cases rule: price_step.cases)
  case (create_set flt sid prices res)
  show ?thesis
    by (rule ledger_like [OF create_set [unfolded repo_CreatePriceSet_def] assms(2)])
      (auto dest: created_in_step [OF assms(2)])
next
  case (replace flt sid prices res)
  show ?thesis
    by (rule ledger_like [OF replace [unfolded ReplacePrices_def] assms(2)])
      (auto dest: replaced_in_step [OF assms(2)])
next
  case (revise flt sid f res)
  show ?thesis
    by (rule ledger_like [OF revise [unfolded RevisePrices_def] assms(2)])
      (use assms(2) in \<open>auto dest: replaced_in_step [OF assms(2)] split: if_splits\<close>)
next
  case (delete_set flt sid res)
  show ?thesis
    by (rule ledger_like [OF delete_set [unfolded repo_DeletePriceSet_def] assms(2)])
      (auto dest: deleted_set_in_step [OF assms(2)])
next
  case (create_rule flt r res)
  show ?thesis
    by (rule ledger_like [OF create_rule [unfolded repo_CreatePriceRule_def] assms(2)])
      (auto dest: created_rule_in_step [OF assms(2)])
next
  case (delete_rule flt rid res)
  show ?thesis
    by (rule ledger_like [OF delete_rule [unfolded repo_DeletePriceRule_def] assms(2)])
      (auto simp: q_GetPriceRule_def dest: deleted_rule_in_step [OF assms(2)])
next
  case (create_list flt l res)
  show ?thesis
    by (rule ledger_like [OF create_list [unfolded repo_CreatePriceList_def] assms(2)])
      (auto dest: created_list_in_step [OF assms(2)])
next
  case (update_list flt l res)
  show ?thesis
    by (rule ledger_like [OF update_list [unfolded repo_UpdatePriceList_def] assms(2)])
      (auto dest: updated_list_in_step [OF assms(2)])
next
  case (switch_list flt lid fromS toS res)
  show ?thesis
    by (rule ledger_like [OF switch_list [unfolded repo_SwitchPriceListStatus_def] assms(2)])
      (use assms(2) in \<open>auto dest: updated_list_in_step [OF assms(2)] split: if_splits\<close>)
next
  case (revise_list flt lid t u res)
  show ?thesis
    by (rule ledger_like [OF revise_list [unfolded repo_RevisePriceList_def] assms(2)])
      (use assms(2) in \<open>auto dest: updated_list_in_step [OF assms(2)] split: if_splits\<close>)
next
  case (delete_list flt lid res)
  show ?thesis
    by (rule ledger_like [OF delete_list [unfolded repo_DeletePriceList_def] assms(2)])
      (auto simp: q_GetPriceList_def dest: deleted_list_in_step [OF assms(2)])
qed

lemma empty_in_step: "in_step empty_prices" "stamped now empty_prices"
  by (simp_all add: in_step_def stamped_def empty_prices_def tables_ok_def lists_ok_def price_ids_def snapshot_of_def with_rules_def
      live_prices_def last_set_def listed_def last_listed_def live_list_def)

lemma prices_at_in_step: "prices_at now db \<Longrightarrow> in_step db \<and> stamped now db"
proof (induction rule: prices_at.induct)
  case (wrote past db now db')
  then show ?case using price_step_in_step stamped_later stamped_grew by blast
qed (simp add: empty_in_step)

end
