(* ===== verification/PriceRecord.thy ===== *)
theory PriceRecord
  imports PriceReach PriceTimeline
begin

text \<open>
  What the snapshots tell: at any instant after the last write a set was stamped with, the ladder run on
  the history gives the price the ladder gives on the live tables, whatever is written later.
\<close>

section \<open>The standing snapshot of a sorted history\<close>

lemma sort_key_front:
  assumes "sorted (map f xs)" "\<forall>x \<in> set xs. \<forall>y \<in> set ys. f x \<le> f y"
  shows "sort_key f (xs @ ys) = xs @ sort_key f ys"
  using assms
proof (induction xs)
  case (Cons x xs)
  then have "\<forall>y \<in> set (xs @ sort_key f ys). f x \<le> f y" by auto
  then show ?case using Cons insort_is_Cons [of "xs @ sort_key f ys" f x] by simp
qed simp

lemma standing_front: "\<forall>x \<in> set xs. recorded x \<le> at \<Longrightarrow>
    standing recorded at start (xs @ ys) = standing recorded at (if xs = [] then start else Some (List.last xs)) ys"
  by (induction xs arbitrary: start) auto

lemma standing_later: "\<forall>y \<in> set ys. recorded y > at \<Longrightarrow> standing recorded at start ys = start"
  by (cases ys) auto

lemma standing_history:
  assumes "sorted (map recorded xs)" "\<forall>x \<in> set xs. recorded x \<le> at" "\<forall>y \<in> set ys. recorded y > at"
  shows "standing recorded at None (sort_key recorded (xs @ ys)) = (if xs = [] then None else Some (List.last xs))"
proof -
  have "sort_key recorded (xs @ ys) = xs @ sort_key recorded ys"
    using assms by (intro sort_key_front) (auto intro: less_imp_le le_less_trans)
  then show ?thesis using assms(2,3) by (simp add: standing_front standing_later)
qed

section \<open>Erased rule ids change no answer\<close>

definition erased :: "string \<Rightarrow> price_candidate \<Rightarrow> price_candidate" where
  "erased sid c = c\<lparr> pc_Price := fromHistoryPrice sid (pc_Price c) \<rparr>"

definition erased_score :: "string \<Rightarrow> scored \<Rightarrow> scored" where
  "erased_score sid s = s\<lparr> so_candidate := erased sid (so_candidate s) \<rparr>"

lemma buyer_erased: "fold (\<lambda>r b. max b (BuyerRank r)) (map (\<lambda>r. r\<lparr> xr_ID := [], xr_PriceID := q \<rparr>) rs) b =
    fold (\<lambda>r b. max b (BuyerRank r)) rs b"
  by (induction rs arbitrary: b) (simp_all add: BuyerRank_def)

lemma score_erased: "score (erased sid c) = erased_score sid (score c)"
  by (simp add: score_def erased_score_def erased_def fromHistoryPrice_def quantitySpan_def buyer_erased
      split: option.split)

lemma better_erased: "better (erased_score sid a) (erased_score sid b) = better a b"
  by (simp add: better_def erased_score_def erased_def fromHistoryPrice_def Let_def)

lemma matchRules_erased:
  "price_matchRules (map (\<lambda>r. r\<lparr> xr_ID := [], xr_PriceID := q \<rparr>) rs) attributes = price_matchRules rs attributes"
  by (induction rs) (simp_all add: price_matchRules_def price_matchRule_def split: option.split)

lemma eligible_erased:
  "price_eligible (erased sid c) currency quantity attributes at = price_eligible c currency quantity attributes at"
  by (simp add: price_eligible_def erased_def fromHistoryPrice_def listAvailable_def matchRules_erased Let_def
      split: option.split)

lemma select_loop_erased:
  "select_loop currency quantity attributes at (map_option (erased_score sid) best) (map (erased sid) cs) =
    map_option (erased_score sid) (select_loop currency quantity attributes at best cs)"
proof (induction cs arbitrary: best)
  case (Cons c cs)
  show ?case
  proof (cases "price_eligible c currency quantity attributes at")
    case True
    then show ?thesis
      using Cons.IH [of "Some (score c)"] Cons.IH [of best]
      by (cases best) (simp_all add: eligible_erased score_erased better_erased Let_def)
  next
    case False
    then show ?thesis by (simp add: eligible_erased Cons.IH)
  qed
qed simp

text \<open>The part of a calculated price an applied price keeps.\<close>

definition applied_of :: "calculated_price option \<Rightarrow> applied_price" where
  "applied_of sel =
    (case sel of
      None \<Rightarrow> no_price
    | Some k \<Rightarrow>
        no_price\<lparr> az_Priced := True, az_Amount := kp_Amount k, az_PriceID := kp_PriceID k,
          az_PriceListID := kp_PriceListID k, az_PriceListType := kp_PriceListType k \<rparr>)"

lemma applied_erased:
  "applied_of (selectPrice (map (erased sid) cs) currency quantity attributes at) =
    applied_of (selectPrice cs currency quantity attributes at)"
  using select_loop_erased [of currency quantity attributes at sid None cs]
  by (auto simp: selectPrice_def applied_of_def price_result_def erased_score_def erased_def fromHistoryPrice_def Let_def
      split: option.splits)

lemma appliedAt_applied_of:
  "appliedAt sets hist currency at =
    (case standingSet sets at of None \<Rightarrow> no_price
     | Some std \<Rightarrow> applied_of (selectPrice (map (past_candidate hist at) (ps_Prices std)) currency timelineQuantity Map.empty at))"
  by (simp add: appliedAt_def applied_of_def split: option.split)

section \<open>The history and the tables\<close>

lemma later_writes_grow:
  assumes "later_writes at db db'" "in_step db"
  shows "in_step db' \<and>
    (\<exists>xs. td_set_history db' = td_set_history db @ xs \<and> (\<forall>x \<in> set xs. at < ps_RecordedAt x)) \<and>
    (\<exists>ys. td_list_history db' = td_list_history db @ ys \<and> (\<forall>y \<in> set ys. at < ls_RecordedAt y))"
  using assms
proof (induction rule: later_writes.induct)
  case (one_more at db db' now db'')
  then obtain xs ys where xs: "td_set_history db' = td_set_history db @ xs" "\<forall>x \<in> set xs. at < ps_RecordedAt x"
    and ys: "td_list_history db' = td_list_history db @ ys" "\<forall>y \<in> set ys. at < ls_RecordedAt y" and ok: "in_step db'"
    by blast
  from price_step_in_step [OF one_more.hyps(3) ok] obtain xs' ys'
    where "td_set_history db'' = td_set_history db' @ xs'" "\<forall>x \<in> set xs'. ps_RecordedAt x = now"
    and "td_list_history db'' = td_list_history db' @ ys'" "\<forall>y \<in> set ys'. ls_RecordedAt y = now" "in_step db''"
    by (auto simp: grew_def)
  then show ?case using xs ys one_more.hyps(2)
    by (intro conjI exI [of _ "xs @ xs'"] exI [of _ "ys @ ys'"]) auto
qed auto

text \<open>The answer of the ladder on the live tables, at quantity one for an unnamed buyer.\<close>

definition charged :: "price_db \<Rightarrow> string \<Rightarrow> string \<Rightarrow> instant \<Rightarrow> applied_price" where
  "charged db sid currency at =
    (case ListPriceCandidates (\<lambda>_. None) sid db of
      Inl _ \<Rightarrow> no_price
    | Inr cs \<Rightarrow> applied_of (selectPrice cs currency timelineQuantity Map.empty at))"

lemma charged_with_rules:
  "charged db sid currency at =
    applied_of (selectPrice (map (candidate_of db) (with_rules db (live_prices db sid))) currency timelineQuantity Map.empty at)"
proof -
  obtain qs where "attachRules (\<lambda>_. None) (live_prices db sid) db = Inr qs"
    by (cases "live_prices db sid = []") (auto simp: attachRules_def q_ListPriceRulesByPrices_def statement_def)
  with attachRules_Inr [OF this] show ?thesis
    by (simp add: charged_def ListPriceCandidates_def statement_def)
qed

lemma standing_set_history:
  assumes "stamped past db" "past \<le> at" "td_set_history db' = td_set_history db @ xs" "\<forall>x \<in> set xs. at < ps_RecordedAt x"
  shows "standingSet (PriceSetHistory db' sid) at =
    (let ss = filter (\<lambda>s. ps_PriceSetID s = sid) (td_set_history db) in if ss = [] then None else Some (List.last ss))"
proof -
  let ?f = "filter (\<lambda>s. ps_PriceSetID s = sid)"
  have "sorted (map ps_RecordedAt (?f (td_set_history db)))" "\<forall>x \<in> set (?f (td_set_history db)). ps_RecordedAt x \<le> at"
    using assms(1,2) by (auto simp: stamped_def sorted_filter)
  then show ?thesis
    using standing_history [of ps_RecordedAt "?f (td_set_history db)" at "?f xs"] assms(3,4)
    by (simp add: standingSet_def PriceSetHistory_def Let_def)
qed

lemma standing_list_history:
  assumes "stamped past db" "past \<le> at" "td_list_history db' = td_list_history db @ ys" "\<forall>y \<in> set ys. at < ls_RecordedAt y"
    and "lid \<in> set ids"
  shows "standingList (list_snapshots (PriceListHistory db' ids) lid) at =
    (let ss = filter (\<lambda>s. pl_ID (ls_Info s) = lid) (td_list_history db) in if ss = [] then None else Some (List.last ss))"
proof -
  let ?f = "filter (\<lambda>s. pl_ID (ls_Info s) = lid)"
  have hist: "list_snapshots (PriceListHistory db' ids) lid = sort_key ls_RecordedAt (?f (td_list_history db'))"
    using assms(5) by (simp add: list_snapshots_def PriceListHistory_def map_of_map_restrict)
  have "sorted (map ls_RecordedAt (?f (td_list_history db)))" "\<forall>x \<in> set (?f (td_list_history db)). ls_RecordedAt x \<le> at"
    using assms(1,2) by (auto simp: stamped_def sorted_filter)
  then show ?thesis
    using standing_history [of ls_RecordedAt "?f (td_list_history db)" at "?f ys"] assms(3,4)
    by (simp add: standingList_def hist Let_def)
qed


lemma named_lists_in: "s \<in> set sets \<Longrightarrow> p \<in> set (ps_Prices s) \<Longrightarrow> px_PriceListID p = Some lid \<Longrightarrow> lid \<in> set (named_lists sets)"
  by (force simp: named_lists_def map_filter_def)

lemma past_candidate_erased:
  assumes "standingList (list_snapshots hist lid) at =
      (let ss = filter (\<lambda>s. pl_ID (ls_Info s) = lid) (td_list_history db) in if ss = [] then None else Some (List.last ss))"
    and "px_PriceListID q = Some lid" "listed db lid = last_listed db lid"
  shows "past_candidate hist at (fromHistoryPrice sid q) = erased sid (candidate_of db q)"
  using assms by (auto simp: past_candidate_def erased_def candidate_of_def fromHistoryPrice_def listed_def last_listed_def Let_def
      split: if_splits)

lemma standing_answer:
  assumes "prices_at past db" "past \<le> at" "later_writes at db db'"
    and "sets = PriceSetHistory db' sid" "hist = PriceListHistory db' (named_lists sets)"
  shows "appliedAt sets hist currency at = charged db sid currency at"
proof -
  have ok: "in_step db" and st: "stamped past db" using prices_at_in_step [OF assms(1)] by simp_all
  obtain xs ys where xs: "td_set_history db' = td_set_history db @ xs" "\<forall>x \<in> set xs. at < ps_RecordedAt x"
    and ys: "td_list_history db' = td_list_history db @ ys" "\<forall>y \<in> set ys. at < ls_RecordedAt y"
    using later_writes_grow [OF assms(3) ok] by blast
  let ?ss = "filter (\<lambda>s. ps_PriceSetID s = sid) (td_set_history db)"
  have std: "standingSet sets at = (if ?ss = [] then None else Some (List.last ?ss))"
    using standing_set_history [OF st assms(2) xs, of sid] by (simp add: assms(4) Let_def)
  have snap: "snapshot_of db sid = (if ?ss = [] then [] else ps_Prices (List.last ?ss))"
    using ok by (simp add: in_step_def last_set_def Let_def)
  show ?thesis
  proof (cases "?ss = []")
    case True
    with snap have "live_prices db sid = []" by (simp add: snapshot_of_def with_rules_def)
    then show ?thesis using std True
      by (simp add: appliedAt_applied_of charged_with_rules with_rules_def selectPrice_def applied_of_def)
  next
    case False
    let ?s = "List.last ?ss" and ?cs = "with_rules db (live_prices db sid)"
    have prices: "ps_Prices ?s = map (fromHistoryPrice sid) ?cs" using snap False by (simp add: snapshot_of_def)
    have "?s \<in> set sets" using standing_in [of ps_RecordedAt at None sets ?s] std False by (simp add: standingSet_def)
    have "past_candidate hist at (fromHistoryPrice sid q) = erased sid (candidate_of db q)" if q: "q \<in> set ?cs" for q
    proof (cases "px_PriceListID q")
      case None
      then show ?thesis by (simp add: past_candidate_def erased_def candidate_of_def fromHistoryPrice_def)
    next
      case (Some lid)
      have "lid \<in> set (named_lists sets)"
        using named_lists_in [OF \<open>?s \<in> set sets\<close>, of "fromHistoryPrice sid q" lid] q Some prices
        by (simp add: fromHistoryPrice_def)
      then show ?thesis
        using standing_list_history [OF st assms(2) ys] past_candidate_erased [of hist lid at db q sid] Some ok
        by (simp add: assms(5) in_step_def)
    qed
    then have "map (past_candidate hist at) (ps_Prices ?s) = map (erased sid) (map (candidate_of db) ?cs)"
      by (simp add: prices)
    then show ?thesis using std False
      by (simp add: appliedAt_applied_of charged_with_rules applied_erased del: map_map)
  qed
qed

text \<open>C5: after any run of the repository's writes with stamps that never go back, the price that stands
  at any later instant is the one the ladder picks from the live tables; and the history kept by the
  snapshots still tells that price for that instant after every further write, whatever it changes.\<close>

theorem history_tells_the_ladder:
  assumes "prices_at past db" "past \<le> at" "later_writes at db db'"
  shows "case set_history db' sid of (sets, hist) \<Rightarrow> appliedAt sets hist currency at = charged db sid currency at"
  using standing_answer [OF assms refl refl] by (simp add: set_history_def Let_def)


section \<open>Runs\<close>

definition no_faults :: faults where "no_faults = (\<lambda>_. None)"

definition spring_sale :: price_list where
  "spring_sale = \<lparr> pl_ID = ''plist_1'', pl_Type = PriceListSale, pl_Status = PriceListActive, pl_StartsAt = None,
    pl_EndsAt = Some 500, pll_Title = ''Spring'', pll_Description = [] \<rparr>"

definition shelf_price :: price where
  "shelf_price = \<lparr> px_ID = ''price_1'', px_PriceSetID = [], px_PriceListID = None, px_CurrencyCode = ''EUR'', px_Amount = 1000,
    px_MinQuantity = 1, px_MaxQuantity = None, px_Rules = [] \<rparr>"

definition sale_price :: price where
  "sale_price = shelf_price\<lparr> px_ID := ''price_2'', px_PriceListID := Some ''plist_1'', px_Amount := 800 \<rparr>"

definition members_price :: price where
  "members_price = shelf_price\<lparr> px_ID := ''price_3'', px_Amount := 700,
    px_Rules := [\<lparr> xr_ID = ''prule_1'', xr_PriceID = [], xr_Attribute = AttrCompanyID, xr_Operator = Eq, xr_Values = [''c1''] \<rparr>] \<rparr>"

definition day_one :: price_db where
  "day_one = snd (repo_CreatePriceSet no_faults ''pset_1'' [shelf_price, sale_price, members_price] 10
    (snd (repo_CreatePriceList no_faults spring_sale 5 empty_prices)))"

definition day_two :: price_db where
  "day_two = snd (ReplacePrices no_faults ''pset_1'' [shelf_price\<lparr> px_Amount := 1200 \<rparr>] 30
    (snd (repo_DeletePriceList no_faults ''plist_1'' 20 day_one)))"

lemma day_one_reached: "prices_at 10 day_one"
proof -
  have "prices_at 5 (snd (repo_CreatePriceList no_faults spring_sale 5 empty_prices))"
    by (rule wrote [OF start order_refl create_list [OF prod.collapse [symmetric]]])
  then show ?thesis unfolding day_one_def by (rule wrote [OF _ _ create_set [OF prod.collapse [symmetric]]]) simp
qed

lemma day_two_later: "later_writes 15 day_one day_two"
proof -
  have "later_writes 15 day_one (snd (repo_DeletePriceList no_faults ''plist_1'' 20 day_one))"
    by (rule one_more [OF none_yet _ delete_list [OF prod.collapse [symmetric]]]) simp
  then show ?thesis unfolding day_two_def by (rule one_more [OF _ _ replace [OF prod.collapse [symmetric]]]) simp
qed

theorem history_tells_the_ladder_witness:
  "(case set_history day_two ''pset_1'' of (sets, hist) \<Rightarrow> appliedAt sets hist ''EUR'' 15 = charged day_one ''pset_1'' ''EUR'' 15) \<and>
    charged day_one ''pset_1'' ''EUR'' 15 = no_price\<lparr> az_Priced := True, az_Amount := 800, az_PriceID := ''price_2'',
      az_PriceListID := Some ''plist_1'', az_PriceListType := ''sale'' \<rparr> \<and>
    az_Amount (charged day_two ''pset_1'' ''EUR'' 40) = 1200"
proof (intro conjI)
  show "case set_history day_two ''pset_1'' of (sets, hist) \<Rightarrow> appliedAt sets hist ''EUR'' 15 = charged day_one ''pset_1'' ''EUR'' 15"
    by (rule history_tells_the_ladder [OF day_one_reached _ day_two_later]) simp
  show "charged day_one ''pset_1'' ''EUR'' 15 = no_price\<lparr> az_Priced := True, az_Amount := 800, az_PriceID := ''price_2'',
      az_PriceListID := Some ''plist_1'', az_PriceListType := ''sale'' \<rparr>"
    by code_simp
  show "az_Amount (charged day_two ''pset_1'' ''EUR'' 40) = 1200"
    by code_simp
qed


section \<open>A clock read before the wait\<close>

lemma last_insort: "zs \<noteq> [] \<Longrightarrow> f x \<le> f (List.last zs) \<Longrightarrow> List.last (insort_key f x zs) = List.last zs"
  by (induction zs) (auto simp: insort_is_Cons split: if_splits)

lemma last_sort_key:
  assumes "sorted (map f xs)" "xs \<noteq> []" "f d < f (List.last xs)"
  shows "List.last (sort_key f (xs @ [d])) = List.last xs"
  using assms
proof (induction xs)
  case (Cons x xs)
  show ?case
  proof (cases "xs = []")
    case False
    then have "f x \<le> f (List.last xs)" using Cons.prems(1) by simp
    moreover have "sort_key f (xs @ [d]) \<noteq> []" by (simp flip: length_0_conv)
    ultimately show ?thesis using Cons False by (simp add: last_insort)
  next
    case True
    then show ?thesis using Cons.prems by auto
  qed
qed simp

lemma standing_all:
  assumes "\<forall>x \<in> set xs. recorded x \<le> at" "xs \<noteq> []"
  shows "standing recorded at start xs = Some (List.last xs)"
  using standing_front [of xs recorded at start "[]"] assms by simp

text \<open>C16: a deletion of a price list stamped earlier than the list's last snapshot, as when its clock was
  read before it waited for that write's lock, takes the list out of the tables, and the history goes
  on telling, for every later instant, that the list stands as it was.\<close>

theorem early_stamped_deletion_is_not_told:
  assumes "prices_at past db" "live_list db lid = Some l"
    and "now < ls_RecordedAt (List.last (filter (\<lambda>s. pl_ID (ls_Info s) = lid) (td_list_history db)))" and "past \<le> at"
  shows "let db' = snd (repo_DeletePriceList no_faults lid now db) in
    live_list db' lid = None \<and>
    map_option (\<lambda>s. (ls_Deleted s, ls_Info s)) (standingList (list_snapshots (PriceListHistory db' [lid]) lid) at) =
      Some (False, info_of l)"
proof -
  let ?ss = "filter (\<lambda>s. pl_ID (ls_Info s) = lid) (td_list_history db)"
  let ?d = "\<lparr> ls_RecordedAt = now, ls_Info = info_of l, ls_Deleted = True \<rparr>"
  let ?tables = "db\<lparr> td_list := map (\<lambda>r. if pl_ID (rl_list r) = lid then r\<lparr> rl_deleted := True \<rparr> else r) (td_list db),
    td_list_history := td_list_history db @ [?d] \<rparr>"
  have ok: "in_step db" and st: "stamped past db" using prices_at_in_step [OF assms(1)] by simp_all
  have "last_listed db lid = Some (info_of l)" using ok assms(2) by (metis in_step_def listed_def option.map(2))
  then have last_one: "?ss \<noteq> []" "\<not> ls_Deleted (List.last ?ss)" "ls_Info (List.last ?ss) = info_of l"
    by (auto simp: last_listed_def Let_def split: if_splits)
  have run: "snd (repo_DeletePriceList no_faults lid now db) = ?tables"
    using assms(2) by (simp add: repo_DeletePriceList_def price_inTx_def transact_def no_faults_def q_GetPriceList_def
        q_SoftDeletePriceList_def recordListHistory_def statement_def found_def)
  have gone: "live_list ?tables lid = None"
    using live_list_delete [of lid db lid] by (simp add: live_list_def)
  have "pl_ID (info_of l) = lid" using live_list_id [OF assms(2)] by (simp add: info_of_def)
  then have hist: "list_snapshots (PriceListHistory ?tables [lid]) lid = sort_key ls_RecordedAt (?ss @ [?d])"
    by (simp add: list_snapshots_def PriceListHistory_def)
  have sorted_ss: "sorted (map ls_RecordedAt ?ss)" using st by (simp add: stamped_def sorted_filter)
  have "List.last ?ss \<in> set ?ss" using last_one(1) by (rule last_in_set)
  then have "ls_RecordedAt (List.last ?ss) \<le> past" using st by (simp add: stamped_def)
  then have "\<forall>x \<in> set (sort_key ls_RecordedAt (?ss @ [?d])). ls_RecordedAt x \<le> at"
    using st assms(3,4) by (fastforce simp: stamped_def)
  then have "standingList (list_snapshots (PriceListHistory ?tables [lid]) lid) at =
      Some (List.last (sort_key ls_RecordedAt (?ss @ [?d])))"
    unfolding standingList_def hist by (intro standing_all) (simp_all flip: length_0_conv)
  also have "List.last (sort_key ls_RecordedAt (?ss @ [?d])) = List.last ?ss"
    using last_sort_key [OF sorted_ss last_one(1), of ?d] assms(3) by simp
  finally show ?thesis using gone last_one by (simp add: run Let_def)
qed

theorem early_stamped_deletion_is_not_told_witness:
  "live_list (snd (repo_DeletePriceList no_faults ''plist_1'' 4 day_one)) ''plist_1'' = None \<and>
    map_option (\<lambda>s. (ls_Deleted s, ls_Info s))
      (standingList (list_snapshots (PriceListHistory (snd (repo_DeletePriceList no_faults ''plist_1'' 4 day_one)) [''plist_1'']) ''plist_1'') 90) =
      Some (False, info_of spring_sale)"
proof -
  have "live_list day_one ''plist_1'' = Some spring_sale" by code_simp
  moreover have "(4 :: instant) < ls_RecordedAt (List.last (filter (\<lambda>s. pl_ID (ls_Info s) = ''plist_1'') (td_list_history day_one)))"
    by code_simp
  ultimately show ?thesis
    using early_stamped_deletion_is_not_told [OF day_one_reached, of "''plist_1''" spring_sale 4 90] by (simp add: Let_def)
qed

end
