(* ===== verification/PriceService.thy ===== *)
theory PriceService
  imports PriceTables
begin

text \<open>
  The service of the pricing module over its tables: \<^verbatim>\<open>internal/modules/pricing/service\<close>
  (\<^verbatim>\<open>service.go\<close>, \<^verbatim>\<open>calculate.go\<close>, \<^verbatim>\<open>price_list.go\<close> and its siblings, \<^verbatim>\<open>admin.go\<close>,
  \<^verbatim>\<open>admin_list_prices.go\<close>, \<^verbatim>\<open>history.go\<close>, \<^verbatim>\<open>interop.go\<close>, \<^verbatim>\<open>list_trial.go\<close>).

  Ids the code draws and readings of its clock are arguments. Requests are typed values: the JSON
  around them is left out, and so is the position an error names. A map the code walks is an
  association list with distinct keys.
\<close>

section \<open>Building prices\<close>

definition PriceSetIDPrefix :: string where "PriceSetIDPrefix = ''pset_''"
definition PriceIDPrefix :: string where "PriceIDPrefix = ''price_''"
definition PriceListIDPrefix :: string where "PriceListIDPrefix = ''plist_''"
definition PriceRuleIDPrefix :: string where "PriceRuleIDPrefix = ''prule_''"

record price_rule_input =
  xi_Attribute :: string
  xi_Operator :: operator
  xi_Values :: "string list"

record price_input =
  pin_CurrencyCode :: string
  pin_Amount :: int64
  pin_MinQuantity :: int32
  pin_MaxQuantity :: "int32 option"
  pin_PriceListID :: "string option"
  pin_Rules :: "price_rule_input list"

definition validatePriceListRef :: "string option \<Rightarrow> error option" where
  "validatePriceListRef lid = (case lid of None \<Rightarrow> None | Some l \<Rightarrow> price_requireID l PriceListIDPrefix)"

definition validateRule :: "price_rule_input \<Rightarrow> error option" where
  "validateRule r =
    (if strings_TrimSpace (xi_Attribute r) = [] then Some (Invalid price_CodeInvalidInput)
     else if \<not> price_RuleOperator_Valid (xi_Operator r) then Some (Invalid price_CodeInvalidInput)
     else if xi_Values r = [] then Some (Invalid price_CodeInvalidInput)
     else if \<not> MultiValue (xi_Operator r) \<and> length (xi_Values r) \<noteq> 1 then Some (Invalid price_CodeInvalidInput)
     else if list_ex (\<lambda>v. v = [] \<or> \<not> Readable (xi_Operator r) v) (xi_Values r) then Some (Invalid price_CodeInvalidInput)
     else None)"

definition price_refuseReservedAttribute :: "price_rule_input \<Rightarrow> error option" where
  "price_refuseReservedAttribute r =
    (if prefix price_ReservedAttributePrefix (xi_Attribute r) then Some (Invalid price_CodeRuleAttributeReserved) else None)"

definition refuseReservedAttributes :: "price_input list \<Rightarrow> error option" where
  "refuseReservedAttributes prices =
    (case List.map_filter price_refuseReservedAttribute (concat (map pin_Rules prices)) of [] \<Rightarrow> None | e # _ \<Rightarrow> Some e)"

definition price_buildRule :: "string \<Rightarrow> string \<Rightarrow> price_rule_input \<Rightarrow> error + price_rule" where
  "price_buildRule rid pid r =
    (case validateRule r of
      Some e \<Rightarrow> Inl e
    | None \<Rightarrow> Inr \<lparr> xr_ID = rid, xr_PriceID = pid, xr_Attribute = xi_Attribute r, xr_Operator = xi_Operator r, xr_Values = xi_Values r \<rparr>)"

text \<open>The new ids: the code's generator, as a function of the position in the input.\<close>

record fresh_ids =
  fi_price :: "nat \<Rightarrow> string"
  fi_rule :: "nat \<Rightarrow> nat \<Rightarrow> string"

fun build_rules :: "(nat \<Rightarrow> string) \<Rightarrow> nat \<Rightarrow> string \<Rightarrow> price_rule_input list \<Rightarrow> error + price_rule list" where
  "build_rules rid j pid [] = Inr []"
| "build_rules rid j pid (r # rs) =
    and_then (price_buildRule (rid j) pid r) (\<lambda>x. and_then (build_rules rid (Suc j) pid rs) (\<lambda>xs. Inr (x # xs)))"

definition buildPrice :: "fresh_ids \<Rightarrow> nat \<Rightarrow> string \<Rightarrow> price_input \<Rightarrow> error + price" where
  "buildPrice ids i sid inp =
    and_then (price_normalizeCurrency (pin_CurrencyCode inp)) (\<lambda>currency.
    case price_validateAmount (pin_Amount inp) of
      Some e \<Rightarrow> Inl e
    | None \<Rightarrow>
        and_then (normalizeQuantityRange (pin_MinQuantity inp) (pin_MaxQuantity inp)) (\<lambda>(minQty, maxQty).
        case validatePriceListRef (pin_PriceListID inp) of
          Some e \<Rightarrow> Inl e
        | None \<Rightarrow>
            and_then (build_rules (fi_rule ids i) 0 (fi_price ids i) (pin_Rules inp)) (\<lambda>rules.
            Inr \<lparr> px_ID = fi_price ids i, px_PriceSetID = sid, px_PriceListID = pin_PriceListID inp,
                  px_CurrencyCode = currency, px_Amount = pin_Amount inp, px_MinQuantity = minQty,
                  px_MaxQuantity = maxQty, px_Rules = rules \<rparr>)))"

fun build_prices_from :: "fresh_ids \<Rightarrow> nat \<Rightarrow> string \<Rightarrow> price_input list \<Rightarrow> error + price list" where
  "build_prices_from ids i sid [] = Inr []"
| "build_prices_from ids i sid (p # ps) =
    and_then (buildPrice ids i sid p) (\<lambda>x. and_then (build_prices_from ids (Suc i) sid ps) (\<lambda>xs. Inr (x # xs)))"

definition buildPrices :: "fresh_ids \<Rightarrow> string \<Rightarrow> price_input list \<Rightarrow> error + price list" where
  "buildPrices ids sid inputs = build_prices_from ids 0 sid inputs"

section \<open>Price sets\<close>

text \<open>An error of the input leaves the tables alone.\<close>

definition or_refuse :: "error option \<Rightarrow> ('db \<Rightarrow> (error + 'a) \<times> 'db) \<Rightarrow> 'db \<Rightarrow> (error + 'a) \<times> 'db" where
  "or_refuse e f db = (case e of Some err \<Rightarrow> (Inl err, db) | None \<Rightarrow> f db)"

definition or_fail :: "error + 'b \<Rightarrow> ('b \<Rightarrow> 'db \<Rightarrow> (error + 'a) \<times> 'db) \<Rightarrow> 'db \<Rightarrow> (error + 'a) \<times> 'db" where
  "or_fail r f db = (case r of Inl err \<Rightarrow> (Inl err, db) | Inr b \<Rightarrow> f b db)"

definition CreatePriceSet ::
    "faults \<Rightarrow> fresh_ids \<Rightarrow> string \<Rightarrow> price_input list \<Rightarrow> instant \<Rightarrow> price_db \<Rightarrow> (error + unit) \<times> price_db" where
  "CreatePriceSet flt ids sid prices now =
    or_refuse (refuseReservedAttributes prices) (
    or_fail (buildPrices ids [] prices) (\<lambda>toWrite. repo_CreatePriceSet flt sid toWrite now))"

definition DeletePriceSet :: "faults \<Rightarrow> string \<Rightarrow> instant \<Rightarrow> price_db \<Rightarrow> (error + unit) \<times> price_db" where
  "DeletePriceSet flt sid now = or_refuse (price_requireID sid PriceSetIDPrefix) (repo_DeletePriceSet flt sid now)"

definition SetPrices ::
    "faults \<Rightarrow> fresh_ids \<Rightarrow> string \<Rightarrow> price_input list \<Rightarrow> instant \<Rightarrow> price_db \<Rightarrow> (error + unit) \<times> price_db" where
  "SetPrices flt ids sid prices now =
    or_refuse (price_requireID sid PriceSetIDPrefix) (
    or_refuse (refuseReservedAttributes prices) (
    or_fail (buildPrices ids sid prices) (\<lambda>toWrite. ReplacePrices flt sid toWrite now)))"

definition SetBasePrices ::
    "faults \<Rightarrow> fresh_ids \<Rightarrow> string \<Rightarrow> (string \<times> int64) list \<Rightarrow> instant \<Rightarrow> price_db \<Rightarrow> (error + unit) \<times> price_db" where
  "SetBasePrices flt ids sid amounts now =
    SetPrices flt ids sid
      (map (\<lambda>currency. \<lparr> pin_CurrencyCode = currency, pin_Amount = the (map_of amounts currency),
        pin_MinQuantity = price_MinQuantity, pin_MaxQuantity = None, pin_PriceListID = None, pin_Rules = [] \<rparr>)
        (sort (map fst amounts))) now"

definition CreateEmptyPriceSet :: "faults \<Rightarrow> string \<Rightarrow> instant \<Rightarrow> price_db \<Rightarrow> (error + string) \<times> price_db" where
  "CreateEmptyPriceSet flt sid now db =
    (case CreatePriceSet flt \<lparr> fi_price = \<lambda>_. [], fi_rule = \<lambda>_ _. [] \<rparr> sid [] now db of
      (Inl e, db') \<Rightarrow> (Inl e, db')
    | (Inr _, db') \<Rightarrow> (Inr sid, db'))"

section \<open>Price lists and rules\<close>

record price_list_input =
  lin_Title :: string
  lin_Description :: string
  lin_Type :: string
  lin_Status :: string
  lin_StartsAt :: "instant option"
  lin_EndsAt :: "instant option"

definition listTitle :: "string \<Rightarrow> error + string" where
  "listTitle raw =
    (let title = strings_TrimSpace raw in if title = [] then Inl (Invalid price_CodeInvalidInput) else Inr title)"

definition listWindow :: "instant option \<Rightarrow> instant option \<Rightarrow> error + instant option \<times> instant option" where
  "listWindow starts ends =
    (case (starts, ends) of
      (Some s, Some e) \<Rightarrow> if \<not> s < e then Inl (Invalid price_CodeInvalidInput) else Inr (starts, ends)
    | _ \<Rightarrow> Inr (starts, ends))"

definition buildPriceList :: "string \<Rightarrow> price_list_input \<Rightarrow> error + price_list" where
  "buildPriceList lid inp =
    and_then (listTitle (lin_Title inp)) (\<lambda>title.
    if \<not> PriceListType_Valid (lin_Type inp) then Inl (Invalid price_CodeInvalidInput)
    else
      (let st = (if lin_Status inp = [] then PriceListDraft else lin_Status inp) in
       if \<not> PriceListStatus_Valid st then Inl (Invalid price_CodeInvalidInput)
       else
         and_then (listWindow (lin_StartsAt inp) (lin_EndsAt inp)) (\<lambda>(starts, ends).
         Inr \<lparr> pl_ID = lid, pl_Type = lin_Type inp, pl_Status = st, pl_StartsAt = starts, pl_EndsAt = ends,
               pll_Title = title, pll_Description = strings_TrimSpace (lin_Description inp) \<rparr>)))"

definition CreatePriceList ::
    "faults \<Rightarrow> string \<Rightarrow> price_list_input \<Rightarrow> instant \<Rightarrow> price_db \<Rightarrow> (error + price_list) \<times> price_db" where
  "CreatePriceList flt lid inp now = or_fail (buildPriceList lid inp) (\<lambda>l. repo_CreatePriceList flt l now)"

definition UpdatePriceList ::
    "faults \<Rightarrow> string \<Rightarrow> price_list_input \<Rightarrow> instant \<Rightarrow> price_db \<Rightarrow> (error + price_list) \<times> price_db" where
  "UpdatePriceList flt lid inp now =
    or_refuse (price_requireID lid PriceListIDPrefix) (
    or_fail (buildPriceList lid inp) (\<lambda>l. repo_UpdatePriceList flt l now))"

definition DeletePriceList :: "faults \<Rightarrow> string \<Rightarrow> instant \<Rightarrow> price_db \<Rightarrow> (error + unit) \<times> price_db" where
  "DeletePriceList flt lid now = or_refuse (price_requireID lid PriceListIDPrefix) (repo_DeletePriceList flt lid now)"

definition CodePriceListMoved :: string where "CodePriceListMoved = ''pricing_price_list_moved''"

text \<open>A write that found the list moved tells its caller.\<close>

definition moved_or :: "(error + price_list \<times> bool) \<times> price_db \<Rightarrow> (error + price_list) \<times> price_db" where
  "moved_or r =
    (case r of
      (Inl e, db) \<Rightarrow> (Inl e, db)
    | (Inr (l, ok), db) \<Rightarrow> (if ok then Inr l else Inl (Conflict CodePriceListMoved), db))"

definition SwitchPriceListStatus ::
    "faults \<Rightarrow> string \<Rightarrow> string \<Rightarrow> string \<Rightarrow> instant \<Rightarrow> price_db \<Rightarrow> (error + price_list) \<times> price_db" where
  "SwitchPriceListStatus flt lid fromS toS now =
    or_refuse (price_requireID lid PriceListIDPrefix) (
    or_refuse (if \<not> PriceListStatus_Valid fromS \<or> \<not> PriceListStatus_Valid toS \<or> fromS = toS
      then Some (Invalid price_CodeInvalidInput) else None)
      (\<lambda>db. moved_or (repo_SwitchPriceListStatus flt lid fromS toS now db)))"

definition RevisePriceList ::
    "faults \<Rightarrow> string \<Rightarrow> price_list_terms \<Rightarrow> price_list_terms \<Rightarrow> instant \<Rightarrow> price_db \<Rightarrow> (error + price_list) \<times> price_db" where
  "RevisePriceList flt lid read_terms next_terms now =
    or_refuse (price_requireID lid PriceListIDPrefix) (
    or_fail (listTitle (plt_Title next_terms)) (\<lambda>title.
    or_fail (listWindow (plt_StartsAt next_terms) (plt_EndsAt next_terms)) (\<lambda>(starts, ends) db.
      moved_or (repo_RevisePriceList flt lid read_terms
        \<lparr> plt_Title = title, plt_Description = strings_TrimSpace (plt_Description next_terms),
          plt_StartsAt = starts, plt_EndsAt = ends \<rparr> now db))))"

definition CreatePriceRule ::
    "faults \<Rightarrow> string \<Rightarrow> string \<Rightarrow> price_rule_input \<Rightarrow> instant \<Rightarrow> price_db \<Rightarrow> (error + unit) \<times> price_db" where
  "CreatePriceRule flt rid pid inp now =
    or_refuse (price_requireID pid PriceIDPrefix) (
    or_refuse (price_refuseReservedAttribute inp) (
    or_fail (price_buildRule rid pid inp) (\<lambda>r. repo_CreatePriceRule flt r now)))"

definition DeletePriceRule :: "faults \<Rightarrow> string \<Rightarrow> instant \<Rightarrow> price_db \<Rightarrow> (error + unit) \<times> price_db" where
  "DeletePriceRule flt rid now = or_refuse (price_requireID rid PriceRuleIDPrefix) (repo_DeletePriceRule flt rid now)"

section \<open>Calculation\<close>

definition GetPriceSet :: "faults \<Rightarrow> string \<Rightarrow> price_db \<Rightarrow> error + price_set_row" where
  "GetPriceSet flt sid db = wrapped (price_notFoundOr CodePriceSetNotFound) (q_GetPriceSet flt sid db)"

record calculate_params =
  cal_CurrencyCode :: string
  cal_Quantity :: int32
  cal_Attributes :: "string \<Rightarrow> string option"
  cal_At :: "instant option"

definition CalculatePrice ::
    "faults \<Rightarrow> string \<Rightarrow> calculate_params \<Rightarrow> instant \<Rightarrow> price_db \<Rightarrow> error + calculated_price" where
  "CalculatePrice flt sid params clock db =
    (case price_requireID sid PriceSetIDPrefix of
      Some e \<Rightarrow> Inl e
    | None \<Rightarrow>
        and_then (price_normalizeCurrency (cal_CurrencyCode params)) (\<lambda>currency.
        and_then (normalizeQuantity (cal_Quantity params)) (\<lambda>quantity.
        and_then (ListPriceCandidates flt sid db) (\<lambda>candidates.
        and_then (if candidates = [] then and_then (GetPriceSet flt sid db) (\<lambda>_. Inr ()) else Inr ()) (\<lambda>_.
          case selectPrice candidates currency quantity (cal_Attributes params)
              (case cal_At params of None \<Rightarrow> clock | Some at \<Rightarrow> at) of
            None \<Rightarrow> Inl (NotFound CodeNotCalculable)
          | Some k \<Rightarrow> Inr k)))))"

definition CalculateAmount ::
    "faults \<Rightarrow> string \<Rightarrow> string \<Rightarrow> int32 \<Rightarrow> (string \<Rightarrow> string option) \<Rightarrow> instant \<Rightarrow> price_db \<Rightarrow> error + int64" where
  "CalculateAmount flt sid currency quantity attributes clock db =
    and_then (CalculatePrice flt sid \<lparr> cal_CurrencyCode = currency, cal_Quantity = quantity,
      cal_Attributes = attributes, cal_At = None \<rparr> clock db) (\<lambda>k. Inr (kp_Amount k))"

text \<open>The candidates of several sets in one read.\<close>

definition ListPriceCandidatesBySets ::
    "faults \<Rightarrow> string list \<Rightarrow> price_db \<Rightarrow> error + (string \<Rightarrow> price_candidate list)" where
  "ListPriceCandidatesBySets flt sids db =
    (if sids = [] then Inr (\<lambda>_. [])
     else
       and_then (wrapped price_wrapDB (statement flt ''ListPriceCandidatesBySets''
         (Inr (concat (map (live_prices db) (sorted_list_of_set (set sids))))))) (\<lambda>rows.
       and_then (attachRules flt rows db) (\<lambda>prices.
       Inr (\<lambda>sid. filter (\<lambda>c. px_PriceSetID (pc_Price c) = sid) (map (candidate_of db) prices)))))"

record priced_item =
  itm_PriceSetID :: string
  itm_Quantity :: int32

fun check_priced_items :: "priced_item list \<Rightarrow> error + int32 list" where
  "check_priced_items [] = Inr []"
| "check_priced_items (x # xs) =
    (case price_requireID (itm_PriceSetID x) PriceSetIDPrefix of
      Some e \<Rightarrow> Inl e
    | None \<Rightarrow>
        (case normalizeQuantity (itm_Quantity x) of
          Inl e \<Rightarrow> Inl (wrap_err e (KindOf e) (CodeOf e))
        | Inr q \<Rightarrow> and_then (check_priced_items xs) (\<lambda>qs. Inr (q # qs))))"

definition MaxCalculateItems :: nat where "MaxCalculateItems = 1000"

definition CalculateAmounts ::
    "faults \<Rightarrow> string \<Rightarrow> (string \<Rightarrow> string option) \<Rightarrow> priced_item list \<Rightarrow> instant \<Rightarrow> price_db \<Rightarrow>
      error + calculated_amount list" where
  "CalculateAmounts flt code attributes items clock db =
    (if length items > MaxCalculateItems then Inl (Invalid price_CodeInvalidInput)
     else
       and_then (price_normalizeCurrency code) (\<lambda>currency.
       and_then (check_priced_items items) (\<lambda>quantities.
       and_then (ListPriceCandidatesBySets flt (remdups (map itm_PriceSetID items)) db) (\<lambda>bySet.
       Inr (map (\<lambda>(x, q). comparedAmount (selectPrice (bySet (itm_PriceSetID x)) currency q attributes clock))
         (zip items quantities))))))"

section \<open>Comparing with and without a list\<close>

definition MaxCompareEntries :: nat where "MaxCompareEntries = 5000"
definition MaxCompareItems :: nat where "MaxCompareItems = 100000"

record compare_entry =
  cmp_Reference :: string
  cmp_CurrencyCode :: string
  cmp_Attributes :: "string \<Rightarrow> string option"
  cmp_Items :: "priced_item list"

fun check_entries :: "compare_entry list \<Rightarrow> error + (string \<times> int32 list) list" where
  "check_entries [] = Inr []"
| "check_entries (x # xs) =
    and_then (price_normalizeCurrency (cmp_CurrencyCode x)) (\<lambda>currency.
    and_then (check_priced_items (cmp_Items x)) (\<lambda>quantities.
    and_then (check_entries xs) (\<lambda>rest. Inr ((currency, quantities) # rest))))"

definition GetPriceList :: "faults \<Rightarrow> string \<Rightarrow> price_db \<Rightarrow> error + price_list" where
  "GetPriceList flt lid db = wrapped (price_notFoundOr CodePriceListNotFound) (q_GetPriceList flt lid db)"

text \<open>Each purchase's lines, priced without the list and with it.\<close>

definition CompareList ::
    "faults \<Rightarrow> string \<Rightarrow> compare_entry list \<Rightarrow> instant \<Rightarrow> price_db \<Rightarrow>
      error + (string \<times> (calculated_amount \<times> calculated_amount) list) list" where
  "CompareList flt lid entries at db =
    (case price_requireID lid PriceListIDPrefix of
      Some e \<Rightarrow> Inl e
    | None \<Rightarrow>
        and_then (GetPriceList flt lid db) (\<lambda>l.
        if length entries > MaxCompareEntries then Inl (Invalid price_CodeInvalidInput)
        else
          and_then (check_entries entries) (\<lambda>checked.
          if sum_list (map (\<lambda>x. length (cmp_Items x)) entries) > MaxCompareItems then Inl (Invalid price_CodeInvalidInput)
          else
            and_then (ListPriceCandidatesBySets flt
              (remdups (concat (map (\<lambda>x. map itm_PriceSetID (cmp_Items x)) entries))) db) (\<lambda>bySet.
            Inr (map (\<lambda>(x, currency, quantities).
              (cmp_Reference x,
               map (\<lambda>(item, q).
                 (case withAndWithoutList (bySet (itm_PriceSetID item)) (pl_ID l) (pl_Type l) of
                   (baseline, trial) \<Rightarrow>
                     (comparedAmount (selectPrice baseline currency q (cmp_Attributes x) at),
                      comparedAmount (selectPrice trial currency q (cmp_Attributes x) at))))
                 (zip (cmp_Items x) quantities)))
              (zip entries checked))))))"

section \<open>History\<close>

text \<open>The snapshots of several sets and of every list they name.\<close>

definition read_history ::
    "faults \<Rightarrow> string list \<Rightarrow> price_db \<Rightarrow> error + (string \<Rightarrow> price_set_snapshot list) \<times> list_history" where
  "read_history flt sids db =
    and_then (if sids = [] then Inr (\<lambda>_. [])
      else wrapped price_wrapDB (statement flt ''ListPriceSetHistory''
        (Inr (\<lambda>sid. if sid \<in> set sids then PriceSetHistory db sid else [])))) (\<lambda>sets.
    let ids = named_lists (concat (map sets sids)) in
    and_then (if ids = [] then Inr []
      else wrapped price_wrapDB (statement flt ''ListPriceListHistory'' (Inr (PriceListHistory db ids)))) (\<lambda>lists'.
    Inr (sets, lists')))"

definition PriceTimeline ::
    "faults \<Rightarrow> string \<Rightarrow> string \<Rightarrow> instant option \<Rightarrow> instant option \<Rightarrow> instant \<Rightarrow> price_db \<Rightarrow> error + price_timeline" where
  "PriceTimeline flt sid code from_at to_at clock db =
    (case price_requireID sid PriceSetIDPrefix of
      Some e \<Rightarrow> Inl e
    | None \<Rightarrow>
        (let currency = strings_ToUpper (strings_TrimSpace code) in
         if currency = [] then Inl (Invalid CodeTimelineInvalid)
         else
           (let until = (case to_at of None \<Rightarrow> clock | Some t \<Rightarrow> t);
                since = (case from_at of None \<Rightarrow> days_before ReductionReferenceDays until | Some f \<Rightarrow> f) in
            if \<not> since < until then Inl (Invalid CodeTimelineInvalid)
            else
              and_then (GetPriceSet flt sid db) (\<lambda>_.
              and_then (read_history flt [sid] db) (\<lambda>(sets, hist).
              Inr (buildTimeline sid currency (sets sid) hist since until))))))"

section \<open>What the storefront shows\<close>

record store_price =
  sto_Price :: price
  sto_ListType :: string
  sto_Reduction :: "reduction option"

definition listablePrices :: "price_candidate list \<Rightarrow> instant \<Rightarrow> price_candidate list" where
  "listablePrices candidates at = filter (\<lambda>c. \<not> (px_Rules (pc_Price c) \<noteq> [] \<or> \<not> listAvailable c at)) candidates"

definition currenciesOf :: "price_candidate list \<Rightarrow> string list" where
  "currenciesOf candidates = sort (remdups (map (\<lambda>c. px_CurrencyCode (pc_Price c)) candidates))"

definition on_sale_now :: "price_candidate list \<Rightarrow> instant \<Rightarrow> (string \<times> string) list" where
  "on_sale_now candidates at =
    List.map_filter (\<lambda>currency.
      case selectPrice candidates currency timelineQuantity Map.empty at of
        None \<Rightarrow> None
      | Some w \<Rightarrow> if kp_PriceListType w \<noteq> PriceListSale then None else Some (currency, kp_PriceID w))
      (currenciesOf (listablePrices candidates at))"

text \<open>The reductions by the id of the price charged, from the first instant the history tells on.\<close>

definition reductions ::
    "faults \<Rightarrow> (string \<times> (string \<times> string) list) list \<Rightarrow> instant \<Rightarrow> price_db \<Rightarrow> error + (string \<times> reduction) list" where
  "reductions flt live now db =
    (if live = [] then Inr []
     else
       and_then (read_history flt (sort (map fst live)) db) (\<lambda>(sets, hist).
       Inr (concat (map (\<lambda>(sid, pairs).
         List.map_filter (\<lambda>(currency, livePriceID).
           case reductionFrom (buildTimeline sid currency (sets sid) hist 0 (now + 1)) ReductionReferenceDays of
             None \<Rightarrow> None
           | Some red \<Rightarrow> if rn_PriceID red \<noteq> livePriceID then None else Some (livePriceID, red)) pairs) live))))"

definition storePrices ::
    "faults \<Rightarrow> (string \<times> price_candidate list) list \<Rightarrow> instant \<Rightarrow> price_db \<Rightarrow> error + (string \<times> store_price list) list" where
  "storePrices flt bySet at db =
    and_then (reductions flt
      (filter (\<lambda>(_, pairs). pairs \<noteq> []) (map (\<lambda>(sid, cs). (sid, on_sale_now cs at)) bySet)) at db) (\<lambda>reds.
    Inr (map (\<lambda>(sid, cs).
      (sid, map (\<lambda>c.
        \<lparr> sto_Price = (pc_Price c)\<lparr> px_Rules := [] \<rparr>,
          sto_ListType =
            (if px_PriceListID (pc_Price c) \<noteq> None then
               (case pc_List c of Some l \<Rightarrow> pl_Type l | None \<Rightarrow> []) else []),
          sto_Reduction = map_of reds (px_ID (pc_Price c)) \<rparr>)
        (listablePrices cs at))) bySet))"

definition ListStorePrices :: "faults \<Rightarrow> string \<Rightarrow> instant \<Rightarrow> price_db \<Rightarrow> error + store_price list" where
  "ListStorePrices flt sid clock db =
    (case price_requireID sid PriceSetIDPrefix of
      Some e \<Rightarrow> Inl e
    | None \<Rightarrow>
        and_then (GetPriceSet flt sid db) (\<lambda>_.
        and_then (ListPriceCandidates flt sid db) (\<lambda>candidates.
        and_then (storePrices flt [(sid, candidates)] clock db) (\<lambda>prices.
        Inr (case map_of prices sid of None \<Rightarrow> [] | Some ps \<Rightarrow> ps)))))"

definition ListPrices :: "faults \<Rightarrow> string \<Rightarrow> price_db \<Rightarrow> error + price list" where
  "ListPrices flt sid db =
    (case price_requireID sid PriceSetIDPrefix of
      Some e \<Rightarrow> Inl e
    | None \<Rightarrow>
        and_then (GetPriceSet flt sid db) (\<lambda>_.
        and_then (wrapped price_wrapDB (q_ListPricesBySet flt sid db)) (\<lambda>rows. attachRules flt rows db)))"


section \<open>Editing one price of a set\<close>

definition CodeUnitPriceAmbiguous :: string where "CodeUnitPriceAmbiguous = ''pricing_unit_price_ambiguous''"
definition CodePriceMoved :: string where "CodePriceMoved = ''pricing_price_moved''"
definition CodeListPriceTaken :: string where "CodeListPriceTaken = ''pricing_list_price_taken''"
definition CodePriceNotFound :: string where "CodePriceNotFound = ''pricing_price_not_found''"
definition AttrCustomerGroupID :: string where "AttrCustomerGroupID = ''customer_group_id''"

text \<open>Go's \<open>EqualFold\<close> where its first argument is ASCII: two runes outside ASCII fold to an ASCII letter,
  the long s and the Kelvin sign.\<close>

fun fold_case :: "string \<Rightarrow> string" where
  "fold_case [] = []"
| "fold_case (c # s) =
    (if c = CHR 0xE2 \<and> prefix [CHR 0x84, CHR 0xAA] s then CHR ''K'' # fold_case (drop 2 s)
     else if c = CHR 0xC5 \<and> prefix [CHR 0xBF] s then CHR ''S'' # fold_case (drop 1 s)
     else raise_char c # fold_case s)"

definition strings_EqualFold :: "string \<Rightarrow> string \<Rightarrow> bool" where
  "strings_EqualFold s t \<longleftrightarrow> fold_case s = fold_case t"

definition isBasePrice :: "price \<Rightarrow> bool" where
  "isBasePrice p \<longleftrightarrow> px_PriceListID p = None \<and> px_Rules p = []"

definition ruleInputs :: "price_rule list \<Rightarrow> price_rule_input list" where
  "ruleInputs rules = map (\<lambda>r. \<lparr> xi_Attribute = xr_Attribute r, xi_Operator = xr_Operator r, xi_Values = xr_Values r \<rparr>) rules"

definition price_input_of :: "price \<Rightarrow> price_input" where
  "price_input_of p = \<lparr> pin_CurrencyCode = px_CurrencyCode p, pin_Amount = px_Amount p, pin_MinQuantity = px_MinQuantity p,
    pin_MaxQuantity = px_MaxQuantity p, pin_PriceListID = px_PriceListID p, pin_Rules = ruleInputs (px_Rules p) \<rparr>"

definition covers_one_unit :: "price \<Rightarrow> string \<Rightarrow> bool" where
  "covers_one_unit p currency \<longleftrightarrow>
    \<not> (\<not> isBasePrice p \<or> \<not> strings_EqualFold (px_CurrencyCode p) currency) \<and>
    px_MinQuantity p \<le> price_MinQuantity \<and>
    (case px_MaxQuantity p of None \<Rightarrow> True | Some m \<Rightarrow> m \<ge> price_MinQuantity)"

definition unitBasePrices :: "price list \<Rightarrow> string \<Rightarrow> nat list" where
  "unitBasePrices prices currency = filter (\<lambda>i. covers_one_unit (prices ! i) currency) [0..<length prices]"

fun lowest_tier :: "int32 option \<Rightarrow> string \<Rightarrow> price list \<Rightarrow> int32 option" where
  "lowest_tier lowest currency [] = lowest"
| "lowest_tier lowest currency (p # ps) =
    (if \<not> isBasePrice p \<or> \<not> strings_EqualFold (px_CurrencyCode p) currency then lowest_tier lowest currency ps
     else
       (case lowest of
         None \<Rightarrow> lowest_tier (Some (px_MinQuantity p)) currency ps
       | Some l \<Rightarrow> lowest_tier (Some (if px_MinQuantity p < l then px_MinQuantity p else l)) currency ps))"

definition belowTiers :: "price list \<Rightarrow> string \<Rightarrow> int32 option" where
  "belowTiers prices currency = map_option (\<lambda>l. l - 1) (lowest_tier None currency prices)"

fun unit_edits ::
    "price list \<Rightarrow> (string \<Rightarrow> int64) \<Rightarrow> string list \<Rightarrow> price_input list \<times> bool \<Rightarrow> error + price_input list \<times> bool" where
  "unit_edits existing amounts [] (inputs, changed) = Inr (inputs, changed)"
| "unit_edits existing amounts (currency # cs) (inputs, changed) =
    (case unitBasePrices existing currency of
      [] \<Rightarrow>
        unit_edits existing amounts cs
          (inputs @ [\<lparr> pin_CurrencyCode = currency, pin_Amount = amounts currency, pin_MinQuantity = price_MinQuantity,
            pin_MaxQuantity = belowTiers existing currency, pin_PriceListID = None, pin_Rules = [] \<rparr>], True)
    | [i] \<Rightarrow>
        if pin_Amount (inputs ! i) \<noteq> amounts currency
        then unit_edits existing amounts cs (inputs[i := (inputs ! i)\<lparr> pin_Amount := amounts currency \<rparr>], True)
        else unit_edits existing amounts cs (inputs, changed)
    | _ \<Rightarrow> Inl (Conflict CodeUnitPriceAmbiguous))"

text \<open>Nothing when the edit changes nothing.\<close>

definition unitBaseInputs :: "price list \<Rightarrow> (string \<times> int64) list \<Rightarrow> error + price_input list option" where
  "unitBaseInputs existing amounts =
    and_then (unit_edits existing (\<lambda>c. the (map_of amounts c)) (sort (map fst amounts)) (map price_input_of existing, False))
      (\<lambda>(inputs, changed). Inr (if \<not> changed then None else Some (sort_key pin_CurrencyCode inputs)))"

fun normalize_amounts :: "(string \<times> int64) list \<Rightarrow> (string \<times> int64) list \<Rightarrow> error + (string \<times> int64) list" where
  "normalize_amounts acc [] = Inr acc"
| "normalize_amounts acc ((code, amount) # rest) =
    (let currency = strings_ToUpper (strings_TrimSpace code) in
     if currency \<in> fst ` set acc then Inl (Invalid price_CodeInvalidInput)
     else normalize_amounts (acc @ [(currency, amount)]) rest)"

definition reviseUnitBasePrices ::
    "faults \<Rightarrow> fresh_ids \<Rightarrow> string \<Rightarrow> (string \<times> int64) list \<Rightarrow> (price list \<Rightarrow> error option) \<Rightarrow> instant \<Rightarrow> price_db \<Rightarrow>
      (error + bool) \<times> price_db" where
  "reviseUnitBasePrices flt ids sid amountsByCurrency vet now =
    or_fail (normalize_amounts [] amountsByCurrency) (\<lambda>amounts.
    or_refuse (price_requireID sid PriceSetIDPrefix) (
    RevisePrices flt sid (\<lambda>existing.
      case vet existing of
        Some e \<Rightarrow> Inl e
      | None \<Rightarrow>
          and_then (unitBaseInputs existing amounts) (\<lambda>inputs.
          case inputs of
            None \<Rightarrow> Inr ([], False)
          | Some ins \<Rightarrow> and_then (buildPrices ids sid ins) (\<lambda>built. Inr (built, True)))) now))"

definition SetUnitBasePrices ::
    "faults \<Rightarrow> fresh_ids \<Rightarrow> string \<Rightarrow> (string \<times> int64) list \<Rightarrow> instant \<Rightarrow> price_db \<Rightarrow> (error + bool) \<times> price_db" where
  "SetUnitBasePrices flt ids sid amounts now = reviseUnitBasePrices flt ids sid amounts (\<lambda>_. None) now"

text \<open>The amount the form was drawn with has to be the one the set still holds.\<close>

definition price_unmoved :: "string \<Rightarrow> int64 \<Rightarrow> price list \<Rightarrow> error option" where
  "price_unmoved currency seen existing =
    (let at = unitBasePrices existing currency in
     if length at > 1 \<or> length at = 1 \<and> px_Amount (existing ! hd at) = seen then None
     else Some (Conflict CodePriceMoved))"

definition SetBasePriceAmount ::
    "faults \<Rightarrow> fresh_ids \<Rightarrow> string \<Rightarrow> string \<Rightarrow> int64 \<Rightarrow> int64 \<Rightarrow> instant \<Rightarrow> price_db \<Rightarrow> (error + bool) \<times> price_db" where
  "SetBasePriceAmount flt ids sid code seen amount now =
    (let currency = strings_ToUpper (strings_TrimSpace code) in
     or_refuse (if currency = [] then Some (Invalid price_CodeInvalidInput) else None)
       (reviseUnitBasePrices flt ids sid [(currency, amount)] (price_unmoved currency seen) now))"

definition sameRules :: "price_rule_input list \<Rightarrow> price_rule_input list \<Rightarrow> bool" where
  "sameRules a b \<longleftrightarrow> length a = length b \<and>
    list_all2 (\<lambda>x y. xi_Attribute x = xi_Attribute y \<and> xi_Operator x = xi_Operator y \<and>
      sort (xi_Values x) = sort (xi_Values y)) a b"

fun kept_inputs :: "string \<Rightarrow> price list \<Rightarrow> error + price_input list \<times> bool" where
  "kept_inputs removeID [] = Inr ([], False)"
| "kept_inputs removeID (p # ps) =
    (if removeID \<noteq> [] \<and> px_ID p = removeID then
       (if px_PriceListID p = None then Inl (Invalid price_CodeInvalidInput)
        else and_then (kept_inputs removeID ps) (\<lambda>(ins, _). Inr (ins, True)))
     else and_then (kept_inputs removeID ps) (\<lambda>(ins, removed). Inr (price_input_of p # ins, removed)))"

definition price_revise ::
    "faults \<Rightarrow> fresh_ids \<Rightarrow> string \<Rightarrow> string \<Rightarrow> (price_input list \<Rightarrow> error + price_input list) \<Rightarrow> instant \<Rightarrow> price_db \<Rightarrow>
      (error + bool) \<times> price_db" where
  "price_revise flt ids sid removeID change now =
    RevisePrices flt sid (\<lambda>existing.
      and_then (kept_inputs removeID existing) (\<lambda>(inputs, removed).
      if removeID \<noteq> [] \<and> \<not> removed then Inl (NotFound CodePriceNotFound)
      else
        and_then (change inputs) (\<lambda>inputs.
        and_then (buildPrices ids sid inputs) (\<lambda>built. Inr (built, True))))) now"

definition AddListPrice ::
    "faults \<Rightarrow> fresh_ids \<Rightarrow> string \<Rightarrow> string \<Rightarrow> string \<Rightarrow> int64 \<Rightarrow> string list \<Rightarrow> instant \<Rightarrow> price_db \<Rightarrow>
      (error + bool) \<times> price_db" where
  "AddListPrice flt ids sid lid code amount groupIDs now db =
    (case (case price_requireID lid PriceListIDPrefix of Some e \<Rightarrow> Inl e | None \<Rightarrow> GetPriceList flt lid db) of
      Inl e \<Rightarrow> (Inl e, db)
    | Inr _ \<Rightarrow>
        (let currency = strings_ToUpper (strings_TrimSpace code);
             rules = (if groupIDs \<noteq> [] then
               [\<lparr> xi_Attribute = AttrCustomerGroupID, xi_Operator = In, xi_Values = sort groupIDs \<rparr>] else []) in
         price_revise flt ids sid [] (\<lambda>inputs.
           if list_ex (\<lambda>i. pin_PriceListID i = Some lid \<and> pin_CurrencyCode i = currency \<and>
             pin_MinQuantity i = price_MinQuantity \<and> sameRules (pin_Rules i) rules) inputs
           then Inl (Conflict CodeListPriceTaken)
           else Inr (inputs @ [\<lparr> pin_CurrencyCode = currency, pin_Amount = amount, pin_MinQuantity = price_MinQuantity,
             pin_MaxQuantity = None, pin_PriceListID = Some lid, pin_Rules = rules \<rparr>])) now db))"

definition RemoveListPrice ::
    "faults \<Rightarrow> fresh_ids \<Rightarrow> string \<Rightarrow> string \<Rightarrow> instant \<Rightarrow> price_db \<Rightarrow> (error + bool) \<times> price_db" where
  "RemoveListPrice flt ids sid pid now = price_revise flt ids sid pid Inr now"

end
