(* ===== verification/PriceServiceProps.thy ===== *)
theory PriceServiceProps
  imports PriceService PriceRecord
begin

text \<open>
  What the pricing service gives its callers: a calculated total is exact, a comparison of a list tells
  what the shop would charge without the list and with it, and an edit of one price changes that
  price and nothing else.
\<close>

section \<open>A calculated price\<close>

lemma select_loop_in:
  "select_loop currency quantity attributes at best cs = Some b \<Longrightarrow>
    best = Some b \<or> (\<exists>c \<in> set cs. b = score c \<and> price_eligible c currency quantity attributes at)"
proof (induction cs arbitrary: best)
  case (Cons c cs)
  then show ?case by (fastforce simp: Let_def split: if_splits option.splits)
qed simp

lemma selectPrice_in:
  assumes "selectPrice cs currency quantity attributes at = Some k"
  obtains c where "c \<in> set cs" "price_eligible c currency quantity attributes at" "k = price_result (score c) quantity"
  using assms select_loop_in by (fastforce simp: selectPrice_def split: option.splits)

lemma candidates_with_rules:
  assumes "ListPriceCandidates flt sid db = Inr cs"
  shows "cs = map (candidate_of db) (with_rules db (live_prices db sid))"
  using assms by (auto simp: ListPriceCandidates_def dest: attachRules_Inr)

lemma live_prices_checked:
  assumes "in_step db" "p \<in> set (with_rules db (live_prices db sid))"
  shows "price_checks p \<and> px_PriceSetID p = sid"
proof -
  obtain r where r: "r \<in> set (td_price db)" "px_PriceSetID (rp_price r) = sid" "p = (rp_price r)\<lparr> px_Rules := rules_of db (px_ID (rp_price r)) \<rparr>"
    using assms(2) by (auto simp: with_rules_def live_prices_def)
  have "price_checks (rp_price r)" using assms(1) r(1) by (simp add: in_step_def tables_ok_def)
  then show ?thesis using r by (auto simp: price_checks_def split: option.splits)
qed

lemma normalizeQuantity_Inr: "normalizeQuantity q = Inr n \<Longrightarrow> 1 \<le> n \<and> n \<le> 1000000"
  by (auto simp: normalizeQuantity_def price_bounds split: if_splits)

lemma CalculatePrice_Inr:
  assumes "CalculatePrice flt sid params clock db = Inr k"
  obtains currency quantity where "price_normalizeCurrency (cal_CurrencyCode params) = Inr currency"
    "normalizeQuantity (cal_Quantity params) = Inr quantity"
    "selectPrice (map (candidate_of db) (with_rules db (live_prices db sid))) currency quantity (cal_Attributes params)
      (case cal_At params of None \<Rightarrow> clock | Some at \<Rightarrow> at) = Some k"
  using assms by (auto simp: CalculatePrice_def dest!: candidates_with_rules split: option.splits)

text \<open>on every state the tables reach, a price the service calculates is the unit amount of a live
  price of the set whose quantity range holds the quantity, at most a million of them, and its total is the
  exact product of the two, without wrap-around.\<close>

theorem calculated_total_exact:
  assumes "prices_at past db" "CalculatePrice flt sid params clock db = Inr k"
  shows "kp_Total k = kp_Amount k * kp_Quantity k \<and> 0 \<le> kp_Total k \<and> 1 \<le> kp_Quantity k \<and> kp_Quantity k \<le> 1000000 \<and>
    (\<exists>p \<in> set (live_prices db sid). px_ID p = kp_PriceID k \<and> px_Amount p = kp_Amount k \<and>
      px_CurrencyCode p = kp_CurrencyCode k \<and> px_MinQuantity p \<le> kp_Quantity k \<and>
      (\<forall>m. px_MaxQuantity p = Some m \<longrightarrow> kp_Quantity k \<le> m))"
proof -
  have ok: "in_step db" using prices_at_in_step [OF assms(1)] by simp
  from assms(2) obtain currency quantity c
    where q: "normalizeQuantity (cal_Quantity params) = Inr quantity"
      and c: "c \<in> set (map (candidate_of db) (with_rules db (live_prices db sid)))" "k = price_result (score c) quantity"
      "price_eligible c currency quantity (cal_Attributes params) (case cal_At params of None \<Rightarrow> clock | Some at \<Rightarrow> at)"
    by (elim CalculatePrice_Inr selectPrice_in)
  let ?p = "pc_Price c"
  have mem: "?p \<in> set (with_rules db (live_prices db sid))" using c(1) by (auto simp: candidate_of_def)
  then have chk: "price_checks ?p" using live_prices_checked [OF ok] by blast
  from mem obtain p where p: "p \<in> set (live_prices db sid)" "?p = p\<lparr> px_Rules := rules_of db (px_ID p) \<rparr>"
    by (auto simp: with_rules_def)
  have range: "px_MinQuantity ?p \<le> quantity" "\<forall>m. px_MaxQuantity ?p = Some m \<longrightarrow> quantity \<le> m"
    using c(3) by (auto simp: price_eligible_def Let_def split: if_splits)
  have bounds: "0 \<le> px_Amount ?p" "px_Amount ?p \<le> 1000000000000" "1 \<le> quantity" "quantity \<le> 1000000"
    using chk normalizeQuantity_Inr [OF q] by (auto simp: price_checks_def)
  then have "px_Amount ?p * quantity \<le> 1000000000000 * 1000000" by (intro mult_mono) auto
  moreover have pos: "0 \<le> px_Amount ?p * quantity" using bounds by simp
  ultimately have "mul64 (px_Amount ?p) quantity = px_Amount ?p * quantity"
    by (intro mul64_id) (simp add: is_i64_def MinInt64_def MaxInt64_def)
  then have k: "kp_Total k = kp_Amount k * kp_Quantity k" "kp_Amount k = px_Amount ?p" "kp_Quantity k = quantity"
    "kp_PriceID k = px_ID ?p" "kp_CurrencyCode k = px_CurrencyCode ?p"
    by (simp_all add: c(2) price_result_def score_def Let_def)
  then show ?thesis using bounds range p pos by (auto intro!: bexI [of _ p])
qed

theorem calculated_total_exact_witness:
  "\<exists>k. CalculatePrice no_faults ''pset_1'' \<lparr> cal_CurrencyCode = '' eur'', cal_Quantity = 3, cal_Attributes = Map.empty, cal_At = None \<rparr>
      12 day_one = Inr k \<and> kp_Total k = kp_Amount k * kp_Quantity k \<and> kp_Total k = 2400"
proof -
  have "case CalculatePrice no_faults ''pset_1'' \<lparr> cal_CurrencyCode = '' eur'', cal_Quantity = 3, cal_Attributes = Map.empty,
      cal_At = None \<rparr> 12 day_one of Inl _ \<Rightarrow> False | Inr k \<Rightarrow> kp_Total k = 2400" by code_simp
  then obtain k where k: "CalculatePrice no_faults ''pset_1'' \<lparr> cal_CurrencyCode = '' eur'', cal_Quantity = 3,
      cal_Attributes = Map.empty, cal_At = None \<rparr> 12 day_one = Inr k" "kp_Total k = 2400"
    by (auto split: sum.splits)
  show ?thesis using k calculated_total_exact [OF day_one_reached k(1)] by blast
qed

section \<open>A comparison with and without a list\<close>

text \<open>What the service charges for an item, as an amount.\<close>

definition priced_now ::
    "price_db \<Rightarrow> string \<Rightarrow> (string \<Rightarrow> string option) \<Rightarrow> instant \<Rightarrow> priced_item \<Rightarrow> calculated_amount" where
  "priced_now db code attributes at item =
    (case CalculatePrice no_faults (itm_PriceSetID item) \<lparr> cal_CurrencyCode = code, cal_Quantity = itm_Quantity item,
        cal_Attributes = attributes, cal_At = Some at \<rparr> at db of
      Inl _ \<Rightarrow> comparedAmount None | Inr k \<Rightarrow> comparedAmount (Some k))"

definition item_checked :: "priced_item \<Rightarrow> int32 \<Rightarrow> bool" where
  "item_checked item q \<longleftrightarrow> price_requireID (itm_PriceSetID item) PriceSetIDPrefix = None \<and> normalizeQuantity (itm_Quantity item) = Inr q"

definition entry_checked :: "compare_entry \<Rightarrow> string \<times> int32 list \<Rightarrow> bool" where
  "entry_checked x = (\<lambda>(currency, qs). price_normalizeCurrency (cmp_CurrencyCode x) = Inr currency \<and> list_all2 item_checked (cmp_Items x) qs)"

lemma check_priced_items_Inr: "check_priced_items items = Inr qs \<Longrightarrow> list_all2 item_checked items qs"
  by (induction items arbitrary: qs) (auto simp: item_checked_def split: option.splits sum.splits)

lemma check_entries_Inr: "check_entries entries = Inr checked \<Longrightarrow> list_all2 entry_checked entries checked"
  by (induction entries arbitrary: checked) (auto simp: entry_checked_def dest: check_priced_items_Inr)

lemma map_zip_checked: "list_all2 R xs ys \<Longrightarrow> (\<And>x y. x \<in> set xs \<Longrightarrow> R x y \<Longrightarrow> g (x, y) = f x) \<Longrightarrow> map g (zip xs ys) = map f xs"
  by (induction rule: list_all2_induct) auto

definition set_candidates :: "price_db \<Rightarrow> string \<Rightarrow> price_candidate list" where
  "set_candidates db sid = map (candidate_of db) (with_rules db (live_prices db sid))"

lemma ListPriceCandidates_no_faults: "ListPriceCandidates no_faults sid db = Inr (set_candidates db sid)"
proof -
  obtain qs where "attachRules no_faults (live_prices db sid) db = Inr qs"
    by (cases "live_prices db sid = []") (auto simp: attachRules_def q_ListPriceRulesByPrices_def statement_def no_faults_def)
  with attachRules_Inr [OF this] show ?thesis
    by (simp add: ListPriceCandidates_def statement_def no_faults_def set_candidates_def)
qed

lemma priced_now_select:
  assumes "item_checked item q" "price_normalizeCurrency code = Inr currency"
  shows "priced_now db code attributes at item = comparedAmount (selectPrice (set_candidates db (itm_PriceSetID item)) currency q attributes at)"
  using assms
  by (auto simp: priced_now_def CalculatePrice_def item_checked_def ListPriceCandidates_no_faults and_then_def
      selectPrice_def comparedAmount_def split: option.splits sum.splits if_splits)

lemma candidates_by_sets_read: "\<exists>bySet. ListPriceCandidatesBySets no_faults sids db = Inr bySet"
proof -
  have "\<exists>qs. attachRules no_faults ps db = Inr qs" for ps
    by (cases "ps = []") (auto simp: attachRules_def q_ListPriceRulesByPrices_def statement_def no_faults_def)
  from this [of "concat (map (live_prices db) (sorted_list_of_set (set sids)))"] show ?thesis
    by (auto simp: ListPriceCandidatesBySets_def statement_def no_faults_def)
qed

lemma live_prices_set: "p \<in> set (live_prices db sid) \<Longrightarrow> px_PriceSetID p = sid"
  by (auto simp: live_prices_def)

lemma candidates_by_sets:
  assumes "ListPriceCandidatesBySets flt sids db = Inr bySet" "sid \<in> set sids"
  shows "bySet sid = set_candidates db sid"
proof -
  let ?all = "concat (map (live_prices db) (sorted_list_of_set (set sids)))"
  have "bySet sid = filter (\<lambda>c. px_PriceSetID (pc_Price c) = sid) (map (candidate_of db) (with_rules db ?all))"
    using assms by (auto simp: ListPriceCandidatesBySets_def dest: attachRules_Inr split: if_splits)
  also have "\<dots> = map (candidate_of db) (with_rules db (filter (\<lambda>p. px_PriceSetID p = sid) ?all))"
    by (simp add: with_rules_def filter_map o_def candidate_of_def)
  also have "filter (\<lambda>p. px_PriceSetID p = sid) ?all =
      concat (map (\<lambda>s. if s = sid then live_prices db sid else []) (sorted_list_of_set (set sids)))"
    unfolding filter_concat map_map o_def
    by (intro arg_cong [where f = concat] map_cong refl) (auto simp: filter_empty_conv filter_id_conv dest: live_prices_set)
  also have "\<dots> = live_prices db sid"
    using assms(2) concat_single [of "sorted_list_of_set (set sids)" sid "live_prices db"] by simp
  finally show ?thesis by (simp add: set_candidates_def)
qed

definition on_list :: "string \<Rightarrow> price_candidate \<Rightarrow> bool" where
  "on_list lid c \<longleftrightarrow> (case pc_List c of None \<Rightarrow> False | Some l \<Rightarrow> pl_ID l = lid)"

definition offer :: "string \<Rightarrow> string \<Rightarrow> price_candidate \<Rightarrow> price_candidate" where
  "offer lid ltype c =
    (if on_list lid c then c\<lparr> pc_List := Some \<lparr> pl_ID = lid, pl_Type = ltype, pl_Status = PriceListActive,
      pl_StartsAt = None, pl_EndsAt = None \<rparr> \<rparr> else c)"

lemma withAndWithoutList_split:
  "withAndWithoutList cs lid ltype = (filter (\<lambda>c. \<not> on_list lid c) cs, map (offer lid ltype) cs)"
proof -
  have step: "(case pc_List c of None \<Rightarrow> True | Some l \<Rightarrow> pl_ID l \<noteq> lid) = (\<not> on_list lid c)" for c
    by (simp add: on_list_def split: option.split)
  have "fold (\<lambda>c (without, offered). if \<not> on_list lid c then (without @ [c], offered @ [c])
      else (without, offered @ [c\<lparr> pc_List := Some \<lparr> pl_ID = lid, pl_Type = ltype,
              pl_Status = PriceListActive, pl_StartsAt = None, pl_EndsAt = None \<rparr> \<rparr>])) cs (a, b) =
    (a @ filter (\<lambda>c. \<not> on_list lid c) cs, b @ map (offer lid ltype) cs)" for a b
    by (induction cs arbitrary: a b) (auto simp: offer_def)
  from this [of "[]" "[]"] show ?thesis by (simp only: withAndWithoutList_def step append_Nil)
qed

text \<open>Tables that differ in one list.\<close>

definition list_set_to :: "string \<Rightarrow> price_list option \<Rightarrow> price_db \<Rightarrow> price_db \<Rightarrow> bool" where
  "list_set_to lid l db db' \<longleftrightarrow> td_price db' = td_price db \<and> td_rule db' = td_rule db \<and>
    (\<forall>q. live_list db' q = (if q = lid then l else live_list db q))"

lemma candidate_on_list:
  "on_list lid (candidate_of db p) \<longleftrightarrow> px_PriceListID p = Some lid \<and> live_list db lid \<noteq> None"
  using live_list_id by (auto simp: on_list_def candidate_of_def info_of_def split: option.splits)

lemma set_candidates_other:
  assumes "list_set_to lid l db db'"
  shows "set_candidates db' sid = map (candidate_of db') (with_rules db (live_prices db sid))"
  using assms by (simp add: set_candidates_def list_set_to_def with_rules_def live_prices_def rules_of_def)

lemma without_list:
  assumes "list_set_to lid None db db'"
  shows "selectPrice (filter (\<lambda>c. \<not> on_list lid c) (set_candidates db sid)) currency q attributes at =
    selectPrice (set_candidates db' sid) currency q attributes at"
proof -
  have same: "candidate_of db' p = candidate_of db p" if "px_PriceListID p \<noteq> Some lid" for p
    using that assms by (auto simp: candidate_of_def list_set_to_def split: option.split)
  have off: "\<not> price_eligible (candidate_of db' p) currency q attributes at" if "px_PriceListID p = Some lid" for p
    using that assms by (simp add: price_eligible_def candidate_of_def listAvailable_def list_set_to_def Let_def)
  have gone: "candidate_of db p = candidate_of db' p" if "px_PriceListID p = Some lid" "\<not> on_list lid (candidate_of db p)" for p
    using that assms candidate_on_list [of lid db p] by (simp add: candidate_of_def list_set_to_def)
  have "select_loop currency q attributes at best (filter (\<lambda>c. \<not> on_list lid c) (map (candidate_of db) ps)) =
      select_loop currency q attributes at best (map (candidate_of db') ps)" for best ps
  proof (induction ps arbitrary: best)
    case (Cons p ps)
    show ?case
    proof (cases "px_PriceListID p = Some lid")
      case True
      then show ?thesis using Cons.IH off [OF True] gone [OF True] by (cases "on_list lid (candidate_of db p)") simp_all
    next
      case False
      then have "\<not> on_list lid (candidate_of db p)" by (simp add: candidate_on_list)
      then show ?thesis using Cons.IH same [OF False] by (simp add: Let_def split: option.split)
    qed
  qed simp
  then show ?thesis using set_candidates_other [OF assms] by (simp add: selectPrice_def set_candidates_def)
qed

definition offered_list :: "price_list \<Rightarrow> price_list" where
  "offered_list l = l\<lparr> pl_Status := PriceListActive, pl_StartsAt := None, pl_EndsAt := None \<rparr>"

lemma with_list:
  assumes "list_set_to lid (Some (offered_list l)) db db'" "live_list db lid = Some l"
  shows "map (offer lid (pl_Type l)) (set_candidates db sid) = set_candidates db' sid"
proof -
  have "offer lid (pl_Type l) (candidate_of db p) = candidate_of db' p" for p
  proof (cases "px_PriceListID p = Some lid")
    case True
    then show ?thesis using assms live_list_id [OF assms(2)]
      by (simp add: offer_def candidate_on_list) (simp add: candidate_of_def list_set_to_def info_of_def offered_list_def)
  next
    case False
    then show ?thesis using assms(1)
      by (simp add: offer_def candidate_on_list) (auto simp: candidate_of_def list_set_to_def split: option.split)
  qed
  then show ?thesis by (simp add: set_candidates_other [OF assms(1)]) (simp add: set_candidates_def)
qed

lemma deleted_list:
  assumes "live_list db lid = Some l"
  shows "list_set_to lid None db (snd (repo_DeletePriceList no_faults lid now db))"
proof -
  have "snd (repo_DeletePriceList no_faults lid now db) =
      db\<lparr> td_list := map (\<lambda>r. if pl_ID (rl_list r) = lid then r\<lparr> rl_deleted := True \<rparr> else r) (td_list db),
        td_list_history := td_list_history db @ [\<lparr> ls_RecordedAt = now, ls_Info = info_of l, ls_Deleted = True \<rparr>] \<rparr>"
    using assms by (simp add: repo_DeletePriceList_def price_inTx_def transact_def no_faults_def q_GetPriceList_def
        q_SoftDeletePriceList_def recordListHistory_def statement_def found_def)
  then show ?thesis using live_list_delete [of lid db] by (simp add: list_set_to_def live_list_def)
qed

lemma activated_list:
  assumes "live_list db lid = Some l" "price_list_checks l"
  shows "list_set_to lid (Some (offered_list l)) db (snd (repo_UpdatePriceList no_faults (offered_list l) now db))"
proof -
  let ?l = "offered_list l"
  have lid: "pl_ID ?l = lid" using live_list_id [OF assms(1)] by (simp add: offered_list_def)
  have "price_list_checks ?l" using assms(2) by (simp add: price_list_checks_def offered_list_def price_words)
  then have "snd (repo_UpdatePriceList no_faults ?l now db) =
      db\<lparr> td_list := map (\<lambda>r. if pl_ID (rl_list r) = lid then r\<lparr> rl_list := ?l \<rparr> else r) (td_list db),
        td_list_history := td_list_history db @ [\<lparr> ls_RecordedAt = now, ls_Info = info_of ?l, ls_Deleted = False \<rparr>] \<rparr>"
    using assms(1) by (simp add: lid repo_UpdatePriceList_def price_inTx_def transact_def no_faults_def q_GetPriceListForUpdate_def
        q_UpdatePriceList_def recordListHistory_def statement_def found_def)
  then show ?thesis using live_list_update [of db ?l l] assms(1) by (simp add: lid list_set_to_def live_list_def)
qed

text \<open>C12: a comparison of a price list over purchases tells, for every line, first the amount the shop
  would charge for it were the list deleted and then the amount it would charge were the list active
  with no window, whatever the list's status and window are now.\<close>

theorem comparison_tells_the_ladder:
  assumes "prices_at past db" "CompareList flt lid entries at db = Inr answers"
  shows "\<exists>l. live_list db lid = Some l \<and>
    (let gone = snd (repo_DeletePriceList no_faults lid now db);
         offered = snd (repo_UpdatePriceList no_faults (offered_list l) now db) in
     answers = map (\<lambda>x. (cmp_Reference x,
       map (\<lambda>item. (priced_now gone (cmp_CurrencyCode x) (cmp_Attributes x) at item,
                    priced_now offered (cmp_CurrencyCode x) (cmp_Attributes x) at item)) (cmp_Items x))) entries)"
proof -
  have ok: "in_step db" using prices_at_in_step [OF assms(1)] by simp
  obtain l checked bySet where l: "live_list db lid = Some l" and checked: "list_all2 entry_checked entries checked"
    and bySet: "ListPriceCandidatesBySets flt (remdups (concat (map (\<lambda>x. map itm_PriceSetID (cmp_Items x)) entries))) db = Inr bySet"
    and answers: "answers = map (\<lambda>(x, currency, quantities). (cmp_Reference x, map (\<lambda>(item, q).
        case withAndWithoutList (bySet (itm_PriceSetID item)) (pl_ID l) (pl_Type l) of (baseline, trial) \<Rightarrow>
          (comparedAmount (selectPrice baseline currency q (cmp_Attributes x) at),
           comparedAmount (selectPrice trial currency q (cmp_Attributes x) at)))
        (zip (cmp_Items x) quantities))) (zip entries checked)"
    using assms(2) by (auto simp: CompareList_def GetPriceList_def q_GetPriceList_def dest: check_entries_Inr split: option.splits if_splits)
  have "price_list_checks l" using ok l by (auto simp: in_step_def tables_ok_def lists_ok_def live_list_def find_Some_iff)
  define gone where "gone = snd (repo_DeletePriceList no_faults lid now db)"
  define offered where "offered = snd (repo_UpdatePriceList no_faults (offered_list l) now db)"
  have states: "list_set_to lid None db gone" "list_set_to lid (Some (offered_list l)) db offered"
    using deleted_list [OF l] activated_list [OF l \<open>price_list_checks l\<close>] by (simp_all add: gone_def offered_def)
  have lid: "pl_ID l = lid" by (rule live_list_id [OF l])
  have line: "(case withAndWithoutList (bySet (itm_PriceSetID item)) (pl_ID l) (pl_Type l) of (baseline, trial) \<Rightarrow>
          (comparedAmount (selectPrice baseline currency q (cmp_Attributes x) at),
           comparedAmount (selectPrice trial currency q (cmp_Attributes x) at))) =
      (priced_now gone (cmp_CurrencyCode x) (cmp_Attributes x) at item, priced_now offered (cmp_CurrencyCode x) (cmp_Attributes x) at item)"
    if "x \<in> set entries" "item \<in> set (cmp_Items x)" "item_checked item q" "price_normalizeCurrency (cmp_CurrencyCode x) = Inr currency"
    for x item q currency
  proof -
    have "bySet (itm_PriceSetID item) = set_candidates db (itm_PriceSetID item)"
      using that(1,2) by (intro candidates_by_sets [OF bySet]) auto
    then show ?thesis
      by (simp add: lid withAndWithoutList_split priced_now_select [OF that(3,4)] without_list [OF states(1)] with_list [OF states(2) l])
  qed
  have "answers = map (\<lambda>x. (cmp_Reference x,
       map (\<lambda>item. (priced_now gone (cmp_CurrencyCode x) (cmp_Attributes x) at item,
                    priced_now offered (cmp_CurrencyCode x) (cmp_Attributes x) at item)) (cmp_Items x))) entries"
    unfolding answers
  proof (rule map_zip_checked [OF checked])
    fix x y assume x: "x \<in> set entries" "entry_checked x y"
    then obtain currency qs where y: "y = (currency, qs)" "price_normalizeCurrency (cmp_CurrencyCode x) = Inr currency"
      "list_all2 item_checked (cmp_Items x) qs" by (auto simp: entry_checked_def)
    have "map (\<lambda>(item, q). case withAndWithoutList (bySet (itm_PriceSetID item)) (pl_ID l) (pl_Type l) of (baseline, trial) \<Rightarrow>
          (comparedAmount (selectPrice baseline currency q (cmp_Attributes x) at),
           comparedAmount (selectPrice trial currency q (cmp_Attributes x) at))) (zip (cmp_Items x) qs) =
      map (\<lambda>item. (priced_now gone (cmp_CurrencyCode x) (cmp_Attributes x) at item,
                    priced_now offered (cmp_CurrencyCode x) (cmp_Attributes x) at item)) (cmp_Items x)"
      using line [OF x(1) _ _ y(2)] by (intro map_zip_checked [OF y(3)]) simp
    then show "(\<lambda>(x, currency, quantities). (cmp_Reference x, map (\<lambda>(item, q).
        case withAndWithoutList (bySet (itm_PriceSetID item)) (pl_ID l) (pl_Type l) of (baseline, trial) \<Rightarrow>
          (comparedAmount (selectPrice baseline currency q (cmp_Attributes x) at),
           comparedAmount (selectPrice trial currency q (cmp_Attributes x) at)))
        (zip (cmp_Items x) quantities))) (x, y) =
      (cmp_Reference x, map (\<lambda>item. (priced_now gone (cmp_CurrencyCode x) (cmp_Attributes x) at item,
                    priced_now offered (cmp_CurrencyCode x) (cmp_Attributes x) at item)) (cmp_Items x))"
      by (simp add: y(1))
  qed
  with l show ?thesis by (simp add: gone_def offered_def Let_def)
qed

definition one_purchase :: "compare_entry list" where
  "one_purchase = [\<lparr> cmp_Reference = ''order_1'', cmp_CurrencyCode = ''EUR'', cmp_Attributes = Map.empty,
    cmp_Items = [\<lparr> itm_PriceSetID = ''pset_1'', itm_Quantity = 2 \<rparr>] \<rparr>]"

theorem comparison_tells_the_ladder_witness:
  "\<exists>answers. CompareList no_faults ''plist_1'' one_purchase 900 day_one = Inr answers \<and>
    answers = [(''order_1'',
      [(priced_now (snd (repo_DeletePriceList no_faults ''plist_1'' 20 day_one)) ''EUR'' Map.empty 900 \<lparr> itm_PriceSetID = ''pset_1'', itm_Quantity = 2 \<rparr>,
        priced_now (snd (repo_UpdatePriceList no_faults (offered_list spring_sale) 20 day_one)) ''EUR'' Map.empty 900 \<lparr> itm_PriceSetID = ''pset_1'', itm_Quantity = 2 \<rparr>)])] \<and>
    map (map_prod (\<lambda>x. x) (map (map_prod ka_Amount ka_Amount))) answers = [(''order_1'', [(1000, 800)])]"
proof -
  have checked: "check_entries one_purchase = Inr [(''EUR'', [2])]" and reqid: "price_requireID ''plist_1'' PriceListIDPrefix = None"
    and l: "GetPriceList no_faults ''plist_1'' day_one = Inr spring_sale" "live_list day_one ''plist_1'' = Some spring_sale"
    by code_simp+
  obtain bySet where bySet: "ListPriceCandidatesBySets no_faults [''pset_1''] day_one = Inr bySet"
    using candidates_by_sets_read [of "[''pset_1'']" day_one] by auto
  obtain answers where a: "CompareList no_faults ''plist_1'' one_purchase 900 day_one = Inr answers"
    using checked bySet by (simp add: CompareList_def reqid l(1) MaxCompareEntries_def MaxCompareItems_def one_purchase_def)
  have amounts: "ka_Amount (priced_now (snd (repo_DeletePriceList no_faults ''plist_1'' 20 day_one)) ''EUR'' Map.empty 900
      \<lparr> itm_PriceSetID = ''pset_1'', itm_Quantity = 2 \<rparr>) = 1000"
    "ka_Amount (priced_now (snd (repo_UpdatePriceList no_faults (offered_list spring_sale) 20 day_one)) ''EUR'' Map.empty 900
      \<lparr> itm_PriceSetID = ''pset_1'', itm_Quantity = 2 \<rparr>) = 800" by code_simp+
  show ?thesis
    using comparison_tells_the_ladder [OF day_one_reached a, of 20] a amounts l(2) by (auto simp: Let_def one_purchase_def)
qed

section \<open>What a replacement leaves in the tables\<close>

definition rule_row :: "instant \<Rightarrow> string \<Rightarrow> price_rule \<Rightarrow> price_rule_row" where
  "rule_row now pid r = \<lparr> rq_rule = r\<lparr> xr_PriceID := pid \<rparr>, rq_created = now, rq_deleted = False \<rparr>"

definition new_row :: "instant \<Rightarrow> string \<Rightarrow> price \<Rightarrow> price_row" where
  "new_row now sid p = \<lparr> rp_price = p\<lparr> px_PriceSetID := sid, px_Rules := [] \<rparr>, rp_created = now, rp_deleted = False \<rparr>"

lemma insert_rules_rows:
  "insert_rules flt pid rs now db = Inr db' \<Longrightarrow> db' = db\<lparr> td_rule := td_rule db @ map (rule_row now pid) rs \<rparr>"
proof (induction rs arbitrary: db)
  case (Cons r rs)
  then obtain db1 where "q_InsertPriceRule flt (r\<lparr> xr_PriceID := pid \<rparr>) now db = Inr db1" "insert_rules flt pid rs now db1 = Inr db'"
    by auto
  then show ?case using Cons.IH [of db1] by (auto simp: q_InsertPriceRule_def rule_row_def split: if_splits)
qed simp

lemma insertPrices_rows:
  "insertPrices flt sid ps now db = Inr db' \<Longrightarrow>
    db' = db\<lparr> td_price := td_price db @ map (new_row now sid) ps,
      td_rule := td_rule db @ concat (map (\<lambda>p. map (rule_row now (px_ID p)) (px_Rules p)) ps) \<rparr> \<and>
    distinct (map px_ID ps) \<and> (\<forall>p \<in> set ps. px_ID p \<notin> set (price_ids db))"
proof (induction ps arbitrary: db)
  case (Cons p ps)
  then obtain db1 db2 where 1: "q_InsertPrice flt (p\<lparr> px_PriceSetID := sid \<rparr>) now db = Inr db1"
    "insert_rules flt (px_ID p) (px_Rules p) now db1 = Inr db2" "insertPrices flt sid ps now db2 = Inr db'" by auto
  have db1: "db1 = db\<lparr> td_price := td_price db @ [new_row now sid p] \<rparr>" "px_ID p \<notin> set (price_ids db)"
    using 1(1) by (auto simp: q_InsertPrice_def new_row_def price_ids_def list_ex_iff split: if_splits)
  have "price_ids db2 = price_ids db @ [px_ID p]"
    by (simp add: insert_rules_rows [OF 1(2)] db1(1) price_ids_def new_row_def)
  then show ?case using Cons.IH [OF 1(3)] insert_rules_rows [OF 1(2)] db1 by auto
qed simp

lemma sort_key_same: "\<forall>x \<in> set xs. f x = c \<Longrightarrow> sort_key f xs = xs"
proof (induction xs)
  case (Cons x xs)
  then show ?case by (simp add: insort_is_Cons)
qed simp

definition set_prices :: "price_db \<Rightarrow> string \<Rightarrow> price list" where
  "set_prices db sid = with_rules db (live_prices db sid)"

definition written_price :: "string \<Rightarrow> price \<Rightarrow> price" where
  "written_price sid p = p\<lparr> px_PriceSetID := sid, px_Rules := map (\<lambda>r. r\<lparr> xr_PriceID := px_ID p \<rparr>) (px_Rules p) \<rparr>"

lemma replaceLocked_prices:
  assumes "replaceLocked flt sid ps now db = Inr db'" "tables_ok db"
  shows "set_prices db' sid = map (written_price sid) ps"
proof -
  let ?kept = "filter (\<lambda>r. \<not> (px_PriceSetID (rp_price r) = sid \<and> \<not> rp_deleted r)) (td_price db)"
  let ?left = "filter (\<lambda>x. xr_PriceID (rq_rule x) \<notin> gone_prices db sid) (td_rule db)"
  define db0 where "db0 = db\<lparr> td_price := ?kept, td_rule := ?left \<rparr>"
  obtain db1 where 1: "insertPrices flt sid ps now db0 = Inr db1" "recordSetHistory flt sid now db1 = Inr db'"
    using assms(1) by (auto simp: replaceLocked_def q_DeletePricesBySet_def db0_def)
  note rows = insertPrices_rows [OF 1(1)]
  have same: "td_price db' = ?kept @ map (new_row now sid) ps"
    "td_rule db' = ?left @ concat (map (\<lambda>p. map (rule_row now (px_ID p)) (px_Rules p)) ps)"
    using rows recordSetHistory_Inr [OF 1(2)] by (simp_all add: db0_def)
  have "filter (\<lambda>r. px_PriceSetID (rp_price r) = sid \<and> \<not> rp_deleted r) (td_price db') = map (new_row now sid) ps"
    by (auto simp: same(1) filter_empty_conv filter_map o_def new_row_def intro!: filter_True)
  moreover have "sort_key rp_created (map (new_row now sid) ps) = map (new_row now sid) ps"
    by (rule sort_key_same [of _ _ now]) (auto simp: new_row_def)
  ultimately have live: "live_prices db' sid = map (\<lambda>p. p\<lparr> px_PriceSetID := sid, px_Rules := [] \<rparr>) ps"
    by (simp add: live_prices_def new_row_def o_def)
  have rules: "rules_of db' (px_ID p) = map (\<lambda>r. r\<lparr> xr_PriceID := px_ID p \<rparr>) (px_Rules p)" if p: "p \<in> set ps" for p
  proof -
    have fresh: "px_ID p \<notin> set (price_ids db0)" using rows p by blast
    have "xr_PriceID (rq_rule x) \<noteq> px_ID p" if "x \<in> set ?left" for x
    proof
      assume eq: "xr_PriceID (rq_rule x) = px_ID p"
      from that have "x \<in> set (td_rule db)" "xr_PriceID (rq_rule x) \<notin> gone_prices db sid" by auto
      with assms(2) obtain r where "r \<in> set (td_price db)" "px_ID (rp_price r) = px_ID p" "px_ID p \<notin> gone_prices db sid"
        by (auto simp: tables_ok_def price_ids_def eq)
      then have "r \<in> set ?kept" by (force simp: gone_prices_def)
      with fresh \<open>px_ID (rp_price r) = px_ID p\<close> show False by (force simp: db0_def price_ids_def)
    qed
    then have "filter (\<lambda>x. xr_PriceID (rq_rule x) = px_ID p \<and> \<not> rq_deleted x) ?left = []" unfolding filter_empty_conv by blast
    moreover have "filter (\<lambda>x. xr_PriceID (rq_rule x) = px_ID p \<and> \<not> rq_deleted x)
        (concat (map (\<lambda>p. map (rule_row now (px_ID p)) (px_Rules p)) ps)) = map (rule_row now (px_ID p)) (px_Rules p)"
    proof -
      have "distinct (map px_ID ps)" using rows by blast
      then show ?thesis using p
      proof (induction ps)
        case (Cons q qs)
        have none: "filter (\<lambda>x. xr_PriceID (rq_rule x) = i \<and> \<not> rq_deleted x)
            (concat (map (\<lambda>p. map (rule_row now (px_ID p)) (px_Rules p)) xs)) = []" if "i \<notin> px_ID ` set xs" for i xs
          using that by (auto simp: filter_empty_conv rule_row_def)
        show ?case
        proof (cases "p = q")
          case True
          then show ?thesis using Cons.prems none [of "px_ID p" qs] by (auto simp: rule_row_def filter_empty_conv intro!: filter_True)
        next
          case False
          then have "p \<in> set qs" "px_ID q \<noteq> px_ID p" using Cons.prems by auto
          then show ?thesis using Cons by (auto simp: filter_empty_conv rule_row_def)
        qed
      qed simp
    qed
    moreover have "sort_key rq_created (map (rule_row now (px_ID p)) (px_Rules p)) = map (rule_row now (px_ID p)) (px_Rules p)"
      by (rule sort_key_same [of _ _ now]) (auto simp: rule_row_def)
    ultimately show ?thesis by (simp add: rules_of_def same(2) rule_row_def o_def)
  qed
  show ?thesis by (auto simp: set_prices_def with_rules_def live written_price_def rules)
qed

section \<open>An edit of one price\<close>

text \<open>Building keeps the terms of an input the tables hold.\<close>

definition kept_currency :: "string \<Rightarrow> bool" where
  "kept_currency c \<longleftrightarrow> price_normalizeCurrency c = Inr c"

lemma upper_code:
  assumes "length c = 3" "list_all upper_char c"
  shows "strings_TrimSpace c = c" and "strings_ToUpper c = c"
proof -
  obtain x y z where c: "c = [x, y, z]" "upper_char x" "upper_char y" "upper_char z"
    using assms by (auto simp: length_Suc_conv numeral_3_eq_3)
  have runes: "list_all (\<lambda>q. q \<noteq> [] \<and> \<not> upper_char (hd q)) space_runes"
    "list_all (\<lambda>q. q \<noteq> [] \<and> \<not> upper_char (hd q)) (map rev space_runes)" by code_simp+
  have no_space: "strip_rune rs (a # s) = None"
    if "list_all (\<lambda>q. q \<noteq> [] \<and> \<not> upper_char (hd q)) rs" "upper_char a" for rs a s
  proof -
    have "find (\<lambda>q. q \<noteq> [] \<and> prefix q (a # s)) rs = None"
      using that by (fastforce simp: find_None_iff list_all_iff prefix_Cons)
    then show ?thesis by (simp add: strip_rune_def)
  qed
  have "strip_all (map rev space_runes) [z, y, x] = [z, y, x]"
    using no_space [OF runes(2)] c by (subst strip_all.simps) simp
  moreover have "strip_all space_runes [x, y, z] = [x, y, z]"
    using no_space [OF runes(1)] c by (subst strip_all.simps) simp
  ultimately show "strings_TrimSpace c = c" by (simp add: strings_TrimSpace_def c(1))
  have "\<not> lower_char a" if "upper_char a" for a using that by (simp add: lower_char_def upper_char_def)
  moreover have "a \<noteq> CHR 0xC4 \<and> a \<noteq> CHR 0xC5" if "upper_char a" for a using that by (auto simp: upper_char_def)
  ultimately show "strings_ToUpper c = c" using c by (simp add: raise_char_def)
qed

lemma normalizeCurrency_kept:
  assumes "length c = 3" "list_all upper_char c"
  shows "price_normalizeCurrency c = Inr c"
  using assms upper_code [OF assms]
  by (auto simp: price_normalizeCurrency_def price_currencyCodeLen_def Let_def list_ex_iff list_all_iff)

lemma normalizeCurrency_upper: "price_normalizeCurrency c = Inr d \<Longrightarrow> d = strings_ToUpper (strings_TrimSpace c) \<and> length d = 3 \<and> list_all upper_char d"
  by (auto simp: price_normalizeCurrency_def price_currencyCodeLen_def Let_def list_ex_iff list_all_iff split: if_splits)

definition kept_terms :: "price_input \<Rightarrow> bool" where
  "kept_terms i \<longleftrightarrow> price_normalizeCurrency (pin_CurrencyCode i) = Inr (pin_CurrencyCode i) \<and> pin_MinQuantity i \<noteq> 0"

lemma build_rules_inputs: "build_rules rid j pid rs = Inr xs \<Longrightarrow> ruleInputs xs = rs"
  by (induction rs arbitrary: j xs) (auto simp: ruleInputs_def price_buildRule_def split: option.splits)

lemma buildPrice_inputs: "buildPrice ids i sid inp = Inr p \<Longrightarrow> kept_terms inp \<Longrightarrow> price_input_of p = inp"
  by (auto simp: buildPrice_def kept_terms_def price_input_of_def normalizeQuantityRange_def Let_def dest!: build_rules_inputs
      split: option.splits if_splits)

lemma build_prices_inputs:
  "build_prices_from ids i sid ins = Inr ps \<Longrightarrow> list_all kept_terms ins \<Longrightarrow> map price_input_of ps = ins"
  by (induction ins arbitrary: i ps) (auto dest: buildPrice_inputs)

lemma written_terms [simp]: "price_input_of (written_price sid p) = price_input_of p"
  by (simp add: price_input_of_def written_price_def ruleInputs_def o_def)

lemma existing_terms:
  assumes "in_step db" "p \<in> set (set_prices db sid)"
  shows "kept_terms (price_input_of p)"
proof -
  have "price_checks p" using live_prices_checked [OF assms(1)] assms(2) by (simp add: set_prices_def)
  then show ?thesis
    by (auto simp: kept_terms_def price_input_of_def price_checks_def intro: normalizeCurrency_kept)
qed

lemma RevisePrices_Inr:
  assumes "RevisePrices flt sid revise now db = (Inr wrote, db')"
  shows "\<exists>chosen. revise (set_prices db sid) = Inr (chosen, wrote) \<and>
    (if wrote then replaceLocked flt sid chosen now db = Inr db' else db' = db)"
proof -
  from assms have "(case (and_then (wrapped (price_notFoundOr CodePriceSetNotFound) (q_GetPriceSetForUpdate flt sid db)) (\<lambda>_.
    and_then (wrapped price_wrapDB (q_ListPricesBySet flt sid db)) (\<lambda>rows.
    and_then (attachRules flt rows db) (\<lambda>current.
    and_then (revise current) (\<lambda>(next_prices, write).
      if \<not> write then Inr (False, db)
      else and_then (replaceLocked flt sid next_prices now db) (\<lambda>db1. Inr (True, db1))))))) of
      Inl _ \<Rightarrow> False | Inr (a, d) \<Rightarrow> a = wrote \<and> d = db')"
    by (auto simp: RevisePrices_def price_inTx_def transact_def split: option.splits sum.splits)
  then show ?thesis
    by (auto simp: q_ListPricesBySet_def set_prices_def dest!: attachRules_Inr split: sum.splits if_splits)
qed

lemma unitBasePrices_single:
  assumes "unitBasePrices ps currency = [i]"
  shows "i < length ps" "covers_one_unit (ps ! i) currency" "\<forall>p \<in> set ps. covers_one_unit p currency \<longrightarrow> p = ps ! i"
proof -
  have iff: "j < length ps \<and> covers_one_unit (ps ! j) currency \<longleftrightarrow> j = i" for j
  proof -
    have "j \<in> set (unitBasePrices ps currency) \<longleftrightarrow> j = i" by (simp add: assms)
    then show ?thesis by (simp add: unitBasePrices_def conj_commute)
  qed
  show "i < length ps" "covers_one_unit (ps ! i) currency" using iff [of i] by simp_all
  show "\<forall>p \<in> set ps. covers_one_unit p currency \<longrightarrow> p = ps ! i" using iff by (metis in_set_conv_nth)
qed

lemma price_unmoved_None:
  "price_unmoved currency seen ps = None \<longleftrightarrow>
    length (unitBasePrices ps currency) > 1 \<or> (\<exists>i. unitBasePrices ps currency = [i] \<and> px_Amount (ps ! i) = seen)"
  by (cases "unitBasePrices ps currency") (auto simp: price_unmoved_def Let_def)

lemma unitBaseInputs_single:
  assumes "unitBaseInputs ps [(currency, amount)] = Inr ins" "price_unmoved currency seen ps = None"
  obtains i where "unitBasePrices ps currency = [i]" "px_Amount (ps ! i) = seen" "i < length ps"
    "ins = (if amount = seen then None
      else Some (sort_key pin_CurrencyCode ((map price_input_of ps)[i := (price_input_of (ps ! i))\<lparr> pin_Amount := amount \<rparr>])))"
proof -
  obtain i where i: "unitBasePrices ps currency = [i]" "px_Amount (ps ! i) = seen"
  proof (cases "unitBasePrices ps currency")
    case Nil
    with assms(2) show ?thesis by (simp add: price_unmoved_None)
  next
    case (Cons i rest)
    show ?thesis
    proof (cases rest)
      case Nil
      then show ?thesis using assms(2) Cons that by (simp add: price_unmoved_None)
    next
      case (Cons k ks)
      then show ?thesis using assms(1) \<open>unitBasePrices ps currency = i # rest\<close> by (simp add: unitBaseInputs_def)
    qed
  qed
  have "i < length ps" by (rule unitBasePrices_single(1) [OF i(1)])
  then show ?thesis using assms(1) i that by (auto simp: unitBaseInputs_def price_input_of_def split: if_splits)
qed

lemma others_kept:
  assumes "replaceLocked flt sid ps now db = Inr db'" "tables_ok db" "s \<noteq> sid"
  shows "map price_input_of (set_prices db' s) = map price_input_of (set_prices db s)"
proof -
  have terms: "map price_input_of (set_prices d s) = map price_input_of (snapshot_of d s)" for d
    by (simp add: snapshot_of_def set_prices_def price_input_of_def fromHistoryPrice_def ruleInputs_def o_def)
  obtain db1 where "db' = db1\<lparr> td_set_history := td_set_history db1 @ [set_snapshot sid now db1] \<rparr>"
    "\<forall>s. s \<noteq> sid \<longrightarrow> snapshot_of db1 s = snapshot_of db s"
    using replaceLocked_keeps [OF assms(1,2)] by blast
  then have "snapshot_of db' s = snapshot_of db s"
    using assms(3) by (simp add: snapshot_of_def with_rules_def live_prices_def rules_of_def)
  then show ?thesis by (simp add: terms)
qed

text \<open>C15: an edit of a set's base price that succeeds found exactly one base price at one unit in the
  currency, holding the amount the form was drawn with; that price now has the new amount, every other
  price of the set, its tiers, list prices and rules, keeps its terms, and so do the other sets. An
  amount that already stands writes nothing.\<close>

theorem base_price_edit_exact:
  assumes "prices_at past db" "price_normalizeCurrency code = Inr currency"
    and "SetBasePriceAmount flt ids sid code seen amount now db = (Inr wrote, db')"
  shows "\<exists>p \<in> set (set_prices db sid). covers_one_unit p currency \<and> px_Amount p = seen \<and>
    (\<forall>q \<in> set (set_prices db sid). covers_one_unit q currency \<longrightarrow> q = p) \<and>
    mset (map price_input_of (set_prices db' sid)) =
      mset (map price_input_of (set_prices db sid)) - {# price_input_of p #} + {# (price_input_of p)\<lparr> pin_Amount := amount \<rparr> #} \<and>
    (\<forall>s. s \<noteq> sid \<longrightarrow> map price_input_of (set_prices db' s) = map price_input_of (set_prices db s)) \<and>
    wrote = (amount \<noteq> seen) \<and> (amount = seen \<longrightarrow> db' = db)"
proof -
  let ?old = "set_prices db sid"
  have ok: "in_step db" and tab: "tables_ok db" using prices_at_in_step [OF assms(1)] by (simp_all add: in_step_def)
  have cur: "strings_ToUpper (strings_TrimSpace code) = currency" "length currency = 3" "list_all upper_char currency"
    using normalizeCurrency_upper [OF assms(2)] by metis+
  have again: "strings_ToUpper (strings_TrimSpace currency) = currency" by (simp add: upper_code cur(2,3))
  define revise where "revise = (\<lambda>existing. case price_unmoved currency seen existing of
        Some e \<Rightarrow> Inl e
      | None \<Rightarrow> and_then (unitBaseInputs existing [(currency, amount)]) (\<lambda>inputs.
          case inputs of None \<Rightarrow> Inr ([], False) | Some ins \<Rightarrow> and_then (buildPrices ids sid ins) (\<lambda>built. Inr (built, True))))"
  have "RevisePrices flt sid revise now db = (Inr wrote, db')"
    using assms(3) cur(1,2) again
    by (auto simp: SetBasePriceAmount_def reviseUnitBasePrices_def or_refuse_def or_fail_def revise_def Let_def
        split: if_splits option.splits)
  from RevisePrices_Inr [OF this] obtain chosen where chosen: "revise ?old = Inr (chosen, wrote)"
    "if wrote then replaceLocked flt sid chosen now db = Inr db' else db' = db" by blast
  then obtain ins where unm: "price_unmoved currency seen ?old = None" and ins: "unitBaseInputs ?old [(currency, amount)] = Inr ins"
    and built: "case ins of None \<Rightarrow> \<not> wrote | Some xs \<Rightarrow> wrote \<and> buildPrices ids sid xs = Inr chosen"
    by (auto simp: revise_def split: option.splits)
  obtain i where i: "unitBasePrices ?old currency = [i]" "px_Amount (?old ! i) = seen" "i < length ?old"
    "ins = (if amount = seen then None
      else Some (sort_key pin_CurrencyCode ((map price_input_of ?old)[i := (price_input_of (?old ! i))\<lparr> pin_Amount := amount \<rparr>])))"
    using unitBaseInputs_single [OF ins unm] by blast
  let ?p = "?old ! i" and ?new = "(map price_input_of ?old)[i := (price_input_of (?old ! i))\<lparr> pin_Amount := amount \<rparr>]"
  have wrote: "wrote = (amount \<noteq> seen)" using built i(4) by (auto split: if_splits)
  have mem: "?p \<in> set ?old" using i(3) by simp
  have mset_new: "mset ?new = mset (map price_input_of ?old) - {# price_input_of ?p #} + {# (price_input_of ?p)\<lparr> pin_Amount := amount \<rparr> #}"
    using i(3) by (simp add: mset_update)
  have result: "mset (map price_input_of (set_prices db' sid)) = mset ?new \<and>
      (\<forall>s. s \<noteq> sid \<longrightarrow> map price_input_of (set_prices db' s) = map price_input_of (set_prices db s))"
  proof (cases "amount = seen")
    case True
    then have "db' = db" using chosen(2) wrote by simp
    moreover have "(price_input_of ?p)\<lparr> pin_Amount := amount \<rparr> = price_input_of ?p" using True i(2) by (simp add: price_input_of_def)
    then have "?new = map price_input_of ?old" using i(3) by (metis list_update_id nth_map)
    ultimately show ?thesis by simp
  next
    case False
    have kept: "list_all kept_terms ?new"
    proof -
      have all: "list_all kept_terms (map price_input_of ?old)" using existing_terms [OF ok] by (simp add: list_all_iff)
      moreover have "kept_terms ((price_input_of ?p)\<lparr> pin_Amount := amount \<rparr>)"
        using existing_terms [OF ok mem] by (simp add: kept_terms_def)
      ultimately show ?thesis unfolding list_all_iff using set_update_subset_insert by fastforce
    qed
    have "buildPrices ids sid (sort_key pin_CurrencyCode ?new) = Inr chosen" using built i(4) False by simp
    then have terms: "map price_input_of chosen = sort_key pin_CurrencyCode ?new"
      using kept by (intro build_prices_inputs [of ids 0 sid]) (simp_all add: buildPrices_def list_all_iff)
    have rep: "replaceLocked flt sid chosen now db = Inr db'" using chosen(2) wrote False by simp
    have "map price_input_of (set_prices db' sid) = sort_key pin_CurrencyCode ?new"
      using replaceLocked_prices [OF rep tab] terms by (simp add: o_def)
    then show ?thesis using others_kept [OF rep tab] by simp
  qed
  show ?thesis
    using mem unitBasePrices_single [OF i(1)] i(2) result mset_new wrote chosen(2)
    by (intro bexI [of _ ?p]) simp_all
qed

definition numbered :: fresh_ids where
  "numbered = \<lparr> fi_price = \<lambda>i. ''price_n'' @ replicate i CHR ''i'',
    fi_rule = \<lambda>i j. ''prule_n'' @ replicate i CHR ''i'' @ replicate j CHR ''j'' \<rparr>"

definition repriced :: "(error + bool) \<times> price_db" where
  "repriced = SetBasePriceAmount no_faults numbered ''pset_1'' '' eur'' 1000 1500 40 day_one"

theorem base_price_edit_exact_witness:
  "(\<exists>p \<in> set (set_prices day_one ''pset_1''). px_Amount p = 1000 \<and>
      mset (map price_input_of (set_prices (snd repriced) ''pset_1'')) =
        mset (map price_input_of (set_prices day_one ''pset_1'')) - {# price_input_of p #} + {# (price_input_of p)\<lparr> pin_Amount := 1500 \<rparr> #}) \<and>
    map px_Amount (set_prices (snd repriced) ''pset_1'') = [1500, 800, 700]"
proof -
  have c: "price_normalizeCurrency '' eur'' = Inr ''EUR''" by code_simp
  have "fst repriced = Inr True" by code_simp
  then have "SetBasePriceAmount no_faults numbered ''pset_1'' '' eur'' 1000 1500 40 day_one = (Inr True, snd repriced)"
    unfolding repriced_def by (metis prod.collapse)
  from base_price_edit_exact [OF day_one_reached c this] have
    "\<exists>p \<in> set (set_prices day_one ''pset_1''). px_Amount p = 1000 \<and>
      mset (map price_input_of (set_prices (snd repriced) ''pset_1'')) =
        mset (map price_input_of (set_prices day_one ''pset_1'')) - {# price_input_of p #} + {# (price_input_of p)\<lparr> pin_Amount := 1500 \<rparr> #}"
    by blast
  moreover have "map px_Amount (set_prices (snd repriced) ''pset_1'') = [1500, 800, 700]" by code_simp
  ultimately show ?thesis by blast
qed

end
