(* ===== verification/StockTables.thy ===== *)
theory StockTables
  imports Database GoStrings
begin

text \<open>
  The data of the inventory module, \<^verbatim>\<open>internal/modules/inventory/models\<close>, the tables of its
  \<^verbatim>\<open>migrations/\<close> and its repository, \<^verbatim>\<open>internal/modules/inventory/repository\<close>.

  A table is the list of its rows in the order they were inserted. Quantities are the \<open>int64\<close> of the
  columns. A \<open>NULL\<close> text is the empty string, as the repository reads and writes it. The moment of a
  call is an argument, as every time a count of microseconds, the resolution of the columns; a new id is its prefix before a text \<open>ids\<close> draws, the draws being counted in
  the tables. Descriptive columns of a place are kept, creation and update stamps other than a level's
  and a movement's are left out, and so are the pages of the list reads.
\<close>

type_synonym moment = int

section \<open>Models\<close>

record stock_location =
  slo_ID :: string
  slo_Name :: string
  slo_Address1 :: string
  slo_Address2 :: string
  slo_City :: string
  slo_Province :: string
  slo_PostalCode :: string
  slo_CountryCode :: string
  slo_ClosedAt :: "moment option"

definition location_Closed :: "stock_location \<Rightarrow> bool" where
  "location_Closed l \<longleftrightarrow> slo_ClosedAt l \<noteq> None"

record inventory_item =
  ivi_ID :: string
  ivi_SKU :: string
  ivi_Title :: string
  ivi_Description :: string
  ivi_RequiresShipping :: bool

record inventory_level =
  lv_ID :: string
  lv_InventoryItemID :: string
  lv_LocationID :: string
  lv_StockedQuantity :: int64
  lv_ReservedQuantity :: int64
  lv_UpdatedAt :: moment

definition Available :: "inventory_level \<Rightarrow> int64" where
  "Available l = sub64 (lv_StockedQuantity l) (lv_ReservedQuantity l)"

definition ReservationActive :: string where "ReservationActive = ''active''"
definition ReservationReleased :: string where "ReservationReleased = ''released''"
definition ReservationConfirmed :: string where "ReservationConfirmed = ''confirmed''"

definition PurposeSale :: string where "PurposeSale = ''sale''"
definition PurposeReplacement :: string where "PurposeReplacement = ''replacement''"

definition purpose_Valid :: "string \<Rightarrow> bool" where
  "purpose_Valid p \<longleftrightarrow> p = PurposeSale \<or> p = PurposeReplacement"

definition MovementStockCount :: string where "MovementStockCount = ''stock_count''"
definition MovementAdjustment :: string where "MovementAdjustment = ''adjustment''"
definition MovementSale :: string where "MovementSale = ''sale''"
definition MovementReturnRestock :: string where "MovementReturnRestock = ''return_restock''"
definition MovementReplacement :: string where "MovementReplacement = ''replacement''"
definition MovementCancellation :: string where "MovementCancellation = ''cancellation''"
definition MovementSupplierReceipt :: string where "MovementSupplierReceipt = ''supplier_receipt''"

definition purpose_MovementReason :: "string \<Rightarrow> string" where
  "purpose_MovementReason p = (if p = PurposeReplacement then MovementReplacement else MovementSale)"

definition reason_Valid :: "string \<Rightarrow> bool" where
  "reason_Valid r \<longleftrightarrow> r \<in> {MovementStockCount, MovementAdjustment, MovementSale, MovementReturnRestock,
    MovementReplacement, MovementCancellation, MovementSupplierReceipt}"

definition CarriesAReference :: "string \<Rightarrow> bool" where
  "CarriesAReference r \<longleftrightarrow> r = MovementSale \<or> r = MovementCancellation \<or> r = MovementSupplierReceipt"

definition LeavesAgainstAPromise :: "string \<Rightarrow> bool" where
  "LeavesAgainstAPromise r \<longleftrightarrow> r = MovementSale \<or> r = MovementReplacement"

record reservation =
  rv_ID :: string
  rv_InventoryItemID :: string
  rv_LocationID :: string
  rv_Quantity :: int64
  rv_LineItemID :: string
  rv_Description :: string
  rv_Purpose :: string
  rv_Status :: string

record movement =
  mv_ID :: string
  mv_InventoryItemID :: string
  mv_LocationID :: string
  mv_ReservationID :: string
  mv_Reason :: string
  mv_Delta :: int64
  mv_StockedAfter :: int64
  mv_Reference :: string
  mv_LineItemID :: string
  mv_CreatedAt :: moment

definition ErrMovementAlreadyRecorded :: error where
  "ErrMovementAlreadyRecorded = Sentinel ''inventory: that movement is already in the ledger''"

definition BackorderWaiting :: string where "BackorderWaiting = ''waiting''"
definition BackorderFilled :: string where "BackorderFilled = ''filled''"
definition BackorderWithdrawn :: string where "BackorderWithdrawn = ''withdrawn''"

record backorder =
  bo_ID :: string
  bo_InventoryItemID :: string
  bo_OrderID :: string
  bo_OrderLineItemID :: string
  bo_Quantity :: int64
  bo_WithdrawnQuantity :: int64
  bo_LocationIDs :: "string list"
  bo_Status :: string
  bo_ReservationID :: string
  bo_FilledLocationID :: string
  bo_Seq :: int

definition Owed :: "backorder \<Rightarrow> int64" where
  "Owed b = sub64 (bo_Quantity b) (bo_WithdrawnQuantity b)"

definition Undeducted :: "backorder \<Rightarrow> int64" where
  "Undeducted b = (if bo_Status b = BackorderFilled then bo_WithdrawnQuantity b else bo_Quantity b)"

definition SupplierReceiptExpected :: string where "SupplierReceiptExpected = ''expected''"
definition SupplierReceiptReceived :: string where "SupplierReceiptReceived = ''received''"
definition SupplierReceiptCanceled :: string where "SupplierReceiptCanceled = ''canceled''"

record supplier_receipt =
  sup_ID :: string
  sup_InventoryItemID :: string
  sup_LocationID :: string
  sup_Quantity :: int64
  sup_ExpectedAt :: moment
  sup_Reference :: string
  sup_Status :: string
  sup_ReceivedQuantity :: int64
  sup_ReceivedAt :: "moment option"
  sup_CanceledAt :: "moment option"

lemma reservation_statuses [simp]:
  "ReservationActive \<noteq> ReservationReleased" "ReservationActive \<noteq> ReservationConfirmed"
  "ReservationReleased \<noteq> ReservationConfirmed" "ReservationReleased \<noteq> ReservationActive"
  "ReservationConfirmed \<noteq> ReservationActive" "ReservationConfirmed \<noteq> ReservationReleased"
  by (simp_all add: ReservationActive_def ReservationReleased_def ReservationConfirmed_def)

lemma backorder_statuses [simp]:
  "BackorderWaiting \<noteq> BackorderFilled" "BackorderWaiting \<noteq> BackorderWithdrawn"
  "BackorderFilled \<noteq> BackorderWithdrawn" "BackorderFilled \<noteq> BackorderWaiting"
  "BackorderWithdrawn \<noteq> BackorderWaiting" "BackorderWithdrawn \<noteq> BackorderFilled"
  by (simp_all add: BackorderWaiting_def BackorderFilled_def BackorderWithdrawn_def)

lemma receipt_statuses [simp]:
  "SupplierReceiptExpected \<noteq> SupplierReceiptReceived" "SupplierReceiptExpected \<noteq> SupplierReceiptCanceled"
  "SupplierReceiptReceived \<noteq> SupplierReceiptCanceled" "SupplierReceiptReceived \<noteq> SupplierReceiptExpected"
  "SupplierReceiptCanceled \<noteq> SupplierReceiptExpected" "SupplierReceiptCanceled \<noteq> SupplierReceiptReceived"
  by (simp_all add: SupplierReceiptExpected_def SupplierReceiptReceived_def SupplierReceiptCanceled_def)

lemmas movement_reasons = MovementStockCount_def MovementAdjustment_def MovementSale_def
  MovementReturnRestock_def MovementReplacement_def MovementCancellation_def MovementSupplierReceipt_def

lemma reasons_simps [simp]:
  "reason_Valid MovementStockCount" "reason_Valid MovementAdjustment" "reason_Valid MovementSale"
  "reason_Valid MovementReturnRestock" "reason_Valid MovementReplacement" "reason_Valid MovementCancellation"
  "reason_Valid MovementSupplierReceipt" "\<not> reason_Valid []"
  "LeavesAgainstAPromise MovementSale" "LeavesAgainstAPromise MovementReplacement"
  "\<not> LeavesAgainstAPromise MovementStockCount" "\<not> LeavesAgainstAPromise MovementAdjustment"
  "\<not> LeavesAgainstAPromise MovementReturnRestock" "\<not> LeavesAgainstAPromise MovementCancellation"
  "\<not> LeavesAgainstAPromise MovementSupplierReceipt"
  "CarriesAReference MovementSale" "CarriesAReference MovementCancellation" "CarriesAReference MovementSupplierReceipt"
  "\<not> CarriesAReference MovementStockCount" "\<not> CarriesAReference MovementAdjustment"
  "\<not> CarriesAReference MovementReturnRestock" "\<not> CarriesAReference MovementReplacement"
  by (simp_all add: reason_Valid_def LeavesAgainstAPromise_def CarriesAReference_def movement_reasons)

section \<open>Tables\<close>

record item_row =
  ir_item :: inventory_item
  ir_deleted :: bool

record level_row =
  lw_level :: inventory_level
  lw_deleted :: bool

record stock_db =
  sd_location :: "stock_location list"
  sd_item :: "item_row list"
  sd_level :: "level_row list"
  sd_reservation :: "reservation list"
  sd_movement :: "movement list"
  sd_backorder :: "backorder list"
  sd_receipt :: "supplier_receipt list"
  sd_seq :: int
  sd_drawn :: nat

section \<open>Errors\<close>

definition codeItemNotFound :: string where "codeItemNotFound = ''inventory_item_not_found''"
definition codeLocationNotFound :: string where "codeLocationNotFound = ''inventory_location_not_found''"
definition codeLevelNotFound :: string where "codeLevelNotFound = ''inventory_level_not_found''"
definition codeReservationNotFound :: string where "codeReservationNotFound = ''inventory_reservation_not_found''"
definition codeBackorderNotFound :: string where "codeBackorderNotFound = ''inventory_backorder_not_found''"
definition codeSupplierReceiptNotFound :: string where
  "codeSupplierReceiptNotFound = ''inventory_supplier_receipt_not_found''"
definition codeSKUExists :: string where "codeSKUExists = ''inventory_sku_exists''"
definition codeLevelExists :: string where "codeLevelExists = ''inventory_level_exists''"
definition codeInsufficientStock :: string where "codeInsufficientStock = ''inventory_insufficient_stock''"
definition codeQueryFailed :: string where "codeQueryFailed = ''inventory_query_failed''"
definition codeConcurrentUpdate :: string where "codeConcurrentUpdate = ''inventory_concurrent_update''"

definition constraintSKUUniq :: string where "constraintSKUUniq = ''inventory_items_sku_uniq''"
definition constraintLevelUniq :: string where "constraintLevelUniq = ''inventory_levels_item_location_uniq''"
definition constraintAvailable :: string where "constraintAvailable = ''inventory_levels_available_nonneg''"
definition constraintStockedNonneg :: string where "constraintStockedNonneg = ''inventory_levels_stocked_nonneg''"

definition sqlStateDeadlockDetected :: string where "sqlStateDeadlockDetected = ''40P01''"

lemmas stock_constraints = constraintSKUUniq_def constraintLevelUniq_def constraintAvailable_def
  constraintStockedNonneg_def

text \<open>
  A statement finds no row, violates a constraint, of which \<open>classify\<close> reads the name, or meets a
  fault. The names \<open>classify\<close> does not tell apart are left empty.
\<close>

datatype stock_pg = NoRows | Violated string string | Faulted pg_fault

fun stock_sentinel :: "stock_pg \<Rightarrow> error" where
  "stock_sentinel NoRows = pg_sentinel PgNoRows"
| "stock_sentinel (Violated s _) = pg_sentinel (PgFault (PgState s))"
| "stock_sentinel (Faulted f) = pg_sentinel (PgFault f)"

definition strings_Contains :: "string \<Rightarrow> string \<Rightarrow> bool" where
  "strings_Contains s sub = list_ex (\<lambda>k. take (length sub) (drop k s) = sub) [0..<Suc (length s)]"

fun pg_code :: "stock_pg \<Rightarrow> (string \<times> string) option" where
  "pg_code (Violated s c) = Some (s, c)"
| "pg_code (Faulted (PgState s)) = Some (s, [])"
| "pg_code _ = None"

definition classify :: "stock_pg \<Rightarrow> string \<Rightarrow> error" where
  "classify err code =
    (case pg_code err of
      None \<Rightarrow> Typed KindInternal code (Some (stock_sentinel err))
    | Some (s, c) \<Rightarrow>
        if s = sqlstateUniqueViolation \<and> c = constraintSKUUniq
        then Typed KindConflict codeSKUExists (Some (stock_sentinel err))
        else if s = sqlstateUniqueViolation \<and> c = constraintLevelUniq
        then Typed KindConflict codeLevelExists (Some (stock_sentinel err))
        else if s = sqlstateForeignKeyViolation then
          (if strings_Contains c ''location_id''
           then Typed KindNotFound codeLocationNotFound (Some (stock_sentinel err))
           else Typed KindNotFound codeItemNotFound (Some (stock_sentinel err)))
        else if s = sqlstateCheckViolation \<and> (c = constraintAvailable \<or> c = constraintStockedNonneg)
        then Typed KindConflict codeInsufficientStock (Some (stock_sentinel err))
        else if s = sqlStateDeadlockDetected
        then Typed KindConflict codeConcurrentUpdate (Some (stock_sentinel err))
        else Typed KindInternal code (Some (stock_sentinel err)))"

definition row_or :: "error \<Rightarrow> stock_pg \<Rightarrow> error" where
  "row_or missing err = (if err = NoRows then missing else classify err codeQueryFailed)"

definition stock_run :: "faults \<Rightarrow> string \<Rightarrow> (stock_pg + 'a) \<Rightarrow> stock_pg + 'a" where
  "stock_run flt name r = (case flt name of Some f \<Rightarrow> Inl (Faulted f) | None \<Rightarrow> r)"

lemma stock_run_Inr [simp]: "stock_run flt name r = Inr a \<longleftrightarrow> flt name = None \<and> r = Inr a"
  by (auto simp: stock_run_def split: option.split)

definition one :: "'a option \<Rightarrow> stock_pg + 'a" where
  "one r = (case r of None \<Rightarrow> Inl NoRows | Some a \<Rightarrow> Inr a)"

lemma one_Inr [simp]: "one r = Inr a \<longleftrightarrow> r = Some a"
  by (auto simp: one_def split: option.split)

text \<open>A statement read in a body, and one that writes.\<close>

definition reads :: "(stock_pg \<Rightarrow> error) \<Rightarrow> (stock_db \<Rightarrow> stock_pg + 'a) \<Rightarrow> stock_db \<Rightarrow> error + 'a \<times> stock_db" where
  "reads w qry db = (case qry db of Inl e \<Rightarrow> Inl (w e) | Inr a \<Rightarrow> Inr (a, db))"

definition writes ::
    "(stock_pg \<Rightarrow> error) \<Rightarrow> (stock_db \<Rightarrow> stock_pg + 'a \<times> stock_db) \<Rightarrow> stock_db \<Rightarrow> error + 'a \<times> stock_db" where
  "writes w qry db = (case qry db of Inl e \<Rightarrow> Inl (w e) | Inr r \<Rightarrow> Inr r)"

lemma reads_Inr [simp]: "reads w qry db = Inr (a, db') \<longleftrightarrow> qry db = Inr a \<and> db' = db"
  by (auto simp: reads_def split: sum.split)

lemma writes_Inr [simp]: "writes w qry db = Inr r \<longleftrightarrow> qry db = Inr r"
  by (auto simp: writes_def split: sum.split)

definition stock_WithTx ::
    "faults \<Rightarrow> (stock_db \<Rightarrow> error + 'a \<times> stock_db) \<Rightarrow> stock_db \<Rightarrow> (error + 'a) \<times> stock_db" where
  "stock_WithTx flt body db =
    (case flt ''begin'' of
      Some f \<Rightarrow> (Inl (classify (Faulted f) ''inventory_tx_begin_failed''), db)
    | None \<Rightarrow>
        (case body db of
          Inl e \<Rightarrow> (Inl e, db)
        | Inr (a, db') \<Rightarrow>
            (case flt ''commit'' of
              Some f \<Rightarrow> (Inl (classify (Faulted f) ''inventory_tx_commit_failed''),
                if flt ''commit lost'' = None then db else db')
            | None \<Rightarrow> (Inr a, db'))))"

lemma stock_WithTx_cases:
  assumes "stock_WithTx flt body db = (r, db')"
  obtains "db' = db" "\<exists>e. r = Inl e"
  | a where "body db = Inr (a, db')" "r = Inr a \<or> (\<exists>e. r = Inl e)"
  using assms by (auto simp: stock_WithTx_def split: option.splits sum.splits if_splits)

lemma stock_WithTx_Inr:
  "stock_WithTx flt body db = (Inr a, db') \<longleftrightarrow>
    flt ''begin'' = None \<and> flt ''commit'' = None \<and> body db = Inr (a, db')"
  by (auto simp: stock_WithTx_def split: option.splits sum.splits)

lemma stock_WithTx_keeps: "keeps P body \<Longrightarrow> P db \<Longrightarrow> stock_WithTx flt body db = (r, db') \<Longrightarrow> P db'"
  by (erule stock_WithTx_cases) (auto dest: keepsD)

end
