(* ===== verification/StockRepo.thy ===== *)
theory StockRepo
  imports StockTables
begin

text \<open>
  The statements of \<^verbatim>\<open>repository/inventorydb\<close> with the constraints of the migrations, and the
  repository's methods over them. A statement that writes several constraints reports the first one
  the database tests: the row's checks by name, its unique indexes, then its foreign keys.
\<close>

definition draw :: "string \<Rightarrow> (nat \<Rightarrow> string) \<Rightarrow> stock_db \<Rightarrow> error + string \<times> stock_db" where
  "draw pre ids db = Inr (pre @ ids (sd_drawn db), db\<lparr> sd_drawn := Suc (sd_drawn db) \<rparr>)"

definition StockLocationIDPrefix :: string where "StockLocationIDPrefix = ''sloc_''"
definition InventoryItemIDPrefix :: string where "InventoryItemIDPrefix = ''invitem_''"
definition InventoryLevelIDPrefix :: string where "InventoryLevelIDPrefix = ''invlevel_''"
definition ReservationIDPrefix :: string where "ReservationIDPrefix = ''invres_''"
definition MovementIDPrefix :: string where "MovementIDPrefix = ''invmov_''"
definition BackorderIDPrefix :: string where "BackorderIDPrefix = ''invbo_''"
definition SupplierReceiptIDPrefix :: string where "SupplierReceiptIDPrefix = ''invsup_''"

text \<open>\<open>btrim\<close> removes blanks only.\<close>

definition blank :: "string \<Rightarrow> bool" where "blank s \<longleftrightarrow> list_all (\<lambda>c. c = CHR '' '') s"

definition foreign :: "string \<Rightarrow> bool \<Rightarrow> (string \<times> string) option" where
  "foreign c there = (if there then None else Some (sqlstateForeignKeyViolation, c))"

definition unique :: "string \<Rightarrow> bool \<Rightarrow> (string \<times> string) option" where
  "unique c taken = (if taken then Some (sqlstateUniqueViolation, c) else None)"

definition checked :: "string \<Rightarrow> bool \<Rightarrow> (string \<times> string) option" where
  "checked c ok = (if ok then None else Some (sqlstateCheckViolation, c))"

fun first_violation :: "'a option list \<Rightarrow> 'a option" where
  "first_violation [] = None"
| "first_violation (None # cs) = first_violation cs"
| "first_violation (Some c # cs) = Some c"

definition constrained :: "(string \<times> string) option list \<Rightarrow> 'a \<Rightarrow> stock_pg + 'a" where
  "constrained cs a = (case first_violation cs of None \<Rightarrow> Inr a | Some (s, c) \<Rightarrow> Inl (Violated s c))"

lemma first_violation_None [simp]: "first_violation cs = None \<longleftrightarrow> (\<forall>c \<in> set cs. c = None)"
  by (induction cs rule: first_violation.induct) auto

lemma constrained_Inr [simp]: "constrained cs a = Inr b \<longleftrightarrow> b = a \<and> (\<forall>c \<in> set cs. c = None)"
  by (cases "first_violation cs") (auto simp: constrained_def simp flip: first_violation_None)

lemma constraint_None [simp]:
  "foreign c there = None \<longleftrightarrow> there" "unique c taken = None \<longleftrightarrow> \<not> taken" "checked c ok = None \<longleftrightarrow> ok"
  by (simp_all add: foreign_def unique_def checked_def)

section \<open>Places\<close>

definition the_location :: "stock_db \<Rightarrow> string \<Rightarrow> stock_location option" where
  "the_location db l = find (\<lambda>x. slo_ID x = l) (sd_location db)"

definition q_CreateStockLocation :: "faults \<Rightarrow> stock_location \<Rightarrow> stock_db \<Rightarrow> stock_pg + stock_location \<times> stock_db" where
  "q_CreateStockLocation flt l db =
    stock_run flt ''CreateStockLocation''
      (constrained [unique ''stock_locations_pkey'' (list_ex (\<lambda>x. slo_ID x = slo_ID l) (sd_location db))]
        (l\<lparr> slo_ClosedAt := None \<rparr>, db\<lparr> sd_location := sd_location db @ [l\<lparr> slo_ClosedAt := None \<rparr>] \<rparr>))"

definition q_GetStockLocation :: "faults \<Rightarrow> string \<Rightarrow> stock_db \<Rightarrow> stock_pg + stock_location" where
  "q_GetStockLocation flt l db = stock_run flt ''GetStockLocation'' (one (the_location db l))"

definition q_LockStockLocation :: "faults \<Rightarrow> string \<Rightarrow> stock_db \<Rightarrow> stock_pg + stock_location" where
  "q_LockStockLocation flt l db = stock_run flt ''LockStockLocation'' (one (the_location db l))"

definition q_LockStockLocationShared :: "faults \<Rightarrow> string \<Rightarrow> stock_db \<Rightarrow> stock_pg + stock_location" where
  "q_LockStockLocationShared flt l db = stock_run flt ''LockStockLocationShared'' (one (the_location db l))"

definition stamp_closed :: "string \<Rightarrow> moment \<Rightarrow> stock_location \<Rightarrow> stock_location" where
  "stamp_closed l now x = (if slo_ID x = l then x\<lparr> slo_ClosedAt := Some now \<rparr> else x)"

definition q_CloseStockLocation :: "faults \<Rightarrow> string \<Rightarrow> moment \<Rightarrow> stock_db \<Rightarrow> stock_pg + stock_location \<times> stock_db" where
  "q_CloseStockLocation flt l now db =
    stock_run flt ''CloseStockLocation''
      (case the_location db l of
        None \<Rightarrow> Inl NoRows
      | Some x \<Rightarrow> Inr (stamp_closed l now x, db\<lparr> sd_location := map (stamp_closed l now) (sd_location db) \<rparr>))"

definition q_OpenStockLocationIDs :: "faults \<Rightarrow> stock_db \<Rightarrow> stock_pg + string list" where
  "q_OpenStockLocationIDs flt db =
    stock_run flt ''OpenStockLocationIDs''
      (Inr (map slo_ID (filter (\<lambda>l. slo_ClosedAt l = None) (sd_location db))))"

text \<open>A sum is cast to \<open>bigint\<close>; one that does not fit is an error.\<close>

definition bigint :: "int \<Rightarrow> stock_pg + int64" where
  "bigint x = (if is_i64 x then Inr x else Inl (Violated ''22003'' []))"

lemma bigint_Inr [simp]: "bigint x = Inr y \<longleftrightarrow> y = x \<and> is_i64 x"
  by (auto simp: bigint_def)

definition live_at :: "stock_db \<Rightarrow> string \<Rightarrow> inventory_level list" where
  "live_at db l = map lw_level (filter (\<lambda>r. lv_LocationID (lw_level r) = l \<and> \<not> lw_deleted r) (sd_level db))"

definition q_StockHeldAtLocation :: "faults \<Rightarrow> string \<Rightarrow> stock_db \<Rightarrow> stock_pg + int64 \<times> int64" where
  "q_StockHeldAtLocation flt l db =
    stock_run flt ''StockHeldAtLocation''
      (case bigint (sum_list (map lv_StockedQuantity (live_at db l))) of
        Inl e \<Rightarrow> Inl e
      | Inr s \<Rightarrow>
          (case bigint (sum_list (map lv_ReservedQuantity (live_at db l))) of
            Inl e \<Rightarrow> Inl e
          | Inr r \<Rightarrow> Inr (s, r)))"

definition repo_CreateStockLocation :: "faults \<Rightarrow> stock_location \<Rightarrow> stock_db \<Rightarrow> error + stock_location \<times> stock_db" where
  "repo_CreateStockLocation flt l = writes (\<lambda>e. classify e codeQueryFailed) (q_CreateStockLocation flt l)"

definition repo_GetStockLocation :: "faults \<Rightarrow> string \<Rightarrow> stock_db \<Rightarrow> error + stock_location \<times> stock_db" where
  "repo_GetStockLocation flt l = reads (row_or (NotFound codeLocationNotFound)) (q_GetStockLocation flt l)"

definition LockStockLocation :: "faults \<Rightarrow> string \<Rightarrow> stock_db \<Rightarrow> error + stock_location \<times> stock_db" where
  "LockStockLocation flt l = reads (row_or (NotFound codeLocationNotFound)) (q_LockStockLocation flt l)"

definition LockStockLocationShared :: "faults \<Rightarrow> string \<Rightarrow> stock_db \<Rightarrow> error + stock_location \<times> stock_db" where
  "LockStockLocationShared flt l = reads (row_or (NotFound codeLocationNotFound)) (q_LockStockLocationShared flt l)"

definition repo_CloseStockLocation :: "faults \<Rightarrow> string \<Rightarrow> moment \<Rightarrow> stock_db \<Rightarrow> error + stock_location \<times> stock_db" where
  "repo_CloseStockLocation flt l now = writes (row_or (NotFound codeLocationNotFound)) (q_CloseStockLocation flt l now)"

definition StockHeldAtLocation :: "faults \<Rightarrow> string \<Rightarrow> stock_db \<Rightarrow> error + (int64 \<times> int64) \<times> stock_db" where
  "StockHeldAtLocation flt l = reads (\<lambda>e. classify e codeQueryFailed) (q_StockHeldAtLocation flt l)"

section \<open>Items\<close>

definition live_item :: "stock_db \<Rightarrow> string \<Rightarrow> inventory_item option" where
  "live_item db i = map_option ir_item (find (\<lambda>r. ivi_ID (ir_item r) = i \<and> \<not> ir_deleted r) (sd_item db))"

definition q_CreateInventoryItem :: "faults \<Rightarrow> inventory_item \<Rightarrow> stock_db \<Rightarrow> stock_pg + inventory_item \<times> stock_db" where
  "q_CreateInventoryItem flt x db =
    stock_run flt ''CreateInventoryItem''
      (constrained
        [unique ''inventory_items_pkey'' (list_ex (\<lambda>r. ivi_ID (ir_item r) = ivi_ID x) (sd_item db)),
         unique constraintSKUUniq (list_ex (\<lambda>r. ivi_SKU (ir_item r) = ivi_SKU x \<and> \<not> ir_deleted r) (sd_item db))]
        (x, db\<lparr> sd_item := sd_item db @ [\<lparr> ir_item = x, ir_deleted = False \<rparr>] \<rparr>))"

definition q_GetInventoryItem :: "faults \<Rightarrow> string \<Rightarrow> stock_db \<Rightarrow> stock_pg + inventory_item" where
  "q_GetInventoryItem flt i db = stock_run flt ''GetInventoryItem'' (one (live_item db i))"

definition q_LockInventoryItem :: "faults \<Rightarrow> string \<Rightarrow> stock_db \<Rightarrow> stock_pg + inventory_item" where
  "q_LockInventoryItem flt i db = stock_run flt ''LockInventoryItem'' (one (live_item db i))"

definition q_LockInventoryItemShared :: "faults \<Rightarrow> string \<Rightarrow> stock_db \<Rightarrow> stock_pg + inventory_item" where
  "q_LockInventoryItemShared flt i db = stock_run flt ''LockInventoryItemShared'' (one (live_item db i))"

definition delete_item :: "string \<Rightarrow> item_row \<Rightarrow> item_row" where
  "delete_item i r = (if ivi_ID (ir_item r) = i then r\<lparr> ir_deleted := True \<rparr> else r)"

definition q_SoftDeleteInventoryItem :: "faults \<Rightarrow> string \<Rightarrow> stock_db \<Rightarrow> stock_pg + nat \<times> stock_db" where
  "q_SoftDeleteInventoryItem flt i db =
    stock_run flt ''SoftDeleteInventoryItem''
      (Inr (length (filter (\<lambda>r. ivi_ID (ir_item r) = i \<and> \<not> ir_deleted r) (sd_item db)),
        db\<lparr> sd_item := map (delete_item i) (sd_item db) \<rparr>))"

definition repo_CreateInventoryItem :: "faults \<Rightarrow> inventory_item \<Rightarrow> stock_db \<Rightarrow> error + inventory_item \<times> stock_db" where
  "repo_CreateInventoryItem flt x = writes (\<lambda>e. classify e codeQueryFailed) (q_CreateInventoryItem flt x)"

definition repo_GetInventoryItem :: "faults \<Rightarrow> string \<Rightarrow> stock_db \<Rightarrow> error + inventory_item \<times> stock_db" where
  "repo_GetInventoryItem flt i = reads (row_or (NotFound codeItemNotFound)) (q_GetInventoryItem flt i)"

definition LockInventoryItem :: "faults \<Rightarrow> string \<Rightarrow> stock_db \<Rightarrow> error + unit \<times> stock_db" where
  "LockInventoryItem flt i =
    bindT (reads (row_or (NotFound codeItemNotFound)) (q_LockInventoryItem flt i)) (\<lambda>_. give ())"

definition LockInventoryItemShared :: "faults \<Rightarrow> string \<Rightarrow> stock_db \<Rightarrow> error + unit \<times> stock_db" where
  "LockInventoryItemShared flt i =
    bindT (reads (row_or (NotFound codeItemNotFound)) (q_LockInventoryItemShared flt i)) (\<lambda>_. give ())"

definition repo_SoftDeleteInventoryItem :: "faults \<Rightarrow> string \<Rightarrow> stock_db \<Rightarrow> error + unit \<times> stock_db" where
  "repo_SoftDeleteInventoryItem flt i =
    bindT (writes (\<lambda>e. classify e codeQueryFailed) (q_SoftDeleteInventoryItem flt i)) (\<lambda>affected.
      if affected = 0 then refuse (NotFound codeItemNotFound) else give ())"

section \<open>Levels\<close>

definition live_level :: "stock_db \<Rightarrow> string \<Rightarrow> string \<Rightarrow> inventory_level option" where
  "live_level db i l =
    map_option lw_level
      (find (\<lambda>r. lv_InventoryItemID (lw_level r) = i \<and> lv_LocationID (lw_level r) = l \<and> \<not> lw_deleted r) (sd_level db))"

definition q_LockInventoryLevel :: "faults \<Rightarrow> string \<Rightarrow> string \<Rightarrow> stock_db \<Rightarrow> stock_pg + inventory_level" where
  "q_LockInventoryLevel flt i l db = stock_run flt ''LockInventoryLevel'' (one (live_level db i l))"

definition quantity_checks :: "int64 \<Rightarrow> int64 \<Rightarrow> (string \<times> string) option list" where
  "quantity_checks stocked reserved =
    [checked constraintAvailable (reserved \<le> stocked),
     checked ''inventory_levels_reserved_nonneg'' (0 \<le> reserved),
     checked constraintStockedNonneg (0 \<le> stocked)]"

definition q_CreateInventoryLevel ::
    "faults \<Rightarrow> inventory_level \<Rightarrow> moment \<Rightarrow> stock_db \<Rightarrow> stock_pg + inventory_level \<times> stock_db" where
  "q_CreateInventoryLevel flt v now db =
    stock_run flt ''CreateInventoryLevel''
      (constrained
        (quantity_checks (lv_StockedQuantity v) (lv_ReservedQuantity v) @
         [unique ''inventory_levels_pkey'' (list_ex (\<lambda>r. lv_ID (lw_level r) = lv_ID v) (sd_level db)),
          unique constraintLevelUniq (live_level db (lv_InventoryItemID v) (lv_LocationID v) \<noteq> None),
          foreign ''inventory_levels_inventory_item_id_fkey''
            (list_ex (\<lambda>r. ivi_ID (ir_item r) = lv_InventoryItemID v) (sd_item db)),
          foreign ''inventory_levels_location_id_fkey'' (the_location db (lv_LocationID v) \<noteq> None)])
        (v\<lparr> lv_UpdatedAt := now \<rparr>,
         db\<lparr> sd_level := sd_level db @ [\<lparr> lw_level = v\<lparr> lv_UpdatedAt := now \<rparr>, lw_deleted = False \<rparr>] \<rparr>))"

definition put_quantities :: "int64 \<Rightarrow> int64 \<Rightarrow> moment \<Rightarrow> inventory_level \<Rightarrow> inventory_level" where
  "put_quantities stocked reserved now v =
    v\<lparr> lv_StockedQuantity := stocked, lv_ReservedQuantity := reserved, lv_UpdatedAt := now \<rparr>"

definition put_row :: "string \<Rightarrow> int64 \<Rightarrow> int64 \<Rightarrow> moment \<Rightarrow> level_row \<Rightarrow> level_row" where
  "put_row vid stocked reserved now r =
    (if lv_ID (lw_level r) = vid \<and> \<not> lw_deleted r
     then r\<lparr> lw_level := put_quantities stocked reserved now (lw_level r) \<rparr> else r)"

definition q_UpdateInventoryLevelQuantities ::
    "faults \<Rightarrow> string \<Rightarrow> int64 \<Rightarrow> int64 \<Rightarrow> moment \<Rightarrow> stock_db \<Rightarrow> stock_pg + inventory_level \<times> stock_db" where
  "q_UpdateInventoryLevelQuantities flt vid stocked reserved now db =
    stock_run flt ''UpdateInventoryLevelQuantities''
      (case find (\<lambda>r. lv_ID (lw_level r) = vid \<and> \<not> lw_deleted r) (sd_level db) of
        None \<Rightarrow> Inl NoRows
      | Some r \<Rightarrow>
          constrained (quantity_checks stocked reserved)
            (put_quantities stocked reserved now (lw_level r),
             db\<lparr> sd_level := map (put_row vid stocked reserved now) (sd_level db) \<rparr>))"

definition item_levels :: "stock_db \<Rightarrow> string \<Rightarrow> inventory_level list" where
  "item_levels db i = map lw_level (filter (\<lambda>r. lv_InventoryItemID (lw_level r) = i \<and> \<not> lw_deleted r) (sd_level db))"

definition q_ListInventoryLevels :: "faults \<Rightarrow> string \<Rightarrow> stock_db \<Rightarrow> stock_pg + inventory_level list" where
  "q_ListInventoryLevels flt i db = stock_run flt ''ListInventoryLevels'' (Inr (item_levels db i))"

definition delete_level :: "string \<Rightarrow> level_row \<Rightarrow> level_row" where
  "delete_level i r = (if lv_InventoryItemID (lw_level r) = i then r\<lparr> lw_deleted := True \<rparr> else r)"

definition q_SoftDeleteInventoryLevelsByItem :: "faults \<Rightarrow> string \<Rightarrow> stock_db \<Rightarrow> stock_pg + unit \<times> stock_db" where
  "q_SoftDeleteInventoryLevelsByItem flt i db =
    stock_run flt ''SoftDeleteInventoryLevelsByItem''
      (Inr ((), db\<lparr> sd_level := map (delete_level i) (sd_level db) \<rparr>))"

definition LockInventoryLevel :: "faults \<Rightarrow> string \<Rightarrow> string \<Rightarrow> stock_db \<Rightarrow> error + inventory_level \<times> stock_db" where
  "LockInventoryLevel flt i l = reads (row_or (NotFound codeLevelNotFound)) (q_LockInventoryLevel flt i l)"

definition CreateInventoryLevel ::
    "faults \<Rightarrow> inventory_level \<Rightarrow> moment \<Rightarrow> stock_db \<Rightarrow> error + inventory_level \<times> stock_db" where
  "CreateInventoryLevel flt v now = writes (\<lambda>e. classify e codeQueryFailed) (q_CreateInventoryLevel flt v now)"

definition UpdateInventoryLevelQuantities ::
    "faults \<Rightarrow> string \<Rightarrow> int64 \<Rightarrow> int64 \<Rightarrow> moment \<Rightarrow> stock_db \<Rightarrow> error + inventory_level \<times> stock_db" where
  "UpdateInventoryLevelQuantities flt vid stocked reserved now =
    writes (row_or (NotFound codeLevelNotFound)) (q_UpdateInventoryLevelQuantities flt vid stocked reserved now)"

definition repo_ListInventoryLevels :: "faults \<Rightarrow> string \<Rightarrow> stock_db \<Rightarrow> error + inventory_level list \<times> stock_db" where
  "repo_ListInventoryLevels flt i = reads (\<lambda>e. classify e codeQueryFailed) (q_ListInventoryLevels flt i)"

definition repo_SoftDeleteInventoryLevelsByItem :: "faults \<Rightarrow> string \<Rightarrow> stock_db \<Rightarrow> error + unit \<times> stock_db" where
  "repo_SoftDeleteInventoryLevelsByItem flt i =
    writes (\<lambda>e. classify e codeQueryFailed) (q_SoftDeleteInventoryLevelsByItem flt i)"

section \<open>Reservations\<close>

definition the_reservation :: "stock_db \<Rightarrow> string \<Rightarrow> reservation option" where
  "the_reservation db rid = find (\<lambda>r. rv_ID r = rid) (sd_reservation db)"

definition reservation_checks :: "reservation \<Rightarrow> bool" where
  "reservation_checks r \<longleftrightarrow> rv_Quantity r > 0 \<and>
    rv_Status r \<in> {ReservationActive, ReservationReleased, ReservationConfirmed} \<and> purpose_Valid (rv_Purpose r)"

definition item_there :: "stock_db \<Rightarrow> string \<Rightarrow> bool" where
  "item_there db i \<longleftrightarrow> list_ex (\<lambda>r. ivi_ID (ir_item r) = i) (sd_item db)"

definition q_CreateReservation :: "faults \<Rightarrow> reservation \<Rightarrow> stock_db \<Rightarrow> stock_pg + reservation \<times> stock_db" where
  "q_CreateReservation flt r db =
    stock_run flt ''CreateReservation''
      (constrained
        [checked [] (reservation_checks r),
         unique ''inventory_reservations_pkey'' (the_reservation db (rv_ID r) \<noteq> None),
         foreign ''inventory_reservations_inventory_item_id_fkey'' (item_there db (rv_InventoryItemID r)),
         foreign ''inventory_reservations_location_id_fkey'' (the_location db (rv_LocationID r) \<noteq> None)]
        (r, db\<lparr> sd_reservation := sd_reservation db @ [r] \<rparr>))"

definition q_LockReservation :: "faults \<Rightarrow> string \<Rightarrow> stock_db \<Rightarrow> stock_pg + reservation" where
  "q_LockReservation flt rid db = stock_run flt ''LockReservation'' (one (the_reservation db rid))"

definition q_GetReservation :: "faults \<Rightarrow> string \<Rightarrow> stock_db \<Rightarrow> stock_pg + reservation" where
  "q_GetReservation flt rid db = stock_run flt ''GetReservation'' (one (the_reservation db rid))"

definition put_status :: "string \<Rightarrow> string \<Rightarrow> reservation \<Rightarrow> reservation" where
  "put_status rid st r = (if rv_ID r = rid then r\<lparr> rv_Status := st \<rparr> else r)"

definition q_SetReservationStatus :: "faults \<Rightarrow> string \<Rightarrow> string \<Rightarrow> stock_db \<Rightarrow> stock_pg + nat \<times> stock_db" where
  "q_SetReservationStatus flt rid st db =
    stock_run flt ''SetReservationStatus''
      (constrained
        [checked [] (the_reservation db rid = None \<or> st \<in> {ReservationActive, ReservationReleased, ReservationConfirmed})]
        (length (filter (\<lambda>r. rv_ID r = rid) (sd_reservation db)),
         db\<lparr> sd_reservation := map (put_status rid st) (sd_reservation db) \<rparr>))"

definition q_CountActiveReservationsByItem :: "faults \<Rightarrow> string \<Rightarrow> stock_db \<Rightarrow> stock_pg + nat" where
  "q_CountActiveReservationsByItem flt i db =
    stock_run flt ''CountActiveReservationsByItem''
      (Inr (length (filter (\<lambda>r. rv_InventoryItemID r = i \<and> rv_Status r = ReservationActive) (sd_reservation db))))"

definition q_CountActiveReservationsByLocation :: "faults \<Rightarrow> string \<Rightarrow> stock_db \<Rightarrow> stock_pg + nat" where
  "q_CountActiveReservationsByLocation flt l db =
    stock_run flt ''CountActiveReservationsByLocation''
      (Inr (length (filter (\<lambda>r. rv_LocationID r = l \<and> rv_Status r = ReservationActive) (sd_reservation db))))"

definition CreateReservation :: "faults \<Rightarrow> reservation \<Rightarrow> stock_db \<Rightarrow> error + reservation \<times> stock_db" where
  "CreateReservation flt r = writes (\<lambda>e. classify e codeQueryFailed) (q_CreateReservation flt r)"

definition LockReservation :: "faults \<Rightarrow> string \<Rightarrow> stock_db \<Rightarrow> error + reservation \<times> stock_db" where
  "LockReservation flt rid = reads (row_or (NotFound codeReservationNotFound)) (q_LockReservation flt rid)"

definition repo_GetReservation :: "faults \<Rightarrow> string \<Rightarrow> stock_db \<Rightarrow> error + reservation \<times> stock_db" where
  "repo_GetReservation flt rid = reads (row_or (NotFound codeReservationNotFound)) (q_GetReservation flt rid)"

definition SetReservationStatus :: "faults \<Rightarrow> string \<Rightarrow> string \<Rightarrow> stock_db \<Rightarrow> error + unit \<times> stock_db" where
  "SetReservationStatus flt rid st =
    bindT (writes (\<lambda>e. classify e codeQueryFailed) (q_SetReservationStatus flt rid st)) (\<lambda>affected.
      if affected = 0 then refuse (NotFound codeReservationNotFound) else give ())"

definition CountActiveReservations :: "faults \<Rightarrow> string \<Rightarrow> stock_db \<Rightarrow> error + nat \<times> stock_db" where
  "CountActiveReservations flt i = reads (\<lambda>e. classify e codeQueryFailed) (q_CountActiveReservationsByItem flt i)"

definition CountActiveReservationsAtLocation :: "faults \<Rightarrow> string \<Rightarrow> stock_db \<Rightarrow> error + nat \<times> stock_db" where
  "CountActiveReservationsAtLocation flt l =
    reads (\<lambda>e. classify e codeQueryFailed) (q_CountActiveReservationsByLocation flt l)"

section \<open>The movement ledger\<close>

definition movement_checks :: "movement \<Rightarrow> bool" where
  "movement_checks m \<longleftrightarrow>
    mv_Delta m \<noteq> 0 \<and> 0 \<le> mv_StockedAfter m \<and> reason_Valid (mv_Reason m) \<and>
    (mv_Reason m = MovementSale \<longrightarrow> mv_Delta m < 0) \<and>
    (mv_Reason m = MovementReplacement \<longrightarrow> mv_Delta m < 0) \<and>
    (mv_Reason m = MovementReturnRestock \<longrightarrow> 0 < mv_Delta m) \<and>
    (mv_Reason m = MovementCancellation \<longrightarrow> 0 < mv_Delta m \<and> mv_Reference m \<noteq> []) \<and>
    (mv_Reason m = MovementSupplierReceipt \<longrightarrow> 0 < mv_Delta m \<and> mv_Reference m \<noteq> []) \<and>
    ((mv_Reason m = MovementSale \<or> mv_Reason m = MovementReplacement) = (mv_ReservationID m \<noteq> [])) \<and>
    (mv_Reference m = [] \<or> \<not> blank (mv_Reference m)) \<and>
    (mv_LineItemID m = [] \<or> (\<not> blank (mv_LineItemID m) \<and> mv_Reason m = MovementCancellation))"

definition q_AppendMovement :: "faults \<Rightarrow> movement \<Rightarrow> stock_db \<Rightarrow> stock_pg + movement \<times> stock_db" where
  "q_AppendMovement flt m db =
    stock_run flt ''AppendMovement''
      (constrained
        [checked [] (movement_checks m),
         unique ''inventory_movements_pkey'' (list_ex (\<lambda>x. mv_ID x = mv_ID m) (sd_movement db)),
         unique ''inventory_movements_supplier_receipt_once_idx''
           (mv_Reason m = MovementSupplierReceipt \<and>
            list_ex (\<lambda>x. mv_Reason x = MovementSupplierReceipt \<and> mv_Reference x = mv_Reference m) (sd_movement db)),
         foreign ''inventory_movements_inventory_item_id_fkey'' (item_there db (mv_InventoryItemID m)),
         foreign ''inventory_movements_location_id_fkey'' (the_location db (mv_LocationID m) \<noteq> None),
         foreign ''inventory_movements_reservation_id_fkey''
           (mv_ReservationID m = [] \<or> the_reservation db (mv_ReservationID m) \<noteq> None)]
        (m, db\<lparr> sd_movement := sd_movement db @ [m] \<rparr>))"

definition q_ReturnedForLine :: "faults \<Rightarrow> string \<Rightarrow> string \<Rightarrow> stock_db \<Rightarrow> stock_pg + int64" where
  "q_ReturnedForLine flt i line db =
    stock_run flt ''ReturnedForLine''
      (bigint (sum_list (map mv_Delta
        (filter (\<lambda>m. mv_Reason m = MovementCancellation \<and> mv_LineItemID m = line \<and> line \<noteq> [] \<and>
          mv_InventoryItemID m = i) (sd_movement db)))))"

definition q_CancellationRecorded :: "faults \<Rightarrow> string \<Rightarrow> stock_db \<Rightarrow> stock_pg + bool" where
  "q_CancellationRecorded flt ref db =
    stock_run flt ''CancellationRecorded''
      (Inr (list_ex (\<lambda>m. mv_Reason m = MovementCancellation \<and> mv_Reference m = ref \<and> ref \<noteq> []) (sd_movement db)))"

text \<open>The first sale of each item, by moment and id, that is not the fill of a claim.\<close>

definition movement_before :: "movement \<Rightarrow> movement \<Rightarrow> bool" where
  "movement_before a b \<longleftrightarrow> mv_CreatedAt a < mv_CreatedAt b \<or>
    (mv_CreatedAt a = mv_CreatedAt b \<and> mv_ID a < mv_ID b)"

definition order_sales :: "stock_db \<Rightarrow> string \<Rightarrow> movement list" where
  "order_sales db ref =
    filter (\<lambda>m. mv_Reason m = MovementSale \<and> mv_Reference m = ref \<and> ref \<noteq> [] \<and>
      \<not> list_ex (\<lambda>b. bo_ReservationID b = mv_ReservationID m) (sd_backorder db)) (sd_movement db)"

definition first_sale :: "movement list \<Rightarrow> string \<Rightarrow> movement option" where
  "first_sale ms i =
    find (\<lambda>m. mv_InventoryItemID m = i \<and>
      \<not> list_ex (\<lambda>x. mv_InventoryItemID x = i \<and> movement_before x m) ms) ms"

definition q_SaleLocationsForReference :: "faults \<Rightarrow> string \<Rightarrow> stock_db \<Rightarrow> stock_pg + (string \<rightharpoonup> string)" where
  "q_SaleLocationsForReference flt ref db =
    stock_run flt ''SaleLocationsForReference''
      (Inr (\<lambda>i. map_option mv_LocationID (first_sale (order_sales db ref) i)))"

definition AppendMovement :: "faults \<Rightarrow> movement \<Rightarrow> stock_db \<Rightarrow> error + movement \<times> stock_db" where
  "AppendMovement flt m = writes (row_or ErrMovementAlreadyRecorded) (q_AppendMovement flt m)"

definition ReturnedForLine :: "faults \<Rightarrow> string \<Rightarrow> string \<Rightarrow> stock_db \<Rightarrow> error + int64 \<times> stock_db" where
  "ReturnedForLine flt i line = reads (\<lambda>e. classify e codeQueryFailed) (q_ReturnedForLine flt i line)"

definition CancellationRecorded :: "faults \<Rightarrow> string \<Rightarrow> stock_db \<Rightarrow> error + bool \<times> stock_db" where
  "CancellationRecorded flt ref = reads (\<lambda>e. classify e codeQueryFailed) (q_CancellationRecorded flt ref)"

definition repo_SaleLocations :: "faults \<Rightarrow> string \<Rightarrow> stock_db \<Rightarrow> error + (string \<rightharpoonup> string) \<times> stock_db" where
  "repo_SaleLocations flt ref = reads (\<lambda>e. classify e codeQueryFailed) (q_SaleLocationsForReference flt ref)"

section \<open>Backorders\<close>

definition backorder_checks :: "backorder \<Rightarrow> bool" where
  "backorder_checks b \<longleftrightarrow>
    0 < bo_Quantity b \<and> 0 \<le> bo_WithdrawnQuantity b \<and> bo_WithdrawnQuantity b \<le> bo_Quantity b \<and>
    bo_Status b \<in> {BackorderWaiting, BackorderFilled, BackorderWithdrawn} \<and>
    (bo_Status b = BackorderFilled) = (bo_ReservationID b \<noteq> []) \<and>
    (bo_ReservationID b = []) = (bo_FilledLocationID b = []) \<and>
    (bo_Status b = BackorderWithdrawn) = (bo_WithdrawnQuantity b = bo_Quantity b) \<and>
    \<not> blank (bo_OrderID b) \<and> \<not> blank (bo_OrderLineItemID b)"

definition q_CreateBackorder :: "faults \<Rightarrow> backorder \<Rightarrow> stock_db \<Rightarrow> stock_pg + backorder option \<times> stock_db" where
  "q_CreateBackorder flt b db =
    stock_run flt ''CreateBackorder''
      (let new = b\<lparr> bo_WithdrawnQuantity := 0, bo_Status := BackorderWaiting, bo_ReservationID := [],
             bo_FilledLocationID := [], bo_Seq := sd_seq db \<rparr>;
           claimed = list_ex (\<lambda>x. bo_OrderLineItemID x = bo_OrderLineItemID b \<and>
             bo_InventoryItemID x = bo_InventoryItemID b) (sd_backorder db);
           tick = db\<lparr> sd_seq := sd_seq db + 1 \<rparr>
       in constrained
         [checked [] (backorder_checks new),
          unique ''inventory_backorders_pkey'' (\<not> claimed \<and> list_ex (\<lambda>x. bo_ID x = bo_ID b) (sd_backorder db)),
          foreign ''inventory_backorders_inventory_item_id_fkey'' (claimed \<or> item_there db (bo_InventoryItemID b))]
         (if claimed then (None, tick)
          else (Some new, tick\<lparr> sd_backorder := sd_backorder db @ [new] \<rparr>)))"

definition backorder_of_line :: "stock_db \<Rightarrow> string \<Rightarrow> string \<Rightarrow> backorder option" where
  "backorder_of_line db line i =
    find (\<lambda>b. bo_OrderLineItemID b = line \<and> bo_InventoryItemID b = i) (sd_backorder db)"

definition q_GetBackorderOfLine :: "faults \<Rightarrow> string \<Rightarrow> string \<Rightarrow> stock_db \<Rightarrow> stock_pg + backorder" where
  "q_GetBackorderOfLine flt line i db = stock_run flt ''GetBackorderOfLine'' (one (backorder_of_line db line i))"

definition q_LockBackordersOfLine :: "faults \<Rightarrow> string \<Rightarrow> stock_db \<Rightarrow> stock_pg + backorder list" where
  "q_LockBackordersOfLine flt line db =
    stock_run flt ''LockBackordersOfLine''
      (Inr (sort_key bo_Seq (filter (\<lambda>b. bo_OrderLineItemID b = line) (sd_backorder db))))"

definition waits_at :: "string \<Rightarrow> string \<Rightarrow> backorder \<Rightarrow> bool" where
  "waits_at i l b \<longleftrightarrow> bo_InventoryItemID b = i \<and> bo_Status b = BackorderWaiting \<and> l \<in> set (bo_LocationIDs b)"

definition q_LockWaitingBackordersAt ::
    "faults \<Rightarrow> string \<Rightarrow> string \<Rightarrow> int64 \<Rightarrow> stock_db \<Rightarrow> stock_pg + backorder list" where
  "q_LockWaitingBackordersAt flt i l available db =
    stock_run flt ''LockWaitingBackordersAt''
      (Inr (sort_key bo_Seq (filter (\<lambda>b. waits_at i l b \<and> bo_Quantity b - bo_WithdrawnQuantity b \<le> available)
        (sd_backorder db))))"

definition fill_row :: "string \<Rightarrow> string \<Rightarrow> string \<Rightarrow> backorder \<Rightarrow> backorder" where
  "fill_row bid rid l b =
    (if bo_ID b = bid \<and> bo_Status b = BackorderWaiting
     then b\<lparr> bo_Status := BackorderFilled, bo_ReservationID := rid, bo_FilledLocationID := l \<rparr> else b)"

definition q_FillBackorder :: "faults \<Rightarrow> string \<Rightarrow> string \<Rightarrow> string \<Rightarrow> stock_db \<Rightarrow> stock_pg + nat \<times> stock_db" where
  "q_FillBackorder flt bid rid l db =
    stock_run flt ''FillBackorder''
      (let hit = filter (\<lambda>b. bo_ID b = bid \<and> bo_Status b = BackorderWaiting) (sd_backorder db)
       in constrained
         [checked [] (list_all (\<lambda>b. backorder_checks (fill_row bid rid l b)) hit),
          unique ''inventory_backorders_reservation_uniq''
            (hit \<noteq> [] \<and> list_ex (\<lambda>b. bo_ReservationID b = rid) (sd_backorder db)),
          foreign ''inventory_backorders_filled_location_id_fkey'' (hit = [] \<or> the_location db l \<noteq> None),
          foreign ''inventory_backorders_reservation_id_fkey'' (hit = [] \<or> the_reservation db rid \<noteq> None)]
         (length hit, db\<lparr> sd_backorder := map (fill_row bid rid l) (sd_backorder db) \<rparr>))"

definition withdraw_row :: "string \<Rightarrow> int64 \<Rightarrow> string \<Rightarrow> backorder \<Rightarrow> backorder" where
  "withdraw_row bid withdrawn st b =
    (if bo_ID b = bid then b\<lparr> bo_WithdrawnQuantity := withdrawn, bo_Status := st \<rparr> else b)"

definition q_WithdrawBackorder ::
    "faults \<Rightarrow> string \<Rightarrow> int64 \<Rightarrow> string \<Rightarrow> stock_db \<Rightarrow> stock_pg + backorder \<times> stock_db" where
  "q_WithdrawBackorder flt bid withdrawn st db =
    stock_run flt ''WithdrawBackorder''
      (case find (\<lambda>b. bo_ID b = bid) (sd_backorder db) of
        None \<Rightarrow> Inl NoRows
      | Some b \<Rightarrow>
          constrained [checked [] (backorder_checks (withdraw_row bid withdrawn st b))]
            (withdraw_row bid withdrawn st b,
             db\<lparr> sd_backorder := map (withdraw_row bid withdrawn st) (sd_backorder db) \<rparr>))"

definition q_CountWaitingBackorders :: "faults \<Rightarrow> string \<Rightarrow> stock_db \<Rightarrow> stock_pg + nat" where
  "q_CountWaitingBackorders flt i db =
    stock_run flt ''CountWaitingBackorders''
      (Inr (length (filter (\<lambda>b. bo_InventoryItemID b = i \<and> bo_Status b = BackorderWaiting) (sd_backorder db))))"

definition q_WaitingBackordersOfItems :: "faults \<Rightarrow> string list \<Rightarrow> stock_db \<Rightarrow> stock_pg + backorder list" where
  "q_WaitingBackordersOfItems flt ids db =
    stock_run flt ''WaitingBackordersOfItems''
      (Inr (sort_key bo_InventoryItemID (sort_key bo_Seq
        (filter (\<lambda>b. bo_InventoryItemID b \<in> set ids \<and> bo_Status b = BackorderWaiting) (sd_backorder db)))))"

definition CreateBackorder :: "faults \<Rightarrow> backorder \<Rightarrow> stock_db \<Rightarrow> error + backorder option \<times> stock_db" where
  "CreateBackorder flt b = writes (\<lambda>e. classify e codeQueryFailed) (q_CreateBackorder flt b)"

definition GetBackorderOfLine :: "faults \<Rightarrow> string \<Rightarrow> string \<Rightarrow> stock_db \<Rightarrow> error + backorder \<times> stock_db" where
  "GetBackorderOfLine flt line i = reads (row_or (NotFound codeBackorderNotFound)) (q_GetBackorderOfLine flt line i)"

definition LockBackordersOfLine :: "faults \<Rightarrow> string \<Rightarrow> stock_db \<Rightarrow> error + backorder list \<times> stock_db" where
  "LockBackordersOfLine flt line = reads (\<lambda>e. classify e codeQueryFailed) (q_LockBackordersOfLine flt line)"

definition LockWaitingBackordersAt ::
    "faults \<Rightarrow> string \<Rightarrow> string \<Rightarrow> int64 \<Rightarrow> stock_db \<Rightarrow> error + backorder list \<times> stock_db" where
  "LockWaitingBackordersAt flt i l available =
    reads (\<lambda>e. classify e codeQueryFailed) (q_LockWaitingBackordersAt flt i l available)"

definition FillBackorder :: "faults \<Rightarrow> string \<Rightarrow> string \<Rightarrow> string \<Rightarrow> stock_db \<Rightarrow> error + nat \<times> stock_db" where
  "FillBackorder flt bid rid l = writes (\<lambda>e. classify e codeQueryFailed) (q_FillBackorder flt bid rid l)"

definition WithdrawBackorder ::
    "faults \<Rightarrow> string \<Rightarrow> int64 \<Rightarrow> string \<Rightarrow> stock_db \<Rightarrow> error + backorder \<times> stock_db" where
  "WithdrawBackorder flt bid withdrawn st =
    writes (row_or (NotFound codeBackorderNotFound)) (q_WithdrawBackorder flt bid withdrawn st)"

definition CountWaitingBackorders :: "faults \<Rightarrow> string \<Rightarrow> stock_db \<Rightarrow> error + nat \<times> stock_db" where
  "CountWaitingBackorders flt i = reads (\<lambda>e. classify e codeQueryFailed) (q_CountWaitingBackorders flt i)"

section \<open>Supplier receipts\<close>

definition the_receipt :: "stock_db \<Rightarrow> string \<Rightarrow> supplier_receipt option" where
  "the_receipt db rid = find (\<lambda>r. sup_ID r = rid) (sd_receipt db)"

definition q_CreateSupplierReceipt ::
    "faults \<Rightarrow> supplier_receipt \<Rightarrow> stock_db \<Rightarrow> stock_pg + supplier_receipt \<times> stock_db" where
  "q_CreateSupplierReceipt flt r db =
    stock_run flt ''CreateSupplierReceipt''
      (let new = r\<lparr> sup_Status := SupplierReceiptExpected, sup_ReceivedQuantity := 0, sup_ReceivedAt := None,
             sup_CanceledAt := None \<rparr>
       in constrained
         [checked [] (0 < sup_Quantity r \<and> (sup_Reference r = [] \<or> \<not> blank (sup_Reference r))),
          unique ''inventory_supplier_receipts_pkey'' (the_receipt db (sup_ID r) \<noteq> None),
          foreign ''inventory_supplier_receipts_inventory_item_id_fkey'' (item_there db (sup_InventoryItemID r)),
          foreign ''inventory_supplier_receipts_location_id_fkey'' (the_location db (sup_LocationID r) \<noteq> None)]
         (new, db\<lparr> sd_receipt := sd_receipt db @ [new] \<rparr>))"

definition q_GetSupplierReceipt :: "faults \<Rightarrow> string \<Rightarrow> stock_db \<Rightarrow> stock_pg + supplier_receipt" where
  "q_GetSupplierReceipt flt rid db = stock_run flt ''GetSupplierReceipt'' (one (the_receipt db rid))"

definition q_LockSupplierReceipt :: "faults \<Rightarrow> string \<Rightarrow> stock_db \<Rightarrow> stock_pg + supplier_receipt" where
  "q_LockSupplierReceipt flt rid db = stock_run flt ''LockSupplierReceipt'' (one (the_receipt db rid))"

definition receipt_movement :: "stock_db \<Rightarrow> string \<Rightarrow> movement option" where
  "receipt_movement db rid =
    find (\<lambda>m. mv_Reason m = MovementSupplierReceipt \<and> mv_Reference m = rid) (sd_movement db)"

definition receive_row :: "stock_db \<Rightarrow> string \<Rightarrow> supplier_receipt \<Rightarrow> supplier_receipt" where
  "receive_row db rid r =
    (case receipt_movement db rid of
      None \<Rightarrow> r
    | Some m \<Rightarrow>
        if sup_ID r = rid \<and> sup_Status r = SupplierReceiptExpected
        then r\<lparr> sup_Status := SupplierReceiptReceived, sup_ReceivedQuantity := mv_Delta m,
               sup_ReceivedAt := Some (mv_CreatedAt m) \<rparr>
        else r)"

definition q_ReceiveSupplierReceipt :: "faults \<Rightarrow> string \<Rightarrow> stock_db \<Rightarrow> stock_pg + nat \<times> stock_db" where
  "q_ReceiveSupplierReceipt flt rid db =
    stock_run flt ''ReceiveSupplierReceipt''
      (Inr (if receipt_movement db rid = None then 0
            else length (filter (\<lambda>r. sup_ID r = rid \<and> sup_Status r = SupplierReceiptExpected) (sd_receipt db)),
            db\<lparr> sd_receipt := map (receive_row db rid) (sd_receipt db) \<rparr>))"

definition cancel_row :: "string \<Rightarrow> moment \<Rightarrow> supplier_receipt \<Rightarrow> supplier_receipt" where
  "cancel_row rid now r =
    (if sup_ID r = rid \<and> sup_Status r = SupplierReceiptExpected
     then r\<lparr> sup_Status := SupplierReceiptCanceled, sup_CanceledAt := Some now \<rparr> else r)"

definition q_CancelSupplierReceipt :: "faults \<Rightarrow> string \<Rightarrow> moment \<Rightarrow> stock_db \<Rightarrow> stock_pg + nat \<times> stock_db" where
  "q_CancelSupplierReceipt flt rid now db =
    stock_run flt ''CancelSupplierReceipt''
      (Inr (length (filter (\<lambda>r. sup_ID r = rid \<and> sup_Status r = SupplierReceiptExpected) (sd_receipt db)),
            db\<lparr> sd_receipt := map (cancel_row rid now) (sd_receipt db) \<rparr>))"

definition q_CountExpectedSupplierReceipts :: "faults \<Rightarrow> string \<Rightarrow> stock_db \<Rightarrow> stock_pg + nat" where
  "q_CountExpectedSupplierReceipts flt i db =
    stock_run flt ''CountExpectedSupplierReceipts''
      (Inr (length (filter (\<lambda>r. sup_InventoryItemID r = i \<and> sup_Status r = SupplierReceiptExpected) (sd_receipt db))))"

definition q_CountExpectedSupplierReceiptsAtLocation :: "faults \<Rightarrow> string \<Rightarrow> stock_db \<Rightarrow> stock_pg + nat" where
  "q_CountExpectedSupplierReceiptsAtLocation flt l db =
    stock_run flt ''CountExpectedSupplierReceiptsAtLocation''
      (Inr (length (filter (\<lambda>r. sup_LocationID r = l \<and> sup_Status r = SupplierReceiptExpected) (sd_receipt db))))"

definition q_ExpectedSupplierReceiptsOfItems ::
    "faults \<Rightarrow> string list \<Rightarrow> moment \<Rightarrow> stock_db \<Rightarrow> stock_pg + supplier_receipt list" where
  "q_ExpectedSupplierReceiptsOfItems flt ids now db =
    stock_run flt ''ExpectedSupplierReceiptsOfItems''
      (Inr (sort_key sup_InventoryItemID (sort_key sup_ExpectedAt (sort_key sup_ID
        (filter (\<lambda>r. sup_InventoryItemID r \<in> set ids \<and> sup_Status r = SupplierReceiptExpected \<and>
          now < sup_ExpectedAt r) (sd_receipt db))))))"

definition CreateSupplierReceipt ::
    "faults \<Rightarrow> supplier_receipt \<Rightarrow> stock_db \<Rightarrow> error + supplier_receipt \<times> stock_db" where
  "CreateSupplierReceipt flt r = writes (\<lambda>e. classify e codeQueryFailed) (q_CreateSupplierReceipt flt r)"

definition GetSupplierReceipt :: "faults \<Rightarrow> string \<Rightarrow> stock_db \<Rightarrow> error + supplier_receipt \<times> stock_db" where
  "GetSupplierReceipt flt rid = reads (row_or (NotFound codeSupplierReceiptNotFound)) (q_GetSupplierReceipt flt rid)"

definition LockSupplierReceipt :: "faults \<Rightarrow> string \<Rightarrow> stock_db \<Rightarrow> error + supplier_receipt \<times> stock_db" where
  "LockSupplierReceipt flt rid = reads (row_or (NotFound codeSupplierReceiptNotFound)) (q_LockSupplierReceipt flt rid)"

definition repo_ReceiveSupplierReceipt :: "faults \<Rightarrow> string \<Rightarrow> stock_db \<Rightarrow> error + nat \<times> stock_db" where
  "repo_ReceiveSupplierReceipt flt rid = writes (\<lambda>e. classify e codeQueryFailed) (q_ReceiveSupplierReceipt flt rid)"

definition repo_CancelSupplierReceipt :: "faults \<Rightarrow> string \<Rightarrow> moment \<Rightarrow> stock_db \<Rightarrow> error + nat \<times> stock_db" where
  "repo_CancelSupplierReceipt flt rid now = writes (\<lambda>e. classify e codeQueryFailed) (q_CancelSupplierReceipt flt rid now)"

definition CountExpectedSupplierReceipts :: "faults \<Rightarrow> string \<Rightarrow> stock_db \<Rightarrow> error + nat \<times> stock_db" where
  "CountExpectedSupplierReceipts flt i =
    reads (\<lambda>e. classify e codeQueryFailed) (q_CountExpectedSupplierReceipts flt i)"

definition CountExpectedSupplierReceiptsAtLocation :: "faults \<Rightarrow> string \<Rightarrow> stock_db \<Rightarrow> error + nat \<times> stock_db" where
  "CountExpectedSupplierReceiptsAtLocation flt l =
    reads (\<lambda>e. classify e codeQueryFailed) (q_CountExpectedSupplierReceiptsAtLocation flt l)"

end
