(* ===== verification/StockLedger.thy ===== *)
theory StockLedger
  imports StockRepo
begin

text \<open>
  The two functions every stock write goes through, \<open>writeQuantities\<close> and \<open>openLevel\<close> of
  \<^verbatim>\<open>service/movements.go\<close>, with \<open>deductHeld\<close> of \<^verbatim>\<open>service/stock.go\<close> and \<open>fillWaiting\<close> of
  \<^verbatim>\<open>service/backorder.go\<close>, which call each other. The fill a write calls is an argument, so the
  recursion is the iteration \<open>fillWaiting\<close>; a fill's own writes never raise what is sellable, so the
  fill they would call is never called and one turn is enough (\<open>fillWaiting_deep\<close>).
\<close>

definition stock_CodeInvalidInput :: string where "stock_CodeInvalidInput = ''inventory_invalid_input''"
definition CodeInsufficientStock :: string where "CodeInsufficientStock = ''inventory_insufficient_stock''"
definition CodeStockMoved :: string where "CodeStockMoved = ''inventory_stock_moved''"
definition CodeReservationNotActive :: string where "CodeReservationNotActive = ''inventory_reservation_not_active''"
definition CodeItemHasReservations :: string where "CodeItemHasReservations = ''inventory_item_has_reservations''"
definition CodeLocationNotEmpty :: string where "CodeLocationNotEmpty = ''inventory_location_not_empty''"
definition CodeLocationClosed :: string where "CodeLocationClosed = ''inventory_location_closed''"
definition CodeItemOwesOrders :: string where "CodeItemOwesOrders = ''inventory_item_owes_orders''"
definition CodeBackorderMismatch :: string where "CodeBackorderMismatch = ''inventory_backorder_mismatch''"
definition CodeItemExpectsUnits :: string where "CodeItemExpectsUnits = ''inventory_item_expects_units''"
definition CodeSupplierReceiptNotExpected :: string where
  "CodeSupplierReceiptNotExpected = ''inventory_supplier_receipt_not_expected''"
definition CodeInconsistentState :: string where "CodeInconsistentState = ''inventory_inconsistent_state''"

definition addQuantity :: "int64 \<Rightarrow> int64 \<Rightarrow> error + int64" where
  "addQuantity current delta =
    (if delta > 0 \<and> current > sub64 MaxInt64 delta then Inl (Invalid stock_CodeInvalidInput)
     else Inr (add64 current delta))"

definition recordMovement ::
    "faults \<Rightarrow> (nat \<Rightarrow> string) \<Rightarrow> inventory_level \<Rightarrow> int64 \<Rightarrow> string \<Rightarrow> string \<Rightarrow> string \<Rightarrow> string \<Rightarrow>
     stock_db \<Rightarrow> error + unit \<times> stock_db" where
  "recordMovement flt ids level delta reason reservationID reference lineItemID =
    (if delta = 0 then give ()
     else if \<not> reason_Valid reason then refuse (Internal CodeInconsistentState)
     else if (reservationID \<noteq> []) \<noteq> LeavesAgainstAPromise reason then refuse (Internal CodeInconsistentState)
     else if (reference \<noteq> []) \<noteq> CarriesAReference reason then refuse (Internal CodeInconsistentState)
     else
       bindT (draw MovementIDPrefix ids) (\<lambda>mid.
       bindT (AppendMovement flt
         \<lparr> mv_ID = mid, mv_InventoryItemID = lv_InventoryItemID level, mv_LocationID = lv_LocationID level,
           mv_ReservationID = reservationID, mv_Reason = reason, mv_Delta = delta,
           mv_StockedAfter = lv_StockedQuantity level, mv_Reference = reference, mv_LineItemID = lineItemID,
           mv_CreatedAt = lv_UpdatedAt level \<rparr>) (\<lambda>_. give ())))"

type_synonym filler = "inventory_level \<Rightarrow> stock_db \<Rightarrow> error + (inventory_level \<times> string list) \<times> stock_db"

definition write_with ::
    "filler \<Rightarrow> faults \<Rightarrow> (nat \<Rightarrow> string) \<Rightarrow> moment \<Rightarrow> inventory_level \<Rightarrow> int64 \<Rightarrow> int64 \<Rightarrow>
     string \<Rightarrow> string \<Rightarrow> string \<Rightarrow> string \<Rightarrow> stock_db \<Rightarrow> error + inventory_level \<times> stock_db" where
  "write_with fill flt ids now level stocked reserved reason reservationID reference lineItemID =
    bindT (UpdateInventoryLevelQuantities flt (lv_ID level) stocked reserved now) (\<lambda>updated.
    bindT (recordMovement flt ids updated (sub64 stocked (lv_StockedQuantity level)) reason reservationID reference lineItemID) (\<lambda>_.
    if Available updated > Available level then bindT (fill updated) (\<lambda>(filled, _). give filled) else give updated))"

definition deduct_with ::
    "filler \<Rightarrow> faults \<Rightarrow> (nat \<Rightarrow> string) \<Rightarrow> moment \<Rightarrow> reservation \<Rightarrow> inventory_level \<Rightarrow> string \<Rightarrow>
     stock_db \<Rightarrow> error + inventory_level \<times> stock_db" where
  "deduct_with fill flt ids now reservation level orderID =
    (let newStocked = sub64 (lv_StockedQuantity level) (rv_Quantity reservation);
         newReserved = sub64 (lv_ReservedQuantity level) (rv_Quantity reservation)
     in if newStocked < 0 \<or> newReserved < 0 then refuse (Internal CodeInconsistentState)
        else
          bindT (write_with fill flt ids now level newStocked newReserved
            (purpose_MovementReason (rv_Purpose reservation)) (rv_ID reservation) orderID []) (\<lambda>updated.
          bindT (SetReservationStatus flt (rv_ID reservation) ReservationConfirmed) (\<lambda>_. give updated)))"

definition fill_one ::
    "filler \<Rightarrow> faults \<Rightarrow> (nat \<Rightarrow> string) \<Rightarrow> moment \<Rightarrow> backorder \<Rightarrow> int64 \<Rightarrow> inventory_level \<Rightarrow>
     stock_db \<Rightarrow> error + inventory_level \<times> stock_db" where
  "fill_one fill flt ids now claim need level =
    bindT (draw ReservationIDPrefix ids) (\<lambda>rid.
    bindT (CreateReservation flt
      \<lparr> rv_ID = rid, rv_InventoryItemID = lv_InventoryItemID level, rv_LocationID = lv_LocationID level,
        rv_Quantity = need, rv_LineItemID = bo_OrderLineItemID claim, rv_Description = [],
        rv_Purpose = PurposeSale, rv_Status = ReservationActive \<rparr>) (\<lambda>reservation.
    bindT (check (addQuantity (lv_ReservedQuantity level) need)) (\<lambda>reserved.
    bindT (write_with fill (inside ''hold'' flt) ids now level (lv_StockedQuantity level) reserved [] [] [] []) (\<lambda>held.
    bindT (deduct_with fill (inside ''deduct'' flt) ids now reservation held (bo_OrderID claim)) (\<lambda>deducted.
    bindT (FillBackorder flt (bo_ID claim) (rv_ID reservation) (lv_LocationID deducted)) (\<lambda>changed.
    if changed = 0 then refuse (Internal CodeInconsistentState) else give deducted))))))"

fun fill_loop ::
    "filler \<Rightarrow> faults \<Rightarrow> (nat \<Rightarrow> string) \<Rightarrow> moment \<Rightarrow> backorder list \<Rightarrow> inventory_level \<Rightarrow> string list \<Rightarrow>
     stock_db \<Rightarrow> error + (inventory_level \<times> string list) \<times> stock_db" where
  "fill_loop fill flt ids now [] level filled = give (level, filled)"
| "fill_loop fill flt ids now (claim # claims) level filled =
    (let need = Owed claim
     in if need \<le> 0 \<or> need > Available level then fill_loop fill flt ids now claims level filled
        else
          bindT (fill_one fill (inside (bo_ID claim) flt) ids now claim need level) (\<lambda>after.
            fill_loop fill flt ids now claims after (filled @ [bo_ID claim])))"

definition fill_with :: "filler \<Rightarrow> faults \<Rightarrow> (nat \<Rightarrow> string) \<Rightarrow> moment \<Rightarrow> filler" where
  "fill_with fill flt ids now level =
    bindT (LockWaitingBackordersAt flt (lv_InventoryItemID level) (lv_LocationID level) (Available level)) (\<lambda>claims.
      fill_loop fill flt ids now claims level [])"

definition ran_out :: error where "ran_out = Sentinel ''the fill went deeper than the model follows''"

fun fillWaiting_deep :: "nat \<Rightarrow> faults \<Rightarrow> (nat \<Rightarrow> string) \<Rightarrow> moment \<Rightarrow> filler" where
  "fillWaiting_deep 0 flt ids now = (\<lambda>_. refuse ran_out)"
| "fillWaiting_deep (Suc n) flt ids now = fill_with (fillWaiting_deep n flt ids now) flt ids now"

definition fillWaiting :: "faults \<Rightarrow> (nat \<Rightarrow> string) \<Rightarrow> moment \<Rightarrow> filler" where
  "fillWaiting = fillWaiting_deep 1"

definition writeQuantities ::
    "faults \<Rightarrow> (nat \<Rightarrow> string) \<Rightarrow> moment \<Rightarrow> inventory_level \<Rightarrow> int64 \<Rightarrow> int64 \<Rightarrow>
     string \<Rightarrow> string \<Rightarrow> string \<Rightarrow> string \<Rightarrow> stock_db \<Rightarrow> error + inventory_level \<times> stock_db" where
  "writeQuantities flt ids now = write_with (fillWaiting flt ids now) flt ids now"

definition deductHeld ::
    "faults \<Rightarrow> (nat \<Rightarrow> string) \<Rightarrow> moment \<Rightarrow> reservation \<Rightarrow> inventory_level \<Rightarrow> string \<Rightarrow>
     stock_db \<Rightarrow> error + inventory_level \<times> stock_db" where
  "deductHeld flt ids now = deduct_with (fillWaiting flt ids now) flt ids now"

definition openLevel ::
    "faults \<Rightarrow> (nat \<Rightarrow> string) \<Rightarrow> moment \<Rightarrow> string \<Rightarrow> string \<Rightarrow> int64 \<Rightarrow> string \<Rightarrow> string \<Rightarrow>
     stock_db \<Rightarrow> error + inventory_level \<times> stock_db" where
  "openLevel flt ids now itemID locationID stocked reason reference =
    bindT (draw InventoryLevelIDPrefix ids) (\<lambda>vid.
    bindT (CreateInventoryLevel flt
      \<lparr> lv_ID = vid, lv_InventoryItemID = itemID, lv_LocationID = locationID, lv_StockedQuantity = stocked,
        lv_ReservedQuantity = 0, lv_UpdatedAt = 0 \<rparr> now) (\<lambda>level.
    bindT (recordMovement flt ids level stocked reason [] reference []) (\<lambda>_.
    if Available level > 0 then bindT (fillWaiting flt ids now level) (\<lambda>(filled, _). give filled) else give level)))"

section \<open>One turn of the fill is enough\<close>

definition level_ok :: "inventory_level \<Rightarrow> bool" where
  "level_ok v \<longleftrightarrow> 0 \<le> lv_ReservedQuantity v \<and> lv_ReservedQuantity v \<le> lv_StockedQuantity v \<and>
    lv_StockedQuantity v \<le> MaxInt64"

lemma Available_ok: "level_ok v \<Longrightarrow> Available v = lv_StockedQuantity v - lv_ReservedQuantity v"
  unfolding Available_def level_ok_def by (rule sub64_id) (simp add: is_i64_def MinInt64_def)

lemma addQuantity_Inr:
  assumes "0 \<le> current" "current \<le> MaxInt64" "is_i64 delta"
  shows "addQuantity current delta = Inr q \<longleftrightarrow> q = current + delta \<and> current + delta \<le> MaxInt64"
proof (cases "delta > 0")
  case True
  then have "sub64 MaxInt64 delta = MaxInt64 - delta"
    using assms by (intro sub64_id) (simp add: is_i64_def MinInt64_def MaxInt64_def)
  moreover have "add64 current delta = current + delta" if "current + delta \<le> MaxInt64"
    using assms that by (intro add64_id) (simp add: is_i64_def MinInt64_def)
  ultimately show ?thesis using True by (auto simp: addQuantity_def)
next
  case False
  then have "add64 current delta = current + delta"
    using assms by (intro add64_id) (simp add: is_i64_def MinInt64_def)
  then show ?thesis using False assms by (auto simp: addQuantity_def)
qed

lemma UpdateInventoryLevelQuantities_Inr:
  "UpdateInventoryLevelQuantities flt vid s r now db = Inr (v, db') \<longleftrightarrow>
    flt ''UpdateInventoryLevelQuantities'' = None \<and> 0 \<le> r \<and> r \<le> s \<and>
    (\<exists>x. find (\<lambda>r. lv_ID (lw_level r) = vid \<and> \<not> lw_deleted r) (sd_level db) = Some x \<and>
      v = put_quantities s r now (lw_level x)) \<and>
    db' = db\<lparr> sd_level := map (put_row vid s r now) (sd_level db) \<rparr>"
  by (auto simp: UpdateInventoryLevelQuantities_def q_UpdateInventoryLevelQuantities_def quantity_checks_def
      split: option.split_asm)

lemma put_quantities_simps [simp]:
  "lv_ID (put_quantities s r now v) = lv_ID v" "lv_InventoryItemID (put_quantities s r now v) = lv_InventoryItemID v"
  "lv_LocationID (put_quantities s r now v) = lv_LocationID v" "lv_StockedQuantity (put_quantities s r now v) = s"
  "lv_ReservedQuantity (put_quantities s r now v) = r" "lv_UpdatedAt (put_quantities s r now v) = now"
  by (simp_all add: put_quantities_def)

text \<open>A write that does not raise what is sellable does not look at its fill.\<close>

lemma write_with_flat:
  assumes "level_ok level" "is_i64 s" "s - r \<le> lv_StockedQuantity level - lv_ReservedQuantity level"
  shows "write_with f flt ids now level s r rs rv ref line = write_with g flt ids now level s r rs rv ref line"
proof -
  have "write_with f flt ids now level s r rs rv ref line db = write_with g flt ids now level s r rs rv ref line db" for db
    unfolding write_with_def
  proof (rule bindT_cong)
    fix v db'
    assume "UpdateInventoryLevelQuantities flt (lv_ID level) s r now db = Inr (v, db')"
    then have "0 \<le> r" "r \<le> s" and v: "lv_StockedQuantity v = s" "lv_ReservedQuantity v = r"
      by (auto simp: UpdateInventoryLevelQuantities_Inr)
    then have "level_ok v" using assms(2) by (simp add: level_ok_def is_i64_def)
    then have "Available v \<le> Available level"
      using assms(1,3) v by (simp add: Available_ok)
    then show "bindT (recordMovement flt ids v (sub64 s (lv_StockedQuantity level)) rs rv ref line)
        (\<lambda>_. if Available v > Available level then bindT (f v) (\<lambda>(filled, _). give filled) else give v) db' =
      bindT (recordMovement flt ids v (sub64 s (lv_StockedQuantity level)) rs rv ref line)
        (\<lambda>_. if Available v > Available level then bindT (g v) (\<lambda>(filled, _). give filled) else give v) db'"
      by simp
  qed
  then show ?thesis by blast
qed

section \<open>What a write and a fill change\<close>

definition row_of :: "stock_db \<Rightarrow> string \<Rightarrow> inventory_level option" where
  "row_of db vid = map_option lw_level (find (\<lambda>r. lv_ID (lw_level r) = vid \<and> \<not> lw_deleted r) (sd_level db))"

text \<open>The level a caller holds is the row of the table.\<close>

definition stands :: "inventory_level \<Rightarrow> stock_db \<Rightarrow> bool" where
  "stands v db \<longleftrightarrow> row_of db (lv_ID v) = Some v"

lemma find_found: "find P xs = Some x \<Longrightarrow> P x \<and> x \<in> set xs"
  by (induction xs) (auto split: if_splits)

lemma find_map: "find P (map f xs) = map_option f (find (P \<circ> f) xs)"
  by (induction xs) auto

lemma put_row_simps [simp]:
  "lv_ID (lw_level (put_row vid s r now x)) = lv_ID (lw_level x)" "lw_deleted (put_row vid s r now x) = lw_deleted x"
  "lv_InventoryItemID (lw_level (put_row vid s r now x)) = lv_InventoryItemID (lw_level x)"
  "lv_LocationID (lw_level (put_row vid s r now x)) = lv_LocationID (lw_level x)"
  by (simp_all add: put_row_def)

lemma put_row_twice [simp]:
  "map (put_row vid s r now) (map (put_row vid s' r' now) xs) = map (put_row vid s r now) xs"
  by (induction xs) (simp_all add: put_row_def put_quantities_def)

lemma row_of_put:
  assumes "row_of db vid = Some x"
  shows "row_of (db\<lparr> sd_level := map (put_row vid s r now) (sd_level db) \<rparr>) vid = Some (put_quantities s r now x)"
proof -
  have "(\<lambda>y. lv_ID (lw_level y) = vid \<and> \<not> lw_deleted y) \<circ> put_row vid s r now =
      (\<lambda>y. lv_ID (lw_level y) = vid \<and> \<not> lw_deleted y)"
    by auto
  moreover obtain y where "find (\<lambda>y. lv_ID (lw_level y) = vid \<and> \<not> lw_deleted y) (sd_level db) = Some y" "lw_level y = x"
    using assms by (auto simp: row_of_def)
  moreover from this(1) have "put_row vid s r now y = y\<lparr> lw_level := put_quantities s r now (lw_level y) \<rparr>"
    by (auto simp: put_row_def dest: find_found)
  ultimately show ?thesis
    by (simp add: row_of_def find_map)
qed

lemma recordMovement_Inr:
  "recordMovement flt ids v delta reason rid ref line db = Inr (u, db') \<longleftrightarrow>
    (if delta = 0 then db' = db
     else
       (let m = \<lparr> mv_ID = MovementIDPrefix @ ids (sd_drawn db), mv_InventoryItemID = lv_InventoryItemID v,
              mv_LocationID = lv_LocationID v, mv_ReservationID = rid, mv_Reason = reason, mv_Delta = delta,
              mv_StockedAfter = lv_StockedQuantity v, mv_Reference = ref, mv_LineItemID = line,
              mv_CreatedAt = lv_UpdatedAt v \<rparr>
        in reason_Valid reason \<and> (rid \<noteq> []) = LeavesAgainstAPromise reason \<and>
          (ref \<noteq> []) = CarriesAReference reason \<and> movement_checks m \<and>
          flt ''AppendMovement'' = None \<and>
          \<not> list_ex (\<lambda>x. mv_ID x = mv_ID m) (sd_movement db) \<and>
          \<not> (reason = MovementSupplierReceipt \<and>
            list_ex (\<lambda>x. mv_Reason x = MovementSupplierReceipt \<and> mv_Reference x = ref) (sd_movement db)) \<and>
          item_there db (lv_InventoryItemID v) \<and> the_location db (lv_LocationID v) \<noteq> None \<and>
          (rid = [] \<or> the_reservation db rid \<noteq> None) \<and>
          db' = db\<lparr> sd_drawn := Suc (sd_drawn db), sd_movement := sd_movement db @ [m] \<rparr>))"
proof (cases "delta = 0")
  case True
  then show ?thesis by (auto simp: recordMovement_def)
next
  case False
  then show ?thesis
    by (auto simp: recordMovement_def draw_def AppendMovement_def q_AppendMovement_def Let_def item_there_def
        the_location_def the_reservation_def)
qed

text \<open>A write that does not raise what is sellable, over the row the caller holds.\<close>

lemma write_with_Inr:
  assumes "level_ok v" "stands v db" "is_i64 s" "s - r \<le> lv_StockedQuantity v - lv_ReservedQuantity v"
  shows "write_with fill flt ids now v s r reason rid ref line db = Inr (v', db') \<longleftrightarrow>
    flt ''UpdateInventoryLevelQuantities'' = None \<and> 0 \<le> r \<and> r \<le> s \<and> v' = put_quantities s r now v \<and>
    recordMovement flt ids v' (s - lv_StockedQuantity v) reason rid ref line
      (db\<lparr> sd_level := map (put_row (lv_ID v) s r now) (sd_level db) \<rparr>) = Inr ((), db')"
    (is "?lhs \<longleftrightarrow> ?rhs")
proof -
  obtain x where x: "find (\<lambda>y. lv_ID (lw_level y) = lv_ID v \<and> \<not> lw_deleted y) (sd_level db) = Some x" "lw_level x = v"
    using assms(2) by (auto simp: stands_def row_of_def)
  have flat: "\<not> Available (put_quantities s r now v) > Available v" if "0 \<le> r" "r \<le> s"
  proof -
    have "level_ok (put_quantities s r now v)" using that assms(3) by (simp add: level_ok_def is_i64_def)
    then show ?thesis using assms(1,4) by (simp add: Available_ok)
  qed
  have delta: "sub64 s (lv_StockedQuantity v) = s - lv_StockedQuantity v" if "0 \<le> r" "r \<le> s"
    using that assms(1,3) by (intro sub64_id) (simp add: is_i64_def level_ok_def MinInt64_def MaxInt64_def)
  show ?thesis
    by (auto simp: write_with_def UpdateInventoryLevelQuantities_Inr x delta flat dest: flat)
qed

text \<open>The write leaves the row it wrote in the table.\<close>

lemma stands_put:
  "stands v db \<Longrightarrow> stands (put_quantities s r now v) (db\<lparr> sd_level := map (put_row (lv_ID v) s r now) (sd_level db) \<rparr>)"
  by (simp add: stands_def row_of_put)

lemma stands_only_levels:
  "sd_level db' = sd_level db \<Longrightarrow> stands v db' = stands v db"
  by (simp add: stands_def row_of_def)

lemma the_reservation_append:
  "the_reservation (db\<lparr> sd_reservation := xs @ [r] \<rparr>) rid =
    (case find (\<lambda>x. rv_ID x = rid) xs of Some x \<Rightarrow> Some x | None \<Rightarrow> if rv_ID r = rid then Some r else None)"
  by (induction xs) (auto simp: the_reservation_def)

lemma put_status_other: "find (\<lambda>x. rv_ID x = rid) xs = None \<Longrightarrow> map (put_status rid st) xs = xs"
  by (induction xs) (auto simp: put_status_def split: if_splits)

definition sale_of :: "(nat \<Rightarrow> string) \<Rightarrow> moment \<Rightarrow> nat \<Rightarrow> backorder \<Rightarrow> int64 \<Rightarrow> inventory_level \<Rightarrow> movement" where
  "sale_of ids now n claim need v =
    \<lparr> mv_ID = MovementIDPrefix @ ids (Suc n), mv_InventoryItemID = lv_InventoryItemID v,
      mv_LocationID = lv_LocationID v, mv_ReservationID = ReservationIDPrefix @ ids n,
      mv_Reason = MovementSale, mv_Delta = - need, mv_StockedAfter = lv_StockedQuantity v - need,
      mv_Reference = bo_OrderID claim, mv_LineItemID = [], mv_CreatedAt = now \<rparr>"

definition fill_reservation :: "(nat \<Rightarrow> string) \<Rightarrow> nat \<Rightarrow> backorder \<Rightarrow> int64 \<Rightarrow> inventory_level \<Rightarrow> reservation" where
  "fill_reservation ids n claim need v =
    \<lparr> rv_ID = ReservationIDPrefix @ ids n, rv_InventoryItemID = lv_InventoryItemID v,
      rv_LocationID = lv_LocationID v, rv_Quantity = need, rv_LineItemID = bo_OrderLineItemID claim,
      rv_Description = [], rv_Purpose = PurposeSale, rv_Status = ReservationConfirmed \<rparr>"

definition filled_db ::
    "(nat \<Rightarrow> string) \<Rightarrow> moment \<Rightarrow> backorder \<Rightarrow> int64 \<Rightarrow> inventory_level \<Rightarrow> stock_db \<Rightarrow> stock_db" where
  "filled_db ids now claim need v db =
    db\<lparr> sd_level := map (put_row (lv_ID v) (lv_StockedQuantity v - need) (lv_ReservedQuantity v) now) (sd_level db),
        sd_reservation := sd_reservation db @ [fill_reservation ids (sd_drawn db) claim need v],
        sd_movement := sd_movement db @ [sale_of ids now (sd_drawn db) claim need v],
        sd_backorder := map (fill_row (bo_ID claim) (ReservationIDPrefix @ ids (sd_drawn db)) (lv_LocationID v)) (sd_backorder db),
        sd_drawn := Suc (Suc (sd_drawn db)) \<rparr>"

lemma prefixes_not_nil [simp]: "ReservationIDPrefix \<noteq> []" "MovementIDPrefix \<noteq> []" "BackorderIDPrefix \<noteq> []"
    "SupplierReceiptIDPrefix \<noteq> []" "InventoryLevelIDPrefix \<noteq> []"
  by (simp_all add: ReservationIDPrefix_def MovementIDPrefix_def BackorderIDPrefix_def
      SupplierReceiptIDPrefix_def InventoryLevelIDPrefix_def)

lemma fill_one_Inr:
  assumes ok: "level_ok v" "stands v db" and need: "0 < need" "need \<le> lv_StockedQuantity v - lv_ReservedQuantity v"
    and run: "fill_one fill flt ids now claim need v db = Inr (v', db')"
  shows "v' = put_quantities (lv_StockedQuantity v - need) (lv_ReservedQuantity v) now v"
    and "db' = filled_db ids now claim need v db"
    and "the_reservation db (ReservationIDPrefix @ ids (sd_drawn db)) = None"
    and "\<not> list_ex (\<lambda>m. mv_ID m = MovementIDPrefix @ ids (Suc (sd_drawn db))) (sd_movement db)"
    and "bo_OrderID claim \<noteq> []"
    and "filter (\<lambda>b. bo_ID b = bo_ID claim \<and> bo_Status b = BackorderWaiting) (sd_backorder db) \<noteq> []"
    and "\<forall>b \<in> set (sd_backorder db). bo_ID b = bo_ID claim \<and> bo_Status b = BackorderWaiting \<longrightarrow>
      backorder_checks (fill_row (bo_ID claim) (ReservationIDPrefix @ ids (sd_drawn db)) (lv_LocationID v) b)"
proof -
  let ?n = "sd_drawn db" let ?s = "lv_StockedQuantity v" let ?r = "lv_ReservedQuantity v"
  let ?res = "fill_reservation ids ?n claim need v"
  let ?v1 = "put_quantities ?s (?r + need) now v"
  define db1 where "db1 = db\<lparr> sd_drawn := Suc ?n, sd_reservation := sd_reservation db @ [?res\<lparr> rv_Status := ReservationActive \<rparr>] \<rparr>"
  have range: "?s \<le> MaxInt64" "0 \<le> ?r" "?r + need \<le> ?s" "is_i64 ?s" "is_i64 need" "is_i64 (?s - need)"
      "is_i64 (?r + need)" "is_i64 ?r"
    using ok(1) need by (auto simp: level_ok_def is_i64_def MinInt64_def)
  have add: "addQuantity ?r need = Inr (?r + need)"
    using range need by (subst addQuantity_Inr) auto
  have ok1: "level_ok ?v1" using range need by (simp add: level_ok_def)
  have st1: "stands v db1" using ok(2) by (simp add: db1_def stands_def row_of_def)
  have sub: "sub64 ?s need = ?s - need" "sub64 (?r + need) need = ?r"
    using range by (simp_all add: sub64_id)
  from run obtain vh dbh changed where
    fresh: "the_reservation db (ReservationIDPrefix @ ids ?n) = None" and
    held: "write_with fill (inside ''hold'' flt) ids now v ?s (?r + need) [] [] [] [] db1 = Inr (vh, dbh)" and
    rest: "bindT (deduct_with fill (inside ''deduct'' flt) ids now (?res\<lparr> rv_Status := ReservationActive \<rparr>) vh (bo_OrderID claim))
        (\<lambda>d. bindT (FillBackorder flt (bo_ID claim) (ReservationIDPrefix @ ids ?n) (lv_LocationID d))
          (\<lambda>changed. if changed = 0 then refuse (Internal CodeInconsistentState) else give d)) dbh = Inr (v', db')"
    unfolding fill_one_def bindT_Inr draw_def
    by (auto simp: CreateReservation_def q_CreateReservation_def add fill_reservation_def db1_def the_reservation_def)
  define db2 where "db2 = db1\<lparr> sd_level := map (put_row (lv_ID v) ?s (?r + need) now) (sd_level db1) \<rparr>"
  have h: "vh = ?v1" "dbh = db2"
    using held unfolding write_with_Inr [OF ok(1) st1 range(4), of "?r + need", simplified, OF less_imp_le [OF need(1)]]
    by (auto simp: recordMovement_Inr db2_def)
  have st2: "stands ?v1 db2" unfolding db2_def using st1 by (rule stands_put)
  let ?v2 = "put_quantities (?s - need) ?r now v"
  from rest obtain dbd where
    deducted: "write_with fill (inside ''deduct'' flt) ids now ?v1 (?s - need) ?r MovementSale
        (ReservationIDPrefix @ ids ?n) (bo_OrderID claim) [] db2 = Inr (v', dbd)" and
    tail: "bindT (SetReservationStatus (inside ''deduct'' flt) (ReservationIDPrefix @ ids ?n) ReservationConfirmed)
        (\<lambda>_. bindT (FillBackorder flt (bo_ID claim) (ReservationIDPrefix @ ids ?n) (lv_LocationID v'))
          (\<lambda>changed. if changed = 0 then refuse (Internal CodeInconsistentState) else give v')) dbd = Inr (v', db')"
    unfolding h deduct_with_def Let_def
    by (auto simp: fill_reservation_def sub purpose_MovementReason_def PurposeSale_def PurposeReplacement_def
        split: if_splits)
  define db3 where "db3 = db2\<lparr> sd_level := map (put_row (lv_ID v) (?s - need) ?r now) (sd_level db2),
      sd_drawn := Suc (Suc ?n), sd_movement := sd_movement db @ [sale_of ids now ?n claim need v] \<rparr>"
  have d: "v' = put_quantities (?s - need) ?r now ?v1" "dbd = db3" "bo_OrderID claim \<noteq> []"
      "\<not> list_ex (\<lambda>m. mv_ID m = MovementIDPrefix @ ids (Suc ?n)) (sd_movement db)"
  proof -
    have "(?s - need) - ?r \<le> lv_StockedQuantity ?v1 - lv_ReservedQuantity ?v1" by simp
    from deducted [unfolded write_with_Inr [OF ok1 st2 range(6) this]]
    have "v' = put_quantities (?s - need) ?r now ?v1"
      "recordMovement (inside ''deduct'' flt) ids v' (- need) MovementSale (ReservationIDPrefix @ ids ?n) (bo_OrderID claim) []
        (db2\<lparr> sd_level := map (put_row (lv_ID v) (?s - need) ?r now) (sd_level db2) \<rparr>) = Inr ((), dbd)"
      by (auto simp del: map_map)
    then show "v' = put_quantities (?s - need) ?r now ?v1" "dbd = db3" "bo_OrderID claim \<noteq> []"
      "\<not> list_ex (\<lambda>m. mv_ID m = MovementIDPrefix @ ids (Suc ?n)) (sd_movement db)"
      using need by (auto simp: recordMovement_Inr Let_def db3_def db2_def db1_def sale_of_def simp del: map_map)
  qed
  show v': "v' = ?v2" using d(1) by (simp add: put_quantities_def)
  show "the_reservation db (ReservationIDPrefix @ ids ?n) = None" by (rule fresh)
  show "\<not> list_ex (\<lambda>m. mv_ID m = MovementIDPrefix @ ids (Suc ?n)) (sd_movement db)" "bo_OrderID claim \<noteq> []"
    by (rule d)+
  show "db' = filled_db ids now claim need v db"
    using tail fresh unfolding d(2) v'
    by (auto simp: SetReservationStatus_def q_SetReservationStatus_def FillBackorder_def q_FillBackorder_def Let_def
        db3_def db2_def db1_def filled_db_def the_reservation_def put_status_other put_status_def fill_reservation_def
        simp del: map_map split: if_splits)
  show "filter (\<lambda>b. bo_ID b = bo_ID claim \<and> bo_Status b = BackorderWaiting) (sd_backorder db) \<noteq> []"
    using tail unfolding d(2)
    by (auto simp: SetReservationStatus_def q_SetReservationStatus_def FillBackorder_def q_FillBackorder_def Let_def
        db3_def db2_def db1_def split: if_splits)
  show "\<forall>b \<in> set (sd_backorder db). bo_ID b = bo_ID claim \<and> bo_Status b = BackorderWaiting \<longrightarrow>
      backorder_checks (fill_row (bo_ID claim) (ReservationIDPrefix @ ids ?n) (lv_LocationID v) b)"
    using tail unfolding d(2) v'
    by (auto simp: SetReservationStatus_def q_SetReservationStatus_def FillBackorder_def q_FillBackorder_def Let_def
        db3_def db2_def db1_def list_all_iff split: if_splits)
qed

text \<open>A fill's own writes do not look at the fill they are given.\<close>

lemma fill_one_flat:
  assumes "level_ok v" "stands v db" "0 < need" "need \<le> lv_StockedQuantity v - lv_ReservedQuantity v"
  shows "fill_one f flt ids now claim need v db = fill_one g flt ids now claim need v db"
proof -
  let ?s = "lv_StockedQuantity v" let ?r = "lv_ReservedQuantity v"
  have range: "0 \<le> ?r" "?r + need \<le> MaxInt64" "is_i64 ?s" "is_i64 (?s - need)" "is_i64 need" "is_i64 (?r + need)"
      "?r \<le> MaxInt64" "is_i64 ?r"
    using assms by (auto simp: level_ok_def is_i64_def MinInt64_def)
  have add: "addQuantity ?r need = Inr (?r + need)"
    using range by (subst addQuantity_Inr) auto
  have hold: "write_with f flt' ids now v ?s (?r + need) rs rv ref line =
      write_with g flt' ids now v ?s (?r + need) rs rv ref line" for flt' rs rv ref line
    using assms range by (intro write_with_flat) auto
  have deduct: "deduct_with f flt' ids now res held oid dbh = deduct_with g flt' ids now res held oid dbh"
    if "rv_Quantity res = need" "lv_StockedQuantity held = ?s" "lv_ReservedQuantity held = ?r + need" for flt' res held oid dbh
  proof -
    have "level_ok held" using assms that by (simp add: level_ok_def)
    moreover have "sub64 ?s need = ?s - need" "sub64 (?r + need) need = ?r"
      using range by (simp_all add: sub64_id)
    ultimately have "write_with f flt' ids now held (sub64 ?s need) (sub64 (?r + need) need) rs rv ref line =
        write_with g flt' ids now held (sub64 ?s need) (sub64 (?r + need) need) rs rv ref line" for rs rv ref line
      using that range by (intro write_with_flat) auto
    then show ?thesis by (simp add: deduct_with_def that Let_def)
  qed
  show ?thesis
    unfolding fill_one_def
  proof (intro bindT_cong [where m = "draw ReservationIDPrefix ids"] bindT_cong [where m = "CreateReservation flt _"])
    fix rid db1 res db2
    assume 1: "draw ReservationIDPrefix ids db = Inr (rid, db1)"
      and 2: "CreateReservation flt \<lparr> rv_ID = rid, rv_InventoryItemID = lv_InventoryItemID v,
        rv_LocationID = lv_LocationID v, rv_Quantity = need, rv_LineItemID = bo_OrderLineItemID claim,
        rv_Description = [], rv_Purpose = PurposeSale, rv_Status = ReservationActive \<rparr> db1 = Inr (res, db2)"
    have res: "rv_Quantity res = need"
      using 2 by (auto simp: CreateReservation_def q_CreateReservation_def)
    have st: "stands v db2"
      using 1 2 assms(2) by (auto simp: draw_def CreateReservation_def q_CreateReservation_def stands_def row_of_def)
    show "bindT (check (addQuantity ?r need)) (\<lambda>reserved. bindT (write_with f (inside ''hold'' flt) ids now v ?s reserved [] [] [] [])
        (\<lambda>held. bindT (deduct_with f (inside ''deduct'' flt) ids now res held (bo_OrderID claim))
        (\<lambda>deducted. bindT (FillBackorder flt (bo_ID claim) (rv_ID res) (lv_LocationID deducted))
        (\<lambda>changed. if changed = 0 then refuse (Internal CodeInconsistentState) else give deducted)))) db2 =
      bindT (check (addQuantity ?r need)) (\<lambda>reserved. bindT (write_with g (inside ''hold'' flt) ids now v ?s reserved [] [] [] [])
        (\<lambda>held. bindT (deduct_with g (inside ''deduct'' flt) ids now res held (bo_OrderID claim))
        (\<lambda>deducted. bindT (FillBackorder flt (bo_ID claim) (rv_ID res) (lv_LocationID deducted))
        (\<lambda>changed. if changed = 0 then refuse (Internal CodeInconsistentState) else give deducted)))) db2"
      unfolding add give_run hold
    proof (rule bindT_cong)
      fix held db3
      assume "write_with g (inside ''hold'' flt) ids now v ?s (?r + need) [] [] [] [] db2 = Inr (held, db3)"
      then have "lv_StockedQuantity held = ?s" "lv_ReservedQuantity held = ?r + need"
        using assms(3) by (auto simp: write_with_Inr [OF assms(1) st range(3)])
      from deduct [OF res this]
      show "bindT (deduct_with f (inside ''deduct'' flt) ids now res held (bo_OrderID claim))
          (\<lambda>deducted. bindT (FillBackorder flt (bo_ID claim) (rv_ID res) (lv_LocationID deducted))
          (\<lambda>changed. if changed = 0 then refuse (Internal CodeInconsistentState) else give deducted)) db3 =
        bindT (deduct_with g (inside ''deduct'' flt) ids now res held (bo_OrderID claim))
          (\<lambda>deducted. bindT (FillBackorder flt (bo_ID claim) (rv_ID res) (lv_LocationID deducted))
          (\<lambda>changed. if changed = 0 then refuse (Internal CodeInconsistentState) else give deducted)) db3"
        by (simp add: bindT_def)
    qed
  qed
qed

section \<open>The fill as a queue\<close>

definition claim_ok :: "backorder \<Rightarrow> bool" where
  "claim_ok c \<longleftrightarrow> 0 \<le> bo_WithdrawnQuantity c \<and> bo_WithdrawnQuantity c \<le> bo_Quantity c \<and> bo_Quantity c \<le> MaxInt64"

definition owed :: "backorder \<Rightarrow> int" where "owed c = bo_Quantity c - bo_WithdrawnQuantity c"

lemma Owed_ok: "claim_ok c \<Longrightarrow> Owed c = owed c"
  unfolding Owed_def owed_def claim_ok_def by (intro sub64_id) (simp add: is_i64_def MinInt64_def)

text \<open>The claims of a queue that some number of units completes, oldest first, each whole.\<close>

fun completed :: "int \<Rightarrow> backorder list \<Rightarrow> backorder list" where
  "completed a [] = []"
| "completed a (c # cs) = (if owed c \<le> 0 \<or> owed c > a then completed a cs else c # completed (a - owed c) cs)"

lemma completed_set: "set (completed a cs) \<subseteq> set cs"
  by (induction a cs rule: completed.induct) auto

lemma completed_sum: "0 \<le> a \<Longrightarrow> sum_list (map owed (completed a cs)) \<le> a"
  by (induction a cs rule: completed.induct) auto

lemma completed_positive: "0 \<le> sum_list (map owed (completed a cs))"
  by (induction a cs rule: completed.induct) auto

lemma completed_rest:
  "c \<in> set cs \<Longrightarrow> c \<notin> set (completed a cs) \<Longrightarrow> owed c \<le> 0 \<or> a - sum_list (map owed (completed a cs)) < owed c"
proof (induction a cs rule: completed.induct)
  case (2 a d cs)
  show ?case
  proof (cases "owed d \<le> 0 \<or> owed d > a")
    case True
    then show ?thesis using 2 completed_positive [of a cs] by (auto simp: not_le)
  next
    case False
    then show ?thesis using 2 by auto
  qed
qed simp

lemma fill_row_simps [simp]:
  "bo_ID (fill_row b r l c) = bo_ID c" "bo_InventoryItemID (fill_row b r l c) = bo_InventoryItemID c"
  "bo_Quantity (fill_row b r l c) = bo_Quantity c" "bo_WithdrawnQuantity (fill_row b r l c) = bo_WithdrawnQuantity c"
  "bo_OrderLineItemID (fill_row b r l c) = bo_OrderLineItemID c" "bo_OrderID (fill_row b r l c) = bo_OrderID c"
  "bo_LocationIDs (fill_row b r l c) = bo_LocationIDs c" "bo_Seq (fill_row b r l c) = bo_Seq c"
  by (simp_all add: fill_row_def)

text \<open>
  The run of a fill. Whatever holds of the tables when it begins and is kept by filling one waiting
  claim holds when it ends.
\<close>

lemma fill_loop_run:
  assumes "fill_loop fill flt ids now claims v filled db = Inr ((v', filled'), db')"
    and "level_ok v" "stands v db" "distinct (map bo_ID claims)"
    and "\<And>c. c \<in> set claims \<Longrightarrow> c \<in> set (sd_backorder db) \<and> claim_ok c \<and> waits_at (lv_InventoryItemID v) (lv_LocationID v) c"
    and "P v db"
    and step: "\<And>c v db v' db' flt. P v db \<Longrightarrow> level_ok v \<Longrightarrow> stands v db \<Longrightarrow> c \<in> set (sd_backorder db) \<Longrightarrow>
      claim_ok c \<Longrightarrow> waits_at (lv_InventoryItemID v) (lv_LocationID v) c \<Longrightarrow> 0 < owed c \<Longrightarrow>
      owed c \<le> lv_StockedQuantity v - lv_ReservedQuantity v \<Longrightarrow>
      fill_one fill flt ids now c (owed c) v db = Inr (v', db') \<Longrightarrow> P v' db'"
  shows "filled' = filled @ map bo_ID (completed (lv_StockedQuantity v - lv_ReservedQuantity v) claims)"
    and "lv_StockedQuantity v' = lv_StockedQuantity v -
      sum_list (map owed (completed (lv_StockedQuantity v - lv_ReservedQuantity v) claims))"
    and "lv_ReservedQuantity v' = lv_ReservedQuantity v" "lv_ID v' = lv_ID v"
    and "lv_InventoryItemID v' = lv_InventoryItemID v" "lv_LocationID v' = lv_LocationID v"
    and "level_ok v'" "stands v' db'" "P v' db'"
proof -
  have "filled' = filled @ map bo_ID (completed (lv_StockedQuantity v - lv_ReservedQuantity v) claims) \<and>
    lv_StockedQuantity v' = lv_StockedQuantity v -
      sum_list (map owed (completed (lv_StockedQuantity v - lv_ReservedQuantity v) claims)) \<and>
    lv_ReservedQuantity v' = lv_ReservedQuantity v \<and> lv_ID v' = lv_ID v \<and>
    lv_InventoryItemID v' = lv_InventoryItemID v \<and> lv_LocationID v' = lv_LocationID v \<and>
    level_ok v' \<and> stands v' db' \<and> P v' db'"
    using assms
  proof (induction fill flt ids now claims v filled arbitrary: db rule: fill_loop.induct)
    case (1 fill flt ids now v filled)
    then show ?case by simp
  next
    case (2 fill flt ids now c cs v filled)
    have c: "c \<in> set (sd_backorder db)" "claim_ok c" "waits_at (lv_InventoryItemID v) (lv_LocationID v) c"
      using 2(7) [of c] by simp_all
    have avail: "Available v = lv_StockedQuantity v - lv_ReservedQuantity v" "Owed c = owed c"
      using 2(4) c by (simp_all add: Available_ok Owed_ok)
    show ?case
    proof (cases "owed c \<le> 0 \<or> owed c > lv_StockedQuantity v - lv_ReservedQuantity v")
      case True
      then have "Owed c \<le> 0 \<or> Available v < Owed c" using avail by auto
      then have "fill_loop fill flt ids now cs v filled db = Inr ((v', filled'), db')"
        using 2(3) by (simp add: Let_def)
      from 2(1) [OF refl \<open>Owed c \<le> 0 \<or> Available v < Owed c\<close> this 2(4,5) _ _ 2(8) 2(9)] 2(6,7)
      show ?thesis unfolding completed.simps(2) if_P [OF True] by simp
    next
      case False
      then have go: "\<not> (Owed c \<le> 0 \<or> Available v < Owed c)" using avail by auto
      from 2(3) go obtain v1 db1 where
        first: "fill_one fill (inside (bo_ID c) flt) ids now c (owed c) v db = Inr (v1, db1)" and
        rest: "fill_loop fill flt ids now cs v1 (filled @ [bo_ID c]) db1 = Inr ((v', filled'), db')"
        by (auto simp: Let_def avail)
      have need: "0 < owed c" "owed c \<le> lv_StockedQuantity v - lv_ReservedQuantity v" using False by auto
      note one = fill_one_Inr [OF 2(4,5) need first]
      have v1: "level_ok v1" using 2(4) need unfolding one(1) by (simp add: level_ok_def)
      have st1: "stands v1 db1"
        unfolding one(1,2) filled_db_def
        using stands_put [OF 2(5)] by (simp add: stands_def row_of_def)
      have others: "d \<in> set (sd_backorder db1) \<and> claim_ok d \<and> waits_at (lv_InventoryItemID v1) (lv_LocationID v1) d"
        if "d \<in> set cs" for d
      proof -
        have "bo_ID d \<noteq> bo_ID c" using 2(6) that by (metis distinct.simps(2) image_eqI list.map(2) set_map)
        then have "fill_row (bo_ID c) r l d = d" for r l by (simp add: fill_row_def)
        then show ?thesis using 2(7) [of d] that unfolding one(1,2) filled_db_def
          by (auto intro!: image_eqI [where x = d])
      qed
      have "P v1 db1"
        by (rule 2(9) [OF 2(8) 2(4,5) c need first])
      from 2(2) [OF refl go rest v1 st1 _ others this 2(9)] 2(6) show ?thesis
        using False by (simp add: one(1) algebra_simps)
    qed
  qed
  then show "filled' = filled @ map bo_ID (completed (lv_StockedQuantity v - lv_ReservedQuantity v) claims)"
    "lv_StockedQuantity v' = lv_StockedQuantity v -
      sum_list (map owed (completed (lv_StockedQuantity v - lv_ReservedQuantity v) claims))"
    "lv_ReservedQuantity v' = lv_ReservedQuantity v" "lv_ID v' = lv_ID v"
    "lv_InventoryItemID v' = lv_InventoryItemID v" "lv_LocationID v' = lv_LocationID v"
    "level_ok v'" "stands v' db'" "P v' db'"
    by blast+
qed

lemma fill_loop_flat:
  "level_ok v \<Longrightarrow> stands v db \<Longrightarrow>
    fill_loop f flt ids now claims v filled db = fill_loop g flt ids now claims v filled db"
proof (induction f flt ids now claims v filled arbitrary: db rule: fill_loop.induct)
  case (2 f flt ids now c cs v filled)
  show ?case
  proof (cases "Owed c \<le> 0 \<or> Available v < Owed c")
    case True
    then show ?thesis using 2(1) [OF refl True 2(3,4)] by (simp add: Let_def)
  next
    case False
    then have need: "0 < Owed c" "Owed c \<le> lv_StockedQuantity v - lv_ReservedQuantity v"
      using Available_ok [OF 2(3)] by auto
    have same: "fill_one f (inside (bo_ID c) flt) ids now c (Owed c) v db =
        fill_one g (inside (bo_ID c) flt) ids now c (Owed c) v db"
      by (rule fill_one_flat [OF 2(3,4) need])
    have "bindT (fill_one f (inside (bo_ID c) flt) ids now c (Owed c) v)
        (\<lambda>after. fill_loop f flt ids now cs after (filled @ [bo_ID c])) db =
      bindT (fill_one f (inside (bo_ID c) flt) ids now c (Owed c) v)
        (\<lambda>after. fill_loop g flt ids now cs after (filled @ [bo_ID c])) db"
    proof (rule bindT_cong)
      fix v1 db1
      assume "fill_one f (inside (bo_ID c) flt) ids now c (Owed c) v db = Inr (v1, db1)"
      note one = fill_one_Inr [OF 2(3,4) need this]
      have "level_ok v1" using 2(3) need unfolding one(1) by (simp add: level_ok_def)
      moreover have "stands v1 db1"
        unfolding one(1,2) filled_db_def using stands_put [OF 2(4)] by (simp add: stands_def row_of_def)
      ultimately show "fill_loop f flt ids now cs v1 (filled @ [bo_ID c]) db1 =
          fill_loop g flt ids now cs v1 (filled @ [bo_ID c]) db1"
        by (rule 2(2) [OF refl False])
    qed
    then show ?thesis using False same by (auto simp: Let_def bindT_def)
  qed
qed simp

lemma fill_with_flat:
  assumes "level_ok v" "stands v db"
  shows "fill_with f flt ids now v db = fill_with g flt ids now v db"
  unfolding fill_with_def
proof (rule bindT_cong)
  fix claims db'
  assume "LockWaitingBackordersAt flt (lv_InventoryItemID v) (lv_LocationID v) (Available v) db = Inr (claims, db')"
  then have "db' = db" by (simp add: LockWaitingBackordersAt_def)
  then show "fill_loop f flt ids now claims v [] db' = fill_loop g flt ids now claims v [] db'"
    using fill_loop_flat [OF assms] by simp
qed

text \<open>The mutual recursion of the writes and the fills ends after one turn. Over the row a caller
  holds, the fill is the same whatever its own writes would call, so it satisfies the recursive
  equation of the code, and following it deeper changes nothing.\<close>

theorem fill_ends_after_one_turn:
  assumes "level_ok v" "stands v db"
  shows "fillWaiting flt ids now v db = fill_with g flt ids now v db
    \<and> fillWaiting flt ids now v db = fill_with (fillWaiting flt ids now) flt ids now v db
    \<and> fillWaiting_deep (Suc n) flt ids now v db = fillWaiting flt ids now v db"
  using fill_with_flat [OF assms] by (simp add: fillWaiting_def)

section \<open>A successful fill\<close>

definition waiting_at :: "stock_db \<Rightarrow> string \<Rightarrow> string \<Rightarrow> backorder list" where
  "waiting_at db i l = sort_key bo_Seq (filter (waits_at i l) (sd_backorder db))"

lemma fillWaiting_run:
  assumes run: "fillWaiting flt ids now v db = Inr ((v', filled), db')"
    and "level_ok v" "stands v db" "distinct (map bo_ID (sd_backorder db))"
    and ok: "\<And>c. c \<in> set (sd_backorder db) \<Longrightarrow> claim_ok c"
    and "P v db"
    and step: "\<And>c v db v' db' flt fill. P v db \<Longrightarrow> level_ok v \<Longrightarrow> stands v db \<Longrightarrow> c \<in> set (sd_backorder db) \<Longrightarrow>
      claim_ok c \<Longrightarrow> waits_at (lv_InventoryItemID v) (lv_LocationID v) c \<Longrightarrow> 0 < owed c \<Longrightarrow>
      owed c \<le> lv_StockedQuantity v - lv_ReservedQuantity v \<Longrightarrow>
      fill_one fill flt ids now c (owed c) v db = Inr (v', db') \<Longrightarrow> P v' db'"
  defines "chosen \<equiv> completed (lv_StockedQuantity v - lv_ReservedQuantity v)
    (waiting_at db (lv_InventoryItemID v) (lv_LocationID v))"
  shows "filled = map bo_ID chosen"
    and "lv_StockedQuantity v' = lv_StockedQuantity v - sum_list (map owed chosen)"
    and "lv_ReservedQuantity v' = lv_ReservedQuantity v" "lv_ID v' = lv_ID v"
    and "lv_InventoryItemID v' = lv_InventoryItemID v" "lv_LocationID v' = lv_LocationID v"
    and "level_ok v'" "stands v' db'" "P v' db'"
proof -
  let ?i = "lv_InventoryItemID v" let ?l = "lv_LocationID v"
  let ?a = "lv_StockedQuantity v - lv_ReservedQuantity v"
  define claims where "claims = sort_key bo_Seq (filter (\<lambda>b. waits_at ?i ?l b \<and> owed b \<le> ?a) (sd_backorder db))"
  have loop: "fill_loop (\<lambda>_. refuse ran_out) flt ids now claims v [] db = Inr ((v', filled), db')"
    using run assms(2)
    by (auto simp: fillWaiting_def fill_with_def LockWaitingBackordersAt_def q_LockWaitingBackordersAt_def
        claims_def owed_def Available_ok)
  have sub: "set claims \<subseteq> set (sd_backorder db)" by (auto simp: claims_def)
  have "distinct (map bo_ID claims)"
  proof -
    have "mset (map bo_ID claims) = mset (map bo_ID (filter (\<lambda>b. waits_at ?i ?l b \<and> owed b \<le> ?a) (sd_backorder db)))"
      by (simp add: claims_def)
    moreover have "distinct (map bo_ID (filter (\<lambda>b. waits_at ?i ?l b \<and> owed b \<le> ?a) (sd_backorder db)))"
      using assms(4) by (rule distinct_map_filter)
    ultimately show ?thesis by (metis mset_eq_imp_distinct_iff)
  qed
  moreover have "c \<in> set (sd_backorder db) \<and> claim_ok c \<and> waits_at ?i ?l c" if "c \<in> set claims" for c
    using that ok by (auto simp: claims_def)
  moreover have "completed ?a claims = chosen"
  proof -
    have "completed a (filter (\<lambda>b. owed b \<le> x) cs) = completed a cs" if "a \<le> x" for a x cs
      using that by (induction a cs rule: completed.induct) auto
    moreover have "claims = filter (\<lambda>b. owed b \<le> ?a) (waiting_at db ?i ?l)"
      by (simp add: claims_def waiting_at_def filter_sort [symmetric] conj_commute)
    ultimately show ?thesis by (simp add: chosen_def)
  qed
  ultimately show "filled = map bo_ID chosen"
    "lv_StockedQuantity v' = lv_StockedQuantity v - sum_list (map owed chosen)"
    "lv_ReservedQuantity v' = lv_ReservedQuantity v" "lv_ID v' = lv_ID v"
    "lv_InventoryItemID v' = lv_InventoryItemID v" "lv_LocationID v' = lv_LocationID v"
    "level_ok v'" "stands v' db'" "P v' db'"
    using fill_loop_run [where P = P, OF loop assms(2,3) _ _ assms(6) step] by simp_all
qed

end
