(* ===== verification/StockService.thy ===== *)
theory StockService
  imports StockLedger
begin

text \<open>
  The operations of the inventory service, \<^verbatim>\<open>internal/modules/inventory/service\<close>: the counts of
  \<^verbatim>\<open>stock.go\<close>, the reservations, the claims of \<^verbatim>\<open>backorder.go\<close>, the supplier receipts, the
  recall of a replacement, the forecast and the places and items of \<^verbatim>\<open>service.go\<close>. A call is a
  function of the tables, its faults, the ids it draws and its moment. Where a call reads without a
  lock before its transaction, those tables are an argument of their own.
\<close>

section \<open>Guards\<close>

definition maxTextLen :: nat where "maxTextLen = 512"

definition checkTextLen :: "string \<Rightarrow> error option" where
  "checkTextLen s = (if length s > maxTextLen then Some (Invalid stock_CodeInvalidInput) else None)"

definition requireText :: "string \<Rightarrow> error option" where
  "requireText s = (if s = [] then Some (Invalid stock_CodeInvalidInput) else checkTextLen s)"

definition requireIDs :: "string \<Rightarrow> string \<Rightarrow> error option" where
  "requireIDs itemID locationID = (case requireText itemID of Some e \<Rightarrow> Some e | None \<Rightarrow> requireText locationID)"

definition invalid_unless :: "bool \<Rightarrow> error option" where
  "invalid_unless ok = (if ok then None else Some (Invalid stock_CodeInvalidInput))"

text \<open>The checks before a transaction, in order.\<close>

definition after ::
    "error option list \<Rightarrow> (stock_db \<Rightarrow> (error + 'a) \<times> stock_db) \<Rightarrow> stock_db \<Rightarrow> (error + 'a) \<times> stock_db" where
  "after checks k db = (case first_violation checks of Some e \<Rightarrow> (Inl e, db) | None \<Rightarrow> k db)"

definition attempt ::
    "('db \<Rightarrow> error + 'a \<times> 'db) \<Rightarrow> (error \<Rightarrow> 'db \<Rightarrow> error + 'b \<times> 'db) \<Rightarrow> ('a \<Rightarrow> 'db \<Rightarrow> error + 'b \<times> 'db) \<Rightarrow>
     'db \<Rightarrow> error + 'b \<times> 'db" where
  "attempt m h f db = (case m db of Inl e \<Rightarrow> h e db | Inr (a, db') \<Rightarrow> f a db')"

definition demand :: "error option \<Rightarrow> 'db \<Rightarrow> error + unit \<times> 'db" where
  "demand e db = (case e of Some x \<Rightarrow> Inl x | None \<Rightarrow> Inr ((), db))"

definition requireOpenLocation :: "faults \<Rightarrow> string \<Rightarrow> stock_db \<Rightarrow> error + unit \<times> stock_db" where
  "requireOpenLocation flt l =
    bindT (LockStockLocationShared flt l) (\<lambda>loc.
      if location_Closed loc then refuse (Conflict CodeLocationClosed) else give ())"

definition stockUnmoved :: "int64 option \<Rightarrow> int64 \<Rightarrow> error option" where
  "stockUnmoved seen current =
    (if seen = None \<or> seen = Some current then None else Some (Conflict CodeStockMoved))"

section \<open>Counts\<close>

definition set_level_tx ::
    "faults \<Rightarrow> (nat \<Rightarrow> string) \<Rightarrow> moment \<Rightarrow> string \<Rightarrow> string \<Rightarrow> int64 \<Rightarrow> int64 option \<Rightarrow>
     stock_db \<Rightarrow> error + inventory_level \<times> stock_db" where
  "set_level_tx flt ids now itemID locationID stockedQty seen =
    bindT (requireOpenLocation flt locationID) (\<lambda>_.
    bindT (LockInventoryItem flt itemID) (\<lambda>_.
    attempt (LockInventoryLevel flt itemID locationID)
      (\<lambda>err. if \<not> HasKind (Some err) KindNotFound then refuse err
        else bindT (demand (stockUnmoved seen 0)) (\<lambda>_.
          openLevel flt ids now itemID locationID stockedQty MovementStockCount []))
      (\<lambda>level. bindT (demand (stockUnmoved seen (lv_StockedQuantity level))) (\<lambda>_.
        if stockedQty < lv_ReservedQuantity level then refuse (Conflict CodeInsufficientStock)
        else writeQuantities flt ids now level stockedQty (lv_ReservedQuantity level) MovementStockCount [] [] []))))"

definition setInventoryLevel ::
    "faults \<Rightarrow> (nat \<Rightarrow> string) \<Rightarrow> moment \<Rightarrow> string \<Rightarrow> string \<Rightarrow> int64 \<Rightarrow> int64 option \<Rightarrow>
     stock_db \<Rightarrow> (error + inventory_level) \<times> stock_db" where
  "setInventoryLevel flt ids now itemID locationID stockedQty seen =
    after [requireIDs itemID locationID, invalid_unless (0 \<le> stockedQty)]
      (stock_WithTx flt (set_level_tx flt ids now itemID locationID stockedQty seen))"

definition SetInventoryLevel ::
    "faults \<Rightarrow> (nat \<Rightarrow> string) \<Rightarrow> moment \<Rightarrow> string \<Rightarrow> string \<Rightarrow> int64 \<Rightarrow> stock_db \<Rightarrow> (error + inventory_level) \<times> stock_db" where
  "SetInventoryLevel flt ids now itemID locationID stockedQty =
    setInventoryLevel flt ids now itemID locationID stockedQty None"

definition SetInventoryLevelFrom ::
    "faults \<Rightarrow> (nat \<Rightarrow> string) \<Rightarrow> moment \<Rightarrow> string \<Rightarrow> string \<Rightarrow> int64 \<Rightarrow> int64 \<Rightarrow>
     stock_db \<Rightarrow> (error + inventory_level) \<times> stock_db" where
  "SetInventoryLevelFrom flt ids now itemID locationID seen stockedQty =
    setInventoryLevel flt ids now itemID locationID stockedQty (Some seen)"

definition adjust_tx ::
    "faults \<Rightarrow> (nat \<Rightarrow> string) \<Rightarrow> moment \<Rightarrow> string \<Rightarrow> string \<Rightarrow> int64 \<Rightarrow> string \<Rightarrow>
     stock_db \<Rightarrow> error + inventory_level \<times> stock_db" where
  "adjust_tx flt ids now itemID locationID delta reason =
    bindT (requireOpenLocation flt locationID) (\<lambda>_.
    bindT (LockInventoryItemShared flt itemID) (\<lambda>_.
    bindT (LockInventoryLevel flt itemID locationID) (\<lambda>level.
    bindT (check (addQuantity (lv_StockedQuantity level) delta)) (\<lambda>newStocked.
    if newStocked < lv_ReservedQuantity level then refuse (Conflict CodeInsufficientStock)
    else writeQuantities flt ids now level newStocked (lv_ReservedQuantity level) reason [] [] []))))"

definition adjust ::
    "faults \<Rightarrow> (nat \<Rightarrow> string) \<Rightarrow> moment \<Rightarrow> string \<Rightarrow> string \<Rightarrow> int64 \<Rightarrow> string \<Rightarrow>
     stock_db \<Rightarrow> (error + inventory_level) \<times> stock_db" where
  "adjust flt ids now itemID locationID delta reason =
    after [requireIDs itemID locationID] (stock_WithTx flt (adjust_tx flt ids now itemID locationID delta reason))"

definition AdjustInventory ::
    "faults \<Rightarrow> (nat \<Rightarrow> string) \<Rightarrow> moment \<Rightarrow> string \<Rightarrow> string \<Rightarrow> int64 \<Rightarrow> stock_db \<Rightarrow> (error + inventory_level) \<times> stock_db" where
  "AdjustInventory flt ids now itemID locationID delta =
    after [invalid_unless (delta \<noteq> 0)] (adjust flt ids now itemID locationID delta MovementAdjustment)"

definition RestockInventory ::
    "faults \<Rightarrow> (nat \<Rightarrow> string) \<Rightarrow> moment \<Rightarrow> string \<Rightarrow> string \<Rightarrow> int64 \<Rightarrow> stock_db \<Rightarrow> (error + inventory_level) \<times> stock_db" where
  "RestockInventory flt ids now itemID locationID quantity =
    after [invalid_unless (0 < quantity)] (adjust flt ids now itemID locationID quantity MovementReturnRestock)"

section \<open>Reads\<close>

definition ListInventoryLevels :: "faults \<Rightarrow> string \<Rightarrow> stock_db \<Rightarrow> error + inventory_level list" where
  "ListInventoryLevels flt itemID db =
    (case requireText itemID of
      Some e \<Rightarrow> Inl e
    | None \<Rightarrow>
        (case bindT (repo_GetInventoryItem flt itemID) (\<lambda>_. repo_ListInventoryLevels flt itemID) db of
          Inl e \<Rightarrow> Inl e | Inr (levels, _) \<Rightarrow> Inr levels))"

definition AvailableQuantity :: "faults \<Rightarrow> string \<Rightarrow> stock_db \<Rightarrow> error + int64" where
  "AvailableQuantity flt itemID db =
    and_then (ListInventoryLevels flt itemID db) (\<lambda>levels.
      Inr (foldl (\<lambda>sum level. add64 sum (Available level)) 0 levels))"

definition LocationsWithStock :: "faults \<Rightarrow> string \<Rightarrow> int64 \<Rightarrow> stock_db \<Rightarrow> error + string list" where
  "LocationsWithStock flt itemID quantity db =
    (if quantity \<le> 0 then Inl (Invalid stock_CodeInvalidInput)
     else and_then (ListInventoryLevels flt itemID db) (\<lambda>levels.
       Inr (sort (map lv_LocationID (filter (\<lambda>level. Available level \<ge> quantity) levels)))))"

section \<open>Reservations\<close>

record reserve_input =
  rsv_InventoryItemID :: string
  rsv_LocationID :: string
  rsv_Quantity :: int64
  rsv_LineItemID :: string
  rsv_Description :: string
  rsv_Purpose :: string

definition reserve_purpose :: "reserve_input \<Rightarrow> string" where
  "reserve_purpose req = (if rsv_Purpose req = [] then PurposeSale else rsv_Purpose req)"

definition reserve_tx ::
    "faults \<Rightarrow> (nat \<Rightarrow> string) \<Rightarrow> moment \<Rightarrow> reserve_input \<Rightarrow> stock_db \<Rightarrow> error + reservation \<times> stock_db" where
  "reserve_tx flt ids now req =
    bindT (LockInventoryItemShared flt (rsv_InventoryItemID req)) (\<lambda>_.
    bindT (LockInventoryLevel flt (rsv_InventoryItemID req) (rsv_LocationID req)) (\<lambda>level.
    if Available level < rsv_Quantity req then refuse (Conflict CodeInsufficientStock)
    else
      bindT (check (addQuantity (lv_ReservedQuantity level) (rsv_Quantity req))) (\<lambda>newReserved.
      bindT (writeQuantities flt ids now level (lv_StockedQuantity level) newReserved [] [] [] []) (\<lambda>_.
      bindT (draw ReservationIDPrefix ids) (\<lambda>rid.
      CreateReservation flt
        \<lparr> rv_ID = rid, rv_InventoryItemID = rsv_InventoryItemID req, rv_LocationID = rsv_LocationID req,
          rv_Quantity = rsv_Quantity req, rv_LineItemID = strings_TrimSpace (rsv_LineItemID req),
          rv_Description = strings_TrimSpace (rsv_Description req), rv_Purpose = reserve_purpose req,
          rv_Status = ReservationActive \<rparr>)))))"

definition Reserve ::
    "faults \<Rightarrow> (nat \<Rightarrow> string) \<Rightarrow> moment \<Rightarrow> reserve_input \<Rightarrow> stock_db \<Rightarrow> (error + reservation) \<times> stock_db" where
  "Reserve flt ids now req =
    after [requireIDs (rsv_InventoryItemID req) (rsv_LocationID req), invalid_unless (0 < rsv_Quantity req),
        checkTextLen (rsv_LineItemID req), checkTextLen (rsv_Description req),
        invalid_unless (purpose_Valid (reserve_purpose req))]
      (stock_WithTx flt (reserve_tx flt ids now req))"

definition release_stock_tx ::
    "faults \<Rightarrow> (nat \<Rightarrow> string) \<Rightarrow> moment \<Rightarrow> string \<Rightarrow> stock_db \<Rightarrow> error + unit \<times> stock_db" where
  "release_stock_tx flt ids now rid =
    bindT (LockReservation flt rid) (\<lambda>r.
    if rv_Status r = ReservationReleased then give ()
    else if rv_Status r = ReservationConfirmed then refuse (Conflict CodeReservationNotActive)
    else if rv_Status r \<noteq> ReservationActive then refuse (Internal CodeInconsistentState)
    else
      bindT (LockInventoryItemShared flt (rv_InventoryItemID r)) (\<lambda>_.
      bindT (LockInventoryLevel flt (rv_InventoryItemID r) (rv_LocationID r)) (\<lambda>level.
      let newReserved = sub64 (lv_ReservedQuantity level) (rv_Quantity r)
      in if newReserved < 0 then refuse (Internal CodeInconsistentState)
         else
           bindT (writeQuantities flt ids now level (lv_StockedQuantity level) newReserved [] [] [] []) (\<lambda>_.
           SetReservationStatus flt rid ReservationReleased))))"

definition ReleaseReservation ::
    "faults \<Rightarrow> (nat \<Rightarrow> string) \<Rightarrow> moment \<Rightarrow> string \<Rightarrow> stock_db \<Rightarrow> (error + unit) \<times> stock_db" where
  "ReleaseReservation flt ids now rid = after [requireText rid] (stock_WithTx flt (release_stock_tx flt ids now rid))"

definition confirm_tx ::
    "faults \<Rightarrow> (nat \<Rightarrow> string) \<Rightarrow> moment \<Rightarrow> string \<Rightarrow> string \<Rightarrow> stock_db \<Rightarrow> error + unit \<times> stock_db" where
  "confirm_tx flt ids now rid orderID =
    bindT (LockReservation flt rid) (\<lambda>r.
    if rv_Status r = ReservationConfirmed then give ()
    else if rv_Status r = ReservationReleased then refuse (Conflict CodeReservationNotActive)
    else if rv_Status r \<noteq> ReservationActive then refuse (Internal CodeInconsistentState)
    else
      bindT (LockInventoryItemShared flt (rv_InventoryItemID r)) (\<lambda>_.
      bindT (LockInventoryLevel flt (rv_InventoryItemID r) (rv_LocationID r)) (\<lambda>level.
      bindT (deductHeld flt ids now r level orderID) (\<lambda>_. give ()))))"

definition ConfirmReservation ::
    "faults \<Rightarrow> (nat \<Rightarrow> string) \<Rightarrow> moment \<Rightarrow> string \<Rightarrow> string \<Rightarrow> stock_db \<Rightarrow> (error + unit) \<times> stock_db" where
  "ConfirmReservation flt ids now rid orderID =
    after [requireText rid] (stock_WithTx flt (confirm_tx flt ids now rid orderID))"

definition GetReservation :: "faults \<Rightarrow> string \<Rightarrow> stock_db \<Rightarrow> (error + reservation) \<times> stock_db" where
  "GetReservation flt rid =
    after [requireText rid] (\<lambda>db. case repo_GetReservation flt rid db of Inl e \<Rightarrow> (Inl e, db) | Inr (r, _) \<Rightarrow> (Inr r, db))"

section \<open>Units that come back\<close>

definition return_canceled_tx ::
    "faults \<Rightarrow> (nat \<Rightarrow> string) \<Rightarrow> moment \<Rightarrow> string \<Rightarrow> string \<Rightarrow> string \<Rightarrow> int64 \<Rightarrow> string \<Rightarrow>
     stock_db \<Rightarrow> error + inventory_level \<times> stock_db" where
  "return_canceled_tx flt ids now itemID locationID lineItemID target reference =
    bindT (requireOpenLocation flt locationID) (\<lambda>_.
    bindT (LockInventoryItemShared flt itemID) (\<lambda>_.
    bindT (LockInventoryLevel flt itemID locationID) (\<lambda>level.
    bindT (ReturnedForLine flt itemID lineItemID) (\<lambda>returned.
    let quantity = sub64 target returned
    in if quantity \<le> 0 then refuse ErrMovementAlreadyRecorded
       else
         bindT (check (addQuantity (lv_StockedQuantity level) quantity)) (\<lambda>newStocked.
         writeQuantities flt ids now level newStocked (lv_ReservedQuantity level) MovementCancellation [] reference lineItemID)))))"

definition ReturnCanceledInventory ::
    "faults \<Rightarrow> (nat \<Rightarrow> string) \<Rightarrow> moment \<Rightarrow> string \<Rightarrow> string \<Rightarrow> string \<Rightarrow> int64 \<Rightarrow> string \<Rightarrow>
     stock_db \<Rightarrow> (error + inventory_level) \<times> stock_db" where
  "ReturnCanceledInventory flt ids now itemID locationID lineItemID target reference =
    after [invalid_unless (0 < target), requireText reference, requireText lineItemID, requireIDs itemID locationID]
      (stock_WithTx flt (return_canceled_tx flt ids now itemID locationID lineItemID target reference))"

definition recall_tx ::
    "faults \<Rightarrow> (nat \<Rightarrow> string) \<Rightarrow> moment \<Rightarrow> string \<Rightarrow> stock_db \<Rightarrow> error + inventory_level \<times> stock_db" where
  "recall_tx flt ids now rid =
    bindT (LockReservation flt rid) (\<lambda>r.
    if rv_Purpose r \<noteq> PurposeReplacement then refuse (Conflict CodeReservationNotActive)
    else if rv_Status r \<noteq> ReservationConfirmed then refuse (Conflict CodeReservationNotActive)
    else
      bindT (CancellationRecorded flt rid) (\<lambda>recorded.
      if recorded then refuse ErrMovementAlreadyRecorded
      else
        bindT (requireOpenLocation flt (rv_LocationID r)) (\<lambda>_.
        bindT (LockInventoryItemShared flt (rv_InventoryItemID r)) (\<lambda>_.
        bindT (LockInventoryLevel flt (rv_InventoryItemID r) (rv_LocationID r)) (\<lambda>level.
        bindT (check (addQuantity (lv_StockedQuantity level) (rv_Quantity r))) (\<lambda>stocked.
        writeQuantities flt ids now level stocked (lv_ReservedQuantity level) MovementCancellation [] rid []))))))"

definition RecallReplacementUnits ::
    "faults \<Rightarrow> (nat \<Rightarrow> string) \<Rightarrow> moment \<Rightarrow> string \<Rightarrow> stock_db \<Rightarrow> (error + inventory_level) \<times> stock_db" where
  "RecallReplacementUnits flt ids now rid = after [requireText rid] (stock_WithTx flt (recall_tx flt ids now rid))"

definition SaleLocations :: "faults \<Rightarrow> string \<Rightarrow> stock_db \<Rightarrow> (error + (string \<rightharpoonup> string)) \<times> stock_db" where
  "SaleLocations flt orderID =
    after [requireText orderID] (\<lambda>db. case repo_SaleLocations flt orderID db of Inl e \<Rightarrow> (Inl e, db) | Inr (r, _) \<Rightarrow> (Inr r, db))"

text \<open>The surface other modules call turns the answer that the units are already back into a flag.\<close>

definition already_back :: "(error + 'a) \<times> stock_db \<Rightarrow> (bool \<times> error option) \<times> stock_db" where
  "already_back r =
    (case r of
      (Inr _, db) \<Rightarrow> ((False, None), db)
    | (Inl e, db) \<Rightarrow>
        if err_Is e ''inventory: that movement is already in the ledger'' then ((True, None), db)
        else ((False, Some e), db))"

definition ReturnCanceled ::
    "faults \<Rightarrow> (nat \<Rightarrow> string) \<Rightarrow> moment \<Rightarrow> string \<Rightarrow> string \<Rightarrow> string \<Rightarrow> int64 \<Rightarrow> string \<Rightarrow>
     stock_db \<Rightarrow> (bool \<times> error option) \<times> stock_db" where
  "ReturnCanceled flt ids now itemID locationID lineItemID target reference db =
    already_back (ReturnCanceledInventory flt ids now itemID locationID lineItemID target reference db)"

definition RecallReplacement ::
    "faults \<Rightarrow> (nat \<Rightarrow> string) \<Rightarrow> moment \<Rightarrow> string \<Rightarrow> stock_db \<Rightarrow> (bool \<times> error option) \<times> stock_db" where
  "RecallReplacement flt ids now rid db = already_back (RecallReplacementUnits flt ids now rid db)"

section \<open>Claims\<close>

record claim_input =
  cin_InventoryItemID :: string
  cin_OrderID :: string
  cin_OrderLineItemID :: string
  cin_Quantity :: int64
  cin_LocationIDs :: "string list"

fun distinct_locations :: "string list \<Rightarrow> string list \<Rightarrow> error + string list" where
  "distinct_locations [] acc = Inr acc"
| "distinct_locations (l # ls) acc =
    (case requireText l of
      Some e \<Rightarrow> Inl e
    | None \<Rightarrow> distinct_locations ls (if l \<in> set acc then acc else acc @ [l]))"

definition claim_tx ::
    "faults \<Rightarrow> (nat \<Rightarrow> string) \<Rightarrow> claim_input \<Rightarrow> string list \<Rightarrow> stock_db \<Rightarrow> error + backorder \<times> stock_db" where
  "claim_tx flt ids req locations =
    bindT (LockInventoryItemShared flt (cin_InventoryItemID req)) (\<lambda>_.
    bindT (draw BackorderIDPrefix ids) (\<lambda>bid.
    bindT (CreateBackorder flt
      \<lparr> bo_ID = bid, bo_InventoryItemID = cin_InventoryItemID req, bo_OrderID = cin_OrderID req,
        bo_OrderLineItemID = cin_OrderLineItemID req, bo_Quantity = cin_Quantity req, bo_WithdrawnQuantity = 0,
        bo_LocationIDs = locations, bo_Status = BackorderWaiting, bo_ReservationID = [],
        bo_FilledLocationID = [], bo_Seq = 0 \<rparr>) (\<lambda>created.
    case created of
      Some b \<Rightarrow> give b
    | None \<Rightarrow>
        bindT (GetBackorderOfLine flt (cin_OrderLineItemID req) (cin_InventoryItemID req)) (\<lambda>existing.
        if bo_Quantity existing \<noteq> cin_Quantity req then refuse (Conflict CodeBackorderMismatch)
        else give existing))))"

definition ClaimBackorder ::
    "faults \<Rightarrow> (nat \<Rightarrow> string) \<Rightarrow> claim_input \<Rightarrow> stock_db \<Rightarrow> (error + backorder) \<times> stock_db" where
  "ClaimBackorder flt ids req =
    after [requireText (cin_InventoryItemID req), requireText (strings_TrimSpace (cin_OrderID req)),
        requireText (strings_TrimSpace (cin_OrderLineItemID req)), invalid_unless (0 < cin_Quantity req)]
      (\<lambda>db. case distinct_locations (cin_LocationIDs req) [] of
        Inl e \<Rightarrow> (Inl e, db)
      | Inr locations \<Rightarrow> stock_WithTx flt (claim_tx flt ids req locations) db)"

record settlement =
  stl_Undeducted :: "string \<rightharpoonup> int64"
  stl_FilledAt :: "string \<rightharpoonup> string"

definition no_settlement :: settlement where
  "no_settlement = \<lparr> stl_Undeducted = (\<lambda>_. None), stl_FilledAt = (\<lambda>_. None) \<rparr>"

definition settle_claim :: "faults \<Rightarrow> int64 \<Rightarrow> int64 \<Rightarrow> backorder \<Rightarrow> stock_db \<Rightarrow> error + backorder \<times> stock_db" where
  "settle_claim flt bought window claim =
    (let perUnit = quot64 (bo_Quantity claim) bought
     in if mul64 perUnit bought \<noteq> bo_Quantity claim then refuse (Internal CodeInconsistentState)
        else if bo_Status claim = BackorderWaiting then
          (let withdrawn = max (bo_WithdrawnQuantity claim) (min (bo_Quantity claim) (mul64 window perUnit))
           in if withdrawn \<noteq> bo_WithdrawnQuantity claim
              then WithdrawBackorder (inside (bo_ID claim) flt) (bo_ID claim) withdrawn
                (if withdrawn = bo_Quantity claim then BackorderWithdrawn else BackorderWaiting)
              else give claim)
        else give claim)"

definition settled :: "backorder \<Rightarrow> settlement \<Rightarrow> settlement" where
  "settled claim acc =
    \<lparr> stl_Undeducted = (stl_Undeducted acc)(bo_InventoryItemID claim \<mapsto> Undeducted claim),
      stl_FilledAt = (if bo_Status claim = BackorderFilled
        then (stl_FilledAt acc)(bo_InventoryItemID claim \<mapsto> bo_FilledLocationID claim) else stl_FilledAt acc) \<rparr>"

fun settle_loop ::
    "faults \<Rightarrow> int64 \<Rightarrow> int64 \<Rightarrow> backorder list \<Rightarrow> settlement \<Rightarrow> backorder list \<Rightarrow>
     stock_db \<Rightarrow> error + (settlement \<times> backorder list) \<times> stock_db" where
  "settle_loop flt bought window [] s waiting = give (s, waiting)"
| "settle_loop flt bought window (claim # claims) s waiting =
    bindT (settle_claim flt bought window claim) (\<lambda>claim.
      settle_loop flt bought window claims (settled claim s)
        (if bo_Status claim = BackorderWaiting then waiting @ [claim] else waiting))"

definition settle_tx ::
    "faults \<Rightarrow> string \<Rightarrow> int64 \<Rightarrow> int64 \<Rightarrow> stock_db \<Rightarrow> error + (settlement \<times> backorder list) \<times> stock_db" where
  "settle_tx flt line bought window =
    bindT (LockBackordersOfLine flt line) (\<lambda>claims. settle_loop flt bought window claims no_settlement [])"

definition drain_tx ::
    "faults \<Rightarrow> (nat \<Rightarrow> string) \<Rightarrow> moment \<Rightarrow> backorder \<Rightarrow> string \<Rightarrow> stock_db \<Rightarrow> error + bool \<times> stock_db" where
  "drain_tx flt ids now claim locationID =
    bindT (requireOpenLocation flt locationID) (\<lambda>_.
    bindT (LockInventoryItemShared flt (bo_InventoryItemID claim)) (\<lambda>_.
    bindT (LockInventoryLevel flt (bo_InventoryItemID claim) locationID) (\<lambda>level.
    if Available level \<le> 0 then give False
    else bindT (fillWaiting flt ids now level) (\<lambda>(_, filled). give (bo_ID claim \<in> set filled)))))"

fun drain_loop ::
    "faults \<Rightarrow> (nat \<Rightarrow> string) \<Rightarrow> moment \<Rightarrow> backorder \<Rightarrow> string list \<Rightarrow> stock_db \<Rightarrow> error option \<times> stock_db" where
  "drain_loop flt ids now claim [] db = (None, db)"
| "drain_loop flt ids now claim (l # ls) db =
    (case stock_WithTx (inside l flt) (drain_tx (inside l flt) ids now claim l) db of
      (Inr filled, db') \<Rightarrow> if filled then (None, db') else drain_loop flt ids now claim ls db'
    | (Inl e, db') \<Rightarrow>
        if IsNotFound (Some e) \<or> CodeOf e = CodeLocationClosed then drain_loop flt ids now claim ls db'
        else (Some e, db'))"

definition drain ::
    "faults \<Rightarrow> (nat \<Rightarrow> string) \<Rightarrow> moment \<Rightarrow> backorder \<Rightarrow> stock_db \<Rightarrow> error option \<times> stock_db" where
  "drain flt ids now claim = drain_loop flt ids now claim (bo_LocationIDs claim)"

fun drain_all ::
    "faults \<Rightarrow> (nat \<Rightarrow> string) \<Rightarrow> moment \<Rightarrow> backorder list \<Rightarrow> stock_db \<Rightarrow> error option list \<times> stock_db" where
  "drain_all flt ids now [] db = ([], db)"
| "drain_all flt ids now (claim # claims) db =
    (case drain (inside (bo_ID claim) flt) ids now claim db of
      (e, db') \<Rightarrow> (case drain_all flt ids now claims db' of (es, db'') \<Rightarrow> (e # es, db'')))"

definition SettleBackorder ::
    "faults \<Rightarrow> (nat \<Rightarrow> string) \<Rightarrow> moment \<Rightarrow> string \<Rightarrow> int64 \<Rightarrow> int64 \<Rightarrow>
     stock_db \<Rightarrow> (settlement \<times> error option) \<times> stock_db" where
  "SettleBackorder flt ids now line bought window db =
    (case first_violation [requireText line, invalid_unless (0 < bought), invalid_unless (0 \<le> window \<and> window \<le> bought)] of
      Some e \<Rightarrow> ((no_settlement, Some e), db)
    | None \<Rightarrow>
        (case stock_WithTx flt (settle_tx flt line bought window) db of
          (Inl e, db') \<Rightarrow> ((no_settlement, Some e), db')
        | (Inr (s, waiting), db') \<Rightarrow>
            (case drain_all flt ids now waiting db' of (es, db'') \<Rightarrow> ((s, Join es), db''))))"

section \<open>Supplier receipts\<close>

record receipt_input =
  sin_InventoryItemID :: string
  sin_LocationID :: string
  sin_Quantity :: int64
  sin_ExpectedAt :: "moment option"
  sin_Reference :: string

definition record_receipt_tx ::
    "faults \<Rightarrow> (nat \<Rightarrow> string) \<Rightarrow> receipt_input \<Rightarrow> moment \<Rightarrow> stock_db \<Rightarrow> error + supplier_receipt \<times> stock_db" where
  "record_receipt_tx flt ids req expected =
    bindT (requireOpenLocation flt (sin_LocationID req)) (\<lambda>_.
    bindT (LockInventoryItemShared flt (sin_InventoryItemID req)) (\<lambda>_.
    bindT (draw SupplierReceiptIDPrefix ids) (\<lambda>rid.
    CreateSupplierReceipt flt
      \<lparr> sup_ID = rid, sup_InventoryItemID = sin_InventoryItemID req, sup_LocationID = sin_LocationID req,
        sup_Quantity = sin_Quantity req, sup_ExpectedAt = expected,
        sup_Reference = strings_TrimSpace (sin_Reference req), sup_Status = SupplierReceiptExpected,
        sup_ReceivedQuantity = 0, sup_ReceivedAt = None, sup_CanceledAt = None \<rparr>)))"

definition RecordSupplierReceipt ::
    "faults \<Rightarrow> (nat \<Rightarrow> string) \<Rightarrow> receipt_input \<Rightarrow> stock_db \<Rightarrow> (error + supplier_receipt) \<times> stock_db" where
  "RecordSupplierReceipt flt ids req =
    after [requireIDs (sin_InventoryItemID req) (sin_LocationID req), invalid_unless (0 < sin_Quantity req),
        invalid_unless (sin_ExpectedAt req \<noteq> None),
        invalid_unless (sin_Reference req = [] \<or> strings_TrimSpace (sin_Reference req) \<noteq> []),
        checkTextLen (strings_TrimSpace (sin_Reference req))]
      (stock_WithTx flt (record_receipt_tx flt ids req (the (sin_ExpectedAt req))))"

definition supplierReceiptOf :: "faults \<Rightarrow> string \<Rightarrow> string \<Rightarrow> stock_db \<Rightarrow> error + supplier_receipt" where
  "supplierReceiptOf flt itemID receiptID db =
    (case GetSupplierReceipt flt receiptID db of
      Inl e \<Rightarrow> Inl e
    | Inr (r, _) \<Rightarrow> if sup_InventoryItemID r \<noteq> itemID then Inl (NotFound codeSupplierReceiptNotFound) else Inr r)"

definition receivedAlready :: "supplier_receipt \<Rightarrow> int64 \<Rightarrow> error option" where
  "receivedAlready r quantity =
    (if sup_Status r = SupplierReceiptReceived \<and> sup_ReceivedQuantity r = quantity then None
     else Some (Conflict CodeSupplierReceiptNotExpected))"

definition canceledAlready :: "supplier_receipt \<Rightarrow> error option" where
  "canceledAlready r =
    (if sup_Status r = SupplierReceiptCanceled then None else Some (Conflict CodeSupplierReceiptNotExpected))"

definition levelAt :: "faults \<Rightarrow> string \<Rightarrow> string \<Rightarrow> stock_db \<Rightarrow> error + inventory_level option" where
  "levelAt flt itemID locationID db =
    (case repo_ListInventoryLevels flt itemID db of
      Inl e \<Rightarrow> Inl e
    | Inr (levels, _) \<Rightarrow> Inr (find (\<lambda>v. lv_LocationID v = locationID) levels))"

definition receive_stock ::
    "faults \<Rightarrow> (nat \<Rightarrow> string) \<Rightarrow> moment \<Rightarrow> string \<Rightarrow> supplier_receipt \<Rightarrow> inventory_level option \<Rightarrow> int64 \<Rightarrow>
     stock_db \<Rightarrow> error + inventory_level \<times> stock_db" where
  "receive_stock flt ids now itemID locked current quantity =
    (case current of
      Some level \<Rightarrow>
        bindT (check (addQuantity (lv_StockedQuantity level) quantity)) (\<lambda>stocked.
        writeQuantities flt ids now level stocked (lv_ReservedQuantity level) MovementSupplierReceipt [] (sup_ID locked) [])
    | None \<Rightarrow> openLevel flt ids now itemID (sup_LocationID locked) quantity MovementSupplierReceipt (sup_ID locked))"

definition receive_locked ::
    "faults \<Rightarrow> (nat \<Rightarrow> string) \<Rightarrow> moment \<Rightarrow> string \<Rightarrow> string \<Rightarrow> int64 \<Rightarrow> inventory_level option \<Rightarrow>
     stock_db \<Rightarrow> error + (supplier_receipt \<times> inventory_level option) \<times> stock_db" where
  "receive_locked flt ids now itemID receiptID quantity current =
    bindT (LockSupplierReceipt flt receiptID) (\<lambda>locked.
    if sup_Status locked \<noteq> SupplierReceiptExpected
    then bindT (demand (receivedAlready locked quantity)) (\<lambda>_. give (locked, current))
    else
      bindT (receive_stock flt ids now itemID locked current quantity) (\<lambda>level.
      bindT (repo_ReceiveSupplierReceipt flt (sup_ID locked)) (\<lambda>changed.
      if changed = 0 then refuse (Internal CodeInconsistentState)
      else bindT (GetSupplierReceipt flt (sup_ID locked)) (\<lambda>acc. give (acc, Some level)))))"

definition receive_tx ::
    "faults \<Rightarrow> (nat \<Rightarrow> string) \<Rightarrow> moment \<Rightarrow> string \<Rightarrow> supplier_receipt \<Rightarrow> string \<Rightarrow> int64 \<Rightarrow>
     stock_db \<Rightarrow> error + (supplier_receipt \<times> inventory_level option) \<times> stock_db" where
  "receive_tx flt ids now itemID seen receiptID quantity =
    bindT (requireOpenLocation flt (sup_LocationID seen)) (\<lambda>_.
    bindT (LockInventoryItem flt itemID) (\<lambda>_.
    attempt (LockInventoryLevel flt itemID (sup_LocationID seen))
      (\<lambda>err. if HasKind (Some err) KindNotFound then receive_locked flt ids now itemID receiptID quantity None
        else refuse err)
      (\<lambda>level. receive_locked flt ids now itemID receiptID quantity (Some level))))"

definition ReceiveSupplierReceipt ::
    "faults \<Rightarrow> (nat \<Rightarrow> string) \<Rightarrow> moment \<Rightarrow> string \<Rightarrow> string \<Rightarrow> int64 \<Rightarrow> stock_db \<Rightarrow>
     stock_db \<Rightarrow> (error + supplier_receipt \<times> inventory_level option) \<times> stock_db" where
  "ReceiveSupplierReceipt flt ids now itemID receiptID quantity earlier =
    after [requireText itemID, requireText receiptID, invalid_unless (0 < quantity)]
      (\<lambda>db. case supplierReceiptOf flt itemID receiptID earlier of
        Inl e \<Rightarrow> (Inl e, db)
      | Inr seen \<Rightarrow>
          if sup_Status seen \<noteq> SupplierReceiptExpected then
            (case receivedAlready seen quantity of
              Some e \<Rightarrow> (Inl e, db)
            | None \<Rightarrow>
                (case levelAt flt (sup_InventoryItemID seen) (sup_LocationID seen) db of
                  Inl e \<Rightarrow> (Inl e, db) | Inr level \<Rightarrow> (Inr (seen, level), db)))
          else stock_WithTx flt (receive_tx flt ids now itemID seen receiptID quantity) db)"

definition cancel_receipt_tx ::
    "faults \<Rightarrow> moment \<Rightarrow> string \<Rightarrow> stock_db \<Rightarrow> error + supplier_receipt \<times> stock_db" where
  "cancel_receipt_tx flt now receiptID =
    bindT (LockSupplierReceipt flt receiptID) (\<lambda>locked.
    if sup_Status locked \<noteq> SupplierReceiptExpected
    then bindT (demand (canceledAlready locked)) (\<lambda>_. give locked)
    else
      bindT (repo_CancelSupplierReceipt flt (sup_ID locked) now) (\<lambda>changed.
      if changed = 0 then refuse (Internal CodeInconsistentState)
      else GetSupplierReceipt flt (sup_ID locked)))"

definition CancelSupplierReceipt ::
    "faults \<Rightarrow> moment \<Rightarrow> string \<Rightarrow> string \<Rightarrow> stock_db \<Rightarrow> stock_db \<Rightarrow> (error + supplier_receipt) \<times> stock_db" where
  "CancelSupplierReceipt flt now itemID receiptID earlier =
    after [requireText itemID, requireText receiptID]
      (\<lambda>db. case supplierReceiptOf flt itemID receiptID earlier of
        Inl e \<Rightarrow> (Inl e, db)
      | Inr seen \<Rightarrow>
          if sup_Status seen \<noteq> SupplierReceiptExpected then
            (case canceledAlready seen of Some e \<Rightarrow> (Inl e, db) | None \<Rightarrow> (Inr seen, db))
          else stock_WithTx flt (cancel_receipt_tx flt now receiptID) db)"

section \<open>Places and items\<close>

record location_input =
  lci_Name :: string
  lci_Address1 :: string
  lci_Address2 :: string
  lci_City :: string
  lci_Province :: string
  lci_PostalCode :: string
  lci_CountryCode :: string

definition CreateStockLocation ::
    "faults \<Rightarrow> (nat \<Rightarrow> string) \<Rightarrow> location_input \<Rightarrow> stock_db \<Rightarrow> (error + stock_location) \<times> stock_db" where
  "CreateStockLocation flt ids req db =
    (let name = strings_TrimSpace (lci_Name req);
         country = strings_ToUpper (strings_TrimSpace (lci_CountryCode req))
     in case first_violation [requireText name, invalid_unless (country = [] \<or> length country = 2),
            checkTextLen (lci_Address1 req), checkTextLen (lci_Address2 req), checkTextLen (lci_City req),
            checkTextLen (lci_Province req), checkTextLen (lci_PostalCode req)] of
          Some e \<Rightarrow> (Inl e, db)
        | None \<Rightarrow>
            (case bindT (draw StockLocationIDPrefix ids) (\<lambda>lid.
               repo_CreateStockLocation flt
                 \<lparr> slo_ID = lid, slo_Name = name, slo_Address1 = strings_TrimSpace (lci_Address1 req),
                   slo_Address2 = strings_TrimSpace (lci_Address2 req), slo_City = strings_TrimSpace (lci_City req),
                   slo_Province = strings_TrimSpace (lci_Province req),
                   slo_PostalCode = strings_TrimSpace (lci_PostalCode req),
                   slo_CountryCode = country, slo_ClosedAt = None \<rparr>) db of
              Inl e \<Rightarrow> (Inl e, db)
            | Inr (l, db') \<Rightarrow> (Inr l, db')))"

definition GetStockLocation :: "faults \<Rightarrow> string \<Rightarrow> stock_db \<Rightarrow> (error + stock_location) \<times> stock_db" where
  "GetStockLocation flt lid =
    after [requireText lid] (\<lambda>db. case repo_GetStockLocation flt lid db of Inl e \<Rightarrow> (Inl e, db) | Inr (l, _) \<Rightarrow> (Inr l, db))"

definition close_tx :: "faults \<Rightarrow> moment \<Rightarrow> string \<Rightarrow> stock_db \<Rightarrow> error + stock_location \<times> stock_db" where
  "close_tx flt now lid =
    bindT (LockStockLocation flt lid) (\<lambda>location.
    if location_Closed location then give location
    else
      bindT (StockHeldAtLocation flt lid) (\<lambda>(stocked, reserved).
      if stocked > 0 then refuse (Conflict CodeLocationNotEmpty)
      else
        bindT (CountActiveReservationsAtLocation flt lid) (\<lambda>active.
        if active > 0 then refuse (Conflict CodeLocationNotEmpty)
        else
          bindT (CountExpectedSupplierReceiptsAtLocation flt lid) (\<lambda>expected.
          if expected > 0 then refuse (Conflict CodeLocationNotEmpty)
          else repo_CloseStockLocation flt lid now))))"

definition CloseStockLocation ::
    "faults \<Rightarrow> moment \<Rightarrow> string \<Rightarrow> stock_db \<Rightarrow> (error + stock_location) \<times> stock_db" where
  "CloseStockLocation flt now lid = after [requireText lid] (stock_WithTx flt (close_tx flt now lid))"

record item_input =
  iin_SKU :: string
  iin_Title :: string
  iin_Description :: string
  iin_RequiresShipping :: "bool option"

definition CreateInventoryItem ::
    "faults \<Rightarrow> (nat \<Rightarrow> string) \<Rightarrow> item_input \<Rightarrow> stock_db \<Rightarrow> (error + inventory_item) \<times> stock_db" where
  "CreateInventoryItem flt ids req db =
    (let sku = strings_TrimSpace (iin_SKU req)
     in case first_violation [requireText sku, checkTextLen (iin_Title req), checkTextLen (iin_Description req)] of
          Some e \<Rightarrow> (Inl e, db)
        | None \<Rightarrow>
            (case bindT (draw InventoryItemIDPrefix ids) (\<lambda>iid.
               repo_CreateInventoryItem flt
                 \<lparr> ivi_ID = iid, ivi_SKU = sku, ivi_Title = strings_TrimSpace (iin_Title req),
                   ivi_Description = strings_TrimSpace (iin_Description req),
                   ivi_RequiresShipping = (case iin_RequiresShipping req of None \<Rightarrow> True | Some b \<Rightarrow> b) \<rparr>) db of
              Inl e \<Rightarrow> (Inl e, db)
            | Inr (x, db') \<Rightarrow> (Inr x, db')))"

definition CreateItemForStock ::
    "faults \<Rightarrow> (nat \<Rightarrow> string) \<Rightarrow> string \<Rightarrow> string \<Rightarrow> stock_db \<Rightarrow> (error + string) \<times> stock_db" where
  "CreateItemForStock flt ids sku title db =
    (case CreateInventoryItem flt ids
        \<lparr> iin_SKU = sku, iin_Title = title, iin_Description = [], iin_RequiresShipping = None \<rparr> db of
      (Inl e, db') \<Rightarrow> (Inl e, db')
    | (Inr x, db') \<Rightarrow> (Inr (ivi_ID x), db'))"

definition GetInventoryItem :: "faults \<Rightarrow> string \<Rightarrow> stock_db \<Rightarrow> (error + inventory_item) \<times> stock_db" where
  "GetInventoryItem flt iid =
    after [requireText iid] (\<lambda>db. case repo_GetInventoryItem flt iid db of Inl e \<Rightarrow> (Inl e, db) | Inr (x, _) \<Rightarrow> (Inr x, db))"

definition delete_item_tx :: "faults \<Rightarrow> string \<Rightarrow> stock_db \<Rightarrow> error + unit \<times> stock_db" where
  "delete_item_tx flt iid =
    bindT (LockInventoryItem flt iid) (\<lambda>_.
    bindT (CountActiveReservations flt iid) (\<lambda>active.
    if active > 0 then refuse (Conflict CodeItemHasReservations)
    else
      bindT (CountWaitingBackorders flt iid) (\<lambda>waiting.
      if waiting > 0 then refuse (Conflict CodeItemOwesOrders)
      else
        bindT (CountExpectedSupplierReceipts flt iid) (\<lambda>expected.
        if expected > 0 then refuse (Conflict CodeItemExpectsUnits)
        else
          bindT (repo_SoftDeleteInventoryLevelsByItem flt iid) (\<lambda>_. repo_SoftDeleteInventoryItem flt iid)))))"

definition DeleteInventoryItem :: "faults \<Rightarrow> string \<Rightarrow> stock_db \<Rightarrow> (error + unit) \<times> stock_db" where
  "DeleteInventoryItem flt iid = after [requireText iid] (stock_WithTx flt (delete_item_tx flt iid))"

end
