(* ===== verification/StockForecast.thy ===== *)
theory StockForecast
  imports StockService
begin

text \<open>
  The counts the storefront reads (\<^verbatim>\<open>service/stock.go\<close>, \<open>AvailableQuantities\<close> and its breakdown), the
  forecast of \<^verbatim>\<open>service/forecast.go\<close>, and the surface the other modules call, \<^verbatim>\<open>service/interop.go\<close>.
\<close>

section \<open>What is sellable\<close>

definition live_of :: "stock_db \<Rightarrow> string list \<Rightarrow> inventory_level list" where
  "live_of db ids = map lw_level (filter (\<lambda>r. lv_InventoryItemID (lw_level r) \<in> set ids \<and> \<not> lw_deleted r) (sd_level db))"

definition q_AvailableByItemAndLocation ::
    "faults \<Rightarrow> string list \<Rightarrow> stock_db \<Rightarrow> stock_pg + (string \<times> string \<times> int64) list" where
  "q_AvailableByItemAndLocation flt ids db =
    stock_run flt ''AvailableByItemAndLocation''
      (Inr (map (\<lambda>v. (lv_InventoryItemID v, lv_LocationID v, lv_StockedQuantity v - lv_ReservedQuantity v))
        (filter (\<lambda>v. lv_StockedQuantity v > lv_ReservedQuantity v) (live_of db ids))))"

text \<open>The sum is computed exactly and refused by the cast when it leaves \<open>bigint\<close>.\<close>

fun cast_sums :: "(string \<times> int) list \<Rightarrow> stock_pg + (string \<times> int64) list" where
  "cast_sums [] = Inr []"
| "cast_sums ((i, n) # rest) =
    (case bigint n of
      Inl e \<Rightarrow> Inl e
    | Inr m \<Rightarrow> (case cast_sums rest of Inl e \<Rightarrow> Inl e | Inr out \<Rightarrow> Inr ((i, m) # out)))"

definition q_AvailableQuantityByItemIDs ::
    "faults \<Rightarrow> string list \<Rightarrow> stock_db \<Rightarrow> stock_pg + (string \<times> int64) list" where
  "q_AvailableQuantityByItemIDs flt ids db =
    stock_run flt ''AvailableQuantityByItemIDs''
      (cast_sums (map (\<lambda>i. (i, sum_list (map (\<lambda>v. lv_StockedQuantity v - lv_ReservedQuantity v) (live_of db [i]))))
        (remdups (map lv_InventoryItemID (live_of db ids)))))"

definition AvailableByItemIDs :: "faults \<Rightarrow> string list \<Rightarrow> stock_db \<Rightarrow> error + (string \<rightharpoonup> int64)" where
  "AvailableByItemIDs flt ids db =
    (if ids = [] then Inr (\<lambda>_. None)
     else case q_AvailableQuantityByItemIDs flt ids db of
       Inl e \<Rightarrow> Inl (classify e codeQueryFailed) | Inr rows \<Rightarrow> Inr (map_of (rev rows)))"

definition by_location :: "(string \<times> string \<times> int64) list \<Rightarrow> string \<rightharpoonup> (string \<rightharpoonup> int64)" where
  "by_location rows =
    fold (\<lambda>(i, l, n) out. out(i \<mapsto> (case out i of None \<Rightarrow> (\<lambda>_. None) | Some by \<Rightarrow> by)(l \<mapsto> n))) rows (\<lambda>_. None)"

definition AvailableByItemLocation ::
    "faults \<Rightarrow> string list \<Rightarrow> stock_db \<Rightarrow> error + (string \<rightharpoonup> (string \<rightharpoonup> int64))" where
  "AvailableByItemLocation flt ids db =
    (if ids = [] then Inr (\<lambda>_. None)
     else case q_AvailableByItemAndLocation flt ids db of
       Inl e \<Rightarrow> Inl (classify e codeQueryFailed) | Inr rows \<Rightarrow> Inr (by_location rows))"

definition AvailableQuantitiesByLocation ::
    "faults \<Rightarrow> string list \<Rightarrow> stock_db \<Rightarrow> error + (string \<rightharpoonup> (string \<rightharpoonup> int64))" where
  "AvailableQuantitiesByLocation flt ids db = (if ids = [] then Inr (\<lambda>_. None) else AvailableByItemLocation flt ids db)"

definition AvailableQuantities :: "faults \<Rightarrow> string list \<Rightarrow> stock_db \<Rightarrow> error + (string \<rightharpoonup> int64)" where
  "AvailableQuantities flt ids db =
    (if ids = [] then Inr (\<lambda>_. None)
     else and_then (AvailableByItemIDs flt ids db) (\<lambda>found.
       Inr (\<lambda>i. if i \<in> set ids then Some (case found i of None \<Rightarrow> 0 | Some n \<Rightarrow> n) else None)))"

section \<open>The forecast\<close>

text \<open>One receipt's units over the claims, with the flags of those already filled.\<close>

fun give_claims :: "string \<Rightarrow> int64 \<Rightarrow> (backorder \<times> bool) list \<Rightarrow> int64 \<times> (backorder \<times> bool) list" where
  "give_claims l a [] = (a, [])"
| "give_claims l a ((c, filled) # cs) =
    (let need = Owed c
     in if filled \<or> need \<le> 0 \<or> need > a \<or> l \<notin> set (bo_LocationIDs c)
        then (case give_claims l a cs of (a', cs') \<Rightarrow> (a', (c, filled) # cs'))
        else (case give_claims l (sub64 a need) cs of (a', cs') \<Rightarrow> (a', (c, True) # cs')))"

fun dates_loop ::
    "(string \<rightharpoonup> int64) \<Rightarrow> supplier_receipt list \<Rightarrow> (string \<Rightarrow> int64) \<Rightarrow> (backorder \<times> bool) list \<Rightarrow>
     (string \<rightharpoonup> moment) \<Rightarrow> string \<rightharpoonup> moment" where
  "dates_loop now [] available claims dated = dated"
| "dates_loop now (r # rs) available claims dated =
    (let l = sup_LocationID r;
         (a, claims') = give_claims l (add64 (available l) (sup_Quantity r)) claims;
         selling = (case now l of None \<Rightarrow> 0 | Some n \<Rightarrow> n)
     in dates_loop now rs (available(l := a)) claims'
          (if dated l = None \<and> selling \<le> 0 \<and> a > 0 then dated(l \<mapsto> sup_ExpectedAt r) else dated))"

definition restockDates ::
    "(string \<rightharpoonup> int64) \<Rightarrow> backorder list \<Rightarrow> supplier_receipt list \<Rightarrow> string \<rightharpoonup> moment" where
  "restockDates now claims receipts =
    dates_loop now (sort_key sup_ExpectedAt (sort_key sup_ID receipts)) (\<lambda>l. case now l of None \<Rightarrow> 0 | Some n \<Rightarrow> n)
      (map (\<lambda>c. (c, False)) (sort_key bo_Seq claims)) (\<lambda>_. None)"

definition repo_WaitingBackordersOfItems :: "faults \<Rightarrow> string list \<Rightarrow> stock_db \<Rightarrow> error + backorder list" where
  "repo_WaitingBackordersOfItems flt ids db =
    (case q_WaitingBackordersOfItems flt ids db of Inl e \<Rightarrow> Inl (classify e codeQueryFailed) | Inr cs \<Rightarrow> Inr cs)"

definition repo_ExpectedSupplierReceiptsOfItems ::
    "faults \<Rightarrow> string list \<Rightarrow> moment \<Rightarrow> stock_db \<Rightarrow> error + supplier_receipt list" where
  "repo_ExpectedSupplierReceiptsOfItems flt ids now db =
    (case q_ExpectedSupplierReceiptsOfItems flt ids now db of Inl e \<Rightarrow> Inl (classify e codeQueryFailed) | Inr rs \<Rightarrow> Inr rs)"

text \<open>The three reads share no snapshot: each has its own tables.\<close>

definition RestockForecast ::
    "faults \<Rightarrow> string list \<Rightarrow> moment \<Rightarrow> stock_db \<Rightarrow> stock_db \<Rightarrow> stock_db \<Rightarrow>
     error + (string \<rightharpoonup> (string \<rightharpoonup> moment))" where
  "RestockForecast flt ids now db1 db2 db3 =
    (if ids = [] then Inr (\<lambda>_. None)
     else
       and_then (AvailableQuantitiesByLocation flt ids db1) (\<lambda>selling.
       and_then (repo_WaitingBackordersOfItems flt ids db2) (\<lambda>claims.
       and_then (repo_ExpectedSupplierReceiptsOfItems flt ids now db3) (\<lambda>receipts.
         Inr (\<lambda>i.
           if list_ex (\<lambda>r. sup_InventoryItemID r = i) receipts
           then
             (let expected = filter (\<lambda>r. sup_InventoryItemID r = i) receipts;
                  dates = restockDates (case selling i of None \<Rightarrow> (\<lambda>_. None) | Some by \<Rightarrow> by)
                    (filter (\<lambda>c. bo_InventoryItemID c = i) claims) expected
              in if list_ex (\<lambda>r. dates (sup_LocationID r) \<noteq> None) expected then Some dates else None)
           else None)))))"

definition OpenLocationIDs :: "faults \<Rightarrow> stock_db \<Rightarrow> error + string list" where
  "OpenLocationIDs flt db =
    (case q_OpenStockLocationIDs flt db of Inl e \<Rightarrow> Inl (classify e codeQueryFailed) | Inr ls \<Rightarrow> Inr ls)"


section \<open>The surface other modules call\<close>

definition stock_id :: "(error + reservation) \<times> stock_db \<Rightarrow> (error + string) \<times> stock_db" where
  "stock_id r = (case r of (Inl e, db) \<Rightarrow> (Inl e, db) | (Inr x, db) \<Rightarrow> (Inr (rv_ID x), db))"

definition Interop_Reserve ::
    "faults \<Rightarrow> (nat \<Rightarrow> string) \<Rightarrow> moment \<Rightarrow> string \<Rightarrow> string \<Rightarrow> int64 \<Rightarrow> string \<Rightarrow> stock_db \<Rightarrow> (error + string) \<times> stock_db" where
  "Interop_Reserve flt ids now itemID locationID quantity lineItemID db =
    stock_id (Reserve flt ids now
      \<lparr> rsv_InventoryItemID = itemID, rsv_LocationID = locationID, rsv_Quantity = quantity,
        rsv_LineItemID = lineItemID, rsv_Description = [], rsv_Purpose = [] \<rparr> db)"

definition ReserveForReplacement ::
    "faults \<Rightarrow> (nat \<Rightarrow> string) \<Rightarrow> moment \<Rightarrow> string \<Rightarrow> string \<Rightarrow> int64 \<Rightarrow> string \<Rightarrow> stock_db \<Rightarrow> (error + string) \<times> stock_db" where
  "ReserveForReplacement flt ids now itemID locationID quantity orderLineItemID db =
    stock_id (Reserve flt ids now
      \<lparr> rsv_InventoryItemID = itemID, rsv_LocationID = locationID, rsv_Quantity = quantity,
        rsv_LineItemID = orderLineItemID, rsv_Description = [], rsv_Purpose = PurposeReplacement \<rparr> db)"

definition Interop_Restock ::
    "faults \<Rightarrow> (nat \<Rightarrow> string) \<Rightarrow> moment \<Rightarrow> string \<Rightarrow> string \<Rightarrow> int64 \<Rightarrow> stock_db \<Rightarrow> error option \<times> stock_db" where
  "Interop_Restock flt ids now itemID locationID quantity db =
    (case RestockInventory flt ids now itemID locationID quantity db of
      (Inl e, db') \<Rightarrow> (Some e, db') | (Inr _, db') \<Rightarrow> (None, db'))"

definition Interop_ClaimBackorder ::
    "faults \<Rightarrow> (nat \<Rightarrow> string) \<Rightarrow> string \<Rightarrow> string \<Rightarrow> string \<Rightarrow> int64 \<Rightarrow> string list \<Rightarrow>
     stock_db \<Rightarrow> (error + string) \<times> stock_db" where
  "Interop_ClaimBackorder flt ids itemID orderID orderLineItemID quantity locationIDs db =
    (case ClaimBackorder flt ids
        \<lparr> cin_InventoryItemID = itemID, cin_OrderID = orderID, cin_OrderLineItemID = orderLineItemID,
          cin_Quantity = quantity, cin_LocationIDs = locationIDs \<rparr> db of
      (Inl e, db') \<Rightarrow> (Inl e, db') | (Inr c, db') \<Rightarrow> (Inr (bo_ID c), db'))"

definition SetStockLevel ::
    "faults \<Rightarrow> (nat \<Rightarrow> string) \<Rightarrow> moment \<Rightarrow> string \<Rightarrow> string \<Rightarrow> int64 \<Rightarrow> int64 \<Rightarrow> stock_db \<Rightarrow> (error + int64) \<times> stock_db" where
  "SetStockLevel flt ids now itemID locationID seen quantity db =
    (case SetInventoryLevelFrom flt ids now itemID locationID seen quantity db of
      (Inl e, db') \<Rightarrow> (Inl e, db') | (Inr v, db') \<Rightarrow> (Inr (lv_StockedQuantity v), db'))"

end
