(* ===== verification/StockBooks.thy ===== *)
theory StockBooks
  imports StockService
begin

text \<open>
  What the inventory tables keep. The reserved quantity of a level is the sum of the promises that
  stand at it, its physical quantity the sum of the movements that explain it; a confirmed promise
  left by exactly one movement of its own reason, a filled claim by a confirmed promise of what it was
  owed, a received receipt by exactly one movement of its count; a closed place holds nothing. The
  changes the operations are made of are given first, with what each does to those sums.
\<close>

section \<open>The sums\<close>

definition level_key :: "inventory_level \<Rightarrow> string \<times> string" where
  "level_key v = (lv_InventoryItemID v, lv_LocationID v)"

definition reservation_key :: "reservation \<Rightarrow> string \<times> string" where
  "reservation_key r = (rv_InventoryItemID r, rv_LocationID r)"

definition movement_key :: "movement \<Rightarrow> string \<times> string" where
  "movement_key m = (mv_InventoryItemID m, mv_LocationID m)"

definition stocked_at :: "stock_db \<Rightarrow> string \<times> string \<Rightarrow> int" where
  "stocked_at db k = sum_list (map (\<lambda>x. if level_key (lw_level x) = k then lv_StockedQuantity (lw_level x) else 0) (sd_level db))"

definition reserved_at :: "stock_db \<Rightarrow> string \<times> string \<Rightarrow> int" where
  "reserved_at db k = sum_list (map (\<lambda>x. if level_key (lw_level x) = k \<and> \<not> lw_deleted x
    then lv_ReservedQuantity (lw_level x) else 0) (sd_level db))"

definition promised_at :: "stock_db \<Rightarrow> string \<times> string \<Rightarrow> int" where
  "promised_at db k = sum_list (map (\<lambda>r. if reservation_key r = k \<and> rv_Status r = ReservationActive
    then rv_Quantity r else 0) (sd_reservation db))"

definition moved_at :: "stock_db \<Rightarrow> string \<times> string \<Rightarrow> int" where
  "moved_at db k = sum_list (map (\<lambda>m. if movement_key m = k then mv_Delta m else 0) (sd_movement db))"

section \<open>The invariant\<close>

definition rows_ok :: "stock_db \<Rightarrow> bool" where
  "rows_ok db \<longleftrightarrow>
    distinct (map (\<lambda>x. lv_ID (lw_level x)) (sd_level db)) \<and>
    distinct (map (\<lambda>x. level_key (lw_level x)) (sd_level db)) \<and>
    (\<forall>x \<in> set (sd_level db). level_ok (lw_level x) \<and>
      lw_deleted x = (live_item db (lv_InventoryItemID (lw_level x)) = None)) \<and>
    distinct (map rv_ID (sd_reservation db)) \<and>
    (\<forall>r \<in> set (sd_reservation db). reservation_checks r \<and> rv_Quantity r \<le> MaxInt64 \<and> rv_ID r \<noteq> []) \<and>
    distinct (map bo_ID (sd_backorder db)) \<and>
    (\<forall>b \<in> set (sd_backorder db). backorder_checks b \<and> bo_Quantity b \<le> MaxInt64) \<and>
    distinct (map sup_ID (sd_receipt db)) \<and> (\<forall>r \<in> set (sd_receipt db). sup_ID r \<noteq> []) \<and>
    distinct (map slo_ID (sd_location db)) \<and> distinct (map (\<lambda>x. ivi_ID (ir_item x)) (sd_item db)) \<and>
    (\<forall>x \<in> set (sd_level db). item_there db (lv_InventoryItemID (lw_level x)))"

text \<open>A promise whose units were given back while its row still stands is owed by the sums.\<close>

definition promises_add_up :: "string \<times> string \<Rightarrow> int \<Rightarrow> stock_db \<Rightarrow> bool" where
  "promises_add_up k q db \<longleftrightarrow> (\<forall>k'. reserved_at db k' + (if k' = k then q else 0) = promised_at db k')"

definition movements_add_up :: "stock_db \<Rightarrow> bool" where
  "movements_add_up db \<longleftrightarrow> (\<forall>k. stocked_at db k = moved_at db k)"

definition naming :: "stock_db \<Rightarrow> string \<Rightarrow> movement list" where
  "naming db rid = filter (\<lambda>m. mv_ReservationID m = rid) (sd_movement db)"

definition promise_told :: "stock_db \<Rightarrow> reservation \<Rightarrow> bool" where
  "promise_told db r \<longleftrightarrow>
    (if rv_Status r = ReservationConfirmed
     then \<exists>m. naming db (rv_ID r) = [m] \<and> movement_key m = reservation_key r \<and>
       mv_Delta m = - rv_Quantity r \<and> mv_Reason m = purpose_MovementReason (rv_Purpose r)
     else naming db (rv_ID r) = [])"

definition claim_told :: "stock_db \<Rightarrow> backorder \<Rightarrow> bool" where
  "claim_told db b \<longleftrightarrow>
    (bo_Status b = BackorderFilled \<longrightarrow> bo_FilledLocationID b \<in> set (bo_LocationIDs b) \<and>
      (\<exists>r \<in> set (sd_reservation db). rv_ID r = bo_ReservationID b \<and> rv_Status r = ReservationConfirmed \<and>
        rv_Quantity r = owed b \<and> reservation_key r = (bo_InventoryItemID b, bo_FilledLocationID b)))"

definition receiving :: "stock_db \<Rightarrow> string \<Rightarrow> movement list" where
  "receiving db rid = filter (\<lambda>m. mv_Reason m = MovementSupplierReceipt \<and> mv_Reference m = rid) (sd_movement db)"

text \<open>A receipt whose units were written while its row still stands expected is pending.\<close>

definition receipt_told :: "string option \<Rightarrow> stock_db \<Rightarrow> supplier_receipt \<Rightarrow> bool" where
  "receipt_told pending db r \<longleftrightarrow>
    (if sup_Status r = SupplierReceiptReceived \<or> pending = Some (sup_ID r)
     then sup_Status r \<in> {SupplierReceiptExpected, SupplierReceiptReceived} \<and>
       (\<exists>m. receiving db (sup_ID r) = [m] \<and> movement_key m = (sup_InventoryItemID r, sup_LocationID r) \<and>
       0 < mv_Delta m \<and> (sup_Status r = SupplierReceiptReceived \<longrightarrow> sup_ReceivedQuantity r = mv_Delta m))
     else receiving db (sup_ID r) = [])"

definition closed_empty :: "stock_db \<Rightarrow> bool" where
  "closed_empty db \<longleftrightarrow>
    (\<forall>l \<in> set (sd_location db). location_Closed l \<longrightarrow>
      (\<forall>x \<in> set (sd_level db). lv_LocationID (lw_level x) = slo_ID l \<and> \<not> lw_deleted x \<longrightarrow> lv_StockedQuantity (lw_level x) = 0) \<and>
      (\<forall>r \<in> set (sd_receipt db). sup_LocationID r = slo_ID l \<longrightarrow> sup_Status r \<noteq> SupplierReceiptExpected))"

definition books :: "string \<times> string \<Rightarrow> int \<Rightarrow> string option \<Rightarrow> stock_db \<Rightarrow> bool" where
  "books k q pending db \<longleftrightarrow> rows_ok db \<and> promises_add_up k q db \<and> movements_add_up db \<and>
    (\<forall>r \<in> set (sd_reservation db). promise_told db r) \<and>
    (\<forall>m \<in> set (sd_movement db). mv_ReservationID m \<noteq> [] \<longrightarrow> mv_ReservationID m \<in> rv_ID ` set (sd_reservation db)) \<and>
    (\<forall>b \<in> set (sd_backorder db). claim_told db b) \<and>
    (\<forall>r \<in> set (sd_receipt db). receipt_told pending db r) \<and>
    (\<forall>m \<in> set (sd_movement db). mv_Reason m = MovementSupplierReceipt \<longrightarrow> mv_Reference m \<in> sup_ID ` set (sd_receipt db)) \<and>
    closed_empty db"

section \<open>The changes\<close>

definition put :: "inventory_level \<Rightarrow> int64 \<Rightarrow> int64 \<Rightarrow> moment \<Rightarrow> stock_db \<Rightarrow> stock_db" where
  "put v s r now db = db\<lparr> sd_level := map (put_row (lv_ID v) s r now) (sd_level db) \<rparr>"

definition add_movement :: "movement \<Rightarrow> stock_db \<Rightarrow> stock_db" where
  "add_movement m db = db\<lparr> sd_movement := sd_movement db @ [m] \<rparr>"

definition add_reservation :: "reservation \<Rightarrow> stock_db \<Rightarrow> stock_db" where
  "add_reservation r db = db\<lparr> sd_reservation := sd_reservation db @ [r] \<rparr>"

definition set_status :: "string \<Rightarrow> string \<Rightarrow> stock_db \<Rightarrow> stock_db" where
  "set_status rid st db = db\<lparr> sd_reservation := map (put_status rid st) (sd_reservation db) \<rparr>"

definition drawn :: "nat \<Rightarrow> stock_db \<Rightarrow> stock_db" where
  "drawn n db = db\<lparr> sd_drawn := n \<rparr>"

lemma put_fields [simp]:
  "sd_level (put v s r now db) = map (put_row (lv_ID v) s r now) (sd_level db)"
  "sd_reservation (put v s r now db) = sd_reservation db"
  "sd_movement (put v s r now db) = sd_movement db"
  "sd_backorder (put v s r now db) = sd_backorder db"
  "sd_receipt (put v s r now db) = sd_receipt db"
  "sd_location (put v s r now db) = sd_location db"
  "sd_item (put v s r now db) = sd_item db"
  "sd_drawn (put v s r now db) = sd_drawn db"
  "sd_seq (put v s r now db) = sd_seq db"
  by (simp_all add: put_def)

lemma add_movement_fields [simp]:
  "sd_level (add_movement m db) = sd_level db"
  "sd_reservation (add_movement m db) = sd_reservation db"
  "sd_movement (add_movement m db) = sd_movement db @ [m]"
  "sd_backorder (add_movement m db) = sd_backorder db"
  "sd_receipt (add_movement m db) = sd_receipt db"
  "sd_location (add_movement m db) = sd_location db"
  "sd_item (add_movement m db) = sd_item db"
  "sd_drawn (add_movement m db) = sd_drawn db"
  "sd_seq (add_movement m db) = sd_seq db"
  by (simp_all add: add_movement_def)

lemma add_reservation_fields [simp]:
  "sd_level (add_reservation x db) = sd_level db"
  "sd_reservation (add_reservation x db) = sd_reservation db @ [x]"
  "sd_movement (add_reservation x db) = sd_movement db"
  "sd_backorder (add_reservation x db) = sd_backorder db"
  "sd_receipt (add_reservation x db) = sd_receipt db"
  "sd_location (add_reservation x db) = sd_location db"
  "sd_item (add_reservation x db) = sd_item db"
  "sd_drawn (add_reservation x db) = sd_drawn db"
  "sd_seq (add_reservation x db) = sd_seq db"
  by (simp_all add: add_reservation_def)

lemma set_status_fields [simp]:
  "sd_level (set_status rid st db) = sd_level db"
  "sd_reservation (set_status rid st db) = map (put_status rid st) (sd_reservation db)"
  "sd_movement (set_status rid st db) = sd_movement db"
  "sd_backorder (set_status rid st db) = sd_backorder db"
  "sd_receipt (set_status rid st db) = sd_receipt db"
  "sd_location (set_status rid st db) = sd_location db"
  "sd_item (set_status rid st db) = sd_item db"
  "sd_drawn (set_status rid st db) = sd_drawn db"
  "sd_seq (set_status rid st db) = sd_seq db"
  by (simp_all add: set_status_def)

lemma drawn_fields [simp]:
  "sd_level (drawn n db) = sd_level db" "sd_reservation (drawn n db) = sd_reservation db"
  "sd_movement (drawn n db) = sd_movement db" "sd_backorder (drawn n db) = sd_backorder db"
  "sd_receipt (drawn n db) = sd_receipt db" "sd_location (drawn n db) = sd_location db"
  "sd_item (drawn n db) = sd_item db" "sd_drawn (drawn n db) = n"
  by (simp_all add: drawn_def)

lemma live_item_cong: "sd_item db' = sd_item db \<Longrightarrow> live_item db' i = live_item db i"
  by (simp add: live_item_def)

lemma change_live_item [simp]:
  "live_item (put v s r now db) i = live_item db i" "live_item (add_movement m db) i = live_item db i"
  "live_item (add_reservation x db) i = live_item db i" "live_item (set_status rid st db) i = live_item db i"
  "live_item (drawn n db) i = live_item db i"
  "item_there (put v s r now db) i = item_there db i" "item_there (add_movement m db) i = item_there db i"
  "item_there (add_reservation x db) i = item_there db i" "item_there (set_status rid st db) i = item_there db i"
  "item_there (drawn n db) i = item_there db i"
  by (simp_all add: live_item_def item_there_def)

lemma live_item_there: "live_item db i = Some x \<Longrightarrow> item_there db i"
  by (auto simp: live_item_def item_there_def list_ex_iff dest: find_found)

lemma sum_list_change_one:
  assumes "distinct (map key xs)" "x \<in> set xs" "\<And>y. y \<in> set xs \<Longrightarrow> key y \<noteq> key x \<Longrightarrow> g y = (f y :: int)"
  shows "sum_list (map g xs) = sum_list (map f xs) + (g x - f x)"
  using assms
proof (induction xs)
  case (Cons y xs)
  show ?case
  proof (cases "y = x")
    case True
    have "g z = f z" if "z \<in> set xs" for z
    proof -
      have "key z \<noteq> key x" using Cons(2) that True by (metis distinct.simps(2) image_eqI list.map(2) set_map)
      then show ?thesis using Cons(4) that by simp
    qed
    then have "map g xs = map f xs" by simp
    then show ?thesis using True by (simp only: list.map sum_list.Cons)
  next
    case False
    then have x: "x \<in> set xs" using Cons(3) by simp
    then have "key y \<noteq> key x" using Cons(2) by (metis distinct.simps(2) image_eqI list.map(2) set_map)
    then have "g y = f y" using Cons(4) by simp
    moreover have "sum_list (map g xs) = sum_list (map f xs) + (g x - f x)"
      using Cons(1) Cons(2) x Cons(4) by simp
    ultimately show ?thesis by simp
  qed
qed simp

lemma stands_row:
  assumes "stands v db"
  obtains x where "x \<in> set (sd_level db)" "lw_level x = v" "\<not> lw_deleted x"
  using assms by (auto simp: stands_def row_of_def dest: find_found)

lemma stocked_at_put:
  assumes "stands v db" "rows_ok db"
  shows "stocked_at (put v s r now db) k = stocked_at db k + (if level_key v = k then s - lv_StockedQuantity v else 0)"
proof -
  obtain x where x: "x \<in> set (sd_level db)" "lw_level x = v" "\<not> lw_deleted x" using assms(1) by (rule stands_row)
  let ?f = "\<lambda>x. if level_key (lw_level x) = k then lv_StockedQuantity (lw_level x) else 0"
  have "sum_list (map (\<lambda>y. ?f (put_row (lv_ID v) s r now y)) (sd_level db)) =
      sum_list (map ?f (sd_level db)) + (?f (put_row (lv_ID v) s r now x) - ?f x)"
    using assms(2) x by (intro sum_list_change_one [where key = "\<lambda>x. lv_ID (lw_level x)"])
      (auto simp: rows_ok_def put_row_def level_key_def)
  then show ?thesis
    using x by (auto simp: stocked_at_def comp_def put_row_def level_key_def)
qed

lemma reserved_at_put:
  assumes "stands v db" "rows_ok db"
  shows "reserved_at (put v s r now db) k = reserved_at db k + (if level_key v = k then r - lv_ReservedQuantity v else 0)"
proof -
  obtain x where x: "x \<in> set (sd_level db)" "lw_level x = v" "\<not> lw_deleted x" using assms(1) by (rule stands_row)
  let ?f = "\<lambda>x. if level_key (lw_level x) = k \<and> \<not> lw_deleted x then lv_ReservedQuantity (lw_level x) else 0"
  have "sum_list (map (\<lambda>y. ?f (put_row (lv_ID v) s r now y)) (sd_level db)) =
      sum_list (map ?f (sd_level db)) + (?f (put_row (lv_ID v) s r now x) - ?f x)"
    using assms(2) x by (intro sum_list_change_one [where key = "\<lambda>x. lv_ID (lw_level x)"])
      (auto simp: rows_ok_def put_row_def level_key_def)
  then show ?thesis
    using x by (auto simp: reserved_at_def comp_def put_row_def level_key_def)
qed

lemma promised_at_status:
  assumes "r \<in> set (sd_reservation db)" "rows_ok db" "rv_Status r = ReservationActive" "st \<noteq> ReservationActive"
  shows "promised_at (set_status (rv_ID r) st db) k =
    promised_at db k - (if reservation_key r = k then rv_Quantity r else 0)"
proof -
  let ?f = "\<lambda>r. if reservation_key r = k \<and> rv_Status r = ReservationActive then rv_Quantity r else 0"
  have "sum_list (map (\<lambda>y. ?f (put_status (rv_ID r) st y)) (sd_reservation db)) =
      sum_list (map ?f (sd_reservation db)) + (?f (put_status (rv_ID r) st r) - ?f r)"
    using assms by (intro sum_list_change_one [where key = rv_ID])
      (auto simp: rows_ok_def put_status_def reservation_key_def)
  then show ?thesis
    using assms by (auto simp: promised_at_def comp_def put_status_def reservation_key_def)
qed

lemma sums_add [simp]:
  "stocked_at (add_movement m db) k = stocked_at db k" "reserved_at (add_movement m db) k = reserved_at db k"
  "promised_at (add_movement m db) k = promised_at db k"
  "moved_at (add_movement m db) k = moved_at db k + (if movement_key m = k then mv_Delta m else 0)"
  "stocked_at (add_reservation x db) k = stocked_at db k" "reserved_at (add_reservation x db) k = reserved_at db k"
  "moved_at (add_reservation x db) k = moved_at db k"
  "promised_at (add_reservation x db) k =
    promised_at db k + (if reservation_key x = k \<and> rv_Status x = ReservationActive then rv_Quantity x else 0)"
  "stocked_at (set_status rid st db) k = stocked_at db k" "reserved_at (set_status rid st db) k = reserved_at db k"
  "moved_at (set_status rid st db) k = moved_at db k"
  "promised_at (put v s r now db) k = promised_at db k" "moved_at (put v s r now db) k = moved_at db k"
  by (simp_all add: stocked_at_def reserved_at_def promised_at_def moved_at_def)

lemma rows_ok_put:
  assumes "rows_ok db" "stands v db" "0 \<le> r" "r \<le> s" "s \<le> MaxInt64"
  shows "rows_ok (put v s r now db)"
proof -
  have "level_ok (lw_level (put_row (lv_ID v) s r now x)) \<and>
      lw_deleted x = (live_item db (lv_InventoryItemID (lw_level x)) = None)" if "x \<in> set (sd_level db)" for x
    using that assms by (auto simp: rows_ok_def put_row_def level_ok_def)
  then show ?thesis
    using assms(1) by (auto simp: rows_ok_def comp_def level_key_def)
qed

lemma stands_level_ok: "rows_ok db \<Longrightarrow> stands v db \<Longrightarrow> level_ok v"
  by (erule stands_row) (auto simp: rows_ok_def)

lemma same_key: "distinct (map f xs) \<Longrightarrow> x \<in> set xs \<Longrightarrow> y \<in> set xs \<Longrightarrow> f x = f y \<Longrightarrow> x = y"
  by (auto simp: distinct_map inj_on_def)

lemma same_level_id:
  "rows_ok db \<Longrightarrow> x \<in> set (sd_level db) \<Longrightarrow> y \<in> set (sd_level db) \<Longrightarrow> lv_ID (lw_level x) = lv_ID (lw_level y) \<Longrightarrow> x = y"
  by (rule same_key [where f = "\<lambda>x. lv_ID (lw_level x)" and xs = "sd_level db"]) (simp_all add: rows_ok_def)

lemma same_level_key:
  "rows_ok db \<Longrightarrow> x \<in> set (sd_level db) \<Longrightarrow> y \<in> set (sd_level db) \<Longrightarrow>
    level_key (lw_level x) = level_key (lw_level y) \<Longrightarrow> x = y"
  by (rule same_key [where f = "\<lambda>x. level_key (lw_level x)" and xs = "sd_level db"]) (simp_all add: rows_ok_def)

lemma same_reservation_id:
  "rows_ok db \<Longrightarrow> x \<in> set (sd_reservation db) \<Longrightarrow> y \<in> set (sd_reservation db) \<Longrightarrow> rv_ID x = rv_ID y \<Longrightarrow> x = y"
  by (rule same_key [where f = "rv_ID" and xs = "sd_reservation db"]) (simp_all add: rows_ok_def)

lemma same_backorder_id:
  "rows_ok db \<Longrightarrow> x \<in> set (sd_backorder db) \<Longrightarrow> y \<in> set (sd_backorder db) \<Longrightarrow> bo_ID x = bo_ID y \<Longrightarrow> x = y"
  by (rule same_key [where f = "bo_ID" and xs = "sd_backorder db"]) (simp_all add: rows_ok_def)

lemma same_receipt_id:
  "rows_ok db \<Longrightarrow> x \<in> set (sd_receipt db) \<Longrightarrow> y \<in> set (sd_receipt db) \<Longrightarrow> sup_ID x = sup_ID y \<Longrightarrow> x = y"
  by (rule same_key [where f = "sup_ID" and xs = "sd_receipt db"]) (simp_all add: rows_ok_def)

lemma closed_empty_put:
  assumes "closed_empty db" "rows_ok db" "stands v db" "0 \<le> s"
    and "s \<le> lv_StockedQuantity v \<or> (\<forall>l \<in> set (sd_location db). slo_ID l = lv_LocationID v \<longrightarrow> \<not> location_Closed l)"
  shows "closed_empty (put v s r now db)"
proof -
  obtain x where x: "x \<in> set (sd_level db)" "lw_level x = v" "\<not> lw_deleted x" using assms(3) by (rule stands_row)
  have "lv_StockedQuantity (lw_level (put_row (lv_ID v) s r now y)) = 0"
    if "l \<in> set (sd_location db)" "location_Closed l" "y \<in> set (sd_level db)"
      "lv_LocationID (lw_level y) = slo_ID l" "\<not> lw_deleted y" for l y
  proof (cases "lv_ID (lw_level y) = lv_ID v")
    case True
    then have "y = x" using same_level_id [OF assms(2) that(3) x(1)] x(2) by simp
    moreover have "lv_StockedQuantity v = 0"
      using that \<open>y = x\<close> x assms(1) by (auto simp: closed_empty_def)
    ultimately show ?thesis using that x assms(4,5) by (auto simp: put_row_def)
  next
    case False
    then show ?thesis using that assms(1) by (auto simp: closed_empty_def put_row_def)
  qed
  then show ?thesis
    using assms(1) by (auto simp: closed_empty_def)
qed

lemma told_fields [simp]:
  "naming (put v s r now db) rid = naming db rid" "naming (add_reservation x db) rid = naming db rid"
  "naming (set_status y st db) rid = naming db rid"
  "naming (add_movement m db) rid = naming db rid @ (if mv_ReservationID m = rid then [m] else [])"
  "receiving (put v s r now db) rid = receiving db rid" "receiving (add_reservation x db) rid = receiving db rid"
  "receiving (set_status y st db) rid = receiving db rid"
  "receiving (add_movement m db) rid = receiving db rid @
    (if mv_Reason m = MovementSupplierReceipt \<and> mv_Reference m = rid then [m] else [])"
  by (simp_all add: naming_def receiving_def)

lemma unnamed: "books k q p db \<Longrightarrow> rid \<noteq> [] \<Longrightarrow> the_reservation db rid = None \<Longrightarrow> naming db rid = []"
  unfolding books_def naming_def filter_empty_conv the_reservation_def find_None_iff by (metis imageE)

text \<open>Setting units aside: the level holds more, and a new promise says so.\<close>

lemma books_hold:
  assumes b: "books k q p db" and st: "stands v db"
    and x: "reservation_key x = level_key v" "rv_Status x = ReservationActive" "rv_Quantity x = n"
      "reservation_checks x" "rv_ID x \<noteq> []" "the_reservation db (rv_ID x) = None"
    and n: "lv_ReservedQuantity v + n \<le> lv_StockedQuantity v"
  shows "books k q p (add_reservation x (put v (lv_StockedQuantity v) (lv_ReservedQuantity v + n) now db))"
proof -
  let ?db = "add_reservation x (put v (lv_StockedQuantity v) (lv_ReservedQuantity v + n) now db)"
  have rows: "rows_ok db" using b by (simp add: books_def)
  have ok: "level_ok v" using rows st by (rule stands_level_ok)
  have pos: "0 < n" using x(3,4) by (simp add: reservation_checks_def)
  have fresh: "rv_ID x \<notin> rv_ID ` set (sd_reservation db)"
    using x(6) by (auto simp: the_reservation_def find_None_iff)
  have rows': "rows_ok (put v (lv_StockedQuantity v) (lv_ReservedQuantity v + n) now db)"
    using rows st ok n pos by (intro rows_ok_put) (auto simp: level_ok_def)
  have "rows_ok ?db"
    using rows' fresh x ok n pos by (auto simp: rows_ok_def level_ok_def)
  moreover have "promises_add_up k q ?db"
    using b x by (auto simp: books_def promises_add_up_def reserved_at_put [OF st rows])
  moreover have "movements_add_up ?db"
    using b by (auto simp: books_def movements_add_up_def stocked_at_put [OF st rows])
  moreover have "\<forall>r \<in> set (sd_reservation ?db). promise_told ?db r"
    using b x unnamed [OF b x(5,6)] by (auto simp: books_def promise_told_def)
  moreover have "\<forall>c \<in> set (sd_backorder ?db). claim_told ?db c"
    using b by (auto simp: books_def claim_told_def)
  moreover have "\<forall>r \<in> set (sd_receipt ?db). receipt_told p ?db r"
    using b by (auto simp: books_def receipt_told_def)
  moreover have "closed_empty ?db"
  proof -
    have "closed_empty (put v (lv_StockedQuantity v) (lv_ReservedQuantity v + n) now db)"
      using b rows st ok by (intro closed_empty_put) (auto simp: books_def level_ok_def)
    then show ?thesis by (simp add: closed_empty_def)
  qed
  ultimately show ?thesis
    using b unfolding books_def by auto
qed

lemma put_status_ids: "map rv_ID (map (put_status rid st) xs) = map rv_ID xs"
  by (simp add: put_status_def)

text \<open>The units of a promise leaving: the level holds less of both, and one movement tells it.\<close>

definition deducted :: "inventory_level \<Rightarrow> reservation \<Rightarrow> movement \<Rightarrow> moment \<Rightarrow> stock_db \<Rightarrow> stock_db" where
  "deducted v x m now db =
    set_status (rv_ID x) ReservationConfirmed
      (add_movement m (put v (lv_StockedQuantity v - rv_Quantity x) (lv_ReservedQuantity v - rv_Quantity x) now db))"

lemma books_deduct:
  assumes b: "books k q p db" and st: "stands v db"
    and x: "x \<in> set (sd_reservation db)" "rv_Status x = ReservationActive" "reservation_key x = level_key v"
    and n: "rv_Quantity x \<le> lv_ReservedQuantity v"
    and m: "movement_key m = level_key v" "mv_Delta m = - rv_Quantity x" "mv_ReservationID m = rv_ID x"
      "mv_Reason m = purpose_MovementReason (rv_Purpose x)" "mv_Reason m \<noteq> MovementSupplierReceipt"
  shows "books k q p (deducted v x m now db)"
proof -
  let ?put = "put v (lv_StockedQuantity v - rv_Quantity x) (lv_ReservedQuantity v - rv_Quantity x) now db"
  let ?db = "deducted v x m now db"
  have rows: "rows_ok db" using b by (simp add: books_def)
  have ok: "level_ok v" using rows st by (rule stands_level_ok)
  have res: "reservation_checks x" "rv_ID x \<noteq> []" using rows x(1) by (simp_all add: rows_ok_def)
  have pos: "0 < rv_Quantity x" using res by (simp add: reservation_checks_def)
  have rows': "rows_ok ?put"
    using rows st ok n pos by (intro rows_ok_put) (auto simp: level_ok_def)
  have same: "y = x" if "y \<in> set (sd_reservation db)" "rv_ID y = rv_ID x" for y
    using same_reservation_id [OF rows that(1) x(1) that(2)] .
  have "rows_ok ?db"
  proof -
    have "distinct (map rv_ID (map (put_status (rv_ID x) ReservationConfirmed) (sd_reservation db)))"
      using rows by (simp add: rows_ok_def comp_def put_status_def if_distrib [of rv_ID] cong: if_cong)
    then show ?thesis
      using rows' by (auto simp: deducted_def rows_ok_def reservation_checks_def put_status_def)
  qed
  moreover have "promises_add_up k q ?db"
  proof -
    have "promised_at ?db k' = promised_at db k' - (if level_key v = k' then rv_Quantity x else 0)" for k'
      using promised_at_status [of x "add_movement m ?put" ReservationConfirmed k'] x rows'
      by (simp add: deducted_def rows_ok_def)
    then show ?thesis
      using b by (auto simp: books_def promises_add_up_def deducted_def reserved_at_put [OF st rows])
  qed
  moreover have "movements_add_up ?db"
    using b m by (auto simp: books_def movements_add_up_def deducted_def stocked_at_put [OF st rows])
  moreover have "\<forall>r \<in> set (sd_reservation ?db). promise_told ?db r"
  proof
    fix r'
    assume "r' \<in> set (sd_reservation ?db)"
    then obtain r where r: "r \<in> set (sd_reservation db)" "r' = put_status (rv_ID x) ReservationConfirmed r"
      by (auto simp: deducted_def)
    have told: "promise_told db r" using b r(1) by (simp add: books_def)
    show "promise_told ?db r'"
    proof (cases "rv_ID r = rv_ID x")
      case True
      then have "r = x" using same r by simp
      then show ?thesis
        using told r x m by (auto simp: promise_told_def deducted_def put_status_def reservation_key_def)
    next
      case False
      then have "naming ?db (rv_ID r) = naming db (rv_ID r)" "r' = r"
        using m r by (auto simp: deducted_def put_status_def)
      then show ?thesis using told by (simp add: promise_told_def)
    qed
  qed
  moreover have "\<forall>c \<in> set (sd_backorder ?db). claim_told ?db c"
  proof
    fix c
    assume c: "c \<in> set (sd_backorder ?db)"
    have "r \<in> set (sd_reservation ?db)" if "r \<in> set (sd_reservation db)" "rv_Status r = ReservationConfirmed" for r
    proof -
      have "rv_ID r \<noteq> rv_ID x" using same [of r] that x(2) by (metis reservation_statuses(5))
      then show ?thesis using that by (auto simp: deducted_def put_status_def intro!: image_eqI [where x = r])
    qed
    then show "claim_told ?db c"
      using b c by (fastforce simp: books_def claim_told_def deducted_def)
  qed
  moreover have "\<forall>r \<in> set (sd_receipt ?db). receipt_told p ?db r"
    using b m by (auto simp: books_def receipt_told_def deducted_def)
  moreover have "closed_empty ?db"
  proof -
    have "closed_empty ?put"
      using b rows st ok n pos by (intro closed_empty_put) (auto simp: books_def level_ok_def)
    then show ?thesis by (simp add: closed_empty_def deducted_def)
  qed
  moreover have "\<forall>y \<in> set (sd_movement ?db). mv_ReservationID y \<noteq> [] \<longrightarrow>
      mv_ReservationID y \<in> rv_ID ` set (sd_reservation ?db)"
  proof -
    have "rv_ID ` set (sd_reservation ?db) = rv_ID ` set (sd_reservation db)"
      using arg_cong [OF put_status_ids, of set] by (simp only: set_map) (simp add: deducted_def)
    then show ?thesis using b m x(1) by (auto simp: books_def deducted_def)
  qed
  moreover have "\<forall>y \<in> set (sd_movement ?db). mv_Reason y = MovementSupplierReceipt \<longrightarrow>
      mv_Reference y \<in> sup_ID ` set (sd_receipt ?db)"
    using b m by (auto simp: books_def deducted_def)
  ultimately show ?thesis
    unfolding books_def by blast
qed

text \<open>A claim whose promise left is filled.\<close>

lemma books_fill_row:
  assumes b: "books k q p db" and c: "c \<in> set (sd_backorder db)" "bo_Status c = BackorderWaiting" "l \<in> set (bo_LocationIDs c)"
    and r: "r \<in> set (sd_reservation db)" "rv_ID r = rid" "rv_Status r = ReservationConfirmed" "rv_Quantity r = owed c"
      "reservation_key r = (bo_InventoryItemID c, l)"
    and ok: "\<forall>d \<in> set (sd_backorder db). bo_ID d = bo_ID c \<and> bo_Status d = BackorderWaiting \<longrightarrow>
      backorder_checks (fill_row (bo_ID c) rid l d)"
  shows "books k q p (db\<lparr> sd_backorder := map (fill_row (bo_ID c) rid l) (sd_backorder db) \<rparr>)"
proof -
  let ?db = "db\<lparr> sd_backorder := map (fill_row (bo_ID c) rid l) (sd_backorder db) \<rparr>"
  have rows: "rows_ok db" using b by (simp add: books_def)
  have same: "d = c" if "d \<in> set (sd_backorder db)" "bo_ID d = bo_ID c" for d
    using same_backorder_id [OF rows that(1) c(1) that(2)] .
  have told: "claim_told ?db (fill_row (bo_ID c) rid l d) \<and> backorder_checks (fill_row (bo_ID c) rid l d)"
    if d: "d \<in> set (sd_backorder db)" for d
  proof (cases "bo_ID d = bo_ID c")
    case True
    then have "d = c" using same d by simp
    moreover have "backorder_checks (fill_row (bo_ID c) rid l c)" using ok c by simp
    ultimately show ?thesis using c r
      by (auto simp: claim_told_def fill_row_def owed_def intro!: bexI [where x = r])
  next
    case False
    then have "fill_row (bo_ID c) rid l d = d" by (simp add: fill_row_def)
    then show ?thesis using b d by (simp add: books_def claim_told_def rows_ok_def)
  qed
  have "rows_ok ?db"
    using rows told by (auto simp: rows_ok_def comp_def live_item_def item_there_def)
  then show ?thesis
    using b told
    by (auto simp: books_def promises_add_up_def movements_add_up_def promise_told_def receipt_told_def
        closed_empty_def reserved_at_def promised_at_def stocked_at_def moved_at_def naming_def receiving_def)
qed

lemma books_drawn [simp]: "books k q p (drawn n db) = books k q p db"
  by (auto simp: books_def promises_add_up_def movements_add_up_def promise_told_def receipt_told_def claim_told_def
      closed_empty_def reserved_at_def promised_at_def stocked_at_def moved_at_def naming_def receiving_def rows_ok_def)

text \<open>Filling one claim keeps the books.\<close>

lemma books_fill_one:
  assumes b: "books k q p db" and st: "stands v db"
    and c: "c \<in> set (sd_backorder db)" "waits_at (lv_InventoryItemID v) (lv_LocationID v) c"
    and need: "0 < owed c" "owed c \<le> lv_StockedQuantity v - lv_ReservedQuantity v"
    and run: "fill_one fill flt ids now c (owed c) v db = Inr (v', db')"
  shows "books k q p db'"
proof -
  have rows: "rows_ok db" using b by (simp add: books_def)
  have ok: "level_ok v" using rows st by (rule stands_level_ok)
  note one = fill_one_Inr [OF ok st need run]
  let ?s = "lv_StockedQuantity v" let ?r = "lv_ReservedQuantity v" let ?n = "sd_drawn db"
  define x where "x = (fill_reservation ids ?n c (owed c) v)\<lparr> rv_Status := ReservationActive \<rparr>"
  have x: "reservation_key x = level_key v" "rv_Status x = ReservationActive" "rv_Quantity x = owed c"
      "reservation_checks x" "rv_ID x = ReservationIDPrefix @ ids ?n" "rv_Purpose x = PurposeSale"
    using need by (simp_all add: x_def fill_reservation_def reservation_key_def level_key_def reservation_checks_def purpose_Valid_def)
  define m where "m = sale_of ids now ?n c (owed c) v"
  have m: "movement_key m = level_key v" "mv_Delta m = - rv_Quantity x" "mv_ReservationID m = rv_ID x"
      "mv_Reason m = purpose_MovementReason (rv_Purpose x)" "mv_Reason m \<noteq> MovementSupplierReceipt"
    using x by (simp_all add: m_def sale_of_def movement_key_def level_key_def purpose_MovementReason_def
        PurposeSale_def PurposeReplacement_def movement_reasons)
  let ?v1 = "put_quantities ?s (?r + owed c) now v"
  let ?db1 = "add_reservation x (put v ?s (?r + owed c) now db)"
  have b1: "books k q p ?db1"
    using books_hold [OF b st x(1-4)] one(3) need x(5) by simp
  have st1: "stands ?v1 ?db1"
    using stands_put [OF st] by (simp add: add_reservation_def put_def stands_def row_of_def)
  have b2: "books k q p (deducted ?v1 x m now ?db1)"
    using b1 st1 x need m ok by (intro books_deduct) (auto simp: level_key_def level_ok_def)
  let ?rid = "ReservationIDPrefix @ ids ?n"
  define x' where "x' = fill_reservation ids ?n c (owed c) v"
  have fresh: "find (\<lambda>y. rv_ID y = ?rid) (sd_reservation db) = None"
    using one(3) by (simp add: the_reservation_def)
  have whole: "filled_db ids now c (owed c) v db =
      drawn (Suc (Suc ?n)) ((deducted ?v1 x m now ?db1)
        \<lparr> sd_backorder := map (fill_row (bo_ID c) ?rid (lv_LocationID v)) (sd_backorder (deducted ?v1 x m now ?db1)) \<rparr>)"
    using put_status_other [OF fresh]
    by (simp add: filled_db_def drawn_def deducted_def set_status_def add_movement_def add_reservation_def put_def
        x_def m_def fill_reservation_def put_status_def del: map_map)
  have "books k q p ((deducted ?v1 x m now ?db1)
      \<lparr> sd_backorder := map (fill_row (bo_ID c) ?rid (lv_LocationID v)) (sd_backorder (deducted ?v1 x m now ?db1)) \<rparr>)"
  proof (rule books_fill_row [OF b2, where r = x'])
    show "x' \<in> set (sd_reservation (deducted ?v1 x m now ?db1))"
      using x by (auto simp: deducted_def x'_def x_def put_status_def fill_reservation_def)
  qed (use c one(7) x in \<open>auto simp: deducted_def x'_def fill_reservation_def waits_at_def reservation_key_def\<close>)
  then show ?thesis unfolding one(2) whole by simp
qed

lemma books_claims_ok: "books k q p db \<Longrightarrow> c \<in> set (sd_backorder db) \<Longrightarrow> claim_ok c"
  by (auto simp: books_def rows_ok_def claim_ok_def backorder_checks_def)

lemma books_fill:
  assumes "fillWaiting flt ids now v db = Inr ((v', filled), db')" "books k q p db" "stands v db"
  shows "books k q p db'"
proof -
  have rows: "rows_ok db" using assms(2) by (simp add: books_def)
  show ?thesis
    using fillWaiting_run(9) [where P = "\<lambda>_. books k q p", OF assms(1) stands_level_ok [OF rows assms(3)] assms(3)]
      rows books_claims_ok [OF assms(2)] assms(2) books_fill_one
    by (simp add: rows_ok_def)
qed

section \<open>Writing a count\<close>

lemma promises_same:
  "books k q p db \<Longrightarrow> (\<And>k. reserved_at db' k = reserved_at db k) \<Longrightarrow> (\<And>k. promised_at db' k = promised_at db k) \<Longrightarrow>
    promises_add_up k q db'"
  unfolding books_def promises_add_up_def by simp

text \<open>The receipt a movement of a reason and a reference leaves pending.\<close>

definition pends :: "string \<Rightarrow> string \<Rightarrow> string option" where
  "pends reason ref = (if reason = MovementSupplierReceipt then Some ref else None)"

definition may_pend :: "stock_db \<Rightarrow> string \<times> string \<Rightarrow> string \<Rightarrow> string \<Rightarrow> bool" where
  "may_pend db k reason ref \<longleftrightarrow> reason = MovementSupplierReceipt \<longrightarrow>
    (\<exists>x \<in> set (sd_receipt db). sup_ID x = ref \<and> sup_Status x = SupplierReceiptExpected \<and>
      (sup_InventoryItemID x, sup_LocationID x) = k)"

definition open_at :: "stock_db \<Rightarrow> string \<Rightarrow> bool" where
  "open_at db l \<longleftrightarrow> (\<forall>x \<in> set (sd_location db). slo_ID x = l \<longrightarrow> \<not> location_Closed x)"

lemma may_pend_in:
  "may_pend db k reason ref \<Longrightarrow> reason = MovementSupplierReceipt \<Longrightarrow> ref \<in> sup_ID ` set (sd_receipt db)"
  by (auto simp: may_pend_def intro: rev_image_eqI)

lemma receipts_told_add:
  assumes b: "books k q None db" and m: "mv_Reason m = MovementSupplierReceipt \<longrightarrow> 0 < mv_Delta m"
    and mp: "may_pend db (movement_key m) (mv_Reason m) (mv_Reference m)"
    and rec: "sd_receipt db' = sd_receipt db" "sd_movement db' = sd_movement db @ [m]"
  shows "\<forall>r \<in> set (sd_receipt db'). receipt_told (pends (mv_Reason m) (mv_Reference m)) db' r"
proof
  fix r
  assume "r \<in> set (sd_receipt db')"
  then have r: "r \<in> set (sd_receipt db)" using rec by simp
  have told: "receipt_told None db r" using b r by (simp add: books_def)
  have rows: "rows_ok db" using b by (simp add: books_def)
  have receiving: "receiving db' (sup_ID r) = receiving db (sup_ID r) @
      (if mv_Reason m = MovementSupplierReceipt \<and> mv_Reference m = sup_ID r then [m] else [])"
    using rec by (simp add: receiving_def)
  show "receipt_told (pends (mv_Reason m) (mv_Reference m)) db' r"
  proof (cases "mv_Reason m = MovementSupplierReceipt \<and> mv_Reference m = sup_ID r")
    case True
    obtain y where y: "y \<in> set (sd_receipt db)" "sup_ID y = sup_ID r" "sup_Status y = SupplierReceiptExpected"
        "(sup_InventoryItemID y, sup_LocationID y) = movement_key m"
      using mp True by (auto simp: may_pend_def)
    have "y = r" using same_receipt_id [OF rows y(1) r y(2)] .
    then show ?thesis
      using told y True m receiving by (auto simp: receipt_told_def pends_def)
  next
    case False
    then show ?thesis using told receiving by (auto simp: receipt_told_def pends_def)
  qed
qed

lemma books_move:
  assumes b: "books k q None db" and st: "stands v db"
    and s: "lv_ReservedQuantity v \<le> s" "s \<le> MaxInt64" "s \<le> lv_StockedQuantity v \<or> open_at db (lv_LocationID v)"
    and m: "movement_key m = level_key v" "mv_Delta m = s - lv_StockedQuantity v" "mv_ReservationID m = []"
      "mv_Reason m = MovementSupplierReceipt \<longrightarrow> 0 < mv_Delta m"
    and mp: "may_pend db (level_key v) (mv_Reason m) (mv_Reference m)"
  shows "books k q (pends (mv_Reason m) (mv_Reference m))
    (add_movement m (put v s (lv_ReservedQuantity v) now db))" (is "books k q ?p ?db")
proof -
  let ?put = "put v s (lv_ReservedQuantity v) now db"
  have rows: "rows_ok db" using b by (simp add: books_def)
  have ok: "level_ok v" using rows st by (rule stands_level_ok)
  have rows': "rows_ok ?put" using rows st ok s by (intro rows_ok_put) (auto simp: level_ok_def)
  then have "rows_ok ?db" by (auto simp: rows_ok_def)
  moreover have "promises_add_up k q ?db"
    using b by (rule promises_same) (simp_all add: reserved_at_put [OF st rows])
  moreover have "movements_add_up ?db"
    using b m by (auto simp: books_def movements_add_up_def stocked_at_put [OF st rows])
  moreover have "\<forall>r \<in> set (sd_reservation ?db). promise_told ?db r"
  proof
    fix r
    assume r: "r \<in> set (sd_reservation ?db)"
    then have "rv_ID r \<noteq> []" using rows by (simp add: rows_ok_def)
    then have "naming ?db (rv_ID r) = naming db (rv_ID r)" using m by simp
    then show "promise_told ?db r" using b r by (simp add: books_def promise_told_def)
  qed
  moreover have "\<forall>c \<in> set (sd_backorder ?db). claim_told ?db c"
    using b by (auto simp: books_def claim_told_def)
  moreover have "\<forall>r \<in> set (sd_receipt ?db). receipt_told ?p ?db r"
    using receipts_told_add [OF b m(4) mp [folded m(1)], of ?db] by simp
  moreover have "closed_empty ?db"
  proof -
    have "closed_empty ?put"
      using b rows st ok s by (intro closed_empty_put) (auto simp: books_def level_ok_def open_at_def)
    then show ?thesis by (simp add: closed_empty_def)
  qed
  moreover have "\<forall>y \<in> set (sd_movement ?db). mv_ReservationID y \<noteq> [] \<longrightarrow>
      mv_ReservationID y \<in> rv_ID ` set (sd_reservation ?db)"
    using b m by (auto simp: books_def)
  moreover have "\<forall>y \<in> set (sd_movement ?db). mv_Reason y = MovementSupplierReceipt \<longrightarrow>
      mv_Reference y \<in> sup_ID ` set (sd_receipt ?db)"
    using b may_pend_in [OF mp] by (auto simp: books_def)
  ultimately show ?thesis
    unfolding books_def by blast
qed

lemma books_put:
  assumes b: "books k q p db" and st: "stands v db"
    and s: "0 \<le> r" "r \<le> lv_StockedQuantity v"
    and q: "promises_add_up k' q' (put v (lv_StockedQuantity v) r now db)"
  shows "books k' q' p (put v (lv_StockedQuantity v) r now db)" (is "books k' q' p ?db")
proof -
  have rows: "rows_ok db" using b by (simp add: books_def)
  have ok: "level_ok v" using rows st by (rule stands_level_ok)
  have "rows_ok ?db" using rows st ok s by (intro rows_ok_put) (auto simp: level_ok_def)
  moreover have "movements_add_up ?db"
    using b by (auto simp: books_def movements_add_up_def stocked_at_put [OF st rows])
  moreover have "closed_empty ?db"
    using b rows st ok s by (intro closed_empty_put) (auto simp: books_def level_ok_def)
  moreover have "\<forall>r \<in> set (sd_reservation ?db). promise_told ?db r" "\<forall>c \<in> set (sd_backorder ?db). claim_told ?db c"
    "\<forall>r \<in> set (sd_receipt ?db). receipt_told p ?db r"
    using b by (auto simp: books_def promise_told_def claim_told_def receipt_told_def)
  ultimately show ?thesis
    using b q unfolding books_def by simp
qed

text \<open>Writing the same quantities changes no sum.\<close>

lemma books_put_same:
  assumes "books k q p db" "stands v db"
  shows "books k q p (put v (lv_StockedQuantity v) (lv_ReservedQuantity v) now db)"
proof (rule books_put [OF assms])
  have rows: "rows_ok db" using assms(1) by (simp add: books_def)
  then have "level_ok v" using assms(2) by (rule stands_level_ok)
  then show "0 \<le> lv_ReservedQuantity v" "lv_ReservedQuantity v \<le> lv_StockedQuantity v"
    by (simp_all add: level_ok_def)
  show "promises_add_up k q (put v (lv_StockedQuantity v) (lv_ReservedQuantity v) now db)"
    using assms(1) by (rule promises_same) (simp_all add: reserved_at_put [OF assms(2) rows])
qed

text \<open>Opening a level.\<close>

lemma books_open:
  assumes b: "books k q None db" and live: "live_item db i \<noteq> None" and new: "live_level db i l = None"
    and vid: "\<not> list_ex (\<lambda>x. lv_ID (lw_level x) = lv_ID v) (sd_level db)"
    and v: "lv_InventoryItemID v = i" "lv_LocationID v = l" "lv_ReservedQuantity v = 0"
      "0 \<le> lv_StockedQuantity v" "lv_StockedQuantity v \<le> MaxInt64"
    and l: "open_at db l"
    and ms: "ms = (if lv_StockedQuantity v = 0 then [] else [m])"
    and m: "movement_key m = (i, l)" "mv_Delta m = lv_StockedQuantity v" "mv_ReservationID m = []"
    and mp: "lv_StockedQuantity v \<noteq> 0 \<longrightarrow> may_pend db (i, l) (mv_Reason m) (mv_Reference m)"
    and db': "db' = db\<lparr> sd_level := sd_level db @ [\<lparr> lw_level = v, lw_deleted = False \<rparr>], sd_movement := sd_movement db @ ms \<rparr>"
  shows "books k q (if lv_StockedQuantity v = 0 then None else pends (mv_Reason m) (mv_Reference m)) db'"
    (is "books k q ?p db'")
proof -
  have rows: "rows_ok db" using b by (simp add: books_def)
  have fresh: "level_key (lw_level x) \<noteq> (i, l)" if "x \<in> set (sd_level db)" for x
    using that rows live new unfolding rows_ok_def live_level_def level_key_def
    by (auto simp: find_None_iff)
  have key: "level_key v = (i, l)" using v by (simp add: level_key_def)
  have ms': "set ms \<subseteq> {m}" "lv_StockedQuantity v \<noteq> 0 \<Longrightarrow> ms = [m]" "lv_StockedQuantity v = 0 \<Longrightarrow> ms = []" using ms by auto
  have fresh': "level_key v \<notin> (\<lambda>x. level_key (lw_level x)) ` set (sd_level db)"
    by (metis fresh imageE key)
  have vid': "lv_ID v \<notin> (\<lambda>x. lv_ID (lw_level x)) ` set (sd_level db)"
    using vid by (auto simp: list_ex_iff)
  have "live_item db' j = live_item db j" "item_there db' j = item_there db j" for j
    by (simp_all add: db' live_item_def item_there_def)
  then have "rows_ok db'"
    using rows fresh' vid' v live live_item_there [of db i] unfolding rows_ok_def by (auto simp: db' level_ok_def)
  moreover have "promises_add_up k q db'"
    using b by (rule promises_same) (simp_all add: reserved_at_def promised_at_def db' v(3))
  moreover have "movements_add_up db'"
    using b key m(1,2) ms by (auto simp: books_def movements_add_up_def stocked_at_def moved_at_def db')
  moreover have "\<forall>r \<in> set (sd_reservation db'). promise_told db' r"
  proof
    fix r
    assume r: "r \<in> set (sd_reservation db')"
    then have "rv_ID r \<noteq> []" using rows by (simp add: rows_ok_def db')
    then have "naming db' (rv_ID r) = naming db (rv_ID r)" using m ms' by (auto simp: naming_def db' filter_empty_conv)
    then show "promise_told db' r" using b r by (simp add: books_def promise_told_def db')
  qed
  moreover have "\<forall>c \<in> set (sd_backorder db'). claim_told db' c"
    using b by (auto simp: books_def claim_told_def db')
  moreover have "\<forall>r \<in> set (sd_receipt db'). receipt_told ?p db' r"
  proof (cases "lv_StockedQuantity v = 0")
    case True
    then show ?thesis using b ms' by (auto simp: books_def receipt_told_def receiving_def db')
  next
    case False
    then show ?thesis
      using receipts_told_add [OF b _ mp [rule_format, folded m(1)], of db'] v(4) m(2) ms'
      by (simp add: db')
  qed
  moreover have "closed_empty db'"
    using b l v by (auto simp: books_def closed_empty_def open_at_def db')
  moreover have "\<forall>y \<in> set (sd_movement db'). mv_ReservationID y \<noteq> [] \<longrightarrow> mv_ReservationID y \<in> rv_ID ` set (sd_reservation db')"
    using b m ms' by (auto simp: books_def db')
  moreover have "\<forall>y \<in> set (sd_movement db'). mv_Reason y = MovementSupplierReceipt \<longrightarrow>
      mv_Reference y \<in> sup_ID ` set (sd_receipt db')"
    using b may_pend_in [OF mp [rule_format]] ms by (auto simp: books_def db' split: if_splits)
  ultimately show ?thesis
    unfolding books_def by blast
qed

end
