(* ===== verification/StockReach.thy ===== *)
theory StockReach
  imports StockBooks
begin

text \<open>
  The operations keep the books, and the states the inventory tables reach: every call of the service,
  whatever its faults, its arguments and its moment, is a step, and a settlement's and a receive's
  transactions are steps of their own, so anything may come between them.
\<close>

lemma books_zero: "books k 0 p db = books k' 0 p db"
  by (simp add: books_def promises_add_up_def)

definition balanced :: "stock_db \<Rightarrow> bool" where "balanced db \<longleftrightarrow> books ([], []) 0 None db"

lemma balanced_books: "balanced db \<longleftrightarrow> books k 0 None db"
  unfolding balanced_def by (rule books_zero)

lemma balanced_rows: "balanced db \<Longrightarrow> rows_ok db"
  by (simp add: balanced_def books_def)

section \<open>Locked rows\<close>

lemma locked_level:
  assumes "live_level db i l = Some v" "rows_ok db"
  shows "stands v db" "level_ok v" "lv_InventoryItemID v = i" "lv_LocationID v = l"
proof -
  obtain x where x: "find (\<lambda>r. lv_InventoryItemID (lw_level r) = i \<and> lv_LocationID (lw_level r) = l \<and> \<not> lw_deleted r)
      (sd_level db) = Some x" "lw_level x = v"
    using assms(1) by (auto simp: live_level_def)
  then have x': "x \<in> set (sd_level db)" "lv_InventoryItemID v = i" "lv_LocationID v = l" "\<not> lw_deleted x"
    by (auto dest: find_found)
  show "lv_InventoryItemID v = i" "lv_LocationID v = l" by (rule x')+
  show st: "stands v db"
  proof (cases "find (\<lambda>r. lv_ID (lw_level r) = lv_ID v \<and> \<not> lw_deleted r) (sd_level db)")
    case None
    then show ?thesis using x' x(2) by (auto simp: find_None_iff)
  next
    case (Some y)
    then have "y \<in> set (sd_level db)" "lv_ID (lw_level y) = lv_ID v" by (auto dest: find_found)
    then have "y = x" using same_level_id [OF assms(2) _ x'(1)] x(2) by simp
    then show ?thesis using Some x(2) by (simp add: stands_def row_of_def)
  qed
  then show "level_ok v" using assms(2) by (rule stands_level_ok [rotated])
qed

lemma stands_live:
  assumes "stands v db" "rows_ok db"
  shows "live_level db (lv_InventoryItemID v) (lv_LocationID v) = Some v"
proof -
  obtain x where x: "x \<in> set (sd_level db)" "lw_level x = v" "\<not> lw_deleted x" using assms(1) by (rule stands_row)
  show ?thesis
  proof (cases "find (\<lambda>r. lv_InventoryItemID (lw_level r) = lv_InventoryItemID v \<and>
      lv_LocationID (lw_level r) = lv_LocationID v \<and> \<not> lw_deleted r) (sd_level db)")
    case None
    then show ?thesis using x by (auto simp: find_None_iff)
  next
    case (Some y)
    then have "y \<in> set (sd_level db)" "level_key (lw_level y) = level_key (lw_level x)"
      using x(2) by (auto simp: level_key_def dest: find_found)
    then have "y = x" using same_level_key [OF assms(2) _ x(1)] by simp
    then show ?thesis using Some x(2) by (simp add: live_level_def)
  qed
qed

lemma LockInventoryLevel_Inr [simp]:
  "LockInventoryLevel flt i l db = Inr (v, db') \<longleftrightarrow>
    flt ''LockInventoryLevel'' = None \<and> live_level db i l = Some v \<and> db' = db"
  by (auto simp: LockInventoryLevel_def q_LockInventoryLevel_def)

lemma LockInventoryItem_Inr [simp]:
  "LockInventoryItem flt i db = Inr (u, db') \<longleftrightarrow> flt ''LockInventoryItem'' = None \<and> live_item db i \<noteq> None \<and> db' = db"
  by (auto simp: LockInventoryItem_def q_LockInventoryItem_def)

lemma LockInventoryItemShared_Inr [simp]:
  "LockInventoryItemShared flt i db = Inr (u, db') \<longleftrightarrow>
    flt ''LockInventoryItemShared'' = None \<and> live_item db i \<noteq> None \<and> db' = db"
  by (auto simp: LockInventoryItemShared_def q_LockInventoryItemShared_def)

lemma LockReservation_Inr [simp]:
  "LockReservation flt rid db = Inr (r, db') \<longleftrightarrow>
    flt ''LockReservation'' = None \<and> the_reservation db rid = Some r \<and> db' = db"
  by (auto simp: LockReservation_def q_LockReservation_def)

lemma requireOpenLocation_Inr [simp]:
  "requireOpenLocation flt l db = Inr (u, db') \<longleftrightarrow>
    flt ''LockStockLocationShared'' = None \<and> (\<exists>x. the_location db l = Some x \<and> \<not> location_Closed x) \<and> db' = db"
  by (auto simp: requireOpenLocation_def LockStockLocationShared_def q_LockStockLocationShared_def)

lemma attempt_Inr:
  "attempt m h f db = Inr r \<longleftrightarrow>
    (\<exists>e. m db = Inl e \<and> h e db = Inr r) \<or> (\<exists>a db'. m db = Inr (a, db') \<and> f a db' = Inr r)"
  by (auto simp: attempt_def split: sum.split)

lemma demand_Inr [simp]: "demand e db = Inr (u, db') \<longleftrightarrow> e = None \<and> db' = db"
  by (auto simp: demand_def split: option.split)

lemma open_location_at:
  assumes "the_location db l = Some x" "\<not> location_Closed x" "rows_ok db"
  shows "open_at db l"
  unfolding open_at_def
proof (intro ballI impI)
  fix y
  assume y: "y \<in> set (sd_location db)" "slo_ID y = l"
  have "x \<in> set (sd_location db)" "slo_ID x = l"
    using assms(1) by (auto simp: the_location_def dest: find_found)
  then have "y = x"
    using y assms(3) same_key [of slo_ID "sd_location db" y x] by (simp add: rows_ok_def)
  then show "\<not> location_Closed y" using assms(2) by simp
qed

lemma the_reservation_in:
  "the_reservation db rid = Some r \<Longrightarrow> r \<in> set (sd_reservation db) \<and> rv_ID r = rid"
  by (auto simp: the_reservation_def dest: find_found)

section \<open>What a write does\<close>

lemma writeQuantities_Inr:
  assumes run: "writeQuantities flt ids now v s r reason rid ref line db = Inr (v', db')"
    and v: "level_ok v" "stands v db" and s: "is_i64 s"
  obtains db2 where "0 \<le> r" "r \<le> s"
    and "recordMovement flt ids (put_quantities s r now v) (s - lv_StockedQuantity v) reason rid ref line (put v s r now db) = Inr ((), db2)"
    and "s - r \<le> lv_StockedQuantity v - lv_ReservedQuantity v \<Longrightarrow> v' = put_quantities s r now v \<and> db' = db2"
    and "s - r > lv_StockedQuantity v - lv_ReservedQuantity v \<Longrightarrow>
      \<exists>filled. fillWaiting flt ids now (put_quantities s r now v) db2 = Inr ((v', filled), db')"
proof -
  obtain x where x: "find (\<lambda>y. lv_ID (lw_level y) = lv_ID v \<and> \<not> lw_deleted y) (sd_level db) = Some x" "lw_level x = v"
    using v(2) by (auto simp: stands_def row_of_def)
  from run have rs: "0 \<le> r" "r \<le> s"
    by (auto simp: writeQuantities_def write_with_def UpdateInventoryLevelQuantities_Inr)
  have ok: "level_ok (put_quantities s r now v)" using rs s by (simp add: level_ok_def is_i64_def)
  have delta: "sub64 s (lv_StockedQuantity v) = s - lv_StockedQuantity v"
    using rs s v(1) by (intro sub64_id) (simp add: is_i64_def level_ok_def MinInt64_def MaxInt64_def)
  from run obtain db2 where
    "recordMovement flt ids (put_quantities s r now v) (s - lv_StockedQuantity v) reason rid ref line (put v s r now db) = Inr ((), db2)"
    "(if Available (put_quantities s r now v) > Available v
      then bindT (fillWaiting flt ids now (put_quantities s r now v)) (\<lambda>(filled, _). give filled)
      else give (put_quantities s r now v)) db2 = Inr (v', db')"
    by (auto simp: writeQuantities_def write_with_def UpdateInventoryLevelQuantities_Inr x delta put_def)
  then show ?thesis
    using rs by (intro that [of db2]) (auto simp: Available_ok [OF ok] Available_ok [OF v(1)] split: if_splits)
qed

lemma stands_after_write:
  assumes "stands v db" "recordMovement flt ids w delta reason rid ref line (put v s r now db) = Inr ((), db2)"
  shows "stands (put_quantities s r now v) db2"
proof -
  have "stands (put_quantities s r now v) (put v s r now db)"
    using stands_put [OF assms(1)] by (simp add: put_def)
  then show ?thesis
    using assms(2) by (auto simp: recordMovement_Inr Let_def stands_def row_of_def split: if_splits)
qed

text \<open>A count, a correction, an arrival.\<close>

lemma books_write_count:
  assumes run: "writeQuantities flt ids now v s (lv_ReservedQuantity v) reason [] ref line db = Inr (v', db')"
    and b: "books k q None db" and st: "stands v db" and s: "is_i64 s"
    and l: "open_at db (lv_LocationID v)" and mp: "may_pend db (level_key v) reason ref"
  shows "books k q (if s = lv_StockedQuantity v then None else pends reason ref) db'"
proof -
  have ok: "level_ok v" using b st by (auto simp: books_def intro: stands_level_ok)
  from writeQuantities_Inr [OF run ok st s] obtain db2 where rs: "lv_ReservedQuantity v \<le> s"
    and rec: "recordMovement flt ids (put_quantities s (lv_ReservedQuantity v) now v) (s - lv_StockedQuantity v) reason [] ref line
      (put v s (lv_ReservedQuantity v) now db) = Inr ((), db2)"
    and flat: "s \<le> lv_StockedQuantity v \<Longrightarrow> db' = db2"
    and fill: "s > lv_StockedQuantity v \<Longrightarrow>
      \<exists>filled. fillWaiting flt ids now (put_quantities s (lv_ReservedQuantity v) now v) db2 = Inr ((v', filled), db')"
    by (metis diff_right_mono diff_strict_right_mono)
  let ?p = "if s = lv_StockedQuantity v then None else pends reason ref"
  have b2: "books k q ?p db2"
  proof (cases "s = lv_StockedQuantity v")
    case True
    then show ?thesis using rec books_put_same [OF b st] by (simp add: recordMovement_Inr)
  next
    case False
    let ?m = "\<lparr> mv_ID = MovementIDPrefix @ ids (sd_drawn db), mv_InventoryItemID = lv_InventoryItemID v,
      mv_LocationID = lv_LocationID v, mv_ReservationID = [], mv_Reason = reason, mv_Delta = s - lv_StockedQuantity v,
      mv_StockedAfter = s, mv_Reference = ref, mv_LineItemID = line, mv_CreatedAt = now \<rparr>"
    have rec': "db2 = drawn (Suc (sd_drawn db)) (add_movement ?m (put v s (lv_ReservedQuantity v) now db))"
        "movement_checks ?m"
      using rec False by (auto simp: recordMovement_Inr Let_def drawn_def add_movement_def)
    have "books k q (pends (mv_Reason ?m) (mv_Reference ?m)) (add_movement ?m (put v s (lv_ReservedQuantity v) now db))"
      using rs s l mp rec'(2) by (intro books_move [OF b st])
        (auto simp: level_key_def movement_key_def is_i64_def movement_checks_def)
    then show ?thesis using rec' False by simp
  qed
  show ?thesis
  proof (cases "s > lv_StockedQuantity v")
    case True
    from fill [OF this] obtain filled where
      "fillWaiting flt ids now (put_quantities s (lv_ReservedQuantity v) now v) db2 = Inr ((v', filled), db')" by blast
    then show ?thesis using books_fill [OF _ b2] stands_after_write [OF st rec] by blast
  next
    case False
    then show ?thesis using flat b2 by simp
  qed
qed

text \<open>A promise given back: its units are on sale, or given to the claims, before its row says so.\<close>

lemma books_write_release:
  assumes run: "writeQuantities flt ids now v (lv_StockedQuantity v) (lv_ReservedQuantity v - n) [] [] [] [] db = Inr (v', db')"
    and b: "balanced db" and st: "stands v db" and n: "0 < n"
  shows "books (level_key v) n None db'"
proof -
  have ok: "level_ok v" using b st by (auto simp: balanced_def books_def intro: stands_level_ok)
  have s: "is_i64 (lv_StockedQuantity v)" using ok by (simp add: level_ok_def is_i64_def MinInt64_def)
  have rows: "rows_ok db" using b by (rule balanced_rows)
  from writeQuantities_Inr [OF run ok st s] obtain db2 where rs: "0 \<le> lv_ReservedQuantity v - n"
    and rec: "recordMovement flt ids (put_quantities (lv_StockedQuantity v) (lv_ReservedQuantity v - n) now v)
      (lv_StockedQuantity v - lv_StockedQuantity v) [] [] [] [] (put v (lv_StockedQuantity v) (lv_ReservedQuantity v - n) now db) = Inr ((), db2)"
    and fill: "\<exists>filled. fillWaiting flt ids now (put_quantities (lv_StockedQuantity v) (lv_ReservedQuantity v - n) now v) db2 = Inr ((v', filled), db')"
    using n by (metis diff_strict_left_mono diff_less_eq less_add_same_cancel1)
  have b': "books (level_key v) 0 None db" using b by (simp add: balanced_books [of db "level_key v"])
  have "db2 = put v (lv_StockedQuantity v) (lv_ReservedQuantity v - n) now db"
    using rec by (simp add: recordMovement_Inr)
  moreover have "books (level_key v) n None (put v (lv_StockedQuantity v) (lv_ReservedQuantity v - n) now db)"
  proof (rule books_put [OF b' st rs])
    show "lv_ReservedQuantity v - n \<le> lv_StockedQuantity v" using ok n by (simp add: level_ok_def)
    have "reserved_at db k = promised_at db k" for k
      using b' unfolding books_def promises_add_up_def by (cases k) simp
    then show "promises_add_up (level_key v) n (put v (lv_StockedQuantity v) (lv_ReservedQuantity v - n) now db)"
      unfolding promises_add_up_def by (simp add: reserved_at_put [OF st rows] del: split_paired_All)
  qed
  ultimately have "books (level_key v) n None db2" by simp
  with fill show ?thesis using books_fill stands_after_write [OF st rec] by blast
qed

lemma books_write_open:
  assumes run: "openLevel flt ids now i l s reason ref db = Inr (v', db')"
    and b: "books k q None db" and live: "live_item db i \<noteq> None"
    and s: "0 \<le> s" "s \<le> MaxInt64" and l: "open_at db l" and mp: "s \<noteq> 0 \<longrightarrow> may_pend db (i, l) reason ref"
    and r: "s \<noteq> 0 \<longrightarrow> \<not> LeavesAgainstAPromise reason"
  shows "books k q (if s = 0 then None else pends reason ref) db'"
proof -
  let ?v = "\<lparr> lv_ID = InventoryLevelIDPrefix @ ids (sd_drawn db), lv_InventoryItemID = i, lv_LocationID = l,
    lv_StockedQuantity = s, lv_ReservedQuantity = 0, lv_UpdatedAt = now \<rparr>"
  let ?row = "\<lparr> lw_level = ?v, lw_deleted = False \<rparr>"
  let ?db1 = "db\<lparr> sd_drawn := Suc (sd_drawn db), sd_level := sd_level db @ [?row] \<rparr>"
  from run obtain db2 where new: "live_level db i l = None"
    and vid: "\<not> list_ex (\<lambda>x. lv_ID (lw_level x) = lv_ID ?v) (sd_level db)"
    and rec: "recordMovement flt ids ?v s reason [] ref [] ?db1 = Inr ((), db2)"
    and rest: "(if Available ?v > 0 then bindT (fillWaiting flt ids now ?v) (\<lambda>(filled, _). give filled) else give ?v) db2 = Inr (v', db')"
    by (auto simp: openLevel_def draw_def CreateInventoryLevel_def q_CreateInventoryLevel_def quantity_checks_def live_level_def)
  let ?m = "\<lparr> mv_ID = MovementIDPrefix @ ids (Suc (sd_drawn db)), mv_InventoryItemID = i, mv_LocationID = l,
    mv_ReservationID = [], mv_Reason = reason, mv_Delta = s, mv_StockedAfter = s, mv_Reference = ref,
    mv_LineItemID = [], mv_CreatedAt = now \<rparr>"
  define db1' where "db1' = db\<lparr> sd_level := sd_level db @ [?row],
    sd_movement := sd_movement db @ (if s = 0 then [] else [?m]) \<rparr>"
  have "books k q (if lv_StockedQuantity ?v = 0 then None else pends (mv_Reason ?m) (mv_Reference ?m)) db1'"
    using s r vid mp
    by (intro books_open [OF b live new vid _ _ _ _ _ l, where m = ?m and ms = "if s = 0 then [] else [?m]"])
      (simp_all add: db1'_def movement_key_def)
  moreover have "db2 = drawn (if s = 0 then Suc (sd_drawn db) else Suc (Suc (sd_drawn db))) db1'"
    using rec by (auto simp: recordMovement_Inr Let_def drawn_def db1'_def split: if_splits)
  ultimately have b2: "books k q (if s = 0 then None else pends reason ref) db2"
    by (cases "s = 0") simp_all
  have find: "find (\<lambda>x. lv_ID (lw_level x) = lv_ID ?v \<and> \<not> lw_deleted x) (xs @ [?row]) = Some ?row"
    if "\<not> list_ex (\<lambda>x. lv_ID (lw_level x) = lv_ID ?v) xs" for xs
    using that by (induction xs) auto
  have st: "stands ?v db2"
    using rec find [OF vid] by (auto simp: recordMovement_Inr Let_def stands_def row_of_def split: if_splits)
  show ?thesis
  proof (cases "Available ?v > 0")
    case True
    then obtain filled where "fillWaiting flt ids now ?v db2 = Inr ((v', filled), db')" using rest by auto
    then show ?thesis using books_fill b2 st by blast
  next
    case False
    then show ?thesis using rest b2 by auto
  qed
qed

section \<open>Every transaction keeps the books\<close>

lemma pends_counts [simp]:
  "pends MovementStockCount ref = None" "pends MovementAdjustment ref = None" "pends MovementReturnRestock ref = None"
  "pends MovementCancellation ref = None" "pends MovementSupplierReceipt ref = Some ref"
  by (simp_all add: pends_def movement_reasons)

lemma may_pend_counts [simp]:
  "may_pend db k MovementStockCount ref" "may_pend db k MovementAdjustment ref"
  "may_pend db k MovementReturnRestock ref" "may_pend db k MovementCancellation ref"
  by (simp_all add: may_pend_def movement_reasons)

lemma added_quantity:
  assumes "addQuantity (lv_StockedQuantity v) d = Inr s" "level_ok v" "is_i64 d"
  shows "s = lv_StockedQuantity v + d" "is_i64 s"
  using assms addQuantity_Inr [of "lv_StockedQuantity v" d s]
  by (auto simp: level_ok_def is_i64_def MinInt64_def)

lemma set_level_keeps:
  assumes "0 \<le> s" "is_i64 s"
  shows "keeps balanced (set_level_tx flt ids now i l s seen)"
proof (rule keepsI)
  fix db v db'
  assume b: "balanced db" and run: "set_level_tx flt ids now i l s seen db = Inr (v, db')"
  have b0: "books ([], []) 0 None db" using b by (simp add: balanced_def)
  have rows: "rows_ok db" using b by (rule balanced_rows)
  from run have live: "live_item db i \<noteq> None" and l: "open_at db l"
    by (auto simp: set_level_tx_def open_location_at [OF _ _ rows])
  from run consider
      "openLevel flt ids now i l s MovementStockCount [] db = Inr (v, db')"
    | w where "live_level db i l = Some w"
      "writeQuantities flt ids now w s (lv_ReservedQuantity w) MovementStockCount [] [] [] db = Inr (v, db')"
    by (auto simp: set_level_tx_def attempt_Inr split: if_splits)
  then show "balanced db'"
  proof cases
    case 1
    then show ?thesis
      using books_write_open [OF 1 b0 live _ _ l] assms by (simp add: balanced_def is_i64_def split: if_splits)
  next
    case (2 w)
    note w = locked_level [OF 2(1) rows]
    show ?thesis
      using books_write_count [OF 2(2) b0 w(1) assms(2)] l w by (simp add: balanced_def split: if_splits)
  qed
qed

lemma adjust_keeps:
  assumes "is_i64 d" "reason \<in> {MovementAdjustment, MovementReturnRestock}"
  shows "keeps balanced (adjust_tx flt ids now i l d reason)"
proof (rule keepsI)
  fix db v db'
  assume b: "balanced db" and run: "adjust_tx flt ids now i l d reason db = Inr (v, db')"
  have b0: "books ([], []) 0 None db" using b by (simp add: balanced_def)
  have rows: "rows_ok db" using b by (rule balanced_rows)
  from run obtain w s where w': "live_level db i l = Some w" and l: "open_at db l"
    and s: "addQuantity (lv_StockedQuantity w) d = Inr s"
    and wq: "writeQuantities flt ids now w s (lv_ReservedQuantity w) reason [] [] [] db = Inr (v, db')"
    by (auto simp: adjust_tx_def open_location_at [OF _ _ rows] split: if_splits)
  note w = locked_level [OF w' rows]
  show "balanced db'"
    using books_write_count [OF wq b0 w(1) added_quantity(2) [OF s w(2) assms(1)]] l w assms(2)
    by (auto simp: balanced_def split: if_splits)
qed

lemma return_canceled_keeps:
  assumes "is_i64 target"
  shows "keeps balanced (return_canceled_tx flt ids now i l line target ref)"
proof (rule keepsI)
  fix db v db'
  assume b: "balanced db" and run: "return_canceled_tx flt ids now i l line target ref db = Inr (v, db')"
  have b0: "books ([], []) 0 None db" using b by (simp add: balanced_def)
  have rows: "rows_ok db" using b by (rule balanced_rows)
  from run obtain w d s where w': "live_level db i l = Some w" and l: "open_at db l"
    and s: "addQuantity (lv_StockedQuantity w) d = Inr s" "is_i64 d"
    and wq: "writeQuantities flt ids now w s (lv_ReservedQuantity w) MovementCancellation [] ref line db = Inr (v, db')"
    by (auto simp: return_canceled_tx_def open_location_at [OF _ _ rows] ReturnedForLine_def is_i64_ops Let_def split: if_splits)
  note w = locked_level [OF w' rows]
  show "balanced db'"
    using books_write_count [OF wq b0 w(1) added_quantity(2) [OF s(1) w(2) s(2)]] l w
    by (auto simp: balanced_def split: if_splits)
qed

lemma CancellationRecorded_Inr [simp]:
  "CancellationRecorded flt ref db = Inr (x, db') \<longleftrightarrow> flt ''CancellationRecorded'' = None \<and> db' = db \<and>
    x = list_ex (\<lambda>m. mv_Reason m = MovementCancellation \<and> mv_Reference m = ref \<and> ref \<noteq> []) (sd_movement db)"
  by (auto simp: CancellationRecorded_def q_CancellationRecorded_def)

lemma recall_keeps: "keeps balanced (recall_tx flt ids now rid)"
proof (rule keepsI)
  fix db v db'
  assume b: "balanced db" and run: "recall_tx flt ids now rid db = Inr (v, db')"
  have b0: "books ([], []) 0 None db" using b by (simp add: balanced_def)
  have rows: "rows_ok db" using b by (rule balanced_rows)
  from run obtain r w s where r: "the_reservation db rid = Some r"
    and w': "live_level db (rv_InventoryItemID r) (rv_LocationID r) = Some w" and l: "open_at db (rv_LocationID r)"
    and s: "addQuantity (lv_StockedQuantity w) (rv_Quantity r) = Inr s"
    and wq: "writeQuantities flt ids now w s (lv_ReservedQuantity w) MovementCancellation [] rid [] db = Inr (v, db')"
    by (auto simp: recall_tx_def open_location_at [OF _ _ rows] split: if_splits)
  note w = locked_level [OF w' rows]
  have "is_i64 (rv_Quantity r)"
    using the_reservation_in [OF r] rows by (auto simp: rows_ok_def reservation_checks_def is_i64_def MinInt64_def)
  then show "balanced db'"
    using books_write_count [OF wq b0 w(1) added_quantity(2) [OF s w(2)]] l w
    by (auto simp: balanced_def split: if_splits)
qed

lemma drain_keeps: "keeps balanced (drain_tx flt ids now claim l)"
proof (rule keepsI)
  fix db x db'
  assume b: "balanced db" and run: "drain_tx flt ids now claim l db = Inr (x, db')"
  have b0: "books ([], []) 0 None db" using b by (simp add: balanced_def)
  from run consider "db' = db"
    | w v filled where "live_level db (bo_InventoryItemID claim) l = Some w"
      "fillWaiting flt ids now w db = Inr ((v, filled), db')"
    by (auto simp: drain_tx_def split: if_splits)
  then show "balanced db'"
  proof cases
    case (2 w v filled)
    then show ?thesis
      using books_fill [OF 2(2) b0] locked_level(1) [OF 2(1) balanced_rows [OF b]] by (simp add: balanced_def)
  qed (use b in simp)
qed

text \<open>What a reservation, a release and a confirmation leave behind.\<close>

definition reserved_row :: "string \<Rightarrow> reserve_input \<Rightarrow> reservation" where
  "reserved_row rid req =
    \<lparr> rv_ID = rid, rv_InventoryItemID = rsv_InventoryItemID req, rv_LocationID = rsv_LocationID req,
      rv_Quantity = rsv_Quantity req, rv_LineItemID = strings_TrimSpace (rsv_LineItemID req),
      rv_Description = strings_TrimSpace (rsv_Description req), rv_Purpose = reserve_purpose req,
      rv_Status = ReservationActive \<rparr>"

lemma reserve_tx_Inr:
  assumes "rows_ok db" "is_i64 (rsv_Quantity req)" "0 < rsv_Quantity req"
  shows "reserve_tx flt ids now req db = Inr (r, db') \<longleftrightarrow>
    flt ''LockInventoryItemShared'' = None \<and> flt ''LockInventoryLevel'' = None \<and>
    flt ''UpdateInventoryLevelQuantities'' = None \<and> flt ''CreateReservation'' = None \<and>
    live_item db (rsv_InventoryItemID req) \<noteq> None \<and>
    (\<exists>v. live_level db (rsv_InventoryItemID req) (rsv_LocationID req) = Some v \<and>
      rsv_Quantity req \<le> lv_StockedQuantity v - lv_ReservedQuantity v \<and>
      r = reserved_row (ReservationIDPrefix @ ids (sd_drawn db)) req \<and>
      reservation_checks r \<and> the_reservation db (rv_ID r) = None \<and>
      item_there db (rsv_InventoryItemID req) \<and> the_location db (rsv_LocationID req) \<noteq> None \<and>
      db' = drawn (Suc (sd_drawn db))
        (add_reservation r (put v (lv_StockedQuantity v) (lv_ReservedQuantity v + rsv_Quantity req) now db)))"
    (is "?lhs \<longleftrightarrow> ?rhs")
proof -
  have "reserve_tx flt ids now req db = Inr (r, db') \<longleftrightarrow>
    flt ''LockInventoryItemShared'' = None \<and> flt ''LockInventoryLevel'' = None \<and>
    flt ''UpdateInventoryLevelQuantities'' = None \<and> flt ''CreateReservation'' = None \<and>
    rsv_Quantity req \<le> lv_StockedQuantity v - lv_ReservedQuantity v \<and>
      r = reserved_row (ReservationIDPrefix @ ids (sd_drawn db)) req \<and>
      reservation_checks r \<and> the_reservation db (rv_ID r) = None \<and>
      item_there db (rsv_InventoryItemID req) \<and> the_location db (rsv_LocationID req) \<noteq> None \<and>
      db' = drawn (Suc (sd_drawn db))
        (add_reservation r (put v (lv_StockedQuantity v) (lv_ReservedQuantity v + rsv_Quantity req) now db))"
    if live: "live_item db (rsv_InventoryItemID req) \<noteq> None"
      and v: "live_level db (rsv_InventoryItemID req) (rsv_LocationID req) = Some v" for v
  proof -
    note w = locked_level [OF v assms(1)]
    let ?r = "lv_ReservedQuantity v + rsv_Quantity req"
    have add: "addQuantity (lv_ReservedQuantity v) (rsv_Quantity req) = Inr x \<longleftrightarrow> x = ?r \<and> ?r \<le> MaxInt64" for x
      using w(2) assms by (intro addQuantity_Inr) (auto simp: level_ok_def)
    have i64: "is_i64 (lv_StockedQuantity v)" using w(2) by (simp add: level_ok_def is_i64_def MinInt64_def)
    have wr: "writeQuantities flt ids now v (lv_StockedQuantity v) ?r [] [] [] [] db = Inr (u, d) \<longleftrightarrow>
        flt ''UpdateInventoryLevelQuantities'' = None \<and> 0 \<le> ?r \<and> ?r \<le> lv_StockedQuantity v \<and>
        u = put_quantities (lv_StockedQuantity v) ?r now v \<and> d = put v (lv_StockedQuantity v) ?r now db" for u d
      unfolding writeQuantities_def using assms(3)
      by (auto simp: write_with_Inr [OF w(2,1) i64] recordMovement_Inr put_def)
    show ?thesis
      using live v w assms
      by (auto simp: reserve_tx_def Available_ok add wr draw_def CreateReservation_def q_CreateReservation_def
          reserved_row_def drawn_def add_reservation_def put_def level_ok_def the_reservation_def item_there_def
          the_location_def)
  qed
  note step = this
  show ?thesis
  proof
    assume l: ?lhs
    then obtain v where "live_item db (rsv_InventoryItemID req) \<noteq> None"
      "live_level db (rsv_InventoryItemID req) (rsv_LocationID req) = Some v"
      by (auto simp: reserve_tx_def)
    then show ?rhs using step l by blast
  next
    assume ?rhs
    then show ?lhs using step by blast
  qed
qed

lemma reserve_keeps:
  assumes "is_i64 (rsv_Quantity req)" "0 < rsv_Quantity req"
  shows "keeps balanced (reserve_tx flt ids now req)"
proof (rule keepsI)
  fix db r db'
  assume b: "balanced db" and run: "reserve_tx flt ids now req db = Inr (r, db')"
  have rows: "rows_ok db" using b by (rule balanced_rows)
  from run [unfolded reserve_tx_Inr [OF rows assms]] obtain v where
    v: "live_level db (rsv_InventoryItemID req) (rsv_LocationID req) = Some v"
    "rsv_Quantity req \<le> lv_StockedQuantity v - lv_ReservedQuantity v" and
    r: "r = reserved_row (ReservationIDPrefix @ ids (sd_drawn db)) req" "reservation_checks r"
      "the_reservation db (rv_ID r) = None" and
    db': "db' = drawn (Suc (sd_drawn db))
      (add_reservation r (put v (lv_StockedQuantity v) (lv_ReservedQuantity v + rsv_Quantity req) now db))"
    by blast
  note w = locked_level [OF v(1) rows]
  have "books ([], []) 0 None (add_reservation r (put v (lv_StockedQuantity v) (lv_ReservedQuantity v + rsv_Quantity req) now db))"
    using b w r v(2) by (intro books_hold) (auto simp: balanced_def reserved_row_def reservation_key_def level_key_def)
  then show "balanced db'" by (simp add: balanced_def db')
qed

lemma SetReservationStatus_Inr:
  "SetReservationStatus flt rid st db = Inr (u, db') \<longleftrightarrow>
    flt ''SetReservationStatus'' = None \<and> the_reservation db rid \<noteq> None \<and>
    st \<in> {ReservationActive, ReservationReleased, ReservationConfirmed} \<and> db' = set_status rid st db"
proof -
  have "filter (\<lambda>r. rv_ID r = rid) (sd_reservation db) = [] \<longleftrightarrow> the_reservation db rid = None"
    by (auto simp: the_reservation_def find_None_iff filter_empty_conv)
  then show ?thesis
    by (auto simp: SetReservationStatus_def q_SetReservationStatus_def set_status_def)
qed

lemma books_release_status:
  assumes b: "books (reservation_key r) (rv_Quantity r) p db" and r: "r \<in> set (sd_reservation db)" "rv_Status r = ReservationActive"
  shows "books k 0 p (set_status (rv_ID r) ReservationReleased db)" (is "books k 0 p ?db")
proof -
  have rows: "rows_ok db" using b by (simp add: books_def)
  have same: "y = r" if "y \<in> set (sd_reservation db)" "rv_ID y = rv_ID r" for y
    using same_reservation_id [OF rows that(1) r(1) that(2)] .
  have "rows_ok ?db"
  proof -
    have "distinct (map rv_ID (map (put_status (rv_ID r) ReservationReleased) (sd_reservation db)))"
      using rows unfolding put_status_ids by (simp add: rows_ok_def)
    then show ?thesis using rows by (auto simp: rows_ok_def reservation_checks_def put_status_def)
  qed
  moreover have "promises_add_up k 0 ?db"
  proof -
    have P: "promised_at ?db k' = promised_at db k' - (if reservation_key r = k' then rv_Quantity r else 0)" for k'
      using promised_at_status [OF r(1) rows r(2)] by simp
    have R: "reserved_at db k' + (if k' = reservation_key r then rv_Quantity r else 0) = promised_at db k'" for k'
      using b unfolding books_def promises_add_up_def by (cases k') simp
    have "reserved_at ?db k' = promised_at ?db k'" for k'
      using P [of k'] R [of k'] by (cases "k' = reservation_key r") auto
    then show ?thesis by (simp add: promises_add_up_def)
  qed
  moreover have "\<forall>y \<in> set (sd_reservation ?db). promise_told ?db y"
  proof
    fix y'
    assume "y' \<in> set (sd_reservation ?db)"
    then obtain y where y: "y \<in> set (sd_reservation db)" "y' = put_status (rv_ID r) ReservationReleased y"
      by auto
    have "promise_told db y" using b y(1) by (simp add: books_def)
    then show "promise_told ?db y'"
      using y r(2) same [OF y(1)] by (cases "rv_ID y = rv_ID r") (auto simp: promise_told_def put_status_def)
  qed
  moreover have "\<forall>c \<in> set (sd_backorder ?db). claim_told ?db c"
  proof
    fix c
    assume c: "c \<in> set (sd_backorder ?db)"
    have "x \<in> set (sd_reservation ?db)" if "x \<in> set (sd_reservation db)" "rv_Status x = ReservationConfirmed" for x
    proof -
      have "rv_ID x \<noteq> rv_ID r" using same [of x] that r(2) by (metis reservation_statuses(5))
      then show ?thesis using that by (auto simp: put_status_def intro!: image_eqI [where x = x])
    qed
    then show "claim_told ?db c"
      using b c by (fastforce simp: books_def claim_told_def)
  qed
  moreover have "\<forall>m \<in> set (sd_movement ?db). mv_ReservationID m \<noteq> [] \<longrightarrow>
      mv_ReservationID m \<in> rv_ID ` set (sd_reservation ?db)"
  proof -
    have "rv_ID ` set (sd_reservation ?db) = rv_ID ` set (sd_reservation db)"
      using arg_cong [OF put_status_ids, of set] by (simp only: set_map) simp
    then show ?thesis using b by (simp add: books_def)
  qed
  ultimately show ?thesis
    using b by (auto simp: books_def movements_add_up_def receipt_told_def closed_empty_def)
qed

lemma set_status_fields' [simp]: "the_reservation (set_status rid st db) rid' =
    map_option (put_status rid st) (the_reservation db rid')"
proof -
  have "(\<lambda>r. rv_ID r = rid') \<circ> put_status rid st = (\<lambda>r. rv_ID r = rid')"
    by (rule ext) (simp add: put_status_def)
  then show ?thesis by (simp add: the_reservation_def find_map)
qed

text \<open>What a fill leaves alone.\<close>

definition fill_frame :: "stock_db \<Rightarrow> stock_db \<Rightarrow> bool" where
  "fill_frame db db' \<longleftrightarrow> sd_item db' = sd_item db \<and> sd_location db' = sd_location db \<and> sd_receipt db' = sd_receipt db \<and>
    (\<exists>rs. sd_reservation db' = sd_reservation db @ rs) \<and>
    (\<exists>ms. sd_movement db' = sd_movement db @ ms \<and> (\<forall>m \<in> set ms. mv_Reason m = MovementSale))"

lemma fill_frame_refl [simp]: "fill_frame db db"
  by (simp add: fill_frame_def)

lemma fill_keeps_frame:
  assumes "fillWaiting flt ids now v db = Inr ((v', filled), db')" "stands v db" "level_ok v"
    and "distinct (map bo_ID (sd_backorder db))" "\<And>c. c \<in> set (sd_backorder db) \<Longrightarrow> claim_ok c"
  shows "fill_frame db db'"
proof -
  have "fill_frame db d'" if "fill_frame db d" "level_ok w" "stands w d" "0 < owed c"
      "owed c \<le> lv_StockedQuantity w - lv_ReservedQuantity w"
      "fill_one fill flt ids now c (owed c) w d = Inr (w', d')" for w d w' d' c flt fill
    using that(1) unfolding fill_one_Inr(2) [OF that(2-6)]
    by (auto simp: fill_frame_def filled_db_def sale_of_def)
  then show ?thesis
    using fillWaiting_run(9) [where P = "\<lambda>_. fill_frame db", OF assms(1,3,2,4,5)] by simp
qed

text \<open>Nor does a write, beyond its level and its movement.\<close>

lemma write_keeps_frame:
  assumes run: "writeQuantities flt ids now v s r reason rid ref line db = Inr (v', db')"
    and v: "level_ok v" "stands v db" and s: "is_i64 s" and rows: "rows_ok db"
  obtains db2 where "recordMovement flt ids (put_quantities s r now v) (s - lv_StockedQuantity v) reason rid ref line (put v s r now db) = Inr ((), db2)"
    and "fill_frame db2 db'"
proof -
  from writeQuantities_Inr [OF run v s] obtain db2 where rs: "0 \<le> r" "r \<le> s"
    and rec: "recordMovement flt ids (put_quantities s r now v) (s - lv_StockedQuantity v) reason rid ref line (put v s r now db) = Inr ((), db2)"
    and fin: "db' = db2 \<or> (\<exists>filled. fillWaiting flt ids now (put_quantities s r now v) db2 = Inr ((v', filled), db'))"
    by (metis linorder_not_less)
  have "level_ok (put_quantities s r now v)" using rs s by (simp add: level_ok_def is_i64_def)
  moreover have "sd_backorder db2 = sd_backorder db" using rec by (auto simp: recordMovement_Inr Let_def split: if_splits)
  moreover have "claim_ok c" if "c \<in> set (sd_backorder db)" for c
    using rows that by (auto simp: rows_ok_def claim_ok_def backorder_checks_def)
  ultimately have "fill_frame db2 db'"
    using fin fill_keeps_frame [OF _ stands_after_write [OF v(2) rec]] rows by (auto simp: rows_ok_def)
  with rec show thesis by (rule that)
qed

lemma release_keeps: "keeps balanced (release_stock_tx flt ids now rid)"
proof (rule keepsI)
  fix db u db'
  assume b: "balanced db" and run: "release_stock_tx flt ids now rid db = Inr (u, db')"
  have b0: "books ([], []) 0 None db" using b by (simp add: balanced_def)
  have rows: "rows_ok db" using b by (rule balanced_rows)
  show "balanced db'"
  proof (cases "\<exists>r. the_reservation db rid = Some r \<and> rv_Status r = ReservationReleased")
    case True
    then show ?thesis using run b by (auto simp: release_stock_tx_def)
  next
    case False
    with run obtain r v w db1 where r: "the_reservation db rid = Some r" "rv_Status r = ReservationActive"
      and v: "live_level db (rv_InventoryItemID r) (rv_LocationID r) = Some v"
      and pos: "\<not> sub64 (lv_ReservedQuantity v) (rv_Quantity r) < 0"
      and wq: "writeQuantities flt ids now v (lv_StockedQuantity v) (sub64 (lv_ReservedQuantity v) (rv_Quantity r)) [] [] [] [] db = Inr (w, db1)"
      and st: "SetReservationStatus flt rid ReservationReleased db1 = Inr (u, db')"
      by (auto simp: release_stock_tx_def Let_def split: if_splits)
    note v' = locked_level [OF v rows]
    note r' = the_reservation_in [OF r(1)]
    have n: "0 < rv_Quantity r" "rv_Quantity r \<le> MaxInt64" using r' rows by (auto simp: rows_ok_def reservation_checks_def)
    have sub: "sub64 (lv_ReservedQuantity v) (rv_Quantity r) = lv_ReservedQuantity v - rv_Quantity r"
      using v'(2) n by (intro sub64_id) (simp add: level_ok_def is_i64_def MinInt64_def MaxInt64_def)
    have key: "level_key v = reservation_key r" using v' by (simp add: level_key_def reservation_key_def)
    have b1: "books (reservation_key r) (rv_Quantity r) None db1"
      using books_write_release [OF wq [unfolded sub] b v'(1) n(1)] key by simp
    have i64: "is_i64 (lv_StockedQuantity v)" using v'(2) by (simp add: level_ok_def is_i64_def MinInt64_def)
    have "r \<in> set (sd_reservation db1)"
    proof -
      from write_keeps_frame [OF wq [unfolded sub] v'(2,1) i64 rows] obtain db2 where
        "recordMovement flt ids (put_quantities (lv_StockedQuantity v) (lv_ReservedQuantity v - rv_Quantity r) now v)
          (lv_StockedQuantity v - lv_StockedQuantity v) [] [] [] []
          (put v (lv_StockedQuantity v) (lv_ReservedQuantity v - rv_Quantity r) now db) = Inr ((), db2)" "fill_frame db2 db1"
        by blast
      then show ?thesis using r' by (auto simp: fill_frame_def recordMovement_Inr)
    qed
    with b1 r(2) have "books ([], []) 0 None (set_status (rv_ID r) ReservationReleased db1)"
      by (intro books_release_status) auto
    then show ?thesis using st r' by (simp add: SetReservationStatus_Inr balanced_def)
  qed
qed

definition leaving :: "(nat \<Rightarrow> string) \<Rightarrow> moment \<Rightarrow> nat \<Rightarrow> inventory_level \<Rightarrow> reservation \<Rightarrow> string \<Rightarrow> movement" where
  "leaving ids now n v r orderID =
    \<lparr> mv_ID = MovementIDPrefix @ ids n, mv_InventoryItemID = lv_InventoryItemID v, mv_LocationID = lv_LocationID v,
      mv_ReservationID = rv_ID r, mv_Reason = purpose_MovementReason (rv_Purpose r), mv_Delta = - rv_Quantity r,
      mv_StockedAfter = lv_StockedQuantity v - rv_Quantity r, mv_Reference = orderID, mv_LineItemID = [],
      mv_CreatedAt = now \<rparr>"

lemma purpose_reason_leaves [simp]:
  "LeavesAgainstAPromise (purpose_MovementReason p)" "reason_Valid (purpose_MovementReason p)"
  "purpose_MovementReason p \<noteq> MovementSupplierReceipt" "purpose_MovementReason p \<noteq> MovementCancellation"
  "CarriesAReference (purpose_MovementReason p) = (p \<noteq> PurposeReplacement)"
  by (simp_all add: purpose_MovementReason_def movement_reasons LeavesAgainstAPromise_def reason_Valid_def CarriesAReference_def)

lemma deductHeld_Inr:
  assumes run: "deductHeld flt ids now r v orderID db = Inr (v', db')"
    and v: "level_ok v" "stands v db" and n: "0 < rv_Quantity r" "rv_Quantity r \<le> MaxInt64" and rid: "rv_ID r \<noteq> []"
  shows "rv_Quantity r \<le> lv_ReservedQuantity v"
    and "db' = drawn (Suc (sd_drawn db)) (deducted v r (leaving ids now (sd_drawn db) v r orderID) now db)"
    and "(orderID = []) = (rv_Purpose r = PurposeReplacement)"
    and "v' = put_quantities (lv_StockedQuantity v - rv_Quantity r) (lv_ReservedQuantity v - rv_Quantity r) now v"
proof -
  let ?s = "lv_StockedQuantity v - rv_Quantity r" let ?r = "lv_ReservedQuantity v - rv_Quantity r"
  have sub: "sub64 (lv_StockedQuantity v) (rv_Quantity r) = ?s" "sub64 (lv_ReservedQuantity v) (rv_Quantity r) = ?r"
    using v(1) n by (auto intro!: sub64_id simp: level_ok_def is_i64_def MinInt64_def MaxInt64_def)
  have i64: "is_i64 ?s" using v(1) n by (auto simp: level_ok_def is_i64_def MinInt64_def MaxInt64_def)
  from run obtain db2 where
    wq: "write_with (fillWaiting flt ids now) flt ids now v ?s ?r (purpose_MovementReason (rv_Purpose r)) (rv_ID r) orderID [] db = Inr (v', db2)"
    and st: "SetReservationStatus flt (rv_ID r) ReservationConfirmed db2 = Inr ((), db')" and pos: "0 \<le> ?r"
    by (auto simp: deductHeld_def deduct_with_def sub Let_def split: if_splits)
  have "?s - ?r \<le> lv_StockedQuantity v - lv_ReservedQuantity v" by simp
  note w = wq [unfolded write_with_Inr [OF v i64 this]]
  show "rv_Quantity r \<le> lv_ReservedQuantity v" using pos by simp
  show "v' = put_quantities ?s ?r now v" using w by blast
  have rec: "recordMovement flt ids (put_quantities ?s ?r now v) (- rv_Quantity r) (purpose_MovementReason (rv_Purpose r)) (rv_ID r) orderID []
      (db\<lparr> sd_level := map (put_row (lv_ID v) ?s ?r now) (sd_level db) \<rparr>) = Inr ((), db2)"
    using w by auto
  show "(orderID = []) = (rv_Purpose r = PurposeReplacement)"
    using rec n by (simp add: recordMovement_Inr Let_def)
  have "db2 = drawn (Suc (sd_drawn db)) (add_movement (leaving ids now (sd_drawn db) v r orderID) (put v ?s ?r now db))"
    using rec n by (simp add: recordMovement_Inr Let_def leaving_def drawn_def add_movement_def put_def)
  then show "db' = drawn (Suc (sd_drawn db)) (deducted v r (leaving ids now (sd_drawn db) v r orderID) now db)"
    using st by (simp add: SetReservationStatus_Inr deducted_def drawn_def set_status_def add_movement_def put_def)
qed

lemma confirm_keeps: "keeps balanced (confirm_tx flt ids now rid orderID)"
proof (rule keepsI)
  fix db u db'
  assume b: "balanced db" and run: "confirm_tx flt ids now rid orderID db = Inr (u, db')"
  have b0: "books ([], []) 0 None db" using b by (simp add: balanced_def)
  have rows: "rows_ok db" using b by (rule balanced_rows)
  show "balanced db'"
  proof (cases "\<exists>r. the_reservation db rid = Some r \<and> rv_Status r = ReservationConfirmed")
    case True
    then show ?thesis using run b by (auto simp: confirm_tx_def)
  next
    case False
    with run obtain r v w where r: "the_reservation db rid = Some r" "rv_Status r = ReservationActive"
      and v: "live_level db (rv_InventoryItemID r) (rv_LocationID r) = Some v"
      and ded: "deductHeld flt ids now r v orderID db = Inr (w, db')"
      by (auto simp: confirm_tx_def split: if_splits)
    note v' = locked_level [OF v rows]
    note r' = the_reservation_in [OF r(1)]
    have n: "0 < rv_Quantity r" "rv_Quantity r \<le> MaxInt64" "rv_ID r \<noteq> []"
      using r' rows by (auto simp: rows_ok_def reservation_checks_def)
    note d = deductHeld_Inr [OF ded v'(2,1) n]
    have "books ([], []) 0 None (deducted v r (leaving ids now (sd_drawn db) v r orderID) now db)"
      using b0 v' r r' d(1) by (intro books_deduct)
        (auto simp: reservation_key_def level_key_def movement_key_def leaving_def)
    then show ?thesis by (simp add: balanced_def d(2))
  qed
qed

section \<open>Claims, receipts, places and items\<close>

lemma balanced_claims:
  assumes b: "balanced db" and same: "sd_level db' = sd_level db" "sd_reservation db' = sd_reservation db"
    "sd_movement db' = sd_movement db" "sd_receipt db' = sd_receipt db" "sd_location db' = sd_location db" "sd_item db' = sd_item db"
    and "distinct (map bo_ID (sd_backorder db'))"
    and "\<And>c. c \<in> set (sd_backorder db') \<Longrightarrow> backorder_checks c \<and> bo_Quantity c \<le> MaxInt64 \<and> claim_told db c"
  shows "balanced db'"
proof -
  have rows: "rows_ok db'"
    using balanced_rows [OF b] same assms(8,9) by (simp add: rows_ok_def live_item_def item_there_def)
  have "\<And>k. stocked_at db' k = stocked_at db k" "\<And>k. reserved_at db' k = reserved_at db k"
    "\<And>k. promised_at db' k = promised_at db k" "\<And>k. moved_at db' k = moved_at db k"
    "\<And>r. promise_told db' r = promise_told db r" "\<And>r. receipt_told None db' r = receipt_told None db r"
    "\<And>c. claim_told db' c = claim_told db c" "closed_empty db' = closed_empty db"
    using same by (simp_all add: stocked_at_def reserved_at_def promised_at_def moved_at_def promise_told_def
        receipt_told_def claim_told_def closed_empty_def naming_def receiving_def)
  then show ?thesis
    using b same rows assms(9) unfolding balanced_def books_def promises_add_up_def movements_add_up_def by simp
qed

lemma claim_keeps:
  assumes "is_i64 (cin_Quantity req)"
  shows "keeps balanced (claim_tx flt ids req ls)"
proof (rule keepsI)
  fix db x db'
  assume b: "balanced db" and run: "claim_tx flt ids req ls db = Inr (x, db')"
  have rows: "rows_ok db" using b by (rule balanced_rows)
  let ?new = "\<lparr> bo_ID = BackorderIDPrefix @ ids (sd_drawn db), bo_InventoryItemID = cin_InventoryItemID req,
    bo_OrderID = cin_OrderID req, bo_OrderLineItemID = cin_OrderLineItemID req, bo_Quantity = cin_Quantity req,
    bo_WithdrawnQuantity = 0, bo_LocationIDs = ls, bo_Status = BackorderWaiting, bo_ReservationID = [],
    bo_FilledLocationID = [], bo_Seq = sd_seq db \<rparr>"
  from run have "db' = db\<lparr> sd_drawn := Suc (sd_drawn db), sd_seq := sd_seq db + 1 \<rparr> \<or>
    (db' = db\<lparr> sd_drawn := Suc (sd_drawn db), sd_seq := sd_seq db + 1, sd_backorder := sd_backorder db @ [?new] \<rparr> \<and>
     backorder_checks ?new \<and> \<not> list_ex (\<lambda>y. bo_ID y = bo_ID ?new) (sd_backorder db))"
    by (auto simp: claim_tx_def draw_def CreateBackorder_def q_CreateBackorder_def GetBackorderOfLine_def
        q_GetBackorderOfLine_def Let_def split: if_splits option.splits)
  then show "balanced db'"
  proof (elim disjE conjE)
    assume "db' = db\<lparr> sd_drawn := Suc (sd_drawn db), sd_seq := sd_seq db + 1 \<rparr>"
    then show ?thesis using b rows by (intro balanced_claims [OF b]) (auto simp: balanced_def books_def rows_ok_def)
  next
    assume db': "db' = db\<lparr> sd_drawn := Suc (sd_drawn db), sd_seq := sd_seq db + 1, sd_backorder := sd_backorder db @ [?new] \<rparr>"
      and new: "backorder_checks ?new" "\<not> list_ex (\<lambda>y. bo_ID y = bo_ID ?new) (sd_backorder db)"
    have told: "claim_told db ?new" by (simp add: claim_told_def)
    show ?thesis
    proof (rule balanced_claims [OF b])
      show "distinct (map bo_ID (sd_backorder db'))"
        using rows new(2) by (auto simp: db' rows_ok_def list_ex_iff)
      fix c
      assume "c \<in> set (sd_backorder db')"
      then show "backorder_checks c \<and> bo_Quantity c \<le> MaxInt64 \<and> claim_told db c"
        using b rows new(1) told assms by (auto simp: db' balanced_def books_def rows_ok_def is_i64_def)
    qed (simp_all add: db')
  qed
qed

lemma withdraw_keeps:
  assumes b: "balanced db" and run: "WithdrawBackorder flt bid n st db = Inr (c', db')"
    and c: "c \<in> set (sd_backorder db)" "bo_ID c = bid" "st \<noteq> BackorderFilled"
  shows "balanced db'" "c' = withdraw_row bid n st c" "sd_backorder db' = map (withdraw_row bid n st) (sd_backorder db)"
proof -
  have rows: "rows_ok db" using b by (rule balanced_rows)
  from run obtain d where d: "find (\<lambda>b. bo_ID b = bid) (sd_backorder db) = Some d" "c' = withdraw_row bid n st d"
    "backorder_checks (withdraw_row bid n st d)"
    and db': "db' = db\<lparr> sd_backorder := map (withdraw_row bid n st) (sd_backorder db) \<rparr>"
    by (auto simp: WithdrawBackorder_def q_WithdrawBackorder_def split: option.splits)
  have "d \<in> set (sd_backorder db)" "bo_ID d = bid" using d(1) by (auto dest: find_found)
  then have "d = c" using same_backorder_id [OF rows _ c(1)] c(2) by simp
  then show "c' = withdraw_row bid n st c" using d by simp
  show "sd_backorder db' = map (withdraw_row bid n st) (sd_backorder db)" by (simp add: db')
  show "balanced db'"
  proof (rule balanced_claims [OF b])
    show "distinct (map bo_ID (sd_backorder db'))"
    proof -
      have "map bo_ID (sd_backorder db') = map bo_ID (sd_backorder db)" by (simp add: db' withdraw_row_def)
      then show ?thesis using rows by (simp add: rows_ok_def)
    qed
    fix y'
    assume "y' \<in> set (sd_backorder db')"
    then obtain y where y: "y \<in> set (sd_backorder db)" "y' = withdraw_row bid n st y" by (auto simp: db')
    show "backorder_checks y' \<and> bo_Quantity y' \<le> MaxInt64 \<and> claim_told db y'"
    proof (cases "bo_ID y = bid")
      case True
      then have "y = c" using same_backorder_id [OF rows y(1) c(1)] c(2) by simp
      then show ?thesis using y d \<open>d = c\<close> c rows by (auto simp: rows_ok_def withdraw_row_def claim_told_def)
    next
      case False
      then show ?thesis using y b rows by (auto simp: withdraw_row_def balanced_def books_def rows_ok_def)
    qed
  qed (simp_all add: db')
qed

lemma settle_loop_keeps:
  assumes "balanced db" "settle_loop flt bought window claims s waiting db = Inr (x, db')"
    and "\<And>c. c \<in> set claims \<Longrightarrow> c \<in> set (sd_backorder db)" "distinct (map bo_ID claims)"
  shows "balanced db'"
  using assms
proof (induction flt bought window claims s waiting arbitrary: db rule: settle_loop.induct)
  case (2 flt bought window c cs s waiting)
  from 2(3) obtain c' db1 where c': "settle_claim flt bought window c db = Inr (c', db1)"
    and rest: "settle_loop flt bought window cs (settled c' s)
      (if bo_Status c' = BackorderWaiting then waiting @ [c'] else waiting) db1 = Inr (x, db')"
    by auto
  have c: "c \<in> set (sd_backorder db)" using 2(4) by simp
  have "balanced db1 \<and> (\<forall>d \<in> set cs. d \<in> set (sd_backorder db1))"
  proof (cases "db1 = db")
    case True
    then show ?thesis using 2(2,4) by simp
  next
    case False
    then obtain n st where wd: "WithdrawBackorder (inside (bo_ID c) flt) (bo_ID c) n st db = Inr (c', db1)" "st \<noteq> BackorderFilled"
      using c' by (auto simp: settle_claim_def Let_def split: if_splits)
    note w = withdraw_keeps [OF 2(2) wd(1) c refl wd(2)]
    have "d \<in> set (sd_backorder db1)" if "d \<in> set cs" for d
    proof -
      have "bo_ID d \<noteq> bo_ID c" using 2(5) that by (metis distinct.simps(2) image_eqI list.map(2) set_map)
      then have "withdraw_row (bo_ID c) n st d = d" by (simp add: withdraw_row_def)
      then show ?thesis using 2(4) [of d] that by (auto simp: w(3) intro!: image_eqI [where x = d])
    qed
    then show ?thesis using w(1) by blast
  qed
  then show ?case using 2(1) [OF _ rest] 2(5) by simp
qed simp

lemma settle_keeps: "keeps balanced (settle_tx flt line bought window)"
proof (rule keepsI)
  fix db x db'
  assume b: "balanced db" and run: "settle_tx flt line bought window db = Inr (x, db')"
  have rows: "rows_ok db" using b by (rule balanced_rows)
  let ?claims = "sort_key bo_Seq (filter (\<lambda>b. bo_OrderLineItemID b = line) (sd_backorder db))"
  have "mset (map bo_ID ?claims) = mset (map bo_ID (filter (\<lambda>b. bo_OrderLineItemID b = line) (sd_backorder db)))"
    by simp
  moreover have "distinct (map bo_ID (filter (\<lambda>b. bo_OrderLineItemID b = line) (sd_backorder db)))"
    using rows by (intro distinct_map_filter) (simp add: rows_ok_def)
  ultimately have ids: "distinct (map bo_ID ?claims)" by (metis mset_eq_imp_distinct_iff)
  from run have loop: "settle_loop flt bought window ?claims no_settlement [] db = Inr (x, db')"
    by (simp add: settle_tx_def LockBackordersOfLine_def q_LockBackordersOfLine_def)
  show "balanced db'"
    by (rule settle_loop_keeps [OF b loop _ ids]) simp
qed

lemma balanced_receipts:
  assumes b: "books k 0 p db" and same: "sd_level db' = sd_level db" "sd_reservation db' = sd_reservation db"
    "sd_movement db' = sd_movement db" "sd_backorder db' = sd_backorder db" "sd_location db' = sd_location db" "sd_item db' = sd_item db"
    and ids: "distinct (map sup_ID (sd_receipt db'))" "set (map sup_ID (sd_receipt db)) \<subseteq> set (map sup_ID (sd_receipt db'))"
    and "\<And>r. r \<in> set (sd_receipt db') \<Longrightarrow> sup_ID r \<noteq> [] \<and> receipt_told None db r"
    and cl: "closed_empty db'"
  shows "balanced db'"
proof -
  have rows: "rows_ok db" using b by (simp add: books_def)
  then have rows': "rows_ok db'" using same ids(1) assms(10) by (simp add: rows_ok_def live_item_def item_there_def)
  have "\<And>k. stocked_at db' k = stocked_at db k" "\<And>k. reserved_at db' k = reserved_at db k"
    "\<And>k. promised_at db' k = promised_at db k" "\<And>k. moved_at db' k = moved_at db k"
    "\<And>r. promise_told db' r = promise_told db r" "\<And>r. receipt_told None db' r = receipt_told None db r"
    "\<And>c. claim_told db' c = claim_told db c"
    using same by (simp_all add: stocked_at_def reserved_at_def promised_at_def moved_at_def promise_told_def
        receipt_told_def claim_told_def naming_def receiving_def)
  moreover have "\<forall>m \<in> set (sd_movement db). mv_Reason m = MovementSupplierReceipt \<longrightarrow> mv_Reference m \<in> sup_ID ` set (sd_receipt db')"
    using b ids(2) by (auto simp: books_def)
  ultimately show ?thesis
    using b same rows' assms(10) cl unfolding balanced_def books_def promises_add_up_def movements_add_up_def by simp
qed

lemma record_receipt_keeps: "keeps balanced (record_receipt_tx flt ids req e)"
proof (rule keepsI)
  fix db x db'
  assume b: "balanced db" and run: "record_receipt_tx flt ids req e db = Inr (x, db')"
  have rows: "rows_ok db" using b by (rule balanced_rows)
  have b0: "books ([], []) 0 None db" using b by (simp add: balanced_def)
  from run have l: "open_at db (sup_LocationID x)" and db': "db' = db\<lparr> sd_drawn := Suc (sd_drawn db), sd_receipt := sd_receipt db @ [x] \<rparr>"
    and x: "sup_ID x = SupplierReceiptIDPrefix @ ids (sd_drawn db)" "sup_Status x = SupplierReceiptExpected"
    and new: "the_receipt db (sup_ID x) = None"
    using open_location_at [OF _ _ rows]
    by (auto simp: record_receipt_tx_def draw_def CreateSupplierReceipt_def q_CreateSupplierReceipt_def Let_def the_receipt_def)
  have fresh: "sup_ID x \<notin> sup_ID ` set (sd_receipt db)" using new by (auto simp: the_receipt_def find_None_iff)
  have told: "receipt_told None db x"
  proof -
    have "receiving db (sup_ID x) = []"
    proof -
      have "mv_Reference m \<in> sup_ID ` set (sd_receipt db)"
        if "m \<in> set (sd_movement db)" "mv_Reason m = MovementSupplierReceipt" for m
        using b0 that by (simp add: books_def)
      then show ?thesis using fresh unfolding receiving_def filter_empty_conv by metis
    qed
    then show ?thesis using x by (simp add: receipt_told_def)
  qed
  show "balanced db'"
  proof (rule balanced_receipts [OF b0])
    show "distinct (map sup_ID (sd_receipt db'))" using rows fresh by (simp add: db' rows_ok_def)
    show "closed_empty db'"
      using b0 l by (auto simp: books_def closed_empty_def db' open_at_def)
    fix r
    assume "r \<in> set (sd_receipt db')"
    then show "sup_ID r \<noteq> [] \<and> receipt_told None db r"
      using b0 told x rows by (auto simp: db' books_def rows_ok_def)
  qed (auto simp: db')
qed

lemma GetSupplierReceipt_Inr [simp]:
  "GetSupplierReceipt flt rid db = Inr (r, db') \<longleftrightarrow> flt ''GetSupplierReceipt'' = None \<and> the_receipt db rid = Some r \<and> db' = db"
  by (auto simp: GetSupplierReceipt_def q_GetSupplierReceipt_def)

lemma LockSupplierReceipt_Inr [simp]:
  "LockSupplierReceipt flt rid db = Inr (r, db') \<longleftrightarrow> flt ''LockSupplierReceipt'' = None \<and> the_receipt db rid = Some r \<and> db' = db"
  by (auto simp: LockSupplierReceipt_def q_LockSupplierReceipt_def)

lemma the_receipt_in: "the_receipt db rid = Some r \<Longrightarrow> r \<in> set (sd_receipt db) \<and> sup_ID r = rid"
  by (auto simp: the_receipt_def dest: find_found)

lemma cancel_receipt_keeps: "keeps balanced (cancel_receipt_tx flt now rid)"
proof (rule keepsI)
  fix db x db'
  assume b: "balanced db" and run: "cancel_receipt_tx flt now rid db = Inr (x, db')"
  have rows: "rows_ok db" using b by (rule balanced_rows)
  have b0: "books ([], []) 0 None db" using b by (simp add: balanced_def)
  from run consider "db' = db" | r where "r \<in> set (sd_receipt db)" "sup_ID r = rid"
      "db' = db\<lparr> sd_receipt := map (cancel_row rid now) (sd_receipt db) \<rparr>"
    by (auto simp: cancel_receipt_tx_def repo_CancelSupplierReceipt_def q_CancelSupplierReceipt_def
        dest!: the_receipt_in split: if_splits)
  then show "balanced db'"
  proof cases
    case (2 r)
    have ids: "map sup_ID (sd_receipt db') = map sup_ID (sd_receipt db)" by (simp add: 2 cancel_row_def)
    show ?thesis
    proof (rule balanced_receipts [OF b0])
      show "distinct (map sup_ID (sd_receipt db'))" using rows unfolding ids by (simp add: rows_ok_def)
      show "set (map sup_ID (sd_receipt db)) \<subseteq> set (map sup_ID (sd_receipt db'))" unfolding ids by simp
      show "closed_empty db'" using b0 by (auto simp: books_def closed_empty_def 2 cancel_row_def)
      fix r'
      assume "r' \<in> set (sd_receipt db')"
      then obtain y where y: "y \<in> set (sd_receipt db)" "r' = cancel_row rid now y" by (auto simp: 2)
      then have "receipt_told None db y" "sup_ID y \<noteq> []" using b0 rows by (simp_all add: books_def rows_ok_def)
      then show "sup_ID r' \<noteq> [] \<and> receipt_told None db r'"
        using y by (auto simp: receipt_told_def cancel_row_def)
    qed (simp_all add: 2)
  qed (use b in simp)
qed

text \<open>The receipts of an earlier moment are still there, of the same item and place.\<close>

definition receipts_grew :: "stock_db \<Rightarrow> stock_db \<Rightarrow> bool" where
  "receipts_grew db0 db \<longleftrightarrow>
    (\<forall>r \<in> set (sd_receipt db0). \<exists>r' \<in> set (sd_receipt db). sup_ID r' = sup_ID r \<and>
      sup_InventoryItemID r' = sup_InventoryItemID r \<and> sup_LocationID r' = sup_LocationID r)"

lemma receipts_grew_refl [simp]: "receipts_grew db db"
  by (auto simp: receipts_grew_def)

lemma receipts_grew_trans: "receipts_grew a b \<Longrightarrow> receipts_grew b c \<Longrightarrow> receipts_grew a c"
  unfolding receipts_grew_def by metis

lemma books_receive_stock:
  assumes run: "receive_stock flt ids now i r current n db = Inr (v, db')"
    and b: "balanced db" and r: "r \<in> set (sd_receipt db)" "sup_Status r = SupplierReceiptExpected" "sup_InventoryItemID r = i"
    and cur: "current = None \<or> current = live_level db i (sup_LocationID r)"
    and live: "live_item db i \<noteq> None" and l: "open_at db (sup_LocationID r)" and n: "0 < n" "is_i64 n"
  shows "books ([], []) 0 (Some (sup_ID r)) db'"
proof -
  have rows: "rows_ok db" using b by (rule balanced_rows)
  have b0: "books ([], []) 0 None db" using b by (simp add: balanced_def)
  have mp: "may_pend db (i, sup_LocationID r) MovementSupplierReceipt (sup_ID r)"
    using r by (auto simp: may_pend_def)
  show ?thesis
  proof (cases current)
    case None
    with run have "openLevel flt ids now i (sup_LocationID r) n MovementSupplierReceipt (sup_ID r) db = Inr (v, db')"
      by (simp add: receive_stock_def)
    from books_write_open [OF this b0 live _ _ l] show ?thesis using n mp by (simp add: is_i64_def)
  next
    case (Some w)
    then have w': "live_level db i (sup_LocationID r) = Some w" using cur by auto
    note w = locked_level [OF w' rows]
    from run Some obtain s where s: "addQuantity (lv_StockedQuantity w) n = Inr s"
      and wq: "writeQuantities flt ids now w s (lv_ReservedQuantity w) MovementSupplierReceipt [] (sup_ID r) [] db = Inr (v, db')"
      by (auto simp: receive_stock_def)
    have "s \<noteq> lv_StockedQuantity w" using added_quantity [OF s w(2) n(2)] n by simp
    then show ?thesis
      using books_write_count [OF wq b0 w(1) added_quantity(2) [OF s w(2) n(2)]] l mp w by (simp add: level_key_def)
  qed
qed

lemma find_is_filter: "filter P xs = [x] \<Longrightarrow> find P xs = Some x"
  by (induction xs) (auto split: if_splits)

lemma receive_row_keeps:
  assumes b: "books k 0 (Some rid) db"
  shows "balanced (db\<lparr> sd_receipt := map (receive_row db rid) (sd_receipt db) \<rparr>)" (is "balanced ?db")
proof -
  have rows: "rows_ok db" using b by (simp add: books_def)
  have idr: "sup_ID (receive_row db rid r) = sup_ID r" "sup_LocationID (receive_row db rid r) = sup_LocationID r" for r
    by (simp_all add: receive_row_def split: option.split)
  have ids: "map sup_ID (sd_receipt ?db) = map sup_ID (sd_receipt db)" by (simp add: idr)
  show ?thesis
  proof (rule balanced_receipts [OF b])
    show "distinct (map sup_ID (sd_receipt ?db))" using rows unfolding ids by (simp add: rows_ok_def)
    show "set (map sup_ID (sd_receipt db)) \<subseteq> set (map sup_ID (sd_receipt ?db))" unfolding ids by simp
    show "closed_empty ?db"
      using b by (auto simp: books_def closed_empty_def receive_row_def split: option.split)
    fix r'
    assume "r' \<in> set (sd_receipt ?db)"
    then obtain r where r: "r \<in> set (sd_receipt db)" "r' = receive_row db rid r" by auto
    have told: "receipt_told (Some rid) db r" "sup_ID r \<noteq> []" using b r(1) rows by (simp_all add: books_def rows_ok_def)
    show "sup_ID r' \<noteq> [] \<and> receipt_told None db r'"
    proof (cases "sup_ID r = rid")
      case True
      then obtain m where m: "receiving db rid = [m]" "movement_key m = (sup_InventoryItemID r, sup_LocationID r)" "0 < mv_Delta m"
          "sup_Status r \<in> {SupplierReceiptExpected, SupplierReceiptReceived}"
          "sup_Status r = SupplierReceiptReceived \<longrightarrow> sup_ReceivedQuantity r = mv_Delta m"
        using told by (auto simp: receipt_told_def)
      have "receipt_movement db rid = Some m"
        using find_is_filter [OF m(1) [unfolded receiving_def]] by (simp add: receipt_movement_def)
      then show ?thesis using True told m r by (auto simp: receive_row_def receipt_told_def)
    next
      case False
      then have "r' = r" using r by (simp add: receive_row_def split: option.split)
      then show ?thesis using False told by (auto simp: receipt_told_def)
    qed
  qed simp_all
qed

lemma receive_keeps:
  assumes b: "balanced db" and run: "receive_tx flt ids now i seen rid n db = Inr (x, db')"
    and seen: "supplierReceiptOf flt i rid before = Inr seen" "receipts_grew before db" and n: "0 < n" "is_i64 n"
  shows "balanced db'"
proof -
  have rows: "rows_ok db" using b by (rule balanced_rows)
  from seen(1) have s: "seen \<in> set (sd_receipt before)" "sup_ID seen = rid" "sup_InventoryItemID seen = i"
    by (auto simp: supplierReceiptOf_def dest!: the_receipt_in split: sum.splits if_splits)
  then obtain r where r: "r \<in> set (sd_receipt db)" "sup_ID r = rid" "sup_InventoryItemID r = i" "sup_LocationID r = sup_LocationID seen"
    using seen(2) unfolding receipts_grew_def by metis
  from run have l: "open_at db (sup_LocationID seen)" and live: "live_item db i \<noteq> None"
    by (auto simp: receive_tx_def open_location_at [OF _ _ rows])
  from run have "receive_locked flt ids now i rid n None db = Inr (x, db') \<or>
      (\<exists>v. live_level db i (sup_LocationID seen) = Some v \<and> receive_locked flt ids now i rid n (Some v) db = Inr (x, db'))"
    by (auto simp: receive_tx_def attempt_Inr split: if_splits)
  then obtain current where cur: "current = None \<or> current = live_level db i (sup_LocationID seen)"
    and lock: "receive_locked flt ids now i rid n current db = Inr (x, db')"
    by metis
  from lock obtain y where y: "the_receipt db rid = Some y" by (auto simp: receive_locked_def)
  have "y = r" using the_receipt_in [OF y] r same_receipt_id [OF rows] by blast
  show ?thesis
  proof (cases "sup_Status r = SupplierReceiptExpected")
    case True
    with lock y \<open>y = r\<close> obtain v db1 where
      st: "receive_stock flt ids now i r current n db = Inr (v, db1)" and
      db': "db' = db1\<lparr> sd_receipt := map (receive_row db1 rid) (sd_receipt db1) \<rparr>"
      using r(2) by (auto simp: receive_locked_def repo_ReceiveSupplierReceipt_def q_ReceiveSupplierReceipt_def split: if_splits)
    have "books ([], []) 0 (Some rid) db1"
      using books_receive_stock [OF st b r(1) True r(3) _ live _ n] cur l r by simp
    then show ?thesis unfolding db' by (rule receive_row_keeps)
  next
    case False
    then show ?thesis using lock y \<open>y = r\<close> b by (auto simp: receive_locked_def)
  qed
qed

lemma balanced_same:
  assumes b: "balanced db" and same: "sd_level db' = sd_level db" "sd_reservation db' = sd_reservation db"
    "sd_movement db' = sd_movement db" "sd_backorder db' = sd_backorder db" "sd_receipt db' = sd_receipt db"
    and new: "rows_ok db'" "closed_empty db'"
  shows "balanced db'"
proof -
  have "\<And>k. stocked_at db' k = stocked_at db k" "\<And>k. reserved_at db' k = reserved_at db k"
    "\<And>k. promised_at db' k = promised_at db k" "\<And>k. moved_at db' k = moved_at db k"
    "\<And>r. promise_told db' r = promise_told db r" "\<And>r. receipt_told None db' r = receipt_told None db r"
    "\<And>c. claim_told db' c = claim_told db c"
    using same by (simp_all add: stocked_at_def reserved_at_def promised_at_def moved_at_def promise_told_def
        receipt_told_def claim_told_def naming_def receiving_def)
  then show ?thesis
    using b same new unfolding balanced_def books_def promises_add_up_def movements_add_up_def by simp
qed

lemma close_keeps: "keeps balanced (close_tx flt now lid)"
proof (rule keepsI)
  fix db x db'
  assume b: "balanced db" and run: "close_tx flt now lid db = Inr (x, db')"
  have rows: "rows_ok db" using b by (rule balanced_rows)
  have b0: "books ([], []) 0 None db" using b by (simp add: balanced_def)
  from run consider "db' = db" | "sum_list (map lv_StockedQuantity (live_at db lid)) \<le> 0"
      "\<forall>r \<in> set (sd_receipt db). sup_LocationID r = lid \<longrightarrow> sup_Status r \<noteq> SupplierReceiptExpected"
      "db' = db\<lparr> sd_location := map (stamp_closed lid now) (sd_location db) \<rparr>"
    by (auto simp: close_tx_def LockStockLocation_def q_LockStockLocation_def StockHeldAtLocation_def
        q_StockHeldAtLocation_def CountActiveReservationsAtLocation_def q_CountActiveReservationsByLocation_def
        CountExpectedSupplierReceiptsAtLocation_def q_CountExpectedSupplierReceiptsAtLocation_def
        repo_CloseStockLocation_def q_CloseStockLocation_def filter_empty_conv
        split: if_splits sum.splits option.splits)
  then show "balanced db'"
  proof cases
    case 2
    have pos: "0 \<le> lv_StockedQuantity v" if "v \<in> set (live_at db lid)" for v
      using that rows by (auto simp: live_at_def rows_ok_def level_ok_def)
    then have "sum_list (map lv_StockedQuantity (live_at db lid)) = 0"
      using 2(1) sum_list_nonneg [of "map lv_StockedQuantity (live_at db lid)"] by fastforce
    then have zero: "lv_StockedQuantity v = 0" if "v \<in> set (live_at db lid)" for v
      using that pos sum_list_nonneg_eq_0_iff [of "map lv_StockedQuantity (live_at db lid)"] by auto
    have ids: "map slo_ID (sd_location db') = map slo_ID (sd_location db)"
      by (simp add: 2 stamp_closed_def)
    have "closed_empty db'"
      unfolding closed_empty_def
    proof (intro ballI impI)
      fix l'
      assume l': "l' \<in> set (sd_location db')" "location_Closed l'"
      then obtain l where l: "l \<in> set (sd_location db)" "l' = stamp_closed lid now l" by (auto simp: 2)
      show "(\<forall>x \<in> set (sd_level db'). lv_LocationID (lw_level x) = slo_ID l' \<and> \<not> lw_deleted x \<longrightarrow> lv_StockedQuantity (lw_level x) = 0) \<and>
          (\<forall>r \<in> set (sd_receipt db'). sup_LocationID r = slo_ID l' \<longrightarrow> sup_Status r \<noteq> SupplierReceiptExpected)"
      proof (cases "slo_ID l = lid")
        case True
        then show ?thesis using l 2(2) zero by (auto simp: 2(3) stamp_closed_def live_at_def)
      next
        case False
        then have "l' = l" using l by (simp add: stamp_closed_def)
        then show ?thesis using l'(2) l(1) b0 by (auto simp: books_def closed_empty_def 2(3))
      qed
    qed
    moreover have "rows_ok db'"
    proof -
      have "distinct (map slo_ID (sd_location db'))" using rows unfolding ids by (simp add: rows_ok_def)
      then show ?thesis using rows by (simp add: rows_ok_def live_item_def item_there_def 2)
    qed
    ultimately show ?thesis
      by (intro balanced_same [OF b]) (simp_all add: 2)
  qed (use b in simp)
qed

lemma counts_Inr [simp]:
  "CountActiveReservations flt i db = Inr (n, db') \<longleftrightarrow> flt ''CountActiveReservationsByItem'' = None \<and> db' = db \<and>
    n = length (filter (\<lambda>r. rv_InventoryItemID r = i \<and> rv_Status r = ReservationActive) (sd_reservation db))"
  "CountWaitingBackorders flt i db = Inr (n, db') \<longleftrightarrow> flt ''CountWaitingBackorders'' = None \<and> db' = db \<and>
    n = length (filter (\<lambda>b. bo_InventoryItemID b = i \<and> bo_Status b = BackorderWaiting) (sd_backorder db))"
  "CountExpectedSupplierReceipts flt i db = Inr (n, db') \<longleftrightarrow> flt ''CountExpectedSupplierReceipts'' = None \<and> db' = db \<and>
    n = length (filter (\<lambda>r. sup_InventoryItemID r = i \<and> sup_Status r = SupplierReceiptExpected) (sd_receipt db))"
  by (auto simp: CountActiveReservations_def q_CountActiveReservationsByItem_def CountWaitingBackorders_def
      q_CountWaitingBackorders_def CountExpectedSupplierReceipts_def q_CountExpectedSupplierReceipts_def)

lemma soft_deletes_Inr [simp]:
  "repo_SoftDeleteInventoryLevelsByItem flt i db = Inr (u, db') \<longleftrightarrow> flt ''SoftDeleteInventoryLevelsByItem'' = None \<and>
    db' = db\<lparr> sd_level := map (delete_level i) (sd_level db) \<rparr>"
  "repo_SoftDeleteInventoryItem flt i db = Inr (u, db') \<longleftrightarrow> flt ''SoftDeleteInventoryItem'' = None \<and>
    filter (\<lambda>r. ivi_ID (ir_item r) = i \<and> \<not> ir_deleted r) (sd_item db) \<noteq> [] \<and>
    db' = db\<lparr> sd_item := map (delete_item i) (sd_item db) \<rparr>"
  by (auto simp: repo_SoftDeleteInventoryLevelsByItem_def q_SoftDeleteInventoryLevelsByItem_def
      repo_SoftDeleteInventoryItem_def q_SoftDeleteInventoryItem_def)

lemma sum_of_zeros: "(\<And>x. x \<in> set xs \<Longrightarrow> f x = (0 :: int)) \<Longrightarrow> sum_list (map f xs) = 0"
  by (induction xs) simp_all

lemma delete_keeps: "keeps balanced (delete_item_tx flt i)"
proof (rule keepsI)
  fix db u db'
  assume b: "balanced db" and run: "delete_item_tx flt i db = Inr (u, db')"
  have rows: "rows_ok db" using b by (rule balanced_rows)
  have b0: "books ([], []) 0 None db" using b by (simp add: balanced_def)
  from run have db': "db' = db\<lparr> sd_level := map (delete_level i) (sd_level db), sd_item := map (delete_item i) (sd_item db) \<rparr>"
    and none: "\<forall>r \<in> set (sd_reservation db). rv_InventoryItemID r = i \<longrightarrow> rv_Status r \<noteq> ReservationActive"
    by (auto simp: delete_item_tx_def filter_empty_conv split: if_splits)
  have live: "live_item db' j = (if j = i then None else live_item db j)" for j
  proof (cases "j = i")
    case True
    have "find (\<lambda>r. ivi_ID (ir_item r) = i \<and> \<not> ir_deleted r) (map (delete_item i) xs) = None" for xs
      by (induction xs) (simp_all add: delete_item_def)
    then show ?thesis using True by (simp add: live_item_def db')
  next
    case False
    have same: "delete_item i r = r" if "ivi_ID (ir_item r) = j" for r
      using that False by (simp add: delete_item_def)
    have "(\<lambda>r. ivi_ID (ir_item r) = j \<and> \<not> ir_deleted r) \<circ> delete_item i = (\<lambda>r. ivi_ID (ir_item r) = j \<and> \<not> ir_deleted r)"
      using False by (auto simp: delete_item_def fun_eq_iff)
    then have "find (\<lambda>r. ivi_ID (ir_item r) = j \<and> \<not> ir_deleted r) (sd_item db') =
        map_option (delete_item i) (find (\<lambda>r. ivi_ID (ir_item r) = j \<and> \<not> ir_deleted r) (sd_item db))"
      by (simp add: db' find_map)
    also have "\<dots> = find (\<lambda>r. ivi_ID (ir_item r) = j \<and> \<not> ir_deleted r) (sd_item db)"
      using same by (cases "find (\<lambda>r. ivi_ID (ir_item r) = j \<and> \<not> ir_deleted r) (sd_item db)") (auto dest: find_found)
    finally show ?thesis using False by (simp add: live_item_def)
  qed
  have lev: "lw_level (delete_level i x) = lw_level x" for x by (simp add: delete_level_def)
  have "rows_ok db'"
  proof -
    have keys: "map (\<lambda>x. ivi_ID (ir_item x)) (sd_item db') = map (\<lambda>x. ivi_ID (ir_item x)) (sd_item db)"
      by (simp add: db' delete_item_def)
    have items: "distinct (map (\<lambda>x. ivi_ID (ir_item x)) (sd_item db'))"
      using rows unfolding keys by (simp add: rows_ok_def)
    have keys: "map (\<lambda>x. lv_ID (lw_level x)) (sd_level db') = map (\<lambda>x. lv_ID (lw_level x)) (sd_level db)"
      "map (\<lambda>x. level_key (lw_level x)) (sd_level db') = map (\<lambda>x. level_key (lw_level x)) (sd_level db)"
      by (simp_all add: db' lev)
    have levels: "distinct (map (\<lambda>x. lv_ID (lw_level x)) (sd_level db'))"
      "distinct (map (\<lambda>x. level_key (lw_level x)) (sd_level db'))"
      using rows unfolding keys by (simp_all add: rows_ok_def)
    have there: "item_there db' j = item_there db j" for j
    proof -
      have "list_ex (\<lambda>r. ivi_ID (ir_item r) = j) (map (delete_item i) xs) = list_ex (\<lambda>r. ivi_ID (ir_item r) = j) xs" for xs
        by (induction xs) (simp_all add: delete_item_def)
      then show ?thesis by (simp add: item_there_def db')
    qed
    have each: "\<forall>x \<in> set (sd_level db'). level_ok (lw_level x) \<and>
        lw_deleted x = (live_item db' (lv_InventoryItemID (lw_level x)) = None)"
    proof
      fix x
      assume "x \<in> set (sd_level db')"
      then obtain y where y: "y \<in> set (sd_level db)" "x = delete_level i y" by (auto simp: db')
      then have "level_ok (lw_level y)" "lw_deleted y = (live_item db (lv_InventoryItemID (lw_level y)) = None)"
        using rows by (simp_all add: rows_ok_def)
      then show "level_ok (lw_level x) \<and> lw_deleted x = (live_item db' (lv_InventoryItemID (lw_level x)) = None)"
        using y(2) by (simp add: lev live) (simp add: delete_level_def)
    qed
    have "\<forall>x \<in> set (sd_level db'). item_there db (lv_InventoryItemID (lw_level x))"
      using rows by (simp add: rows_ok_def db' lev)
    then have "\<forall>x \<in> set (sd_level db'). item_there db' (lv_InventoryItemID (lw_level x))"
      unfolding there .
    then show ?thesis
      using levels items each rows unfolding rows_ok_def by (simp only: db' stock_db.simps) simp
  qed
  moreover have "promises_add_up ([], []) 0 db'"
  proof -
    have "reserved_at db' (j, l) = promised_at db' (j, l)" for j l
    proof (cases "j = i")
      case True
      have "promised_at db (i, l) = 0"
        unfolding promised_at_def using none by (intro sum_of_zeros) (auto simp: reservation_key_def)
      then show ?thesis
        using True by (simp add: promised_at_def reserved_at_def db' lev comp_def delete_level_def level_key_def)
          (intro sum_of_zeros, auto)
    next
      case False
      have "reserved_at db' (j, l) = reserved_at db (j, l)"
        using False by (auto simp: reserved_at_def db' lev delete_level_def level_key_def intro!: arg_cong [where f = sum_list] map_cong)
      moreover have "promised_at db' (j, l) = promised_at db (j, l)" by (simp add: promised_at_def db')
      ultimately show ?thesis using b0 by (simp add: books_def promises_add_up_def)
    qed
    then show ?thesis by (simp add: promises_add_up_def)
  qed
  moreover have "closed_empty db'"
    using b0 by (auto simp: books_def closed_empty_def db' lev delete_level_def)
  moreover have "\<And>k. stocked_at db' k = stocked_at db k" "\<And>k. moved_at db' k = moved_at db k"
    "\<And>r. promise_told db' r = promise_told db r" "\<And>r. receipt_told None db' r = receipt_told None db r"
    "\<And>c. claim_told db' c = claim_told db c"
    by (simp_all add: stocked_at_def moved_at_def promise_told_def receipt_told_def claim_told_def naming_def receiving_def db' lev comp_def cong: if_cong)
  ultimately show "balanced db'"
    using b0 unfolding balanced_def books_def movements_add_up_def by (simp add: db')
qed

lemma create_location_keeps:
  assumes b: "balanced db" and run: "CreateStockLocation flt ids req db = (r, db')"
  shows "balanced db'"
proof (cases "db' = db")
  case False
  have rows: "rows_ok db" using b by (rule balanced_rows)
  have b0: "books ([], []) 0 None db" using b by (simp add: balanced_def)
  from run False have "\<exists>l. r = Inr l \<and> slo_ClosedAt l = None \<and> \<not> list_ex (\<lambda>x. slo_ID x = slo_ID l) (sd_location db) \<and>
      db' = db\<lparr> sd_drawn := Suc (sd_drawn db), sd_location := sd_location db @ [l] \<rparr>"
    by (auto simp: CreateStockLocation_def draw_def repo_CreateStockLocation_def q_CreateStockLocation_def Let_def
        split: option.splits sum.splits prod.splits)
  then obtain l where l: "slo_ClosedAt l = None" "\<not> list_ex (\<lambda>x. slo_ID x = slo_ID l) (sd_location db)"
    and db': "db' = db\<lparr> sd_drawn := Suc (sd_drawn db), sd_location := sd_location db @ [l] \<rparr>"
    by blast
  show ?thesis
  proof (rule balanced_same [OF b])
    show "rows_ok db'" using rows l by (auto simp: rows_ok_def db' live_item_def item_there_def list_ex_iff)
    show "closed_empty db'" using b0 l by (auto simp: books_def closed_empty_def db' location_Closed_def)
  qed (simp_all add: db')
qed (use b in simp)

lemma create_item_keeps:
  assumes b: "balanced db" and run: "CreateInventoryItem flt ids req db = (r, db')"
  shows "balanced db'"
proof (cases "db' = db")
  case False
  have rows: "rows_ok db" using b by (rule balanced_rows)
  have b0: "books ([], []) 0 None db" using b by (simp add: balanced_def)
  from run False have "\<exists>x. r = Inr x \<and> \<not> list_ex (\<lambda>r. ivi_ID (ir_item r) = ivi_ID x) (sd_item db) \<and>
      db' = db\<lparr> sd_drawn := Suc (sd_drawn db), sd_item := sd_item db @ [\<lparr> ir_item = x, ir_deleted = False \<rparr>] \<rparr>"
    by (auto simp: CreateInventoryItem_def draw_def repo_CreateInventoryItem_def q_CreateInventoryItem_def Let_def
        split: option.splits sum.splits prod.splits)
  then obtain x where x: "\<not> list_ex (\<lambda>r. ivi_ID (ir_item r) = ivi_ID x) (sd_item db)"
    and db': "db' = db\<lparr> sd_drawn := Suc (sd_drawn db), sd_item := sd_item db @ [\<lparr> ir_item = x, ir_deleted = False \<rparr>] \<rparr>"
    by blast
  have live: "live_item db' j = live_item db j \<and> item_there db' j" if "item_there db j" for j
  proof -
    have "ivi_ID x \<noteq> j" using x that by (auto simp: item_there_def list_ex_iff)
    moreover have "find P (xs @ [y]) = (case find P xs of None \<Rightarrow> if P y then Some y else None | Some z \<Rightarrow> Some z)" for P xs and y :: item_row
      by (induction xs) auto
    ultimately show ?thesis using that by (simp add: live_item_def db' item_there_def split: option.split)
  qed
  show ?thesis
  proof (rule balanced_same [OF b])
    show "rows_ok db'" using rows x live by (auto simp: rows_ok_def db' list_ex_iff)
    show "closed_empty db'" using b0 by (auto simp: books_def closed_empty_def db')
  qed (simp_all add: db')
qed (use b in simp)

end
