(* ===== verification/StockSteps.thy ===== *)
theory StockSteps
  imports StockReach
begin

text \<open>
  The states the inventory tables reach. A step is a call of the service with any faults, ids and
  moment. A call that reads before its transaction reads the tables of any earlier moment, so a state
  is reached together with its past.
\<close>

section \<open>Steps\<close>

definition empty_stock :: stock_db where
  "empty_stock = \<lparr> sd_location = [], sd_item = [], sd_level = [], sd_reservation = [], sd_movement = [],
    sd_backorder = [], sd_receipt = [], sd_seq = 0, sd_drawn = 0 \<rparr>"

text \<open>
  The transactions of \<open>SettleBackorder\<close> are steps of their own: another call may commit between them.
\<close>

inductive stock_step :: "stock_db \<Rightarrow> stock_db \<Rightarrow> stock_db \<Rightarrow> bool" where
  set_level: "SetInventoryLevel flt ids now i l s db = (r, db') \<Longrightarrow> is_i64 s \<Longrightarrow> stock_step before db db'"
| set_level_from: "SetInventoryLevelFrom flt ids now i l seen s db = (r, db') \<Longrightarrow> is_i64 s \<Longrightarrow> stock_step before db db'"
| adjusts: "AdjustInventory flt ids now i l d db = (r, db') \<Longrightarrow> is_i64 d \<Longrightarrow> stock_step before db db'"
| restock: "RestockInventory flt ids now i l q db = (r, db') \<Longrightarrow> is_i64 q \<Longrightarrow> stock_step before db db'"
| reserve: "Reserve flt ids now rreq db = (rr, db') \<Longrightarrow> is_i64 (rsv_Quantity rreq) \<Longrightarrow> stock_step before db db'"
| release: "ReleaseReservation flt ids now rid db = (u, db') \<Longrightarrow> stock_step before db db'"
| confirm: "ConfirmReservation flt ids now rid order db = (u, db') \<Longrightarrow> stock_step before db db'"
| return_canceled: "ReturnCanceledInventory flt ids now i l line target ref db = (r, db') \<Longrightarrow> is_i64 target \<Longrightarrow>
    stock_step before db db'"
| recall: "RecallReplacementUnits flt ids now rid db = (r, db') \<Longrightarrow> stock_step before db db'"
| claim: "ClaimBackorder flt ids creq db = (b, db') \<Longrightarrow> is_i64 (cin_Quantity creq) \<Longrightarrow> stock_step before db db'"
| settle: "stock_WithTx flt (settle_tx flt line bought window) db = (s, db') \<Longrightarrow> stock_step before db db'"
| drain: "stock_WithTx flt (drain_tx flt ids now waiting l) db = (f, db') \<Longrightarrow> stock_step before db db'"
| record_receipt: "RecordSupplierReceipt flt ids sreq db = (p, db') \<Longrightarrow> stock_step before db db'"
| receive: "ReceiveSupplierReceipt flt ids now i rid q before db = (pv, db') \<Longrightarrow> is_i64 q \<Longrightarrow> stock_step before db db'"
| cancel_receipt: "CancelSupplierReceipt flt now i rid before db = (p, db') \<Longrightarrow> stock_step before db db'"
| create_location: "CreateStockLocation flt ids lreq db = (loc, db') \<Longrightarrow> stock_step before db db'"
| close_location: "CloseStockLocation flt now l db = (loc, db') \<Longrightarrow> stock_step before db db'"
| create_item: "CreateInventoryItem flt ids ireq db = (itm, db') \<Longrightarrow> stock_step before db db'"
| delete_item: "DeleteInventoryItem flt i db = (u, db') \<Longrightarrow> stock_step before db db'"

text \<open>The states the tables have had, the newest first.\<close>

inductive stock_history :: "stock_db list \<Rightarrow> bool" where
  start: "stock_history [empty_stock]"
| called: "stock_history (db # past) \<Longrightarrow> before \<in> set (db # past) \<Longrightarrow> stock_step before db db' \<Longrightarrow>
    stock_history (db' # db # past)"

definition stock_reached :: "stock_db \<Rightarrow> bool" where
  "stock_reached db \<longleftrightarrow> (\<exists>past. stock_history (db # past))"

section \<open>What the statements keep, the calls keep\<close>

named_theorems kept "Steps and bodies that keep a property of the tables"

lemma reads_kept [kept]: "keeps P (reads w q)"
  by (rule keepsI) simp

lemmas read_methods =
  LockStockLocation_def LockStockLocationShared_def StockHeldAtLocation_def LockInventoryLevel_def
  LockReservation_def CountActiveReservations_def CountActiveReservationsAtLocation_def
  ReturnedForLine_def CancellationRecorded_def GetBackorderOfLine_def LockBackordersOfLine_def
  LockWaitingBackordersAt_def CountWaitingBackorders_def GetSupplierReceipt_def LockSupplierReceipt_def
  CountExpectedSupplierReceipts_def CountExpectedSupplierReceiptsAtLocation_def

lemma read_methods_kept [kept]:
  "keeps P (LockStockLocation flt l)"
  "keeps P (LockStockLocationShared flt l)"
  "keeps P (StockHeldAtLocation flt l)"
  "keeps P (LockInventoryLevel flt i l)"
  "keeps P (LockReservation flt rid)"
  "keeps P (CountActiveReservations flt i)"
  "keeps P (CountActiveReservationsAtLocation flt l)"
  "keeps P (ReturnedForLine flt i line)"
  "keeps P (CancellationRecorded flt rid)"
  "keeps P (GetBackorderOfLine flt line i)"
  "keeps P (LockBackordersOfLine flt line)"
  "keeps P (LockWaitingBackordersAt flt i l q)"
  "keeps P (CountWaitingBackorders flt i)"
  "keeps P (GetSupplierReceipt flt rid)"
  "keeps P (LockSupplierReceipt flt rid)"
  "keeps P (CountExpectedSupplierReceipts flt i)"
  "keeps P (CountExpectedSupplierReceiptsAtLocation flt l)"
  unfolding read_methods by (rule reads_kept)+

declare keeps_steps [kept] keeps_bindT [kept]

lemma kept_if [kept]: "(c \<Longrightarrow> keeps P m) \<Longrightarrow> (\<not> c \<Longrightarrow> keeps P k) \<Longrightarrow> keeps P (if c then m else k)"
  by simp

lemma kept_pair [kept]: "(\<And>a b. keeps P (f a b)) \<Longrightarrow> keeps P (case p of (a, b) \<Rightarrow> f a b)"
  by (cases p) simp

lemma kept_option [kept]: "keeps P m \<Longrightarrow> (\<And>a. keeps P (f a)) \<Longrightarrow> keeps P (case x of None \<Rightarrow> m | Some a \<Rightarrow> f a)"
  by (cases x) simp_all

lemma kept_locks [kept]: "keeps P (LockInventoryItem flt i)" "keeps P (LockInventoryItemShared flt i)"
  unfolding LockInventoryItem_def LockInventoryItemShared_def by (intro kept)+

lemma requireOpenLocation_kept [kept]: "keeps P (requireOpenLocation flt l)"
  unfolding requireOpenLocation_def by (intro kept)

lemma kept_attempt [kept]:
  "\<lbrakk>keeps P m; \<And>e. keeps P (h e); \<And>a. keeps P (f a)\<rbrakk> \<Longrightarrow> keeps P (attempt m h f)"
proof (rule keepsI)
  fix db a db'
  assume k: "keeps P m" "\<And>e. keeps P (h e)" "\<And>a. keeps P (f a)"
    and p: "P db" and run: "attempt m h f db = Inr (a, db')"
  show "P db'"
  proof (cases "m db")
    case (Inl e)
    then show ?thesis using run keepsD [OF k(2) p] by (simp add: attempt_def)
  next
    case (Inr r)
    obtain x d where r: "r = (x, d)" by (cases r)
    then have "P d" using keepsD [OF k(1) p] Inr by blast
    then show ?thesis using run keepsD [OF k(3)] Inr r by (simp add: attempt_def)
  qed
qed

lemma kept_demand [kept]: "keeps P (demand e)"
  by (auto simp: keeps_def demand_def split: option.splits)

lemma tx_keeps: "stock_WithTx flt body db = (r, db') \<Longrightarrow> P db \<Longrightarrow> keeps P body \<Longrightarrow> P db'"
  by (rule stock_WithTx_keeps)

text \<open>The tables a call leaves are those it found or those of its transaction.\<close>

lemma after_tx:
  assumes "after checks (stock_WithTx flt body) db = (r, db')" "P db"
    and "first_violation checks = None \<Longrightarrow> keeps P body"
  shows "P db'"
  using assms by (auto simp: after_def split: option.splits elim: tx_keeps)

lemma cancel_receipt_cases:
  assumes "CancelSupplierReceipt flt now i rid before db = (x, db')"
  shows "db' = db \<or> stock_WithTx flt (cancel_receipt_tx flt now rid) db = (x, db')"
  using assms by (auto simp: CancelSupplierReceipt_def after_def split: option.splits sum.splits if_splits)

lemma claim_cases:
  assumes "ClaimBackorder flt ids req db = (x, db')"
  shows "db' = db \<or> (\<exists>ls. stock_WithTx flt (claim_tx flt ids req ls) db = (x, db'))"
  using assms by (auto simp: ClaimBackorder_def after_def split: option.splits sum.splits)

lemma create_location_cases:
  assumes "CreateStockLocation flt ids req db = (x, db')"
  shows "db' = db \<or> (\<exists>l. bindT (draw StockLocationIDPrefix ids) (\<lambda>lid. repo_CreateStockLocation flt (l lid)) db =
    Inr (projr x, db'))"
  using assms by (auto simp: CreateStockLocation_def Let_def split: option.splits sum.splits prod.splits)

lemma create_item_cases:
  assumes "CreateInventoryItem flt ids req db = (x, db')"
  shows "db' = db \<or> (\<exists>i. bindT (draw InventoryItemIDPrefix ids) (\<lambda>iid. repo_CreateInventoryItem flt (i iid)) db =
    Inr (projr x, db'))"
  using assms by (auto simp: CreateInventoryItem_def Let_def split: option.splits sum.splits prod.splits)

text \<open>The interface of the repository to the service: a property every writing statement keeps.\<close>

locale kept_by_statements =
  fixes P :: "stock_db \<Rightarrow> bool"
  assumes draw_kept: "keeps P (draw p ids)"
    and create_location_kept: "keeps P (repo_CreateStockLocation flt loc)"
    and close_location_kept: "keeps P (repo_CloseStockLocation flt l now)"
    and create_item_kept: "keeps P (repo_CreateInventoryItem flt itm)"
    and delete_item_kept: "keeps P (repo_SoftDeleteInventoryItem flt i)"
    and delete_levels_kept: "keeps P (repo_SoftDeleteInventoryLevelsByItem flt i)"
    and create_level_kept: "keeps P (CreateInventoryLevel flt v now)"
    and update_level_kept: "keeps P (UpdateInventoryLevelQuantities flt vid s r now)"
    and create_reservation_kept: "keeps P (CreateReservation flt res)"
    and set_status_kept: "keeps P (SetReservationStatus flt rid st)"
    and append_kept: "keeps P (AppendMovement flt m)"
    and create_claim_kept: "keeps P (CreateBackorder flt b)"
    and fill_claim_kept: "keeps P (FillBackorder flt bid rid l)"
    and withdraw_claim_kept: "keeps P (WithdrawBackorder flt bid n st)"
    and create_receipt_kept: "keeps P (CreateSupplierReceipt flt due)"
    and receive_receipt_kept: "keeps P (repo_ReceiveSupplierReceipt flt rid)"
    and cancel_receipt_kept: "keeps P (repo_CancelSupplierReceipt flt rid now)"
begin

lemmas statements = draw_kept create_location_kept close_location_kept create_item_kept delete_item_kept
  delete_levels_kept create_level_kept update_level_kept create_reservation_kept set_status_kept append_kept
  create_claim_kept fill_claim_kept withdraw_claim_kept create_receipt_kept receive_receipt_kept cancel_receipt_kept

lemma recordMovement_kept: "keeps P (recordMovement flt ids v d reason rid ref line)"
  unfolding recordMovement_def by (intro kept statements)

lemma write_kept:
  assumes "\<And>v. keeps P (fill v)"
  shows "keeps P (write_with fill flt ids now v s r reason rid ref line)"
  unfolding write_with_def by (intro kept statements recordMovement_kept assms)

lemma fill_one_kept:
  assumes "\<And>v. keeps P (fill v)"
  shows "keeps P (fill_one fill flt ids now c n v)"
  unfolding fill_one_def deduct_with_def Let_def by (intro kept statements write_kept assms)

lemma fill_loop_kept:
  assumes "\<And>v. keeps P (fill v)"
  shows "keeps P (fill_loop fill flt ids now cs v filled)"
  using assms
proof (induction fill flt ids now cs v filled rule: fill_loop.induct)
  case (2 fill flt ids now c cs v filled)
  then show ?case by (simp add: Let_def) (intro impI kept fill_one_kept; simp)
qed (simp add: keeps_steps)

lemma fillWaiting_kept: "keeps P (fillWaiting flt ids now v)"
  unfolding fillWaiting_def by (simp add: fill_with_def) (intro kept fill_loop_kept)

lemma writeQuantities_kept: "keeps P (writeQuantities flt ids now v s r reason rid ref line)"
  unfolding writeQuantities_def by (intro write_kept fillWaiting_kept)

lemma deductHeld_kept: "keeps P (deductHeld flt ids now r v order)"
  unfolding deductHeld_def deduct_with_def Let_def by (intro kept statements write_kept fillWaiting_kept)

lemma openLevel_kept: "keeps P (openLevel flt ids now i l s reason ref)"
  unfolding openLevel_def by (intro kept statements recordMovement_kept fillWaiting_kept)

lemma settle_loop_kept: "keeps P (settle_loop flt bought window cs s waiting)"
proof (induction flt bought window cs s waiting rule: settle_loop.induct)
  case (2 flt bought window c cs s waiting)
  show ?case unfolding settle_loop.simps settle_claim_def Let_def by (intro kept statements 2)
qed (simp add: keeps_steps)

lemma bodies_kept:
  "keeps P (set_level_tx flt ids now i l s seen)"
  "keeps P (adjust_tx flt ids now i l s reason)"
  "keeps P (reserve_tx flt ids now rreq)"
  "keeps P (release_stock_tx flt ids now rid)"
  "keeps P (confirm_tx flt ids now rid order)"
  "keeps P (return_canceled_tx flt ids now i l line target ref)"
  "keeps P (recall_tx flt ids now rid)"
  "keeps P (claim_tx flt ids creq ls)"
  "keeps P (settle_tx flt line bought window)"
  "keeps P (drain_tx flt ids now waiting l)"
  "keeps P (record_receipt_tx flt ids sreq e)"
  "keeps P (receive_tx flt ids now i seen' rid q)"
  "keeps P (cancel_receipt_tx flt now rid)"
  "keeps P (close_tx flt now l)"
  "keeps P (delete_item_tx flt i)"
  unfolding set_level_tx_def adjust_tx_def reserve_tx_def release_stock_tx_def confirm_tx_def return_canceled_tx_def
    recall_tx_def claim_tx_def settle_tx_def drain_tx_def record_receipt_tx_def receive_tx_def receive_locked_def
    receive_stock_def cancel_receipt_tx_def close_tx_def delete_item_tx_def Let_def
  by (intro kept statements writeQuantities_kept deductHeld_kept openLevel_kept fillWaiting_kept settle_loop_kept)+

lemma step_kept:
  assumes "stock_step before db db'" "P db"
  shows "P db'"
  using assms
proof (induction rule: stock_step.induct)
  case (create_location flt ids lreq db loc db' before)
  have "keeps P (bindT (draw StockLocationIDPrefix ids) (\<lambda>lid. repo_CreateStockLocation flt (l lid)))" for l
    by (intro kept statements)
  then show ?case using create_location create_location_cases keepsD by metis
next
  case (create_item flt ids ireq db itm db' before)
  have "keeps P (bindT (draw InventoryItemIDPrefix ids) (\<lambda>iid. repo_CreateInventoryItem flt (i iid)))" for i
    by (intro kept statements)
  then show ?case using create_item create_item_cases keepsD by metis
qed (auto simp: SetInventoryLevel_def SetInventoryLevelFrom_def setInventoryLevel_def AdjustInventory_def RestockInventory_def
    adjust_def Reserve_def ReleaseReservation_def ConfirmReservation_def ReturnCanceledInventory_def RecallReplacementUnits_def
    RecordSupplierReceipt_def ReceiveSupplierReceipt_def CloseStockLocation_def DeleteInventoryItem_def after_def
    split: option.splits sum.splits if_splits dest!: claim_cases cancel_receipt_cases elim!: tx_keeps intro: bodies_kept)

lemma history_kept: "stock_history h \<Longrightarrow> P empty_stock \<Longrightarrow> \<forall>db \<in> set h. P db"
  by (induction rule: stock_history.induct) (auto dest: step_kept)

lemma reached_kept: "stock_reached db \<Longrightarrow> P empty_stock \<Longrightarrow> P db"
  unfolding stock_reached_def using history_kept by fastforce

end

section \<open>The receipts of an earlier moment\<close>

text \<open>Every receipt is still there, of its item and place.\<close>

lemma grows_through:
  assumes "\<And>db a db'. m db = Inr (a, db') \<Longrightarrow> \<exists>f more. sd_receipt db' = map f (sd_receipt db) @ more \<and>
    (\<forall>r. sup_ID (f r) = sup_ID r \<and> sup_InventoryItemID (f r) = sup_InventoryItemID r \<and>
      sup_LocationID (f r) = sup_LocationID r)"
  shows "keeps (receipts_grew db0) m"
proof (rule keepsI)
  fix db a db'
  assume grew: "receipts_grew db0 db" and "m db = Inr (a, db')"
  then obtain f more where f: "sd_receipt db' = map f (sd_receipt db) @ more"
    "\<And>r. sup_ID (f r) = sup_ID r \<and> sup_InventoryItemID (f r) = sup_InventoryItemID r \<and> sup_LocationID (f r) = sup_LocationID r"
    using assms by meson
  then have "receipts_grew db db'" by (auto simp: receipts_grew_def)
  with grew show "receipts_grew db0 db'" by (rule receipts_grew_trans)
qed

lemma receive_row_same [simp]:
  "sup_ID (receive_row db rid r) = sup_ID r" "sup_InventoryItemID (receive_row db rid r) = sup_InventoryItemID r"
  "sup_LocationID (receive_row db rid r) = sup_LocationID r"
  by (simp_all add: receive_row_def split: option.split)

lemma cancel_row_same [simp]:
  "sup_ID (cancel_row rid now r) = sup_ID r" "sup_InventoryItemID (cancel_row rid now r) = sup_InventoryItemID r"
  "sup_LocationID (cancel_row rid now r) = sup_LocationID r"
  by (simp_all add: cancel_row_def)

lemma receipt_writers_grow:
  "keeps (receipts_grew db0) (CreateSupplierReceipt flt p)"
  "keeps (receipts_grew db0) (repo_ReceiveSupplierReceipt flt rid)"
  "keeps (receipts_grew db0) (repo_CancelSupplierReceipt flt rid now)"
proof -
  show "keeps (receipts_grew db0) (CreateSupplierReceipt flt p)"
    by (rule grows_through, rule exI [where x = "\<lambda>r. r"])
      (auto simp: CreateSupplierReceipt_def q_CreateSupplierReceipt_def Let_def split: if_splits)
  show "keeps (receipts_grew db0) (repo_ReceiveSupplierReceipt flt rid)"
  proof (rule grows_through)
    fix db a db'
    assume "repo_ReceiveSupplierReceipt flt rid db = Inr (a, db')"
    then have "sd_receipt db' = map (receive_row db rid) (sd_receipt db) @ []"
      by (auto simp: repo_ReceiveSupplierReceipt_def q_ReceiveSupplierReceipt_def split: if_splits)
    then show "\<exists>f more. sd_receipt db' = map f (sd_receipt db) @ more \<and>
      (\<forall>r. sup_ID (f r) = sup_ID r \<and> sup_InventoryItemID (f r) = sup_InventoryItemID r \<and> sup_LocationID (f r) = sup_LocationID r)"
      by (intro exI conjI) (assumption, simp)
  qed
  show "keeps (receipts_grew db0) (repo_CancelSupplierReceipt flt rid now)"
  proof (rule grows_through)
    fix db a db'
    assume "repo_CancelSupplierReceipt flt rid now db = Inr (a, db')"
    then have "sd_receipt db' = map (cancel_row rid now) (sd_receipt db) @ []"
      by (auto simp: repo_CancelSupplierReceipt_def q_CancelSupplierReceipt_def split: if_splits)
    then show "\<exists>f more. sd_receipt db' = map f (sd_receipt db) @ more \<and>
      (\<forall>r. sup_ID (f r) = sup_ID r \<and> sup_InventoryItemID (f r) = sup_InventoryItemID r \<and> sup_LocationID (f r) = sup_LocationID r)"
      by (intro exI conjI) (assumption, simp)
  qed
qed

lemma grows_same:
  assumes "\<And>db a db'. m db = Inr (a, db') \<Longrightarrow> sd_receipt db' = sd_receipt db"
  shows "keeps (receipts_grew db0) m"
  by (rule grows_through, rule exI [where x = "\<lambda>r. r"], rule exI [where x = "[]"]) (simp add: assms)

lemmas writers =
  draw_def repo_CreateStockLocation_def q_CreateStockLocation_def repo_CloseStockLocation_def q_CloseStockLocation_def
  repo_CreateInventoryItem_def q_CreateInventoryItem_def repo_SoftDeleteInventoryItem_def q_SoftDeleteInventoryItem_def
  repo_SoftDeleteInventoryLevelsByItem_def q_SoftDeleteInventoryLevelsByItem_def CreateInventoryLevel_def
  q_CreateInventoryLevel_def UpdateInventoryLevelQuantities_def q_UpdateInventoryLevelQuantities_def CreateReservation_def
  q_CreateReservation_def SetReservationStatus_def q_SetReservationStatus_def AppendMovement_def q_AppendMovement_def
  CreateBackorder_def q_CreateBackorder_def FillBackorder_def q_FillBackorder_def WithdrawBackorder_def
  q_WithdrawBackorder_def Let_def

interpretation grown: kept_by_statements "receipts_grew db0" for db0
  by (unfold_locales, (rule grows_same; auto simp: writers split: if_splits option.splits)+) (rule receipt_writers_grow)+

section \<open>Every reachable state has balanced books\<close>

lemma invalid_unless_None [simp]: "invalid_unless ok = None \<longleftrightarrow> ok"
  by (simp add: invalid_unless_def)

lemma empty_balanced: "balanced empty_stock"
  by (simp add: balanced_def books_def rows_ok_def promises_add_up_def movements_add_up_def closed_empty_def
      empty_stock_def stocked_at_def reserved_at_def promised_at_def moved_at_def)

lemma received_keeps:
  assumes "ReceiveSupplierReceipt flt ids now i rid q before db = (x, db')" "balanced db" "receipts_grew before db" "is_i64 q"
  shows "balanced db'"
  using assms
  by (auto simp: ReceiveSupplierReceipt_def after_def split: option.splits sum.splits if_splits
      elim!: stock_WithTx_cases intro: receive_keeps)

theorem step_keeps_books:
  assumes "stock_step before db db'" "balanced db" "receipts_grew before db"
  shows "balanced db'"
  using assms
proof (induction rule: stock_step.induct)
  case (set_level flt ids now i l s db r db' before)
  then show ?case
    by (auto simp: SetInventoryLevel_def setInventoryLevel_def elim!: after_tx intro: set_level_keeps)
next
  case (set_level_from flt ids now i l seen s db r db' before)
  then show ?case
    by (auto simp: SetInventoryLevelFrom_def setInventoryLevel_def elim!: after_tx intro: set_level_keeps)
next
  case (adjusts flt ids now i l d db r db' before)
  then show ?case
    by (auto simp: AdjustInventory_def adjust_def after_def split: option.splits elim!: tx_keeps intro: adjust_keeps)
next
  case (restock flt ids now i l d db r db' before)
  then show ?case
    by (auto simp: RestockInventory_def adjust_def after_def split: option.splits elim!: tx_keeps intro: adjust_keeps)
next
  case (reserve flt ids now req db r db' before)
  then show ?case by (auto simp: Reserve_def elim!: after_tx intro: reserve_keeps)
next
  case (release flt ids now rid db u db' before)
  then show ?case by (auto simp: ReleaseReservation_def elim!: after_tx intro: release_keeps)
next
  case (confirm flt ids now rid order db u db' before)
  then show ?case by (auto simp: ConfirmReservation_def elim!: after_tx intro: confirm_keeps)
next
  case (return_canceled flt ids now i l line target ref db r db' before)
  then show ?case by (auto simp: ReturnCanceledInventory_def elim!: after_tx intro: return_canceled_keeps)
next
  case (recall flt ids now rid db r db' before)
  then show ?case by (auto simp: RecallReplacementUnits_def elim!: after_tx intro: recall_keeps)
next
  case (claim flt ids creq db b db' before)
  then show ?case by (auto dest!: claim_cases elim!: tx_keeps intro: claim_keeps)
next
  case (settle flt line bought window db s db' before)
  then show ?case by (auto elim!: tx_keeps intro: settle_keeps)
next
  case (drain flt ids now waiting l db f db' before)
  then show ?case by (auto elim!: tx_keeps intro: drain_keeps)
next
  case (record_receipt flt ids sreq db p db' before)
  then show ?case by (auto simp: RecordSupplierReceipt_def elim!: after_tx intro: record_receipt_keeps)
next
  case (receive flt ids now i rid q before db pv db')
  then show ?case by (blast intro: received_keeps)
next
  case (cancel_receipt flt now i rid before db p db')
  then show ?case by (auto dest!: cancel_receipt_cases elim!: tx_keeps intro: cancel_receipt_keeps)
next
  case (create_location flt ids lreq db loc db' before)
  then show ?case by (blast intro: create_location_keeps)
next
  case (close_location flt now l db loc db' before)
  then show ?case by (auto simp: CloseStockLocation_def elim!: after_tx intro: close_keeps)
next
  case (create_item flt ids ireq db itm db' before)
  then show ?case by (blast intro: create_item_keeps)
next
  case (delete_item flt i db u db' before)
  then show ?case by (auto simp: DeleteInventoryItem_def elim!: after_tx intro: delete_keeps)
qed


lemma history_grows:
  assumes "stock_history h" "before \<in> set h"
  shows "receipts_grew before (hd h)"
  using assms
proof (induction arbitrary: before rule: stock_history.induct)
  case (called db past b db')
  then show ?case using grown.step_kept [OF called(3)] by auto
qed simp

lemma history_balanced: "stock_history h \<Longrightarrow> balanced (hd h)"
proof (induction rule: stock_history.induct)
  case (called db past before db')
  then show ?case using step_keeps_books [OF called(3)] history_grows [OF called(1)] by simp
qed (simp add: empty_balanced)

lemma reached_balanced: "stock_reached db \<Longrightarrow> balanced db"
  unfolding stock_reached_def using history_balanced by fastforce

lemma reached_empty: "stock_reached empty_stock"
  unfolding stock_reached_def by (rule exI, rule stock_history.start)

lemma reached_step: "stock_reached db \<Longrightarrow> stock_step db db db' \<Longrightarrow> stock_reached db'"
  unfolding stock_reached_def by (meson list.set_intros(1) stock_history.called)

section \<open>A settlement is a run of steps\<close>

inductive stock_runs :: "stock_db \<Rightarrow> stock_db \<Rightarrow> bool" where
  here: "stock_runs db db"
| further: "stock_step db db db1 \<Longrightarrow> stock_runs db1 db2 \<Longrightarrow> stock_runs db db2"

lemma runs_trans: "stock_runs a b \<Longrightarrow> stock_runs b c \<Longrightarrow> stock_runs a c"
  by (induction rule: stock_runs.induct) (auto intro: stock_runs.intros)

lemma runs_step: "stock_step db db db' \<Longrightarrow> stock_runs db db'"
  by (rule stock_runs.further [OF _ stock_runs.here])

lemma runs_reached: "stock_runs db db' \<Longrightarrow> stock_reached db \<Longrightarrow> stock_reached db'"
  by (induction rule: stock_runs.induct) (auto intro: reached_step)

lemma drain_loop_runs: "drain_loop flt ids now c ls db = (e, db') \<Longrightarrow> stock_runs db db'"
proof (induction flt ids now c ls db rule: drain_loop.induct)
  case (2 flt ids now c l ls db)
  obtain r d where run: "stock_WithTx (inside l flt) (drain_tx (inside l flt) ids now c l) db = (r, d)" by fastforce
  have s: "stock_runs db d" by (rule runs_step [OF stock_step.drain [OF run]])
  show ?case
  proof (cases r)
    case (Inl x)
    show ?thesis
    proof (cases "IsNotFound (Some x) \<or> CodeOf x = CodeLocationClosed")
      case True
      then show ?thesis using 2 run Inl runs_trans [OF s] by (auto split: if_splits)
    next
      case False
      then show ?thesis using 2(3) run Inl s by simp
    qed
  next
    case (Inr filled)
    then show ?thesis using 2 run runs_trans [OF s] s by (cases filled) auto
  qed
qed (simp add: stock_runs.here)

lemma drain_all_runs: "drain_all flt ids now cs db = (es, db') \<Longrightarrow> stock_runs db db'"
proof (induction flt ids now cs db arbitrary: es rule: drain_all.induct)
  case (2 flt ids now c cs db)
  then show ?case
    by (auto simp: drain_def split: prod.splits intro: runs_trans [OF drain_loop_runs])
qed (simp add: stock_runs.here)

lemma SettleBackorder_runs:
  assumes "SettleBackorder flt ids now line bought window db = (r, db')"
  shows "stock_runs db db'"
  using assms
  by (auto simp: SettleBackorder_def stock_runs.here split: option.splits prod.splits sum.splits
      dest: stock_step.settle drain_all_runs intro: runs_step runs_trans)


section \<open>Two more properties the statements keep\<close>

text \<open>Every level is at a place of the tables.\<close>

definition places_there :: "stock_db \<Rightarrow> bool" where
  "places_there db \<longleftrightarrow> (\<forall>x \<in> set (sd_level db). the_location db (lv_LocationID (lw_level x)) \<noteq> None)"

lemma places_same:
  assumes "\<And>db a db'. m db = Inr (a, db') \<Longrightarrow> (\<forall>x \<in> set (sd_level db'). lv_LocationID (lw_level x) \<in>
      lv_LocationID ` lw_level ` set (sd_level db) \<or> the_location db (lv_LocationID (lw_level x)) \<noteq> None) \<and>
    slo_ID ` set (sd_location db) \<subseteq> slo_ID ` set (sd_location db')"
  shows "keeps places_there m"
proof (rule keepsI)
  fix db a db'
  assume p: "places_there db" and "m db = Inr (a, db')"
  note m = assms [OF this(2)]
  have there: "the_location d l \<noteq> None \<longleftrightarrow> l \<in> slo_ID ` set (sd_location d)" for d l
    by (auto simp: the_location_def find_None_iff)
  have "the_location db (lv_LocationID (lw_level x)) \<noteq> None" if "x \<in> set (sd_level db')" for x
    using m that p by (auto simp: places_there_def)
  then show "places_there db'"
    using m unfolding places_there_def there by blast
qed

lemma kept_fields:
  "lv_LocationID (lw_level (delete_level i x)) = lv_LocationID (lw_level x)"
  "slo_ID (stamp_closed l now y) = slo_ID y"
  by (simp_all add: delete_level_def stamp_closed_def)

interpretation placed: kept_by_statements places_there
  by (unfold_locales; rule places_same; auto simp: writers CreateSupplierReceipt_def q_CreateSupplierReceipt_def
      repo_ReceiveSupplierReceipt_def q_ReceiveSupplierReceipt_def repo_CancelSupplierReceipt_def q_CancelSupplierReceipt_def
      kept_fields image_image split: if_splits option.splits)

lemma reached_places: "stock_reached db \<Longrightarrow> places_there db"
  by (erule placed.reached_kept) (simp add: places_there_def empty_stock_def)

text \<open>The movements of an earlier moment are the first of the ledger, as they were.\<close>

definition ledger_from :: "stock_db \<Rightarrow> stock_db \<Rightarrow> bool" where
  "ledger_from db0 db \<longleftrightarrow> (\<exists>more. sd_movement db = sd_movement db0 @ more)"

lemma ledger_same:
  assumes "\<And>db a db'. m db = Inr (a, db') \<Longrightarrow> \<exists>more. sd_movement db' = sd_movement db @ more"
  shows "keeps (ledger_from db0) m"
  by (rule keepsI) (use assms in \<open>fastforce simp: ledger_from_def\<close>)

interpretation ledger: kept_by_statements "ledger_from db0" for db0
  by (unfold_locales; rule ledger_same; auto simp: writers CreateSupplierReceipt_def q_CreateSupplierReceipt_def
      repo_ReceiveSupplierReceipt_def q_ReceiveSupplierReceipt_def repo_CancelSupplierReceipt_def q_CancelSupplierReceipt_def
      split: if_splits option.splits)

lemma runs_ledger: "stock_runs db db' \<Longrightarrow> ledger_from db db'"
proof (induction rule: stock_runs.induct)
  case (further db db1 db2)
  have "ledger_from db db1" by (rule ledger.step_kept [OF further(1)]) (simp add: ledger_from_def)
  then show ?case using further(3) by (auto simp: ledger_from_def)
qed (simp add: ledger_from_def)

end
