(* ===== verification/StockFill.thy ===== *)
theory StockFill
  imports StockSteps
begin

text \<open>
  What a fill leaves of the queue: the claims it served stand filled at the warehouse, every other row is
  as it was, and the claims served are those a greedy reading of the queue completes.
\<close>

lemma fill_loop_rows:
  assumes "fill_loop fill flt ids now claims v filled db = Inr ((v', filled'), db')"
    and "level_ok v" "stands v db" "distinct (map bo_ID claims)" "distinct (map bo_ID (sd_backorder db))"
    and "\<And>c. c \<in> set claims \<Longrightarrow> c \<in> set (sd_backorder db) \<and> claim_ok c \<and> waits_at (lv_InventoryItemID v) (lv_LocationID v) c"
    and "b \<in> set (sd_backorder db)"
  shows "if bo_ID b \<in> bo_ID ` set (completed (lv_StockedQuantity v - lv_ReservedQuantity v) claims)
    then \<exists>r. fill_row (bo_ID b) r (lv_LocationID v) b \<in> set (sd_backorder db') else b \<in> set (sd_backorder db')"
  using assms
proof (induction fill flt ids now claims v filled arbitrary: db b rule: fill_loop.induct)
  case (1 fill flt ids now v filled)
  then show ?case by simp
next
  case (2 fill flt ids now c cs v filled)
  have c: "c \<in> set (sd_backorder db)" "claim_ok c" "waits_at (lv_InventoryItemID v) (lv_LocationID v) c"
    using 2(8) [of c] by simp_all
  have avail: "Available v = lv_StockedQuantity v - lv_ReservedQuantity v" "Owed c = owed c"
    using 2(4) c by (simp_all add: Available_ok Owed_ok)
  show ?case
  proof (cases "owed c \<le> 0 \<or> owed c > lv_StockedQuantity v - lv_ReservedQuantity v")
    case True
    then have skip: "Owed c \<le> 0 \<or> Available v < Owed c" using avail by auto
    then have "fill_loop fill flt ids now cs v filled db = Inr ((v', filled'), db')"
      using 2(3) by (simp add: Let_def)
    from 2(1) [OF refl skip this 2(4,5) _ 2(7) _ 2(9)] 2(6,8)
    show ?thesis unfolding completed.simps(2) if_P [OF True] by simp
  next
    case False
    then have go: "\<not> (Owed c \<le> 0 \<or> Available v < Owed c)" using avail by auto
    from 2(3) go obtain v1 db1 where
      first: "fill_one fill (inside (bo_ID c) flt) ids now c (owed c) v db = Inr (v1, db1)" and
      rest: "fill_loop fill flt ids now cs v1 (filled @ [bo_ID c]) db1 = Inr ((v', filled'), db')"
      by (auto simp: Let_def avail)
    have need: "0 < owed c" "owed c \<le> lv_StockedQuantity v - lv_ReservedQuantity v" using False by auto
    note one = fill_one_Inr [OF 2(4,5) need first]
    have v1: "level_ok v1" using 2(4) need unfolding one(1) by (simp add: level_ok_def)
    have st1: "stands v1 db1"
      unfolding one(1,2) filled_db_def using stands_put [OF 2(5)] by (simp add: stands_def row_of_def)
    obtain rid where rows: "sd_backorder db1 = map (fill_row (bo_ID c) rid (lv_LocationID v)) (sd_backorder db)"
      unfolding one(2) filled_db_def by auto
    have ids1: "distinct (map bo_ID (sd_backorder db1))" using 2(7) by (simp add: rows comp_def)
    have other: "fill_row (bo_ID c) rid (lv_LocationID v) d = d" if "bo_ID d \<noteq> bo_ID c" for d
      using that by (simp add: fill_row_def)
    have left: "d \<in> set (sd_backorder db1) \<and> claim_ok d \<and> waits_at (lv_InventoryItemID v1) (lv_LocationID v1) d"
      if "d \<in> set cs" for d
    proof -
      have "bo_ID d \<noteq> bo_ID c" using 2(6) that by (metis distinct.simps(2) image_eqI list.map(2) set_map)
      from other [OF this] show ?thesis using 2(8) [of d] that unfolding rows one(1)
        by (auto intro!: image_eqI [where x = d])
    qed
    have "fill_row (bo_ID c) rid (lv_LocationID v) b \<in> set (sd_backorder db1)" using 2(9) by (simp add: rows)
    from 2(2) [OF refl go rest v1 st1 _ ids1 left this] 2(6)
    have later: "if bo_ID b \<in> bo_ID ` set (completed (lv_StockedQuantity v1 - lv_ReservedQuantity v1) cs)
      then \<exists>r. fill_row (bo_ID b) r (lv_LocationID v) (fill_row (bo_ID c) rid (lv_LocationID v) b) \<in> set (sd_backorder db')
      else fill_row (bo_ID c) rid (lv_LocationID v) b \<in> set (sd_backorder db')"
      by (simp add: one(1) cong: if_cong)
    have chosen: "completed (lv_StockedQuantity v - lv_ReservedQuantity v) (c # cs) =
        c # completed (lv_StockedQuantity v1 - lv_ReservedQuantity v1) cs"
      using False by (simp add: one(1) algebra_simps)
    show ?thesis
    proof (cases "bo_ID b = bo_ID c")
      case True
      then have "bo_ID b \<notin> bo_ID ` set (completed (lv_StockedQuantity v1 - lv_ReservedQuantity v1) cs)"
        using 2(6) completed_set [of "lv_StockedQuantity v1 - lv_ReservedQuantity v1" cs] by auto
      then show ?thesis using later True unfolding chosen by auto
    next
      case False
      then show ?thesis using later unfolding chosen other [OF False] by auto
    qed
  qed
qed

text \<open>What a fill reads of the queue: the rows it locked are the queue without the claims too large.\<close>

lemma fillWaiting_rows:
  assumes run: "fillWaiting flt ids now v db = Inr ((v', filled), db')"
    and ok: "level_ok v" "stands v db" "distinct (map bo_ID (sd_backorder db))"
      "\<And>c. c \<in> set (sd_backorder db) \<Longrightarrow> claim_ok c"
    and b: "b \<in> set (sd_backorder db)"
  shows "if bo_ID b \<in> set filled then \<exists>r. fill_row (bo_ID b) r (lv_LocationID v) b \<in> set (sd_backorder db')
    else b \<in> set (sd_backorder db')"
proof -
  let ?i = "lv_InventoryItemID v" let ?l = "lv_LocationID v"
  let ?a = "lv_StockedQuantity v - lv_ReservedQuantity v"
  let ?wait = "filter (\<lambda>b. waits_at ?i ?l b \<and> owed b \<le> ?a) (sd_backorder db)"
  have loop: "fill_loop (\<lambda>_. refuse ran_out) flt ids now (sort_key bo_Seq ?wait) v [] db = Inr ((v', filled), db')"
    using run ok(1)
    by (auto simp: fillWaiting_def fill_with_def LockWaitingBackordersAt_def q_LockWaitingBackordersAt_def
        owed_def Available_ok)
  have "mset (map bo_ID (sort_key bo_Seq ?wait)) = mset (map bo_ID ?wait)" by simp
  then have dist: "distinct (map bo_ID (sort_key bo_Seq ?wait))"
    by (rule mset_eq_imp_distinct_iff [THEN iffD2, OF _ distinct_map_filter [OF ok(3)]])
  have each: "c \<in> set (sort_key bo_Seq ?wait) \<Longrightarrow> c \<in> set (sd_backorder db) \<and> claim_ok c \<and> waits_at ?i ?l c" for c
    using ok(4) by simp
  have "filled = map bo_ID (completed ?a (sort_key bo_Seq ?wait))"
    using fill_loop_run(1) [where P = "\<lambda>_ _. True", OF loop ok(1,2) dist each] by simp
  then have "set filled = bo_ID ` set (completed ?a (sort_key bo_Seq ?wait))" by (simp only: set_map)
  from fill_loop_rows [OF loop ok(1,2) dist ok(3) each b, folded this] show ?thesis .
qed

end
