(* ===== verification/StockProps.thy ===== *)
theory StockProps
  imports StockFill
begin

text \<open>
  What the inventory module promises: balanced books in every state it reaches, units promised and sold
  once, a reservation exactly where one is announced, claims filled oldest first, and closed places empty.
\<close>

section \<open>A small shop\<close>

definition shop_ids :: "nat \<Rightarrow> string" where "shop_ids n = replicate n (CHR ''x'')"

definition shop_place :: string where "shop_place = ''sloc_''"
definition shop_item :: string where "shop_item = ''invitem_x''"

definition shop_open :: stock_db where
  "shop_open = snd (CreateStockLocation (\<lambda>_. None) shop_ids
    \<lparr> lci_Name = ''Depot'', lci_Address1 = [], lci_Address2 = [], lci_City = [], lci_Province = [],
      lci_PostalCode = [], lci_CountryCode = ''TR'' \<rparr> empty_stock)"

definition shop_listed :: stock_db where
  "shop_listed = snd (CreateInventoryItem (\<lambda>_. None) shop_ids
    \<lparr> iin_SKU = ''A'', iin_Title = [], iin_Description = [], iin_RequiresShipping = None \<rparr> shop_open)"

definition shop_claimed :: stock_db where
  "shop_claimed = snd (ClaimBackorder (\<lambda>_. None) shop_ids
    \<lparr> cin_InventoryItemID = shop_item, cin_OrderID = ''o1'', cin_OrderLineItemID = ''l1'', cin_Quantity = 4,
      cin_LocationIDs = [shop_place] \<rparr> shop_listed)"

text \<open>Ten units arrive: four go to the waiting claim, six are left.\<close>

definition shop_stocked :: stock_db where
  "shop_stocked = snd (SetInventoryLevel (\<lambda>_. None) shop_ids 1 shop_item shop_place 10 shop_claimed)"

definition shop_request :: reserve_input where
  "shop_request = \<lparr> rsv_InventoryItemID = shop_item, rsv_LocationID = shop_place, rsv_Quantity = 2,
    rsv_LineItemID = ''l2'', rsv_Description = [], rsv_Purpose = [] \<rparr>"

definition shop_promised :: stock_db where
  "shop_promised = snd (Reserve (\<lambda>_. None) shop_ids 2 shop_request shop_stocked)"

definition shop_promise :: string where "shop_promise = ''invres_xxxxxxx''"

definition shop_sold :: stock_db where
  "shop_sold = snd (ConfirmReservation (\<lambda>_. None) shop_ids 3 shop_promise ''o2'' shop_promised)"

definition shop_due :: stock_db where
  "shop_due = snd (RecordSupplierReceipt (\<lambda>_. None) shop_ids
    \<lparr> sin_InventoryItemID = shop_item, sin_LocationID = shop_place, sin_Quantity = 5, sin_ExpectedAt = Some 9,
      sin_Reference = [] \<rparr> shop_sold)"

definition shop_receipt :: string where "shop_receipt = ''invsup_xxxxxxxxx''"

definition shop_restocked :: stock_db where
  "shop_restocked = snd (ReceiveSupplierReceipt (\<lambda>_. None) shop_ids 9 shop_item shop_receipt 5 shop_due shop_due)"


lemma shop_steps: "stock_reached shop_open" "stock_reached shop_listed" "stock_reached shop_claimed"
  "stock_reached shop_stocked" "stock_reached shop_promised" "stock_reached shop_sold" "stock_reached shop_due"
  "stock_reached shop_restocked"
proof -
  show a: "stock_reached shop_open"
    unfolding shop_open_def by (rule reached_step [OF reached_empty stock_step.create_location]) (rule prod.collapse [symmetric])
  show b: "stock_reached shop_listed"
    unfolding shop_listed_def by (rule reached_step [OF a stock_step.create_item]) (rule prod.collapse [symmetric])
  show c: "stock_reached shop_claimed"
    unfolding shop_claimed_def
    by (rule reached_step [OF b stock_step.claim], rule prod.collapse [symmetric]) (simp add: is_i64_def MinInt64_def MaxInt64_def)
  show d: "stock_reached shop_stocked"
    unfolding shop_stocked_def
    by (rule reached_step [OF c stock_step.set_level], rule prod.collapse [symmetric]) (simp add: is_i64_def MinInt64_def MaxInt64_def)
  show e: "stock_reached shop_promised"
    unfolding shop_promised_def
    by (rule reached_step [OF d stock_step.reserve], rule prod.collapse [symmetric])
      (simp add: shop_request_def is_i64_def MinInt64_def MaxInt64_def)
  show f: "stock_reached shop_sold"
    unfolding shop_sold_def by (rule reached_step [OF e stock_step.confirm]) (rule prod.collapse [symmetric])
  show g: "stock_reached shop_due"
    unfolding shop_due_def by (rule reached_step [OF f stock_step.record_receipt]) (rule prod.collapse [symmetric])
  show "stock_reached shop_restocked"
    unfolding shop_restocked_def
    by (rule reached_step [OF g stock_step.receive], rule prod.collapse [symmetric]) (simp add: is_i64_def MinInt64_def MaxInt64_def)
qed

section \<open>The books\<close>

lemma stock_ledger_balanced:
  assumes "balanced db"
  shows "reserved_at db k = promised_at db k" "stocked_at db k = moved_at db k"
proof -
  have b: "books k 0 None db" using assms balanced_books by blast
  then have "reserved_at db k + (if k = k then 0 else 0) = promised_at db k"
    unfolding books_def promises_add_up_def by blast
  then show "reserved_at db k = promised_at db k" by simp
  show "stocked_at db k = moved_at db k" using b unfolding books_def movements_add_up_def by blast
qed

lemma zero_sum_of_nonneg:
  assumes "\<And>x. x \<in> set xs \<Longrightarrow> 0 \<le> (f x :: int)" "sum_list (map f xs) = 0" "x \<in> set xs"
  shows "f x = 0"
proof -
  have "\<forall>y \<in> set (map f xs). y = 0"
    using assms(1,2) sum_list_nonneg_eq_0_iff [of "map f xs"] by auto
  then show ?thesis using assms(3) by simp
qed

text \<open>C6: the stock ledger balances. In every state the calls of the inventory service reach, the units
  counted at an item and place are the sum of the movements recorded there, the units held at the
  item's live level are the sum of its active reservations, and no level ever holds more than it
  stocks, stocks a negative amount or leaves \<open>int64\<close>: what is sellable is never negative.\<close>

theorem stock_ledger_balances:
  assumes "stock_reached db"
  shows "stocked_at db k = moved_at db k \<and> reserved_at db k = promised_at db k \<and>
    (\<forall>x \<in> set (sd_level db). 0 \<le> lv_ReservedQuantity (lw_level x) \<and>
      lv_ReservedQuantity (lw_level x) \<le> lv_StockedQuantity (lw_level x) \<and> lv_StockedQuantity (lw_level x) \<le> MaxInt64 \<and>
      Available (lw_level x) = lv_StockedQuantity (lw_level x) - lv_ReservedQuantity (lw_level x))"
proof -
  have b: "balanced db" using assms by (rule reached_balanced)
  have "level_ok (lw_level x)" if "x \<in> set (sd_level db)" for x
    using balanced_rows [OF b] that by (simp add: rows_ok_def)
  then show ?thesis by (simp add: level_ok_def Available_ok stock_ledger_balanced [OF b])
qed

lemma stock_ledger_balances_witness:
  "stocked_at shop_promised (shop_item, shop_place) = 6 \<and> moved_at shop_promised (shop_item, shop_place) = 6 \<and>
    reserved_at shop_promised (shop_item, shop_place) = 2 \<and> promised_at shop_promised (shop_item, shop_place) = 2"
proof -
  have "stocked_at shop_promised (shop_item, shop_place) = 6" "reserved_at shop_promised (shop_item, shop_place) = 2"
    by code_simp+
  then show ?thesis using stock_ledger_balances [OF shop_steps(5), of "(shop_item, shop_place)"] by simp
qed

text \<open>C31: a promise leaves the shelf once. In every reached state a confirmed reservation is named by
  exactly one movement, which takes its whole quantity from its own place, and a reservation that was
  never confirmed, active or released, is named by none.\<close>

theorem reservation_leaves_once:
  assumes "stock_reached db" "r \<in> set (sd_reservation db)"
  shows "if rv_Status r = ReservationConfirmed
    then \<exists>m. naming db (rv_ID r) = [m] \<and> movement_key m = reservation_key r \<and> mv_Delta m = - rv_Quantity r
    else naming db (rv_ID r) = []"
proof -
  have "promise_told db r" using reached_balanced [OF assms(1)] assms(2) by (simp add: balanced_def books_def)
  then show ?thesis by (auto simp: promise_told_def)
qed

lemma reservation_leaves_once_witness:
  "map mv_Delta (naming shop_sold shop_promise) = [- 2] \<and> naming shop_promised shop_promise = []"
proof -
  have "list_ex (\<lambda>r. rv_ID r = shop_promise \<and> rv_Status r = ReservationConfirmed \<and> rv_Quantity r = 2) (sd_reservation shop_sold)"
    "list_ex (\<lambda>r. rv_ID r = shop_promise \<and> rv_Status r = ReservationActive) (sd_reservation shop_promised)"
    by code_simp+
  then obtain r s where r: "r \<in> set (sd_reservation shop_sold)" "rv_ID r = shop_promise" "rv_Status r = ReservationConfirmed"
      "rv_Quantity r = 2"
    and s: "s \<in> set (sd_reservation shop_promised)" "rv_ID s = shop_promise" "rv_Status s = ReservationActive"
    by (auto simp: list_ex_iff)
  show ?thesis
    using reservation_leaves_once [OF shop_steps(6) r(1)] reservation_leaves_once [OF shop_steps(5) s(1)] r s by auto
qed

text \<open>C10: a supplier receipt is counted once. In every reached state a received receipt has exactly one
  movement, of the quantity it was received with, at its own item and place, and a receipt that is
  expected or canceled has none.\<close>

theorem receipt_counted_once:
  assumes "stock_reached db" "r \<in> set (sd_receipt db)"
  shows "if sup_Status r = SupplierReceiptReceived
    then \<exists>m. receiving db (sup_ID r) = [m] \<and> movement_key m = (sup_InventoryItemID r, sup_LocationID r) \<and>
      0 < mv_Delta m \<and> sup_ReceivedQuantity r = mv_Delta m
    else receiving db (sup_ID r) = []"
proof -
  have "receipt_told None db r" using reached_balanced [OF assms(1)] assms(2) by (simp add: balanced_def books_def)
  then show ?thesis by (auto simp: receipt_told_def)
qed

lemma receipt_counted_once_witness:
  "map mv_Delta (receiving shop_restocked shop_receipt) = [5] \<and> receiving shop_due shop_receipt = []"
proof -
  have "list_ex (\<lambda>r. sup_ID r = shop_receipt \<and> sup_Status r = SupplierReceiptReceived \<and> sup_ReceivedQuantity r = 5) (sd_receipt shop_restocked)"
    "list_ex (\<lambda>r. sup_ID r = shop_receipt \<and> sup_Status r = SupplierReceiptExpected) (sd_receipt shop_due)"
    by code_simp+
  then obtain r s where r: "r \<in> set (sd_receipt shop_restocked)" "sup_ID r = shop_receipt" "sup_Status r = SupplierReceiptReceived"
      "sup_ReceivedQuantity r = 5"
    and s: "s \<in> set (sd_receipt shop_due)" "sup_ID s = shop_receipt" "sup_Status s = SupplierReceiptExpected"
    by (auto simp: list_ex_iff)
  show ?thesis
    using receipt_counted_once [OF shop_steps(8) r(1)] receipt_counted_once [OF shop_steps(7) s(1)] r s by auto
qed


text \<open>C33: the ledger is append-only. Whatever the service is called with from a state on, the movements
  recorded by then are the first of the later ledger, unchanged and in their order.\<close>

theorem ledger_append_only:
  assumes "stock_runs db db'"
  shows "\<exists>more. sd_movement db' = sd_movement db @ more"
  using runs_ledger [OF assms] by (simp add: ledger_from_def)

lemma ledger_append_only_witness:
  "map mv_Delta (sd_movement shop_promised) = [10, - 4] \<and>
    (\<exists>more. map mv_Delta (sd_movement shop_sold) = [10, - 4] @ more)"
proof -
  have run: "stock_runs shop_promised shop_sold"
    unfolding shop_sold_def by (rule runs_step [OF stock_step.confirm]) (rule prod.collapse [symmetric])
  obtain more where "sd_movement shop_sold = sd_movement shop_promised @ more"
    using ledger_append_only [OF run] by blast
  moreover have "map mv_Delta (sd_movement shop_promised) = [10, - 4]" by code_simp
  ultimately show ?thesis by auto
qed

text \<open>C28: a closed warehouse is empty. In every reached state a closed location stocks nothing at any
  live level, holds no unit for anybody, so no active reservation names it, and no receipt is
  expected there.\<close>

theorem closed_place_is_empty:
  assumes "stock_reached db" "l \<in> set (sd_location db)" "location_Closed l"
  shows "live_at db (slo_ID l) = filter (\<lambda>v. lv_StockedQuantity v = 0 \<and> lv_ReservedQuantity v = 0) (live_at db (slo_ID l)) \<and>
    filter (\<lambda>r. rv_LocationID r = slo_ID l \<and> rv_Status r = ReservationActive) (sd_reservation db) = [] \<and>
    filter (\<lambda>p. sup_LocationID p = slo_ID l \<and> sup_Status p = SupplierReceiptExpected) (sd_receipt db) = []"
proof (intro conjI)
  have bal: "balanced db" using assms(1) by (rule reached_balanced)
  have rows: "rows_ok db" using bal by (rule balanced_rows)
  have empty: "lv_StockedQuantity (lw_level x) = 0" "lv_ReservedQuantity (lw_level x) = 0"
    if "x \<in> set (sd_level db)" "lv_LocationID (lw_level x) = slo_ID l" "\<not> lw_deleted x" for x
  proof -
    show s: "lv_StockedQuantity (lw_level x) = 0"
      using bal assms that by (auto simp: balanced_def books_def closed_empty_def)
    show "lv_ReservedQuantity (lw_level x) = 0" using rows that s by (auto simp: rows_ok_def level_ok_def)
  qed
  then have "v \<in> set (live_at db (slo_ID l)) \<Longrightarrow> lv_StockedQuantity v = 0 \<and> lv_ReservedQuantity v = 0" for v
    by (auto simp: live_at_def)
  then show "live_at db (slo_ID l) = filter (\<lambda>v. lv_StockedQuantity v = 0 \<and> lv_ReservedQuantity v = 0) (live_at db (slo_ID l))"
    by (metis (mono_tags, lifting) filter_True)
  show "filter (\<lambda>p. sup_LocationID p = slo_ID l \<and> sup_Status p = SupplierReceiptExpected) (sd_receipt db) = []"
    using bal assms by (auto simp: balanced_def books_def closed_empty_def filter_empty_conv)
  have none: "rv_Status r \<noteq> ReservationActive" if r: "r \<in> set (sd_reservation db)" "rv_LocationID r = slo_ID l" for r
  proof
    assume act: "rv_Status r = ReservationActive"
    have "reserved_at db (reservation_key r) = 0"
      unfolding reserved_at_def using empty r(2)
      by (intro sum_of_zeros) (auto simp: level_key_def reservation_key_def)
    then have zero: "promised_at db (reservation_key r) = 0"
      using stock_ledger_balanced [OF bal] by simp
    have pos: "0 < rv_Quantity q" if "q \<in> set (sd_reservation db)" for q
      using rows that by (auto simp: rows_ok_def reservation_checks_def)
    have "(if reservation_key r = reservation_key r \<and> rv_Status r = ReservationActive then rv_Quantity r else 0) = 0"
      by (rule zero_sum_of_nonneg [OF _ zero [unfolded promised_at_def] r(1)]) (use pos in \<open>force simp: less_imp_le\<close>)
    then show False using act pos [OF r(1)] by simp
  qed
  then show "filter (\<lambda>r. rv_LocationID r = slo_ID l \<and> rv_Status r = ReservationActive) (sd_reservation db) = []"
    by (auto simp: filter_empty_conv)
qed

definition shop_shut :: stock_db where
  "shop_shut = snd (CloseStockLocation (\<lambda>_. None) 5 shop_place shop_listed)"

lemma closed_place_is_empty_witness:
  "map location_Closed (sd_location shop_shut) = [True] \<and>
    fst (CloseStockLocation (\<lambda>_. None) 5 shop_place shop_stocked) = Inl (Conflict CodeLocationNotEmpty) \<and>
    (\<exists>l. l \<in> set (sd_location shop_shut) \<and> slo_ID l = shop_place \<and>
      filter (\<lambda>p. sup_LocationID p = slo_ID l \<and> sup_Status p = SupplierReceiptExpected) (sd_receipt shop_shut) = [])"
proof -
  have reached: "stock_reached shop_shut"
    unfolding shop_shut_def by (rule reached_step [OF shop_steps(2) stock_step.close_location]) (rule prod.collapse [symmetric])
  have shut: "map location_Closed (sd_location shop_shut) = [True]" "map slo_ID (sd_location shop_shut) = [shop_place]"
    and refused: "fst (CloseStockLocation (\<lambda>_. None) 5 shop_place shop_stocked) = Inl (Conflict CodeLocationNotEmpty)"
    by code_simp+
  then obtain l where l: "sd_location shop_shut = [l]" "location_Closed l" "slo_ID l = shop_place" by auto
  then have "l \<in> set (sd_location shop_shut)" by simp
  from closed_place_is_empty [OF reached this l(2)] show ?thesis using l shut refused by auto
qed


section \<open>Promises\<close>

lemma find_append_new: "find P xs = None \<Longrightarrow> find P (xs @ [y]) = (if P y then Some y else None)"
  by (induction xs) (auto split: if_splits)

lemma item_level_is_live:
  assumes "rows_ok db"
  shows "v \<in> set (item_levels db i) \<and> lv_LocationID v = l \<longleftrightarrow> live_level db i l = Some v"
proof
  assume "v \<in> set (item_levels db i) \<and> lv_LocationID v = l"
  then obtain x where "x \<in> set (sd_level db)" "lw_level x = v" "\<not> lw_deleted x" "lv_InventoryItemID v = i" "lv_LocationID v = l"
    by (auto simp: item_levels_def)
  moreover from this(1) have "y = x" if "y \<in> set (sd_level db)" "level_key (lw_level y) = level_key (lw_level x)" for y
    using same_level_key [OF assms that(1) _ that(2)] by simp
  ultimately show "live_level db i l = Some v"
    by (cases "find (\<lambda>r. lv_InventoryItemID (lw_level r) = i \<and> lv_LocationID (lw_level r) = l \<and> \<not> lw_deleted r) (sd_level db)")
      (fastforce simp: live_level_def find_None_iff level_key_def dest: find_found)+
next
  assume "live_level db i l = Some v"
  then show "v \<in> set (item_levels db i) \<and> lv_LocationID v = l"
    by (auto simp: live_level_def item_levels_def dest!: find_found)
qed

lemma announced_live:
  assumes rows: "rows_ok db" and said: "LocationsWithStock (\<lambda>_. None) i q db = Inr places"
  shows "0 < q" "requireText i = None" "live_item db i \<noteq> None"
    and "l \<in> set places \<longleftrightarrow> (\<exists>v. live_level db i l = Some v \<and> q \<le> lv_StockedQuantity v - lv_ReservedQuantity v)"
proof -
  from said have places: "places = sort (map lv_LocationID (filter (\<lambda>v. Available v \<ge> q) (item_levels db i)))"
    and others: "0 < q" "requireText i = None" "live_item db i \<noteq> None"
    by (auto simp: LocationsWithStock_def ListInventoryLevels_def repo_GetInventoryItem_def q_GetInventoryItem_def
        repo_ListInventoryLevels_def q_ListInventoryLevels_def split: if_splits option.splits sum.splits)
  show "0 < q" "requireText i = None" "live_item db i \<noteq> None" by (rule others)+
  have "Available v = lv_StockedQuantity v - lv_ReservedQuantity v" if "live_level db i l = Some v" for v
    using locked_level [OF that rows] by (simp add: Available_ok)
  moreover have "l \<in> set places \<longleftrightarrow>
      (\<exists>v. (v \<in> set (item_levels db i) \<and> lv_LocationID v = l) \<and> q \<le> Available v)"
    by (force simp: places image_iff)
  ultimately show "l \<in> set places \<longleftrightarrow> (\<exists>v. live_level db i l = Some v \<and> q \<le> lv_StockedQuantity v - lv_ReservedQuantity v)"
    unfolding item_level_is_live [OF rows] by auto
qed

lemma live_level_placed:
  assumes "stock_reached db" "live_level db i l = Some v"
  shows "the_location db l \<noteq> None"
proof -
  obtain x where "x \<in> set (sd_level db)" "lv_LocationID (lw_level x) = l"
    using assms(2) by (auto simp: live_level_def dest!: find_found)
  then show ?thesis using reached_places [OF assms(1)] by (metis places_there_def)
qed

lemma reserve_writes:
  assumes rows: "rows_ok db" and v: "live_level db (rsv_InventoryItemID req) (rsv_LocationID req) = Some v"
    and new: "the_reservation db rid = None"
    and db': "db' = drawn n (add_reservation (reserved_row rid req)
      (put v (lv_StockedQuantity v) (lv_ReservedQuantity v + rsv_Quantity req) now db))"
  shows "stocked_at db' k = stocked_at db k" "sd_movement db' = sd_movement db"
    and "promised_at db' k = promised_at db k +
      (if k = (rsv_InventoryItemID req, rsv_LocationID req) then rsv_Quantity req else 0)"
    and "the_reservation db' rid = Some (reserved_row rid req)"
proof -
  note w = locked_level [OF v rows]
  have "stocked_at db' k = stocked_at (put v (lv_StockedQuantity v) (lv_ReservedQuantity v + rsv_Quantity req) now db) k"
    by (simp add: stocked_at_def db')
  then show "stocked_at db' k = stocked_at db k" by (simp add: stocked_at_put [OF w(1) rows])
  show "promised_at db' k = promised_at db k +
      (if k = (rsv_InventoryItemID req, rsv_LocationID req) then rsv_Quantity req else 0)"
    by (auto simp: promised_at_def db' reserved_row_def reservation_key_def)
  show "the_reservation db' rid = Some (reserved_row rid req)"
    using new by (simp add: db' the_reservation_def find_append_new reserved_row_def)
  show "sd_movement db' = sd_movement db" by (simp add: db')
qed

text \<open>C8: a warehouse is announced exactly when it can be reserved from. In every reached state, with no
  faults and a reservation id not drawn before, \<open>LocationsWithStock\<close> names a warehouse for a quantity
  of an item if and only if reserving that quantity there succeeds, and what the reservation then
  writes is the promise at that item and place and nowhere else: no unit leaves and no movement is
  recorded.\<close>

theorem reserve_where_announced:
  assumes "stock_reached db" "is_i64 (rsv_Quantity req)"
    and "LocationsWithStock (\<lambda>_. None) (rsv_InventoryItemID req) (rsv_Quantity req) db = Inr places"
    and "requireText (rsv_LocationID req) = None" "checkTextLen (rsv_LineItemID req) = None"
      "checkTextLen (rsv_Description req) = None" "purpose_Valid (reserve_purpose req)"
    and "the_reservation db (ReservationIDPrefix @ ids (sd_drawn db)) = None"
  shows "(rsv_LocationID req \<in> set places \<longleftrightarrow> (\<exists>r db'. Reserve (\<lambda>_. None) ids now req db = (Inr r, db'))) \<and>
    (\<forall>r db'. Reserve (\<lambda>_. None) ids now req db = (Inr r, db') \<longrightarrow>
      (\<forall>i l. promised_at db' (i, l) = promised_at db (i, l) +
        (if (i, l) = (rsv_InventoryItemID req, rsv_LocationID req) then rsv_Quantity req else 0) \<and>
        stocked_at db' (i, l) = stocked_at db (i, l)) \<and>
      sd_movement db' = sd_movement db \<and> the_reservation db' (rv_ID r) = Some r)"
proof -
  have rows: "rows_ok db" using assms(1) reached_balanced balanced_rows by blast
  note said = announced_live [OF rows assms(3)]
  have there: "item_there db (rsv_InventoryItemID req)"
    using said(3) by (auto simp: live_item_def item_there_def list_ex_iff dest!: find_found)
  have checks: "reservation_checks (reserved_row rid req)" for rid
    using said(1) assms(7) by (simp add: reservation_checks_def reserved_row_def)
  have "first_violation [requireIDs (rsv_InventoryItemID req) (rsv_LocationID req), invalid_unless (0 < rsv_Quantity req),
      checkTextLen (rsv_LineItemID req), checkTextLen (rsv_Description req), invalid_unless (purpose_Valid (reserve_purpose req))] = None"
    using assms said by (simp add: requireIDs_def)
  then have run: "Reserve (\<lambda>_. None) ids now req db = (Inr r, db') \<longleftrightarrow> reserve_tx (\<lambda>_. None) ids now req db = Inr (r, db')" for r db'
    unfolding Reserve_def after_def by (simp only: option.case) (simp add: stock_WithTx_Inr)
  note run = run [unfolded reserve_tx_Inr [OF rows assms(2) said(1)]]
  have "rsv_LocationID req \<in> set places \<longleftrightarrow> (\<exists>r db'. Reserve (\<lambda>_. None) ids now req db = (Inr r, db'))"
    unfolding run said(4) using said(3) there live_level_placed [OF assms(1)] checks assms(8) by (auto simp: reserved_row_def)
  moreover have "(\<forall>i l. promised_at db' (i, l) = promised_at db (i, l) +
        (if (i, l) = (rsv_InventoryItemID req, rsv_LocationID req) then rsv_Quantity req else 0) \<and>
        stocked_at db' (i, l) = stocked_at db (i, l)) \<and>
      sd_movement db' = sd_movement db \<and> the_reservation db' (rv_ID r) = Some r"
    if "Reserve (\<lambda>_. None) ids now req db = (Inr r, db')" for r db'
  proof -
    from that [unfolded run] obtain v where
      v: "live_level db (rsv_InventoryItemID req) (rsv_LocationID req) = Some v"
      and r: "r = reserved_row (ReservationIDPrefix @ ids (sd_drawn db)) req"
      and db': "db' = drawn (Suc (sd_drawn db)) (add_reservation r
        (put v (lv_StockedQuantity v) (lv_ReservedQuantity v + rsv_Quantity req) now db))"
      by blast
    show ?thesis
      using reserve_writes [OF rows v assms(8) db' [unfolded r]] by (simp add: r) (simp add: reserved_row_def)
  qed
  ultimately show ?thesis by blast
qed

lemma reserve_where_announced_witness:
  "LocationsWithStock (\<lambda>_. None) shop_item 2 shop_stocked = Inr [shop_place] \<and>
    (\<exists>r db'. Reserve (\<lambda>_. None) shop_ids 2 shop_request shop_stocked = (Inr r, db') \<and>
      promised_at db' (shop_item, shop_place) = promised_at shop_stocked (shop_item, shop_place) + 2)"
proof -
  have said: "LocationsWithStock (\<lambda>_. None) (rsv_InventoryItemID shop_request) (rsv_Quantity shop_request) shop_stocked = Inr [shop_place]"
    and new: "the_reservation shop_stocked (ReservationIDPrefix @ shop_ids (sd_drawn shop_stocked)) = None"
    by code_simp+
  have "is_i64 (rsv_Quantity shop_request)" "requireText (rsv_LocationID shop_request) = None"
    "checkTextLen (rsv_LineItemID shop_request) = None" "checkTextLen (rsv_Description shop_request) = None"
    "purpose_Valid (reserve_purpose shop_request)"
    by code_simp+
  note ok = reserve_where_announced [where ids = shop_ids and now = 2, OF shop_steps(4) this(1) said this(2-5) new]
  have req: "rsv_LocationID shop_request = shop_place" "rsv_InventoryItemID shop_request = shop_item" "rsv_Quantity shop_request = 2"
    by (simp_all add: shop_request_def)
  from ok obtain r db' where "Reserve (\<lambda>_. None) shop_ids 2 shop_request shop_stocked = (Inr r, db')" by (auto simp: req)
  with ok said req show ?thesis by (intro conjI exI) (assumption | simp)+
qed


section \<open>The queue of waiting claims\<close>

lemma reached_claims:
  assumes "stock_reached db"
  shows "distinct (map bo_ID (sd_backorder db))" "c \<in> set (sd_backorder db) \<Longrightarrow> claim_ok c"
  using balanced_rows [OF reached_balanced [OF assms]]
  by (auto simp: rows_ok_def claim_ok_def backorder_checks_def)

text \<open>C7: a fill serves the queue in order, whole claims only. In every reached state a fill at a live level
  that succeeds serves exactly the claims a greedy reading of the queue completes: oldest first, each
  whole, passing over one that does not fit. The level loses exactly what they were owed and keeps its
  promises, those claims stand filled from this warehouse and every other row is as it was, and no
  claim left waiting there would fit what is still sellable.\<close>

theorem fill_serves_the_queue:
  assumes "stock_reached db" "live_level db i l = Some v"
    and "fillWaiting flt ids now v db = Inr ((v', filled), db')"
  defines "chosen \<equiv> completed (lv_StockedQuantity v - lv_ReservedQuantity v) (waiting_at db i l)"
  shows "filled = map bo_ID chosen \<and>
    lv_StockedQuantity v' = lv_StockedQuantity v - sum_list (map owed chosen) \<and>
    lv_ReservedQuantity v' = lv_ReservedQuantity v \<and>
    (\<forall>b \<in> set (sd_backorder db). if bo_ID b \<in> set filled
      then \<exists>r. fill_row (bo_ID b) r l b \<in> set (sd_backorder db') else b \<in> set (sd_backorder db')) \<and>
    (\<forall>c \<in> set (waiting_at db i l) - set chosen. owed c \<le> 0 \<or> Available v' < owed c)"
proof -
  have rows: "rows_ok db" using assms(1) reached_balanced balanced_rows by blast
  note v = locked_level [OF assms(2) rows]
  note claims = reached_claims [OF assms(1)]
  note run = fillWaiting_run [where P = "\<lambda>_ _. True", OF assms(3) v(2,1) claims, unfolded v(3,4), folded chosen_def, simplified]
  have left: "owed c \<le> 0 \<or> Available v' < owed c" if "c \<in> set (waiting_at db i l)" "c \<notin> set chosen" for c
    using completed_rest [OF that(1) that(2) [unfolded chosen_def]] Available_ok [OF run(7)] run(2,3)
    by (auto simp: chosen_def)
  have each: "if bo_ID b \<in> set filled
      then \<exists>r. fill_row (bo_ID b) r l b \<in> set (sd_backorder db') else b \<in> set (sd_backorder db')"
    if "b \<in> set (sd_backorder db)" for b
    using fillWaiting_rows [OF assms(3) v(2,1) claims that, unfolded v(4)] .
  show ?thesis
    by (intro conjI ballI run(1-3) each left) auto
qed

text \<open>Two more claims on the six units that are left: nine units, which do not fit, and three.\<close>

definition shop_claim :: "string \<Rightarrow> int \<Rightarrow> claim_input" where
  "shop_claim name n = \<lparr> cin_InventoryItemID = shop_item, cin_OrderID = name, cin_OrderLineItemID = name,
    cin_Quantity = n, cin_LocationIDs = [shop_place] \<rparr>"

definition shop_owing :: stock_db where
  "shop_owing = snd (ClaimBackorder (\<lambda>_. None) shop_ids (shop_claim ''o3'' 3)
    (snd (ClaimBackorder (\<lambda>_. None) shop_ids (shop_claim ''o9'' 9) shop_stocked)))"

definition shop_level :: inventory_level where
  "shop_level = the (live_level shop_owing shop_item shop_place)"

lemma shop_owing_reached: "stock_reached shop_owing"
proof -
  have a: "stock_reached (snd (ClaimBackorder (\<lambda>_. None) shop_ids (shop_claim ''o9'' 9) shop_stocked))"
    by (rule reached_step [OF shop_steps(4) stock_step.claim], rule prod.collapse [symmetric])
      (simp add: shop_claim_def is_i64_def MinInt64_def MaxInt64_def)
  show ?thesis
    unfolding shop_owing_def
    by (rule reached_step [OF a stock_step.claim], rule prod.collapse [symmetric])
      (simp add: shop_claim_def is_i64_def MinInt64_def MaxInt64_def)
qed

lemma shop_level_live: "live_level shop_owing shop_item shop_place = Some shop_level"
proof -
  have "live_level shop_owing shop_item shop_place \<noteq> None" by code_simp
  then show ?thesis by (auto simp: shop_level_def)
qed

lemma fill_serves_the_queue_witness:
  "\<exists>v' filled db'. fillWaiting (\<lambda>_. None) shop_ids 4 shop_level shop_owing = Inr ((v', filled), db') \<and>
    length filled = 1 \<and> lv_StockedQuantity v' = 3"
proof -
  have "case fillWaiting (\<lambda>_. None) shop_ids 4 shop_level shop_owing of Inl _ \<Rightarrow> False | Inr _ \<Rightarrow> True" by code_simp
  then obtain v' filled db' where run: "fillWaiting (\<lambda>_. None) shop_ids 4 shop_level shop_owing = Inr ((v', filled), db')"
    by (auto split: sum.splits)
  have "map owed (completed (lv_StockedQuantity shop_level - lv_ReservedQuantity shop_level)
      (waiting_at shop_owing shop_item shop_place)) = [3]" "lv_StockedQuantity shop_level = 6"
    by code_simp+
  moreover from this(1) have "length (completed (lv_StockedQuantity shop_level - lv_ReservedQuantity shop_level)
      (waiting_at shop_owing shop_item shop_place)) = 1"
    by (metis length_map length_Cons list.size(3) One_nat_def)
  ultimately have "length filled = 1" "lv_StockedQuantity v' = 3"
    using fill_serves_the_queue [OF shop_owing_reached shop_level_live run] by simp_all
  then show ?thesis using run by blast
qed

text \<open>C34: the mutual recursion of the writes and the fills ends after one turn. In every reached state,
  over a live level, the fill is the same whatever its own writes would call, so it satisfies the
  recursive equation of the code, and following it deeper changes nothing.\<close>

theorem fill_recursion_ends:
  assumes "stock_reached db" "live_level db i l = Some v"
  shows "fillWaiting flt ids now v db = fill_with (fillWaiting flt ids now) flt ids now v db \<and>
    fillWaiting_deep (Suc n) flt ids now v db = fillWaiting flt ids now v db"
proof -
  have "rows_ok db" using assms(1) reached_balanced balanced_rows by blast
  from locked_level [OF assms(2) this] show ?thesis using fill_ends_after_one_turn by blast
qed

lemma fill_recursion_ends_witness:
  "fillWaiting (\<lambda>_. None) shop_ids 4 shop_level shop_owing =
    fill_with (fillWaiting (\<lambda>_. None) shop_ids 4) (\<lambda>_. None) shop_ids 4 shop_level shop_owing"
  using fill_recursion_ends [OF shop_owing_reached shop_level_live] by blast

text \<open>C30: a filled claim is a sale. In every reached state a filled claim was filled from a warehouse it
  named, and exactly one movement takes what it was owed from that item and place against the
  reservation it carries.\<close>

theorem filled_claim_is_sold:
  assumes "stock_reached db" "b \<in> set (sd_backorder db)" "bo_Status b = BackorderFilled"
  shows "bo_FilledLocationID b \<in> set (bo_LocationIDs b) \<and>
    (\<exists>m. naming db (bo_ReservationID b) = [m] \<and>
      movement_key m = (bo_InventoryItemID b, bo_FilledLocationID b) \<and> mv_Delta m = - owed b)"
proof -
  have bal: "balanced db" using assms(1) by (rule reached_balanced)
  then have "claim_told db b" using assms(2) by (simp add: balanced_def books_def)
  then obtain r where r: "r \<in> set (sd_reservation db)" "rv_ID r = bo_ReservationID b" "rv_Status r = ReservationConfirmed"
      "rv_Quantity r = owed b" "reservation_key r = (bo_InventoryItemID b, bo_FilledLocationID b)"
    and "bo_FilledLocationID b \<in> set (bo_LocationIDs b)"
    using assms(3) by (auto simp: claim_told_def)
  moreover have "promise_told db r" using bal r(1) by (simp add: balanced_def books_def)
  ultimately show ?thesis by (auto simp: promise_told_def)
qed

lemma filled_claim_is_sold_witness:
  "(\<exists>b. b \<in> set (sd_backorder shop_stocked) \<and> bo_Status b = BackorderFilled \<and> bo_FilledLocationID b = shop_place \<and>
    map mv_Delta (naming shop_stocked (bo_ReservationID b)) = [- 4])"
proof -
  have "list_ex (\<lambda>b. bo_Status b = BackorderFilled \<and> bo_FilledLocationID b = shop_place \<and> owed b = 4) (sd_backorder shop_stocked)"
    by code_simp
  then obtain b where b: "b \<in> set (sd_backorder shop_stocked)" "bo_Status b = BackorderFilled"
      "bo_FilledLocationID b = shop_place" "owed b = 4"
    by (auto simp: list_ex_iff)
  show ?thesis using filled_claim_is_sold [OF shop_steps(4) b(1,2)] b by auto
qed


section \<open>The end of a reservation\<close>

lemma status_set:
  assumes "SetReservationStatus flt rid st d = Inr (u, d')"
  shows "\<exists>r. the_reservation d' rid = Some r \<and> rv_Status r = st"
proof -
  have hit: "find (\<lambda>r. rv_ID r = rid) xs \<noteq> None \<Longrightarrow>
      \<exists>r. find (\<lambda>r. rv_ID r = rid) (map (put_status rid st) xs) = Some r \<and> rv_Status r = st" for xs
    by (induction xs) (auto simp: put_status_def split: if_splits)
  from assms have "the_reservation d rid \<noteq> None" "d' = d\<lparr> sd_reservation := map (put_status rid st) (sd_reservation d) \<rparr>"
    by (auto simp: SetReservationStatus_def q_SetReservationStatus_def the_reservation_def find_None_iff filter_empty_conv
        split: if_splits)
  then show ?thesis using hit by (simp add: the_reservation_def)
qed

lemma confirm_ends:
  assumes "confirm_tx flt ids now rid order db = Inr (u, db')"
  shows "\<exists>r. the_reservation db' rid = Some r \<and> rv_Status r = ReservationConfirmed"
  using assms status_set
  by (auto simp: confirm_tx_def deductHeld_def deduct_with_def Let_def the_reservation_def dest!: find_found split: if_splits)

lemma release_ends:
  assumes "release_stock_tx flt ids now rid db = Inr (u, db')"
  shows "\<exists>r. the_reservation db' rid = Some r \<and> rv_Status r = ReservationReleased"
  using assms status_set by (auto simp: release_stock_tx_def Let_def split: if_splits)

lemma again:
  assumes "requireText rid = None" "the_reservation db rid = Some r" "rv_Status r = ReservationConfirmed"
  shows "ConfirmReservation (\<lambda>_. None) ids now rid order db = (Inr (), db)"
    "ReleaseReservation (\<lambda>_. None) ids now rid db = (Inl (Conflict CodeReservationNotActive), db)"
  using assms
  by (simp_all add: ConfirmReservation_def ReleaseReservation_def after_def confirm_tx_def release_stock_tx_def
      stock_WithTx_def bindT_def LockReservation_def q_LockReservation_def reads_def stock_run_def one_def give_def refuse_def)


lemma again_released:
  assumes "requireText rid = None" "the_reservation db rid = Some r" "rv_Status r = ReservationReleased"
  shows "ReleaseReservation (\<lambda>_. None) ids now rid db = (Inr (), db)"
    "ConfirmReservation (\<lambda>_. None) ids now rid order db = (Inl (Conflict CodeReservationNotActive), db)"
  using assms
  by (simp_all add: ConfirmReservation_def ReleaseReservation_def after_def confirm_tx_def release_stock_tx_def
      stock_WithTx_def bindT_def LockReservation_def q_LockReservation_def reads_def stock_run_def one_def give_def refuse_def)

text \<open>C32: a reservation ends once, and the same way for good. After a confirmation that succeeded,
  confirming again succeeds and writes nothing, whatever order is named, and releasing is refused;
  after a release that succeeded, releasing again succeeds and writes nothing, and confirming is
  refused. Neither refusal changes the tables.\<close>

theorem reservation_ends_once:
  assumes "ConfirmReservation flt ids now rid order db = (Inr u, sold)"
    and "ReleaseReservation flt' ids' now' rid' db = (Inr w, freed)"
  shows "ConfirmReservation (\<lambda>_. None) again_ids later rid other sold = (Inr (), sold) \<and>
    ReleaseReservation (\<lambda>_. None) again_ids later rid sold = (Inl (Conflict CodeReservationNotActive), sold) \<and>
    ReleaseReservation (\<lambda>_. None) again_ids later rid' freed = (Inr (), freed) \<and>
    ConfirmReservation (\<lambda>_. None) again_ids later rid' other freed = (Inl (Conflict CodeReservationNotActive), freed)"
proof -
  have rid: "requireText rid = None" "requireText rid' = None"
    and runs: "confirm_tx flt ids now rid order db = Inr (u, sold)" "release_stock_tx flt' ids' now' rid' db = Inr (w, freed)"
    using assms by (auto simp: ConfirmReservation_def ReleaseReservation_def after_def stock_WithTx_Inr split: option.splits)
  obtain r s where "the_reservation sold rid = Some r" "rv_Status r = ReservationConfirmed"
    "the_reservation freed rid' = Some s" "rv_Status s = ReservationReleased"
    using confirm_ends [OF runs(1)] release_ends [OF runs(2)] by blast
  then show ?thesis using again again_released rid by simp
qed

definition shop_freed :: stock_db where
  "shop_freed = snd (ReleaseReservation (\<lambda>_. None) shop_ids 3 shop_promise shop_promised)"

lemma reservation_ends_once_witness:
  "fst (ReleaseReservation (\<lambda>_. None) shop_ids 4 shop_promise shop_sold) = Inl (Conflict CodeReservationNotActive) \<and>
    fst (ConfirmReservation (\<lambda>_. None) shop_ids 4 shop_promise ''o2'' shop_freed) = Inl (Conflict CodeReservationNotActive) \<and>
    snd (ConfirmReservation (\<lambda>_. None) shop_ids 4 shop_promise ''o7'' shop_sold) = shop_sold"
proof -
  have "fst (ConfirmReservation (\<lambda>_. None) shop_ids 3 shop_promise ''o2'' shop_promised) = Inr ()"
    "fst (ReleaseReservation (\<lambda>_. None) shop_ids 3 shop_promise shop_promised) = Inr ()"
    by code_simp+
  then have "ConfirmReservation (\<lambda>_. None) shop_ids 3 shop_promise ''o2'' shop_promised = (Inr (), shop_sold)"
    "ReleaseReservation (\<lambda>_. None) shop_ids 3 shop_promise shop_promised = (Inr (), shop_freed)"
    by (simp_all add: shop_sold_def shop_freed_def prod_eq_iff)
  from reservation_ends_once [OF this] show ?thesis by simp
qed


section \<open>A confirmation\<close>

lemma confirm_run:
  assumes rows: "rows_ok db" and r: "the_reservation db rid = Some r" "rv_Status r = ReservationActive"
    and run: "ConfirmReservation flt ids now rid order db = (Inr u, db')"
  obtains v where "live_level db (rv_InventoryItemID r) (rv_LocationID r) = Some v" "stands v db"
    and "(order = []) = (rv_Purpose r = PurposeReplacement)"
    and "db' = drawn (Suc (sd_drawn db)) (deducted v r (leaving ids now (sd_drawn db) v r order) now db)"
proof -
  have tx: "confirm_tx flt ids now rid order db = Inr (u, db')"
    using run by (auto simp: ConfirmReservation_def after_def stock_WithTx_Inr split: option.splits)
  have own: "r \<in> set (sd_reservation db)" "rv_ID r = rid"
    using r(1) by (auto simp: the_reservation_def dest: find_found)
  from tx r obtain v w where v: "live_level db (rv_InventoryItemID r) (rv_LocationID r) = Some v"
    and ded: "deductHeld flt ids now r v order db = Inr (w, db')"
    by (auto simp: confirm_tx_def split: if_splits)
  note w = locked_level [OF v rows]
  have n: "0 < rv_Quantity r" "rv_Quantity r \<le> MaxInt64" "rv_ID r \<noteq> []"
    using rows own by (auto simp: rows_ok_def reservation_checks_def)
  note d = deductHeld_Inr [OF ded w(2,1) n]
  show ?thesis by (rule that [OF v w(1) d(3,2)])
qed

text \<open>C9: a confirmation takes exactly the promise. In every reached state, when confirming an active
  reservation succeeds, its quantity leaves both what is stocked and what is promised at its own item
  and place and nothing else changes there or anywhere, so what is sellable does not change; one
  movement is added, naming the reservation and the order given. It succeeds only when an order is
  named for a sale and none for a replacement: a sale confirmed with no order is refused.\<close>

theorem confirmation_takes_the_promise:
  assumes "stock_reached db" "the_reservation db rid = Some r" "rv_Status r = ReservationActive"
    and "ConfirmReservation flt ids now rid order db = (Inr u, db')"
  shows "(order = []) = (rv_Purpose r = PurposeReplacement) \<and>
    (\<forall>i l. stocked_at db' (i, l) = stocked_at db (i, l) - (if reservation_key r = (i, l) then rv_Quantity r else 0) \<and>
      promised_at db' (i, l) = promised_at db (i, l) - (if reservation_key r = (i, l) then rv_Quantity r else 0)) \<and>
    (\<exists>m. sd_movement db' = sd_movement db @ [m] \<and> mv_ReservationID m = rid \<and> mv_Reference m = order \<and>
      movement_key m = reservation_key r \<and> mv_Delta m = - rv_Quantity r)"
proof -
  have rows: "rows_ok db" using assms(1) reached_balanced balanced_rows by blast
  have own: "r \<in> set (sd_reservation db)" "rv_ID r = rid"
    using assms(2) by (auto simp: the_reservation_def dest: find_found)
  obtain v where v: "live_level db (rv_InventoryItemID r) (rv_LocationID r) = Some v" "stands v db"
    and purpose: "(order = []) = (rv_Purpose r = PurposeReplacement)"
    and db': "db' = drawn (Suc (sd_drawn db)) (deducted v r (leaving ids now (sd_drawn db) v r order) now db)"
    by (rule confirm_run [OF rows assms(2-4)])
  have key: "level_key v = reservation_key r"
    using locked_level [OF v(1) rows] by (simp add: level_key_def reservation_key_def)
  have "stocked_at db' k = stocked_at db k - (if reservation_key r = k then rv_Quantity r else 0)" for k
  proof -
    have "stocked_at db' k = stocked_at (put v (lv_StockedQuantity v - rv_Quantity r) (lv_ReservedQuantity v - rv_Quantity r) now db) k"
      by (simp add: db' deducted_def stocked_at_def)
    then show ?thesis by (simp add: stocked_at_put [OF v(2) rows] key)
  qed
  moreover have "promised_at db' k = promised_at db k - (if reservation_key r = k then rv_Quantity r else 0)" for k
  proof -
    have "promised_at db' k = promised_at (set_status (rv_ID r) ReservationConfirmed db) k"
      by (simp add: db' deducted_def promised_at_def set_status_def drawn_def add_movement_def put_def)
    then show ?thesis using promised_at_status [OF own(1) rows assms(3)] by simp
  qed
  moreover have "\<exists>m. sd_movement db' = sd_movement db @ [m] \<and> mv_ReservationID m = rid \<and> mv_Reference m = order \<and>
      movement_key m = reservation_key r \<and> mv_Delta m = - rv_Quantity r"
    using locked_level [OF v(1) rows] own(2)
    by (simp add: db' deducted_def leaving_def movement_key_def reservation_key_def)
  ultimately show ?thesis using purpose by blast
qed

lemma confirmation_takes_the_promise_witness:
  "stocked_at shop_sold (shop_item, shop_place) = stocked_at shop_promised (shop_item, shop_place) - 2 \<and>
    promised_at shop_sold (shop_item, shop_place) = 0 \<and>
    fst (ConfirmReservation (\<lambda>_. None) shop_ids 3 shop_promise [] shop_promised) = Inl (Internal CodeInconsistentState)"
proof -
  have "fst (ConfirmReservation (\<lambda>_. None) shop_ids 3 shop_promise ''o2'' shop_promised) = Inr ()"
    and refused: "fst (ConfirmReservation (\<lambda>_. None) shop_ids 3 shop_promise [] shop_promised) = Inl (Internal CodeInconsistentState)"
    and promised: "promised_at shop_promised (shop_item, shop_place) = 2"
    by code_simp+
  then have run: "ConfirmReservation (\<lambda>_. None) shop_ids 3 shop_promise ''o2'' shop_promised = (Inr (), shop_sold)"
    by (simp add: shop_sold_def prod_eq_iff)
  have "case the_reservation shop_promised shop_promise of None \<Rightarrow> False
    | Some r \<Rightarrow> rv_Status r = ReservationActive \<and> reservation_key r = (shop_item, shop_place) \<and> rv_Quantity r = 2" by code_simp
  then obtain r where r: "the_reservation shop_promised shop_promise = Some r" "rv_Status r = ReservationActive"
      "reservation_key r = (shop_item, shop_place)" "rv_Quantity r = 2"
    by (auto split: option.splits)
  show ?thesis
    using confirmation_takes_the_promise [OF shop_steps(5) r(1,2) run] r promised refused by simp
qed

end
