(* ===== verification/StockForecastProps.thy ===== *)
theory StockForecastProps
  imports StockForecast StockProps
begin

text \<open>
  The forecast refines the fill read forward: receipt after receipt, in the order they are expected, each
  gives its units to the waiting claims a fill would serve, and a warehouse that sells nothing now is
  dated by the first receipt that leaves something.
\<close>

section \<open>The fill read forward\<close>

text \<open>The claims of a queue that some units at a place would fill.\<close>

definition served :: "string \<Rightarrow> int \<Rightarrow> backorder list \<Rightarrow> backorder list" where
  "served l units queue = completed units (filter (\<lambda>c. l \<in> set (bo_LocationIDs c)) queue)"

text \<open>The receipts in order, each with its place and what is left sellable there after it.\<close>

fun read_forward ::
    "(string \<Rightarrow> int) \<Rightarrow> backorder list \<Rightarrow> supplier_receipt list \<Rightarrow> (string \<times> moment \<times> int) list" where
  "read_forward av queue [] = []"
| "read_forward av queue (r # rs) =
    (let l = sup_LocationID r;
         units = av l + sup_Quantity r;
         left = units - sum_list (map owed (served l units queue))
     in (l, sup_ExpectedAt r, left) #
        read_forward (av(l := left)) (filter (\<lambda>c. c \<notin> set (served l units queue)) queue) rs)"

definition first_left :: "string \<Rightarrow> (string \<times> moment \<times> int) list \<Rightarrow> moment option" where
  "first_left l ds = map_option (\<lambda>(_, d, _). d) (find (\<lambda>(l', _, left). l' = l \<and> left > 0) ds)"

definition still_waiting :: "(backorder \<times> bool) list \<Rightarrow> backorder list" where
  "still_waiting cs = map fst (filter (\<lambda>(c, f). \<not> f) cs)"

lemma still_waiting_simps [simp]:
  "still_waiting [] = []" "still_waiting ((c, f) # cs) = (if f then still_waiting cs else c # still_waiting cs)"
  by (simp_all add: still_waiting_def)

lemma still_waiting_sub: "set (still_waiting cs) \<subseteq> fst ` set cs"
  by (auto simp: still_waiting_def)

lemma give_claims_run:
  assumes "give_claims l a cs = (a', cs')" "\<And>c. c \<in> set (map fst cs) \<Longrightarrow> claim_ok c" "0 \<le> a" "is_i64 a"
    and "distinct (map fst cs)"
  shows "a' = a - sum_list (map owed (served l a (still_waiting cs))) \<and> map fst cs' = map fst cs \<and>
    still_waiting cs' = filter (\<lambda>c. c \<notin> set (served l a (still_waiting cs))) (still_waiting cs)"
  using assms
proof (induction l a cs arbitrary: a' cs' rule: give_claims.induct)
  case (1 l a)
  then show ?case by (simp add: served_def)
next
  case (2 l a c f cs)
  have need: "Owed c = owed c" using 2(4) by (simp add: Owed_ok)
  have fresh: "c \<notin> set (still_waiting cs)" using 2(7) still_waiting_sub by fastforce
  show ?case
  proof (cases "f \<or> owed c \<le> 0 \<or> owed c > a \<or> l \<notin> set (bo_LocationIDs c)")
    case True
    obtain b ds where rest: "give_claims l a cs = (b, ds)" by fastforce
    have out: "a' = b" "cs' = (c, f) # ds" using 2(3) True need rest by (auto simp: Let_def)
    have go: "f \<or> Owed c \<le> 0 \<or> Owed c > a \<or> l \<notin> set (bo_LocationIDs c)" using True need by simp
    from 2(1) [OF refl go rest] 2(4-7)
    have ih: "b = a - sum_list (map owed (served l a (still_waiting cs))) \<and> map fst ds = map fst cs \<and>
      still_waiting ds = filter (\<lambda>c. c \<notin> set (served l a (still_waiting cs))) (still_waiting cs)" by simp
    have same: "served l a (still_waiting ((c, f) # cs)) = served l a (still_waiting cs)"
      using True by (auto simp: served_def)
    have "c \<notin> set (served l a (still_waiting cs))" using fresh by (auto simp: served_def dest: completed_set [THEN subsetD])
    then show ?thesis unfolding same using ih out by simp
  next
    case False
    have sub: "sub64 a (owed c) = a - owed c"
      using False 2(5,6) by (intro sub64_id) (auto simp: is_i64_def MinInt64_def)
    obtain b ds where rest: "give_claims l (a - owed c) cs = (b, ds)" by fastforce
    have out: "a' = b" "cs' = (c, True) # ds" using 2(3) False need rest sub by (auto simp: Let_def)
    have go: "\<not> (f \<or> Owed c \<le> 0 \<or> Owed c > a \<or> l \<notin> set (bo_LocationIDs c))" using False need by simp
    have "is_i64 (a - owed c)" "0 \<le> a - owed c" using False 2(5,6) by (auto simp: is_i64_def MinInt64_def)
    with 2(2) [OF refl go] rest 2(4,7) sub need
    have ih: "b = a - owed c - sum_list (map owed (served l (a - owed c) (still_waiting cs))) \<and> map fst ds = map fst cs \<and>
      still_waiting ds = filter (\<lambda>d. d \<notin> set (served l (a - owed c) (still_waiting cs))) (still_waiting cs)" by simp
    have same: "served l a (still_waiting ((c, f) # cs)) = c # served l (a - owed c) (still_waiting cs)"
      using False by (auto simp: served_def)
    have other: "filter (\<lambda>d. d \<notin> set (c # served l (a - owed c) (still_waiting cs))) (still_waiting cs) =
        filter (\<lambda>d. d \<notin> set (served l (a - owed c) (still_waiting cs))) (still_waiting cs)"
      using fresh by (intro filter_cong) auto
    show ?thesis unfolding same using ih out False other by simp
  qed
qed


lemma served_sum: "0 \<le> a \<Longrightarrow> 0 \<le> sum_list (map owed (served l a q)) \<and> sum_list (map owed (served l a q)) \<le> a"
  by (simp add: served_def completed_sum completed_positive)

text \<open>The claims the forecast serves are those a fill at the warehouse would serve.\<close>

lemma served_is_the_fill:
  "served l a (sort_key bo_Seq (filter (\<lambda>c. bo_InventoryItemID c = i \<and> bo_Status c = BackorderWaiting) (sd_backorder db))) =
    completed a (waiting_at db i l)"
proof -
  have "filter (\<lambda>c. l \<in> set (bo_LocationIDs c)) (filter (\<lambda>c. bo_InventoryItemID c = i \<and> bo_Status c = BackorderWaiting) xs) =
    filter (waits_at i l) xs" for xs
    by (induction xs) (auto simp: waits_at_def)
  then show ?thesis unfolding served_def waiting_at_def filter_sort by (rule arg_cong)
qed

lemma dates_loop_run:
  assumes "\<And>c. c \<in> set (map fst cs) \<Longrightarrow> claim_ok c" "distinct (map fst cs)"
    and "\<And>k. 0 \<le> av k \<and> av k + sum_list (map sup_Quantity rs) \<le> MaxInt64" "\<And>r. r \<in> set rs \<Longrightarrow> 0 < sup_Quantity r"
  shows "dates_loop now rs av cs dated l =
    (case dated l of Some d \<Rightarrow> Some d
     | None \<Rightarrow> if (case now l of None \<Rightarrow> 0 | Some n \<Rightarrow> n) \<le> 0 then first_left l (read_forward av (still_waiting cs) rs) else None)"
  using assms
proof (induction now rs av cs dated rule: dates_loop.induct)
  case (1 now av cs dated)
  then show ?case by (simp add: first_left_def split: option.split)
next
  case (2 now r rs av cs dated)
  let ?k = "sup_LocationID r"
  let ?units = "av ?k + sup_Quantity r"
  have q: "0 < sup_Quantity r" "0 \<le> sum_list (map sup_Quantity rs)"
    using 2(5) by (auto intro!: sum_list_nonneg simp: less_imp_le)
  have units: "0 \<le> ?units" "is_i64 ?units" using 2(4) [of ?k] q by (auto simp: is_i64_def MinInt64_def)
  have add: "add64 (av ?k) (sup_Quantity r) = ?units" using units by (intro add64_id)
  obtain a cs' where give: "give_claims ?k ?units cs = (a, cs')" by fastforce
  note g = give_claims_run [OF give 2(2) units 2(3)]
  have a: "a = ?units - sum_list (map owed (served ?k ?units (still_waiting cs)))" "map fst cs' = map fst cs"
    "still_waiting cs' = filter (\<lambda>c. c \<notin> set (served ?k ?units (still_waiting cs))) (still_waiting cs)"
    using g by blast+
  have range: "0 \<le> a" "a \<le> ?units" using served_sum [OF units(1), of ?k "still_waiting cs"] a(1) by auto
  have later: "0 \<le> (av(?k := a)) k \<and> (av(?k := a)) k + sum_list (map sup_Quantity rs) \<le> MaxInt64" for k
    using 2(4) [of k] range q by auto
  have ih: "dates_loop now rs (av(?k := a)) cs' dated' l =
      (case dated' l of Some d \<Rightarrow> Some d
       | None \<Rightarrow> if (case now l of None \<Rightarrow> 0 | Some n \<Rightarrow> n) \<le> 0
           then first_left l (read_forward (av(?k := a)) (still_waiting cs') rs) else None)"
    if "dated' = (if dated ?k = None \<and> (case now ?k of None \<Rightarrow> 0 | Some n \<Rightarrow> n) \<le> 0 \<and> a > 0
      then dated(?k \<mapsto> sup_ExpectedAt r) else dated)" for dated'
    unfolding that
    by (rule 2(1) [OF refl _ refl refl]) (use give add a(2) 2(2,3,5) later in auto)
  have front: "first_left l (read_forward av (still_waiting cs) (r # rs)) =
      (if ?k = l \<and> a > 0 then Some (sup_ExpectedAt r)
       else first_left l (read_forward (av(?k := a)) (still_waiting cs') rs))"
  proof -
    have "read_forward av (still_waiting cs) (r # rs) =
        (?k, sup_ExpectedAt r, a) # read_forward (av(?k := a)) (still_waiting cs') rs"
      unfolding a(3) by (simp add: Let_def a(1))
    then show ?thesis by (simp add: first_left_def)
  qed
  show ?case
    unfolding front using ih [OF refl] give add by (auto simp: Let_def split: option.split)
qed

definition sellable_now :: "(string \<rightharpoonup> int64) \<Rightarrow> string \<Rightarrow> int64" where
  "sellable_now now l = (case now l of None \<Rightarrow> 0 | Some n \<Rightarrow> n)"

text \<open>C29: the forecast is the fill read forward. With counts, claims and receipts as the tables hold them,
  a warehouse that sells something now has no date, and one that sells nothing is dated by the first
  receipt, in the order they are expected, after which units are left there when every earlier
  receipt has given its units to the waiting claims a fill at its warehouse completes, oldest first.\<close>

theorem forecast_reads_the_fill_forward:
  assumes "distinct claims" "\<forall>c \<in> set claims. claim_ok c" "\<forall>r \<in> set receipts. 0 < sup_Quantity r"
    and "\<forall>k. 0 \<le> sellable_now now k \<and> sellable_now now k + sum_list (map sup_Quantity receipts) \<le> MaxInt64"
  shows "restockDates now claims receipts l =
    (if sellable_now now l = 0
     then first_left l (read_forward (sellable_now now) (sort_key bo_Seq claims)
       (sort_key sup_ExpectedAt (sort_key sup_ID receipts)))
     else None)"
proof -
  let ?rs = "sort_key sup_ExpectedAt (sort_key sup_ID receipts)"
  let ?cs = "map (\<lambda>c. (c, False)) (sort_key bo_Seq claims)"
  have total: "sum_list (map sup_Quantity ?rs) = sum_list (map sup_Quantity receipts)"
    by (rule sum_list_mset) simp
  have all: "still_waiting (map (\<lambda>c. (c, False)) xs) = xs" for xs by (induction xs) simp_all
  have "dates_loop now ?rs (sellable_now now) ?cs (\<lambda>_. None) l =
    (case None of Some d \<Rightarrow> Some d
     | None \<Rightarrow> if (case now l of None \<Rightarrow> 0 | Some n \<Rightarrow> n) \<le> 0 then first_left l (read_forward (sellable_now now) (still_waiting ?cs) ?rs) else None)"
    by (rule dates_loop_run) (use assms total in \<open>auto simp: comp_def distinct_map\<close>)
  moreover have "sellable_now now = (\<lambda>l. case now l of None \<Rightarrow> 0 | Some n \<Rightarrow> n)"
    by (simp add: sellable_now_def fun_eq_iff)
  moreover have "0 \<le> sellable_now now l" using assms(4) by blast
  ultimately show ?thesis by (simp add: restockDates_def all sellable_now_def)
qed


definition due_claim :: backorder where
  "due_claim = \<lparr> bo_ID = ''b'', bo_InventoryItemID = shop_item, bo_OrderID = ''o'', bo_OrderLineItemID = ''l'',
    bo_Quantity = 3, bo_WithdrawnQuantity = 0, bo_LocationIDs = [shop_place], bo_Status = BackorderWaiting,
    bo_ReservationID = [], bo_FilledLocationID = [], bo_Seq = 0 \<rparr>"

definition due_receipt :: "string \<Rightarrow> int \<Rightarrow> int \<Rightarrow> supplier_receipt" where
  "due_receipt name n due = \<lparr> sup_ID = name, sup_InventoryItemID = shop_item, sup_LocationID = shop_place,
    sup_Quantity = n, sup_ExpectedAt = due, sup_Reference = [], sup_Status = SupplierReceiptExpected,
    sup_ReceivedQuantity = 0, sup_ReceivedAt = None, sup_CanceledAt = None \<rparr>"

text \<open>Three units come at moment nine and go to the claim; of the five at moment twelve, five are left.\<close>

lemma forecast_reads_the_fill_forward_witness:
  "restockDates (\<lambda>_. None) [due_claim] [due_receipt ''r2'' 5 12, due_receipt ''r1'' 3 9] shop_place = Some 12"
proof -
  have "first_left shop_place (read_forward (sellable_now (\<lambda>_. None)) (sort_key bo_Seq [due_claim])
      (sort_key sup_ExpectedAt (sort_key sup_ID [due_receipt ''r2'' 5 12, due_receipt ''r1'' 3 9]))) = Some 12"
    "sellable_now (\<lambda>_. None) shop_place = 0"
    by code_simp+
  moreover have "restockDates (\<lambda>_. None) [due_claim] [due_receipt ''r2'' 5 12, due_receipt ''r1'' 3 9] shop_place =
    (if sellable_now (\<lambda>_. None) shop_place = 0
     then first_left shop_place (read_forward (sellable_now (\<lambda>_. None)) (sort_key bo_Seq [due_claim])
       (sort_key sup_ExpectedAt (sort_key sup_ID [due_receipt ''r2'' 5 12, due_receipt ''r1'' 3 9])))
     else None)"
    by (rule forecast_reads_the_fill_forward)
      (simp_all add: due_claim_def due_receipt_def claim_ok_def sellable_now_def MaxInt64_def)
  ultimately show ?thesis by simp
qed

end
