(* ===== verification/Spec2Isabelle.thy ===== *)
theory Spec2Isabelle
  imports Errors WfStore WfOptions WfExecutor WfRecover WfSaga WfMemory WfProps WfParallel
    TaxMoney TaxLocal TaxRates TaxCalc
    GoStrings Condition PromoAllocate PromoModels PromoCompute PromoDiscounts PromoProps PromoBuyGet
    PromoRepo PromoAdmin PromoWrites PromoLedger PromoRedeem PromoService PromoServiceProps PromoMove
    Database PriceLadder PriceLadderProps PriceHistory PriceTimeline PriceTables PriceReach PriceRecord
    PriceService PriceServiceProps
    StockTables StockRepo StockLedger StockService StockForecast StockBooks StockReach StockSteps StockFill
    StockProps StockForecastProps
begin

text \<open>
  A verification development for gobit, a headless commerce backend in Go.

  \<^bold>\<open>The program.\<close> gobit is a set of modules (cart, pricing, promotion, tax, inventory, order,
  payment, ...) over a small core. A module keeps its own tables and exposes a service; work that
  spans modules (checkout, returns, cancellation) is a \<^emph>\<open>saga\<close>: a list of steps, each with a
  compensation, run by the workflow engine in \<^verbatim>\<open>internal/core/workflow\<close>. Money is an integer number
  of minor units throughout and every module computes with bounded \<open>int64\<close> arithmetic.

  \<^bold>\<open>What is modelled.\<close>
  \<^item> \<open>Prelude\<close>: Go's \<open>int64\<close> (an \<open>int\<close> with the wrap-around of every operator written out),
    results, and shared list facts.
  \<^item> \<open>Errors\<close> (\<^verbatim>\<open>core/errors/errors.go\<close>): the typed errors, their wrapping, \<open>Is\<close>, \<open>KindOf\<close>, \<open>CodeOf\<close>.
  \<^item> \<open>WfStore\<close> (\<^verbatim>\<open>workflow/store.go\<close>, \<^verbatim>\<open>memory.go\<close>): execution records and the in-process store,
    its invariant, and the locale \<open>execution_store\<close>, the Store contract, interpreted on it.
  \<^item> \<open>WfOptions\<close> (\<^verbatim>\<open>options.go\<close>), \<open>WfExecutor\<close> (\<^verbatim>\<open>workflow.go\<close>, \<^verbatim>\<open>executor.go\<close>), \<open>WfRecover\<close> (the rest
    of \<^verbatim>\<open>executor.go\<close>, \<^verbatim>\<open>recover.go\<close>), \<open>WfParallel\<close> (\<^verbatim>\<open>parallel.go\<close>): the engine. Everything outside it is
    one state, the world, that the engine threads through the calls it makes; steps, store and
    runtime (clock, context, timers, ids, JSON) are parameters. A panic is a value of a call's
    result, concurrent branches run in an order given by a schedule.
  \<^item> \<open>TaxMoney\<close> (\<^verbatim>\<open>tax/service/money.go\<close>, \<^verbatim>\<open>component.go\<close>), \<open>TaxLocal\<close> (\<^verbatim>\<open>local.go\<close>, \<^verbatim>\<open>stack.go\<close>), \<open>TaxCalc\<close>
    (\<^verbatim>\<open>calculate.go\<close>, \<^verbatim>\<open>validate.go\<close>, \<^verbatim>\<open>taxprovider.go\<close>): the tax module's calculation, rate selection,
    rate stacks and the validation of a provider's answer. The repository's reads are parameters.
  \<^item> \<open>GoStrings\<close>, \<open>Condition\<close> (\<^verbatim>\<open>internal/core/condition\<close>): the string functions the code uses, written
    out, and the rule matcher that promotion and pricing share.
  \<^item> \<open>PromoModels\<close>, \<open>PromoAllocate\<close>, \<open>PromoCompute\<close> (\<^verbatim>\<open>promotion/models\<close>, \<^verbatim>\<open>promotion/service\<close>): the
    promotion module's data, the allocation of an amount over lines, and the computation of the
    discounts of a cart, buy X get Y and the reasons a promotion is skipped included.
  \<^item> \<open>PromoAdmin\<close>: the builders that turn an administrator's input into rows, and the constraints of
    the tables (\<^verbatim>\<open>promotion/migrations\<close>).
  \<^item> \<open>PromoRepo\<close>, \<open>PromoWrites\<close> (\<^verbatim>\<open>promotion/repository\<close> and the SQL in \<^verbatim>\<open>promotiondb\<close>): the tables as
    lists of rows, every statement as a function of them, the transactions of a redemption and a
    release, the guarded writes, and the service operations over them. A fault of the database is
    a parameter that names the statement it strikes; a write that is refused reads the tables again,
    and that later state is an argument, so a concurrent writer in between is covered.
  \<^item> \<open>PromoService\<close> (\<^verbatim>\<open>compute.go\<close>, \<^verbatim>\<open>redeem.go\<close>, \<^verbatim>\<open>trial.go\<close>): the computation over the tables, where
    every statement may see its own state of them, redemption and release by id or code, the
    storefront's lookup of a coupon, and a trial of a promotion over past purchases.
  \<^item> \<open>Database\<close>: what the repositories share, the errors of a statement and the transaction.
  \<^item> \<open>PriceLadder\<close>, \<open>PriceHistory\<close> (\<^verbatim>\<open>pricing/models\<close>, \<^verbatim>\<open>pricing/service/calculate.go\<close>, \<^verbatim>\<open>history.go\<close>):
    the selection of a price, and the price a set charged in the past rebuilt from snapshots.
  \<^item> \<open>PriceTables\<close>, \<open>PriceService\<close> (\<^verbatim>\<open>pricing/repository\<close>, \<^verbatim>\<open>pricing/service\<close>): the tables, every write
    with the snapshot it appends, and the operations of the service over them.
  \<^item> \<open>StockTables\<close>, \<open>StockRepo\<close> (\<^verbatim>\<open>inventory/models\<close>, \<^verbatim>\<open>inventory/repository\<close>, \<^verbatim>\<open>inventorydb\<close>): places, items,
    levels, reservations, movements, claims and receipts, and every statement with the constraints
    the migrations put on it.
  \<^item> \<open>StockLedger\<close> (\<^verbatim>\<open>inventory/service/movements.go\<close>, \<open>deductHeld\<close>, \<open>fillWaiting\<close>): the functions every write
    of stock goes through. A write that makes units sellable calls the fill, which reserves, writes
    and deducts; the fill a write calls is an argument and \<open>fillWaiting\<close> follows the recursion one
    turn, which is all there is (\<open>fill_recursion_ends\<close>).
  \<^item> \<open>StockService\<close>, \<open>StockForecast\<close> (\<^verbatim>\<open>stock.go\<close>, \<^verbatim>\<open>backorder.go\<close>, \<^verbatim>\<open>supplier_receipt.go\<close>, \<^verbatim>\<open>service.go\<close>,
    \<^verbatim>\<open>replacement_recall.go\<close>, \<^verbatim>\<open>forecast.go\<close>, \<^verbatim>\<open>interop.go\<close>): the operations of the service. A call is a
    function of the tables, its faults, the ids it draws and one moment; a read made before the
    transaction has tables of its own.

  \<^bold>\<open>What is shown.\<close>
  \<^item> \<open>WfSaga\<close>, \<open>WfMemory\<close>, \<open>WfProps\<close>: the order of a run, read off an arbitrary observer of the
    world: steps in order, compensation of exactly what was done, in reverse, and one final status
    determined by the outcomes of the compensations and the error of the step that failed;
    retries within their budget; recovery that only compensates and refuses an unknown boundary; a
    key answered by its first success; the store's invariant over all reachable states, exclusivity
    of a claim, and release of a key exactly on \<open>failed\<close>.
  \<^item> \<open>WfParallel\<close>: a concurrent composite is all or nothing under every schedule, its merge keeps
    what a branch did not change, and its error is retryable only if all failures are.
  \<^item> \<open>TaxMoney\<close>: the overflow-free split computations equal the mathematical floors; adding and
    extracting a tax, and how often they differ.
  \<^item> \<open>TaxRates\<close>: the selected rate is the documented choice and does not depend on row order; a
    stack accepted at write time never takes more than the line.
  \<^item> \<open>TaxCalc\<close>: the total is the sum of the lines for every provider; the local provider meets the
    locale \<open>lawful_provider\<close>, so its answers pass the validation.
  \<^item> \<open>PromoAllocate\<close>, \<open>PromoDiscounts\<close>, \<open>PromoProps\<close>, \<open>PromoBuyGet\<close>: an allocation is exact, within the
    lines and independent of their order; a discount adds up in every way it is reported and never
    exceeds a line; candidates are applied in one order; a reward never counts a bought unit.
  \<^item> \<open>PromoLedger\<close>, \<open>PromoRedeem\<close>: the states the tables reach by any sequence of writes under any
    faults, and the invariant that ties the counters to the ledger of redemptions; a redemption is
    whole, counted once and within its limits, its row written out field by field; a release undoes
    it. \<open>PromoWrites\<close>: which accepted rows the constraints of the tables take.
  \<^item> \<open>PromoServiceProps\<close>, \<open>PromoMove\<close>: what an operator is shown is what the customer gets, what is
    offered can be redeemed, a trial prices with its own method and rules what a cart would have paid, the walk over the ledger
    ends; a promotion is moved only from where the operator saw it.
  \<^item> \<open>PriceLadderProps\<close>, \<open>PriceTimeline\<close>: the selected price is the first of the documented ladder; a
    timeline tells the ladder's answer at every instant, and a reduction stated from it is true.
  \<^item> \<open>PriceReach\<close>, \<open>PriceRecord\<close>: the states the pricing tables reach, and that the snapshots tell for
    every instant what the live tables charged; where a deletion's stamp breaks this.
  \<^item> \<open>PriceServiceProps\<close>: a calculated total is exact, and a comparison of a list tells what the shop
    would charge without it and with it; an edit of a base price changes that price and no other.
  \<^item> \<open>StockBooks\<close>, \<open>StockReach\<close>, \<open>StockSteps\<close>: the invariant of the stock tables, each operation keeping
    it, and the states the calls reach from empty tables, each with the states before it. What every
    writing statement keeps every call keeps: the locale \<open>kept_by_statements\<close>, interpreted on the
    receipts of an earlier moment, the places of the levels and the ledger of an earlier moment.
  \<^item> \<open>StockFill\<close>, \<open>StockProps\<close>: stock is the sum of its movements and holds the sum of its promises, a
    promise leaves once, a receipt is counted once, the queue is served in order, a warehouse is
    announced where it can be reserved from, and a closed one is empty.
  \<^item> \<open>StockForecastProps\<close>: the forecast is the fill read forward over the receipts to come.

  \<^bold>\<open>Bounds and termination.\<close> The retry loops recurse on the attempts left; \<open>Run\<close> makes two turns,
  as the code does; the walk up a rate stack is bounded by \<open>maxStackDepth\<close> (the code's own bound),
  and the walks down by the ids not yet seen, so every function is total and no fuel is used. The
  trial's walk over the ledger advances an offset of 32 bits that wraps; it is a partial function, and
  that it ends is a theorem. In the promotion module a time counts nanoseconds, as Go's does, and
  \<open>column_time\<close> is what a column keeps of it; in pricing and inventory a time counts microseconds,
  the resolution of the columns, so times that differ by less are one time there.

  \<^bold>\<open>What is not modelled.\<close> SQL repositories other than those of promotion,
  pricing and inventory, their paged lists, metadata and bookkeeping times, HTTP, configuration, logging, plugins and the admin UI;
  the floating-point backoff (a field of the policy); the generation of ids; interleavings inside
  one transaction of the inventory, whose row locks order the calls that share rows, and the reading
  of the clock by each of its writes where the model has one moment per call; messages and details
  of errors, which decide nothing. Byte strings are \<open>string\<close>; where the code looks at characters
  the model uses code points.

  \<^bold>\<open>Plan.\<close> What would come next: cart totals, then the state machines of payment and order.
\<close>

end
